(* ===== verification/Prelude.thy ===== *)
theory Prelude
  imports Main "HOL-Library.Word" "HOL-Library.Monad_Syntax"
begin

text \<open>
  The shared vocabulary of the development: the C integer types as words, the result
  type of kernel operations, and the generic facts on words, lists and options that
  the component theories use.

  A kernel operation that may touch memory it must not touch (a NULL dereference, a
  read of an address where no object lives, a write past a fixed-size array) has an
  \<open>option\<close> result, and \<open>None\<close> is that fault. The option monad of
  \<open>HOL-Library.Monad_Syntax\<close> threads it, so every step of a translated function
  body that can fault is a bind.
\<close>

unbundle bit_operations_syntax

section \<open>C integer types\<close>

type_synonym u8 = "8 word"
type_synonym u16 = "16 word"
type_synonym u32 = "32 word"
type_synonym u64 = "64 word"

abbreviation NULL :: u32 where
  "NULL \<equiv> 0"

section \<open>Fact collections\<close>

named_theorems fault_simps \<open>equations that evaluate an option-monad step\<close>
named_theorems layout_simps \<open>sizes and addresses of the kernel's memory layout\<close>

lemmas [fault_simps] = Option.bind_eq_Some_conv Option.bind_eq_None_conv

section \<open>Words\<close>

lemma unat_add_no_wrap:
  fixes a b :: "'a::len word"
  shows "unat a + unat b < 2 ^ LENGTH('a) \<Longrightarrow> unat (a + b) = unat a + unat b"
  by (rule unat_add_lem [THEN iffD1])

lemma unat_add_no_wrap32:
  fixes a b :: u32
  shows "unat a + unat b < 4294967296 \<Longrightarrow> unat (a + b) = unat a + unat b"
  using unat_add_no_wrap [of a b] by simp

lemma unat_lt32: "unat (a :: u32) < 4294967296"
  using unsigned_less [of a] by simp

lemma word_eq_iff_unat32: "(a :: u32) = b \<longleftrightarrow> unat a = unat b"
  by (rule word_unat_eq_iff)

lemma unat_sub32:
  fixes a b :: u32
  shows "unat b \<le> unat a \<Longrightarrow> unat (a - b) = unat a - unat b"
  by (simp add: unat_sub word_le_nat_alt)

lemma unat_mod4: "unat ((a :: u32) mod 4) = unat a mod 4"
  by (simp add: unat_mod)

lemma split_mask:
  fixes x :: "'a::len word"
  shows "(x AND NOT (mask n)) + take_bit n x = x"
proof -
  have "(x AND NOT (mask n)) AND take_bit n x = 0"
    by (rule bit_eqI) (auto simp: bit_simps)
  then have "(x AND NOT (mask n)) + take_bit n x = (x AND NOT (mask n)) OR take_bit n x"
    by (rule disjunctive_add_eq_or)
  also have "\<dots> = x" by (rule bit_eqI) (auto simp: bit_simps)
  finally show ?thesis .
qed

lemma unat_align_down:
  fixes x :: "'a::len word"
  shows "unat (x AND NOT (mask n)) = unat x - unat x mod 2 ^ n"
proof -
  have "x AND NOT (mask n) = x - take_bit n x"
    by (metis add_diff_cancel_right' split_mask)
  moreover have u: "unat (take_bit n x) = unat x mod 2 ^ n"
    unfolding unsigned_take_bit_eq by (simp add: take_bit_eq_mod)
  moreover have "take_bit n x \<le> x"
    unfolding word_le_nat_alt u by simp
  ultimately show ?thesis by (simp add: unat_sub)
qed

lemma not_4095: "NOT 4095 = (NOT (mask 12) :: u32)"
  by (simp add: mask_eq_exp_minus_1)

section \<open>Lists\<close>

lemma map_nth_cong:
  assumes "length xs = length ys" and "\<And>i. i < length xs \<Longrightarrow> f (xs ! i) = g (ys ! i)"
  shows "map f xs = map g ys"
  using assms by (intro nth_equalityI) auto

lemma remove1_append_notin:
  "x \<notin> set xs \<Longrightarrow> remove1 x (xs @ x # ys) = xs @ ys"
  by (induction xs) auto

lemma list_update_twice [simp]: "xs[i := a, i := b] = xs[i := b]"
  by simp

lemma mem_concat_drop:
  "p \<in> set (concat (drop i xs)) \<longleftrightarrow> (\<exists>j. i \<le> j \<and> j < length xs \<and> p \<in> set (xs ! j))"
proof
  assume "p \<in> set (concat (drop i xs))"
  then obtain k where "k < length xs - i" "p \<in> set (xs ! (i + k))"
    by (auto simp: in_set_conv_nth [of _ "drop i xs"])
  then show "\<exists>j. i \<le> j \<and> j < length xs \<and> p \<in> set (xs ! j)"
    by (intro exI [of _ "i + k"]) auto
next
  assume "\<exists>j. i \<le> j \<and> j < length xs \<and> p \<in> set (xs ! j)"
  then obtain j where "i \<le> j" "j < length xs" "p \<in> set (xs ! j)" by blast
  then have "xs ! j = drop i xs ! (j - i)" "j - i < length (drop i xs)" by auto
  then have "xs ! j \<in> set (drop i xs)" using nth_mem [of "j - i" "drop i xs"] by simp
  then show "p \<in> set (concat (drop i xs))" using \<open>p \<in> set (xs ! j)\<close> by auto
qed

section \<open>Options\<close>

lemma bind_Some_if [simp]:
  "Option.bind (if b then x else y) f = (if b then Option.bind x f else Option.bind y f)"
  by simp

end
