(* ===== verification/Machine.thy ===== *)
theory Machine
  imports Prelude
begin

text \<open>
  The machine below the kernel: the timer tick counter, byte-addressed memory, and the
  I/O ports. Memory is one function from 32-bit addresses to bytes; addresses wrap
  modulo \<open>2^32\<close> as they do on the CPU. Port input is answered by an environment
  function of the whole history of device accesses, which stands for the devices.

  Every later state record extends \<open>machine\<close>, so the operations here apply to the
  whole kernel state, as the C globals do.

  Sources: \<^verbatim>\<open>drivers/io/io.c\<close>, \<^verbatim>\<open>kernel/mm/memory.h\<close>, \<^verbatim>\<open>kernel/mm/memory.c\<close> (the
  string instructions), \<^verbatim>\<open>kernel/utils/string.c\<close> and the memory routines of
  \<^verbatim>\<open>drivers/vga/vga.c\<close>.
\<close>

section \<open>State\<close>

datatype io_event =
    OutB u16 u8 | OutW u16 u16 | OutL u16 u32
  | InB u16 | InW u16 | InL u16
  | MmioW u32 u32 | MmioR u32

record machine =
  ticks :: u32
  mem :: "u32 \<Rightarrow> u8"
  io_env :: "io_event list \<Rightarrow> u32"
  dma_env :: "io_event list \<Rightarrow> (u32 \<Rightarrow> u8) \<Rightarrow> (u32 \<Rightarrow> u8)"
  io_hist :: "io_event list"

section \<open>Port I/O\<close>

definition outb :: "u16 \<Rightarrow> u8 \<Rightarrow> 'z machine_scheme \<Rightarrow> 'z machine_scheme" where
  "outb port val s = s\<lparr>io_hist := OutB port val # io_hist s\<rparr>"

definition outw :: "u16 \<Rightarrow> u16 \<Rightarrow> 'z machine_scheme \<Rightarrow> 'z machine_scheme" where
  "outw port val s = s\<lparr>io_hist := OutW port val # io_hist s\<rparr>"

definition outl :: "u16 \<Rightarrow> u32 \<Rightarrow> 'z machine_scheme \<Rightarrow> 'z machine_scheme" where
  "outl port val s = s\<lparr>io_hist := OutL port val # io_hist s\<rparr>"

definition inb :: "u16 \<Rightarrow> 'z machine_scheme \<Rightarrow> u8 \<times> 'z machine_scheme" where
  "inb port s = (let h = InB port # io_hist s in (ucast (io_env s h), s\<lparr>io_hist := h\<rparr>))"

definition inw :: "u16 \<Rightarrow> 'z machine_scheme \<Rightarrow> u16 \<times> 'z machine_scheme" where
  "inw port s = (let h = InW port # io_hist s in (ucast (io_env s h), s\<lparr>io_hist := h\<rparr>))"

definition inl :: "u16 \<Rightarrow> 'z machine_scheme \<Rightarrow> u32 \<times> 'z machine_scheme" where
  "inl port s = (let h = InL port # io_hist s in (io_env s h, s\<lparr>io_hist := h\<rparr>))"

text \<open>
  Device registers in memory. A device that masters the bus may write memory at any time the
  kernel looks at its registers: \<open>dma_env\<close> is that change.
\<close>

definition mmio_read :: "u32 \<Rightarrow> 'z machine_scheme \<Rightarrow> u32 \<times> 'z machine_scheme" where
  "mmio_read a s = (let h = MmioR a # io_hist s in
     (io_env s h, s\<lparr>io_hist := h, mem := dma_env s h (mem s)\<rparr>))"

definition mmio_write :: "u32 \<Rightarrow> u32 \<Rightarrow> 'z machine_scheme \<Rightarrow> 'z machine_scheme" where
  "mmio_write a v s = s\<lparr>io_hist := MmioW a v # io_hist s\<rparr>"

section \<open>Little-endian words in memory\<close>

definition load16 :: "(u32 \<Rightarrow> u8) \<Rightarrow> u32 \<Rightarrow> u16" where
  "load16 m a = (ucast (m a) :: u16) OR push_bit 8 (ucast (m (a + 1)))"

definition load32 :: "(u32 \<Rightarrow> u8) \<Rightarrow> u32 \<Rightarrow> u32" where
  "load32 m a = (ucast (m a) :: u32) OR push_bit 8 (ucast (m (a + 1)))
     OR push_bit 16 (ucast (m (a + 2))) OR push_bit 24 (ucast (m (a + 3)))"

definition store32 :: "(u32 \<Rightarrow> u8) \<Rightarrow> u32 \<Rightarrow> u32 \<Rightarrow> (u32 \<Rightarrow> u8)" where
  "store32 m a v = m(a := ucast v, a + 1 := ucast (drop_bit 8 v),
     a + 2 := ucast (drop_bit 16 v), a + 3 := ucast (drop_bit 24 v))"

section \<open>Byte runs\<close>

definition read_bytes :: "(u32 \<Rightarrow> u8) \<Rightarrow> u32 \<Rightarrow> nat \<Rightarrow> u8 list" where
  "read_bytes m a n = map (\<lambda>i. m (a + of_nat i)) [0..<n]"

fun write_bytes :: "(u32 \<Rightarrow> u8) \<Rightarrow> u32 \<Rightarrow> u8 list \<Rightarrow> (u32 \<Rightarrow> u8)" where
  "write_bytes m a [] = m"
| "write_bytes m a (b # bs) = write_bytes (m(a := b)) (a + 1) bs"

text \<open>\<^verbatim>\<open>memcpy\<close> and \<^verbatim>\<open>memset\<close>: one byte per iteration, forwards.\<close>

fun memcpy :: "(u32 \<Rightarrow> u8) \<Rightarrow> u32 \<Rightarrow> u32 \<Rightarrow> nat \<Rightarrow> (u32 \<Rightarrow> u8)" where
  "memcpy m d s 0 = m"
| "memcpy m d s (Suc n) = memcpy (m(d := m s)) (d + 1) (s + 1) n"

text \<open>The backward loop of \<^verbatim>\<open>memmove\<close>, entered with \<open>d + n\<close> and \<open>s + n\<close>.\<close>

fun memcpy_back :: "(u32 \<Rightarrow> u8) \<Rightarrow> u32 \<Rightarrow> u32 \<Rightarrow> nat \<Rightarrow> (u32 \<Rightarrow> u8)" where
  "memcpy_back m d s 0 = m"
| "memcpy_back m d s (Suc n) = memcpy_back (m(d - 1 := m (s - 1))) (d - 1) (s - 1) n"

definition memmove :: "(u32 \<Rightarrow> u8) \<Rightarrow> u32 \<Rightarrow> u32 \<Rightarrow> nat \<Rightarrow> (u32 \<Rightarrow> u8)" where
  "memmove m d s n =
     (if d = s then m
      else if d < s then memcpy m d s n
      else memcpy_back m (d + of_nat n) (s + of_nat n) n)"

fun memcmp :: "(u32 \<Rightarrow> u8) \<Rightarrow> u32 \<Rightarrow> u32 \<Rightarrow> nat \<Rightarrow> int" where
  "memcmp m p1 p2 0 = 0"
| "memcmp m p1 p2 (Suc n) =
     (if m p1 \<noteq> m p2 then uint (m p1) - uint (m p2) else memcmp m (p1 + 1) (p2 + 1) n)"

fun memset :: "(u32 \<Rightarrow> u8) \<Rightarrow> u32 \<Rightarrow> u8 \<Rightarrow> nat \<Rightarrow> (u32 \<Rightarrow> u8)" where
  "memset m p value 0 = m"
| "memset m p value (Suc n) = memset (m(p := value)) (p + 1) value n"

text \<open>
  \<^verbatim>\<open>fast_memcpy\<close>: \<^verbatim>\<open>rep movsl\<close> for \<open>n / 4\<close> double words, then \<^verbatim>\<open>rep movsb\<close> for
  the \<open>n % 4\<close> remaining bytes; each \<^verbatim>\<open>movsl\<close> loads four bytes before it stores them.
  \<^verbatim>\<open>fast_memset\<close> (\<^verbatim>\<open>rep stosl\<close>) stores \<open>count\<close> double words.
\<close>

fun rep_movsl :: "(u32 \<Rightarrow> u8) \<Rightarrow> u32 \<Rightarrow> u32 \<Rightarrow> nat \<Rightarrow> (u32 \<Rightarrow> u8)" where
  "rep_movsl m d s 0 = m"
| "rep_movsl m d s (Suc n) =
     rep_movsl (m(d := m s, d + 1 := m (s + 1), d + 2 := m (s + 2), d + 3 := m (s + 3)))
       (d + 4) (s + 4) n"

definition fast_memcpy :: "(u32 \<Rightarrow> u8) \<Rightarrow> u32 \<Rightarrow> u32 \<Rightarrow> u32 \<Rightarrow> (u32 \<Rightarrow> u8)" where
  "fast_memcpy m dest src n =
     (let dwords = unat (n div 4); bytes = unat (n mod 4);
          m' = rep_movsl m dest src dwords
      in memcpy m' (dest + 4 * of_nat dwords) (src + 4 * of_nat dwords) bytes)"

fun fast_memset :: "(u32 \<Rightarrow> u8) \<Rightarrow> u32 \<Rightarrow> u32 \<Rightarrow> nat \<Rightarrow> (u32 \<Rightarrow> u8)" where
  "fast_memset m dest val 0 = m"
| "fast_memset m dest val (Suc n) = fast_memset (store32 m dest val) (dest + 4) val n"

section \<open>Time\<close>

text \<open>
  \<^verbatim>\<open>sleep\<close> halts until the tick counter reaches \<open>ticks + ms\<close>; when that sum wraps the
  comparison fails at once and the call returns immediately.
\<close>

definition get_ticks :: "'z machine_scheme \<Rightarrow> u32" where
  "get_ticks s = ticks s"

definition sleep :: "u32 \<Rightarrow> 'z machine_scheme \<Rightarrow> 'z machine_scheme" where
  "sleep ms s = (let end_ticks = get_ticks s + ms in
     if get_ticks s < end_ticks then s\<lparr>ticks := end_ticks\<rparr> else s)"


section \<open>The block-copy specification\<close>

text \<open>
  The reference for every copy routine: all source bytes are read before any destination
  byte is written. \<open>x\<close> lies in the destination run exactly when \<open>x - d\<close>, taken
  modulo \<open>2^32\<close>, is below \<open>n\<close>.
\<close>

definition block_copy :: "(u32 \<Rightarrow> u8) \<Rightarrow> u32 \<Rightarrow> u32 \<Rightarrow> nat \<Rightarrow> (u32 \<Rightarrow> u8)" where
  "block_copy m d s n = (\<lambda>x. if unat (x - d) < n then m (s + (x - d)) else m x)"

lemma block_copy_0 [simp]: "block_copy m d s 0 = m"
  by (simp add: block_copy_def)

lemma unat_of_nat32: "n < 4294967296 \<Longrightarrow> unat (of_nat n :: u32) = n"
  by (simp add: unat_of_nat)

lemma unat_sub_of_nat32:
  assumes "n < 4294967296"
  shows "unat (k - of_nat n :: u32) =
    (if n \<le> unat k then unat k - n else unat k + 4294967296 - n)"
proof -
  have "unat (k - of_nat n) = (if unat (of_nat n :: u32) \<le> unat k
      then unat k - unat (of_nat n :: u32)
      else unat k + 2 ^ size k - unat (of_nat n :: u32))"
    by (rule unat_sub_if_size)
  then show ?thesis
    using assms by (simp add: unat_of_nat32 word_size)
qed

lemma block_copy_comp:
  assumes safe: "d = s \<or> a + b \<le> unat (d - s)" and ab: "a + b < 4294967296"
  shows "block_copy (block_copy m d s a) (d + of_nat a) (s + of_nat a) b = block_copy m d s (a + b)"
proof
  fix x :: u32
  define k where "k = x - d"
  have k1: "x - (d + of_nat a) = k - of_nat a"
    and k2: "s + of_nat a + (k - of_nat a) = s + k" by (simp_all add: k_def)
  have k3: "s + k - d = k - (d - s)" by simp
  have cond: "unat (k - of_nat a) < b \<longleftrightarrow> a \<le> unat k \<and> unat k < a + b"
    using ab unat_lt32 [of k] by (auto simp: unat_sub_of_nat32)
  have keep: "\<not> unat (k - (d - s)) < a" if "a \<le> unat k" "unat k < a + b"
  proof (cases "d = s")
    case True
    then show ?thesis using that by simp
  next
    case False
    with safe that have lt: "unat k < unat (d - s)" and ab': "a + b \<le> unat (d - s)" by auto
    have "unat (k - (d - s)) = unat k + 4294967296 - unat (d - s)"
      using unat_sub_of_nat32 [of "unat (d - s)" k] lt unat_lt32 [of "d - s"] by simp
    then show ?thesis using that unat_lt32 [of "d - s"] by simp
  qed
  show "block_copy (block_copy m d s a) (d + of_nat a) (s + of_nat a) b x = block_copy m d s (a + b) x"
    unfolding block_copy_def k1 k2 k3 k_def [symmetric] using cond keep by auto
qed

lemma block_copy_1: "block_copy m d s 1 = m(d := m s)"
proof
  fix x
  show "block_copy m d s 1 x = (m(d := m s)) x"
    by (auto simp: block_copy_def unat_eq_0)
qed


lemma memcpy_block_copy:
  assumes "d = s \<or> n \<le> unat (d - s)" and "n < 4294967296"
  shows "memcpy m d s n = block_copy m d s n"
  using assms
proof (induction n arbitrary: m d s)
  case 0
  then show ?case by simp
next
  case (Suc n)
  have "memcpy m d s (Suc n) = block_copy (block_copy m d s 1) (d + 1) (s + 1) n"
    using Suc by (auto simp: block_copy_1 [unfolded One_nat_def])
  also have "\<dots> = block_copy m d s (1 + n)"
    using block_copy_comp [of d s 1 n m] Suc.prems by simp
  finally show ?case by simp
qed

lemma block_copy_4:
  assumes "d = s \<or> 4 \<le> unat (d - s)"
  shows "block_copy m d s 4 = m(d := m s, d + 1 := m (s + 1), d + 2 := m (s + 2), d + 3 := m (s + 3))"
proof -
  have "block_copy m d s 4 = memcpy m d s 4"
    using assms by (subst memcpy_block_copy) auto
  also have "\<dots> = m(d := m s, d + 1 := (m(d := m s)) (s + 1),
      d + 2 := (m(d := m s, d + 1 := (m(d := m s)) (s + 1))) (s + 2),
      d + 3 := (m(d := m s, d + 1 := (m(d := m s)) (s + 1),
        d + 2 := (m(d := m s, d + 1 := (m(d := m s)) (s + 1))) (s + 2))) (s + 3))"
    by (simp add: numeral_eq_Suc add.assoc)
  finally show ?thesis
  proof (rule trans)
    have ne: "s + j \<noteq> d + i" if "d \<noteq> s" "i < 3" "j < 4" "i < j" for i j
    proof
      assume "s + j = d + i"
      then have "d - s = j - i" by (simp add: algebra_simps)
      moreover have "unat (j - i) < 4" using that by unat_arith
      ultimately show False using assms that by simp
    qed
    show "m(d := m s, d + 1 := (m(d := m s)) (s + 1),
      d + 2 := (m(d := m s, d + 1 := (m(d := m s)) (s + 1))) (s + 2),
      d + 3 := (m(d := m s, d + 1 := (m(d := m s)) (s + 1),
        d + 2 := (m(d := m s, d + 1 := (m(d := m s)) (s + 1))) (s + 2))) (s + 3)) =
      m(d := m s, d + 1 := m (s + 1), d + 2 := m (s + 2), d + 3 := m (s + 3))"
    proof (cases "d = s")
      case True
      then show ?thesis by (simp add: fun_eq_iff)
    next
      case False
      then show ?thesis
        using ne [of 0 1] ne [of 0 2] ne [of 0 3] ne [of 1 2] ne [of 1 3] ne [of 2 3] by simp
    qed
  qed
qed

lemma rep_movsl_block_copy:
  assumes "d = s \<or> 4 * n \<le> unat (d - s)" and "4 * n < 4294967296"
  shows "rep_movsl m d s n = block_copy m d s (4 * n)"
  using assms
proof (induction n arbitrary: m d s)
  case 0
  then show ?case by simp
next
  case (Suc n)
  have "rep_movsl m d s (Suc n) = rep_movsl (block_copy m d s 4) (d + 4) (s + 4) n"
    using Suc.prems(1) by (subst block_copy_4) auto
  also have "\<dots> = block_copy (block_copy m d s 4) (d + 4) (s + 4) (4 * n)"
    using Suc by auto
  also have "\<dots> = block_copy m d s (4 + 4 * n)"
    using block_copy_comp [of d s 4 "4 * n" m] Suc.prems by simp
  finally show ?case by simp
qed

lemma fast_memcpy_block_copy:
  assumes "d = s \<or> unat n \<le> unat (d - s)"
  shows "fast_memcpy m d s n = block_copy m d s (unat n)"
proof -
  let ?q = "unat (n div 4)" and ?r = "unat (n mod 4)"
  have qr: "4 * ?q + ?r = unat n" by (simp add: unat_div unat_mod)
  have lt: "unat n < 4294967296" by (rule unat_lt32)
  have "fast_memcpy m d s n =
      memcpy (block_copy m d s (4 * ?q)) (d + of_nat (4 * ?q)) (s + of_nat (4 * ?q)) ?r"
    unfolding fast_memcpy_def Let_def using assms qr lt
    by (subst rep_movsl_block_copy) auto
  also have "\<dots> = block_copy (block_copy m d s (4 * ?q)) (d + of_nat (4 * ?q)) (s + of_nat (4 * ?q)) ?r"
    using assms qr lt by (intro memcpy_block_copy) auto
  also have "\<dots> = block_copy m d s (4 * ?q + ?r)"
    using assms qr lt by (intro block_copy_comp) auto
  finally show ?thesis using qr by simp
qed

lemma memcpy_back_block_copy:
  assumes "d = s \<or> n \<le> unat (s - d)" and "n < 4294967296"
  shows "memcpy_back m (d + of_nat n) (s + of_nat n) n = block_copy m d s n"
  using assms
proof (induction n arbitrary: m)
  case 0
  then show ?case by simp
next
  case (Suc n)
  let ?m = "m(d + of_nat n := m (s + of_nat n))"
  have "memcpy_back m (d + of_nat (Suc n)) (s + of_nat (Suc n)) (Suc n) = block_copy ?m d s n"
    using Suc by auto
  also have "\<dots> = block_copy m d s (Suc n)"
  proof
    fix x
    define k where "k = x - d"
    have x: "x = d + k" by (simp add: k_def)
    have n: "unat (of_nat n :: u32) = n" using Suc.prems by (simp add: unat_of_nat32)
    have "s + k \<noteq> d + of_nat n" if "unat k < n" "d \<noteq> s"
    proof
      assume "s + k = d + of_nat n"
      then have "s - d = of_nat n - k" by (simp add: algebra_simps)
      moreover have "unat (of_nat n - k) \<le> n"
        using that n by (simp add: unat_sub32)
      ultimately show False using Suc.prems(1) that by simp
    qed
    moreover have "k = of_nat n \<longleftrightarrow> unat k = n" using n by (metis word_eq_iff_unat32)
    ultimately show "block_copy ?m d s n x = block_copy m d s (Suc n) x"
      unfolding block_copy_def k_def [symmetric] less_Suc_eq
      using n x by (cases "d = s"; cases "unat k < n"; cases "unat k = n") simp_all
  qed
  finally show ?case .
qed


lemma memmove_block_copy:
  assumes "unat d + n \<le> 4294967296" and "unat s + n \<le> 4294967296" and "n < 4294967296"
  shows "memmove m d s n = block_copy m d s n"
proof (cases "d = s")
  case True
  then show ?thesis by (auto simp: memmove_def block_copy_def)
next
  case False
  have diff: "unat (a - b :: u32) = unat a + 4294967296 - unat b" if "unat a < unat b" for a b
    using unat_sub_of_nat32 [of "unat b" a] unat_lt32 [of b] that by simp
  show ?thesis
  proof (cases "d < s")
    case True
    then have "n \<le> unat (d - s)" using assms diff [of d s] by (simp add: word_less_nat_alt)
    then show ?thesis using True False assms by (simp add: memmove_def memcpy_block_copy)
  next
    case ge: False
    with False have lt: "unat s < unat d" by (metis linorder_neqE word_less_nat_alt)
    then have "n \<le> unat (s - d)" using assms diff [of s d] by simp
    then show ?thesis using ge False assms by (simp add: memmove_def memcpy_back_block_copy)
  qed
qed

section \<open>Loads and stores\<close>

lemma addr_offsets_neq [simp]:
  fixes a :: u32
  shows "a + 1 \<noteq> a" "a + 2 \<noteq> a" "a + 3 \<noteq> a" "a \<noteq> a + 1" "a \<noteq> a + 2" "a \<noteq> a + 3"
    "a + 1 \<noteq> a + 2" "a + 1 \<noteq> a + 3" "a + 2 \<noteq> a + 3"
    "a + 2 \<noteq> a + 1" "a + 3 \<noteq> a + 1" "a + 3 \<noteq> a + 2"
  by simp_all

lemma bytes_of_u32:
  fixes v :: u32
  shows "(ucast (ucast v :: u8) :: u32) OR push_bit 8 (ucast (ucast (drop_bit 8 v) :: u8))
     OR push_bit 16 (ucast (ucast (drop_bit 16 v) :: u8))
     OR push_bit 24 (ucast (ucast (drop_bit 24 v) :: u8)) = v" (is "?l = v")
proof (rule bit_word_eqI)
  fix n assume "n < LENGTH(32)"
  then consider "n < 8" | "8 \<le> n" "n < 16" | "16 \<le> n" "n < 24" | "24 \<le> n" "n < 32"
    by fastforce
  then show "bit ?l n = bit v n"
    by cases (auto simp: bit_simps)
qed

lemma load32_store32 [simp]: "load32 (store32 m a v) a = v"
  using bytes_of_u32 [of v] by (simp add: load32_def store32_def)

lemma store32_other:
  assumes "4 \<le> unat (x - a)"
  shows "store32 m a v x = m x"
proof -
  have "unat (0 :: u32) = 0" "unat (1 :: u32) = 1" "unat (2 :: u32) = 2" "unat (3 :: u32) = 3"
    by simp_all
  then have "x - a \<noteq> 0" "x - a \<noteq> 1" "x - a \<noteq> 2" "x - a \<noteq> 3"
    using assms by fastforce+
  then have "x \<noteq> a" "x \<noteq> a + 1" "x \<noteq> a + 2" "x \<noteq> a + 3" by auto
  then show ?thesis by (simp add: store32_def)
qed

lemma load32_store32_other:
  assumes "4 \<le> unat (x - a)" and "4 \<le> unat (a - x)"
  shows "load32 (store32 m a v) x = load32 m x"
proof -
  have "4 \<le> unat (x + of_nat j - a)" if "j < 4" for j
  proof -
    have "unat (a - x) = 4294967296 - unat (x - a)"
      using unat_sub_of_nat32 [of "unat (x - a)" 0] unat_lt32 [of "x - a"] assms by simp
    then have "unat (x - a) + j < 4294967296" using assms that by linarith
    then have "unat (x - a + of_nat j) = unat (x - a) + j"
      using that by (subst unat_add_no_wrap32) (auto simp: unat_of_nat32)
    then show ?thesis using assms by (simp add: algebra_simps)
  qed
  from this [of 0] this [of 1] this [of 2] this [of 3] show ?thesis
    by (simp add: load32_def store32_other)
qed

section \<open>Byte runs\<close>

lemma length_read_bytes [simp]: "length (read_bytes m a n) = n"
  by (simp add: read_bytes_def)

lemma write_bytes_eq:
  assumes "length bs < 4294967296"
  shows "write_bytes m a bs x = (if unat (x - a) < length bs then bs ! unat (x - a) else m x)"
  using assms
proof (induction bs arbitrary: m a)
  case Nil
  then show ?case by simp
next
  case (Cons b bs)
  have d: "x - (a + 1) = (x - a) - 1" by simp
  have "unat ((x - a) - 1) = (if x = a then 4294967295 else unat (x - a) - 1)"
    using unat_sub_of_nat32 [of 1 "x - a"] by (auto simp: unat_eq_0 Suc_le_eq unat_gt_0)
  then show ?case
    using Cons unfolding write_bytes.simps by (subst Cons.IH) (auto simp: d nth_Cons' unat_eq_0)
qed

lemma read_write_bytes:
  assumes "length bs < 4294967296"
  shows "read_bytes (write_bytes m a bs) a (length bs) = bs"
  using assms
  by (intro nth_equalityI) (auto simp: read_bytes_def write_bytes_eq unat_of_nat32)

lemma read_bytes_cong:
  assumes "\<And>i. i < n \<Longrightarrow> m (a + of_nat i) = m' (a + of_nat i)"
  shows "read_bytes m a n = read_bytes m' a n"
  using assms by (simp add: read_bytes_def)

lemma read_bytes_block_copy:
  assumes "n < 4294967296"
  shows "read_bytes (block_copy m d s n) d n = read_bytes m s n"
  using assms by (simp add: read_bytes_def block_copy_def unat_of_nat32)

end
