(* ===== verification/CString.thy ===== *)
theory CString
  imports Machine
begin

text \<open>
  The C string routines of the kernel. A C string is the list of its characters before
  the terminating NUL, so the lists here hold no NUL; the terminator is the end of the
  list. A routine that writes into a caller's fixed array takes the array's size and
  faults (\<open>None\<close>) when the string and its terminator do not fit.

  Sources: \<^verbatim>\<open>drivers/vga/vga.c\<close> (\<^verbatim>\<open>strcmp\<close>, \<^verbatim>\<open>strncmp\<close>, \<^verbatim>\<open>strcpy\<close>, \<^verbatim>\<open>strcat\<close>, \<^verbatim>\<open>strlen\<close>,
  \<^verbatim>\<open>itoa\<close>, \<^verbatim>\<open>atoi\<close>, \<^verbatim>\<open>toupper_char\<close>, \<^verbatim>\<open>tolower\<close>, \<^verbatim>\<open>strtn\<close>, \<^verbatim>\<open>parse_str\<close>), \<^verbatim>\<open>kernel/utils/string.c\<close>
  and the string part of \<^verbatim>\<open>kernel/utils/utils.c\<close>.
\<close>

section \<open>Characters\<close>

text \<open>\<open>char\<close> is signed on this target.\<close>

definition uchar :: "char \<Rightarrow> int" where
  "uchar c = of_char c"

definition schar :: "char \<Rightarrow> int" where
  "schar c = (if uchar c < 128 then uchar c else uchar c - 256)"

definition toupper_char :: "char \<Rightarrow> char" where
  "toupper_char c = (if uchar (CHR ''a'') \<le> uchar c \<and> uchar c \<le> uchar (CHR ''z'')
     then char_of (nat (uchar c - 32)) else c)"

definition tolower_char :: "char \<Rightarrow> char" where
  "tolower_char c = (if uchar (CHR ''A'') \<le> uchar c \<and> uchar c \<le> uchar (CHR ''Z'')
     then char_of (nat (uchar c + 32)) else c)"

definition is_space :: "char \<Rightarrow> bool" where
  "is_space c \<longleftrightarrow> c = CHR '' '' \<or> c = CHR 0x09 \<or> c = CHR 0x0D \<or> c = CHR 0x0A"

section \<open>Comparison, copy, concatenation\<close>

fun strcmp :: "string \<Rightarrow> string \<Rightarrow> int" where
  "strcmp [] [] = 0"
| "strcmp (a # as) [] = schar a"
| "strcmp [] (b # bs) = - schar b"
| "strcmp (a # as) (b # bs) = (if a \<noteq> b then schar a - schar b else strcmp as bs)"

fun strncmp :: "string \<Rightarrow> string \<Rightarrow> nat \<Rightarrow> int" where
  "strncmp as bs 0 = 0"
| "strncmp [] [] (Suc n) = 0"
| "strncmp (a # as) [] (Suc n) = uchar a"
| "strncmp [] (b # bs) (Suc n) = - uchar b"
| "strncmp (a # as) (b # bs) (Suc n) = (if a = b then strncmp as bs n else uchar a - uchar b)"

definition strlen :: "string \<Rightarrow> nat" where
  "strlen str = length str"

definition strcpy :: "nat \<Rightarrow> string \<Rightarrow> string option" where
  "strcpy cap src = (if strlen src < cap then Some src else None)"

definition strcat :: "nat \<Rightarrow> string \<Rightarrow> string \<Rightarrow> string option" where
  "strcat cap dest str = (if strlen dest + strlen str < cap then Some (dest @ str) else None)"

text \<open>\<^verbatim>\<open>str[i]\<close>: the terminator at the end, a fault beyond it.\<close>

definition char_at :: "string \<Rightarrow> nat \<Rightarrow> char option" where
  "char_at str i = (if i < length str then Some (str ! i)
     else if i = length str then Some (CHR 0x00) else None)"

fun strchr :: "string \<Rightarrow> char \<Rightarrow> string option" where
  "strchr [] c = None"
| "strchr (a # as) c = (if a = c then Some (a # as) else strchr as c)"

text \<open>\<^verbatim>\<open>strncpy\<close> fills exactly \<open>n\<close> bytes: the prefix of \<open>src\<close>, then NULs.\<close>

definition strncpy :: "string \<Rightarrow> nat \<Rightarrow> string" where
  "strncpy src n = take n src @ replicate (n - length src) (CHR 0x00)"

section \<open>Numbers\<close>

definition digit_char :: "nat \<Rightarrow> char" where
  "digit_char rem = char_of (if rem > 9 then (rem - 10) + of_char (CHR ''a'') else rem + of_char (CHR ''0''))"

text \<open>The digit loop of \<^verbatim>\<open>itoa\<close>: least significant digit first.\<close>

function itoa_digits :: "nat \<Rightarrow> nat \<Rightarrow> string" where
  "itoa_digits n base =
     (if n = 0 \<or> base < 2 then [] else digit_char (n mod base) # itoa_digits (n div base) base)"
  by pat_completeness auto
termination
  by (relation "measure fst") (auto intro: div_less_dividend)

text \<open>The in-place reversal: \<open>j\<close> from 0 while \<open>j < i / 2\<close>, swapping \<open>j\<close> and \<open>i - j - 1\<close>.\<close>

fun itoa_swap :: "nat \<Rightarrow> nat \<Rightarrow> string \<Rightarrow> string" where
  "itoa_swap 0 j buffer = buffer"
| "itoa_swap (Suc k) j buffer =
     itoa_swap k (Suc j)
       (buffer[j := buffer ! (length buffer - j - 1), length buffer - j - 1 := buffer ! j])"

definition itoa :: "u32 \<Rightarrow> nat \<Rightarrow> string" where
  "itoa n base =
     (if n = 0 then ''0''
      else let buffer = itoa_digits (unat n) base in itoa_swap (length buffer div 2) 0 buffer)"

text \<open>
  \<^verbatim>\<open>atoi\<close> accumulates in a 32-bit \<^verbatim>\<open>long\<close>; the accumulation wraps.
\<close>

definition digit_val :: "char \<Rightarrow> nat option" where
  "digit_val ch = (let c = uchar (tolower_char ch) in
     if uchar (CHR ''0'') \<le> c \<and> c \<le> uchar (CHR ''9'') then Some (nat (c - uchar (CHR ''0'')))
     else if uchar (CHR ''a'') \<le> c \<and> c \<le> uchar (CHR ''z'') then Some (nat (c - uchar (CHR ''a'') + 10))
     else None)"

fun atoi_loop :: "string \<Rightarrow> nat \<Rightarrow> u32 \<Rightarrow> u32" where
  "atoi_loop [] base result = result"
| "atoi_loop (c # cs) base result =
     (case digit_val c of
        None \<Rightarrow> result
      | Some digit \<Rightarrow> if digit \<ge> base then result
          else atoi_loop cs base (result * of_nat base + of_nat digit))"

definition atoi_prefix :: "nat \<Rightarrow> string \<Rightarrow> string" where
  "atoi_prefix base s = (case s of
       a # b # r \<Rightarrow> if base = 16 \<and> a = CHR ''0'' \<and> (b = CHR ''x'' \<or> b = CHR ''X'') then r else s
     | _ \<Rightarrow> s)"

definition atoi :: "string \<Rightarrow> nat \<Rightarrow> int" where
  "atoi str base =
     (let s = dropWhile is_space str;
          sign = (if s \<noteq> [] \<and> hd s = CHR ''-'' then - 1 else 1 :: u32);
          s1 = (if s \<noteq> [] \<and> (hd s = CHR ''-'' \<or> hd s = CHR ''+'') then tl s else s)
      in sint (atoi_loop (atoi_prefix base s1) base 0 * sign))"

fun strtn_loop :: "string \<Rightarrow> u32 \<Rightarrow> u32" where
  "strtn_loop [] n = n"
| "strtn_loop (c # cs) n =
     (if uchar (CHR ''0'') \<le> uchar c \<and> uchar c \<le> uchar (CHR ''9'')
      then strtn_loop cs (n * 10 + of_int (uchar c - uchar (CHR ''0''))) else n)"

definition strtn :: "string \<Rightarrow> int" where
  "strtn str = sint (strtn_loop str 0)"

section \<open>Tokens\<close>

definition trim_whitespace :: "string \<Rightarrow> string" where
  "trim_whitespace str =
     (let s = dropWhile is_space str in
      if s = [] then [] else hd s # rev (dropWhile is_space (rev (tl s))))"

text \<open>
  \<^verbatim>\<open>parse_str\<close> copies the tokens into a static 256-byte buffer: token characters and one
  NUL per token, at most 255 tokens; running past the buffer is a fault. \<open>used\<close> counts
  the bytes written so far.
\<close>

lemma token_rest_shorter:
  assumes "dropWhile P str \<noteq> []"
  shows "length (dropWhile (\<lambda>c. \<not> P c) (dropWhile P str)) < length str"
proof -
  let ?s = "dropWhile P str"
  have "\<not> P (hd ?s)" using hd_dropWhile assms by blast
  then have "length (dropWhile (\<lambda>c. \<not> P c) ?s) < length ?s"
    using assms by (cases ?s) (auto simp: le_imp_less_Suc length_dropWhile_le)
  also have "\<dots> \<le> length str" by (rule length_dropWhile_le)
  finally show ?thesis .
qed

lemma token_tl_shorter:
  "dropWhile P str \<noteq> [] \<Longrightarrow> length (tl (dropWhile (\<lambda>c. \<not> P c) (dropWhile P str))) < length str"
  using token_rest_shorter [of P str] by simp

lemma line_tl_shorter:
  assumes "dropWhile P str \<noteq> []"
  shows "length (tl (dropWhile P str)) < length str"
proof -
  have "length (tl (dropWhile P str)) < length (dropWhile P str)"
    using assms by (cases "dropWhile P str") auto
  also have "\<dots> \<le> length str" by (rule length_dropWhile_le)
  finally show ?thesis .
qed

function parse_str_loop :: "string \<Rightarrow> char \<Rightarrow> nat \<Rightarrow> string list \<Rightarrow> string list option" where
  "parse_str_loop str pc used tokens =
     (if str = [] \<or> length tokens \<ge> 255 then Some tokens
      else let s = dropWhile (\<lambda>c. c = pc) str in
        if s = [] then Some tokens
        else let tok = takeWhile (\<lambda>c. c \<noteq> pc) s; rest = dropWhile (\<lambda>c. c \<noteq> pc) s;
                 used' = used + length tok + 1
          in if used' > 256 then None else parse_str_loop rest pc used' (tokens @ [tok]))"
  by pat_completeness auto
termination
  by (relation "measure (\<lambda>(str, _). length str)")
    (auto simp: token_rest_shorter dropWhile_eq_Nil_conv)

definition parse_str :: "string \<Rightarrow> char \<Rightarrow> string list option" where
  "parse_str str pc = parse_str_loop str pc 0 []"

section \<open>Comparison: facts\<close>

definition nul_free :: "string \<Rightarrow> bool" where
  "nul_free s \<longleftrightarrow> CHR 0x00 \<notin> set s"

lemma uchar_bounds: "0 \<le> uchar c" "uchar c < 256"
  by (simp_all add: uchar_def of_char_def of_bool_def split: if_split)

lemma uchar_inject [simp]: "uchar a = uchar b \<longleftrightarrow> a = b"
  by (simp add: uchar_def)

lemma schar_inject [simp]: "schar a = schar b \<longleftrightarrow> a = b"
proof -
  have "uchar a = uchar b" if "schar a = schar b"
    using that uchar_bounds [of a] uchar_bounds [of b] by (auto simp: schar_def split: if_splits)
  then show ?thesis by auto
qed

lemma uchar_nul [simp]: "uchar (CHR 0x00) = 0"
  by (simp add: uchar_def)

lemma uchar_eq_0 [simp]: "uchar c = 0 \<longleftrightarrow> c = CHR 0x00"
  using uchar_inject [of c "CHR 0x00"] by simp

lemma schar_eq_0 [simp]: "schar c = 0 \<longleftrightarrow> c = CHR 0x00"
  using uchar_bounds [of c] by (auto simp: schar_def)

lemma strcmp_Cons_0 [simp]: "strcmp (a # as) (b # bs) = 0 \<longleftrightarrow> a = b \<and> strcmp as bs = 0"
  by simp

lemma strcmp_refl [simp]: "strcmp s s = 0"
  by (induction s) auto

lemma strcmp_0_iff:
  assumes "nul_free s" and "nul_free t"
  shows "strcmp s t = 0 \<longleftrightarrow> s = t"
  using assms by (induction s t rule: strcmp.induct) (auto simp: nul_free_def)

lemma strncmp_0_iff:
  assumes "nul_free t" and "nul_free s"
  shows "strncmp s t (length t) = 0 \<longleftrightarrow> take (length t) s = t"
  using assms
proof (induction t arbitrary: s)
  case Nil
  then show ?case by simp
next
  case (Cons b t)
  then show ?case by (cases s) (auto simp: nul_free_def)
qed

lemma strcpy_Some [simp]: "strcpy cap src = Some d \<longleftrightarrow> d = src \<and> length src < cap"
  by (auto simp: strcpy_def strlen_def)

lemma strcat_Some [simp]:
  "strcat cap d str = Some r \<longleftrightarrow> r = d @ str \<and> length d + length str < cap"
  by (auto simp: strcat_def strlen_def)

section \<open>Decimal numbers: facts\<close>

lemma itoa_swap_length [simp]: "length (itoa_swap k j b) = length b"
  by (induction k arbitrary: j b) auto

lemma itoa_swap_nth:
  assumes "j + k \<le> length b div 2" and "i < length b"
  shows "itoa_swap k j b ! i =
    (if (j \<le> i \<and> i < j + k) \<or> (length b - j - k \<le> i \<and> i < length b - j) then b ! (length b - 1 - i) else b ! i)"
  using assms
proof (induction k arbitrary: j b)
  case 0
  then show ?case by auto
next
  case (Suc k)
  let ?n = "length b"
  let ?b = "b[j := b ! (?n - j - 1), ?n - j - 1 := b ! j]"
  have jn: "j < ?n" "?n - j - 1 < ?n" "j < ?n - j - 1" using Suc.prems by auto
  have IH: "itoa_swap k (Suc j) ?b ! i =
      (if (Suc j \<le> i \<and> i < Suc j + k) \<or> (?n - Suc j - k \<le> i \<and> i < ?n - Suc j)
       then ?b ! (?n - 1 - i) else ?b ! i)"
    using Suc.IH [of "Suc j" ?b] Suc.prems by simp
  consider "i = j" | "i = ?n - j - 1" | "i \<noteq> j" "i \<noteq> ?n - j - 1" by blast
  then show ?case
  proof cases
    case 1
    with IH jn Suc.prems have "itoa_swap k (Suc j) ?b ! i = ?b ! j" by auto
    with 1 jn show ?thesis by simp
  next
    case 2
    with IH jn Suc.prems have "itoa_swap k (Suc j) ?b ! i = ?b ! (?n - j - 1)" by auto
    moreover have "length b - j - Suc k \<le> i \<and> i < length b - j" "length b - 1 - i = j"
      using 2 jn by auto
    ultimately show ?thesis using 2 jn by simp
  next
    case 3
    then have keep: "?b ! i = b ! i" "?b ! (?n - 1 - i) = b ! (?n - 1 - i)"
      using jn Suc.prems by (auto simp: nth_list_update)
    have "(Suc j \<le> i \<and> i < Suc j + k) \<or> (?n - Suc j - k \<le> i \<and> i < ?n - Suc j) \<longleftrightarrow>
        (j \<le> i \<and> i < j + Suc k) \<or> (?n - j - Suc k \<le> i \<and> i < ?n - j)"
      using 3 jn Suc.prems by auto
    then show ?thesis using IH keep by simp
  qed
qed

lemma itoa_swap_rev: "itoa_swap (length b div 2) 0 b = rev b"
proof (rule nth_equalityI)
  fix i assume i: "i < length (itoa_swap (length b div 2) 0 b)"
  have mid: "b ! i = b ! (length b - 1 - i)" if "\<not> i < length b div 2" "\<not> length b - length b div 2 \<le> i"
  proof -
    have "length b - 1 - i = i" using that by linarith
    then show ?thesis by simp
  qed
  show "itoa_swap (length b div 2) 0 b ! i = rev b ! i"
    using i mid by (subst itoa_swap_nth) (auto simp: rev_nth)
qed simp

declare itoa_digits.simps [simp del]

lemma itoa_digits_0 [simp]: "itoa_digits 0 base = []"
  by (subst itoa_digits.simps) simp

lemma itoa_digits_step:
  "0 < n \<Longrightarrow> 2 \<le> base \<Longrightarrow> itoa_digits n base = digit_char (n mod base) # itoa_digits (n div base) base"
  by (subst itoa_digits.simps) simp

lemma itoa_eq: "n \<noteq> 0 \<Longrightarrow> itoa n base = rev (itoa_digits (unat n) base)"
  by (simp add: itoa_def Let_def itoa_swap_rev)

lemma length_itoa_digits: "2 \<le> base \<Longrightarrow> n < base ^ k \<Longrightarrow> length (itoa_digits n base) \<le> k"
proof (induction k arbitrary: n)
  case 0
  then show ?case by simp
next
  case (Suc k)
  show ?case
  proof (cases "n = 0")
    case False
    have "n div base < base ^ k" using Suc.prems by (simp add: less_mult_imp_div_less mult.commute)
    then show ?thesis using Suc.IH [of "n div base"] Suc.prems False by (simp add: itoa_digits_step)
  qed simp
qed

lemma length_itoa_le:
  assumes "unat n < base ^ k" and "0 < k" and "2 \<le> base"
  shows "length (itoa n base) \<le> k"
  using assms length_itoa_digits [of base "unat n" k] by (cases "n = 0") (auto simp: itoa_def Let_def)

lemma digit_char_table:
  "digit_char 0 = CHR ''0''" "digit_char 1 = CHR ''1''" "digit_char 2 = CHR ''2''" "digit_char 3 = CHR ''3''"
  "digit_char 4 = CHR ''4''" "digit_char 5 = CHR ''5''" "digit_char 6 = CHR ''6''" "digit_char 7 = CHR ''7''"
  "digit_char 8 = CHR ''8''" "digit_char 9 = CHR ''9''"
  by code_simp+

lemma less_10_cases: "d < 10 \<Longrightarrow> (d :: nat) \<in> {0, 1, 2, 3, 4, 5, 6, 7, 8, 9}"
  by auto

lemma digit_val_digit_char:
  assumes "d < 10"
  shows "digit_val (digit_char d) = Some d"
  using less_10_cases [OF assms]
  by (auto simp: digit_char_table [unfolded One_nat_def] digit_val_def tolower_char_def uchar_def)

lemma digit_char_not_special:
  assumes "d < 10"
  shows "\<not> is_space (digit_char d)" "digit_char d \<noteq> CHR ''-''" "digit_char d \<noteq> CHR ''+''"
    "digit_char d \<noteq> CHR 0x00"
  using less_10_cases [OF assms] by (auto simp: digit_char_table [unfolded One_nat_def] is_space_def)

lemma itoa_digits_set:
  "c \<in> set (itoa_digits n 10) \<Longrightarrow> \<exists>d<10. c = digit_char d"
proof (induction n "10 :: nat" rule: itoa_digits.induct)
  case (1 n)
  show ?case
  proof (cases "n = 0")
    case False
    then consider "c = digit_char (n mod 10)" | "c \<in> set (itoa_digits (n div 10) 10)"
      using 1 by (auto simp: itoa_digits_step)
    then show ?thesis
      using 1 False by cases (auto intro!: exI [of _ "n mod 10"])
  qed (use 1 in simp)
qed

lemma atoi_loop_append:
  assumes "\<And>c. c \<in> set xs \<Longrightarrow> \<exists>d<base. digit_val c = Some d"
  shows "atoi_loop (xs @ ys) base r = atoi_loop ys base (atoi_loop xs base r)"
  using assms by (induction xs arbitrary: r) (fastforce split: option.splits)+

lemma atoi_loop_itoa_digits:
  "atoi_loop (rev (itoa_digits n 10)) 10 0 = of_nat n"
proof (induction n "10 :: nat" rule: itoa_digits.induct)
  case (1 n)
  show ?case
  proof (cases "n = 0")
    case False
    let ?ds = "rev (itoa_digits (n div 10) 10)"
    have IH: "atoi_loop ?ds 10 0 = of_nat (n div 10)" using 1 False by simp
    have "atoi_loop (?ds @ [digit_char (n mod 10)]) 10 0 =
        atoi_loop [digit_char (n mod 10)] 10 (atoi_loop ?ds 10 0)"
      by (rule atoi_loop_append) (auto dest!: itoa_digits_set intro!: digit_val_digit_char)
    also have "\<dots> = of_nat (n div 10) * 10 + of_nat (n mod 10)"
      by (simp add: IH digit_val_digit_char)
    also have "\<dots> = of_nat (n div 10 * 10 + n mod 10)" by (simp only: of_nat_add of_nat_mult of_nat_numeral)
    finally show ?thesis using False by (simp add: itoa_digits_step)
  qed simp
qed

text \<open>
  Printing an unsigned number and reading it back gives the number, up to the sign of
  the 32-bit \<^verbatim>\<open>long\<close> that \<^verbatim>\<open>atoi\<close> returns.
\<close>

lemma atoi_itoa: "atoi (itoa n 10) 10 = sint n"
proof (cases "n = 0")
  case True
  then show ?thesis
    by (simp add: itoa_def atoi_def is_space_def atoi_prefix_def digit_val_def tolower_char_def uchar_def)
next
  case False
  let ?s = "rev (itoa_digits (unat n) 10)"
  have ne: "?s \<noteq> []" using False by (simp add: itoa_digits_step unat_gt_0)
  then obtain c cs where s: "?s = c # cs" by (cases ?s) auto
  then obtain d where d: "d < 10" "c = digit_char d"
    using itoa_digits_set [of c "unat n"] by (metis list.set_intros(1) set_rev)
  have "dropWhile is_space ?s = ?s" "atoi_prefix 10 ?s = ?s"
    using s d by (auto simp: digit_char_not_special atoi_prefix_def split: list.splits)
  then show ?thesis
    using False s d digit_char_not_special(2,3) [of d] atoi_loop_itoa_digits [of "unat n"]
    by (simp add: atoi_def itoa_eq)
qed

section \<open>Trimming: facts\<close>

lemma trim_whitespace_ends:
  "trim_whitespace s = [] \<or>
   (\<not> is_space (hd (trim_whitespace s)) \<and> \<not> is_space (last (trim_whitespace s)))"
proof (cases "dropWhile is_space s")
  case Nil
  then show ?thesis by (simp add: trim_whitespace_def)
next
  case (Cons c cs)
  then have c: "\<not> is_space c" using hd_dropWhile [of is_space s] by auto
  let ?t = "dropWhile is_space (rev cs)"
  have "\<not> is_space (last (c # rev ?t))"
    using c hd_dropWhile [of is_space "rev cs"] by (auto simp: last_rev)
  with c Cons show ?thesis by (simp add: trim_whitespace_def)
qed

end
