(* ===== verification/Utils.thy ===== *)
theory Utils
  imports CString
begin

text \<open>
  The kernel utilities of \<^verbatim>\<open>kernel/utils/utils.c\<close> that need no other subsystem: formatted
  output, the pseudo-random generator, UTF-8 decoding, the configuration parser, path
  normalisation and the kernel log.
\<close>

section \<open>State\<close>

text \<open>
  \<open>sys_log\<close> is the text of \<^verbatim>\<open>sys_log_buffer\<close> up to \<^verbatim>\<open>sys_log_pos\<close>; the bytes after that
  position are never read, so the position is the length of the text. \<open>rand_next\<close> is the
  static \<^verbatim>\<open>next\<close> of the generator.
\<close>

record klog_state = machine +
  sys_log :: string
  rand_next :: u32

section \<open>Formatted output\<close>

datatype fmt_arg = ArgWord u32 | ArgStr "string option"

definition hex_digit :: "nat \<Rightarrow> char" where
  "hex_digit rem = char_of (if rem < 10 then rem + of_char (CHR ''0'') else rem - 10 + of_char (CHR ''A''))"

text \<open>The digit loops of \<^verbatim>\<open>vsprintf\<close>: \<^verbatim>\<open>buf\<close> holds the digits in reverse.\<close>

function fmt_digits :: "nat \<Rightarrow> nat \<Rightarrow> string" where
  "fmt_digits n base =
     (if n = 0 \<or> base < 2 then [] else hex_digit (n mod base) # fmt_digits (n div base) base)"
  by pat_completeness auto
termination
  by (relation "measure fst") (auto intro: div_less_dividend)

definition fmt_u :: "u32 \<Rightarrow> nat \<Rightarrow> string" where
  "fmt_u n base = (if n = 0 then ''0'' else rev (fmt_digits (unat n) base))"

text \<open>
  \<^verbatim>\<open>%d\<close>: the sign is taken off with \<open>n = -n\<close>, which leaves the most negative number
  negative, so its digit loop does not run.
\<close>

definition fmt_d :: "u32 \<Rightarrow> string" where
  "fmt_d n =
     (if n = 0 then ''0''
      else let is_neg = sint n < 0; n' = (if is_neg then - n else n);
               buf = (if sint n' > 0 then fmt_digits (unat n') 10 else [])
        in rev (if is_neg then buf @ ''-'' else buf))"

text \<open>
  A lone \<open>%\<close> at the end of the format makes the loop step over the terminator and read
  on: a fault.
\<close>

fun vsprintf :: "string \<Rightarrow> fmt_arg list \<Rightarrow> string option" where
  "vsprintf [] args = Some []"
| "vsprintf [c] args = (if c = CHR ''%'' then None else Some [c])"
| "vsprintf (c # k # f) args =
     (if c = CHR ''%'' then
        (if k = CHR ''d'' \<or> k = CHR ''i'' then
           (case args of ArgWord n # as \<Rightarrow> map_option (\<lambda>r. fmt_d n @ r) (vsprintf f as) | _ \<Rightarrow> None)
         else if k = CHR ''u'' then
           (case args of ArgWord n # as \<Rightarrow> map_option (\<lambda>r. fmt_u n 10 @ r) (vsprintf f as) | _ \<Rightarrow> None)
         else if k = CHR ''x'' \<or> k = CHR ''X'' then
           (case args of ArgWord n # as \<Rightarrow> map_option (\<lambda>r. fmt_u n 16 @ r) (vsprintf f as) | _ \<Rightarrow> None)
         else if k = CHR ''c'' then
           (case args of ArgWord n # as \<Rightarrow> map_option (\<lambda>r. char_of (unat n) # r) (vsprintf f as) | _ \<Rightarrow> None)
         else if k = CHR ''s'' then
           (case args of
              ArgStr (Some str) # as \<Rightarrow> map_option (\<lambda>r. str @ r) (vsprintf f as)
            | ArgStr None # as \<Rightarrow> map_option (\<lambda>r. ''(null)'' @ r) (vsprintf f as)
            | _ \<Rightarrow> None)
         else if k = CHR ''%'' then map_option (\<lambda>r. CHR ''%'' # r) (vsprintf f args)
         else vsprintf f args)
      else map_option (\<lambda>r. c # r) (vsprintf (k # f) args))"

definition sprintf :: "nat \<Rightarrow> string \<Rightarrow> fmt_arg list \<Rightarrow> string option" where
  "sprintf cap format args = do { r \<leftarrow> vsprintf format args; if length r < cap then Some r else None }"

definition itoa_hex_32 :: "u32 \<Rightarrow> string" where
  "itoa_hex_32 val = ''0x'' @ map (\<lambda>i. hex_digit (unat (drop_bit (4 * (7 - i)) val AND 0xF))) [0..<8]"

section \<open>Pseudo-random numbers\<close>

definition srand :: "u32 \<Rightarrow> 'z klog_state_scheme \<Rightarrow> 'z klog_state_scheme" where
  "srand seed s = s\<lparr>rand_next := seed\<rparr>"

definition random :: "'z klog_state_scheme \<Rightarrow> u32 \<times> 'z klog_state_scheme" where
  "random s = (let v = (1664525 * rand_next s + 1013904223) mod 0x80000000 in (v, s\<lparr>rand_next := v\<rparr>))"

section \<open>UTF-8\<close>

text \<open>
  The number of bytes \<^verbatim>\<open>utf8_to_unicode\<close> consumes for a lead byte, and the code it
  computes from the lead byte and the (up to two) bytes after it.
\<close>

definition utf8_len :: "u8 \<Rightarrow> nat" where
  "utf8_len c = (if c < 0x80 then 1 else if c AND 0xE0 = 0xC0 then 2 else if c AND 0xF0 = 0xE0 then 3 else 1)"

definition utf8_code :: "u8 \<Rightarrow> u8 \<Rightarrow> u8 \<Rightarrow> u32" where
  "utf8_code c s1 s2 =
     (if c < 0x80 then ucast c
      else if c AND 0xE0 = 0xC0 then push_bit 6 (ucast (c AND 0x1F)) OR ucast (s1 AND 0x3F)
      else if c AND 0xF0 = 0xE0 then
        push_bit 12 (ucast (c AND 0x0F)) OR push_bit 6 (ucast (s1 AND 0x3F)) OR ucast (s2 AND 0x3F)
      else ucast c)"

definition byte_of :: "char \<Rightarrow> u8" where
  "byte_of c = of_int (uchar c)"

text \<open>
  On a C string: the continuation bytes are read through the pointer, and stepping past
  the terminator is a fault.
\<close>

definition utf8_to_unicode :: "string \<Rightarrow> (u32 \<times> string) option" where
  "utf8_to_unicode s = do {
     c \<leftarrow> char_at s 0;
     let n = utf8_len (byte_of c);
     s1 \<leftarrow> (if n \<ge> 2 then char_at s 1 else Some (CHR 0x00));
     s2 \<leftarrow> (if n \<ge> 3 then char_at s 2 else Some (CHR 0x00));
     if n \<le> length s then Some (utf8_code (byte_of c) (byte_of s1) (byte_of s2), drop n s) else None
   }"

definition get_pixels_in_string :: "string \<Rightarrow> nat" where
  "get_pixels_in_string str = strlen str * 8"

section \<open>Configuration files\<close>

text \<open>
  \<^verbatim>\<open>config_parse\<close> splits the buffer at newlines, each line at its first \<open>=\<close>, trims both
  sides, and keeps at most \<open>cap\<close> entries whose key is not empty and not a comment.
\<close>

definition config_entry :: "string \<Rightarrow> (string \<times> string) option" where
  "config_entry line =
     (let k = takeWhile (\<lambda>c. c \<noteq> CHR ''='') line; r = dropWhile (\<lambda>c. c \<noteq> CHR ''='') line in
      if r = [] then None
      else let key = trim_whitespace k; val = trim_whitespace (tl r) in
        if key \<noteq> [] \<and> hd key \<noteq> CHR ''#'' then Some (key, val) else None)"

function config_lines :: "nat \<Rightarrow> string \<Rightarrow> (string \<times> string) list \<Rightarrow> (string \<times> string) list" where
  "config_lines cap buffer entries =
     (if buffer = [] then entries
      else let line = takeWhile (\<lambda>c. c \<noteq> CHR 0x0A) buffer; rest = dropWhile (\<lambda>c. c \<noteq> CHR 0x0A) buffer;
               entries' = (case config_entry line of
                   Some e \<Rightarrow> if length entries < cap then entries @ [e] else entries
                 | None \<Rightarrow> entries)
        in if rest = [] then entries' else config_lines cap (tl rest) entries')"
  by pat_completeness auto
termination
  by (relation "measure (\<lambda>(_, b, _). length b)")
    (simp_all add: line_tl_shorter del: length_tl dropWhile_eq_Nil_conv)

definition config_parse_text :: "string \<Rightarrow> (string \<times> string) list" where
  "config_parse_text buffer = config_lines 64 buffer []"

fun config_get_value :: "(string \<times> string) list \<Rightarrow> string \<Rightarrow> string option" where
  "config_get_value [] key = None"
| "config_get_value ((k, v) # es) key = (if strcmp k key = 0 then Some v else config_get_value es key)"

fun config_set_value :: "(string \<times> string) list \<Rightarrow> string \<Rightarrow> string \<Rightarrow> (string \<times> string) list" where
  "config_set_value [] key new_val = []"
| "config_set_value ((k, v) # es) key new_val =
     (if strcmp k key = 0 then (k, new_val) # es else (k, v) # config_set_value es key new_val)"

text \<open>The text \<^verbatim>\<open>config_save\<close> assembles in its 4096-byte buffer.\<close>

definition config_text :: "(string \<times> string) list \<Rightarrow> string" where
  "config_text es = concat (map (\<lambda>(k, v). k @ ''='' @ v @ [CHR 0x0A]) es)"

section \<open>Path normalisation\<close>

abbreviation slash :: char where
  "slash \<equiv> CHR ''/''"

definition path_push :: "string list \<Rightarrow> string \<Rightarrow> string list" where
  "path_push stack start =
     (if strcmp start ''.'' = 0 then stack
      else if strcmp start ''..'' = 0 then (if stack \<noteq> [] then butlast stack else stack)
      else if length stack < 64 then stack @ [start] else stack)"

function path_walk :: "string \<Rightarrow> string list \<Rightarrow> string list" where
  "path_walk p stack =
     (let q = dropWhile (\<lambda>c. c = slash) p in
      if q = [] then stack
      else let start = takeWhile (\<lambda>c. c \<noteq> slash) q; rest = dropWhile (\<lambda>c. c \<noteq> slash) q
        in path_walk (tl rest) (path_push stack start))"
  by pat_completeness auto
termination
  by (relation "measure (\<lambda>(p, _). length p)")
    (simp_all add: token_tl_shorter del: length_tl dropWhile_eq_Nil_conv)

fun path_join :: "string \<Rightarrow> string list \<Rightarrow> string option" where
  "path_join out [] = Some out"
| "path_join out [c] = strcat 256 out c"
| "path_join out (c # d # cs) = do {
     out \<leftarrow> strcat 256 out c;
     out \<leftarrow> strcat 256 out ''/'';
     path_join out (d # cs) }"

definition get_absolute_path :: "string \<Rightarrow> string \<Rightarrow> string option" where
  "get_absolute_path cwd input_path = do {
     temp \<leftarrow> (if char_at input_path 0 = Some slash then strcpy 512 input_path
       else do {
         t \<leftarrow> strcpy 512 cwd;
         t \<leftarrow> (if t \<noteq> [] \<and> last t \<noteq> slash then strcat 512 t ''/'' else Some t);
         strcat 512 t input_path });
     path_join ''/'' (path_walk temp []) }"

section \<open>The kernel log\<close>

definition klog :: "string \<Rightarrow> 'z klog_state_scheme \<Rightarrow> 'z klog_state_scheme option" where
  "klog msg s = do {
     let time_str = itoa (get_ticks s div 1000) 10;
     f \<leftarrow> strcat 256 [] ''['';
     f \<leftarrow> strcat 256 f time_str;
     f \<leftarrow> strcat 256 f ''s] '';
     f \<leftarrow> strcat 256 f msg;
     f \<leftarrow> strcat 256 f [CHR 0x0A];
     let sys_log_pos = length (sys_log s);
     let log = (if sys_log_pos + strlen f \<ge> 64000
       then (if sys_log_pos > 16000 then drop 16000 (sys_log s) else [])
       else sys_log s);
     if length log + strlen f < 65536 then Some (s\<lparr>sys_log := log @ f\<rparr>) else None }"

section \<open>Formatted output: facts\<close>

declare fmt_digits.simps [simp del]

lemma hex_digit_decimal: "d < 10 \<Longrightarrow> hex_digit d = digit_char d"
  by (simp add: hex_digit_def digit_char_def)

lemma fmt_digits_decimal: "fmt_digits n 10 = itoa_digits n 10"
proof (induction n "10 :: nat" rule: fmt_digits.induct)
  case (1 n)
  then show ?case
    by (subst fmt_digits.simps, subst itoa_digits.simps) (simp add: hex_digit_decimal)
qed

lemma fmt_u_decimal: "fmt_u n 10 = itoa n 10"
  by (cases "n = 0") (simp_all add: fmt_u_def fmt_digits_decimal itoa_eq itoa_def [of 0])

lemma atoi_minus:
  assumes "s = itoa n 10"
  shows "atoi (CHR ''-'' # s) 10 = sint (- n)"
proof -
  have "atoi_prefix 10 s = s" by (simp add: atoi_prefix_def split: list.splits)
  moreover have "atoi_loop s 10 0 = n"
  proof (cases "n = 0")
    case True
    then show ?thesis using assms
      by (simp add: itoa_def digit_val_def tolower_char_def uchar_def)
  qed (use assms atoi_loop_itoa_digits [of "unat n"] in \<open>simp add: itoa_eq\<close>)
  ultimately show ?thesis by (simp add: atoi_def is_space_def)
qed

lemma sint_neg_pos:
  fixes n :: u32
  assumes "sint n < 0" and "n \<noteq> 0x80000000"
  shows "0 < sint (- n)"
proof -
  have "sint n \<noteq> - 2147483648"
  proof
    assume "sint n = - 2147483648"
    then have "sint n = sint (0x80000000 :: u32)" by simp
    then have "n = 0x80000000" by (rule signed_word_eqI)
    with assms(2) show False by simp
  qed
  moreover have "- (2 ^ 31) \<le> sint n" using sint_greater_eq [of n] by simp
  ultimately have "- 2147483648 < sint n" by simp
  then have "sint (- n) = - sint n"
    using assms(1) by (simp add: sint_word_ariths signed_take_bit_int_eq_self)
  with assms(1) show ?thesis by simp
qed

text \<open>Reading back what \<^verbatim>\<open>%d\<close> printed gives the number, for every number but the most negative.\<close>

lemma atoi_fmt_d:
  assumes "n \<noteq> 0x80000000"
  shows "atoi (fmt_d n) 10 = sint n"
proof (cases "sint n < 0")
  case True
  then have "0 < sint (- n)" using assms by (rule sint_neg_pos)
  then have "fmt_d n = CHR ''-'' # itoa (- n) 10"
    using True by (auto simp: fmt_d_def fmt_digits_decimal itoa_eq Let_def)
  then show ?thesis using atoi_minus [OF refl, of "- n"] by simp
next
  case False
  then have "0 < sint n \<or> n = 0"
    by (metis linorder_neqE signed_0 signed_word_eqI)
  then have "fmt_d n = itoa n 10"
    using False by (auto simp: fmt_d_def fmt_digits_decimal itoa_eq Let_def itoa_def [of 0])
  then show ?thesis by (simp add: atoi_itoa)
qed

lemma fmt_d_min: "fmt_d 0x80000000 = ''-''"
  by (simp add: fmt_d_def)

section \<open>Kernel log: facts\<close>

lemma klog_Some:
  assumes "length (sys_log s) < 64000" and "length msg \<le> 240"
  shows "\<exists>log. klog msg s = Some (s\<lparr>sys_log := log\<rparr>) \<and> length log < 64000 \<and>
    (\<exists>pre. log = pre @ msg @ [CHR 0x0A])"
proof -
  let ?t = "itoa (get_ticks s div 1000) 10"
  have "unat (get_ticks s div 1000) < 10 ^ 7"
    using unat_lt32 [of "get_ticks s"] by (simp add: unat_div)
  then have t: "length ?t \<le> 7" by (rule length_itoa_le) simp_all
  define f where "f = ''['' @ ?t @ ''s] '' @ msg @ [CHR 0x0A]"
  have f: "length f \<le> 252" using t assms(2) by (simp add: f_def)
  define log where "log = (if length (sys_log s) + length f \<ge> 64000
      then (if length (sys_log s) > 16000 then drop 16000 (sys_log s) else []) else sys_log s)"
  have "klog msg s = Some (s\<lparr>sys_log := log @ f\<rparr>)"
    using t assms f unfolding klog_def
    by (auto simp: strcat_def strlen_def Let_def f_def log_def)
  moreover have "length (log @ f) < 64000"
    using assms f by (auto simp: log_def)
  moreover have "\<exists>pre. log @ f = pre @ msg @ [CHR 0x0A]"
    by (rule exI [of _ "log @ ''['' @ ?t @ ''s] ''"]) (simp add: f_def)
  ultimately show ?thesis by blast
qed

section \<open>Paths: facts\<close>

text \<open>A canonical component: not empty, no slash, neither \<open>.\<close> nor \<open>..\<close>.\<close>

definition path_comp :: "string \<Rightarrow> bool" where
  "path_comp c \<longleftrightarrow> c \<noteq> [] \<and> slash \<notin> set c \<and> strcmp c ''.'' \<noteq> 0 \<and> strcmp c ''..'' \<noteq> 0"

fun join_slash :: "string list \<Rightarrow> string" where
  "join_slash [] = []"
| "join_slash [c] = c"
| "join_slash (c # d # cs) = c @ slash # join_slash (d # cs)"

declare path_walk.simps [simp del]

lemma path_walk_slash [simp]: "path_walk (slash # p) stack = path_walk p stack"
  by (subst path_walk.simps, subst (2) path_walk.simps) simp

lemma path_walk_Nil [simp]: "path_walk [] stack = stack"
  by (subst path_walk.simps) simp

lemma path_push_comp:
  assumes "list_all path_comp stack" and "start \<noteq> []" and "slash \<notin> set start"
  shows "list_all path_comp (path_push stack start)" "length stack \<le> 64 \<Longrightarrow> length (path_push stack start) \<le> 64"
  using assms by (auto simp: path_push_def path_comp_def list_all_iff dest: in_set_butlastD)

lemma path_walk_comp:
  "list_all path_comp stack \<Longrightarrow> length stack \<le> 64 \<Longrightarrow>
   list_all path_comp (path_walk p stack) \<and> length (path_walk p stack) \<le> 64"
proof (induction p stack rule: path_walk.induct)
  case (1 p stack)
  let ?q = "dropWhile (\<lambda>c. c = slash) p"
  let ?start = "takeWhile (\<lambda>c. c \<noteq> slash) ?q"
  show ?case
  proof (cases "?q = []")
    case True
    then have "path_walk p stack = stack" by (subst path_walk.simps) (simp del: dropWhile_eq_Nil_conv)
    with 1 show ?thesis by simp
  next
    case False
    have "hd ?q \<noteq> slash" using hd_dropWhile [OF False] by simp
    then have start: "?start \<noteq> []" using False by (cases ?q) auto
    have noslash: "slash \<notin> set ?start" by (auto dest: set_takeWhileD)
    note push = path_push_comp [OF 1(2) start noslash]
    have "list_all path_comp (path_walk (tl (dropWhile (\<lambda>c. c \<noteq> slash) ?q)) (path_push stack ?start)) \<and>
      length (path_walk (tl (dropWhile (\<lambda>c. c \<noteq> slash) ?q)) (path_push stack ?start)) \<le> 64"
      by (rule 1(1)) (use False push 1(3) in auto)
    moreover have "path_walk p stack = path_walk (tl (dropWhile (\<lambda>c. c \<noteq> slash) ?q)) (path_push stack ?start)"
      using False by (subst path_walk.simps) (simp add: Let_def del: dropWhile_eq_Nil_conv)
    ultimately show ?thesis by simp
  qed
qed

lemma path_walk_comp_step:
  assumes "path_comp c" and "rest = [] \<or> hd rest = slash"
  shows "path_walk (c @ rest) stack = path_walk (tl rest) (path_push stack c)"
proof -
  have c: "c \<noteq> []" "\<And>x. x \<in> set c \<Longrightarrow> x \<noteq> slash" using assms(1) by (auto simp: path_comp_def)
  then have "dropWhile (\<lambda>c. c = slash) (c @ rest) = c @ rest" by (cases c) auto
  moreover have "takeWhile (\<lambda>c. c \<noteq> slash) (c @ rest) = c" "dropWhile (\<lambda>c. c \<noteq> slash) (c @ rest) = rest"
    using c(2) assms(2) by (cases rest; auto simp: takeWhile_append2 dropWhile_append2)+
  ultimately show ?thesis using c by (subst path_walk.simps) simp
qed

lemma path_walk_join:
  assumes "list_all path_comp cs" and "length stack + length cs \<le> 64"
  shows "path_walk (join_slash cs) stack = stack @ cs"
  using assms
proof (induction cs arbitrary: stack rule: join_slash.induct)
  case 1
  then show ?case by simp
next
  case (2 c)
  then have "path_walk (c @ []) stack = path_walk (tl []) (path_push stack c)"
    by (intro path_walk_comp_step) auto
  with 2 show ?case by (simp add: path_push_def path_comp_def)
next
  case (3 c d cs)
  then have "path_walk (c @ slash # join_slash (d # cs)) stack = path_walk (join_slash (d # cs)) (path_push stack c)"
    using path_walk_comp_step [of c "slash # join_slash (d # cs)" stack] by simp
  also have "path_push stack c = stack @ [c]" using 3 by (simp add: path_push_def path_comp_def)
  finally show ?case using 3 by simp
qed

lemma path_join_Some: "path_join out cs = Some r \<longleftrightarrow>
   r = out @ join_slash cs \<and> (cs = [] \<or> length r < 256)"
proof (induction out cs rule: path_join.induct)
  case (3 out c d cs)
  then show ?case by (auto simp: fault_simps)
qed auto

lemma get_absolute_path_form:
  assumes "get_absolute_path cwd p = Some out"
  obtains cs where "out = slash # join_slash cs" "list_all path_comp cs" "length cs \<le> 64" "length out < 256"
proof -
  from assms obtain temp where "path_join ''/'' (path_walk temp []) = Some out"
    by (auto simp: get_absolute_path_def fault_simps split: if_splits)
  moreover have "list_all path_comp (path_walk temp []) \<and> length (path_walk temp []) \<le> 64"
    by (rule path_walk_comp) simp_all
  ultimately show ?thesis using that [of "path_walk temp []"] by (auto simp: path_join_Some)
qed

lemma get_absolute_path_canonical:
  assumes "list_all path_comp cs" and "length cs \<le> 64" and "length (slash # join_slash cs) < 256"
  shows "get_absolute_path cwd (slash # join_slash cs) = Some (slash # join_slash cs)"
proof -
  have "path_walk (slash # join_slash cs) [] = cs" using path_walk_join [of cs "[]"] assms by simp
  then show ?thesis
    using assms by (auto simp: get_absolute_path_def char_at_def strcpy_def strlen_def path_join_Some)
qed

section \<open>Configuration files: facts\<close>

text \<open>An entry that survives writing and parsing: trimmed, one line, no \<open>=\<close> in the key.\<close>

definition config_wf :: "string \<times> string \<Rightarrow> bool" where
  "config_wf e \<longleftrightarrow> (case e of (k, v) \<Rightarrow>
     k \<noteq> [] \<and> hd k \<noteq> CHR ''#'' \<and> CHR ''='' \<notin> set k \<and> CHR 0x0A \<notin> set k \<and> CHR 0x0A \<notin> set v \<and>
     trim_whitespace k = k \<and> trim_whitespace v = v)"

declare config_lines.simps [simp del]

lemma config_entry_wf:
  assumes "config_wf (k, v)"
  shows "config_entry (k @ CHR ''='' # v) = Some (k, v)"
proof -
  have "\<And>x. x \<in> set k \<Longrightarrow> x \<noteq> CHR ''=''" using assms by (auto simp: config_wf_def)
  then have "takeWhile (\<lambda>c. c \<noteq> CHR ''='') (k @ CHR ''='' # v) = k"
    "dropWhile (\<lambda>c. c \<noteq> CHR ''='') (k @ CHR ''='' # v) = CHR ''='' # v"
    by (simp_all add: takeWhile_append2 dropWhile_append2)
  then show ?thesis using assms by (simp add: config_entry_def config_wf_def)
qed

lemma config_lines_text:
  assumes "list_all config_wf es" and "length acc + length es \<le> cap"
  shows "config_lines cap (config_text es) acc = acc @ es"
  using assms
proof (induction es arbitrary: acc)
  case Nil
  then show ?case by (subst config_lines.simps) (simp add: config_text_def)
next
  case (Cons e es)
  obtain k v where e: "e = (k, v)" by fastforce
  let ?l = "k @ CHR ''='' # v"
  have line: "\<And>x. x \<in> set ?l \<Longrightarrow> x \<noteq> CHR 0x0A" using Cons.prems e by (auto simp: config_wf_def)
  have t: "config_text (e # es) = ?l @ CHR 0x0A # config_text es" by (simp add: config_text_def e)
  have "takeWhile (\<lambda>c. c \<noteq> CHR 0x0A) (?l @ CHR 0x0A # config_text es) = ?l"
    "dropWhile (\<lambda>c. c \<noteq> CHR 0x0A) (?l @ CHR 0x0A # config_text es) = CHR 0x0A # config_text es"
    using line by (auto simp: takeWhile_append2 dropWhile_append2)
  then have "config_lines cap (config_text (e # es)) acc = config_lines cap (config_text es) (acc @ [e])"
    using Cons.prems e unfolding t
    by (subst config_lines.simps) (simp add: config_entry_wf Let_def)
  then show ?case using Cons by simp
qed

lemma config_get_set:
  assumes "nul_free k" and "nul_free k'" and "list_all (\<lambda>e. nul_free (fst e)) es"
  shows "config_get_value (config_set_value es k v) k' =
     (if k = k' \<and> config_get_value es k \<noteq> None then Some v else config_get_value es k')"
  using assms(3)
proof (induction es)
  case (Cons e es)
  then have "strcmp (fst e) k = 0 \<longleftrightarrow> fst e = k" "strcmp (fst e) k' = 0 \<longleftrightarrow> fst e = k'"
    using assms by (auto simp: strcmp_0_iff)
  with Cons show ?case by (cases e) auto
qed simp

end
