(* ===== verification/Base_Props.thy ===== *)
theory Base_Props
  imports Utils
begin

text \<open>The properties of the memory routines, the string conversions and the kernel utilities.\<close>

text \<open>
  \<^verbatim>\<open>memmove\<close> is right for overlapping ranges: whichever direction it copies in, the result
  is the memory in which every destination byte has the value its source byte had before
  the call, and every other byte is unchanged, as long as neither range wraps.
\<close>

theorem memmove_correct:
  assumes "unat d + n \<le> 4294967296" and "unat s + n \<le> 4294967296" and "n < 4294967296"
  shows "memmove m d s n = (\<lambda>x. if unat (x - d) < n then m (s + (x - d)) else m x)"
  using memmove_block_copy [OF assms] by (simp add: block_copy_def)

theorem memmove_correct_witness:
  "read_bytes (memmove (\<lambda>x. ucast x) 0x102 0x100 8) 0x102 8 = [0, 1, 2, 3, 4, 5, 6, 7]"
proof -
  have "unat (0x102 :: u32) + 8 \<le> 4294967296" "unat (0x100 :: u32) + 8 \<le> 4294967296" "(8 :: nat) < 4294967296"
    by simp_all
  from memmove_correct [OF this, of "\<lambda>x. ucast x"] show ?thesis by (simp add: read_bytes_def upt_rec)
qed

text \<open>
  C14. The string-instruction copy of \<^verbatim>\<open>fast_memcpy\<close>, four bytes at a time with a byte tail,
  moves exactly the bytes of the source range unless the destination starts inside it.
\<close>

theorem fast_memcpy_correct:
  assumes "d = s \<or> unat n \<le> unat (d - s)"
  shows "fast_memcpy m d s n = (\<lambda>x. if unat (x - d) < unat n then m (s + (x - d)) else m x)"
  using fast_memcpy_block_copy [OF assms] by (simp add: block_copy_def)

theorem fast_memcpy_correct_witness:
  "read_bytes (fast_memcpy (\<lambda>x. ucast x) 0x200 0x101 7) 0x200 7 = [1, 2, 3, 4, 5, 6, 7]"
proof -
  have "(0x200 :: u32) = 0x101 \<or> unat (7 :: u32) \<le> unat (0x200 - 0x101 :: u32)" by simp
  from fast_memcpy_correct [OF this, of "\<lambda>x. ucast x"] show ?thesis by (simp add: read_bytes_def upt_rec)
qed

text \<open>
  Number conversion round trip: \<^verbatim>\<open>atoi\<close> reads back what \<^verbatim>\<open>itoa\<close> printed, for every
  32-bit number, taken as signed.
\<close>

theorem atoi_itoa_round_trip: "atoi (itoa n 10) 10 = sint n"
  by (rule atoi_itoa)

text \<open>
  Reading back what \<^verbatim>\<open>%d\<close> of the kernel's \<^verbatim>\<open>vsprintf\<close> printed gives the number, for
  every number but the most negative one.
\<close>

theorem vsprintf_d_round_trip:
  assumes "n \<noteq> 0x80000000" and "vsprintf ''%d'' [ArgWord n] = Some r"
  shows "atoi r 10 = sint n"
  using assms atoi_fmt_d [OF assms(1)] by simp

theorem vsprintf_d_round_trip_witness: "atoi ''-42'' 10 = sint (- 42 :: u32)"
proof -
  have "vsprintf ''%d'' [ArgWord (- 42)] = Some ''-42''" by code_simp
  from vsprintf_d_round_trip [OF _ this] show ?thesis by simp
qed

text \<open>The most negative number prints as a lone minus sign.\<close>

theorem vsprintf_d_min: "vsprintf ''%d'' [ArgWord 0x80000000] = Some ''-''"
  by (simp add: fmt_d_min)

text \<open>
  C19. The kernel log is bounded: with the position below 64000 and a message that fits its
  256-byte line buffer, \<^verbatim>\<open>klog\<close> does not fault, leaves the position below 64000, ends the log
  with the message, and changes nothing else.
\<close>

theorem klog_bounded:
  assumes "length (sys_log s) < 64000" and "length msg \<le> 240"
  shows "\<exists>log. klog msg s = Some (s\<lparr>sys_log := log\<rparr>) \<and> length log < 64000 \<and>
    (\<exists>pre. log = pre @ msg @ [CHR 0x0A])"
  by (rule klog_Some [OF assms])

theorem klog_bounded_witness:
  "\<exists>log. klog ''hello'' \<lparr>ticks = 5000, mem = \<lambda>_. 0, io_env = \<lambda>_. 0, dma_env = \<lambda>_ m. m, io_hist = [], sys_log = [], rand_next = 1\<rparr> =
     Some \<lparr>ticks = 5000, mem = \<lambda>_. 0, io_env = \<lambda>_. 0, dma_env = \<lambda>_ m. m, io_hist = [], sys_log = log, rand_next = 1\<rparr> \<and> length log < 64000"
  using klog_bounded [of "\<lparr>ticks = 5000, mem = \<lambda>_. 0, io_env = \<lambda>_. 0, dma_env = \<lambda>_ m. m, io_hist = [], sys_log = [], rand_next = 1\<rparr>" "''hello''"]
  by auto

text \<open>
  C15. \<^verbatim>\<open>get_absolute_path\<close> yields canonical paths and is idempotent: the result starts with a
  slash, consists of at most 64 non-empty components without slashes, none of them \<open>.\<close> or \<open>..\<close>,
  is shorter than 256 characters, and normalising it again, from any directory, gives it back.
\<close>

theorem get_absolute_path_idempotent:
  assumes "get_absolute_path cwd p = Some out"
  shows "get_absolute_path cwd' out = Some out \<and>
    (\<exists>cs. out = slash # join_slash cs \<and> list_all path_comp cs \<and> length cs \<le> 64) \<and> length out < 256"
proof -
  obtain cs where cs: "out = slash # join_slash cs" "list_all path_comp cs" "length cs \<le> 64" "length out < 256"
    by (rule get_absolute_path_form [OF assms])
  then show ?thesis using get_absolute_path_canonical [of cs cwd'] by auto
qed

theorem get_absolute_path_idempotent_witness:
  "get_absolute_path ''/tmp'' ''/home/bin/ls'' = Some ''/home/bin/ls''"
proof -
  have "get_absolute_path ''/home/user'' ''..//./bin/ls/'' = Some ''/home/bin/ls''" by code_simp
  from get_absolute_path_idempotent [OF this] show ?thesis by blast
qed

text \<open>
  C20. Configuration round trip: parsing the text that \<^verbatim>\<open>config_save\<close> writes for at most 64
  trimmed one-line entries gives the entries back, and looking up a key after
  \<^verbatim>\<open>config_set_value\<close> returns the new value, other keys keeping theirs.
\<close>

theorem config_round_trip:
  assumes "list_all config_wf es" and "length es \<le> 64" and "list_all (\<lambda>e. nul_free (fst e)) es"
    and "nul_free k" and "nul_free k'"
  shows "config_parse_text (config_text es) = es \<and>
    config_get_value (config_set_value es k v) k' =
      (if k = k' \<and> config_get_value es k \<noteq> None then Some v else config_get_value es k')"
  using config_lines_text [OF assms(1), of "[]" 64] assms(2) config_get_set [OF assms(4,5,3)]
  by (simp add: config_parse_text_def)

theorem config_round_trip_witness:
  "config_parse_text (config_text [(''theme'', ''dark''), (''size'', ''16'')]) = [(''theme'', ''dark''), (''size'', ''16'')] \<and>
   config_get_value (config_set_value [(''theme'', ''dark''), (''size'', ''16'')] ''size'' ''20'') ''size'' = Some ''20''"
proof -
  have wf: "list_all config_wf [(''theme'', ''dark''), (''size'', ''16'')]" by code_simp
  have nf: "nul_free ''theme'' \<and> nul_free ''size''" by (simp add: nul_free_def)
  show ?thesis using config_round_trip [OF wf, of "''size''" "''size''" "''20''"] nf by (simp add: strcmp_0_iff)
qed

end
