(* ===== verification/Linked_Lists.thy ===== *)
theory Linked_Lists
  imports Prelude
begin

text \<open>
  Doubly linked lists in a store of nodes. The kernel heap threads two of them through
  every block header: the physical chain (\<^verbatim>\<open>next\<close>/\<^verbatim>\<open>prev\<close>) and the free list of a bin
  (\<^verbatim>\<open>free_next\<close>/\<^verbatim>\<open>free_prev\<close>). The lemmas on unlinking and inserting are proved once,
  in the locale \<open>link_fields\<close>, for any pair of link fields with their updates; the
  heap interprets it on both pairs.
\<close>

section \<open>List segments\<close>

text \<open>
  \<open>dseg nx pv st p q xs r t\<close>: following \<open>nx\<close> from \<open>p\<close> visits exactly the nodes
  \<open>xs\<close> and arrives at \<open>r\<close>; the \<open>pv\<close> field of each node is its predecessor, \<open>q\<close>
  for the first one, and \<open>t\<close> is the last node visited (\<open>q\<close> if there is none).
\<close>

primrec dseg :: "('n \<Rightarrow> u32) \<Rightarrow> ('n \<Rightarrow> u32) \<Rightarrow> (u32 \<rightharpoonup> 'n) \<Rightarrow> u32 \<Rightarrow> u32 \<Rightarrow> u32 list \<Rightarrow> u32 \<Rightarrow> u32 \<Rightarrow> bool" where
  "dseg nx pv st p q [] r t \<longleftrightarrow> p = r \<and> q = t"
| "dseg nx pv st p q (a # as) r t \<longleftrightarrow>
     p = a \<and> a \<noteq> NULL \<and> (\<exists>n. st a = Some n \<and> pv n = q \<and> dseg nx pv st (nx n) a as r t)"

definition dll :: "('n \<Rightarrow> u32) \<Rightarrow> ('n \<Rightarrow> u32) \<Rightarrow> (u32 \<rightharpoonup> 'n) \<Rightarrow> u32 \<Rightarrow> u32 \<Rightarrow> u32 list \<Rightarrow> bool" where
  "dll nx pv st p q xs \<longleftrightarrow> (\<exists>t. dseg nx pv st p q xs NULL t)"

lemma dll_Nil [simp]: "dll nx pv st p q [] \<longleftrightarrow> p = NULL"
  by (auto simp: dll_def)

lemma dll_Cons [simp]:
  "dll nx pv st p q (a # as) \<longleftrightarrow>
     p = a \<and> a \<noteq> NULL \<and> (\<exists>n. st a = Some n \<and> pv n = q \<and> dll nx pv st (nx n) a as)"
  by (auto simp: dll_def)

lemma dseg_append:
  "dseg nx pv st p q (xs @ ys) r t \<longleftrightarrow>
     (\<exists>u v. dseg nx pv st p q xs u v \<and> dseg nx pv st u v ys r t)"
  by (induction xs arbitrary: p q) auto

lemma dll_append:
  "dll nx pv st p q (xs @ ys) \<longleftrightarrow>
     (\<exists>u v. dseg nx pv st p q xs u v \<and> dll nx pv st u v ys)"
  by (auto simp: dll_def dseg_append)

lemma dseg_last: "dseg nx pv st p q xs r t \<Longrightarrow> t = last (q # xs)"
  by (induction xs arbitrary: p q) auto

lemma dseg_nonnull: "dseg nx pv st p q xs r t \<Longrightarrow> a \<in> set xs \<Longrightarrow> a \<noteq> NULL"
  by (induction xs arbitrary: p q) auto

lemma dseg_in_store: "dseg nx pv st p q xs r t \<Longrightarrow> a \<in> set xs \<Longrightarrow> \<exists>n. st a = Some n"
  by (induction xs arbitrary: p q) auto

lemma dll_nonnull: "dll nx pv st p q xs \<Longrightarrow> a \<in> set xs \<Longrightarrow> a \<noteq> NULL"
  by (auto simp: dll_def dest: dseg_nonnull)

lemma dll_in_store: "dll nx pv st p q xs \<Longrightarrow> a \<in> set xs \<Longrightarrow> \<exists>n. st a = Some n"
  by (auto simp: dll_def dest: dseg_in_store)

lemma dll_hd: "dll nx pv st p q xs \<Longrightarrow> p = (case xs of [] \<Rightarrow> NULL | x # _ \<Rightarrow> x)"
  by (cases xs) auto

lemma dll_Null_iff: "dll nx pv st p q xs \<Longrightarrow> (p = NULL) = (xs = [])"
  by (cases xs) auto

lemma dll_unique: "dll nx pv st p q xs \<Longrightarrow> dll nx pv st p q' ys \<Longrightarrow> xs = ys"
proof (induction xs arbitrary: p q q' ys)
  case Nil
  then show ?case by (cases ys) auto
next
  case (Cons x xs)
  then show ?case by (cases ys) fastforce+
qed

lemma dll_distinct: "dll nx pv st p q xs \<Longrightarrow> distinct xs"
proof (induction xs arbitrary: p q)
  case Nil
  then show ?case by simp
next
  case (Cons x xs)
  then obtain n where n: "st x = Some n" "dll nx pv st (nx n) x xs" by auto
  have "x \<notin> set xs"
  proof
    assume "x \<in> set xs"
    then obtain us vs where xs: "xs = us @ x # vs" by (auto simp: in_set_conv_decomp)
    with n(2) obtain v where "dll nx pv st x v (x # vs)"
      by (auto simp: dll_append)
    with Cons.prems have "x # xs = x # vs" by (auto dest: dll_unique)
    with xs show False by simp
  qed
  with Cons n show ?case by auto
qed

text \<open>A store that agrees on the link fields of the nodes visited keeps the segment.\<close>

lemma dseg_cong:
  assumes "\<And>a n. a \<in> set xs \<Longrightarrow> st a = Some n \<Longrightarrow> \<exists>n'. st' a = Some n' \<and> nx n' = nx n \<and> pv n' = pv n"
  shows "dseg nx pv st p q xs r t \<Longrightarrow> dseg nx pv st' p q xs r t"
  using assms
proof (induction xs arbitrary: p q)
  case Nil
  then show ?case by simp
next
  case (Cons a as)
  then show ?case by fastforce
qed

lemma dll_cong:
  assumes "\<And>a n. a \<in> set xs \<Longrightarrow> st a = Some n \<Longrightarrow> \<exists>n'. st' a = Some n' \<and> nx n' = nx n \<and> pv n' = pv n"
  shows "dll nx pv st p q xs \<Longrightarrow> dll nx pv st' p q xs"
  unfolding dll_def by (erule exE, rule exI, rule dseg_cong [OF assms])

lemma dseg_upd_other:
  "a \<notin> set xs \<Longrightarrow> dseg nx pv st p q xs r t \<Longrightarrow> dseg nx pv (st(a \<mapsto> n)) p q xs r t"
  by (rule dseg_cong) auto

lemma dll_upd_other:
  "a \<notin> set xs \<Longrightarrow> dll nx pv st p q xs \<Longrightarrow> dll nx pv (st(a \<mapsto> n)) p q xs"
  by (rule dll_cong) auto

section \<open>Link updates\<close>

locale link_fields =
  fixes nx pv :: "'n \<Rightarrow> u32"
    and set_nx set_pv :: "u32 \<Rightarrow> 'n \<Rightarrow> 'n"
  assumes nx_set_nx [simp]: "nx (set_nx v n) = v"
    and nx_set_pv [simp]: "nx (set_pv v n) = nx n"
    and pv_set_pv [simp]: "pv (set_pv v n) = v"
    and pv_set_nx [simp]: "pv (set_nx v n) = pv n"
begin

lemma dll_set_first_pv:
  assumes "dll nx pv st p q (a # as)" and "st a = Some n"
  shows "dll nx pv (st(a \<mapsto> set_pv q' n)) p q' (a # as)"
proof -
  from dll_distinct [OF assms(1)] have "a \<notin> set as" by simp
  with assms show ?thesis by (auto intro: dll_upd_other)
qed

lemma dseg_set_last_nx:
  assumes "dseg nx pv st p q (as @ [a]) r t" and "st a = Some n" and "a \<notin> set as"
  shows "dseg nx pv (st(a \<mapsto> set_nx r' n)) p q (as @ [a]) r' t"
  using assms by (auto simp: dseg_append intro: dseg_upd_other)

text \<open>Pushing a node in front of a list: its own links, then the old head's back link.\<close>

lemma dll_push:
  assumes l: "dll nx pv st p NULL xs" and a: "a \<notin> set xs" "a \<noteq> NULL"
    and n: "nx n = p" "pv n = NULL"
    and st': "st' = (if p \<noteq> NULL then (st(a \<mapsto> n))(p \<mapsto> set_pv a (the (st p))) else st(a \<mapsto> n))"
  shows "dll nx pv st' a NULL (a # xs)"
proof (cases xs)
  case Nil
  with l a n st' show ?thesis by auto
next
  case (Cons x as)
  with l obtain m where m: "st x = Some m" and p: "p = x" "x \<noteq> NULL" by auto
  have "dll nx pv (st(a \<mapsto> n)) x NULL (x # as)"
    using l a Cons p by (auto intro: dll_upd_other)
  then have "dll nx pv ((st(a \<mapsto> n))(x \<mapsto> set_pv a m)) x a (x # as)"
    using m a Cons by (intro dll_set_first_pv) auto
  with a n p m st' Cons show ?thesis by auto
qed

text \<open>Unlinking a node: the predecessor's forward link, then the successor's back link.\<close>

lemma dll_unlink:
  assumes l: "dll nx pv st p NULL (as @ a # bs)" and n: "st a = Some n"
    and st1: "st1 = (if pv n \<noteq> NULL then st(pv n \<mapsto> set_nx (nx n) (the (st (pv n)))) else st)"
    and st2: "st2 = (if nx n \<noteq> NULL then st1(nx n \<mapsto> set_pv (pv n) (the (st1 (nx n)))) else st1)"
  shows "dll nx pv st2 (if pv n \<noteq> NULL then p else nx n) NULL (as @ bs)"
proof -
  have dist: "distinct (as @ a # bs)" by (rule dll_distinct [OF l])
  from l n have seg: "dseg nx pv st p NULL as a (pv n)" and rest: "dll nx pv st (nx n) a bs"
    by (auto simp: dll_append)
  have pvn: "pv n = last (NULL # as)" by (rule dseg_last [OF seg])
  have null: "NULL \<notin> set as" using dseg_nonnull [OF seg] by blast
  have seg1: "dseg nx pv st1 (if pv n \<noteq> NULL then p else nx n) NULL as (nx n) (pv n)"
  proof (cases as rule: rev_cases)
    case Nil
    with pvn st1 seg show ?thesis by simp
  next
    case (snoc as' b)
    with pvn null have b: "pv n = b" "b \<noteq> NULL" by auto
    moreover obtain m where "st b = Some m" using dseg_in_store [OF seg] snoc by fastforce
    ultimately show ?thesis
      using dseg_set_last_nx [of st p NULL as' b a "pv n" m "nx n"] seg snoc dist st1 by simp
  qed
  have rest1: "dll nx pv st1 (nx n) a bs"
    using rest dist pvn null unfolding st1
    by (cases as rule: rev_cases) (auto intro: dll_upd_other)
  show ?thesis
  proof (cases bs)
    case Nil
    with rest seg1 st2 show ?thesis by (auto simp: dll_def)
  next
    case (Cons c cs)
    with rest1 obtain m where m: "st1 c = Some m" and c: "nx n = c" "c \<noteq> NULL" by auto
    have "dll nx pv (st1(c \<mapsto> set_pv (pv n) m)) c (pv n) (c # cs)"
      using dll_set_first_pv [of st1 c a c cs m "pv n"] rest1 m c Cons by simp
    moreover have "dseg nx pv (st1(c \<mapsto> set_pv (pv n) m)) (if pv n \<noteq> NULL then p else nx n) NULL as c (pv n)"
      using seg1 dist Cons c by (auto intro: dseg_upd_other)
    ultimately have "dll nx pv (st1(c \<mapsto> set_pv (pv n) m)) (if pv n \<noteq> NULL then p else nx n) NULL (as @ c # cs)"
      unfolding dll_append by blast
    then show ?thesis using m c st2 Cons by simp
  qed
qed

text \<open>Inserting a node \<open>c\<close> after \<open>a\<close>.\<close>

lemma dll_insert_after:
  assumes l: "dll nx pv st p q (as @ a # bs)" and n: "st a = Some n"
    and c: "c \<notin> set (as @ a # bs)" "c \<noteq> NULL" and m: "nx m = nx n" "pv m = a"
    and st1: "st1 = st(c \<mapsto> m)"
    and st2: "st2 = (if nx n \<noteq> NULL then st1(nx n \<mapsto> set_pv c (the (st1 (nx n)))) else st1)"
    and st3: "st3 = st2(a \<mapsto> set_nx c n)"
  shows "dll nx pv st3 p q (as @ a # c # bs)"
proof -
  have dist: "distinct (as @ a # bs)" by (rule dll_distinct [OF l])
  from l n obtain v where seg: "dseg nx pv st p q as a v" and pv: "pv n = v"
    and a0: "a \<noteq> NULL" and rest: "dll nx pv st (nx n) a bs"
    by (auto simp: dll_append)
  have st3_as: "\<And>x k. x \<in> set as \<Longrightarrow> st x = Some k \<Longrightarrow> st3 x = Some k"
    and st3_a: "st3 a = Some (set_nx c n)" and st3_c: "st3 c = Some m"
    using st1 st2 st3 c dist rest by (cases bs; auto)+
  have "dseg nx pv st3 p q as a v"
    by (rule dseg_cong [OF _ seg]) (auto dest: st3_as)
  moreover have "dll nx pv st3 (nx n) c bs"
  proof (cases bs)
    case Nil
    with rest show ?thesis by simp
  next
    case (Cons b bs')
    with rest obtain k where k: "st b = Some k" and b: "nx n = b" "b \<noteq> NULL" by auto
    have "dll nx pv st1 b a (b # bs')"
      using rest c Cons b st1 by (auto intro: dll_upd_other)
    then have "dll nx pv (st1(b \<mapsto> set_pv c k)) b c (b # bs')"
      using k c Cons st1 by (intro dll_set_first_pv) auto
    then have "dll nx pv st3 b c (b # bs')"
      using st2 st3 st1 b k c dist Cons by (auto intro: dll_upd_other)
    with b Cons show ?thesis by simp
  qed
  ultimately show ?thesis
    using st3_a st3_c a0 c m pv by (auto simp: dll_append)
qed

end

end
