(* ===== verification/Heap.thy ===== *)
theory Heap
  imports Utils Linked_Lists
begin

text \<open>
  The kernel heap of \<^verbatim>\<open>kernel/mm/memory.c\<close>: a segregated-fit allocator over the range
  \<open>HEAP_START .. HEAP_START + HEAP_SIZE\<close>. Every block has a header on two doubly linked
  lists, the physical chain and the free list of its bin.

  The headers are a store from header addresses to records; the payload bytes are the
  bytes of \<open>mem\<close>. A header that was merged away stays in the store, as its bytes stay
  in memory.
\<close>

section \<open>State\<close>

record memory_block =
  mb_magic :: u32
  mb_size :: u32
  mb_is_free :: u32
  mb_next :: u32
  mb_prev :: u32
  mb_free_next :: u32
  mb_free_prev :: u32

text \<open>\<open>int_flag\<close> is the interrupt flag that \<^verbatim>\<open>save_flags\<close> clears and \<^verbatim>\<open>restore_flags\<close> puts back.\<close>

record heap = klog_state +
  blocks :: "u32 \<rightharpoonup> memory_block"
  free_bins :: "u32 list"
  heap_start :: u32
  int_flag :: bool

definition HEAP_START :: u32 where [layout_simps]: "HEAP_START = 0x10000000"
definition HEAP_SIZE :: u32 where [layout_simps]: "HEAP_SIZE = 0x40000000"
definition HEAP_MAGIC :: u32 where "HEAP_MAGIC = 0xAA55AA55"
definition NUM_BINS :: nat where [layout_simps]: "NUM_BINS = 16"

text \<open>\<^verbatim>\<open>sizeof(memory_block_t)\<close>: seven 32-bit fields.\<close>

definition sizeof_block :: u32 where [layout_simps]: "sizeof_block = 28"

definition save_flags :: "'z heap_scheme \<Rightarrow> bool \<times> 'z heap_scheme" where
  "save_flags s = (int_flag s, s\<lparr>int_flag := False\<rparr>)"

definition restore_flags :: "bool \<Rightarrow> 'z heap_scheme \<Rightarrow> 'z heap_scheme" where
  "restore_flags flags s = s\<lparr>int_flag := flags\<rparr>"

section \<open>Header access\<close>

definition get_block :: "'z heap_scheme \<Rightarrow> u32 \<Rightarrow> memory_block option" where
  "get_block s p = (if p = NULL then None else blocks s p)"

definition upd_block :: "u32 \<Rightarrow> (memory_block \<Rightarrow> memory_block) \<Rightarrow> 'z heap_scheme \<Rightarrow> 'z heap_scheme option" where
  "upd_block p f s = do { b \<leftarrow> get_block s p; Some (s\<lparr>blocks := (blocks s)(p \<mapsto> f b)\<rparr>) }"

section \<open>Bins\<close>

definition get_bin_index :: "u32 \<Rightarrow> nat" where
  "get_bin_index sz =
     (if sz \<le> 32 then 0 else if sz \<le> 64 then 1 else if sz \<le> 128 then 2
      else if sz \<le> 256 then 3 else if sz \<le> 512 then 4 else if sz \<le> 1024 then 5
      else if sz \<le> 2048 then 6 else if sz \<le> 4096 then 7 else if sz \<le> 8192 then 8
      else if sz \<le> 16384 then 9 else if sz \<le> 32768 then 10 else if sz \<le> 65536 then 11
      else if sz \<le> 131072 then 12 else if sz \<le> 262144 then 13 else if sz \<le> 524288 then 14
      else 15)"

definition insert_free_block :: "u32 \<Rightarrow> 'z heap_scheme \<Rightarrow> 'z heap_scheme option" where
  "insert_free_block block s = do {
     b \<leftarrow> get_block s block;
     let bin = get_bin_index (mb_size b);
     s \<leftarrow> upd_block block (mb_free_next_update (\<lambda>_. free_bins s ! bin)) s;
     s \<leftarrow> upd_block block (mb_free_prev_update (\<lambda>_. NULL)) s;
     s \<leftarrow> (if free_bins s ! bin \<noteq> NULL
       then upd_block (free_bins s ! bin) (mb_free_prev_update (\<lambda>_. block)) s else Some s);
     Some (s\<lparr>free_bins := (free_bins s)[bin := block]\<rparr>) }"

definition remove_free_block :: "u32 \<Rightarrow> 'z heap_scheme \<Rightarrow> 'z heap_scheme option" where
  "remove_free_block block s = do {
     b \<leftarrow> get_block s block;
     let bin = get_bin_index (mb_size b);
     s \<leftarrow> (if mb_free_prev b \<noteq> NULL
       then upd_block (mb_free_prev b) (mb_free_next_update (\<lambda>_. mb_free_next b)) s
       else Some (s\<lparr>free_bins := (free_bins s)[bin := mb_free_next b]\<rparr>));
     b \<leftarrow> get_block s block;
     if mb_free_next b \<noteq> NULL
       then upd_block (mb_free_next b) (mb_free_prev_update (\<lambda>_. mb_free_prev b)) s else Some s }"

section \<open>Initialisation\<close>

definition heap_init :: "'z heap_scheme \<Rightarrow> 'z heap_scheme option" where
  "heap_init s = do {
     s \<leftarrow> klog ''[MM] Initializing smart heap manager...'' s;
     let s = s\<lparr>free_bins := replicate NUM_BINS NULL\<rparr>;
     let s = s\<lparr>heap_start := HEAP_START\<rparr>;
     let s = s\<lparr>blocks := (blocks s)(HEAP_START \<mapsto>
       \<lparr>mb_magic = HEAP_MAGIC, mb_size = HEAP_SIZE - sizeof_block, mb_is_free = 1,
        mb_next = NULL, mb_prev = NULL, mb_free_next = NULL, mb_free_prev = NULL\<rparr>)\<rparr>;
     s \<leftarrow> insert_free_block (heap_start s) s;
     let hex = itoa HEAP_START 16;
     msg \<leftarrow> strcat 128 ''[MM] Heap initialized at '' hex;
     msg \<leftarrow> strcat 128 msg '' (Size: '';
     let szs = itoa (HEAP_SIZE div (1024 * 1024)) 10;
     msg \<leftarrow> strcat 128 msg szs;
     msg \<leftarrow> strcat 128 msg '' MB)'';
     klog msg s }"

section \<open>Allocation\<close>

text \<open>The walk over one free list, and over the bins from the starting one; NULL is \<^verbatim>\<open>!found\<close>.\<close>

partial_function (option) free_list_find :: "'z heap_scheme \<Rightarrow> u32 \<Rightarrow> u32 \<Rightarrow> u32 option" where
  "free_list_find s sz cur =
     (if cur = NULL then Some NULL
      else do {
        b \<leftarrow> get_block s cur;
        if mb_size b \<ge> sz then Some cur else free_list_find s sz (mb_free_next b) })"

fun bins_find :: "'z heap_scheme \<Rightarrow> u32 \<Rightarrow> u32 list \<Rightarrow> u32 option" where
  "bins_find s sz [] = Some NULL"
| "bins_find s sz (bin # bins) = do {
     found \<leftarrow> free_list_find s sz bin;
     if found \<noteq> NULL then Some found else bins_find s sz bins }"

text \<open>Rounding the request up to a multiple of four, in 32-bit arithmetic.\<close>

definition round_size :: "u32 \<Rightarrow> u32" where
  "round_size sz = (if sz mod 4 \<noteq> 0 then sz + (4 - sz mod 4) else sz)"

text \<open>The split of \<open>found\<close>: the rest of the block becomes a free block of its own.\<close>

definition split_block :: "u32 \<Rightarrow> u32 \<Rightarrow> 'z heap_scheme \<Rightarrow> 'z heap_scheme option" where
  "split_block found sz s = do {
     b \<leftarrow> get_block s found;
     let new_block = found + sizeof_block + sz;
     let s = s\<lparr>blocks := (blocks s)(new_block \<mapsto>
       \<lparr>mb_magic = HEAP_MAGIC, mb_size = mb_size b - sz - sizeof_block, mb_is_free = 1,
        mb_next = mb_next b, mb_prev = found, mb_free_next = NULL, mb_free_prev = NULL\<rparr>)\<rparr>;
     s \<leftarrow> (if mb_next b \<noteq> NULL then upd_block (mb_next b) (mb_prev_update (\<lambda>_. new_block)) s else Some s);
     s \<leftarrow> upd_block found (mb_next_update (\<lambda>_. new_block)) s;
     s \<leftarrow> upd_block found (mb_size_update (\<lambda>_. sz)) s;
     insert_free_block new_block s }"

definition kmalloc :: "u32 \<Rightarrow> 'z heap_scheme \<Rightarrow> (u32 \<times> 'z heap_scheme) option" where
  "kmalloc sz s = do {
     let (flags, s) = save_flags s;
     let sz = round_size sz;
     let start_bin = get_bin_index sz;
     found \<leftarrow> bins_find s sz (drop start_bin (free_bins s));
     if found = NULL then Some (NULL, restore_flags flags s)
     else do {
       s \<leftarrow> remove_free_block found s;
       b \<leftarrow> get_block s found;
       s \<leftarrow> (if mb_size b > sz + sizeof_block + 16 then split_block found sz s else Some s);
       s \<leftarrow> upd_block found (mb_is_free_update (\<lambda>_. 0)) s;
       Some (found + sizeof_block, restore_flags flags s) } }"

section \<open>Release\<close>

text \<open>Both coalescing steps of \<^verbatim>\<open>kfree\<close>; the second moves on to the previous block.\<close>

definition merge_next :: "u32 \<Rightarrow> 'z heap_scheme \<Rightarrow> 'z heap_scheme option" where
  "merge_next block s = do {
     b \<leftarrow> get_block s block;
     if mb_next b = NULL then Some s
     else do {
       n \<leftarrow> get_block s (mb_next b);
       if mb_is_free n = 0 then Some s
       else do {
         s \<leftarrow> remove_free_block (mb_next b) s;
         n \<leftarrow> get_block s (mb_next b);
         s \<leftarrow> upd_block block (mb_size_update (\<lambda>sz. sz + (sizeof_block + mb_size n))) s;
         s \<leftarrow> upd_block block (mb_next_update (\<lambda>_. mb_next n)) s;
         b \<leftarrow> get_block s block;
         if mb_next b \<noteq> NULL then upd_block (mb_next b) (mb_prev_update (\<lambda>_. block)) s else Some s } } }"

definition merge_prev :: "u32 \<Rightarrow> 'z heap_scheme \<Rightarrow> (u32 \<times> 'z heap_scheme) option" where
  "merge_prev block s = do {
     b \<leftarrow> get_block s block;
     if mb_prev b = NULL then Some (block, s)
     else do {
       p \<leftarrow> get_block s (mb_prev b);
       if mb_is_free p = 0 then Some (block, s)
       else do {
         s \<leftarrow> remove_free_block (mb_prev b) s;
         b \<leftarrow> get_block s block;
         s \<leftarrow> upd_block (mb_prev b) (mb_size_update (\<lambda>sz. sz + (sizeof_block + mb_size b))) s;
         s \<leftarrow> upd_block (mb_prev b) (mb_next_update (\<lambda>_. mb_next b)) s;
         s \<leftarrow> (if mb_next b \<noteq> NULL then upd_block (mb_next b) (mb_prev_update (\<lambda>_. mb_prev b)) s else Some s);
         Some (mb_prev b, s) } } }"

definition kfree :: "u32 \<Rightarrow> 'z heap_scheme \<Rightarrow> 'z heap_scheme option" where
  "kfree ptr s = do {
     let (flags, s) = save_flags s;
     if ptr = NULL then Some (restore_flags flags s)
     else do {
       let block = ptr - sizeof_block;
       b \<leftarrow> get_block s block;
       if mb_magic b \<noteq> HEAP_MAGIC \<or> mb_is_free b \<noteq> 0 then Some (restore_flags flags s)
       else do {
         s \<leftarrow> merge_next block s;
         (block, s) \<leftarrow> merge_prev block s;
         s \<leftarrow> upd_block block (mb_is_free_update (\<lambda>_. 1)) s;
         s \<leftarrow> insert_free_block block s;
         Some (restore_flags flags s) } } }"

section \<open>Page-aligned allocation\<close>

definition kmalloc_a :: "u32 \<Rightarrow> 'z heap_scheme \<Rightarrow> (u32 \<times> 'z heap_scheme) option" where
  "kmalloc_a sz s = do {
     (raw, s) \<leftarrow> kmalloc (sz + 4096 + 4) s;
     if raw = NULL then Some (NULL, s)
     else let aligned = (raw + 4 + 4095) AND NOT 4095
       in Some (aligned, s\<lparr>mem := store32 (mem s) (aligned - 4) raw\<rparr>) }"

definition kfree_a :: "u32 \<Rightarrow> 'z heap_scheme \<Rightarrow> 'z heap_scheme option" where
  "kfree_a ptr s = (if ptr = NULL then Some s else kfree (load32 (mem s) (ptr - 4)) s)"

section \<open>Statistics\<close>

text \<open>The accumulators of \<^verbatim>\<open>heap_dump\<close>.\<close>

record heap_stats =
  total_free :: u32
  total_used :: u32
  free_blocks :: u32
  used_blocks :: u32
  largest_free :: u32

definition stats_step :: "memory_block \<Rightarrow> heap_stats \<Rightarrow> heap_stats" where
  "stats_step b t =
     (if mb_is_free b \<noteq> 0
      then t\<lparr>total_free := total_free t + mb_size b, free_blocks := free_blocks t + 1,
             largest_free := (if mb_size b > largest_free t then mb_size b else largest_free t)\<rparr>
      else t\<lparr>total_used := total_used t + mb_size b, used_blocks := used_blocks t + 1\<rparr>)"

partial_function (option) heap_dump_loop :: "'z heap_scheme \<Rightarrow> u32 \<Rightarrow> heap_stats \<Rightarrow> heap_stats option" where
  "heap_dump_loop s cur t =
     (if cur = NULL then Some t
      else do { b \<leftarrow> get_block s cur; heap_dump_loop s (mb_next b) (stats_step b t) })"

text \<open>The statistics \<^verbatim>\<open>heap_dump\<close> prints, and the log line it writes at the end.\<close>

definition heap_dump :: "'z heap_scheme \<Rightarrow> (heap_stats \<times> 'z heap_scheme) option" where
  "heap_dump s = do {
     let (flags, s) = save_flags s;
     t \<leftarrow> heap_dump_loop s (heap_start s)
       \<lparr>total_free = 0, total_used = 0, free_blocks = 0, used_blocks = 0, largest_free = 0\<rparr>;
     let s = restore_flags flags s;
     log \<leftarrow> sprintf 128 ''[MM] Heap Dump Triggered. Used: %d KB'' [ArgWord (total_used t div 1024)];
     s \<leftarrow> klog log s;
     Some (t, s) }"

partial_function (option) used_memory_loop :: "'z heap_scheme \<Rightarrow> u32 \<Rightarrow> u32 \<Rightarrow> u32 option" where
  "used_memory_loop s cur used_mem =
     (if cur = NULL then Some used_mem
      else do {
        b \<leftarrow> get_block s cur;
        used_memory_loop s (mb_next b) (if mb_is_free b = 0 then used_mem + mb_size b else used_mem) })"

definition get_used_memory :: "'z heap_scheme \<Rightarrow> (u32 \<times> 'z heap_scheme) option" where
  "get_used_memory s = do {
     let (flags, s) = save_flags s;
     used \<leftarrow> used_memory_loop s (heap_start s) 0;
     Some (used, restore_flags flags s) }"

definition get_total_memory :: u32 where
  "get_total_memory = HEAP_SIZE"

end
