(* ===== verification/Heap_Refine.thy ===== *)
theory Heap_Refine
  imports Heap
begin

text \<open>
  The heap against its abstract specification. The abstract heap is the list of blocks in
  address order and, per bin, the list of free block addresses; its operations are list
  operations. The refinement lemmas show that every pointer operation of
  \<^verbatim>\<open>kernel/mm/memory.c\<close> implements the list operation: no fault, and the same result.
\<close>

section \<open>The abstract heap\<close>

text \<open>A block: the address of its header, its payload size, and whether it is free.\<close>

type_synonym ablock = "u32 \<times> u32 \<times> bool"

definition blk_rep :: "(u32 \<rightharpoonup> memory_block) \<Rightarrow> ablock \<Rightarrow> bool" where
  "blk_rep st e \<longleftrightarrow> (case e of (p, n, f) \<Rightarrow>
     \<exists>b. st p = Some b \<and> mb_magic b = HEAP_MAGIC \<and> mb_size b = n \<and> mb_is_free b = (if f then 1 else 0))"

definition phys_rep :: "(u32 \<rightharpoonup> memory_block) \<Rightarrow> ablock list \<Rightarrow> bool" where
  "phys_rep st bs \<longleftrightarrow> dll mb_next mb_prev st HEAP_START NULL (map fst bs) \<and> list_all (blk_rep st) bs"

definition bins_rep :: "(u32 \<rightharpoonup> memory_block) \<Rightarrow> u32 list \<Rightarrow> u32 list list \<Rightarrow> bool" where
  "bins_rep st bins fl \<longleftrightarrow> length bins = 16 \<and> length fl = 16 \<and>
     (\<forall>i<16. dll mb_free_next mb_free_prev st (bins ! i) NULL (fl ! i))"

definition heap_rel :: "'z heap_scheme \<Rightarrow> ablock list \<Rightarrow> u32 list list \<Rightarrow> bool" where
  "heap_rel s bs fl \<longleftrightarrow>
     heap_start s = HEAP_START \<and> phys_rep (blocks s) bs \<and> bins_rep (blocks s) (free_bins s) fl"

text \<open>No address is on two free lists.\<close>

definition bins_disjoint :: "u32 list list \<Rightarrow> bool" where
  "bins_disjoint fl \<longleftrightarrow>
     (\<forall>i<length fl. \<forall>j<length fl. i \<noteq> j \<longrightarrow> set (fl ! i) \<inter> set (fl ! j) = {})"

lemma get_bin_index_less [simp]: "get_bin_index n < 16"
  by (simp add: get_bin_index_def)

interpretation phys: link_fields mb_next mb_prev "\<lambda>v. mb_next_update (\<lambda>_. v)" "\<lambda>v. mb_prev_update (\<lambda>_. v)"
  by unfold_locales simp_all

interpretation freel: link_fields mb_free_next mb_free_prev
    "\<lambda>v. mb_free_next_update (\<lambda>_. v)" "\<lambda>v. mb_free_prev_update (\<lambda>_. v)"
  by unfold_locales simp_all

section \<open>Frame facts\<close>

lemma phys_rep_cong:
  assumes "\<And>a b. st a = Some b \<Longrightarrow> \<exists>b'. st' a = Some b' \<and> mb_magic b' = mb_magic b \<and> mb_size b' = mb_size b \<and>
    mb_is_free b' = mb_is_free b \<and> mb_next b' = mb_next b \<and> mb_prev b' = mb_prev b"
    and "phys_rep st bs"
  shows "phys_rep st' bs"
proof -
  have "dll mb_next mb_prev st' HEAP_START NULL (map fst bs)"
    by (rule dll_cong [of _ st]) (use assms in \<open>auto simp: phys_rep_def dest!: assms(1)\<close>)
  moreover have "blk_rep st' e" if "e \<in> set bs" for e
    using assms(2) that by (fastforce simp: phys_rep_def list_all_iff blk_rep_def dest: assms(1))
  ultimately show ?thesis by (simp add: phys_rep_def list_all_iff)
qed

lemma phys_rep_distinct: "phys_rep st bs \<Longrightarrow> distinct (map fst bs)"
  unfolding phys_rep_def by (blast dest: dll_distinct)

lemma phys_rep_nonnull: "phys_rep st bs \<Longrightarrow> (p, n, f) \<in> set bs \<Longrightarrow> p \<noteq> NULL"
  unfolding phys_rep_def by (force dest: dll_nonnull)

lemma phys_rep_blk: "phys_rep st bs \<Longrightarrow> (p, n, f) \<in> set bs \<Longrightarrow> blk_rep st (p, n, f)"
  by (auto simp: phys_rep_def list_all_iff)

lemma bins_rep_cong:
  assumes "\<And>a b. st a = Some b \<Longrightarrow> \<exists>b'. st' a = Some b' \<and> mb_free_next b' = mb_free_next b \<and> mb_free_prev b' = mb_free_prev b"
    and "bins_rep st bins fl"
  shows "bins_rep st' bins fl"
  unfolding bins_rep_def
proof (intro conjI allI impI)
  fix i :: nat assume "i < 16"
  then have "dll mb_free_next mb_free_prev st (bins ! i) NULL (fl ! i)"
    using assms(2) by (simp add: bins_rep_def)
  then show "dll mb_free_next mb_free_prev st' (bins ! i) NULL (fl ! i)"
    by (rule dll_cong [rotated]) (rule assms(1))
qed (use assms(2) in \<open>simp_all add: bins_rep_def\<close>)

lemma heap_rel_block:
  assumes "heap_rel s bs fl" and "(p, n, f) \<in> set bs"
  obtains b where "get_block s p = Some b" "p \<noteq> NULL" "blocks s p = Some b" "mb_magic b = HEAP_MAGIC" "mb_size b = n"
    "mb_is_free b = (if f then 1 else 0)"
proof -
  have "p \<noteq> NULL" "blk_rep (blocks s) (p, n, f)"
    using assms by (auto simp: heap_rel_def intro: phys_rep_blk dest: phys_rep_nonnull)
  then show ?thesis using that by (auto simp: blk_rep_def get_block_def)
qed

section \<open>Free lists\<close>

lemma bins_rep_push:
  assumes l: "bins_rep st bins fl" and i: "i < 16" and p: "p \<noteq> NULL" "\<And>j. j < 16 \<Longrightarrow> p \<notin> set (fl ! j)"
    and disj: "bins_disjoint fl" and b: "mb_free_next b = bins ! i" "mb_free_prev b = NULL"
    and st': "st' = (if bins ! i \<noteq> NULL
      then (st(p \<mapsto> b))(bins ! i \<mapsto> mb_free_prev_update (\<lambda>_. p) (the (st (bins ! i)))) else st(p \<mapsto> b))"
  shows "bins_rep st' (bins[i := p]) (fl[i := p # fl ! i])"
  unfolding bins_rep_def
proof (intro conjI allI impI)
  fix j :: nat assume j: "j < 16"
  have li: "dll mb_free_next mb_free_prev st (bins ! i) NULL (fl ! i)"
    and lj: "dll mb_free_next mb_free_prev st (bins ! j) NULL (fl ! j)"
    using l i j by (auto simp: bins_rep_def)
  show "dll mb_free_next mb_free_prev st' (bins[i := p] ! j) NULL (fl[i := p # fl ! i] ! j)"
  proof (cases "j = i")
    case True
    then show ?thesis
      using freel.dll_push [OF li p(2) [OF i] p(1) b st'] l i by (simp add: bins_rep_def)
  next
    case False
    have "bins ! i \<notin> set (fl ! j)" if "bins ! i \<noteq> NULL"
      using that disj l i j False li dll_hd [OF li]
      by (cases "fl ! i") (auto simp: bins_disjoint_def bins_rep_def)
    then have "dll mb_free_next mb_free_prev st' (bins ! j) NULL (fl ! j)"
      unfolding st' using lj p(2) [OF j] by (auto intro!: dll_upd_other)
    with False show ?thesis by simp
  qed
qed (use l in \<open>auto simp: bins_rep_def\<close>)

lemma bins_rep_unlink:
  assumes l: "bins_rep st bins fl" and i: "i < 16" and p: "p \<in> set (fl ! i)"
    and disj: "bins_disjoint fl" and b: "st p = Some b"
    and st1: "st1 = (if mb_free_prev b \<noteq> NULL
      then st(mb_free_prev b \<mapsto> mb_free_next_update (\<lambda>_. mb_free_next b) (the (st (mb_free_prev b)))) else st)"
    and st2: "st2 = (if mb_free_next b \<noteq> NULL
      then st1(mb_free_next b \<mapsto> mb_free_prev_update (\<lambda>_. mb_free_prev b) (the (st1 (mb_free_next b)))) else st1)"
  shows "bins_rep st2 (if mb_free_prev b \<noteq> NULL then bins else bins[i := mb_free_next b])
    (fl[i := remove1 p (fl ! i)])"
    and "mb_free_prev b \<noteq> NULL \<Longrightarrow> \<exists>n. st (mb_free_prev b) = Some n"
    and "mb_free_next b \<noteq> NULL \<Longrightarrow> \<exists>n. st1 (mb_free_next b) = Some n"
    and "st1 p = Some b"
proof -
  have li: "dll mb_free_next mb_free_prev st (bins ! i) NULL (fl ! i)"
    using l i by (auto simp: bins_rep_def)
  obtain us vs where uv: "fl ! i = us @ p # vs" using p by (auto simp: in_set_conv_decomp)
  have dist: "distinct (us @ p # vs)" using dll_distinct [OF li] uv by simp
  have li': "dll mb_free_next mb_free_prev st (bins ! i) NULL (us @ p # vs)" using li uv by simp
  from li' b have seg: "dseg mb_free_next mb_free_prev st (bins ! i) NULL us p (mb_free_prev b)"
    and rest: "dll mb_free_next mb_free_prev st (mb_free_next b) p vs"
    by (auto simp: dll_append)
  have pv: "mb_free_prev b = last (NULL # us)" by (rule dseg_last [OF seg])
  have in_us: "mb_free_prev b \<in> set us" if "mb_free_prev b \<noteq> NULL"
    using that pv by (cases us rule: rev_cases) auto
  have in_vs: "mb_free_next b \<in> set vs" if "mb_free_next b \<noteq> NULL"
    using that dll_hd [OF rest] by (cases vs) auto
  show st_pv: "mb_free_prev b \<noteq> NULL \<Longrightarrow> \<exists>n. st (mb_free_prev b) = Some n"
    using in_us dseg_in_store [OF seg] by blast
  show "mb_free_next b \<noteq> NULL \<Longrightarrow> \<exists>n. st1 (mb_free_next b) = Some n"
    using in_vs dll_in_store [OF rest] unfolding st1 by auto
  show "st1 p = Some b" unfolding st1 using in_us dist b by auto
  have upd: "dll mb_free_next mb_free_prev st2 (if mb_free_prev b \<noteq> NULL then bins ! i else mb_free_next b) NULL (us @ vs)"
    by (rule freel.dll_unlink [OF li' b st1 st2])
  show "bins_rep st2 (if mb_free_prev b \<noteq> NULL then bins else bins[i := mb_free_next b]) (fl[i := remove1 p (fl ! i)])"
    unfolding bins_rep_def
  proof (intro conjI allI impI)
    fix j :: nat assume j: "j < 16"
    have lj: "dll mb_free_next mb_free_prev st (bins ! j) NULL (fl ! j)" using l j by (auto simp: bins_rep_def)
    show "dll mb_free_next mb_free_prev st2 ((if mb_free_prev b \<noteq> NULL then bins else bins[i := mb_free_next b]) ! j)
      NULL (fl[i := remove1 p (fl ! i)] ! j)"
    proof (cases "j = i")
      case True
      then show ?thesis
        using upd l i uv dist by (auto simp: bins_rep_def remove1_append split: if_splits)
    next
      case False
      then have "set (fl ! i) \<inter> set (fl ! j) = {}"
        using disj l i j by (auto simp: bins_disjoint_def bins_rep_def)
      then have "dll mb_free_next mb_free_prev st2 (bins ! j) NULL (fl ! j)"
        unfolding st2 st1 using lj in_us in_vs uv by (auto intro!: dll_upd_other)
      with False show ?thesis by simp
    qed
  qed (use l in \<open>auto simp: bins_rep_def\<close>)
qed

text \<open>The operations on headers and bins change nothing else of the state.\<close>

definition heap_frame :: "'z heap_scheme \<Rightarrow> 'z heap_scheme \<Rightarrow> bool" where
  "heap_frame s s' \<longleftrightarrow> s' = s\<lparr>blocks := blocks s', free_bins := free_bins s'\<rparr>"

lemma heap_frame_refl [simp]: "heap_frame s s"
  by (simp add: heap_frame_def)

lemma heap_frame_trans [trans]: "heap_frame s t \<Longrightarrow> heap_frame t u \<Longrightarrow> heap_frame s u"
  by (cases s; cases t; cases u) (auto simp: heap_frame_def)

lemma heap_frame_blocks [simp]: "heap_frame s (s\<lparr>blocks := x\<rparr>)" "heap_frame s (s\<lparr>blocks := x, free_bins := y\<rparr>)"
  by (simp_all add: heap_frame_def)

lemma insert_free_block_rel:
  assumes rel: "heap_rel s bs fl" and p: "(p, n, f) \<in> set bs" "\<And>j. j < 16 \<Longrightarrow> p \<notin> set (fl ! j)"
    and disj: "bins_disjoint fl"
  obtains s' where "insert_free_block p s = Some s'" "heap_frame s s'"
    "heap_rel s' bs (fl[get_bin_index n := p # fl ! get_bin_index n])"
proof -
  obtain b where b: "blocks s p = Some b" "p \<noteq> NULL" "mb_size b = n" "get_block s p = Some b"
    using heap_rel_block [OF rel p(1)] by metis
  let ?i = "get_bin_index n"
  let ?q = "free_bins s ! ?i"
  define b' where "b' = b\<lparr>mb_free_next := ?q, mb_free_prev := NULL\<rparr>"
  define st' where "st' = (if ?q \<noteq> NULL
    then ((blocks s)(p \<mapsto> b'))(?q \<mapsto> mb_free_prev_update (\<lambda>_. p) (the (blocks s ?q))) else (blocks s)(p \<mapsto> b'))"
  have bins: "bins_rep (blocks s) (free_bins s) fl" and phys: "phys_rep (blocks s) bs"
    using rel by (auto simp: heap_rel_def)
  have li: "dll mb_free_next mb_free_prev (blocks s) ?q NULL (fl ! ?i)" using bins by (simp add: bins_rep_def)
  have q: "\<exists>m. blocks s ?q = Some m" "?q \<noteq> p" if "?q \<noteq> NULL"
    using dll_hd [OF li] dll_in_store [OF li] p(2) [of ?i] that by (cases "fl ! ?i"; auto)+
  have run: "insert_free_block p s = Some (s\<lparr>blocks := st', free_bins := (free_bins s)[?i := p]\<rparr>)"
    using b q by (auto simp: insert_free_block_def upd_block_def get_block_def st'_def b'_def Let_def)
  have "bins_rep st' ((free_bins s)[?i := p]) (fl[?i := p # fl ! ?i])"
    by (rule bins_rep_push [OF bins _ b(2) p(2) disj _ _ st'_def]) (simp_all add: b'_def)
  moreover have "phys_rep st' bs"
    by (rule phys_rep_cong [OF _ phys]) (use b q in \<open>auto simp: st'_def b'_def\<close>)
  ultimately have "heap_rel (s\<lparr>blocks := st', free_bins := (free_bins s)[?i := p]\<rparr>) bs (fl[?i := p # fl ! ?i])"
    using rel by (simp add: heap_rel_def)
  with run show ?thesis by (intro that) simp_all
qed

lemma remove_free_block_rel:
  assumes rel: "heap_rel s bs fl" and p: "(p, n, f) \<in> set bs" "p \<in> set (fl ! get_bin_index n)"
    and disj: "bins_disjoint fl"
  obtains s' where "remove_free_block p s = Some s'" "heap_frame s s'"
    "heap_rel s' bs (fl[get_bin_index n := remove1 p (fl ! get_bin_index n)])"
proof -
  let ?i = "get_bin_index n"
  obtain b where b: "blocks s p = Some b" "p \<noteq> NULL" "mb_size b = n" "get_block s p = Some b"
    using heap_rel_block [OF rel p(1)] by metis
  define st1 where "st1 = (if mb_free_prev b \<noteq> NULL
    then (blocks s)(mb_free_prev b \<mapsto> mb_free_next_update (\<lambda>_. mb_free_next b) (the (blocks s (mb_free_prev b)))) else blocks s)"
  define st2 where "st2 = (if mb_free_next b \<noteq> NULL
    then st1(mb_free_next b \<mapsto> mb_free_prev_update (\<lambda>_. mb_free_prev b) (the (st1 (mb_free_next b)))) else st1)"
  define bins where "bins = (if mb_free_prev b \<noteq> NULL then free_bins s else (free_bins s)[?i := mb_free_next b])"
  have bins: "bins_rep (blocks s) (free_bins s) fl" and phys: "phys_rep (blocks s) bs"
    using rel by (auto simp: heap_rel_def)
  note un = bins_rep_unlink [OF bins get_bin_index_less p(2) disj b(1) st1_def st2_def]
  have run: "remove_free_block p s = Some (s\<lparr>blocks := st2, free_bins := bins\<rparr>)"
    using b un(2-4)
    by (auto simp: remove_free_block_def upd_block_def get_block_def st1_def st2_def bins_def Let_def)
  have "phys_rep st1 bs"
    by (rule phys_rep_cong [OF _ phys]) (use un(2) in \<open>auto simp: st1_def\<close>)
  then have "phys_rep st2 bs"
    by (rule phys_rep_cong [rotated]) (use un(3) in \<open>auto simp: st2_def\<close>)
  then have "heap_rel (s\<lparr>blocks := st2, free_bins := bins\<rparr>) bs (fl[?i := remove1 p (fl ! ?i)])"
    using rel un(1) by (simp add: heap_rel_def bins_def)
  with run show ?thesis by (intro that) simp_all
qed

section \<open>The physical chain\<close>

lemma phys_rep_header:
  assumes "phys_rep st (as @ (p, n, f) # cs)" and "st p = Some b"
    and "mb_magic b' = mb_magic b" "mb_next b' = mb_next b" "mb_prev b' = mb_prev b"
    and "mb_size b' = n'" "mb_is_free b' = (if f' then 1 else 0)"
  shows "phys_rep (st(p \<mapsto> b')) (as @ (p, n', f') # cs)"
proof -
  have dist: "distinct (map fst (as @ (p, n, f) # cs))" by (rule phys_rep_distinct [OF assms(1)])
  have "dll mb_next mb_prev (st(p \<mapsto> b')) HEAP_START NULL (map fst (as @ (p, n', f') # cs))"
    by (rule dll_cong [of _ st]) (use assms in \<open>auto simp: phys_rep_def\<close>)
  moreover have "blk_rep (st(p \<mapsto> b')) e" if "e \<in> set as \<union> set cs" for e
  proof -
    obtain x k h where e: "e = (x, k, h)" by (cases e)
    have "x \<noteq> p" "blk_rep st e" using that assms(1) dist e by (auto simp: phys_rep_def list_all_iff rev_image_eqI)
    then show ?thesis by (simp add: e blk_rep_def)
  qed
  moreover have "mb_magic b = HEAP_MAGIC" using assms(1,2) by (auto simp: phys_rep_def blk_rep_def)
  ultimately show ?thesis using assms(3-) by (auto simp: phys_rep_def list_all_iff blk_rep_def)
qed

lemma set_free_rel:
  assumes "heap_rel s (as @ (p, n, f) # cs) fl"
  obtains s' where "upd_block p (mb_is_free_update (\<lambda>_. if f' then 1 else 0)) s = Some s'" "heap_frame s s'"
    "heap_rel s' (as @ (p, n, f') # cs) fl"
proof -
  obtain b where b: "get_block s p = Some b" "blocks s p = Some b" "mb_size b = n"
    using heap_rel_block [OF assms, of p n f] by auto
  let ?b = "mb_is_free_update (\<lambda>_. if f' then 1 else 0) b"
  have "phys_rep ((blocks s)(p \<mapsto> ?b)) (as @ (p, n, f') # cs)"
    by (rule phys_rep_header [of _ _ _ n f _ b]) (use assms b in \<open>auto simp: heap_rel_def\<close>)
  moreover have "bins_rep ((blocks s)(p \<mapsto> ?b)) (free_bins s) fl"
    by (rule bins_rep_cong [of "blocks s"]) (use assms b in \<open>auto simp: heap_rel_def\<close>)
  ultimately show ?thesis using assms b
    by (intro that [of "s\<lparr>blocks := (blocks s)(p \<mapsto> ?b)\<rparr>"]) (auto simp: upd_block_def heap_rel_def)
qed

text \<open>A block that swallows its physical successor.\<close>

lemma phys_rep_absorb:
  assumes phys: "phys_rep st (as @ (p, n, f) # (q, m, g) # cs)" and p: "st p = Some b" and q: "st q = Some c"
    and st1: "st1 = st(p \<mapsto> b\<lparr>mb_size := n', mb_next := mb_next c\<rparr>)"
    and st2: "st2 = (if mb_next c \<noteq> NULL then st1(mb_next c \<mapsto> mb_prev_update (\<lambda>_. p) (the (st1 (mb_next c)))) else st1)"
  shows "phys_rep st2 (as @ (p, n', f) # cs)" and "mb_next c \<noteq> NULL \<Longrightarrow> mb_next c \<noteq> p \<and> (\<exists>d. st1 (mb_next c) = Some d)"
    and "mb_prev c = p" "mb_next b = q" "p \<noteq> q"
proof -
  let ?b = "b\<lparr>mb_size := n'\<rparr>"
  have dist: "distinct (map fst (as @ (p, n, f) # (q, m, g) # cs))" by (rule phys_rep_distinct [OF phys])
  then have pq: "p \<noteq> q" by auto
  have hdr: "mb_is_free b = (if f then 1 else 0)" "mb_magic b = HEAP_MAGIC"
    using phys p by (auto simp: phys_rep_def blk_rep_def)
  define sz where "sz = st(p \<mapsto> ?b)"
  have phys': "phys_rep sz (as @ (p, n', f) # (q, m, g) # cs)" unfolding sz_def
    by (rule phys_rep_header [OF phys p]) (use hdr in auto)
  have l: "dll mb_next mb_prev sz HEAP_START NULL ((map fst as @ [p]) @ q # map fst cs)"
    using phys' by (simp add: phys_rep_def)
  have links: "mb_prev c = p" "mb_next b = q" "p \<noteq> NULL" and rest: "dll mb_next mb_prev sz (mb_next c) q (map fst cs)"
    using l q pq by (auto simp: dll_append sz_def dest!: dseg_last)
  show "mb_prev c = p" "mb_next b = q" "p \<noteq> q" by (fact links pq)+
  have nx: "mb_next c \<noteq> p \<and> mb_next c \<noteq> q \<and> mb_next c \<in> fst ` set cs \<and> (\<exists>d. sz (mb_next c) = Some d)" if "mb_next c \<noteq> NULL"
    using that dll_hd [OF rest] dll_in_store [OF rest] dist by (cases cs) auto
  then show "mb_next c \<noteq> NULL \<Longrightarrow> mb_next c \<noteq> p \<and> (\<exists>d. st1 (mb_next c) = Some d)"
    by (auto simp: st1 sz_def)
  have "sz q = Some c" using q pq by (simp add: sz_def)
  then have "dll mb_next mb_prev st2 (if mb_prev c \<noteq> NULL then HEAP_START else mb_next c) NULL ((map fst as @ [p]) @ map fst cs)"
    by (rule phys.dll_unlink [OF l _ _ st2 [folded links(1)]]) (use links in \<open>simp add: st1 sz_def\<close>)
  then have "dll mb_next mb_prev st2 HEAP_START NULL ((map fst as @ [p]) @ map fst cs)"
    using links by simp
  moreover have "blk_rep st2 (p, n', f)"
    using hdr pq nx by (auto simp: blk_rep_def st2 st1)
  moreover have "blk_rep st2 e" if "e \<in> set as \<union> set cs" for e
  proof -
    obtain x k h where e: "e = (x, k, h)" by (cases e)
    have "x \<noteq> p" "blk_rep st e" using that phys dist e by (auto simp: phys_rep_def list_all_iff rev_image_eqI)
    then show ?thesis by (auto simp: e blk_rep_def st2 st1)
  qed
  ultimately show "phys_rep st2 (as @ (p, n', f) # cs)" by (auto simp: phys_rep_def list_all_iff)
qed

lemma heap_rel_absorb:
  assumes rel: "heap_rel s (as @ (p, n, f) # (q, m, g) # cs) fl" and p: "blocks s p = Some b" and q: "blocks s q = Some c"
    and st1: "st1 = (blocks s)(p \<mapsto> b\<lparr>mb_size := n', mb_next := mb_next c\<rparr>)"
    and st2: "st2 = (if mb_next c \<noteq> NULL then st1(mb_next c \<mapsto> mb_prev_update (\<lambda>_. p) (the (st1 (mb_next c)))) else st1)"
  shows "heap_rel (s\<lparr>blocks := st2\<rparr>) (as @ (p, n', f) # cs) fl"
proof -
  have phys: "phys_rep (blocks s) (as @ (p, n, f) # (q, m, g) # cs)" using rel by (simp add: heap_rel_def)
  note ab = phys_rep_absorb [OF phys p q st1 st2]
  have "bins_rep (blocks s) (free_bins s) fl" using rel by (simp add: heap_rel_def)
  then have "bins_rep st1 (free_bins s) fl"
    by (rule bins_rep_cong [rotated]) (use p in \<open>auto simp: st1\<close>)
  then have "bins_rep st2 (free_bins s) fl"
    by (rule bins_rep_cong [rotated]) (use ab(2) in \<open>auto simp: st2\<close>)
  with ab(1) rel show ?thesis by (simp add: heap_rel_def)
qed

lemma heap_rel_next:
  assumes "heap_rel s (as @ (p, n, f) # cs) fl" and "blocks s p = Some b"
  shows "mb_next b = (case cs of [] \<Rightarrow> NULL | c # _ \<Rightarrow> fst c)"
    and "mb_prev b = (if as = [] then NULL else fst (last as))"
  using assms by (auto simp: heap_rel_def phys_rep_def dll_append last_map dest!: dll_hd dseg_last split: list.splits)

lemma mb_size_add: "mb_size_update (\<lambda>z. z + k) b = b\<lparr>mb_size := mb_size b + k\<rparr>"
  by (cases b) simp

lemma merge_next_idle:
  assumes rel: "heap_rel s (as @ (p, n, f) # cs) fl" and "cs = [] \<or> \<not> snd (snd (hd cs))"
  shows "merge_next p s = Some s"
proof -
  obtain b where b: "get_block s p = Some b" "blocks s p = Some b"
    using heap_rel_block [OF rel, of p n f] by auto
  show ?thesis
  proof (cases cs)
    case Nil
    then show ?thesis using b heap_rel_next [OF rel b(2)] by (simp add: merge_next_def)
  next
    case (Cons e cs')
    with assms(2) obtain q m where e: "e = (q, m, False)" by (cases e) auto
    then obtain c where "get_block s q = Some c" "q \<noteq> NULL" "mb_is_free c = 0"
      using heap_rel_block [OF rel, of q m False] Cons by auto
    then show ?thesis using b heap_rel_next [OF rel b(2)] Cons e by (simp add: merge_next_def)
  qed
qed

lemma merge_next_rel:
  assumes rel: "heap_rel s (as @ (p, n, f) # (q, m, True) # cs) fl"
    and fl: "q \<in> set (fl ! get_bin_index m)" "bins_disjoint fl"
  obtains s' where "merge_next p s = Some s'" "heap_frame s s'"
    "heap_rel s' (as @ (p, n + (sizeof_block + m), f) # cs) (fl[get_bin_index m := remove1 q (fl ! get_bin_index m)])"
proof -
  obtain b where b: "get_block s p = Some b" "blocks s p = Some b" "p \<noteq> NULL"
    using heap_rel_block [OF rel, of p n f] by auto
  obtain c where c: "get_block s q = Some c" "mb_is_free c = 1" "q \<noteq> NULL"
    using heap_rel_block [OF rel, of q m True] by auto
  have bn: "mb_next b = q" using heap_rel_next [OF rel b(2)] by simp
  obtain t where t: "remove_free_block q s = Some t" "heap_frame s t"
    and rel': "heap_rel t (as @ (p, n, f) # (q, m, True) # cs) (fl[get_bin_index m := remove1 q (fl ! get_bin_index m)])"
    by (rule remove_free_block_rel [OF rel _ fl, of True]) auto
  obtain b' where b': "get_block t p = Some b'" "blocks t p = Some b'" "mb_size b' = n"
    using heap_rel_block [OF rel', of p n f] by auto
  obtain c' where c': "get_block t q = Some c'" "blocks t q = Some c'" "mb_size c' = m"
    using heap_rel_block [OF rel', of q m True] by auto
  define st1 where "st1 = (blocks t)(p \<mapsto> b'\<lparr>mb_size := n + (sizeof_block + m), mb_next := mb_next c'\<rparr>)"
  define st2 where "st2 = (if mb_next c' \<noteq> NULL then st1(mb_next c' \<mapsto> mb_prev_update (\<lambda>_. p) (the (st1 (mb_next c')))) else st1)"
  have phys: "phys_rep (blocks t) (as @ (p, n, f) # (q, m, True) # cs)" using rel' by (simp add: heap_rel_def)
  note ab = phys_rep_absorb [OF phys b'(2) c'(2) st1_def st2_def]
  have "merge_next p s = Some (t\<lparr>blocks := st2\<rparr>)"
    unfolding merge_next_def using b c bn t b' c' ab(2,5)
    by (auto simp: upd_block_def get_block_def st1_def st2_def mb_size_add)
  moreover have "heap_frame s (t\<lparr>blocks := st2\<rparr>)" using t(2) heap_frame_trans by fastforce
  ultimately show ?thesis
    using that heap_rel_absorb [OF rel' b'(2) c'(2) st1_def st2_def] by blast
qed

lemma merge_prev_idle:
  assumes rel: "heap_rel s (as @ (p, n, f) # cs) fl" and "as = [] \<or> \<not> snd (snd (last as))"
  shows "merge_prev p s = Some (p, s)"
proof -
  obtain b where b: "get_block s p = Some b" "blocks s p = Some b"
    using heap_rel_block [OF rel, of p n f] by auto
  show ?thesis
  proof (cases as rule: rev_cases)
    case Nil
    then show ?thesis using b heap_rel_next [OF rel b(2)] by (simp add: merge_prev_def)
  next
    case (snoc as' e)
    with assms(2) obtain q m where e: "e = (q, m, False)" by (cases e) auto
    then obtain c where "get_block s q = Some c" "q \<noteq> NULL" "mb_is_free c = 0"
      using heap_rel_block [OF rel, of q m False] snoc by auto
    then show ?thesis using b heap_rel_next [OF rel b(2)] snoc e by (simp add: merge_prev_def)
  qed
qed

lemma merge_prev_rel:
  assumes rel: "heap_rel s (as @ (p, n, True) # (q, m, g) # cs) fl"
    and fl: "p \<in> set (fl ! get_bin_index n)" "bins_disjoint fl"
  obtains s' where "merge_prev q s = Some (p, s')" "heap_frame s s'"
    "heap_rel s' (as @ (p, n + (sizeof_block + m), True) # cs) (fl[get_bin_index n := remove1 p (fl ! get_bin_index n)])"
proof -
  have rel0: "heap_rel s ((as @ [(p, n, True)]) @ (q, m, g) # cs) fl" using rel by simp
  obtain b where b: "get_block s p = Some b" "mb_is_free b = 1" "p \<noteq> NULL"
    using heap_rel_block [OF rel, of p n True] by auto
  obtain c where c: "get_block s q = Some c" "blocks s q = Some c" "q \<noteq> NULL"
    using heap_rel_block [OF rel, of q m g] by auto
  have cp: "mb_prev c = p" using heap_rel_next [OF rel0 c(2)] by simp
  obtain t where t: "remove_free_block p s = Some t" "heap_frame s t"
    and rel': "heap_rel t (as @ (p, n, True) # (q, m, g) # cs) (fl[get_bin_index n := remove1 p (fl ! get_bin_index n)])"
    by (rule remove_free_block_rel [OF rel _ fl, of True]) auto
  obtain b' where b': "get_block t p = Some b'" "blocks t p = Some b'" "mb_size b' = n"
    using heap_rel_block [OF rel', of p n True] by auto
  obtain c' where c': "get_block t q = Some c'" "blocks t q = Some c'" "mb_size c' = m"
    using heap_rel_block [OF rel', of q m g] by auto
  define st1 where "st1 = (blocks t)(p \<mapsto> b'\<lparr>mb_size := n + (sizeof_block + m), mb_next := mb_next c'\<rparr>)"
  define st2 where "st2 = (if mb_next c' \<noteq> NULL then st1(mb_next c' \<mapsto> mb_prev_update (\<lambda>_. p) (the (st1 (mb_next c')))) else st1)"
  have phys: "phys_rep (blocks t) (as @ (p, n, True) # (q, m, g) # cs)" using rel' by (simp add: heap_rel_def)
  note ab = phys_rep_absorb [OF phys b'(2) c'(2) st1_def st2_def]
  have "merge_prev q s = Some (p, t\<lparr>blocks := st2\<rparr>)"
    unfolding merge_prev_def using b c cp t b' c' ab(2,3,5)
    by (auto simp: upd_block_def get_block_def st1_def st2_def mb_size_add)
  moreover have "heap_frame s (t\<lparr>blocks := st2\<rparr>)" using t(2) heap_frame_trans by fastforce
  ultimately show ?thesis
    using that heap_rel_absorb [OF rel' b'(2) c'(2) st1_def st2_def] by blast
qed

section \<open>Splitting a block\<close>

lemma split_block_rel:
  assumes rel: "heap_rel s (as @ (p, n, f) # cs) fl"
    and q: "q = p + sizeof_block + k" "q \<notin> fst ` set (as @ (p, n, f) # cs)" "q \<noteq> NULL" "\<And>j. j < 16 \<Longrightarrow> q \<notin> set (fl ! j)"
    and disj: "bins_disjoint fl" and m: "m = n - k - sizeof_block"
  obtains s' where "split_block p k s = Some s'" "heap_frame s s'"
    "heap_rel s' (as @ (p, k, f) # (q, m, True) # cs) (fl[get_bin_index m := q # fl ! get_bin_index m])"
proof -
  have phys: "phys_rep (blocks s) (as @ (p, n, f) # cs)" and bins: "bins_rep (blocks s) (free_bins s) fl"
    using rel by (auto simp: heap_rel_def)
  obtain b where b: "get_block s p = Some b" "blocks s p = Some b" "p \<noteq> NULL" "mb_size b = n"
      "mb_is_free b = (if f then 1 else 0)" "mb_magic b = HEAP_MAGIC"
    using heap_rel_block [OF rel, of p n f] by auto
  have dist: "distinct (map fst (as @ (p, n, f) # cs))" by (rule phys_rep_distinct [OF phys])
  have l: "dll mb_next mb_prev (blocks s) HEAP_START NULL (map fst as @ p # map fst cs)"
    using phys by (simp add: phys_rep_def)
  let ?nb = "\<lparr>mb_magic = HEAP_MAGIC, mb_size = m, mb_is_free = 1,
        mb_next = mb_next b, mb_prev = p, mb_free_next = NULL, mb_free_prev = NULL\<rparr>"
  define st1 where "st1 = (blocks s)(q \<mapsto> ?nb)"
  define st2 where "st2 = (if mb_next b \<noteq> NULL then st1(mb_next b \<mapsto> mb_prev_update (\<lambda>_. q) (the (st1 (mb_next b)))) else st1)"
  define st3 where "st3 = st2(p \<mapsto> mb_next_update (\<lambda>_. q) b)"
  define st4 where "st4 = st2(p \<mapsto> b\<lparr>mb_next := q, mb_size := k\<rparr>)"
  have nx: "mb_next b \<noteq> p \<and> mb_next b \<noteq> q \<and> (\<exists>d. blocks s (mb_next b) = Some d)" if "mb_next b \<noteq> NULL"
    using that heap_rel_next [OF rel b(2)] dist q(2) phys
    by (cases cs) (auto simp: phys_rep_def blk_rep_def)
  have pq: "p \<noteq> q" using q(2) by auto
  have st2_p: "st2 p = Some b" and st2_q: "st2 q = Some ?nb" using b nx pq by (auto simp: st2_def st1_def)
  have dll3: "dll mb_next mb_prev st3 HEAP_START NULL (map fst as @ p # q # map fst cs)"
    by (rule phys.dll_insert_after [OF l b(2) _ q(3) _ _ st1_def st2_def st3_def]) (use q(2) in auto)
  have blk: "blk_rep st3 e" if "e \<in> set as \<union> set cs" for e
  proof -
    obtain x j h where e: "e = (x, j, h)" by (cases e)
    have "x \<noteq> p" "x \<noteq> q" "blk_rep (blocks s) e"
      using that phys dist q(2) e by (auto simp: phys_rep_def list_all_iff image_Un rev_image_eqI)
    then show ?thesis by (auto simp: e blk_rep_def st3_def st2_def st1_def)
  qed
  have phys3: "phys_rep st3 (as @ (p, n, f) # (q, m, True) # cs)"
    using dll3 blk b st2_q pq by (auto simp: phys_rep_def list_all_iff blk_rep_def st3_def)
  have phys4: "phys_rep st4 (as @ (p, k, f) # (q, m, True) # cs)"
  proof -
    have "phys_rep (st3(p \<mapsto> b\<lparr>mb_next := q, mb_size := k\<rparr>)) (as @ (p, k, f) # (q, m, True) # cs)"
      by (rule phys_rep_header [OF phys3, of "b\<lparr>mb_next := q\<rparr>"]) (use b in \<open>auto simp: st3_def\<close>)
    then show ?thesis by (simp add: st3_def st4_def)
  qed
  have "bins_rep st1 (free_bins s) fl" using bins q(4) by (auto simp: bins_rep_def st1_def intro: dll_upd_other)
  then have "bins_rep st2 (free_bins s) fl"
    by (rule bins_rep_cong [rotated]) (use nx in \<open>auto simp: st2_def st1_def\<close>)
  then have bins4: "bins_rep st4 (free_bins s) fl"
    by (rule bins_rep_cong [rotated]) (use st2_p in \<open>auto simp: st4_def\<close>)
  have rel4: "heap_rel (s\<lparr>blocks := st4\<rparr>) (as @ (p, k, f) # (q, m, True) # cs) fl"
    using rel phys4 bins4 by (simp add: heap_rel_def)
  obtain t where t: "insert_free_block q (s\<lparr>blocks := st4\<rparr>) = Some t" "heap_frame (s\<lparr>blocks := st4\<rparr>) t"
    "heap_rel t (as @ (p, k, f) # (q, m, True) # cs) (fl[get_bin_index m := q # fl ! get_bin_index m])"
    by (rule insert_free_block_rel [OF rel4 _ q(4) disj, of m True]) auto
  have "split_block p k s = insert_free_block q (s\<lparr>blocks := st4\<rparr>)"
    unfolding split_block_def using b nx pq m
    by (auto simp: upd_block_def get_block_def st1_def st2_def st4_def q(1) [symmetric] fun_upd_twist)
  with t show ?thesis by (intro that [of t] heap_frame_trans [OF heap_frame_blocks(1) t(2)]) auto
qed

end
