(* ===== verification/Heap_Spec.thy ===== *)
theory Heap_Spec
  imports Heap_Refine
begin

text \<open>
  The contract of the heap. \<open>heap_ok s bs\<close> says that the state \<open>s\<close> represents the
  block list \<open>bs\<close> and that the list is a proper heap: the blocks tile the heap range
  without a gap, no two neighbours are both free, payload sizes are multiples of four, and
  every free block is on exactly the free list of its bin. The lemmas on the single
  operations of \<open>Heap_Refine\<close> are composed here into the contracts of \<^verbatim>\<open>heap_init\<close>,
  \<^verbatim>\<open>kmalloc\<close>, \<^verbatim>\<open>kfree\<close>, \<^verbatim>\<open>kmalloc_a\<close>, \<^verbatim>\<open>kfree_a\<close> and the statistics.
\<close>

section \<open>The heap invariant\<close>

fun tiled :: "nat \<Rightarrow> ablock list \<Rightarrow> nat \<Rightarrow> bool" where
  "tiled a [] e \<longleftrightarrow> a = e"
| "tiled a ((p, n, f) # bs) e \<longleftrightarrow> unat p = a \<and> 4 dvd unat n \<and> tiled (a + 28 + unat n) bs e"

definition no_adjacent_free :: "ablock list \<Rightarrow> bool" where
  "no_adjacent_free bs \<longleftrightarrow> successively (\<lambda>f g. \<not> (f \<and> g)) (map (\<lambda>(p, n, f). f) bs)"

definition exact_bins :: "ablock list \<Rightarrow> u32 list list \<Rightarrow> bool" where
  "exact_bins bs fl \<longleftrightarrow> length fl = 16 \<and> (\<forall>i<16. \<forall>p. p \<in> set (fl ! i) \<longleftrightarrow> (\<exists>n. (p, n, True) \<in> set bs \<and> get_bin_index n = i))"

definition HEAP_END :: nat where [layout_simps]: "HEAP_END = 0x50000000"

definition heap_wf :: "ablock list \<Rightarrow> bool" where
  "heap_wf bs \<longleftrightarrow> tiled (unat HEAP_START) bs HEAP_END \<and> no_adjacent_free bs"

definition heap_ok :: "'z heap_scheme \<Rightarrow> ablock list \<Rightarrow> bool" where
  "heap_ok s bs \<longleftrightarrow> heap_wf bs \<and> (\<exists>fl. heap_rel s bs fl \<and> exact_bins bs fl)"

section \<open>Tilings\<close>

lemma tiled_append: "tiled a (as @ bs) e \<longleftrightarrow> (\<exists>m. tiled a as m \<and> tiled m bs e)"
  by (induction a as e rule: tiled.induct) auto

lemma tiled_le: "tiled a bs e \<Longrightarrow> a \<le> e"
  by (induction a bs e rule: tiled.induct) auto

lemma tiled_bounds:
  "tiled a bs e \<Longrightarrow> (p, n, f) \<in> set bs \<Longrightarrow> a \<le> unat p \<and> unat p + 28 + unat n \<le> e \<and> 4 dvd unat n"
  by (induction a bs e rule: tiled.induct) (auto dest: tiled_le)

lemma tiled_aligned: "tiled a bs e \<Longrightarrow> 4 dvd a \<Longrightarrow> (p, n, f) \<in> set bs \<Longrightarrow> 4 dvd unat p"
  by (induction a bs e rule: tiled.induct) auto

lemma tiled_disjoint:
  assumes "tiled a (as @ (p, n, f) # cs) e"
  shows "\<And>q m g. (q, m, g) \<in> set as \<Longrightarrow> unat q + 28 + unat m \<le> unat p"
    and "\<And>q m g. (q, m, g) \<in> set cs \<Longrightarrow> unat p + 28 + unat n \<le> unat q"
  using assms by (auto simp: tiled_append dest: tiled_bounds)

lemma tiled_header: "tiled a (as @ (p, n, f) # cs) e \<Longrightarrow> tiled a (as @ (p, n, g) # cs) e"
  by (auto simp: tiled_append)

lemma tiled_merge:
  assumes t: "tiled a (as @ (p, n, f) # (q, m, g) # cs) e" and e: "e < 4294967296"
  shows "tiled a (as @ (p, n + (sizeof_block + m), h) # cs) e"
    and "unat (n + (sizeof_block + m)) = unat n + 28 + unat m"
proof -
  have le: "unat p + 28 + unat n + 28 + unat m \<le> e" using t by (auto simp: tiled_append dest: tiled_le)
  have "unat (sizeof_block + m) = 28 + unat m"
    using le e by (subst unat_add_no_wrap32) (auto simp: layout_simps)
  then show sz: "unat (n + (sizeof_block + m)) = unat n + 28 + unat m"
    using le e by (subst unat_add_no_wrap32) auto
  show "tiled a (as @ (p, n + (sizeof_block + m), h) # cs) e"
    using t sz by (auto simp: tiled_append add_ac)
qed

lemma tiled_split:
  assumes t: "tiled a (as @ (p, n, f) # cs) e" and e: "e < 4294967296"
    and k: "unat k + 28 \<le> unat n" "4 dvd unat k"
    and q: "q = p + sizeof_block + k" and m: "m = n - k - sizeof_block"
  shows "tiled a (as @ (p, k, f) # (q, m, g) # cs) e"
    and "unat q = unat p + 28 + unat k" "unat m = unat n - unat k - 28"
    and "q \<notin> fst ` set (as @ (p, n, f) # cs)"
proof -
  have le: "unat p + 28 + unat n \<le> e" using t by (auto simp: tiled_append dest: tiled_le)
  have "unat (p + sizeof_block) = unat p + 28"
    using le e by (subst unat_add_no_wrap32) (auto simp: layout_simps)
  then show uq: "unat q = unat p + 28 + unat k"
    using le e k unfolding q by (subst unat_add_no_wrap32) auto
  have "unat (n - k) = unat n - unat k" using k by (intro unat_sub32) simp
  then show um: "unat m = unat n - unat k - 28"
    using k unfolding m by (subst unat_sub32) (auto simp: layout_simps)
  have "4 dvd unat n" using t by (auto simp: tiled_append)
  then have "4 dvd unat m" using k um by (simp add: dvd_diff_nat)
  then show "tiled a (as @ (p, k, f) # (q, m, g) # cs) e"
    using t k uq um by (auto simp: tiled_append add_ac)
  show "q \<notin> fst ` set (as @ (p, n, f) # cs)"
  proof -
    have "x \<noteq> q" if "(x, m', g') \<in> set (as @ (p, n, f) # cs)" for x m' g'
      using that uq k by (auto dest: tiled_disjoint(1,2) [OF t])
    then have "q \<noteq> fst e" if "e \<in> set (as @ (p, n, f) # cs)" for e
      using that by (cases e) auto
    then show ?thesis by (meson imageE)
  qed
qed

section \<open>Free bins\<close>

lemma exact_bins_used: "exact_bins (as @ (p, n, False) # cs) fl = exact_bins (as @ cs) fl"
  by (auto simp: exact_bins_def)

lemma exact_bins_insert:
  assumes "exact_bins (as @ cs) fl"
  shows "exact_bins (as @ (p, n, True) # cs) (fl[get_bin_index n := p # fl ! get_bin_index n])"
  using assms by (auto simp: exact_bins_def nth_list_update)

lemma exact_bins_remove:
  assumes "exact_bins (as @ (p, n, True) # cs) fl" and "distinct (map fst (as @ (p, n, True) # cs))"
    and "distinct (fl ! get_bin_index n)"
  shows "exact_bins (as @ cs) (fl[get_bin_index n := remove1 p (fl ! get_bin_index n)])"
proof -
  have "p \<notin> fst ` set (as @ cs)" using assms(2) by auto
  then have "(p, m, True) \<notin> set as \<union> set cs" for m by (force simp: image_iff)
  then show ?thesis using assms(1,3) by (auto simp: exact_bins_def nth_list_update)
qed

lemma exact_bins_disjoint:
  assumes "exact_bins bs fl" and "distinct (map fst bs)"
  shows "bins_disjoint fl"
proof -
  have "n = m" if "(p, n, True) \<in> set bs" "(p, m, True) \<in> set bs" for p n m
    using eq_key_imp_eq_value [OF assms(2) that] by simp
  then have "i = j" if "p \<in> set (fl ! i)" "p \<in> set (fl ! j)" "i < 16" "j < 16" for p i j
    using that assms(1) by (auto simp: exact_bins_def)
  then show ?thesis using assms(1) by (auto simp: bins_disjoint_def exact_bins_def)
qed

lemma exact_bins_notin:
  assumes "exact_bins bs fl" and "p \<notin> fst ` set bs" and "j < 16"
  shows "p \<notin> set (fl ! j)"
  using assms by (force simp: exact_bins_def image_iff)

section \<open>Finding a block\<close>

lemma if_le_mono:
  fixes k n t :: u32 and a x y :: nat
  shows "k \<le> n \<Longrightarrow> a \<le> y \<Longrightarrow> x \<le> y \<Longrightarrow> (if k \<le> t then a else x) \<le> (if n \<le> t then a else y)"
  by auto

lemma get_bin_index_mono: "k \<le> n \<Longrightarrow> get_bin_index k \<le> get_bin_index n"
  unfolding get_bin_index_def by (intro if_le_mono) simp_all

lemma free_list_find_dll:
  assumes "dll mb_free_next mb_free_prev (blocks s) cur q xs"
  shows "free_list_find s k cur =
    Some (case find (\<lambda>p. k \<le> mb_size (the (blocks s p))) xs of None \<Rightarrow> NULL | Some p \<Rightarrow> p)"
  using assms
proof (induction xs arbitrary: cur q)
  case Nil
  then show ?case by (simp add: free_list_find.simps)
next
  case (Cons x xs)
  then obtain b where "cur = x" "x \<noteq> NULL" "blocks s x = Some b"
    "dll mb_free_next mb_free_prev (blocks s) (mb_free_next b) x xs" by auto
  then show ?case using Cons.IH by (subst free_list_find.simps) (simp add: get_block_def)
qed

lemma bins_find_concat:
  assumes "list_all2 (\<lambda>b xs. dll mb_free_next mb_free_prev (blocks s) b NULL xs) bins fl"
  shows "bins_find s k bins =
    Some (case find (\<lambda>p. k \<le> mb_size (the (blocks s p))) (concat fl) of None \<Rightarrow> NULL | Some p \<Rightarrow> p)"
  using assms
proof (induction bins fl rule: list_all2_induct)
  case Nil
  then show ?case by simp
next
  case (Cons b bins xs fl)
  have "find P (xs @ ys) = (case find P xs of None \<Rightarrow> find P ys | Some x \<Rightarrow> Some x)" for P and ys :: "u32 list"
    by (induction xs) auto
  moreover have "p \<noteq> NULL" if "find P xs = Some p" for P p
    using that dll_nonnull [OF Cons(1)] by (auto simp: find_Some_iff)
  ultimately show ?case using Cons by (auto simp: free_list_find_dll split: option.splits)
qed

lemma bins_find_rel:
  assumes rel: "heap_rel s bs fl" and ex: "exact_bins bs fl"
  obtains (none) "bins_find s k (drop (get_bin_index k) (free_bins s)) = Some NULL"
      "\<And>p n. (p, n, True) \<in> set bs \<Longrightarrow> n < k"
    | (found) p n where "bins_find s k (drop (get_bin_index k) (free_bins s)) = Some p" "p \<noteq> NULL"
      "(p, n, True) \<in> set bs" "k \<le> n"
proof -
  let ?i = "get_bin_index k" and ?P = "\<lambda>p. k \<le> mb_size (the (blocks s p))"
  have size: "mb_size (the (blocks s p)) = n" "p \<noteq> NULL" if "(p, n, True) \<in> set bs" for p n
    by (rule heap_rel_block [OF rel that]; simp)+
  have "list_all2 (\<lambda>b xs. dll mb_free_next mb_free_prev (blocks s) b NULL xs) (drop ?i (free_bins s)) (drop ?i fl)"
    using rel by (auto simp: heap_rel_def bins_rep_def list_all2_conv_all_nth)
  note run = bins_find_concat [OF this, of k]
  have mem: "p \<in> set (concat (drop ?i fl)) \<longleftrightarrow> (\<exists>n. (p, n, True) \<in> set bs \<and> ?i \<le> get_bin_index n)" for p
  proof -
    have "length fl = 16" and "\<And>j. j < 16 \<Longrightarrow> p \<in> set (fl ! j) \<longleftrightarrow> (\<exists>n. (p, n, True) \<in> set bs \<and> get_bin_index n = j)"
      using ex by (simp_all add: exact_bins_def)
    then have "p \<in> set (concat (drop ?i fl)) \<longleftrightarrow>
      (\<exists>j. ?i \<le> j \<and> j < 16 \<and> (\<exists>n. (p, n, True) \<in> set bs \<and> get_bin_index n = j))"
      unfolding mem_concat_drop by metis
    then show ?thesis by auto
  qed
  show ?thesis
  proof (cases "find ?P (concat (drop ?i fl))")
    case None
    then have "\<not> ?P p" if "p \<in> set (concat (drop ?i fl))" for p using that by (auto simp: find_None_iff)
    then have "n < k" if "(p, n, True) \<in> set bs" for p n
      using that size [OF that] mem [of p] get_bin_index_mono [of k n] by (meson linorder_not_le)
    with None run show ?thesis by (intro none) auto
  next
    case (Some p)
    then have p: "p \<in> set (concat (drop ?i fl))" "?P p" by (auto simp: find_Some_iff set_conv_nth)
    then obtain n where "(p, n, True) \<in> set bs" using mem by blast
    with Some run p size [of p n] show ?thesis by (intro found [of p n]) auto
  qed
qed

section \<open>Abstract allocation\<close>

text \<open>What an allocation of \<open>k\<close> bytes leaves of the free block \<open>p\<close>.\<close>

definition alloc_parts :: "u32 \<Rightarrow> u32 \<Rightarrow> u32 \<Rightarrow> ablock list" where
  "alloc_parts p n k =
     (if n > k + sizeof_block + 16
      then [(p, k, False), (p + sizeof_block + k, n - k - sizeof_block, True)] else [(p, n, False)])"

definition a_alloc :: "u32 \<Rightarrow> u32 \<Rightarrow> ablock list \<Rightarrow> ablock list" where
  "a_alloc p k bs = concat (map (\<lambda>(q, n, f). if q = p then alloc_parts p n k else [(q, n, f)]) bs)"

lemma a_alloc_notin: "p \<notin> fst ` set bs \<Longrightarrow> a_alloc p k bs = bs"
  by (induction bs) (auto simp: a_alloc_def)

lemma a_alloc_split:
  "distinct (map fst (as @ (p, n, f) # cs)) \<Longrightarrow> a_alloc p k (as @ (p, n, f) # cs) = as @ alloc_parts p n k @ cs"
  using a_alloc_notin [of p as k] a_alloc_notin [of p cs k] by (auto simp: a_alloc_def)

lemma round_size_dvd: "4 dvd unat (round_size k)"
proof (cases "k mod 4 = 0")
  case True
  then show ?thesis using unat_mod4 [of k] by (simp add: round_size_def dvd_eq_mod_eq_0)
next
  case False
  have m: "unat (k mod 4) = unat k mod 4" by (rule unat_mod4)
  then have "unat (k mod 4) \<le> 4" by simp
  then have u: "unat (4 - k mod 4) = 4 - unat k mod 4" using unat_sub32 [of "k mod 4" 4] m by simp
  have "unat (k + (4 - k mod 4)) = (unat k + (4 - unat k mod 4)) mod 4294967296"
    using unat_word_ariths(1) [of k "4 - k mod 4"] u by simp
  moreover have "4 dvd unat k + (4 - unat k mod 4)" by presburger
  ultimately show ?thesis using False by (simp add: round_size_def dvd_mod_iff)
qed

lemma heap_wf_distinct:
  assumes "heap_wf bs"
  shows "distinct (map fst bs)"
proof -
  have "tiled a bs e \<Longrightarrow> distinct (map fst bs) \<and> (\<forall>x\<in>set bs. a \<le> unat (fst x))" for a e
    by (induction a bs e rule: tiled.induct) force+
  then show ?thesis using assms by (auto simp: heap_wf_def)
qed

lemma heap_wf_block:
  assumes "heap_wf bs" and "(p, n, f) \<in> set bs"
  shows "unat HEAP_START \<le> unat p" "unat p + 28 + unat n \<le> HEAP_END" "4 dvd unat p" "4 dvd unat n"
  using assms tiled_bounds [of "unat HEAP_START" bs HEAP_END p n f] tiled_aligned [of "unat HEAP_START" bs HEAP_END p n f]
  by (auto simp: heap_wf_def layout_simps)

lemma heap_wf_alloc:
  assumes wf: "heap_wf bs" and bs: "bs = as @ (p, n, True) # cs" and k: "k \<le> n" "4 dvd unat k"
  shows "heap_wf (a_alloc p k bs)"
proof -
  have t: "tiled (unat HEAP_START) (as @ (p, n, True) # cs) HEAP_END" and na: "no_adjacent_free bs"
    using wf bs by (auto simp: heap_wf_def)
  have dist: "distinct (map fst (as @ (p, n, True) # cs))" using heap_wf_distinct [OF wf] bs by simp
  show ?thesis
  proof (cases "n > k + sizeof_block + 16")
    case True
    have "unat k \<le> unat n" "unat p + 28 + unat n \<le> HEAP_END"
      using k heap_wf_block(2) [OF wf] bs by (auto simp: word_le_nat_alt)
    then have "unat (k + sizeof_block + 16) = unat k + 28 + 16"
      by (simp add: unat_add_no_wrap32 layout_simps)
    then have "unat k + 28 \<le> unat n" using True by (simp add: word_less_nat_alt)
    note sp = tiled_split(1) [OF t _ this k(2) refl refl, of True]
    show ?thesis
      unfolding bs a_alloc_split [OF dist] using True sp na bs
      by (auto simp: heap_wf_def alloc_parts_def no_adjacent_free_def successively_append_iff HEAP_END_def
          successively_Cons tiled_append split: list.splits)
  next
    case False
    then show ?thesis
      unfolding bs a_alloc_split [OF dist] using tiled_header [OF t, of False] na bs
      by (auto simp: heap_wf_def alloc_parts_def no_adjacent_free_def successively_append_iff successively_Cons)
  qed
qed

section \<open>Allocation meets its contract\<close>

lemma heap_rel_flags [simp]: "heap_rel (s\<lparr>int_flag := x\<rparr>) bs fl = heap_rel s bs fl"
  by (simp add: heap_rel_def)

lemma heap_frame_flags:
  "heap_frame (s\<lparr>int_flag := x\<rparr>) u \<Longrightarrow> heap_frame s (u\<lparr>int_flag := int_flag s\<rparr>)"
  by (cases s; cases u) (auto simp: heap_frame_def)

lemma heap_rel_bin_distinct:
  assumes "heap_rel s bs fl" and "i < 16"
  shows "distinct (fl ! i)"
  using assms by (auto simp: heap_rel_def bins_rep_def dest!: dll_distinct)

lemma remove_bins:
  assumes "heap_rel s (as @ (p, n, True) # cs) fl" and "exact_bins (as @ (p, n, True) # cs) fl"
  shows "exact_bins (as @ cs) (fl[get_bin_index n := remove1 p (fl ! get_bin_index n)])"
    and "p \<in> set (fl ! get_bin_index n)" and "bins_disjoint fl"
proof -
  have dist: "distinct (map fst (as @ (p, n, True) # cs))"
    using assms(1) unfolding heap_rel_def by (blast dest: phys_rep_distinct)
  then show "exact_bins (as @ cs) (fl[get_bin_index n := remove1 p (fl ! get_bin_index n)])"
    by (intro exact_bins_remove assms heap_rel_bin_distinct [OF assms(1)]) auto
  show "p \<in> set (fl ! get_bin_index n)" using assms(2) by (auto simp: exact_bins_def)
  show "bins_disjoint fl" by (rule exact_bins_disjoint [OF assms(2) dist])
qed

lemma take_block_rel:
  assumes ok: "heap_ok s bs" and bs: "bs = as @ (p, n, True) # cs" and k: "k \<le> n" "4 dvd unat k"
  obtains t b u v where "remove_free_block p s = Some t" "get_block t p = Some b" "mb_size b = n"
    "(if n > k + sizeof_block + 16 then split_block p k t else Some t) = Some u"
    "upd_block p (mb_is_free_update (\<lambda>_. 0)) u = Some v" "heap_frame s v" "heap_ok v (a_alloc p k bs)"
proof -
  from ok obtain fl where wf: "heap_wf bs" and rel: "heap_rel s (as @ (p, n, True) # cs) fl"
    and ex: "exact_bins (as @ (p, n, True) # cs) fl" by (auto simp: heap_ok_def bs)
  have dist: "distinct (map fst (as @ (p, n, True) # cs))" using heap_wf_distinct [OF wf] bs by simp
  have tl: "tiled (unat HEAP_START) (as @ (p, n, True) # cs) HEAP_END" using wf bs by (simp add: heap_wf_def)
  note rb = remove_bins [OF rel ex]
  define fl1 where "fl1 = fl[get_bin_index n := remove1 p (fl ! get_bin_index n)]"
  obtain t where t: "remove_free_block p s = Some t" "heap_frame s t" "heap_rel t (as @ (p, n, True) # cs) fl1"
    using remove_free_block_rel [OF rel _ rb(2,3), of True] fl1_def by auto
  obtain b where b: "get_block t p = Some b" "mb_size b = n" using heap_rel_block [OF t(3), of p n True] by auto
  have ex1: "exact_bins (as @ cs) fl1" using rb(1) by (simp add: fl1_def)
  have dj1: "bins_disjoint fl1" using exact_bins_disjoint [OF ex1] dist by auto
  define parts where "parts = alloc_parts p n k"
  have "\<exists>u fl2 k' cs'. (if n > k + sizeof_block + 16 then split_block p k t else Some t) = Some u \<and> heap_frame t u \<and>
      heap_rel u (as @ (p, k', True) # cs') fl2 \<and> exact_bins (as @ (p, k', False) # cs') fl2 \<and>
      as @ parts @ cs = as @ (p, k', False) # cs'"
  proof (cases "n > k + sizeof_block + 16")
    case True
    have "unat k \<le> unat n" "unat p + 28 + unat n \<le> HEAP_END"
      using k heap_wf_block(2) [OF wf] bs by (auto simp: word_le_nat_alt)
    then have "unat (k + sizeof_block + 16) = unat k + 28 + 16"
      by (simp add: unat_add_no_wrap32 layout_simps)
    then have k28: "unat k + 28 \<le> unat n" using True by (simp add: word_less_nat_alt)
    let ?q = "p + sizeof_block + k" and ?m = "n - k - sizeof_block"
    have sp: "unat ?q = unat p + 28 + unat k" "?q \<notin> fst ` set (as @ (p, n, True) # cs)"
      using tiled_split(2,4) [OF tl _ k28 k(2) refl refl] by (auto simp: HEAP_END_def)
    then have "?q \<noteq> NULL" by (metis add_is_0 unat_0 zero_neq_numeral)
    moreover have "?q \<notin> set (fl1 ! j)" if "j < 16" for j
      using exact_bins_notin [OF ex1 _ that, of ?q] sp(2) by (auto simp: image_Un)
    ultimately obtain u where u: "split_block p k t = Some u" "heap_frame t u"
      "heap_rel u (as @ (p, k, True) # (?q, ?m, True) # cs) (fl1[get_bin_index ?m := ?q # fl1 ! get_bin_index ?m])"
      using split_block_rel [OF t(3) refl sp(2) _ _ dj1 refl] by blast
    moreover have "exact_bins (as @ (p, k, False) # (?q, ?m, True) # cs) (fl1[get_bin_index ?m := ?q # fl1 ! get_bin_index ?m])"
      unfolding exact_bins_used by (rule exact_bins_insert [OF ex1])
    moreover have "parts = [(p, k, False), (?q, ?m, True)]" using True by (simp add: parts_def alloc_parts_def)
    ultimately show ?thesis using True
      by (intro exI [of _ u] exI [of _ "fl1[get_bin_index ?m := ?q # fl1 ! get_bin_index ?m]"]) auto
  next
    case False
    then show ?thesis using t(3) ex1
      by (intro exI [of _ t] exI [of _ fl1]) (auto simp: parts_def alloc_parts_def exact_bins_used)
  qed
  then obtain u fl2 k' cs' where u: "(if n > k + sizeof_block + 16 then split_block p k t else Some t) = Some u"
    "heap_frame t u" "heap_rel u (as @ (p, k', True) # cs') fl2" "exact_bins (as @ (p, k', False) # cs') fl2"
    "as @ parts @ cs = as @ (p, k', False) # cs'" by blast
  obtain v where v: "upd_block p (mb_is_free_update (\<lambda>_. 0)) u = Some v" "heap_frame u v"
    "heap_rel v (as @ (p, k', False) # cs') fl2"
    using set_free_rel [OF u(3), of False] by auto
  have "a_alloc p k bs = as @ (p, k', False) # cs'"
    unfolding bs a_alloc_split [OF dist] using u(5) parts_def by simp
  then have "heap_ok v (a_alloc p k bs)"
    using v(3) u(4) heap_wf_alloc [OF wf bs k] by (auto simp: heap_ok_def)
  then show ?thesis
    by (rule that [OF t(1) b u(1) v(1) heap_frame_trans [OF heap_frame_trans [OF t(2) u(2)] v(2)]])
qed

lemma kmalloc_spec:
  assumes hok: "heap_ok s bs"
  obtains (fail) "kmalloc k s = Some (NULL, s)" "\<And>p n. (p, n, True) \<in> set bs \<Longrightarrow> n < round_size k"
    | (ok) p n s' where "kmalloc k s = Some (p + sizeof_block, s')" "heap_frame s s'" "p + sizeof_block \<noteq> NULL"
      "(p, n, True) \<in> set bs" "round_size k \<le> n" "heap_ok s' (a_alloc p (round_size k) bs)"
proof -
  let ?s = "s\<lparr>int_flag := False\<rparr>" and ?k = "round_size k"
  from hok obtain fl where rel: "heap_rel ?s bs fl" and ex: "exact_bins bs fl" and wf: "heap_wf bs"
    by (auto simp: heap_ok_def)
  have ok': "heap_ok ?s bs" using hok by (simp add: heap_ok_def)
  show ?thesis
  proof (rule bins_find_rel [OF rel ex, of ?k])
    assume "bins_find ?s ?k (drop (get_bin_index ?k) (free_bins ?s)) = Some NULL"
      and no: "\<And>p n. (p, n, True) \<in> set bs \<Longrightarrow> n < ?k"
    then have "kmalloc k s = Some (NULL, s)" by (simp add: kmalloc_def save_flags_def restore_flags_def Let_def)
    then show ?thesis using no by (rule fail)
  next
    fix p n assume found: "bins_find ?s ?k (drop (get_bin_index ?k) (free_bins ?s)) = Some p" "p \<noteq> NULL"
      and pn: "(p, n, True) \<in> set bs" "?k \<le> n"
    from pn(1) obtain as cs where bs: "bs = as @ (p, n, True) # cs" by (auto simp: in_set_conv_decomp)
    obtain t b u v where st: "remove_free_block p ?s = Some t" "get_block t p = Some b" "mb_size b = n"
      "(if n > ?k + sizeof_block + 16 then split_block p ?k t else Some t) = Some u"
      "upd_block p (mb_is_free_update (\<lambda>_. 0)) u = Some v" "heap_frame ?s v" "heap_ok v (a_alloc p ?k bs)"
      by (rule take_block_rel [OF ok' bs pn(2) round_size_dvd])
    have "kmalloc k s = Some (p + sizeof_block, v\<lparr>int_flag := int_flag s\<rparr>)"
      using found st(1-5)
      by (simp add: kmalloc_def save_flags_def restore_flags_def Let_def del: bind_Some_if)
    moreover have "unat (p + sizeof_block) = unat p + 28"
      using heap_wf_block [OF wf pn(1)] by (subst unat_add_no_wrap32) (auto simp: layout_simps)
    then have "p + sizeof_block \<noteq> NULL" by (metis add_is_0 unat_0 zero_neq_numeral)
    ultimately show ?thesis
      using pn heap_frame_flags [OF st(6)] st(7) by (intro ok [of p _ n]) (auto simp: heap_ok_def)
  qed
qed

section \<open>Abstract release\<close>

text \<open>Freeing marks the block free and merges runs of neighbouring free blocks.\<close>

function coalesce :: "ablock list \<Rightarrow> ablock list" where
  "coalesce [] = []"
| "coalesce [e] = [e]"
| "coalesce ((p, n, f) # (q, m, g) # bs) =
     (if f \<and> g then coalesce ((p, n + (sizeof_block + m), True) # bs) else (p, n, f) # coalesce ((q, m, g) # bs))"
  by pat_completeness auto
termination
  by (relation "measure length") auto

definition a_mark_free :: "u32 \<Rightarrow> ablock list \<Rightarrow> ablock list" where
  "a_mark_free p bs = map (\<lambda>(q, n, f). if q = p then (q, n, True) else (q, n, f)) bs"

definition a_free :: "u32 \<Rightarrow> ablock list \<Rightarrow> ablock list" where
  "a_free p bs = coalesce (a_mark_free p bs)"

lemma a_mark_free_split:
  assumes "distinct (map fst (as @ (p, n, f) # cs))"
  shows "a_mark_free p (as @ (p, n, f) # cs) = as @ (p, n, True) # cs"
proof -
  have "a_mark_free p xs = xs" if "p \<notin> fst ` set xs" for xs
    using that by (induction xs) (auto simp: a_mark_free_def)
  from this [of as] this [of cs] show ?thesis using assms by (auto simp: a_mark_free_def)
qed

lemma coalesce_id: "no_adjacent_free bs \<Longrightarrow> coalesce bs = bs"
  by (induction bs rule: coalesce.induct) (auto simp: no_adjacent_free_def)

lemma coalesce_append:
  "no_adjacent_free as \<Longrightarrow> as = [] \<or> \<not> snd (snd (last as)) \<Longrightarrow> coalesce (as @ bs) = as @ coalesce bs"
proof (induction as rule: coalesce.induct)
  case (2 e)
  then show ?case by (cases e; cases bs) auto
qed (auto simp: no_adjacent_free_def)

lemma no_adjacent_free_append:
  "no_adjacent_free (as @ (p, n, f) # cs) \<longleftrightarrow> no_adjacent_free as \<and> no_adjacent_free cs \<and>
     (f \<longrightarrow> (as = [] \<or> \<not> snd (snd (last as))) \<and> (cs = [] \<or> \<not> snd (snd (hd cs))))"
  by (auto simp: no_adjacent_free_def successively_append_iff successively_Cons last_map hd_map case_prod_beta)

lemma coalesce_next:
  assumes "no_adjacent_free cs" and "cs = [] \<or> \<not> snd (snd (hd cs))"
  shows "coalesce ((p, n, True) # cs) = (p, n, True) # cs"
  using assms no_adjacent_free_append [of "[]" p n True cs] by (intro coalesce_id) (auto simp: no_adjacent_free_def)

lemma coalesce_merge:
  "coalesce (as @ (p, n, True) # (q, m, True) # cs) = coalesce (as @ (p, n + (sizeof_block + m), True) # cs)"
proof (induction as rule: coalesce.induct)
  case (2 e)
  then show ?case by (cases e) (auto simp: ac_simps)
qed auto

lemma heap_wf_ptr:
  assumes "heap_wf bs" and "(p, n, f) \<in> set bs"
  shows "unat (p + sizeof_block) = unat p + 28" and "p + sizeof_block \<noteq> NULL"
proof -
  show u: "unat (p + sizeof_block) = unat p + 28"
    using heap_wf_block [OF assms] by (subst unat_add_no_wrap32) (auto simp: layout_simps)
  then show "p + sizeof_block \<noteq> NULL" by (metis add_is_0 unat_0 zero_neq_numeral)
qed

section \<open>Release meets its contract\<close>

lemma merge_next_ok:
  assumes rel: "heap_rel s (as @ (p, n, False) # cs) fl" and ex: "exact_bins (as @ (p, n, False) # cs) fl"
    and na: "no_adjacent_free (as @ (p, n, False) # cs)" and tl: "tiled a (as @ (p, n, False) # cs) HEAP_END"
  obtains s' n' cs' fl' where "merge_next p s = Some s'" "heap_frame s s'" "heap_rel s' (as @ (p, n', False) # cs') fl'"
    "exact_bins (as @ (p, n', False) # cs') fl'" "no_adjacent_free (as @ (p, n', False) # cs')"
    "cs' = [] \<or> \<not> snd (snd (hd cs'))" "tiled a (as @ (p, n', False) # cs') HEAP_END"
    "coalesce (as @ (p, n, True) # cs) = coalesce (as @ (p, n', True) # cs')"
proof (cases "cs = [] \<or> \<not> snd (snd (hd cs))")
  case True
  then show ?thesis using merge_next_idle [OF rel] assms by (intro that) auto
next
  case False
  then obtain q m cs' where cs: "cs = (q, m, True) # cs'" by (cases cs) auto
  let ?fl = "fl[get_bin_index m := remove1 q (fl ! get_bin_index m)]"
  have rel': "heap_rel s ((as @ [(p, n, False)]) @ (q, m, True) # cs') fl"
    and ex': "exact_bins ((as @ [(p, n, False)]) @ (q, m, True) # cs') fl" using rel ex cs by auto
  note rb = remove_bins [OF rel' ex']
  obtain s' where s': "merge_next p s = Some s'" "heap_frame s s'"
    "heap_rel s' (as @ (p, n + (sizeof_block + m), False) # cs') ?fl"
    using merge_next_rel [of s as p n False q m cs' fl] rel cs rb(2,3) by auto
  have na': "no_adjacent_free ((q, m, True) # cs')" using na by (simp add: no_adjacent_free_append cs)
  have ex2: "exact_bins (as @ (p, n + (sizeof_block + m), False) # cs') ?fl"
    using rb(1) by (simp add: exact_bins_used)
  show ?thesis
  proof (rule that [OF s' ex2])
    show "no_adjacent_free (as @ (p, n + (sizeof_block + m), False) # cs')" "cs' = [] \<or> \<not> snd (snd (hd cs'))"
      using na na' no_adjacent_free_append [of "[]" q m True cs'] by (auto simp: no_adjacent_free_append)
    show "tiled a (as @ (p, n + (sizeof_block + m), False) # cs') HEAP_END"
      using tiled_merge(1) [of a as p n False q m True cs' HEAP_END] tl cs by (simp add: HEAP_END_def)
    show "coalesce (as @ (p, n, True) # cs) = coalesce (as @ (p, n + (sizeof_block + m), True) # cs')"
      unfolding cs by (rule coalesce_merge)
  qed
qed

lemma merge_prev_ok:
  assumes rel: "heap_rel s (as @ (p, n, False) # cs) fl" and ex: "exact_bins (as @ (p, n, False) # cs) fl"
    and na: "no_adjacent_free (as @ (p, n, False) # cs)" and tl: "tiled a (as @ (p, n, False) # cs) HEAP_END"
    and hd: "cs = [] \<or> \<not> snd (snd (hd cs))"
  obtains s' r n' g as' fl' where "merge_prev p s = Some (r, s')" "heap_frame s s'" "heap_rel s' (as' @ (r, n', g) # cs) fl'"
    "exact_bins (as' @ cs) fl'" "no_adjacent_free (as' @ (r, n', True) # cs)" "tiled a (as' @ (r, n', True) # cs) HEAP_END"
    "coalesce (as @ (p, n, True) # cs) = as' @ (r, n', True) # cs"
proof (cases "as = [] \<or> \<not> snd (snd (last as))")
  case True
  have na': "no_adjacent_free (as @ (p, n, True) # cs)" using na True hd by (auto simp: no_adjacent_free_append)
  show ?thesis
    by (rule that [OF merge_prev_idle [OF rel True] heap_frame_refl rel _ na' tiled_header [OF tl] coalesce_id [OF na']])
      (use ex in \<open>simp add: exact_bins_used\<close>)
next
  case False
  then obtain as' q m where as: "as = as' @ [(q, m, True)]" by (cases as rule: rev_cases) auto
  let ?fl = "fl[get_bin_index m := remove1 q (fl ! get_bin_index m)]"
  have rel': "heap_rel s (as' @ (q, m, True) # (p, n, False) # cs) fl"
    and ex': "exact_bins (as' @ (q, m, True) # (p, n, False) # cs) fl" using rel ex as by auto
  note rb = remove_bins [OF rel' ex']
  obtain s' where s': "merge_prev p s = Some (q, s')" "heap_frame s s'"
    "heap_rel s' (as' @ (q, m + (sizeof_block + n), True) # cs) ?fl"
    using merge_prev_rel [OF rel' rb(2,3)] by auto
  have naq: "no_adjacent_free (as' @ [(q, m, True)])" using na unfolding as no_adjacent_free_append by blast
  then have as': "no_adjacent_free as'" "as' = [] \<or> \<not> snd (snd (last as'))"
    using no_adjacent_free_append [of as' q m True "[]"] by auto
  have na': "no_adjacent_free (as' @ (q, m + (sizeof_block + n), True) # cs)"
    using na as' hd by (auto simp: no_adjacent_free_append)
  show ?thesis
  proof (rule that [OF s' _ na'])
    show "exact_bins (as' @ cs) ?fl" using rb(1) by (simp add: exact_bins_used)
    show "tiled a (as' @ (q, m + (sizeof_block + n), True) # cs) HEAP_END"
      using tiled_merge(1) [of a as' q m True p n False cs HEAP_END] tl as by (simp add: HEAP_END_def)
    have "coalesce ((q, m + (sizeof_block + n), True) # cs) = (q, m + (sizeof_block + n), True) # cs"
      using na' hd by (intro coalesce_next) (auto simp: no_adjacent_free_append)
    then show "coalesce (as @ (p, n, True) # cs) = as' @ (q, m + (sizeof_block + n), True) # cs"
      unfolding as using coalesce_append [OF as'] by simp
  qed
qed

lemma kfree_used:
  assumes ok: "heap_ok s bs" and p: "(p, n, False) \<in> set bs"
  obtains s' where "kfree (p + sizeof_block) s = Some s'" "heap_frame s s'" "heap_ok s' (a_free p bs)"
proof -
  let ?s = "s\<lparr>int_flag := False\<rparr>"
  from p obtain as cs where bs: "bs = as @ (p, n, False) # cs" by (auto simp: in_set_conv_decomp)
  from ok obtain fl where rel: "heap_rel ?s (as @ (p, n, False) # cs) fl"
    and ex: "exact_bins (as @ (p, n, False) # cs) fl" and wf: "heap_wf (as @ (p, n, False) # cs)"
    by (auto simp: heap_ok_def bs)
  have tl: "tiled (unat HEAP_START) (as @ (p, n, False) # cs) HEAP_END" and na: "no_adjacent_free (as @ (p, n, False) # cs)"
    using wf by (auto simp: heap_wf_def)
  obtain b where b: "get_block ?s p = Some b" "mb_magic b = HEAP_MAGIC" "mb_is_free b = 0"
    using heap_rel_block [OF rel, of p n False] by auto
  obtain t n1 cs1 fl1 where t: "merge_next p ?s = Some t" "heap_frame ?s t" "heap_rel t (as @ (p, n1, False) # cs1) fl1"
    "exact_bins (as @ (p, n1, False) # cs1) fl1" "no_adjacent_free (as @ (p, n1, False) # cs1)"
    "cs1 = [] \<or> \<not> snd (snd (hd cs1))" "tiled (unat HEAP_START) (as @ (p, n1, False) # cs1) HEAP_END"
    "coalesce (as @ (p, n, True) # cs) = coalesce (as @ (p, n1, True) # cs1)"
    by (rule merge_next_ok [OF rel ex na tl])
  obtain u r n2 g as2 fl2 where u: "merge_prev p t = Some (r, u)" "heap_frame t u" "heap_rel u (as2 @ (r, n2, g) # cs1) fl2"
    "exact_bins (as2 @ cs1) fl2" "no_adjacent_free (as2 @ (r, n2, True) # cs1)"
    "tiled (unat HEAP_START) (as2 @ (r, n2, True) # cs1) HEAP_END"
    "coalesce (as @ (p, n1, True) # cs1) = as2 @ (r, n2, True) # cs1"
    by (rule merge_prev_ok [OF t(3-5) t(7,6)])
  obtain v where v: "upd_block r (mb_is_free_update (\<lambda>_. 1)) u = Some v" "heap_frame u v"
    "heap_rel v (as2 @ (r, n2, True) # cs1) fl2" using set_free_rel [OF u(3), of True] by auto
  have wf2: "heap_wf (as2 @ (r, n2, True) # cs1)" using u(5,6) by (simp add: heap_wf_def)
  have dist: "distinct (map fst (as2 @ (r, n2, True) # cs1))" by (rule heap_wf_distinct [OF wf2])
  have nin: "\<And>j. j < 16 \<Longrightarrow> r \<notin> set (fl2 ! j)" by (rule exact_bins_notin [OF u(4)]) (use dist in auto)
  have "bins_disjoint fl2" by (rule exact_bins_disjoint [OF u(4)]) (use dist in auto)
  then obtain w where w: "insert_free_block r v = Some w" "heap_frame v w"
    "heap_rel w (as2 @ (r, n2, True) # cs1) (fl2[get_bin_index n2 := r # fl2 ! get_bin_index n2])"
    using insert_free_block_rel [OF v(3) _ nin, of n2 True] by auto
  have "a_free p bs = coalesce (as @ (p, n, True) # cs)"
    unfolding a_free_def bs by (subst a_mark_free_split [OF heap_wf_distinct [OF wf]]) simp
  then have fr: "a_free p bs = as2 @ (r, n2, True) # cs1" using t(8) u(7) by simp
  have "kfree (p + sizeof_block) s = Some (w\<lparr>int_flag := int_flag s\<rparr>)"
    using b t(1) u(1) v(1) w(1) heap_wf_ptr(2) [OF wf, of p n False]
    by (simp add: kfree_def save_flags_def restore_flags_def Let_def)
  moreover have "heap_frame s (w\<lparr>int_flag := int_flag s\<rparr>)"
    using t(2) u(2) v(2) w(2) by (blast intro: heap_frame_flags heap_frame_trans)
  moreover have "heap_ok (w\<lparr>int_flag := int_flag s\<rparr>) (a_free p bs)"
    unfolding heap_ok_def fr using w(3) wf2 exact_bins_insert [OF u(4)] by auto
  ultimately show ?thesis by (rule that)
qed

lemma kfree_ignored:
  assumes ok: "heap_ok s bs" and p: "ptr = NULL \<or> (ptr = p + sizeof_block \<and> (p, n, True) \<in> set bs)"
  shows "kfree ptr s = Some s"
proof (cases "ptr = NULL")
  case True
  then show ?thesis by (simp add: kfree_def save_flags_def restore_flags_def)
next
  case False
  then have q: "ptr = p + sizeof_block" "(p, n, True) \<in> set bs" using p by auto
  from ok obtain fl where rel: "heap_rel (s\<lparr>int_flag := False\<rparr>) bs fl" by (auto simp: heap_ok_def)
  obtain b where "get_block (s\<lparr>int_flag := False\<rparr>) p = Some b" "mb_is_free b = 1"
    using heap_rel_block [OF rel q(2)] by auto
  then show ?thesis using False q by (simp add: kfree_def save_flags_def restore_flags_def)
qed

section \<open>Initialisation meets its contract\<close>

definition initial_blocks :: "ablock list" where
  "initial_blocks = [(HEAP_START, HEAP_SIZE - sizeof_block, True)]"

lemma heap_init_ok:
  assumes "length (sys_log s) < 64000"
  obtains s' where "heap_init s = Some s'" "heap_ok s' initial_blocks" "int_flag s' = int_flag s"
    "length (sys_log s') < 64000"
proof -
  obtain log where log: "klog ''[MM] Initializing smart heap manager...'' s = Some (s\<lparr>sys_log := log\<rparr>)" "length log < 64000"
    using klog_Some [OF assms, of "''[MM] Initializing smart heap manager...''"] by auto
  define b where "b = \<lparr>mb_magic = HEAP_MAGIC, mb_size = HEAP_SIZE - sizeof_block, mb_is_free = 1,
        mb_next = NULL, mb_prev = NULL, mb_free_next = NULL, mb_free_prev = NULL\<rparr>"
  define t where "t = s\<lparr>sys_log := log, free_bins := replicate NUM_BINS NULL, heap_start := HEAP_START,
    blocks := (blocks s)(HEAP_START \<mapsto> b)\<rparr>"
  have rel: "heap_rel t initial_blocks (replicate 16 [])"
    by (simp add: heap_rel_def t_def phys_rep_def bins_rep_def blk_rep_def b_def initial_blocks_def layout_simps)
  have dj: "bins_disjoint (replicate 16 [])" by (simp add: bins_disjoint_def)
  obtain u where u: "insert_free_block HEAP_START t = Some u" "heap_frame t u"
    "heap_rel u initial_blocks ((replicate 16 [])[get_bin_index (HEAP_SIZE - sizeof_block) :=
       [HEAP_START]])"
    using insert_free_block_rel [OF rel _ _ dj, of HEAP_START "HEAP_SIZE - sizeof_block" True]
    by (auto simp: initial_blocks_def)
  have ex: "exact_bins initial_blocks ((replicate 16 [])[get_bin_index (HEAP_SIZE - sizeof_block) := [HEAP_START]])"
    using exact_bins_insert [of "[]" "[]" "replicate 16 []" HEAP_START "HEAP_SIZE - sizeof_block"]
    by (simp add: initial_blocks_def exact_bins_def)
  have wf: "heap_wf initial_blocks"
    by (simp add: heap_wf_def initial_blocks_def layout_simps no_adjacent_free_def)
  have lu: "length (sys_log u) < 64000" "int_flag u = int_flag s"
    using u(2) log(2) by (cases u; auto simp: heap_frame_def t_def)+
  define msg where "msg = ''[MM] Heap initialized at '' @ itoa HEAP_START 16 @ '' (Size: '' @
    itoa (HEAP_SIZE div (1024 * 1024)) 10 @ '' MB)''"
  have len: "length (itoa HEAP_START 16) \<le> 8" "length (itoa (HEAP_SIZE div (1024 * 1024)) 10) \<le> 4"
    by (intro length_itoa_le; simp add: layout_simps unat_div)+
  then have "length msg \<le> 240" by (simp add: msg_def)
  then obtain log' where log': "klog msg u = Some (u\<lparr>sys_log := log'\<rparr>)" "length log' < 64000"
    using klog_Some [OF lu(1), of msg] by auto
  have "heap_init s = Some (u\<lparr>sys_log := log'\<rparr>)"
    using log log' u(1) len by (simp add: heap_init_def Let_def b_def [symmetric] strcat_def strlen_def t_def msg_def)
  moreover have "heap_ok (u\<lparr>sys_log := log'\<rparr>) initial_blocks"
    using u(3) ex wf unfolding heap_ok_def heap_rel_def by auto
  ultimately show ?thesis using lu(2) log'(2) by (intro that [of "u\<lparr>sys_log := log'\<rparr>"]) auto
qed

section \<open>Round trips and totals\<close>

lemma a_free_alloc:
  assumes wf: "heap_wf bs" and p: "(p, n, True) \<in> set bs"
  shows "a_free p (a_alloc p k bs) = bs"
proof -
  from p obtain as cs where bs: "bs = as @ (p, n, True) # cs" by (auto simp: in_set_conv_decomp)
  have dist: "distinct (map fst (as @ (p, n, True) # cs))" using heap_wf_distinct [OF wf] bs by simp
  have na: "no_adjacent_free (as @ (p, n, True) # cs)" using wf bs by (simp add: heap_wf_def)
  have mark: "a_mark_free p xs = xs" if "p \<notin> fst ` set xs" for xs
    using that by (induction xs) (auto simp: a_mark_free_def)
  have nin: "p \<notin> fst ` set as" "p \<notin> fst ` set cs" using dist by auto
  have m2: "a_mark_free p (xs @ ys) = a_mark_free p xs @ a_mark_free p ys" for xs ys by (simp add: a_mark_free_def)
  have "coalesce (as @ a_mark_free p (alloc_parts p n k) @ cs) = as @ (p, n, True) # cs"
  proof (cases "n > k + sizeof_block + 16")
    case True
    have "a_mark_free p (alloc_parts p n k) = [(p, k, True), (p + sizeof_block + k, n - k - sizeof_block, True)]"
      using True by (simp add: alloc_parts_def a_mark_free_def)
    then show ?thesis using coalesce_merge [of as p k "p + sizeof_block + k" "n - k - sizeof_block" cs]
        coalesce_id [OF na] by simp
  next
    case False
    then show ?thesis using coalesce_id [OF na] by (simp add: alloc_parts_def a_mark_free_def)
  qed
  then show ?thesis
    unfolding a_free_def bs a_alloc_split [OF dist] m2 mark [OF nin(1)] mark [OF nin(2)] .
qed

definition used_bytes :: "ablock list \<Rightarrow> nat" where
  "used_bytes bs = sum_list (map (\<lambda>(p, n, f). if f then 0 else unat n) bs)"

definition free_bytes :: "ablock list \<Rightarrow> nat" where
  "free_bytes bs = sum_list (map (\<lambda>(p, n, f). if f then unat n else 0) bs)"

lemma tiled_total: "tiled a bs e \<Longrightarrow> a + used_bytes bs + free_bytes bs + 28 * length bs = e"
  by (induction a bs e rule: tiled.induct) (auto simp: used_bytes_def free_bytes_def)

lemma used_memory_loop_rep:
  assumes "dll mb_next mb_prev (blocks s) cur q (map fst bs)" and "list_all (blk_rep (blocks s)) bs"
    and "unat acc + used_bytes bs < 4294967296"
  shows "\<exists>r. used_memory_loop s cur acc = Some r \<and> unat r = unat acc + used_bytes bs"
  using assms
proof (induction bs arbitrary: cur q acc)
  case Nil
  then show ?case by (simp add: used_memory_loop.simps used_bytes_def)
next
  case (Cons e bs)
  obtain p n f where e: "e = (p, n, f)" by (cases e)
  with Cons.prems obtain b where b: "cur = p" "p \<noteq> NULL" "blocks s p = Some b" "mb_size b = n" "mb_is_free b = (if f then 1 else 0)"
    "dll mb_next mb_prev (blocks s) (mb_next b) p (map fst bs)" by (auto simp: blk_rep_def)
  let ?acc = "if mb_is_free b = 0 then acc + mb_size b else acc"
  have "unat ?acc + used_bytes bs = unat acc + used_bytes (e # bs)"
    using Cons.prems(3) b e by (auto simp: used_bytes_def unat_add_no_wrap32)
  then obtain r where "used_memory_loop s (mb_next b) ?acc = Some r" "unat r = unat acc + used_bytes (e # bs)"
    using Cons.IH [OF b(6), of ?acc] Cons.prems by auto
  then show ?case using b by (subst used_memory_loop.simps) (simp add: get_block_def)
qed

lemma get_used_memory_ok:
  assumes "heap_ok s bs"
  shows "\<exists>r. get_used_memory s = Some (r, s) \<and> unat r = used_bytes bs"
proof -
  let ?s = "s\<lparr>int_flag := False\<rparr>"
  from assms obtain fl where rel: "heap_rel ?s bs fl" and wf: "heap_wf bs" by (auto simp: heap_ok_def)
  have "tiled (unat HEAP_START) bs HEAP_END" using wf by (simp add: heap_wf_def)
  from tiled_total [OF this] have "used_bytes bs < 4294967296" by (simp add: layout_simps)
  then obtain r where "used_memory_loop ?s HEAP_START 0 = Some r" "unat r = used_bytes bs"
    using used_memory_loop_rep [of ?s HEAP_START NULL bs 0] rel by (auto simp: heap_rel_def phys_rep_def)
  then show ?thesis using rel by (simp add: get_used_memory_def save_flags_def restore_flags_def heap_rel_def)
qed

section \<open>Statistics\<close>

lemma heap_dump_loop_rep:
  assumes "dll mb_next mb_prev (blocks s) cur q (map fst bs)" and "list_all (blk_rep (blocks s)) bs"
    and "unat (total_used t) + used_bytes bs < 4294967296" and "unat (total_free t) + free_bytes bs < 4294967296"
    and "unat (used_blocks t) + unat (free_blocks t) + length bs < 4294967296"
  shows "\<exists>r. heap_dump_loop s cur t = Some r \<and> unat (total_used r) = unat (total_used t) + used_bytes bs \<and>
    unat (total_free r) = unat (total_free t) + free_bytes bs \<and>
    unat (used_blocks r) + unat (free_blocks r) = unat (used_blocks t) + unat (free_blocks t) + length bs"
  using assms
proof (induction bs arbitrary: cur q t)
  case Nil
  then show ?case by (simp add: heap_dump_loop.simps used_bytes_def free_bytes_def)
next
  case (Cons e bs)
  obtain p n f where e: "e = (p, n, f)" by (cases e)
  with Cons.prems obtain b where b: "cur = p" "p \<noteq> NULL" "blocks s p = Some b" "mb_size b = n" "mb_is_free b = (if f then 1 else 0)"
    "dll mb_next mb_prev (blocks s) (mb_next b) p (map fst bs)" by (auto simp: blk_rep_def)
  let ?t = "stats_step b t"
  have one: "unat (x + 1) = unat x + 1" if "unat x + 1 < 4294967296" for x :: u32
    using that unat_add_no_wrap32 [of x 1] by simp
  have step: "unat (total_used ?t) + used_bytes bs = unat (total_used t) + used_bytes (e # bs)"
    "unat (total_free ?t) + free_bytes bs = unat (total_free t) + free_bytes (e # bs)"
    "unat (used_blocks ?t) + unat (free_blocks ?t) = unat (used_blocks t) + unat (free_blocks t) + 1"
    using Cons.prems(3-) b e by (auto simp: used_bytes_def free_bytes_def stats_step_def unat_add_no_wrap32 one)
  then obtain r where "heap_dump_loop s (mb_next b) ?t = Some r" "unat (total_used r) = unat (total_used ?t) + used_bytes bs"
    "unat (total_free r) = unat (total_free ?t) + free_bytes bs"
    "unat (used_blocks r) + unat (free_blocks r) = unat (used_blocks ?t) + unat (free_blocks ?t) + length bs"
    using Cons.IH [OF b(6), of ?t] Cons.prems by auto
  with step show ?case using b by (subst heap_dump_loop.simps) (simp add: get_block_def)
qed

section \<open>Aligned allocation meets its contract\<close>

lemma align_up_page:
  fixes raw :: u32
  assumes "unat raw + 4099 < 4294967296"
  shows "unat ((raw + 4 + 4095) AND NOT 4095) mod 4096 = 0"
    and "unat raw + 4 \<le> unat ((raw + 4 + 4095) AND NOT 4095)"
    and "unat ((raw + 4 + 4095) AND NOT 4095) \<le> unat raw + 4099"
proof -
  have u: "unat (raw + 4 + 4095) = unat raw + 4099"
    using assms unat_add_no_wrap32 [of raw 4099] by (simp add: add.assoc)
  have a: "unat ((raw + 4 + 4095) AND NOT 4095) = unat raw + 4099 - (unat raw + 4099) mod 4096"
    unfolding not_4095 unat_align_down u by simp
  show "unat ((raw + 4 + 4095) AND NOT 4095) mod 4096 = 0" unfolding a by (simp add: minus_mod_eq_mult_div)
  have "(unat raw + 4099) mod 4096 \<le> 4095" using mod_less_divisor [of 4096 "unat raw + 4099"] by linarith
  then show "unat raw + 4 \<le> unat ((raw + 4 + 4095) AND NOT 4095)" "unat ((raw + 4 + 4095) AND NOT 4095) \<le> unat raw + 4099"
    unfolding a by simp_all
qed

lemma heap_ok_mem [simp]: "heap_ok (s\<lparr>mem := m\<rparr>) bs = heap_ok s bs"
  by (simp add: heap_ok_def heap_rel_def)

lemma round_size_ge: "unat k \<le> 0xFFFFFFFC \<Longrightarrow> unat k \<le> unat (round_size k)"
proof (cases "k mod 4 = 0")
  case False
  assume k: "unat k \<le> 0xFFFFFFFC"
  have m: "unat (k mod 4) = unat k mod 4" by (rule unat_mod4)
  then have u: "unat (4 - k mod 4) = 4 - unat k mod 4" using unat_sub32 [of "k mod 4" 4] by simp
  have "unat k mod 4 \<noteq> 0" using False m by (metis unat_eq_0)
  then have "unat k + (4 - unat k mod 4) < 4294967296" using k by presburger
  then have "unat (k + (4 - k mod 4)) = unat k + (4 - unat k mod 4)" using u unat_add_no_wrap32 [of k "4 - k mod 4"] by simp
  then show ?thesis using False by (simp add: round_size_def)
qed (simp add: round_size_def)

lemma kmalloc_a_spec:
  assumes hok: "heap_ok s bs" and k: "unat k + 4100 \<le> 0xFFFFFFFC"
  obtains (fail) "kmalloc_a k s = Some (NULL, s)" "\<And>p n. (p, n, True) \<in> set bs \<Longrightarrow> n < round_size (k + 4096 + 4)"
    | (ok) p n a s' where "kmalloc_a k s = Some (a, s')" "(p, n, True) \<in> set bs" "round_size (k + 4096 + 4) \<le> n"
      "heap_ok s' (a_alloc p (round_size (k + 4096 + 4)) bs)" "unat a mod 4096 = 0" "a \<noteq> NULL"
      "unat p + 28 + 4 \<le> unat a" "unat a + unat k \<le> unat p + 28 + unat (round_size (k + 4096 + 4))"
      "load32 (mem s') (a - 4) = p + sizeof_block" "heap_frame (s\<lparr>mem := mem s'\<rparr>) s'"
      "\<forall>x. 4 \<le> unat (x - (a - 4)) \<longrightarrow> mem s' x = mem s x"
proof -
  have wf: "heap_wf bs" using hok by (simp add: heap_ok_def)
  have req: "unat (k + 4096 + 4) = unat k + 4100"
    using k unat_add_no_wrap32 [of k 4100] by (simp add: add.assoc)
  show ?thesis
  proof (rule kmalloc_spec [OF hok, of "k + 4096 + 4"])
    assume "kmalloc (k + 4096 + 4) s = Some (NULL, s)" "\<And>p n. (p, n, True) \<in> set bs \<Longrightarrow> n < round_size (k + 4096 + 4)"
    then show ?thesis by (intro fail) (auto simp: kmalloc_a_def)
  next
    fix p n t assume t: "kmalloc (k + 4096 + 4) s = Some (p + sizeof_block, t)" "heap_frame s t" "p + sizeof_block \<noteq> NULL"
      "(p, n, True) \<in> set bs" "round_size (k + 4096 + 4) \<le> n" "heap_ok t (a_alloc p (round_size (k + 4096 + 4)) bs)"
    let ?raw = "p + sizeof_block"
    define a where "a = (?raw + 4 + 4095) AND NOT 4095"
    have raw: "unat ?raw = unat p + 28" by (rule heap_wf_ptr(1) [OF wf t(4)])
    have lim: "unat p + 28 + unat n \<le> HEAP_END" by (rule heap_wf_block(2) [OF wf t(4)])
    then have "unat ?raw + 4099 < 4294967296" using raw by (simp add: HEAP_END_def)
    note al = align_up_page [OF this, folded a_def, unfolded raw]
    define t' where "t' = t\<lparr>mem := store32 (mem t) (a - 4) ?raw\<rparr>"
    have run: "kmalloc_a k s = Some (a, t')" using t(1,3) by (simp add: kmalloc_a_def a_def t'_def Let_def)
    have "a \<noteq> NULL" using al(2) by (metis add_is_0 le_zero_eq unat_0 zero_neq_numeral)
    moreover have "unat a + unat k \<le> unat p + 28 + unat (round_size (k + 4096 + 4))"
      using al(3) round_size_ge [of "k + 4096 + 4"] k req by simp
    moreover have "mem t = mem s" using t(2) by (cases t) (simp add: heap_frame_def)
    moreover have "heap_frame (s\<lparr>mem := mem t'\<rparr>) t'" using t(2) by (cases s; cases t) (auto simp: heap_frame_def t'_def)
    ultimately show ?thesis
      using run t(4-6) al by (intro ok [of a t' p n]) (auto simp: t'_def store32_other)
  qed
qed

lemma kfree_a_round_trip:
  assumes "a \<noteq> NULL" and "load32 (mem s) (a - 4) = p + sizeof_block"
  shows "kfree_a a s = kfree (p + sizeof_block) s"
  using assms by (simp add: kfree_a_def)

end
