(* ===== verification/Allocator.thy ===== *)
theory Allocator
  imports Heap_Spec
begin

text \<open>
  The allocator as its clients see it: an interface locale over the set of live
  allocations, what a client may conclude from it about any sequence of requests, and its
  interpretation on \<^verbatim>\<open>kmalloc\<close> and \<^verbatim>\<open>kfree\<close>. The properties of the heap follow.
\<close>

section \<open>The interface\<close>

text \<open>
  A live allocation is a pointer with its usable size. \<open>rep s L\<close>: in state \<open>s\<close> exactly
  the allocations \<open>L\<close> are live. Requests are limited to \<open>cap\<close>.
\<close>

definition disjoint_ranges :: "u32 \<times> nat \<Rightarrow> u32 \<times> nat \<Rightarrow> bool" where
  "disjoint_ranges x y \<longleftrightarrow>
     unat (fst x) + snd x \<le> unat (fst y) \<or> unat (fst y) + snd y \<le> unat (fst x)"

locale allocator =
  fixes rep :: "'s \<Rightarrow> (u32 \<times> nat) set \<Rightarrow> bool"
    and alloc :: "u32 \<Rightarrow> 's \<Rightarrow> (u32 \<times> 's) option"
    and release :: "u32 \<Rightarrow> 's \<Rightarrow> 's option"
    and cap :: nat
  assumes alloc_law: "rep s L \<Longrightarrow> unat k \<le> cap \<Longrightarrow>
      \<exists>r s'. alloc k s = Some (r, s') \<and>
        (r = NULL \<and> rep s' L \<or>
         r \<noteq> NULL \<and> (\<exists>n\<ge>unat k. rep s' (insert (r, n) L) \<and> (\<forall>x\<in>L. fst x \<noteq> r \<and> disjoint_ranges (r, n) x)))"
    and release_law: "rep s L \<Longrightarrow> (r, n) \<in> L \<Longrightarrow> \<exists>s'. release r s = Some s' \<and> rep s' (L - {(r, n)})"
    and release_null: "rep s L \<Longrightarrow> release NULL s = Some s"
begin

definition live_ok :: "(u32 \<times> nat) set \<Rightarrow> bool" where
  "live_ok L \<longleftrightarrow> (\<forall>x\<in>L. \<forall>y\<in>L. x \<noteq> y \<longrightarrow> fst x \<noteq> fst y \<and> disjoint_ranges x y)"

text \<open>
  What a client holds: the pointers it got and did not release, with the sizes it asked for.
  Distinct pointers, each inside a live allocation of its own.
\<close>

definition client :: "'s \<Rightarrow> (u32 \<times> nat) list \<Rightarrow> bool" where
  "client s P \<longleftrightarrow> (\<exists>L. rep s L \<and> live_ok L \<and> distinct (map fst P) \<and> (\<forall>(r, k)\<in>set P. \<exists>n\<ge>k. (r, n) \<in> L))"

lemma client_disjoint:
  assumes "client s P" and "x \<in> set P" and "y \<in> set P" and "x \<noteq> y"
  shows "disjoint_ranges x y"
proof -
  obtain L where L: "live_ok L" "distinct (map fst P)" "\<forall>(r, k)\<in>set P. \<exists>n\<ge>k. (r, n) \<in> L"
    using assms(1) by (auto simp: client_def)
  obtain n m where n: "n \<ge> snd x" "(fst x, n) \<in> L" and m: "m \<ge> snd y" "(fst y, m) \<in> L"
    using L(3) [rule_format, OF assms(2)] L(3) [rule_format, OF assms(3)] by (cases x; cases y) auto
  have "fst x \<noteq> fst y" using L(2) assms(2-4) eq_key_imp_eq_value [OF L(2)] by (cases x; cases y) auto
  then have "disjoint_ranges (fst x, n) (fst y, m)" using L(1) n(2) m(2) by (auto simp: live_ok_def)
  then show ?thesis using n(1) m(1) by (auto simp: disjoint_ranges_def)
qed

lemma client_alloc_total: "client s P \<Longrightarrow> unat k \<le> cap \<Longrightarrow> \<exists>r s'. alloc k s = Some (r, s')"
  by (auto simp: client_def dest: alloc_law)

lemma client_alloc:
  assumes "client s P" and "unat k \<le> cap" and "alloc k s = Some (r, s')"
  shows "client s' (if r = NULL then P else (r, unat k) # P)"
proof -
  obtain L where L: "rep s L" "live_ok L" "distinct (map fst P)" "\<forall>(r, k)\<in>set P. \<exists>n\<ge>k. (r, n) \<in> L"
    using assms(1) by (auto simp: client_def)
  from alloc_law [OF L(1) assms(2)] assms(3) have alt: "r = NULL \<and> rep s' L \<or>
     r \<noteq> NULL \<and> (\<exists>n\<ge>unat k. rep s' (insert (r, n) L) \<and> (\<forall>x\<in>L. fst x \<noteq> r \<and> disjoint_ranges (r, n) x))"
    by auto
  show ?thesis
  proof (cases "r = NULL")
    case True
    then show ?thesis using alt L by (auto simp: client_def)
  next
    case False
    then obtain n where n: "n \<ge> unat k" "rep s' (insert (r, n) L)" "\<forall>x\<in>L. fst x \<noteq> r \<and> disjoint_ranges (r, n) x"
      using alt by blast
    have "live_ok (insert (r, n) L)" using n(3) L(2) by (auto simp: live_ok_def disjoint_ranges_def)
    moreover have "r \<notin> fst ` set P" using L(4) n(3) by fastforce
    moreover have "\<forall>(r', k')\<in>set ((r, unat k) # P). \<exists>n'\<ge>k'. (r', n') \<in> insert (r, n) L" using L(4) n(1) by auto
    ultimately show ?thesis using n(2) L(3) False unfolding client_def
      by (intro exI [of _ "insert (r, n) L"]) simp
  qed
qed

lemma client_release:
  assumes "client s (P @ (r, k) # Q)"
  shows "\<exists>s'. release r s = Some s' \<and> client s' (P @ Q)"
proof -
  obtain L where L: "rep s L" "live_ok L" "distinct (map fst (P @ (r, k) # Q))"
    "\<forall>(r, k)\<in>set (P @ (r, k) # Q). \<exists>n\<ge>k. (r, n) \<in> L" using assms by (auto simp: client_def)
  then obtain n where n: "(r, n) \<in> L" by auto
  then obtain s' where s': "release r s = Some s'" "rep s' (L - {(r, n)})" using release_law [OF L(1)] by blast
  have "fst x \<noteq> r" if "x \<in> set (P @ Q)" for x using that L(3) by auto
  then have "\<forall>(r', k')\<in>set (P @ Q). \<exists>n'\<ge>k'. (r', n') \<in> L - {(r, n)}" using L(4) by fastforce
  moreover have "live_ok (L - {(r, n)})" using L(2) by (auto simp: live_ok_def)
  ultimately have "client s' (P @ Q)" using s'(2) L(3) unfolding client_def by (intro exI [of _ "L - {(r, n)}"]) simp
  with s'(1) show ?thesis by blast
qed

lemma client_release_null: "client s P \<Longrightarrow> release NULL s = Some s"
  by (auto simp: client_def dest: release_null)

end

section \<open>The kernel heap is an allocator\<close>

definition live :: "ablock list \<Rightarrow> (u32 \<times> nat) set" where
  "live bs = {(p + sizeof_block, unat n) |p n. (p, n, False) \<in> set bs}"

definition heap_live :: "'z heap_scheme \<Rightarrow> (u32 \<times> nat) set \<Rightarrow> bool" where
  "heap_live s L \<longleftrightarrow> (\<exists>bs. heap_ok s bs \<and> L = live bs)"

lemma used_coalesce: "(p, n, False) \<in> set (coalesce bs) \<longleftrightarrow> (p, n, False) \<in> set bs"
  by (induction bs rule: coalesce.induct) auto

lemma live_a_free:
  assumes wf: "heap_wf bs" and p: "(p, n, False) \<in> set bs"
  shows "live (a_free p bs) = live bs - {(p + sizeof_block, unat n)}"
proof -
  have "(q, m, False) \<in> set (a_free p bs) \<longleftrightarrow> (q, m, False) \<in> set bs \<and> q \<noteq> p" for q m
  proof -
    have "(q, m, False) \<in> set (a_mark_free p bs) \<longleftrightarrow> (q, m, False) \<in> set bs \<and> q \<noteq> p"
    proof (induction bs)
      case (Cons e bs)
      obtain a j f where "e = (a, j, f)" by (cases e)
      with Cons show ?case by (cases "a = p") (auto simp: a_mark_free_def)
    qed (simp add: a_mark_free_def)
    then show ?thesis by (simp add: a_free_def used_coalesce)
  qed
  moreover have "m = n" if "(p, m, False) \<in> set bs" for m
    using eq_key_imp_eq_value [OF heap_wf_distinct [OF wf] p that] by simp
  ultimately have U: "{(q, m). (q, m, False) \<in> set (a_free p bs)} = {(q, m). (q, m, False) \<in> set bs} - {(p, n)}"
    by auto
  let ?f = "\<lambda>(q :: u32, m :: u32). (q + sizeof_block, unat m)"
  have "live xs = ?f ` {(q, m). (q, m, False) \<in> set xs}" for xs by (auto simp: live_def)
  moreover have "inj ?f" by (auto simp: inj_def intro: unsigned_word_eqI)
  ultimately show ?thesis by (simp add: U image_set_diff)
qed

lemma a_alloc_used:
  assumes wf: "heap_wf bs" and p: "(p, n, True) \<in> set bs" and k: "k \<le> n"
  obtains m where "k \<le> m" "m \<le> n" "\<And>q j. (q, j, False) \<in> set (a_alloc p k bs) \<longleftrightarrow> (q, j, False) \<in> set bs \<or> (q = p \<and> j = m)"
proof -
  from p obtain as cs where bs: "bs = as @ (p, n, True) # cs" by (auto simp: in_set_conv_decomp)
  have dist: "distinct (map fst (as @ (p, n, True) # cs))" using heap_wf_distinct [OF wf] bs by simp
  show ?thesis
    by (rule that [of "if n > k + sizeof_block + 16 then k else n"])
      (use k in \<open>auto simp: bs a_alloc_split [OF dist] alloc_parts_def\<close>)
qed

lemma block_ranges_disjoint:
  assumes wf: "heap_wf bs" and "(p, n, f) \<in> set bs" "(q, m, g) \<in> set bs" "p \<noteq> q"
  shows "unat p + 28 + unat n \<le> unat q \<or> unat q + 28 + unat m \<le> unat p"
proof -
  from assms(2) obtain as cs where bs: "bs = as @ (p, n, f) # cs" by (auto simp: in_set_conv_decomp)
  have tl: "tiled (unat HEAP_START) (as @ (p, n, f) # cs) HEAP_END" using wf bs by (simp add: heap_wf_def)
  from assms(3,4) bs have "(q, m, g) \<in> set as \<or> (q, m, g) \<in> set cs" by auto
  then show ?thesis using tiled_disjoint [OF tl] by blast
qed

lemma heap_alloc_law:
  fixes s :: "'z heap_scheme"
  assumes L: "heap_live s L" and k: "unat k \<le> 0xFFFFFFFC"
  shows "\<exists>r s'. kmalloc k s = Some (r, s') \<and>
        (r = NULL \<and> heap_live s' L \<or>
         r \<noteq> NULL \<and> (\<exists>n\<ge>unat k. heap_live s' (insert (r, n) L) \<and> (\<forall>x\<in>L. fst x \<noteq> r \<and> disjoint_ranges (r, n) x)))"
proof -
  from L obtain bs where ok: "heap_ok s bs" and Lb: "L = live bs" by (auto simp: heap_live_def)
  have wf: "heap_wf bs" using ok by (simp add: heap_ok_def)
  show ?thesis
  proof (rule kmalloc_spec [OF ok, of k])
    assume "kmalloc k s = Some (NULL, s)"
    then show ?thesis using L by auto
  next
    fix p n s' assume a: "kmalloc k s = Some (p + sizeof_block, s')" "p + sizeof_block \<noteq> NULL"
      "(p, n, True) \<in> set bs" "round_size k \<le> n" "heap_ok s' (a_alloc p (round_size k) bs)"
    obtain m where m: "round_size k \<le> m" "m \<le> n"
      "\<And>q j. (q, j, False) \<in> set (a_alloc p (round_size k) bs) \<longleftrightarrow> (q, j, False) \<in> set bs \<or> (q = p \<and> j = m)"
      by (rule a_alloc_used [OF wf a(3,4)]) blast
    have "live (a_alloc p (round_size k) bs) = insert (p + sizeof_block, unat m) L"
      unfolding Lb live_def using m(3) by auto
    then have "heap_live s' (insert (p + sizeof_block, unat m) L)" using a(5) by (auto simp: heap_live_def)
    moreover have "unat k \<le> unat m" using round_size_ge [OF k] m(1) by (simp add: word_le_nat_alt)
    moreover have "fst x \<noteq> p + sizeof_block \<and> disjoint_ranges (p + sizeof_block, unat m) x" if x: "x \<in> L" for x
    proof -
      from x obtain q j where q: "x = (q + sizeof_block, unat j)" "(q, j, False) \<in> set bs"
        by (auto simp: Lb live_def)
      have "p \<noteq> q" using eq_key_imp_eq_value [OF heap_wf_distinct [OF wf]] a(3) q(2) by fastforce
      with block_ranges_disjoint [OF wf a(3) q(2)] show ?thesis
        using heap_wf_ptr(1) [OF wf a(3)] heap_wf_ptr(1) [OF wf q(2)] m(2)
        by (auto simp: q(1) disjoint_ranges_def word_le_nat_alt)
    qed
    ultimately show ?thesis using a by blast
  qed
qed

interpretation kheap: allocator heap_live kmalloc kfree "0xFFFFFFFC"
proof (unfold_locales, goal_cases)
  case (1 s L k)
  then show ?case by (rule heap_alloc_law)
next
  case (2 s L r n)
  then obtain bs p m where ok: "heap_ok s bs" and p: "L = live bs" "r = p + sizeof_block" "n = unat m" "(p, m, False) \<in> set bs"
    by (auto simp: heap_live_def live_def)
  have wf: "heap_wf bs" using ok by (simp add: heap_ok_def)
  obtain s' where "kfree (p + sizeof_block) s = Some s'" "heap_ok s' (a_free p bs)"
    by (rule kfree_used [OF ok p(4)])
  then show ?case using p live_a_free [OF wf p(4)] by (auto simp: heap_live_def)
next
  case (3 s L)
  then show ?case by (auto simp: heap_live_def kfree_ignored)
qed

end
