(* ===== verification/Heap_Props.thy ===== *)
theory Heap_Props
  imports Allocator
begin

text \<open>The properties of the kernel heap, each with a concrete run where it has hypotheses.\<close>

section \<open>A concrete heap\<close>

definition heap_example :: heap where
  "heap_example = \<lparr>ticks = 0, mem = (\<lambda>_. 0), io_env = (\<lambda>_. 0), dma_env = (\<lambda>_ m. m), io_hist = [], sys_log = [], rand_next = 1,
     blocks = Map.empty, free_bins = replicate 16 NULL, heap_start = NULL, int_flag = True\<rparr>"

definition heap_booted :: heap where
  "heap_booted = the (heap_init heap_example)"

lemma heap_booted_ok: "heap_ok heap_booted initial_blocks"
proof -
  have "length (sys_log heap_example) < 64000" by (simp add: heap_example_def)
  from heap_init_ok [OF this] show ?thesis by (metis heap_booted_def option.sel)
qed

text \<open>The same heap after a first allocation of 64 bytes.\<close>

definition heap_used_1 :: heap where
  "heap_used_1 = snd (the (kmalloc 64 heap_booted))"

lemma heap_used_1_ok:
  "kmalloc 64 heap_booted = Some (HEAP_START + sizeof_block, heap_used_1)"
  "heap_ok heap_used_1 (a_alloc HEAP_START 64 initial_blocks)"
proof -
  have r: "round_size 64 = 64" by (simp add: round_size_def)
  have run: "kmalloc 64 heap_booted = Some (HEAP_START + sizeof_block, heap_used_1) \<and>
    heap_ok heap_used_1 (a_alloc HEAP_START 64 initial_blocks)"
  proof (rule kmalloc_spec [OF heap_booted_ok, of 64])
    assume "\<And>p n. (p, n, True) \<in> set initial_blocks \<Longrightarrow> n < round_size 64"
    from this [of HEAP_START "HEAP_SIZE - sizeof_block"] show ?thesis
      by (simp add: initial_blocks_def r layout_simps)
  next
    fix p n s' assume "kmalloc 64 heap_booted = Some (p + sizeof_block, s')" "(p, n, True) \<in> set initial_blocks"
      "heap_ok s' (a_alloc p (round_size 64) initial_blocks)"
    then show ?thesis by (simp add: initial_blocks_def r heap_used_1_def)
  qed
  then show "kmalloc 64 heap_booted = Some (HEAP_START + sizeof_block, heap_used_1)"
    "heap_ok heap_used_1 (a_alloc HEAP_START 64 initial_blocks)" by auto
qed

lemma heap_used_1_block: "(HEAP_START, 64, False) \<in> set (a_alloc HEAP_START 64 initial_blocks)"
  by (simp add: a_alloc_def initial_blocks_def alloc_parts_def layout_simps)

section \<open>Properties\<close>

text \<open>
  C2. Allocation meets its contract on every heap: \<^verbatim>\<open>kmalloc\<close> never faults, changes nothing
  but headers and bins, and returns NULL, with the state unchanged, exactly when no free
  block is large enough for the rounded request; otherwise it returns the payload of a free
  block that is, and the heap afterwards is the abstract heap with that block allocated.
\<close>

theorem kmalloc_contract:
  assumes "heap_ok s bs"
  shows "\<exists>r s'. kmalloc k s = Some (r, s') \<and> heap_frame s s' \<and>
    (if \<forall>(p, n, f)\<in>set bs. f \<longrightarrow> n < round_size k then r = NULL \<and> s' = s
     else \<exists>p n. (p, n, True) \<in> set bs \<and> round_size k \<le> n \<and> r = p + sizeof_block \<and> r \<noteq> NULL \<and>
       heap_ok s' (a_alloc p (round_size k) bs))"
proof (rule kmalloc_spec [OF assms, of k])
  assume "kmalloc k s = Some (NULL, s)" "\<And>p n. (p, n, True) \<in> set bs \<Longrightarrow> n < round_size k"
  then show ?thesis by auto
next
  fix p n s' assume a: "kmalloc k s = Some (p + sizeof_block, s')" "heap_frame s s'" "p + sizeof_block \<noteq> NULL"
    "(p, n, True) \<in> set bs" "round_size k \<le> n" "heap_ok s' (a_alloc p (round_size k) bs)"
  then have "\<not> (\<forall>(p, n, f)\<in>set bs. f \<longrightarrow> n < round_size k)" by force
  with a show ?thesis by auto
qed

theorem kmalloc_contract_witness:
  "\<exists>r s'. kmalloc 100 heap_booted = Some (r, s') \<and> heap_frame heap_booted s' \<and> r = HEAP_START + sizeof_block"
proof -
  have "\<not> (\<forall>(p, n, f)\<in>set initial_blocks. f \<longrightarrow> n < round_size 100)"
    by (simp add: initial_blocks_def layout_simps round_size_def)
  then show ?thesis using kmalloc_contract [OF heap_booted_ok, of 100]
    by (auto simp: initial_blocks_def)
qed

text \<open>
  C3. Release meets its contract: \<^verbatim>\<open>kfree\<close> of a live block never faults, changes nothing but
  headers and bins, and leaves the abstract heap in which the block is marked free and merged
  with its free neighbours; the other allocated blocks stay as they were.
\<close>

theorem kfree_contract:
  assumes "heap_ok s bs" and "(p, n, False) \<in> set bs"
  shows "\<exists>s'. kfree (p + sizeof_block) s = Some s' \<and> heap_frame s s' \<and> heap_ok s' (a_free p bs) \<and>
    live (a_free p bs) = live bs - {(p + sizeof_block, unat n)}"
proof -
  have "heap_wf bs" using assms(1) by (simp add: heap_ok_def)
  then show ?thesis using kfree_used [OF assms] live_a_free [of bs p n] assms(2) by metis
qed

theorem kfree_contract_witness:
  "\<exists>s'. kfree (HEAP_START + sizeof_block) heap_used_1 = Some s' \<and> heap_ok s' (a_free HEAP_START (a_alloc HEAP_START 64 initial_blocks))"
  using kfree_contract [OF heap_used_1_ok(2) heap_used_1_block] by blast

text \<open>
  C4. Memory safety of allocation, for a request that does not overflow the rounding: the
  returned payload is aligned to four bytes, has at least the requested size, lies inside the
  heap, and overlaps neither header nor payload of any block that was allocated before; those
  blocks stay allocated with their sizes.
\<close>

theorem kmalloc_safe:
  assumes "heap_ok s bs" and "unat k \<le> 0xFFFFFFFC" and "kmalloc k s = Some (r, s')" and "r \<noteq> NULL"
  shows "\<exists>bs' m. heap_ok s' bs' \<and> (r - sizeof_block, m, False) \<in> set bs' \<and> unat k \<le> unat m \<and>
    unat r mod 4 = 0 \<and> unat HEAP_START + 28 \<le> unat r \<and> unat r + unat m \<le> unat HEAP_START + unat HEAP_SIZE \<and>
    (\<forall>(q, j, f)\<in>set bs. \<not> f \<longrightarrow> (q, j, False) \<in> set bs' \<and>
       (unat q + 28 + unat j \<le> unat r - 28 \<or> unat r + unat m \<le> unat q))"
proof (rule kmalloc_spec [OF assms(1), of k])
  assume "kmalloc k s = Some (NULL, s)"
  then show ?thesis using assms(3,4) by simp
next
  fix p n s'' assume a: "kmalloc k s = Some (p + sizeof_block, s'')"
    "(p, n, True) \<in> set bs" "round_size k \<le> n" "heap_ok s'' (a_alloc p (round_size k) bs)"
  have wf: "heap_wf bs" using assms(1) by (simp add: heap_ok_def)
  obtain m where m: "round_size k \<le> m" "m \<le> n"
    "\<And>q j. (q, j, False) \<in> set (a_alloc p (round_size k) bs) \<longleftrightarrow> (q, j, False) \<in> set bs \<or> (q = p \<and> j = m)"
    by (rule a_alloc_used [OF wf a(2,3)]) blast
  have r: "r = p + sizeof_block" "s' = s''" and ur: "unat r = unat p + 28"
    using a(1) assms(3) heap_wf_ptr(1) [OF wf a(2)] by auto
  note b = heap_wf_block [OF wf a(2)]
  have "unat k \<le> unat m" "unat m \<le> unat n" using round_size_ge [OF assms(2)] m by (auto simp: word_le_nat_alt)
  moreover have "\<forall>q j f. (q, j, f) \<in> set bs \<longrightarrow> \<not> f \<longrightarrow> unat q + 28 + unat j \<le> unat p \<or> unat p + 28 + unat m \<le> unat q"
  proof (intro allI impI)
    fix q j f assume q: "(q, j, f) \<in> set bs" "\<not> f"
    then have "p \<noteq> q" using eq_key_imp_eq_value [OF heap_wf_distinct [OF wf] a(2)] by fastforce
    then show "unat q + 28 + unat j \<le> unat p \<or> unat p + 28 + unat m \<le> unat q"
      using block_ranges_disjoint [OF wf a(2) q(1)] m(2) by (auto simp: word_le_nat_alt)
  qed
  moreover have "unat r mod 4 = 0" using b(3) ur by auto
  ultimately show ?thesis
    using a(4) m(3) b ur r by (intro exI [of _ "a_alloc p (round_size k) bs"] exI [of _ m]) (fastforce simp: layout_simps)
qed

theorem kmalloc_safe_witness:
  "unat (HEAP_START + sizeof_block) mod 4 = 0 \<and>
   (\<exists>bs' m. heap_ok heap_used_1 bs' \<and> (HEAP_START + sizeof_block - sizeof_block, m, False) \<in> set bs' \<and> unat (64 :: u32) \<le> unat m)"
  using kmalloc_safe [OF heap_booted_ok _ heap_used_1_ok(1)] by (auto simp: layout_simps)

text \<open>
  C13. Allocating and freeing gives the heap back: releasing a block right after it was
  allocated never faults and restores exactly the block list there was, splits undone.
\<close>

theorem kmalloc_kfree_round_trip:
  assumes "heap_ok s bs" and "kmalloc k s = Some (r, s')" and "r \<noteq> NULL"
  shows "\<exists>s''. kfree r s' = Some s'' \<and> heap_ok s'' bs"
proof (rule kmalloc_spec [OF assms(1), of k])
  assume "kmalloc k s = Some (NULL, s)"
  then show ?thesis using assms by simp
next
  fix p n t assume a: "kmalloc k s = Some (p + sizeof_block, t)"
    "(p, n, True) \<in> set bs" "round_size k \<le> n" "heap_ok t (a_alloc p (round_size k) bs)"
  have wf: "heap_wf bs" using assms(1) by (simp add: heap_ok_def)
  obtain m where m: "(p, m, False) \<in> set (a_alloc p (round_size k) bs)"
    by (rule a_alloc_used [OF wf a(2,3)]) blast
  obtain s'' where "kfree (p + sizeof_block) t = Some s''" "heap_ok s'' (a_free p (a_alloc p (round_size k) bs))"
    by (rule kfree_used [OF a(4) m])
  then show ?thesis using a_free_alloc [OF wf a(2)] a(1) assms(2) by auto
qed

theorem kmalloc_kfree_round_trip_witness:
  "\<exists>s''. kfree (HEAP_START + sizeof_block) heap_used_1 = Some s'' \<and> heap_ok s'' initial_blocks"
  using kmalloc_kfree_round_trip [OF heap_booted_ok heap_used_1_ok(1)] by (simp add: layout_simps)

text \<open>
  Freeing NULL, or a block that is already on a free list, changes nothing.
\<close>

theorem kfree_idempotent:
  assumes "heap_ok s bs" and "ptr = NULL \<or> (\<exists>n. (ptr - sizeof_block, n, True) \<in> set bs)"
  shows "kfree ptr s = Some s"
  using assms kfree_ignored [OF assms(1), of ptr "ptr - sizeof_block"] by auto

theorem kfree_idempotent_witness: "kfree (HEAP_START + sizeof_block) heap_booted = Some heap_booted"
  using kfree_idempotent [OF heap_booted_ok, of "HEAP_START + sizeof_block"] by (simp add: initial_blocks_def)

text \<open>
  \<^verbatim>\<open>heap_init\<close> builds the heap: with room in the log it does not fault and leaves one free
  block that covers the whole range.
\<close>

theorem heap_init_contract:
  assumes "length (sys_log s) < 64000"
  shows "\<exists>s'. heap_init s = Some s' \<and> heap_ok s' [(HEAP_START, HEAP_SIZE - sizeof_block, True)] \<and>
    int_flag s' = int_flag s"
  using heap_init_ok [OF assms] unfolding initial_blocks_def by metis

theorem heap_init_contract_witness:
  "\<exists>s'. heap_init heap_example = Some s' \<and> heap_ok s' [(HEAP_START, HEAP_SIZE - sizeof_block, True)]"
  using heap_init_contract [of heap_example] by (auto simp: heap_example_def)

text \<open>
  The statistics are right: \<^verbatim>\<open>get_used_memory\<close> returns the sum of the allocated sizes, and
  used bytes, free bytes and 28 bytes of header per block add up to the size of the heap.
\<close>

theorem used_memory_exact:
  assumes "heap_ok s bs"
  shows "\<exists>r. get_used_memory s = Some (r, s) \<and> unat r = used_bytes bs \<and>
    unat r + free_bytes bs + 28 * length bs = unat get_total_memory"
proof -
  have "tiled (unat HEAP_START) bs HEAP_END" using assms by (simp add: heap_ok_def heap_wf_def)
  from tiled_total [OF this] get_used_memory_ok [OF assms] show ?thesis
    by (auto simp: layout_simps get_total_memory_def)
qed

theorem used_memory_exact_witness:
  "\<exists>r. get_used_memory heap_used_1 = Some (r, heap_used_1) \<and> unat r = 64"
  using used_memory_exact [OF heap_used_1_ok(2)]
  by (auto simp: used_bytes_def a_alloc_def initial_blocks_def alloc_parts_def layout_simps)

text \<open>
  Page-aligned allocation and release: a pointer from \<^verbatim>\<open>kmalloc_a\<close> is a multiple of 4096,
  its payload lies inside one block whose hidden back pointer is below it, and \<^verbatim>\<open>kfree_a\<close> of the
  pointer gives back exactly the heap there was.
\<close>

theorem kmalloc_a_kfree_a:
  assumes "heap_ok s bs" and "unat k + 4100 \<le> 0xFFFFFFFC" and "kmalloc_a k s = Some (a, s')" and "a \<noteq> NULL"
  shows "unat a mod 4096 = 0 \<and>
    (\<exists>p n. (p, n, True) \<in> set bs \<and> unat p + 28 + 4 \<le> unat a \<and> unat a + unat k \<le> unat p + 28 + unat n) \<and>
    (\<exists>s''. kfree_a a s' = Some s'' \<and> heap_ok s'' bs)"
proof (rule kmalloc_a_spec [OF assms(1,2)])
  assume "kmalloc_a k s = Some (NULL, s)"
  then show ?thesis using assms(3,4) by simp
next
  fix p n b t assume t: "kmalloc_a k s = Some (b, t)" "(p, n, True) \<in> set bs"
      "heap_ok t (a_alloc p (round_size (k + 4096 + 4)) bs)" "unat b mod 4096 = 0" "b \<noteq> NULL"
      "unat p + 28 + 4 \<le> unat b" "unat b + unat k \<le> unat p + 28 + unat (round_size (k + 4096 + 4))"
      "load32 (mem t) (b - 4) = p + sizeof_block" "round_size (k + 4096 + 4) \<le> n"
  have wf: "heap_wf bs" using assms(1) by (simp add: heap_ok_def)
  obtain m where m: "(p, m, False) \<in> set (a_alloc p (round_size (k + 4096 + 4)) bs)"
    by (rule a_alloc_used [OF wf t(2,9)]) blast
  obtain s'' where "kfree (p + sizeof_block) t = Some s''" "heap_ok s'' (a_free p (a_alloc p (round_size (k + 4096 + 4)) bs))"
    by (rule kfree_used [OF t(3) m])
  then have "\<exists>s''. kfree_a b t = Some s'' \<and> heap_ok s'' bs"
    using kfree_a_round_trip [OF t(5,8)] a_free_alloc [OF wf t(2)] by auto
  moreover have "unat (round_size (k + 4096 + 4)) \<le> unat n" using t(9) by (simp add: word_le_nat_alt)
  ultimately show ?thesis using t assms(3) by (intro conjI exI [of _ p] exI [of _ n]) auto
qed

theorem kmalloc_a_kfree_a_witness:
  "\<exists>a s' s''. kmalloc_a 64 heap_booted = Some (a, s') \<and> unat a mod 4096 = 0 \<and>
     kfree_a a s' = Some s'' \<and> heap_ok s'' initial_blocks"
proof -
  have k: "unat (64 :: u32) + 4100 \<le> 0xFFFFFFFC" by simp
  have "\<exists>a s'. kmalloc_a 64 heap_booted = Some (a, s') \<and> a \<noteq> NULL"
  proof (rule kmalloc_a_spec [OF heap_booted_ok k])
    assume "\<And>p n. (p, n, True) \<in> set initial_blocks \<Longrightarrow> n < round_size (64 + 4096 + 4)"
    from this [of HEAP_START "HEAP_SIZE - sizeof_block"] show ?thesis
      by (simp add: initial_blocks_def round_size_def layout_simps)
  qed blast
  then show ?thesis using kmalloc_a_kfree_a [OF heap_booted_ok k] by blast
qed

text \<open>
  The histories of a heap: initialisation, then any sequence of requests, and of writes of the clients into the ranges they hold.
  In memory the headers lie between these ranges; the theorem shows that no held range reaches a header of the chain.
\<close>

inductive heap_history :: "'z heap_scheme \<Rightarrow> (u32 \<times> nat) list \<Rightarrow> bool" where
  Boot: "length (sys_log s) < 64000 \<Longrightarrow> heap_init s = Some s' \<Longrightarrow> heap_history s' []"
| Malloc: "heap_history s P \<Longrightarrow> unat k \<le> 0xFFFFFFFC \<Longrightarrow> kmalloc k s = Some (r, s') \<Longrightarrow>
     heap_history s' (if r = NULL then P else (r, unat k) # P)"
| Release: "heap_history s (P @ (r, k) # Q) \<Longrightarrow> kfree r s = Some s' \<Longrightarrow> heap_history s' (P @ Q)"
| Write: "heap_history s P \<Longrightarrow> (r, k) \<in> set P \<Longrightarrow> (\<And>z. \<not> (unat r \<le> unat z \<and> unat z < unat r + k) \<Longrightarrow> m z = mem s z) \<Longrightarrow>
     heap_history (s\<lparr>mem := m\<rparr>) P"

lemma heap_live_mem [simp]: "heap_live (s\<lparr>mem := m\<rparr>) L = heap_live s L"
  by (simp add: heap_live_def)

lemma heap_history_client: "heap_history s P \<Longrightarrow> kheap.client s P"
proof (induction rule: heap_history.induct)
  case (Boot s s')
  then have "heap_ok s' initial_blocks" using heap_init_ok by (metis option.inject)
  then have "heap_live s' {}" by (auto simp: heap_live_def live_def initial_blocks_def)
  then show ?case by (auto simp: kheap.client_def kheap.live_ok_def)
next
  case (Malloc s P k r s')
  then show ?case by (intro kheap.client_alloc)
next
  case (Release s P r k Q s')
  then show ?case using kheap.client_release by fastforce
next
  case (Write s P r k m)
  then show ?case by (simp add: kheap.client_def)
qed

lemma client_headers:
  assumes "kheap.client s P"
  shows "\<exists>bs. heap_ok s bs \<and> (\<forall>(r, k)\<in>set P. \<forall>(q, n, f)\<in>set bs. unat q + 28 \<le> unat r \<or> unat r + k \<le> unat q)"
proof -
  obtain bs where bs: "heap_ok s bs" and P: "\<forall>(r, k)\<in>set P. \<exists>n\<ge>k. (r, n) \<in> live bs"
    using assms by (auto simp: kheap.client_def heap_live_def)
  have wf: "heap_wf bs" using bs by (simp add: heap_ok_def)
  have "unat q + 28 \<le> unat r \<or> unat r + k \<le> unat q" if rk: "(r, k) \<in> set P" and q: "(q, n, f) \<in> set bs" for r k q n f
  proof -
    obtain p m where p: "r = p + sizeof_block" "(p, m, False) \<in> set bs" "k \<le> unat m" using P rk by (fastforce simp: live_def)
    have r: "unat r = unat p + 28" using heap_wf_ptr(1) [OF wf p(2)] p(1) by simp
    show ?thesis
    proof (cases "p = q")
      case True
      then show ?thesis using r by simp
    next
      case False
      then show ?thesis using block_ranges_disjoint [OF wf p(2) q] r p(3) by auto
    qed
  qed
  then show ?thesis using bs by blast
qed

text \<open>
  C1. No history of requests goes wrong. After any sequence of allocations, releases of held pointers and writes into held
  ranges since \<^verbatim>\<open>heap_init\<close>, the ranges a client holds are pairwise disjoint, none of them overlaps a header of the chain of blocks, every further
  allocation returns, and every held pointer can be released.
\<close>

theorem heap_history_safe:
  assumes "heap_history s P"
  shows "(\<forall>x\<in>set P. \<forall>y\<in>set P. x \<noteq> y \<longrightarrow> disjoint_ranges x y) \<and> distinct (map fst P) \<and>
    (\<exists>bs. heap_ok s bs \<and> (\<forall>(r, k)\<in>set P. \<forall>(q, n, f)\<in>set bs. unat q + 28 \<le> unat r \<or> unat r + k \<le> unat q)) \<and>
    (\<forall>k. unat k \<le> 0xFFFFFFFC \<longrightarrow> (\<exists>r s'. kmalloc k s = Some (r, s'))) \<and>
    (\<forall>x\<in>set P. \<exists>s'. kfree (fst x) s = Some s')"
proof -
  have c: "kheap.client s P" by (rule heap_history_client [OF assms])
  have "\<exists>s'. kfree (fst x) s = Some s'" if x: "x \<in> set P" for x
  proof -
    obtain A B where "P = A @ x # B" using x by (auto simp: in_set_conv_decomp)
    then obtain r k where "P = A @ (r, k) # B" "x = (r, k)" by (cases x) auto
    then show ?thesis using kheap.client_release [of s A r k B] c by auto
  qed
  moreover have "distinct (map fst P)" using c by (auto simp: kheap.client_def)
  ultimately show ?thesis
    using kheap.client_disjoint [OF c] client_headers [OF c] kheap.client_alloc_total [OF c] by blast
qed

theorem heap_history_safe_witness:
  "\<exists>s'. kfree (HEAP_START + sizeof_block) heap_used_1 = Some s'"
proof -
  have "length (sys_log heap_example) < 64000" by (simp add: heap_example_def)
  moreover from heap_init_ok [OF this] have "heap_init heap_example = Some heap_booted"
    by (metis heap_booted_def option.sel)
  ultimately have "heap_history heap_booted []" by (rule heap_history.Boot)
  from heap_history.Malloc [OF this, of 64] heap_used_1_ok(1)
  have "heap_history heap_used_1 [(HEAP_START + sizeof_block, 64)]" by (simp add: layout_simps)
  from heap_history_safe [OF this] show ?thesis by simp
qed

end
