(* ===== verification/Paging.thy ===== *)
theory Paging
  imports Allocator
begin

text \<open>
  Paging, \<^verbatim>\<open>kernel/mm/paging.c\<close>: two-level page tables in memory, reached through 32-bit
  entries. The directories and tables are pages of the kernel heap, whose addresses are
  identity-mapped. \<open>translate\<close> is the address translation of the processor, against which
  the operations are verified.
\<close>

section \<open>State\<close>

text \<open>
  \<open>cr3\<close> and \<open>paging_on\<close> are what \<^verbatim>\<open>_loadPageDirectory\<close> and \<^verbatim>\<open>_enablePaging\<close> set, \<open>invlpgs\<close>
  the addresses whose translation was flushed, and \<open>video_memory\<close>, \<open>buffer_size_bytes\<close> the
  frame buffer the VESA driver reports.
\<close>

record paging = heap +
  kernel_dir :: u32
  current_dir :: u32
  cr3 :: u32
  paging_on :: bool
  invlpgs :: "u32 list"
  video_memory :: u32
  buffer_size_bytes :: u32

definition pd_index :: "u32 \<Rightarrow> u32" where
  "pd_index virt = drop_bit 22 virt"

definition pt_index :: "u32 \<Rightarrow> u32" where
  "pt_index virt = drop_bit 12 virt AND 0x3FF"

section \<open>Operations\<close>

text \<open>\<open>for (i = 0; i < n; i++) t[i] = v\<close>, and the copy loop of \<^verbatim>\<open>clone_page_directory\<close>.\<close>

primrec fill_entries :: "(u32 \<Rightarrow> u8) \<Rightarrow> u32 \<Rightarrow> u32 \<Rightarrow> nat \<Rightarrow> (u32 \<Rightarrow> u8)" where
  "fill_entries m t v 0 = m"
| "fill_entries m t v (Suc n) = store32 (fill_entries m t v n) (t + 4 * of_nat n) v"

primrec copy_entries :: "(u32 \<Rightarrow> u8) \<Rightarrow> u32 \<Rightarrow> u32 \<Rightarrow> nat \<Rightarrow> (u32 \<Rightarrow> u8)" where
  "copy_entries m d s 0 = m"
| "copy_entries m d s (Suc n) =
     (let m' = copy_entries m d s n in store32 m' (d + 4 * of_nat n) (load32 m' (s + 4 * of_nat n)))"

text \<open>
  The page table for a directory entry: a fresh zeroed one when the entry is not present,
  else the one the entry points to.
\<close>

definition get_table :: "u32 \<Rightarrow> 'z paging_scheme \<Rightarrow> (u32 \<times> 'z paging_scheme) option" where
  "get_table pd_entry s =
     (if load32 (mem s) pd_entry AND 1 = 0 then do {
        (table, s) \<leftarrow> kmalloc_a 4096 s;
        let s = s\<lparr>mem := fill_entries (mem s) table 0 1024\<rparr>;
        Some (table, s\<lparr>mem := store32 (mem s) pd_entry (table OR 7)\<rparr>) }
      else Some (load32 (mem s) pd_entry AND 0xFFFFF000, s))"

definition pte_value :: "u32 \<Rightarrow> u32 \<Rightarrow> u32" where
  "pte_value phys flags = (phys AND 0xFFFFF000) OR (flags OR 1)"

definition paging_map :: "u32 \<Rightarrow> u32 \<Rightarrow> u32 \<Rightarrow> 'z paging_scheme \<Rightarrow> 'z paging_scheme option" where
  "paging_map phys virt flags s = do {
     let pd_entry = kernel_dir s + 4 * pd_index virt;
     (table, s) \<leftarrow> get_table pd_entry s;
     Some (s\<lparr>mem := store32 (mem s) (table + 4 * pt_index virt) (pte_value phys flags)\<rparr>) }"

definition paging_map_4mb :: "u32 \<Rightarrow> u32 \<Rightarrow> u32 \<Rightarrow> 'z paging_scheme \<Rightarrow> 'z paging_scheme" where
  "paging_map_4mb phys virt flags s =
     s\<lparr>mem := store32 (mem s) (kernel_dir s + 4 * pd_index virt) ((phys AND 0xFFC00000) OR 0x80 OR flags OR 1)\<rparr>"

definition switch_page_directory :: "u32 \<Rightarrow> 'z paging_scheme \<Rightarrow> 'z paging_scheme" where
  "switch_page_directory dir s = s\<lparr>current_dir := dir, cr3 := dir\<rparr>"

partial_function (option) map_4mb_range :: "u32 \<Rightarrow> u32 \<Rightarrow> 'z paging_scheme \<Rightarrow> 'z paging_scheme option" where
  "map_4mb_range addr stop s =
     (if addr < stop then map_4mb_range (addr + 0x400000) stop (paging_map_4mb addr addr 3 s) else Some s)"

definition init_paging :: "'z paging_scheme \<Rightarrow> 'z paging_scheme option" where
  "init_paging s = do {
     s \<leftarrow> klog ''[PAGING] Initializing Page Directory...'' s;
     (dir, s) \<leftarrow> kmalloc_a 4096 s;
     let s = s\<lparr>kernel_dir := dir\<rparr>;
     let s = s\<lparr>mem := fill_entries (mem s) (kernel_dir s) 2 1024\<rparr>;
     s \<leftarrow> map_4mb_range 0 0x50400000 s;
     let vesa_addr = video_memory s;
     let vesa_size = (buffer_size_bytes s + 4095) AND NOT 4095;
     let hex = itoa vesa_addr 16;
     msg \<leftarrow> strcat 128 ''[PAGING] Mapping VESA LFB at '' hex;
     msg \<leftarrow> strcat 128 msg '' (4MB Huge Pages)'';
     s \<leftarrow> klog msg s;
     let vesa_aligned = vesa_addr AND 0xFFC00000;
     let vesa_end = (vesa_addr + vesa_size + 0x3FFFFF) AND 0xFFC00000;
     s \<leftarrow> map_4mb_range vesa_aligned vesa_end s;
     let s = switch_page_directory (kernel_dir s) s;
     let s = s\<lparr>paging_on := True\<rparr>;
     klog ''[PAGING] CPU Paging Flag Enabled!'' s }"

definition clone_page_directory :: "'z paging_scheme \<Rightarrow> (u32 \<times> 'z paging_scheme) option" where
  "clone_page_directory s = do {
     (dir, s) \<leftarrow> kmalloc_a 4096 s;
     Some (dir, s\<lparr>mem := copy_entries (mem s) dir (kernel_dir s) 1024\<rparr>) }"

definition paging_map_user :: "u32 \<Rightarrow> u32 \<Rightarrow> u32 \<Rightarrow> u32 \<Rightarrow> 'z paging_scheme \<Rightarrow> 'z paging_scheme option" where
  "paging_map_user dir phys virt flags s = do {
     let pd_entry = dir + 4 * pd_index virt;
     (table, s) \<leftarrow> get_table pd_entry s;
     let pte = table + 4 * pt_index virt;
     if load32 (mem s) pte \<noteq> pte_value phys flags
     then Some (s\<lparr>mem := store32 (mem s) pte (pte_value phys flags), invlpgs := virt # invlpgs s\<rparr>)
     else Some s }"

section \<open>Address translation\<close>

text \<open>
  The walk of the processor: the directory entry, then a 4 MB page when its PS bit is set,
  else the table entry. \<open>None\<close> is a page fault.
\<close>

definition translate :: "(u32 \<Rightarrow> u8) \<Rightarrow> u32 \<Rightarrow> u32 \<Rightarrow> u32 option" where
  "translate m dir virt =
     (let pde = load32 m (dir + 4 * pd_index virt) in
      if pde AND 1 = 0 then None
      else if pde AND 0x80 \<noteq> 0 then Some ((pde AND 0xFFC00000) OR (virt AND 0x3FFFFF))
      else let pte = load32 m ((pde AND 0xFFFFF000) + 4 * pt_index virt) in
        if pte AND 1 = 0 then None else Some ((pte AND 0xFFFFF000) OR (virt AND 0xFFF)))"

section \<open>Entry arithmetic\<close>

lemma pd_index_less: "unat (pd_index virt) < 1024"
proof -
  have "unat (pd_index virt) = unat virt div 2 ^ 22"
    unfolding pd_index_def unat_drop_bit_eq by (simp add: drop_bit_eq_div)
  then show ?thesis using unat_lt32 [of virt] by (simp add: less_mult_imp_div_less)
qed

lemma pt_index_less: "unat (pt_index virt) < 1024"
proof -
  have m: "(0x3FF :: u32) = mask 10" by (simp add: mask_eq_exp_minus_1)
  have "pt_index virt = take_bit 10 (drop_bit 12 virt)"
    unfolding pt_index_def m by (simp add: take_bit_eq_mask)
  then have "unat (pt_index virt) = take_bit 10 (unat (drop_bit 12 virt))"
    by (simp add: unsigned_take_bit_eq)
  then show ?thesis by (simp add: take_bit_eq_mod)
qed

lemma load32_other_nat:
  fixes a x :: u32
  assumes "unat a + 4 \<le> unat x \<or> unat x + 4 \<le> unat a"
    and "unat a \<le> 4294967292" and "unat x \<le> 4294967292"
  shows "load32 (store32 m a v) x = load32 m x"
proof (rule load32_store32_other)
  show "4 \<le> unat (x - a)"
    using assms unat_sub_if_size [of x a] by (auto simp: word_size)
  show "4 \<le> unat (a - x)"
    using assms unat_sub_if_size [of a x] by (auto simp: word_size)
qed

lemma store32_other_nat:
  fixes a x :: u32
  assumes "unat x < unat a \<or> unat a + 4 \<le> unat x" and "unat a \<le> 4294967292"
  shows "store32 m a v x = m x"
proof (rule store32_other)
  show "4 \<le> unat (x - a)"
    using assms unat_lt32 [of x] unat_sub_if_size [of x a] by (auto simp: word_size)
qed

text \<open>A page: 4096 bytes at a multiple of 4096.\<close>

definition page :: "u32 \<Rightarrow> bool" where
  "page t \<longleftrightarrow> unat t mod 4096 = 0"

lemma page_bound: "page t \<Longrightarrow> unat t + 4096 \<le> 4294967296"
proof -
  assume "page t"
  then obtain k where "unat t = 4096 * k" unfolding page_def by (metis mod_0_imp_dvd dvdE)
  then show ?thesis using unat_lt32 [of t] by simp
qed

lemma page_apart:
  assumes "page d" and "page t" and "d \<noteq> t"
  shows "unat d + 4096 \<le> unat t \<or> unat t + 4096 \<le> unat d"
proof -
  obtain j k where "unat d = 4096 * j" "unat t = 4096 * k"
    using assms(1,2) unfolding page_def by (metis mod_0_imp_dvd dvdE)
  moreover have "unat d \<noteq> unat t" using assms(3) by (simp add: word_unat_eq_iff)
  ultimately show ?thesis by auto
qed

lemma entry_addr:
  assumes "page t" and "i < 1024"
  shows "unat (t + 4 * of_nat i) = unat t + 4 * i"
proof -
  have "unat (4 * of_nat i :: u32) = 4 * i"
    using assms(2) unat_of_nat32 [of "4 * i"] by simp
  then show ?thesis using page_bound [OF assms(1)] assms(2) by (subst unat_add_no_wrap32) auto
qed

lemma entry_addr_word:
  assumes "page t" and "unat i < 1024"
  shows "unat (t + 4 * i) = unat t + 4 * unat i"
  using entry_addr [OF assms] by simp

lemma load_fill_entries:
  assumes "page t" and "n \<le> 1024" and "i < 1024"
  shows "load32 (fill_entries m t v n) (t + 4 * of_nat i) = (if i < n then v else load32 m (t + 4 * of_nat i))"
  using assms(2)
proof (induction n)
  case (Suc n)
  show ?case
  proof (cases "i = n")
    case False
    then have "load32 (fill_entries m t v (Suc n)) (t + 4 * of_nat i) = load32 (fill_entries m t v n) (t + 4 * of_nat i)"
      using Suc.prems assms page_bound [OF assms(1)]
      by (simp, intro load32_other_nat) (auto simp: entry_addr)
    then show ?thesis using Suc False by auto
  qed simp
qed simp

lemma fill_entries_other:
  assumes "page t" and "n \<le> 1024" and "unat x < unat t \<or> unat t + 4096 \<le> unat x"
  shows "fill_entries m t v n x = m x"
  using assms(2)
proof (induction n)
  case (Suc n)
  have "fill_entries m t v (Suc n) x = fill_entries m t v n x"
    using Suc.prems assms page_bound [OF assms(1)]
    by (simp, intro store32_other_nat) (auto simp: entry_addr)
  with Suc show ?case by simp
qed simp

lemma load32_cong:
  assumes "m a = m' a" "m (a + 1) = m' (a + 1)" "m (a + 2) = m' (a + 2)" "m (a + 3) = m' (a + 3)"
  shows "load32 m a = load32 m' a"
  using assms by (simp add: load32_def)

lemma load_copy_entries:
  assumes "page d" and "page s" and "d \<noteq> s" and "n \<le> 1024" and "i < 1024"
  shows "load32 (copy_entries m d s n) (d + 4 * of_nat i) = (if i < n then load32 m (s + 4 * of_nat i) else load32 m (d + 4 * of_nat i))"
    and "load32 (copy_entries m d s n) (s + 4 * of_nat i) = load32 m (s + 4 * of_nat i)"
proof -
  have ds: "unat d + 4096 \<le> unat s \<or> unat s + 4096 \<le> unat d" by (rule page_apart [OF assms(1-3)])
  note pb = page_bound [OF assms(1)] page_bound [OF assms(2)]
  have src: "load32 (copy_entries m d s n) (s + 4 * of_nat i) = load32 m (s + 4 * of_nat i)" if "i < 1024" "n \<le> 1024" for i n
    using that(2)
  proof (induction n)
    case (Suc n)
    have "load32 (copy_entries m d s (Suc n)) (s + 4 * of_nat i) = load32 (copy_entries m d s n) (s + 4 * of_nat i)"
      using Suc.prems that(1) assms pb ds
      by (simp add: Let_def, intro load32_other_nat) (auto simp: entry_addr)
    with Suc show ?case by simp
  qed simp
  show "load32 (copy_entries m d s n) (s + 4 * of_nat i) = load32 m (s + 4 * of_nat i)"
    by (rule src [OF assms(5,4)])
  show "load32 (copy_entries m d s n) (d + 4 * of_nat i) = (if i < n then load32 m (s + 4 * of_nat i) else load32 m (d + 4 * of_nat i))"
    using assms(4)
  proof (induction n)
    case (Suc n)
    show ?case
    proof (cases "i = n")
      case True
      then show ?thesis using src [of n n] Suc.prems by (simp add: Let_def)
    next
      case False
      then have "load32 (copy_entries m d s (Suc n)) (d + 4 * of_nat i) = load32 (copy_entries m d s n) (d + 4 * of_nat i)"
        using Suc.prems assms pb by (simp add: Let_def, intro load32_other_nat) (auto simp: entry_addr)
      then show ?thesis using Suc False by auto
    qed
  qed simp
qed

section \<open>Entry values\<close>

lemma frame_mask: "(0xFFFFF000 :: u32) = NOT (mask 12)"
  by (simp add: mask_eq_exp_minus_1)

lemma page_frame:
  assumes "page t"
  shows "t AND 0xFFFFF000 = t"
proof -
  have "unat (t AND NOT (mask 12)) = unat t"
    unfolding unat_align_down using assms by (simp add: page_def)
  then show ?thesis unfolding frame_mask by (rule unsigned_word_eqI)
qed

lemma frame_page: "page (x AND 0xFFFFF000)"
  unfolding page_def frame_mask unat_align_down by (simp add: minus_mod_eq_mult_div)

lemma table_entry:
  assumes "page t"
  shows "(t OR 7) AND 0xFFFFF000 = t" "(t OR 7) AND 1 \<noteq> 0" "(t OR 7) AND 0x80 = 0"
proof -
  have t: "t = t AND 0xFFFFF000" by (rule page_frame [OF assms, symmetric])
  have seven: "(7 :: u32) AND 0xFFFFF000 = 0" "(7 :: u32) AND 0x80 = 0" "(7 :: u32) AND 1 = 1" by simp_all
  have low: "(0xFFFFF000 :: u32) AND 0x80 = 0" "(0xFFFFF000 :: u32) AND 1 = 0" by simp_all
  show "(t OR 7) AND 0xFFFFF000 = t" using t seven by (simp add: bit.conj_disj_distrib2)
  have "t AND 0x80 = 0" "t AND 1 = 0" using low by (subst t, simp only: and.assoc and_zero_eq)+
  then show "(t OR 7) AND 1 \<noteq> 0" "(t OR 7) AND 0x80 = 0" using seven by (simp_all only: bit.conj_disj_distrib2) simp_all
qed

lemma pte_value_frame:
  assumes "unat flags < 4096"
  shows "pte_value phys flags AND 0xFFFFF000 = phys AND 0xFFFFF000" "pte_value phys flags AND 1 \<noteq> 0"
proof -
  have "flags AND 0xFFFFF000 = 0"
    unfolding frame_mask using unat_align_down [of flags 12] assms by (simp add: unat_eq_0 [symmetric])
  moreover have "(1 :: u32) AND 0xFFFFF000 = 0" by simp
  ultimately show "pte_value phys flags AND 0xFFFFF000 = phys AND 0xFFFFF000"
    by (simp add: pte_value_def bit.conj_disj_distrib2 and.assoc)
  have "bit (pte_value phys flags) 0" by (simp add: pte_value_def bit_simps)
  then show "pte_value phys flags AND 1 \<noteq> 0" by (simp add: and_one_eq bit_0 odd_iff_mod_2_eq_one)
qed

section \<open>Well-formed directories\<close>

text \<open>
  A live page is one inside an allocated heap block, as \<^verbatim>\<open>kmalloc_a\<close> returns it (with the four
  bytes below it that hold the back pointer). A directory is well formed when it is a live
  page and its tables are live pages, different from it and from each other.
\<close>

definition live_page :: "ablock list \<Rightarrow> u32 \<Rightarrow> bool" where
  "live_page bs t \<longleftrightarrow> page t \<and>
     (\<exists>p n. (p, n, False) \<in> set bs \<and> unat p + 32 \<le> unat t \<and> unat t + 4096 \<le> unat p + 28 + unat n)"

definition pde :: "(u32 \<Rightarrow> u8) \<Rightarrow> u32 \<Rightarrow> nat \<Rightarrow> u32" where
  "pde m dir i = load32 m (dir + 4 * of_nat i)"

definition has_table :: "(u32 \<Rightarrow> u8) \<Rightarrow> u32 \<Rightarrow> nat \<Rightarrow> bool" where
  "has_table m dir i \<longleftrightarrow> pde m dir i AND 1 \<noteq> 0 \<and> pde m dir i AND 0x80 = 0"

definition table_of :: "(u32 \<Rightarrow> u8) \<Rightarrow> u32 \<Rightarrow> nat \<Rightarrow> u32" where
  "table_of m dir i = pde m dir i AND 0xFFFFF000"

definition dir_ok :: "ablock list \<Rightarrow> (u32 \<Rightarrow> u8) \<Rightarrow> u32 \<Rightarrow> bool" where
  "dir_ok bs m dir \<longleftrightarrow> live_page bs dir \<and>
     (\<forall>i<1024. has_table m dir i \<longrightarrow> live_page bs (table_of m dir i) \<and> table_of m dir i \<noteq> dir) \<and>
     (\<forall>i<1024. \<forall>j<1024. i \<noteq> j \<longrightarrow> has_table m dir i \<longrightarrow> has_table m dir j \<longrightarrow> table_of m dir i \<noteq> table_of m dir j)"

text \<open>An allocated block that holds no page of the directory, and what lies in it.\<close>

definition in_block :: "u32 \<Rightarrow> u32 \<Rightarrow> u32 \<Rightarrow> bool" where
  "in_block q j x \<longleftrightarrow> unat q + 28 \<le> unat x \<and> unat x < unat q + 28 + unat j"

definition off_block :: "u32 \<Rightarrow> u32 \<Rightarrow> u32 \<Rightarrow> bool" where
  "off_block q j t \<longleftrightarrow> unat t + 4096 \<le> unat q + 28 \<or> unat q + 28 + unat j \<le> unat t"

definition secluded :: "ablock list \<Rightarrow> (u32 \<Rightarrow> u8) \<Rightarrow> u32 \<Rightarrow> u32 \<Rightarrow> u32 \<Rightarrow> bool" where
  "secluded bs m dir q j \<longleftrightarrow> (q, j, False) \<in> set bs \<and> off_block q j dir \<and> (\<forall>i<1024. has_table m dir i \<longrightarrow> off_block q j (table_of m dir i))"

text \<open>How mapping a page may change the blocks: not at all, or by one more table.\<close>

definition one_table :: "ablock list \<Rightarrow> ablock list \<Rightarrow> bool" where
  "one_table bs bs' \<longleftrightarrow> (\<exists>p n. (p, n, True) \<in> set bs \<and> 8196 \<le> n \<and> bs' = a_alloc p 8196 bs)"

lemma translate_alt:
  "translate m dir virt =
     (let i = unat (pd_index virt) in
      if pde m dir i AND 1 = 0 then None
      else if pde m dir i AND 0x80 \<noteq> 0 then Some ((pde m dir i AND 0xFFC00000) OR (virt AND 0x3FFFFF))
      else let pte = load32 m (table_of m dir i + 4 * pt_index virt) in
        if pte AND 1 = 0 then None else Some ((pte AND 0xFFFFF000) OR (virt AND 0xFFF)))"
  by (simp add: translate_def pde_def table_of_def Let_def)

text \<open>Two memories with the same directory entries and the same table contents translate alike.\<close>

lemma translate_cong:
  assumes "pde m' dir' i = pde m dir i" and "i = unat (pd_index virt)"
    and "has_table m dir i \<Longrightarrow>
      load32 m' (table_of m dir i + 4 * pt_index virt) = load32 m (table_of m dir i + 4 * pt_index virt)"
  shows "translate m' dir' virt = translate m dir virt"
  using assms unfolding translate_alt table_of_def has_table_def by (auto simp: Let_def)

lemma live_page_page: "live_page bs t \<Longrightarrow> page t"
  by (simp add: live_page_def)

text \<open>A page in a block that was free is apart from every live page, back pointer included.\<close>

lemma live_page_apart:
  assumes wf: "heap_wf bs" and l: "live_page bs t" and p: "(p, n, True) \<in> set bs"
    and a: "unat p + 32 \<le> unat a" "unat a + 4096 \<le> unat p + 28 + unat n"
  shows "unat t + 4096 \<le> unat a - 4 \<or> unat a + 4096 \<le> unat t" and "t \<noteq> a"
proof -
  obtain q m where q: "(q, m, False) \<in> set bs" "unat q + 32 \<le> unat t" "unat t + 4096 \<le> unat q + 28 + unat m"
    using l by (auto simp: live_page_def)
  have "p \<noteq> q" using eq_key_imp_eq_value [OF heap_wf_distinct [OF wf]] p q(1) by fastforce
  from block_ranges_disjoint [OF wf p q(1) this] show "unat t + 4096 \<le> unat a - 4 \<or> unat a + 4096 \<le> unat t"
    using a q by auto
  then show "t \<noteq> a" using a by auto
qed

lemma live_page_alloc:
  assumes wf: "heap_wf bs" and p: "(p, n, True) \<in> set bs" and k: "k \<le> n"
  shows "live_page bs t \<Longrightarrow> live_page (a_alloc p k bs) t"
    and "page a \<Longrightarrow> unat p + 32 \<le> unat a \<Longrightarrow> unat a + 4096 \<le> unat p + 28 + unat k \<Longrightarrow> live_page (a_alloc p k bs) a"
proof -
  obtain m where m: "k \<le> m" "m \<le> n"
    "\<And>q j. (q, j, False) \<in> set (a_alloc p k bs) \<longleftrightarrow> (q, j, False) \<in> set bs \<or> (q = p \<and> j = m)"
    by (rule a_alloc_used [OF wf p k]) blast
  show "live_page bs t \<Longrightarrow> live_page (a_alloc p k bs) t"
    unfolding live_page_def m(3) by blast
  have "unat k \<le> unat m" using m(1) by (simp add: word_le_nat_alt)
  then show "page a \<Longrightarrow> unat p + 32 \<le> unat a \<Longrightarrow> unat a + 4096 \<le> unat p + 28 + unat k \<Longrightarrow> live_page (a_alloc p k bs) a"
    unfolding live_page_def m(3) by (intro conjI exI [of _ p] exI [of _ m]) auto
qed

section \<open>Changing one table entry\<close>

lemma page_load_cong:
  assumes t: "page t" and i: "i < 1024" and eq: "\<And>x. unat t \<le> unat x \<Longrightarrow> unat x < unat t + 4096 \<Longrightarrow> m' x = m x"
  shows "load32 m' (t + 4 * of_nat i) = load32 m (t + 4 * of_nat i)"
proof -
  let ?a = "t + 4 * of_nat i :: u32"
  have a: "unat ?a = unat t + 4 * i" by (rule entry_addr [OF t i])
  have "unat (?a + of_nat j) = unat t + 4 * i + j" if "j < 4" for j
    using that a i page_bound [OF t] unat_of_nat32 [of j] by (subst unat_add_no_wrap32) auto
  then have "m' (?a + of_nat j) = m (?a + of_nat j)" if "j < 4" for j
    using that i by (intro eq) auto
  from this [of 0] this [of 1] this [of 2] this [of 3] show ?thesis by (intro load32_cong) simp_all
qed

lemma store_entry_other_page:
  assumes "page t" and "i < 1024" and "page d" and "d \<noteq> t" and "j < 1024"
  shows "load32 (store32 m (t + 4 * of_nat i) v) (d + 4 * of_nat j) = load32 m (d + 4 * of_nat j)"
  using page_apart [OF assms(3,1,4)] page_bound [OF assms(1)] page_bound [OF assms(3)] assms
  by (intro load32_other_nat) (auto simp: entry_addr)

lemma store_entry_same_page:
  assumes "page t" and "i < 1024" and "j < 1024"
  shows "load32 (store32 m (t + 4 * of_nat i) v) (t + 4 * of_nat j) = (if i = j then v else load32 m (t + 4 * of_nat j))"
proof (cases "i = j")
  case False
  then show ?thesis using page_bound [OF assms(1)] assms
    by (simp, intro load32_other_nat) (auto simp: entry_addr)
qed simp

lemma store_entry_outside:
  assumes "page t" and "i < 1024" and "\<not> (unat t \<le> unat x \<and> unat x < unat t + 4096)"
  shows "store32 m (t + 4 * of_nat i) v x = m x"
proof -
  have a: "unat (t + 4 * of_nat i) = unat t + 4 * i" by (rule entry_addr [OF assms(1,2)])
  have "4 \<le> unat (x - (t + 4 * of_nat i))"
    using assms page_bound [OF assms(1)] a unat_lt32 [of x] unat_sub_if_size [of x "t + 4 * of_nat i"]
    by (auto simp: word_size split: if_splits)
  then show ?thesis by (rule store32_other)
qed

lemma set_pte:
  assumes ok: "dir_ok bs m dir" and i: "i = unat (pd_index virt)" and has: "has_table m dir i"
    and m': "m' = store32 m (table_of m dir i + 4 * pt_index virt) val"
  shows "dir_ok bs m' dir"
    and "translate m' dir v = (if pd_index v = pd_index virt \<and> pt_index v = pt_index virt
      then (if val AND 1 = 0 then None else Some ((val AND 0xFFFFF000) OR (v AND 0xFFF)))
      else translate m dir v)"
proof -
  let ?t = "table_of m dir i" and ?k = "unat (pt_index virt)"
  have i1: "i < 1024" and k1: "?k < 1024" using pd_index_less pt_index_less i by auto
  have dir: "page dir" and t: "page ?t" "dir \<noteq> ?t" and live: "live_page bs ?t"
    using ok has i1 by (auto simp: dir_ok_def live_page_def)
  have m'': "m' = store32 m (?t + 4 * of_nat ?k) val" by (simp add: m')
  have pde: "pde m' dir j = pde m dir j" if "j < 1024" for j
    unfolding pde_def m'' by (rule store_entry_other_page [OF t(1) k1 dir t(2) that])
  then have same: "has_table m' dir j = has_table m dir j" "table_of m' dir j = table_of m dir j" if "j < 1024" for j
    using that by (simp_all add: has_table_def table_of_def)
  show "dir_ok bs m' dir" using ok same by (auto simp: dir_ok_def)
  let ?j = "unat (pd_index v)" and ?l = "unat (pt_index v)"
  have j1: "?j < 1024" and l1: "?l < 1024" using pd_index_less pt_index_less by auto
  have idx: "pd_index v = pd_index virt \<longleftrightarrow> ?j = i" "pt_index v = pt_index virt \<longleftrightarrow> ?l = ?k"
    using i by (simp_all add: word_unat_eq_iff)
  show "translate m' dir v = (if pd_index v = pd_index virt \<and> pt_index v = pt_index virt
      then (if val AND 1 = 0 then None else Some ((val AND 0xFFFFF000) OR (v AND 0xFFF)))
      else translate m dir v)"
  proof (cases "?j = i \<and> ?l = ?k")
    case True
    then have eq: "pd_index v = pd_index virt" "pt_index v = pt_index virt" using idx by auto
    have "load32 m' (?t + 4 * pt_index virt) = val" by (simp add: m')
    then show ?thesis using True eq has same [OF i1] by (simp add: translate_alt has_table_def table_of_def pde [OF i1] Let_def)
  next
    case False
    have "load32 m' (table_of m dir ?j + 4 * pt_index v) = load32 m (table_of m dir ?j + 4 * pt_index v)" if h: "has_table m dir ?j"
    proof (cases "?j = i")
      case True
      then show ?thesis using False store_entry_same_page [OF t(1) k1 l1, of m val] by (simp add: m'')
    next
      case ne: False
      have "page (table_of m dir ?j)" "table_of m dir ?j \<noteq> ?t"
        using ok h has i1 j1 ne by (auto simp: dir_ok_def live_page_def)
      from store_entry_other_page [OF t(1) k1 this l1, of m val] show ?thesis by (simp add: m'')
    qed
    with False idx show ?thesis using translate_cong [OF pde [OF j1] refl] by auto
  qed
qed

section \<open>Finding or making the table\<close>

lemma heap_frame_paging:
  fixes s s' :: "'z paging_scheme"
  assumes "heap_frame (s\<lparr>mem := x\<rparr>) s'"
  shows "kernel_dir s' = kernel_dir s" "current_dir s' = current_dir s" "cr3 s' = cr3 s" "video_memory s' = video_memory s"
    "buffer_size_bytes s' = buffer_size_bytes s" "sys_log s' = sys_log s" "invlpgs s' = invlpgs s"
  using assms by (cases s; cases s'; simp add: heap_frame_def)+

lemma kmalloc_page:
  assumes hok: "heap_ok s bs" and run: "kmalloc_a 4096 s = Some (a, s')" and a: "a \<noteq> NULL"
  obtains bs' p n where "heap_ok s' bs'" "live_page bs' a" "heap_frame (s\<lparr>mem := mem s'\<rparr>) s'"
    "(p, n, True) \<in> set bs" "8196 \<le> n" "bs' = a_alloc p 8196 bs" "unat p + 32 \<le> unat a" "unat a + 4096 \<le> unat p + 28 + unat n"
    "\<And>t. live_page bs t \<Longrightarrow> live_page bs' t \<and> t \<noteq> a \<and> (unat t + 4096 \<le> unat a - 4 \<or> unat a + 4096 \<le> unat t)"
    "\<And>x. unat x < unat a - 4 \<or> unat a \<le> unat x \<Longrightarrow> mem s' x = mem s x"
proof -
  have k: "unat (4096 :: u32) + 4100 \<le> 0xFFFFFFFC" by simp
  have wf: "heap_wf bs" using hok by (simp add: heap_ok_def)
  show ?thesis
  proof (rule kmalloc_a_spec [OF hok k])
    assume "kmalloc_a 4096 s = Some (NULL, s)"
    then show ?thesis using run a by simp
  next
    fix p n b t assume t: "kmalloc_a 4096 s = Some (b, t)" "(p, n, True) \<in> set bs" "round_size (4096 + 4096 + 4) \<le> n"
      "heap_ok t (a_alloc p (round_size (4096 + 4096 + 4)) bs)" "unat b mod 4096 = 0" "unat p + 28 + 4 \<le> unat b"
      "unat b + unat (4096 :: u32) \<le> unat p + 28 + unat (round_size (4096 + 4096 + 4))"
      "heap_frame (s\<lparr>mem := mem t\<rparr>) t" "\<forall>x. 4 \<le> unat (x - (b - 4)) \<longrightarrow> mem t x = mem s x"
    have eq: "b = a" "t = s'" using run t(1) by auto
    have n: "unat (round_size (4096 + 4096 + 4)) \<le> unat n" using t(3) by (simp add: word_le_nat_alt)
    have pa: "page a" using t(5) eq by (simp add: page_def)
    have lo: "unat p + 32 \<le> unat a" and hi: "unat a + 4096 \<le> unat p + 28 + unat (round_size (4096 + 4096 + 4))"
      using t(6,7) eq by auto
    have b4: "unat (a - 4) = unat a - 4" using lo by (intro unat_sub32 [of 4 a, simplified]) auto
    have "4 \<le> unat (x - (a - 4))" if "unat x < unat a - 4 \<or> unat a \<le> unat x" for x
      using that b4 unat_lt32 [of x] unat_lt32 [of a] unat_sub_if_size [of x "a - 4"] lo
      by (auto simp: word_size split: if_splits)
    then have "mem s' x = mem s x" if "unat x < unat a - 4 \<or> unat a \<le> unat x" for x
      using t(9) eq that by simp
    moreover have "round_size (4096 + 4096 + 4) = 8196" by (simp add: round_size_def)
    ultimately show ?thesis
      using t(2-4,8) eq live_page_alloc [OF wf t(2,3)] pa lo hi live_page_apart [OF wf _ t(2), of _ a] n
      by (intro that [of "a_alloc p 8196 bs" p n]) auto
  qed
qed

lemma get_table_ok:
  fixes s :: "'z paging_scheme"
  assumes hok: "heap_ok s bs" and ok: "dir_ok bs (mem s) dir" and i: "i < 1024"
    and small: "pde (mem s) dir i AND 1 \<noteq> 0 \<Longrightarrow> pde (mem s) dir i AND 0x80 = 0"
    and room: "pde (mem s) dir i AND 1 = 0 \<Longrightarrow> \<exists>a s'. kmalloc_a 4096 s = Some (a, s') \<and> a \<noteq> NULL"
  obtains t s' bs' where "get_table (dir + 4 * of_nat i) s = Some (t, s')" "heap_ok s' bs'" "dir_ok bs' (mem s') dir"
    "has_table (mem s') dir i" "table_of (mem s') dir i = t" "\<And>v. translate (mem s') dir v = translate (mem s) dir v"
    "kernel_dir s' = kernel_dir s"
    "bs' = bs \<and> pde (mem s) dir i AND 1 \<noteq> 0 \<or> one_table bs bs' \<and> pde (mem s) dir i AND 1 = 0"
    "\<And>k. k < 1024 \<Longrightarrow> k \<noteq> i \<Longrightarrow> pde (mem s') dir k = pde (mem s) dir k"
    "\<And>q j. secluded bs (mem s) dir q j \<Longrightarrow> secluded bs' (mem s') dir q j \<and> (\<forall>x. in_block q j x \<longrightarrow> mem s' x = mem s x)"
proof (cases "pde (mem s) dir i AND 1 = 0")
  case False
  then show ?thesis
    using assms by (intro that [of "table_of (mem s) dir i" s bs]) (auto simp: get_table_def pde_def table_of_def has_table_def)
next
  case True
  then obtain a s1 where a: "kmalloc_a 4096 s = Some (a, s1)" "a \<noteq> NULL" using room by blast
  obtain bs' p n where b: "heap_ok s1 bs'" "live_page bs' a" "heap_frame (s\<lparr>mem := mem s1\<rparr>) s1"
    and pn: "(p, n, True) \<in> set bs" "8196 \<le> n" "bs' = a_alloc p 8196 bs" "unat p + 32 \<le> unat a" "unat a + 4096 \<le> unat p + 28 + unat n"
    and keep: "\<And>t. live_page bs t \<Longrightarrow> live_page bs' t \<and> t \<noteq> a \<and> (unat t + 4096 \<le> unat a - 4 \<or> unat a + 4096 \<le> unat t)"
    and mem1: "\<And>x. unat x < unat a - 4 \<or> unat a \<le> unat x \<Longrightarrow> mem s1 x = mem s x"
    by (rule kmalloc_page [OF hok a]) (rule that)
  have pa: "page a" by (rule live_page_page [OF b(2)])
  have ldir: "live_page bs dir" using ok by (simp add: dir_ok_def)
  then have dir: "page dir" "dir \<noteq> a" using keep by (auto simp: live_page_def)
  define m1 where "m1 = fill_entries (mem s1) a 0 1024"
  define m2 where "m2 = store32 m1 (dir + 4 * of_nat i) (a OR 7)"
  have old: "load32 m1 (t + 4 * of_nat j) = load32 (mem s) (t + 4 * of_nat j)" if "live_page bs t" "j < 1024" for t j
  proof (rule page_load_cong [OF live_page_page [OF that(1)] that(2)])
    fix x :: u32 assume "unat t \<le> unat x" "unat x < unat t + 4096"
    then have "unat x < unat a - 4 \<or> unat a + 4096 \<le> unat x" using keep [OF that(1)] by auto
    then show "m1 x = mem s x"
      unfolding m1_def using mem1 [of x] by (subst fill_entries_other [OF pa]) auto
  qed
  have pde2: "pde m2 dir j = (if j = i then a OR 7 else pde (mem s) dir j)" if "j < 1024" for j
    unfolding pde_def m2_def store_entry_same_page [OF dir(1) i that] using old [OF ldir that] by auto
  have tab2: "load32 m2 (t + 4 * of_nat k) = load32 m1 (t + 4 * of_nat k)" if "page t" "t \<noteq> dir" "k < 1024" for t k
    unfolding m2_def by (rule store_entry_other_page [OF dir(1) i that])
  have hast: "has_table m2 dir j = (if j = i then True else has_table (mem s) dir j)"
    and tof: "table_of m2 dir j = (if j = i then a else table_of (mem s) dir j)" if "j < 1024" for j
    using pde2 [OF that] table_entry [OF pa] by (auto simp: has_table_def table_of_def)
  have nh: "\<not> has_table (mem s) dir i" using True by (simp add: has_table_def)
  have tabs: "live_page bs (table_of (mem s) dir j)" "table_of (mem s) dir j \<noteq> dir" if "has_table (mem s) dir j" "j < 1024" for j
    using ok that by (auto simp: dir_ok_def)
  have ok2: "dir_ok bs' m2 dir"
    unfolding dir_ok_def
  proof (intro conjI allI impI)
    show "live_page bs' dir" using keep ldir by blast
    fix j :: nat assume j: "j < 1024" "has_table m2 dir j"
    show "live_page bs' (table_of m2 dir j)" "table_of m2 dir j \<noteq> dir"
      using j tabs keep b(2) dir(2) by (cases "j = i"; auto simp: hast tof)+
    fix k :: nat assume k: "k < 1024" "j \<noteq> k" "has_table m2 dir k"
    show "table_of m2 dir j \<noteq> table_of m2 dir k"
      using j k tabs keep ok by (cases "j = i"; cases "k = i") (auto simp: hast tof dir_ok_def)
  qed
  have trans: "translate m2 dir v = translate (mem s) dir v" for v
  proof (cases "unat (pd_index v) = i")
    case v: True
    have "load32 m2 (a + 4 * of_nat (unat (pt_index v))) = 0"
      using tab2 [OF pa dir(2) [symmetric] pt_index_less [of v]] load_fill_entries [OF pa order_refl pt_index_less [of v]]
        pt_index_less [of v] by (simp add: m1_def)
    then show ?thesis using v True i table_entry [OF pa] by (simp add: translate_alt Let_def pde2 tof)
  next
    case v: False
    let ?j = "unat (pd_index v)"
    have "load32 m2 (table_of (mem s) dir ?j + 4 * pt_index v) = load32 (mem s) (table_of (mem s) dir ?j + 4 * pt_index v)"
      if h: "has_table (mem s) dir ?j"
      using tab2 [OF live_page_page [OF tabs(1) [OF h pd_index_less]] tabs(2) [OF h pd_index_less] pt_index_less [of v]]
        old [OF tabs(1) [OF h pd_index_less] pt_index_less [of v]] by simp
    then show ?thesis using translate_cong [of m2 dir ?j "mem s" dir v] pde2 [OF pd_index_less [of v]] v by auto
  qed
  have wf: "heap_wf bs" using hok by (simp add: heap_ok_def)
  have priv: "secluded bs' m2 dir q j \<and> (\<forall>x. in_block q j x \<longrightarrow> m2 x = mem s x)" if pr: "secluded bs (mem s) dir q j" for q j
  proof -
    have q: "(q, j, False) \<in> set bs" "off_block q j dir" using pr by (auto simp: secluded_def)
    have "p \<noteq> q" using eq_key_imp_eq_value [OF heap_wf_distinct [OF wf]] pn(1) q(1) by fastforce
    then have sep: "unat p + 28 + unat n \<le> unat q \<or> unat q + 28 + unat j \<le> unat p" using block_ranges_disjoint [OF wf pn(1) q(1)] by auto
    then have oa: "off_block q j a" using pn(4,5) by (auto simp: off_block_def)
    have "(q, j, False) \<in> set bs'" unfolding pn(3) by (rule a_alloc_used [OF wf pn(1,2)]) (use q(1) in blast)
    then have "secluded bs' m2 dir q j" using pr oa hast tof by (auto simp: secluded_def)
    moreover have "m2 x = mem s x" if x: "in_block q j x" for x
    proof -
      have "unat x < unat a - 4 \<or> unat a + 4096 \<le> unat x" using x sep pn(4,5) by (auto simp: in_block_def)
      then have "m1 x = mem s x" unfolding m1_def using mem1 [of x] by (subst fill_entries_other [OF pa]) auto
      moreover have "\<not> (unat dir \<le> unat x \<and> unat x < unat dir + 4096)" using q(2) x by (auto simp: off_block_def in_block_def)
      then have "m2 x = m1 x" unfolding m2_def by (rule store_entry_outside [OF dir(1) i])
      ultimately show ?thesis by simp
    qed
    ultimately show ?thesis by blast
  qed
  have "get_table (dir + 4 * of_nat i) s = Some (a, s1\<lparr>mem := m2\<rparr>)"
    using True a by (simp add: get_table_def pde_def m1_def m2_def)
  moreover have "one_table bs bs'" using pn by (auto simp: one_table_def)
  ultimately show ?thesis
    using b(1) ok2 trans hast [OF i] tof [OF i] heap_frame_paging [OF b(3)] pde2 True priv
    by (intro that [of a "s1\<lparr>mem := m2\<rparr>" bs']) (auto split: if_splits)
qed

section \<open>Mapping a page\<close>

lemma paging_map_user_ok:
  fixes s :: "'z paging_scheme"
  assumes hok: "heap_ok s bs" and ok: "dir_ok bs (mem s) dir" and flags: "unat flags < 4096"
    and small: "pde (mem s) dir (unat (pd_index virt)) AND 1 \<noteq> 0 \<Longrightarrow> pde (mem s) dir (unat (pd_index virt)) AND 0x80 = 0"
    and room: "pde (mem s) dir (unat (pd_index virt)) AND 1 = 0 \<Longrightarrow> \<exists>a s'. kmalloc_a 4096 s = Some (a, s') \<and> a \<noteq> NULL"
  obtains s' bs' where "paging_map_user dir phys virt flags s = Some s'" "heap_ok s' bs'" "dir_ok bs' (mem s') dir"
    "\<And>v. translate (mem s') dir v = (if pd_index v = pd_index virt \<and> pt_index v = pt_index virt
      then Some ((phys AND 0xFFFFF000) OR (v AND 0xFFF)) else translate (mem s) dir v)"
    "bs' = bs \<and> pde (mem s) dir (unat (pd_index virt)) AND 1 \<noteq> 0 \<or> one_table bs bs' \<and> pde (mem s) dir (unat (pd_index virt)) AND 1 = 0"
    "has_table (mem s') dir (unat (pd_index virt))"
    "\<And>k. k < 1024 \<Longrightarrow> k \<noteq> unat (pd_index virt) \<Longrightarrow> pde (mem s') dir k = pde (mem s) dir k"
    "\<And>q j. secluded bs (mem s) dir q j \<Longrightarrow> secluded bs' (mem s') dir q j \<and> (\<forall>x. in_block q j x \<longrightarrow> mem s' x = mem s x)"
proof -
  let ?i = "unat (pd_index virt)"
  obtain t s1 bs1 where g: "get_table (dir + 4 * of_nat ?i) s = Some (t, s1)" "heap_ok s1 bs1" "dir_ok bs1 (mem s1) dir"
    "has_table (mem s1) dir ?i" "table_of (mem s1) dir ?i = t" "\<And>v. translate (mem s1) dir v = translate (mem s) dir v"
    and bs1: "bs1 = bs \<and> pde (mem s) dir ?i AND 1 \<noteq> 0 \<or> one_table bs bs1 \<and> pde (mem s) dir ?i AND 1 = 0"
    and others: "\<And>k. k < 1024 \<Longrightarrow> k \<noteq> ?i \<Longrightarrow> pde (mem s1) dir k = pde (mem s) dir k"
    and priv: "\<And>q j. secluded bs (mem s) dir q j \<Longrightarrow> secluded bs1 (mem s1) dir q j \<and> (\<forall>x. in_block q j x \<longrightarrow> mem s1 x = mem s x)"
    by (rule get_table_ok [OF hok ok pd_index_less small room], assumption, assumption, rule that)
  define m2 where "m2 = store32 (mem s1) (t + 4 * pt_index virt) (pte_value phys flags)"
  note set = set_pte [OF g(3) refl g(4), of m2 "pte_value phys flags", unfolded g(5), OF m2_def]
  have tr: "translate m2 dir v = (if pd_index v = pd_index virt \<and> pt_index v = pt_index virt
      then Some ((phys AND 0xFFFFF000) OR (v AND 0xFFF)) else translate (mem s) dir v)" for v
    using set(2) [of v] g(6) [of v] pte_value_frame [OF flags, of phys] by simp
  show ?thesis
  proof (cases "load32 (mem s1) (t + 4 * pt_index virt) = pte_value phys flags")
    case False
    have t: "page t" "dir \<noteq> t" "page dir" using g(3-5) pd_index_less [of virt] by (auto simp: dir_ok_def live_page_def)
    have pde2: "pde m2 dir k = pde (mem s1) dir k" if "k < 1024" for k
      using store_entry_other_page [OF t(1) pt_index_less t(3,2) that, of "mem s1" virt] by (simp add: pde_def m2_def)
    then have same: "has_table m2 dir k = has_table (mem s1) dir k" "table_of m2 dir k = table_of (mem s1) dir k" if "k < 1024" for k
      using that by (simp_all add: has_table_def table_of_def)
    have "secluded bs1 m2 dir q j \<and> (\<forall>x. in_block q j x \<longrightarrow> m2 x = mem s x)" if pr: "secluded bs (mem s) dir q j" for q j
    proof -
      have p1: "secluded bs1 (mem s1) dir q j" "\<And>x. in_block q j x \<Longrightarrow> mem s1 x = mem s x" using priv [OF pr] by auto
      have "off_block q j t" using p1(1) g(4,5) pd_index_less [of virt] by (auto simp: secluded_def)
      then have "m2 x = mem s1 x" if "in_block q j x" for x
        using store_entry_outside [OF t(1) pt_index_less, of x "mem s1" virt] that by (auto simp: m2_def off_block_def in_block_def)
      then show ?thesis using p1 same by (auto simp: secluded_def)
    qed
    then show ?thesis
      using g(1,2) set(1) tr bs1 others pde2 same g(4) pd_index_less [of virt] False
      by (intro that [of "s1\<lparr>mem := m2, invlpgs := virt # invlpgs s1\<rparr>" bs1])
        (auto simp: paging_map_user_def m2_def heap_ok_def heap_rel_def)
  next
    case True
    have "translate (mem s1) dir v = translate m2 dir v" for v
    proof (cases "pd_index v = pd_index virt \<and> pt_index v = pt_index virt")
      case same: True
      then show ?thesis using set(2) [of v] True g(4,5) pte_value_frame [OF flags, of phys]
        by (simp add: translate_alt has_table_def Let_def)
    next
      case False
      then show ?thesis using set(2) [of v] by auto
    qed
    then show ?thesis
      using g(1-4) tr True bs1 others priv by (intro that [of s1 bs1]) (simp_all add: paging_map_user_def)
  qed
qed

section \<open>Cloning the kernel directory\<close>

lemma clone_page_directory_ok:
  fixes s :: "'z paging_scheme"
  assumes hok: "heap_ok s bs" and ok: "dir_ok bs (mem s) (kernel_dir s)"
    and run: "kmalloc_a 4096 s = Some (a, s1)" "a \<noteq> NULL"
  obtains s' bs' where "clone_page_directory s = Some (a, s')" "heap_ok s' bs'" "dir_ok bs' (mem s') a"
    "dir_ok bs' (mem s') (kernel_dir s)" "kernel_dir s' = kernel_dir s"
    "\<And>v. translate (mem s') a v = translate (mem s) (kernel_dir s) v"
    "\<And>v. translate (mem s') (kernel_dir s) v = translate (mem s) (kernel_dir s) v"
proof -
  let ?k = "kernel_dir s"
  obtain bs' p n where b: "heap_ok s1 bs'" "live_page bs' a" "heap_frame (s\<lparr>mem := mem s1\<rparr>) s1"
    and pn: "(p, n, True) \<in> set bs" "8196 \<le> n" "bs' = a_alloc p 8196 bs" "unat p + 32 \<le> unat a" "unat a + 4096 \<le> unat p + 28 + unat n"
    and keep: "\<And>t. live_page bs t \<Longrightarrow> live_page bs' t \<and> t \<noteq> a \<and> (unat t + 4096 \<le> unat a - 4 \<or> unat a + 4096 \<le> unat t)"
    and mem1: "\<And>x. unat x < unat a - 4 \<or> unat a \<le> unat x \<Longrightarrow> mem s1 x = mem s x"
    by (rule kmalloc_page [OF hok run]) (rule that)
  have pa: "page a" by (rule live_page_page [OF b(2)])
  have lk: "live_page bs ?k" using ok by (simp add: dir_ok_def)
  have pk: "page ?k" "a \<noteq> ?k" using keep [OF lk] live_page_page [OF lk] by auto
  have k1: "kernel_dir s1 = ?k" using heap_frame_paging [OF b(3)] by simp
  define m2 where "m2 = copy_entries (mem s1) a ?k 1024"
  have out: "m2 x = mem s1 x" if "unat x < unat a \<or> unat a + 4096 \<le> unat x" for x
  proof -
    have "copy_entries (mem s1) a ?k n x = mem s1 x" if "n \<le> 1024" for n
      using that
    proof (induction n)
      case (Suc n)
      then show ?case using \<open>unat x < unat a \<or> unat a + 4096 \<le> unat x\<close> page_bound [OF pa]
        by (simp add: Let_def) (subst store32_other_nat; auto simp: entry_addr [OF pa])
    qed simp
    then show ?thesis by (simp add: m2_def)
  qed
  have old: "load32 m2 (t + 4 * of_nat j) = load32 (mem s) (t + 4 * of_nat j)" if "live_page bs t" "j < 1024" for t j
  proof (rule page_load_cong [OF live_page_page [OF that(1)] that(2)])
    fix x :: u32 assume "unat t \<le> unat x" "unat x < unat t + 4096"
    then have "unat x < unat a - 4 \<or> unat a + 4096 \<le> unat x" using keep [OF that(1)] by auto
    then have "unat x < unat a \<or> unat a + 4096 \<le> unat x" "unat x < unat a - 4 \<or> unat a \<le> unat x" by linarith+
    then show "m2 x = mem s x" using mem1 [of x] out [of x] by simp
  qed
  have k_pde: "pde m2 ?k j = pde (mem s) ?k j" if "j < 1024" for j
    unfolding pde_def by (rule old [OF lk that])
  have a_pde: "pde m2 a j = pde (mem s) ?k j" if "j < 1024" for j
  proof -
    have "pde m2 a j = load32 (mem s1) (?k + 4 * of_nat j)"
      unfolding pde_def m2_def load_copy_entries(1) [OF pa pk order_refl that] using that by simp
    moreover have "load32 (mem s1) (?k + 4 * of_nat j) = load32 m2 (?k + 4 * of_nat j)"
      unfolding m2_def load_copy_entries(2) [OF pa pk order_refl that] ..
    ultimately show ?thesis using k_pde [OF that] by (simp add: pde_def)
  qed
  have tabs: "live_page bs (table_of (mem s) ?k j)" if "has_table (mem s) ?k j" "j < 1024" for j
    using ok that by (auto simp: dir_ok_def)
  have tr: "translate m2 d v = translate (mem s) ?k v" if "\<And>j. j < 1024 \<Longrightarrow> pde m2 d j = pde (mem s) ?k j" for d v
    by (rule translate_cong [OF that [OF pd_index_less] refl])
      (use old [OF tabs pt_index_less [of v]] pd_index_less in simp)
  have dirs: "dir_ok bs' m2 d" if "\<And>j. j < 1024 \<Longrightarrow> pde m2 d j = pde (mem s) ?k j" "d = a \<or> d = ?k" for d
    using ok that(2) keep b(2) unfolding dir_ok_def has_table_def table_of_def
    by (auto simp: that(1))
  have "clone_page_directory s = Some (a, s1\<lparr>mem := m2\<rparr>)"
    using run k1 by (simp add: clone_page_directory_def m2_def)
  then show ?thesis
    using b(1) k1 tr [of a] tr [of ?k] dirs [of a] dirs [of ?k] a_pde k_pde
    by (intro that [of "s1\<lparr>mem := m2\<rparr>" bs']) auto
qed

section \<open>The initial directory\<close>

lemma big_mask: "(0xFFC00000 :: u32) = NOT (mask 22)" "(0x3FFFFF :: u32) = mask 22"
  by (simp_all add: mask_eq_exp_minus_1)

definition big_addr :: "nat \<Rightarrow> u32" where
  "big_addr j = of_nat (j * 0x400000)"

lemma big_addr_Suc: "big_addr k + 0x400000 = big_addr (Suc k)"
  by (simp add: big_addr_def)

definition big_pde :: "nat \<Rightarrow> u32" where
  "big_pde j = (big_addr j AND 0xFFC00000) OR 0x80 OR 3 OR 1"

lemma unat_big: "j < 1024 \<Longrightarrow> unat (big_addr j :: u32) = j * 0x400000"
  unfolding big_addr_def by (rule unat_of_nat32) simp

lemma pd_index_unat: "unat (pd_index v) = unat v div 0x400000"
  unfolding pd_index_def unat_drop_bit_eq by (simp add: drop_bit_eq_div)

lemma map_4mb_range_ok:
  fixes s :: "'z paging_scheme"
  assumes "page (kernel_dir s)" and "k \<le> n" and "n \<le> 1023"
  shows "\<exists>m'. map_4mb_range (big_addr k) (big_addr n) s = Some (s\<lparr>mem := m'\<rparr>) \<and>
    (\<forall>j<1024. pde m' (kernel_dir s) j = (if k \<le> j \<and> j < n then big_pde j else pde (mem s) (kernel_dir s) j))"
  using assms
proof (induction "n - k" arbitrary: k s)
  case 0
  then have "k = n" by simp
  then show ?case by (intro exI [of _ "mem s"]) (auto simp: map_4mb_range.simps)
next
  case (Suc d)
  let ?a = "big_addr k :: u32"
  let ?s = "paging_map_4mb ?a ?a 3 s"
  have k: "k < n" "k < 1024" using Suc by auto
  have d: "d = n - Suc k" using Suc.hyps(2) by linarith
  have ua: "unat ?a = k * 0x400000" using unat_big [of k] k by simp
  have un: "unat (big_addr n :: u32) = n * 0x400000" using unat_big [of n] Suc.prems by simp
  have lt: "?a < big_addr n" unfolding word_less_nat_alt ua un using k by simp
  have nxt: "?a + 0x400000 = big_addr (Suc k)" by (rule big_addr_Suc)
  have "pd_index ?a = of_nat k"
    unfolding word_unat_eq_iff pd_index_unat ua using k by (simp add: unat_of_nat32)
  then have s: "?s = s\<lparr>mem := store32 (mem s) (kernel_dir s + 4 * of_nat k) (big_pde k)\<rparr>"
    by (simp add: paging_map_4mb_def big_pde_def)
  have page: "page (kernel_dir ?s)" using Suc.prems by (simp add: paging_map_4mb_def)
  obtain m' where m': "map_4mb_range (big_addr (Suc k)) (big_addr n) ?s = Some (?s\<lparr>mem := m'\<rparr>)"
    "\<forall>j<1024. pde m' (kernel_dir ?s) j = (if Suc k \<le> j \<and> j < n then big_pde j else pde (mem ?s) (kernel_dir ?s) j)"
    using Suc.hyps(1) [OF d page _ Suc.prems(3)] k by auto
  have "map_4mb_range ?a (big_addr n) s = Some (s\<lparr>mem := m'\<rparr>)"
    using m'(1) lt nxt by (subst map_4mb_range.simps) (simp add: s)
  moreover have "pde m' (kernel_dir s) j = (if k \<le> j \<and> j < n then big_pde j else pde (mem s) (kernel_dir s) j)" if "j < 1024" for j
    using m'(2) that store_entry_same_page [OF Suc.prems(1) k(2) that] k
    by (cases "j = k") (auto simp: s pde_def)
  ultimately show ?case by blast
qed

lemma big_pde_bits:
  assumes "j < 1024"
  shows "big_pde j AND 1 \<noteq> 0" "big_pde j AND 0x80 \<noteq> 0" "unat (big_pde j AND 0xFFC00000) = j * 0x400000"
proof -
  let ?b = "big_addr j :: u32"
  have b: "?b AND 0xFFC00000 = ?b"
  proof -
    have "unat (?b AND NOT (mask 22)) = unat ?b"
      unfolding unat_align_down unat_big [OF assms] by simp
    then show ?thesis unfolding big_mask by (rule unsigned_word_eqI)
  qed
  have c: "(0x80 OR 3 OR 1 :: u32) = 0x83" by simp
  have e: "big_pde j = ?b OR 0x83" unfolding big_pde_def b c [symmetric] by (simp add: or.assoc)
  have "(0x83 :: u32) AND 0xFFC00000 = 0" by simp
  then show "unat (big_pde j AND 0xFFC00000) = j * 0x400000"
    unfolding e bit.conj_disj_distrib2 b using unat_big [OF assms] by simp
  have "bit (big_pde j) 0" "bit (big_pde j) 7" unfolding e by (simp_all add: bit_or_iff)
  then have "bit (big_pde j AND 1) 0" "bit (big_pde j AND 0x80) 7" by (simp_all add: bit_and_iff)
  then show "big_pde j AND 1 \<noteq> 0" "big_pde j AND 0x80 \<noteq> 0" by (metis bit_0_eq bot_apply bot_bool_def)+
qed

lemma translate_big:
  assumes "pde m dir (unat (pd_index v)) = big_pde (unat (pd_index v))"
  shows "translate m dir v = Some v"
proof -
  let ?j = "unat (pd_index v)"
  note b = big_pde_bits [OF pd_index_less [of v]]
  have "unat (v AND NOT (mask 22)) = ?j * 0x400000"
    unfolding unat_align_down pd_index_unat by (simp add: minus_mod_eq_div_mult)
  then have "big_pde ?j AND 0xFFC00000 = v AND 0xFFC00000"
    using b(3) unfolding big_mask by (simp only: word_unat_eq_iff)
  moreover have "(v AND 0xFFC00000) OR (v AND 0x3FFFFF) = v"
    unfolding big_mask by (rule bit_eqI) (auto simp: bit_simps)
  ultimately show ?thesis using b assms by (simp add: translate_alt Let_def)
qed

lemma init_paging_ok:
  fixes s :: "'z paging_scheme"
  assumes hok: "heap_ok s bs" and log: "length (sys_log s) < 64000"
    and room: "\<exists>p n. (p, n, True) \<in> set bs \<and> 8196 \<le> n"
  obtains s' where "init_paging s = Some s'" "\<exists>p n. (p, n, True) \<in> set bs \<and> 8196 \<le> n \<and>
       heap_ok s' (a_alloc p 8196 bs) \<and> dir_ok (a_alloc p 8196 bs) (mem s') (kernel_dir s')"
    "\<And>j. j < 1024 \<Longrightarrow> pde (mem s') (kernel_dir s') j =
       (if j < 321 \<or> unat (video_memory s AND 0xFFC00000) div 0x400000 \<le> j \<and>
          j < unat ((video_memory s + ((buffer_size_bytes s + 4095) AND NOT 4095) + 0x3FFFFF) AND 0xFFC00000) div 0x400000
        then big_pde j else 2)"
    "\<And>v. unat v < 0x50400000 \<Longrightarrow> translate (mem s') (kernel_dir s') v = Some v"
    "\<And>v. unat (video_memory s AND 0xFFC00000) \<le> unat v \<Longrightarrow>
       v < (video_memory s + ((buffer_size_bytes s + 4095) AND NOT 4095) + 0x3FFFFF) AND 0xFFC00000 \<Longrightarrow>
       translate (mem s') (kernel_dir s') v = Some v"
    "current_dir s' = kernel_dir s'" "cr3 s' = kernel_dir s'" "paging_on s'" "length (sys_log s') < 64000"
proof -
  obtain l1 where l1: "klog ''[PAGING] Initializing Page Directory...'' s = Some (s\<lparr>sys_log := l1\<rparr>)" "length l1 < 64000"
    using klog_Some [OF log, of "''[PAGING] Initializing Page Directory...''"] by auto
  define s1 where "s1 = s\<lparr>sys_log := l1\<rparr>"
  have hok1: "heap_ok s1 bs" using hok by (simp add: s1_def heap_ok_def heap_rel_def)
  have "\<exists>a t. kmalloc_a 4096 s1 = Some (a, t) \<and> a \<noteq> NULL"
  proof (rule kmalloc_a_spec [OF hok1, of 4096])
    assume "\<And>p n. (p, n, True) \<in> set bs \<Longrightarrow> n < round_size (4096 + 4096 + 4)"
    then show ?thesis using room by (fastforce simp: round_size_def)
  qed auto
  then obtain a s2 where a: "kmalloc_a 4096 s1 = Some (a, s2)" "a \<noteq> NULL" by blast
  obtain bs' p n where b: "heap_ok s2 bs'" "live_page bs' a" "heap_frame (s1\<lparr>mem := mem s2\<rparr>) s2"
    and pn: "(p, n, True) \<in> set bs" "8196 \<le> n" "bs' = a_alloc p 8196 bs"
    by (rule kmalloc_page [OF hok1 a])
  have pa: "page a" by (rule live_page_page [OF b(2)])
  note fr = heap_frame_paging [OF b(3)]
  define s3 where "s3 = s2\<lparr>kernel_dir := a, mem := fill_entries (mem s2) a 2 1024\<rparr>"
  have k3: "kernel_dir s3 = a" by (simp add: s3_def)
  have p3: "pde (mem s3) a j = 2" if "j < 1024" for j
    using that by (simp add: pde_def s3_def load_fill_entries [OF pa])
  obtain m4 where m4: "map_4mb_range (big_addr 0) (big_addr 321) s3 = Some (s3\<lparr>mem := m4\<rparr>)"
    "\<And>j. j < 1024 \<Longrightarrow> pde m4 (kernel_dir s3) j = (if 0 \<le> j \<and> j < 321 then big_pde j else pde (mem s3) (kernel_dir s3) j)"
    using map_4mb_range_ok [of s3 0 321] k3 pa by auto
  define s4 where "s4 = s3\<lparr>mem := m4\<rparr>"
  let ?va = "video_memory s" and ?vs = "(buffer_size_bytes s + 4095) AND NOT 4095"
  define msg where "msg = ''[PAGING] Mapping VESA LFB at '' @ itoa ?va 16 @ '' (4MB Huge Pages)''"
  have len: "length (itoa ?va 16) \<le> 8" using unat_lt32 [of ?va] by (intro length_itoa_le) simp_all
  have "length (sys_log s4) < 64000" using fr l1(2) by (simp add: s4_def s3_def s1_def)
  then obtain l5 where l5: "klog msg s4 = Some (s4\<lparr>sys_log := l5\<rparr>)" "length l5 < 64000"
    using klog_Some [of s4 msg] len by (auto simp: msg_def)
  define s5 where "s5 = s4\<lparr>sys_log := l5\<rparr>"
  define vk where "vk = unat (?va AND 0xFFC00000) div 0x400000"
  define vn where "vn = unat ((?va + ?vs + 0x3FFFFF) AND 0xFFC00000) div 0x400000"
  have al: "x AND 0xFFC00000 = big_addr (unat (x AND 0xFFC00000) div 0x400000)"
    "unat (x AND 0xFFC00000) div 0x400000 \<le> 1023" for x :: u32
  proof -
    let ?y = "x AND 0xFFC00000"
    have y: "unat ?y = unat x - unat x mod 0x400000" unfolding big_mask unat_align_down by simp
    then have d: "unat ?y div 0x400000 * 0x400000 = unat ?y" by (simp add: minus_mod_eq_mult_div)
    then show "?y = big_addr (unat ?y div 0x400000)" unfolding big_addr_def by (subst d) simp
    have "unat ?y div 0x400000 < 1024" using unat_lt32 [of ?y] by (simp add: less_mult_imp_div_less)
    then show "unat ?y div 0x400000 \<le> 1023" by simp
  qed
  have k5: "kernel_dir s5 = a" "mem s5 = m4" by (simp_all add: s5_def s4_def k3)
  have "\<exists>m6. map_4mb_range (?va AND 0xFFC00000) ((?va + ?vs + 0x3FFFFF) AND 0xFFC00000) s5 = Some (s5\<lparr>mem := m6\<rparr>) \<and>
    (\<forall>j<1024. pde m6 a j = (if vk \<le> j \<and> j < vn then big_pde j else pde m4 a j))"
  proof (cases "vk \<le> vn")
    case True
    have "vn \<le> 1023" using al(2) by (simp add: vn_def)
    from map_4mb_range_ok [of s5 vk vn, unfolded k5, OF pa True this]
    have "\<exists>m6. map_4mb_range (big_addr vk) (big_addr vn) s5 = Some (s5\<lparr>mem := m6\<rparr>) \<and>
      (\<forall>j<1024. pde m6 a j = (if vk \<le> j \<and> j < vn then big_pde j else pde m4 a j))" .
    then show ?thesis using al(1) [of ?va] al(1) [of "?va + ?vs + 0x3FFFFF"] unfolding vk_def vn_def by metis
  next
    case False
    then have "\<not> ?va AND 0xFFC00000 < (?va + ?vs + 0x3FFFFF) AND 0xFFC00000"
      unfolding word_less_nat_alt vk_def vn_def by (metis div_le_mono linorder_not_less order.strict_implies_order)
    then show ?thesis using False k5
      by (intro exI [of _ m4]) (auto simp: map_4mb_range.simps [of "?va AND 0xFFC00000"] s5_def s4_def)
  qed
  then obtain m6 where m6: "map_4mb_range (?va AND 0xFFC00000) ((?va + ?vs + 0x3FFFFF) AND 0xFFC00000) s5 = Some (s5\<lparr>mem := m6\<rparr>)"
    "\<forall>j<1024. pde m6 a j = (if vk \<le> j \<and> j < vn then big_pde j else pde m4 a j)" by blast
  define s6 where "s6 = s5\<lparr>mem := m6, current_dir := a, cr3 := a, paging_on := True\<rparr>"
  obtain l7 where l7: "klog ''[PAGING] CPU Paging Flag Enabled!'' s6 = Some (s6\<lparr>sys_log := l7\<rparr>)" "length l7 < 64000"
    using klog_Some [of s6 "''[PAGING] CPU Paging Flag Enabled!''"] l5(2) by (auto simp: s6_def s5_def)
  have vid: "video_memory s4 = ?va" "buffer_size_bytes s4 = buffer_size_bytes s"
    using fr by (simp_all add: s4_def s3_def s1_def)
  have run: "init_paging s = Some (s6\<lparr>sys_log := l7\<rparr>)"
  proof -
    have r3: "map_4mb_range 0 0x50400000 (s2\<lparr>kernel_dir := a, mem := fill_entries (mem s2) a 2 1024\<rparr>) = Some s4"
      using m4(1) by (simp add: s3_def s4_def big_addr_def)
    show ?thesis
      unfolding init_paging_def using l1(1) a l5(1) m6(1) l7(1) k5 r3 vid len
      by (simp add: Let_def s1_def [symmetric] s5_def [symmetric] switch_page_directory_def s6_def strcat_def strlen_def msg_def)
  qed
  have tr: "translate m6 a v = Some v" if "unat (pd_index v) < 321 \<or> vk \<le> unat (pd_index v) \<and> unat (pd_index v) < vn" for v
    using that m6(2) m4(2) [of "unat (pd_index v)"] pd_index_less [of v] by (intro translate_big) (auto simp: k3)
  have ok6: "dir_ok bs' m6 a"
  proof -
    have "pde m6 a j AND 1 = 0 \<or> pde m6 a j AND 0x80 \<noteq> 0" if "j < 1024" for j
      using that m6(2) m4(2) [OF that] p3 [OF that] big_pde_bits [OF that] by (auto simp: k3)
    then show ?thesis using b(2) unfolding dir_ok_def has_table_def by blast
  qed
  have s6: "kernel_dir s6 = a" "mem s6 = m6" "blocks s6 = blocks s2" "free_bins s6 = free_bins s2" "heap_start s6 = heap_start s2"
    using k5 by (simp_all add: s6_def s5_def s4_def s3_def)
  have hok6: "heap_ok (s6\<lparr>sys_log := l7\<rparr>) bs'" using b(1) s6 by (simp add: heap_ok_def heap_rel_def)
  show ?thesis
  proof (rule that [OF run])
    show "\<exists>p n. (p, n, True) \<in> set bs \<and> 8196 \<le> n \<and> heap_ok (s6\<lparr>sys_log := l7\<rparr>) (a_alloc p 8196 bs) \<and>
        dir_ok (a_alloc p 8196 bs) (mem (s6\<lparr>sys_log := l7\<rparr>)) (kernel_dir (s6\<lparr>sys_log := l7\<rparr>))"
      using hok6 ok6 s6 pn by auto
    show "pde (mem (s6\<lparr>sys_log := l7\<rparr>)) (kernel_dir (s6\<lparr>sys_log := l7\<rparr>)) j =
       (if j < 321 \<or> unat (?va AND 0xFFC00000) div 0x400000 \<le> j \<and>
          j < unat ((?va + ?vs + 0x3FFFFF) AND 0xFFC00000) div 0x400000 then big_pde j else 2)" if "j < 1024" for j
      using that m6(2) m4(2) [OF that] p3 [OF that] s6 unfolding vk_def [symmetric] vn_def [symmetric] by (auto simp: k3)
    show "translate (mem (s6\<lparr>sys_log := l7\<rparr>)) (kernel_dir (s6\<lparr>sys_log := l7\<rparr>)) v = Some v" if "unat v < 0x50400000" for v
      using tr [of v] that s6 unfolding pd_index_unat by (simp add: less_mult_imp_div_less)
    show "translate (mem (s6\<lparr>sys_log := l7\<rparr>)) (kernel_dir (s6\<lparr>sys_log := l7\<rparr>)) v = Some v"
      if "unat (?va AND 0xFFC00000) \<le> unat v" "v < (?va + ?vs + 0x3FFFFF) AND 0xFFC00000" for v
    proof -
      have "vk \<le> unat (pd_index v)" unfolding vk_def pd_index_unat using that(1) by (rule div_le_mono)
      moreover have "unat (pd_index v) < vn"
      proof -
        let ?e = "(?va + ?vs + 0x3FFFFF) AND 0xFFC00000"
        have "unat ?e = vn * 0x400000" unfolding vn_def big_mask unat_align_down by (simp add: minus_mod_eq_mult_div)
        then show ?thesis using that(2) unfolding word_less_nat_alt pd_index_unat by (simp add: less_mult_imp_div_less)
      qed
      ultimately show ?thesis using tr [of v] s6 by simp
    qed
  qed (use l7(2) s6 in \<open>simp_all add: s6_def\<close>)
qed

end
