(* ===== verification/Paging_Props.thy ===== *)
theory Paging_Props
  imports Paging
begin

text \<open>The properties of the page tables.\<close>

section \<open>A concrete machine\<close>

definition paging_example :: paging where
  "paging_example = \<lparr>ticks = 0, mem = (\<lambda>_. 0), io_env = (\<lambda>_. 0), dma_env = (\<lambda>_ m. m), io_hist = [], sys_log = [], rand_next = 1,
     blocks = Map.empty, free_bins = replicate 16 NULL, heap_start = NULL, int_flag = True,
     kernel_dir = 0, current_dir = 0, cr3 = 0, paging_on = False, invlpgs = [], video_memory = 0xFD000000,
     buffer_size_bytes = 0x300000\<rparr>"

definition paging_heap :: paging where
  "paging_heap = the (heap_init paging_example)"

definition paging_booted :: paging where
  "paging_booted = the (init_paging paging_heap)"

lemma klog_frame: "klog msg s = Some s' \<Longrightarrow> \<exists>l. s' = s\<lparr>sys_log := l\<rparr>"
  unfolding klog_def by (auto simp: fault_simps Let_def split: if_splits)

lemma paging_heap_ok:
  "heap_ok paging_heap initial_blocks" "length (sys_log paging_heap) < 64000"
  "heap_init paging_example = Some paging_heap"
proof -
  have "length (sys_log paging_example) < 64000" by (simp add: paging_example_def)
  from heap_init_ok [OF this] obtain s' where "heap_init paging_example = Some s'" "heap_ok s' initial_blocks"
    "length (sys_log s') < 64000" by metis
  then show "heap_ok paging_heap initial_blocks" "length (sys_log paging_heap) < 64000"
    "heap_init paging_example = Some paging_heap" by (simp_all add: paging_heap_def)
qed

lemma insert_free_block_video: "insert_free_block p s = Some s' \<Longrightarrow>
    video_memory s' = video_memory s \<and> buffer_size_bytes s' = buffer_size_bytes s"
  by (auto simp: insert_free_block_def upd_block_def fault_simps Let_def split: if_splits)

lemma paging_heap_video: "video_memory paging_heap = 0xFD000000" "buffer_size_bytes paging_heap = 0x300000"
proof -
  have v: "klog m s = Some s' \<Longrightarrow> video_memory s' = video_memory s \<and> buffer_size_bytes s' = buffer_size_bytes s"
    for m and s s' :: paging by (auto dest: klog_frame)
  have "video_memory paging_heap = video_memory paging_example \<and> buffer_size_bytes paging_heap = buffer_size_bytes paging_example"
    using paging_heap_ok(3) unfolding heap_init_def Let_def
    by (auto simp: fault_simps simp del: strcat_Some dest!: v insert_free_block_video)
  then show "video_memory paging_heap = 0xFD000000" "buffer_size_bytes paging_heap = 0x300000"
    by (simp_all add: paging_example_def)
qed

definition paged_blocks :: "ablock list" where
  "paged_blocks = a_alloc HEAP_START 8196 initial_blocks"

lemma paging_booted_ok:
  "init_paging paging_heap = Some paging_booted" "heap_ok paging_booted paged_blocks"
  "dir_ok paged_blocks (mem paging_booted) (kernel_dir paging_booted)"
  "j < 1024 \<Longrightarrow> pde (mem paging_booted) (kernel_dir paging_booted) j =
     (if j < 321 \<or> j = 1012 then big_pde j else 2)"
proof -
  have room: "\<exists>p n. (p, n, True) \<in> set initial_blocks \<and> 8196 \<le> n"
    by (simp add: initial_blocks_def layout_simps)
  obtain s' where s': "init_paging paging_heap = Some s'"
    "\<exists>p n. (p, n, True) \<in> set initial_blocks \<and> 8196 \<le> n \<and>
       heap_ok s' (a_alloc p 8196 initial_blocks) \<and> dir_ok (a_alloc p 8196 initial_blocks) (mem s') (kernel_dir s')"
    and p: "\<And>j. j < 1024 \<Longrightarrow> pde (mem s') (kernel_dir s') j =
       (if j < 321 \<or> unat (video_memory paging_heap AND 0xFFC00000) div 0x400000 \<le> j \<and>
          j < unat ((video_memory paging_heap + ((buffer_size_bytes paging_heap + 4095) AND NOT 4095) + 0x3FFFFF) AND 0xFFC00000) div 0x400000
        then big_pde j else 2)"
    by (rule init_paging_ok [OF paging_heap_ok(1,2) room]) (rule that)
  have eq: "paging_booted = s'" using s'(1) by (simp add: paging_booted_def)
  show "init_paging paging_heap = Some paging_booted" using s'(1) eq by simp
  show "heap_ok paging_booted paged_blocks" "dir_ok paged_blocks (mem paging_booted) (kernel_dir paging_booted)"
    using s'(2) unfolding eq paged_blocks_def by (auto simp: initial_blocks_def)
  show "pde (mem paging_booted) (kernel_dir paging_booted) j = (if j < 321 \<or> j = 1012 then big_pde j else 2)" if "j < 1024"
    unfolding eq p [OF that] paging_heap_video by auto
qed

lemma paging_booted_room: "\<exists>a s'. kmalloc_a 4096 paging_booted = Some (a, s') \<and> a \<noteq> NULL"
proof (rule kmalloc_a_spec [OF paging_booted_ok(2), of 4096])
  assume no: "\<And>p n. (p, n, True) \<in> set paged_blocks \<Longrightarrow> n < round_size (4096 + 4096 + 4)"
  have "(HEAP_START + sizeof_block + 8196, HEAP_SIZE - sizeof_block - 8196 - sizeof_block, True) \<in> set paged_blocks"
    by (simp add: paged_blocks_def a_alloc_def initial_blocks_def alloc_parts_def layout_simps)
  from no [OF this] show ?thesis by (simp add: round_size_def layout_simps)
qed auto

section \<open>Properties\<close>

text \<open>
  C21. \<^verbatim>\<open>init_paging\<close> builds an identity map: with an initialised heap that has room for the
  directory, it does not fault, and afterwards the processor translates every address below
  0x50400000, and every address of the 4 MB pages that cover the frame buffer, to itself; the
  directory is loaded and paging is on.
\<close>

theorem init_paging_identity:
  fixes s :: "'z paging_scheme"
  assumes "heap_ok s bs" and "length (sys_log s) < 64000" and "\<exists>p n. (p, n, True) \<in> set bs \<and> 8196 \<le> n"
  shows "\<exists>s'. init_paging s = Some s' \<and> paging_on s' \<and> cr3 s' = kernel_dir s' \<and> current_dir s' = kernel_dir s' \<and>
    (\<forall>v. unat v < 0x50400000 \<longrightarrow> translate (mem s') (cr3 s') v = Some v) \<and>
    (\<forall>v. video_memory s AND 0xFFC00000 \<le> v \<and>
       v < (video_memory s + ((buffer_size_bytes s + 4095) AND NOT 4095) + 0x3FFFFF) AND 0xFFC00000 \<longrightarrow>
       translate (mem s') (cr3 s') v = Some v)"
  by (rule init_paging_ok [OF assms]) (auto simp: word_le_nat_alt)

theorem init_paging_identity_witness:
  "\<exists>s'. init_paging paging_heap = Some s' \<and> paging_on s' \<and> translate (mem s') (cr3 s') 0x12345678 = Some 0x12345678"
proof -
  have "\<exists>p n. (p, n, True) \<in> set initial_blocks \<and> 8196 \<le> n" by (simp add: initial_blocks_def layout_simps)
  from init_paging_identity [OF paging_heap_ok(1,2) this] show ?thesis by fastforce
qed

lemma one_table_keeps:
  assumes "heap_ok s bs" and "one_table bs bs'" and "(q, j, False) \<in> set bs"
  shows "(q, j, False) \<in> set bs'"
proof -
  obtain p n where p: "(p, n, True) \<in> set bs" "8196 \<le> n" "bs' = a_alloc p 8196 bs" using assms(2) by (auto simp: one_table_def)
  have wf: "heap_wf bs" using assms(1) by (simp add: heap_ok_def)
  show ?thesis by (rule a_alloc_used [OF wf p(1,2)]) (use assms(3) p(3) in simp)
qed

text \<open>
  C22. Mapping one page changes one translation. For a well-formed directory whose entry for
  the address is absent or points to a table, and with room for a table if one is needed,
  \<^verbatim>\<open>paging_map_user\<close> does not fault, maps the page of \<open>virt\<close> to the frame of \<open>phys\<close>, leaves the
  translation of every other page as it was, and keeps directory and heap well formed. Every allocated block stays allocated with its size, the bytes
  of those that hold no page of the directory or of its tables do not change, and one block is allocated exactly when the table was missing.
\<close>

theorem paging_map_user_contract:
  fixes s :: "'z paging_scheme"
  assumes "heap_ok s bs" and "dir_ok bs (mem s) dir" and "unat flags < 4096"
    and "pde (mem s) dir (unat (pd_index virt)) AND 1 \<noteq> 0 \<longrightarrow> pde (mem s) dir (unat (pd_index virt)) AND 0x80 = 0"
    and "pde (mem s) dir (unat (pd_index virt)) AND 1 = 0 \<longrightarrow> (\<exists>a s'. kmalloc_a 4096 s = Some (a, s') \<and> a \<noteq> NULL)"
  shows "\<exists>s' bs'. paging_map_user dir phys virt flags s = Some s' \<and> heap_ok s' bs' \<and> dir_ok bs' (mem s') dir \<and>
    (\<forall>v. translate (mem s') dir v = (if pd_index v = pd_index virt \<and> pt_index v = pt_index virt
      then Some ((phys AND 0xFFFFF000) OR (v AND 0xFFF)) else translate (mem s) dir v)) \<and>
    (if pde (mem s) dir (unat (pd_index virt)) AND 1 = 0 then one_table bs bs' else bs' = bs) \<and>
    (\<forall>q j. (q, j, False) \<in> set bs \<longrightarrow> (q, j, False) \<in> set bs') \<and>
    (\<forall>q j x. secluded bs (mem s) dir q j \<and> in_block q j x \<longrightarrow> mem s' x = mem s x)"
proof (rule paging_map_user_ok [OF assms(1-3), of virt phys], goal_cases)
  case (3 s' bs')
  have "(q, j, False) \<in> set bs'" if "(q, j, False) \<in> set bs" for q j using 3(5) one_table_keeps [OF assms(1) _ that] that by auto
  then show ?case using 3 by (intro exI [of _ s'] exI [of _ bs']) auto
qed (use assms(4,5) in auto)

theorem paging_map_user_contract_witness:
  "\<exists>s'. paging_map_user (kernel_dir paging_booted) 0x12000000 0x60001000 7 paging_booted = Some s' \<and>
     translate (mem s') (kernel_dir paging_booted) 0x60001234 = Some 0x12000234 \<and>
     translate (mem s') (kernel_dir paging_booted) 0x00100000 = Some 0x00100000"
proof -
  have i: "unat (pd_index 0x60001000) = 384" by (simp add: pd_index_unat)
  have e: "pde (mem paging_booted) (kernel_dir paging_booted) 384 = 2" using paging_booted_ok(4) [of 384] by simp
  have t: "translate (mem paging_booted) (kernel_dir paging_booted) 0x00100000 = Some 0x00100000"
    by (rule translate_big) (use paging_booted_ok(4) [of 0] in \<open>simp add: pd_index_unat\<close>)
  have x: "pd_index 0x60001234 = pd_index 0x60001000" "pt_index 0x60001234 = pt_index 0x60001000"
    "pd_index 0x00100000 \<noteq> pd_index 0x60001000" by (simp_all add: pd_index_def pt_index_def)
  have f: "unat (7 :: u32) < 4096" by simp
  show ?thesis
    using paging_map_user_contract [OF paging_booted_ok(2,3) f, of "0x60001000" "0x12000000"] paging_booted_room t x
    unfolding i e by auto
qed

text \<open>
  A cloned directory is the same address space: \<^verbatim>\<open>clone_page_directory\<close> with room for the
  copy returns a new well-formed directory under which every address translates as under
  the kernel directory, whose own translations do not change.
\<close>

theorem clone_page_directory_contract:
  fixes s :: "'z paging_scheme"
  assumes "heap_ok s bs" and "dir_ok bs (mem s) (kernel_dir s)"
    and "kmalloc_a 4096 s = Some (a, s1)" and "a \<noteq> NULL"
  shows "\<exists>s' bs'. clone_page_directory s = Some (a, s') \<and> a \<noteq> kernel_dir s \<and> kernel_dir s' = kernel_dir s \<and>
    heap_ok s' bs' \<and> dir_ok bs' (mem s') a \<and> dir_ok bs' (mem s') (kernel_dir s) \<and>
    (\<forall>v. translate (mem s') a v = translate (mem s) (kernel_dir s) v \<and>
         translate (mem s') (kernel_dir s) v = translate (mem s) (kernel_dir s) v)"
proof -
  have "live_page bs (kernel_dir s)" using assms(2) by (simp add: dir_ok_def)
  note live = this
  have ne: "a \<noteq> kernel_dir s" by (rule kmalloc_page [OF assms(1,3,4)]) (use live in blast)
  show ?thesis by (rule clone_page_directory_ok [OF assms]) (use ne in auto)
qed

theorem clone_page_directory_contract_witness:
  "\<exists>a s'. clone_page_directory paging_booted = Some (a, s') \<and> a \<noteq> kernel_dir paging_booted \<and>
     translate (mem s') a 0x00100000 = translate (mem paging_booted) (kernel_dir paging_booted) 0x00100000"
  using paging_booted_room clone_page_directory_contract [OF paging_booted_ok(2,3)] by metis

text \<open>
  Mapping a page inside a 4 MB page goes wrong: \<^verbatim>\<open>paging_map_user\<close> takes the physical base
  of the large page for a page table, overwrites a word of the memory it maps with the new
  entry, and leaves the translation of the address as it was.
\<close>

theorem paging_map_user_in_big_page:
  fixes s :: "'z paging_scheme"
  assumes "page dir" and "pde (mem s) dir (unat (pd_index virt)) AND 1 \<noteq> 0"
    and "pde (mem s) dir (unat (pd_index virt)) AND 0x80 \<noteq> 0" and "table_of (mem s) dir (unat (pd_index virt)) \<noteq> dir"
  shows "\<exists>s'. paging_map_user dir phys virt flags s = Some s' \<and>
    load32 (mem s') (table_of (mem s) dir (unat (pd_index virt)) + 4 * pt_index virt) = pte_value phys flags \<and>
    translate (mem s') dir virt = translate (mem s) dir virt"
proof -
  let ?i = "unat (pd_index virt)"
  let ?t = "table_of (mem s) dir ?i" and ?k = "unat (pt_index virt)"
  have pt: "page ?t" unfolding table_of_def by (rule frame_page)
  have g: "get_table (dir + 4 * pd_index virt) s = Some (?t, s)"
    using assms(2) by (simp add: get_table_def table_of_def pde_def)
  show ?thesis
  proof (cases "load32 (mem s) (?t + 4 * pt_index virt) = pte_value phys flags")
    case True
    then show ?thesis using g by (simp add: paging_map_user_def)
  next
    case False
    let ?m = "store32 (mem s) (?t + 4 * pt_index virt) (pte_value phys flags)"
    have "pde ?m dir ?i = pde (mem s) dir ?i"
      using store_entry_other_page [OF pt pt_index_less assms(1) assms(4) [symmetric] pd_index_less, of "mem s" virt]
      by (simp add: pde_def)
    then have "translate ?m dir virt = translate (mem s) dir virt"
      using assms(2,3) by (simp add: translate_alt Let_def)
    then show ?thesis using g False by (simp add: paging_map_user_def)
  qed
qed

theorem paging_map_user_in_big_page_witness:
  "\<exists>s'. paging_map_user (kernel_dir paging_booted) 0x12000000 0x00403000 7 paging_booted = Some s' \<and>
     load32 (mem s') 0x0040000C = 0x12000007 \<and> translate (mem s') (kernel_dir paging_booted) 0x00403000 =
       translate (mem paging_booted) (kernel_dir paging_booted) 0x00403000"
proof -
  have i: "unat (pd_index 0x00403000) = 1" by (simp add: pd_index_unat)
  have e: "pde (mem paging_booted) (kernel_dir paging_booted) 1 = big_pde 1" using paging_booted_ok(4) [of 1] by simp
  have b: "big_pde 1 = 0x400083" by (simp add: big_pde_def big_addr_def)
  have t: "table_of (mem paging_booted) (kernel_dir paging_booted) 1 = 0x400000" unfolding table_of_def e b by simp
  have live: "live_page paged_blocks (kernel_dir paging_booted)" using paging_booted_ok(3) by (simp add: dir_ok_def)
  then have "unat HEAP_START \<le> unat (kernel_dir paging_booted)"
    using paging_booted_ok(2) heap_wf_block(1) by (fastforce simp: live_page_def heap_ok_def)
  then have ne: "0x400000 \<noteq> kernel_dir paging_booted" by (auto simp: layout_simps)
  have v: "pte_value 0x12000000 7 = 0x12000007" "(0x400000 :: u32) + 4 * pt_index 0x00403000 = 0x0040000C"
    by (simp_all add: pte_value_def pt_index_def)
  show ?thesis
    using paging_map_user_in_big_page [OF live_page_page [OF live], of paging_booted "0x00403000" "0x12000000" 7] ne v
    unfolding i t e b by simp
qed

end
