(* ===== verification/Ahci.thy ===== *)
theory Ahci
  imports Paging
begin

text \<open>
  The PCI configuration space (\<^verbatim>\<open>drivers/pci/pci.c\<close>) and the AHCI driver
  (\<^verbatim>\<open>drivers/AHCI/AHCI.c\<close>). The controller's registers are memory-mapped: reads are answered by
  the environment of the machine, which may also change memory (DMA). The command lists and
  tables are ordinary memory, addressed by the field offsets of the packed structures of
  \<^verbatim>\<open>drivers/AHCI/AHCI.h\<close>. The table of drives is here because AHCI registers its disks in it.
\<close>

section \<open>State\<close>

datatype drive_type = DRIVE_TYPE_NONE | DRIVE_TYPE_ATA | DRIVE_TYPE_AHCI | DRIVE_TYPE_RAMDISK

record drive_info =
  dr_type :: drive_type
  dr_ata_id :: u8
  dr_ahci_port :: u32
  dr_name :: string

record drives = paging +
  sys_drives :: "drive_info list"
  sys_drive_count :: int
  abar :: u32
  active_sata_port :: u32

definition MAX_SYS_DRIVES :: nat where "MAX_SYS_DRIVES = 8"

text \<open>An update of \<^verbatim>\<open>sys_drives[i]\<close>; an index outside the array is a fault.\<close>

definition upd_drive :: "int \<Rightarrow> (drive_info \<Rightarrow> drive_info) \<Rightarrow> 'z drives_scheme \<Rightarrow> 'z drives_scheme option" where
  "upd_drive i f s =
     (if 0 \<le> i \<and> nat i < length (sys_drives s)
      then Some (s\<lparr>sys_drives := (sys_drives s)[nat i := f (sys_drives s ! nat i)]\<rparr>) else None)"

section \<open>PCI configuration space\<close>

definition pci_address :: "u8 \<Rightarrow> u8 \<Rightarrow> u8 \<Rightarrow> u8 \<Rightarrow> u32" where
  "pci_address bus device func offset =
     push_bit 31 1 OR push_bit 16 (ucast bus) OR push_bit 11 (ucast device) OR push_bit 8 (ucast func) OR
     (ucast offset AND 0xFC)"

definition pci_read :: "u8 \<Rightarrow> u8 \<Rightarrow> u8 \<Rightarrow> u8 \<Rightarrow> 'z machine_scheme \<Rightarrow> u32 \<times> 'z machine_scheme" where
  "pci_read bus device func offset s = inl 0xCFC (outl 0xCF8 (pci_address bus device func offset) s)"

definition pci_write :: "u8 \<Rightarrow> u8 \<Rightarrow> u8 \<Rightarrow> u8 \<Rightarrow> u32 \<Rightarrow> 'z machine_scheme \<Rightarrow> 'z machine_scheme" where
  "pci_write bus device func offset val s = outl 0xCFC val (outl 0xCF8 (pci_address bus device func offset) s)"

text \<open>The three nested loops over buses, devices and functions, as the list of triples they visit.\<close>

definition pci_slots :: "(u8 \<times> u8 \<times> u8) list" where
  "pci_slots = [(of_nat bus, of_nat dev, of_nat func). bus \<leftarrow> [0..<256], dev \<leftarrow> [0..<32], func \<leftarrow> [0..<8]]"

definition pci_class :: "u32 \<Rightarrow> u8 \<times> u8" where
  "pci_class class_reg = (ucast (drop_bit 24 class_reg AND 0xFF), ucast (drop_bit 16 class_reg AND 0xFF))"

fun pci_scan_slots :: "(u8 \<times> u8 \<times> u8) list \<Rightarrow> 'z klog_state_scheme \<Rightarrow> 'z klog_state_scheme option" where
  "pci_scan_slots [] s = Some s"
| "pci_scan_slots ((bus, dev, func) # rest) s =
     (let (i, s) = pci_read bus dev func 0 s; vendor_id = i AND 0xFFFF in
      if vendor_id = 0xFFFF then pci_scan_slots rest s
      else do {
        let (class_reg, s) = pci_read bus dev func 0x08 s;
        let (class_code, subclass) = pci_class class_reg;
        log_msg \<leftarrow> strcat 128 ''[PCI] Dev: '' (itoa vendor_id 16);
        log_msg \<leftarrow> strcat 128 log_msg '' | Class: '';
        log_msg \<leftarrow> strcat 128 log_msg (itoa (ucast class_code) 16);
        log_msg \<leftarrow> strcat 128 log_msg '' | Sub: '';
        log_msg \<leftarrow> strcat 128 log_msg (itoa (ucast subclass) 16);
        s \<leftarrow> klog log_msg s;
        pci_scan_slots rest s })"

definition pci_scan :: "'z klog_state_scheme \<Rightarrow> 'z klog_state_scheme option" where
  "pci_scan s = do {
     s \<leftarrow> klog ''[PCI] Scanning PCI buses for hardware...'' s;
     s \<leftarrow> pci_scan_slots pci_slots s;
     klog ''[PCI] Hardware scan complete.'' s }"

section \<open>Port registers\<close>

text \<open>The offsets of the fields of \<^verbatim>\<open>HBA_PORT\<close> and \<^verbatim>\<open>HBA_MEM\<close>.\<close>

definition PORT_CLB :: u32 where [layout_simps]: "PORT_CLB = 0x00"
definition PORT_CLBU :: u32 where [layout_simps]: "PORT_CLBU = 0x04"
definition PORT_FB :: u32 where [layout_simps]: "PORT_FB = 0x08"
definition PORT_FBU :: u32 where [layout_simps]: "PORT_FBU = 0x0C"
definition PORT_IS :: u32 where [layout_simps]: "PORT_IS = 0x10"
definition PORT_IE :: u32 where [layout_simps]: "PORT_IE = 0x14"
definition PORT_CMD :: u32 where [layout_simps]: "PORT_CMD = 0x18"
definition PORT_SIG :: u32 where [layout_simps]: "PORT_SIG = 0x24"
definition PORT_SSTS :: u32 where [layout_simps]: "PORT_SSTS = 0x28"
definition PORT_SERR :: u32 where [layout_simps]: "PORT_SERR = 0x30"
definition PORT_SACT :: u32 where [layout_simps]: "PORT_SACT = 0x34"
definition PORT_CI :: u32 where [layout_simps]: "PORT_CI = 0x38"
definition HBA_GHC :: u32 where [layout_simps]: "HBA_GHC = 0x04"
definition HBA_PI :: u32 where [layout_simps]: "HBA_PI = 0x0C"

definition hba_port :: "u32 \<Rightarrow> nat \<Rightarrow> u32" where
  "hba_port base i = base + 0x100 + 0x80 * of_nat i"

text \<open>A read-modify-write of a register.\<close>

definition mmio_modify :: "u32 \<Rightarrow> (u32 \<Rightarrow> u32) \<Rightarrow> 'z machine_scheme \<Rightarrow> 'z machine_scheme" where
  "mmio_modify a f s = (let (v, s) = mmio_read a s in mmio_write a (f v) s)"

datatype ahci_dev = AHCI_DEV_NULL | AHCI_DEV_SATA | AHCI_DEV_SEMB | AHCI_DEV_PM | AHCI_DEV_SATAPI

text \<open>The wait of \<^verbatim>\<open>check_type\<close>: at most 50 rounds of 10 ms until a device is present.\<close>

fun check_type_wait :: "nat \<Rightarrow> u32 \<Rightarrow> u32 \<Rightarrow> 'z machine_scheme \<Rightarrow> u32 \<times> 'z machine_scheme" where
  "check_type_wait 0 port ssts s = (ssts, s)"
| "check_type_wait (Suc n) port ssts s =
     (if ssts AND 0x0F \<noteq> 3 then
        (let s = sleep 10 s; (ssts, s) = mmio_read (port + PORT_SSTS) s in check_type_wait n port ssts s)
      else (ssts, s))"

definition check_type :: "u32 \<Rightarrow> 'z machine_scheme \<Rightarrow> ahci_dev \<times> 'z machine_scheme" where
  "check_type port s =
     (let (ssts, s) = mmio_read (port + PORT_SSTS) s;
          (ssts, s) = check_type_wait 50 port ssts s;
          det = ssts AND 0x0F; ipm = drop_bit 8 ssts AND 0x0F
      in if det \<noteq> 3 \<or> ipm \<noteq> 1 then (AHCI_DEV_NULL, s)
         else let (sig, s) = mmio_read (port + PORT_SIG) s in
           (if sig = 0xEB140101 then AHCI_DEV_SATAPI else if sig = 0xC33C0101 then AHCI_DEV_SEMB
            else if sig = 0x96690101 then AHCI_DEV_PM else AHCI_DEV_SATA, s))"

fun stop_cmd_wait :: "nat \<Rightarrow> u32 \<Rightarrow> 'z machine_scheme \<Rightarrow> 'z machine_scheme" where
  "stop_cmd_wait 0 port s = s"
| "stop_cmd_wait (Suc timeout) port s =
     (let (cmd, s) = mmio_read (port + PORT_CMD) s in
      if cmd AND 0x4000 \<noteq> 0 then stop_cmd_wait timeout port s
      else let (cmd, s) = mmio_read (port + PORT_CMD) s in
        if cmd AND 0x8000 \<noteq> 0 then stop_cmd_wait timeout port s else s)"

definition stop_cmd :: "u32 \<Rightarrow> 'z machine_scheme \<Rightarrow> 'z machine_scheme" where
  "stop_cmd port s =
     (let s = mmio_modify (port + PORT_CMD) (\<lambda>v. v AND NOT 0x0001) s;
          s = mmio_modify (port + PORT_CMD) (\<lambda>v. v AND NOT 0x0010) s
      in stop_cmd_wait 5000000 port s)"

fun start_cmd_wait :: "nat \<Rightarrow> u32 \<Rightarrow> 'z machine_scheme \<Rightarrow> 'z machine_scheme" where
  "start_cmd_wait timeout port s =
     (let (cmd, s) = mmio_read (port + PORT_CMD) s in
      if cmd AND 0x8000 \<noteq> 0 then (case timeout of 0 \<Rightarrow> s | Suc n \<Rightarrow> start_cmd_wait n port s) else s)"

definition start_cmd :: "u32 \<Rightarrow> 'z klog_state_scheme \<Rightarrow> 'z klog_state_scheme option" where
  "start_cmd port s =
     (let s = start_cmd_wait 5000000 port s; (cmd, s) = mmio_read (port + PORT_CMD) s in
      if cmd AND 0x8000 \<noteq> 0 then klog ''[AHCI] ERROR: Port stuck!'' s
      else let s = mmio_modify (port + PORT_CMD) (\<lambda>v. v OR 0x0010) s;
               s = mmio_modify (port + PORT_CMD) (\<lambda>v. v OR 0x0001) s in Some s)"

section \<open>Command lists\<close>

text \<open>Two bytes stored little-endian: \<^verbatim>\<open>prdtl\<close> of a command header.\<close>

definition store16 :: "(u32 \<Rightarrow> u8) \<Rightarrow> u32 \<Rightarrow> u16 \<Rightarrow> (u32 \<Rightarrow> u8)" where
  "store16 m a v = m(a := ucast v, a + 1 := ucast (drop_bit 8 v))"

fun init_headers :: "nat \<Rightarrow> u32 \<Rightarrow> 'z heap_scheme \<Rightarrow> 'z heap_scheme option" where
  "init_headers 0 cmdheader s = Some s"
| "init_headers (Suc n) cmdheader s = do {
     let s = s\<lparr>mem := store16 (mem s) (cmdheader + 2) 1\<rparr>;
     (cmd_tbl, s) \<leftarrow> kmalloc_a 256 s;
     let s = s\<lparr>mem := store32 (mem s) (cmdheader + 8) cmd_tbl\<rparr>;
     let s = s\<lparr>mem := store32 (mem s) (cmdheader + 12) 0\<rparr>;
     let s = s\<lparr>mem := fast_memset (mem s) cmd_tbl 0 (256 div 4)\<rparr>;
     init_headers n (cmdheader + 32) s }"

definition port_rebase :: "u32 \<Rightarrow> 'z heap_scheme \<Rightarrow> 'z heap_scheme option" where
  "port_rebase port s = do {
     let s = mmio_write (port + PORT_IE) 0 s;
     let s = stop_cmd port s;
     (clb, s) \<leftarrow> kmalloc_a 1024 s;
     let s = mmio_write (port + PORT_CLB) clb s;
     let s = mmio_write (port + PORT_CLBU) 0 s;
     let (p, s) = mmio_read (port + PORT_CLB) s;
     let s = s\<lparr>mem := fast_memset (mem s) p 0 (1024 div 4)\<rparr>;
     (fb, s) \<leftarrow> kmalloc_a 256 s;
     let s = mmio_write (port + PORT_FB) fb s;
     let s = mmio_write (port + PORT_FBU) 0 s;
     let (p, s) = mmio_read (port + PORT_FB) s;
     let s = s\<lparr>mem := fast_memset (mem s) p 0 (256 div 4)\<rparr>;
     let (cmdheader, s) = mmio_read (port + PORT_CLB) s;
     s \<leftarrow> init_headers 32 cmdheader s;
     start_cmd port s }"

text \<open>The first clear bit of \<^verbatim>\<open>sact | ci\<close>, or -1.\<close>

definition free_slot :: "u32 \<Rightarrow> int" where
  "free_slot slots = (case find (\<lambda>i. slots AND push_bit i 1 = 0) [0..<32] of Some i \<Rightarrow> int i | None \<Rightarrow> -1)"

definition find_cmdslot :: "u32 \<Rightarrow> 'z machine_scheme \<Rightarrow> int \<times> 'z machine_scheme" where
  "find_cmdslot port s =
     (let (sact, s) = mmio_read (port + PORT_SACT) s; (ci, s) = mmio_read (port + PORT_CI) s
      in (free_slot (sact OR ci), s))"

text \<open>
  The wait for completion. \<open>Inl\<close> is the early return on a task-file error, \<open>Inr t\<close> the value of
  \<^verbatim>\<open>timeout\<close> after the loop.
\<close>

fun ahci_wait :: "nat \<Rightarrow> u32 \<Rightarrow> nat \<Rightarrow> 'z machine_scheme \<Rightarrow> (unit + int) \<times> 'z machine_scheme" where
  "ahci_wait 0 port slot s = (Inr (-1), s)"
| "ahci_wait (Suc timeout) port slot s =
     (let (ci, s) = mmio_read (port + PORT_CI) s in
      if ci AND push_bit slot 1 = 0 then (Inr (int timeout), s)
      else let (is, s) = mmio_read (port + PORT_IS) s in
        if is AND push_bit 30 1 \<noteq> 0 then (Inl (), s) else ahci_wait timeout port slot s)"

text \<open>The command FIS and the physical region descriptor for \<open>count\<close> sectors.\<close>

definition ahci_command :: "(u32 \<Rightarrow> u8) \<Rightarrow> u32 \<Rightarrow> u8 \<Rightarrow> u32 \<Rightarrow> u32 \<Rightarrow> u32 \<Rightarrow> u32 \<Rightarrow> (u32 \<Rightarrow> u8)" where
  "ahci_command m tbl command startl starth count buf =
     (let m = fast_memset m tbl 0 (144 div 4);
          m = store32 m (tbl + 128) buf;
          m = store32 m (tbl + 132) 0;
          m = store32 m (tbl + 140) ((load32 m (tbl + 140) AND 0xFFC00000) OR ((count * 512 - 1) AND 0x3FFFFF));
          m = store32 m (tbl + 140) (load32 m (tbl + 140) OR 0x80000000);
          m = m(tbl := 0x27);
          m = m(tbl + 1 := m (tbl + 1) OR 0x80);
          m = m(tbl + 2 := command);
          m = m(tbl + 4 := ucast startl);
          m = m(tbl + 5 := ucast (drop_bit 8 startl));
          m = m(tbl + 6 := ucast (drop_bit 16 startl));
          m = m(tbl + 7 := push_bit 6 1);
          m = m(tbl + 8 := ucast (drop_bit 24 startl));
          m = m(tbl + 9 := ucast starth);
          m = m(tbl + 10 := ucast (drop_bit 8 starth));
          m = m(tbl + 12 := ucast (count AND 0xFF));
          m = m(tbl + 13 := ucast (drop_bit 8 count AND 0xFF))
      in m)"

text \<open>
  \<^verbatim>\<open>ahci_read_sector\<close> and \<^verbatim>\<open>ahci_write_sector\<close> differ in the write bit of the header and the
  command byte (0x25 and 0x35).
\<close>

definition ahci_transfer :: "bool \<Rightarrow> u8 \<Rightarrow> u32 \<Rightarrow> u32 \<Rightarrow> u32 \<Rightarrow> u32 \<Rightarrow> u32 \<Rightarrow> 'z machine_scheme \<Rightarrow> int \<times> 'z machine_scheme" where
  "ahci_transfer w command port startl starth count buf s =
     (if port = NULL then (0, s)
      else let s = mmio_write (port + PORT_IS) 0xFFFFFFFF s; (slot, s) = find_cmdslot port s in
        if slot = -1 then (0, s)
        else let (clb, s) = mmio_read (port + PORT_CLB) s;
                 hdr = clb + 32 * of_int slot;
                 m = (mem s)(hdr := (mem s hdr AND 0xE0) OR 5);
                 m = m(hdr := (m hdr AND 0xBF) OR (if w then 0x40 else 0));
                 m = store16 m (hdr + 2) 1;
                 tbl = load32 m (hdr + 8);
                 s = s\<lparr>mem := ahci_command m tbl command startl starth count buf\<rparr>;
                 s = mmio_write (port + PORT_CI) (push_bit (nat slot) 1) s;
                 (r, s) = ahci_wait 20000000 port (nat slot) s
          in case r of Inl _ \<Rightarrow> (0, s)
             | Inr timeout \<Rightarrow>
                 if timeout \<le> 0 then (0, s)
                 else let (is, s) = mmio_read (port + PORT_IS) s in
                   if is AND push_bit 30 1 \<noteq> 0 then (0, s)
                   else (1, mmio_write (port + PORT_IS) 0xFFFFFFFF s))"

definition ahci_read_sector :: "u32 \<Rightarrow> u32 \<Rightarrow> u32 \<Rightarrow> u32 \<Rightarrow> u32 \<Rightarrow> 'z machine_scheme \<Rightarrow> int \<times> 'z machine_scheme" where
  "ahci_read_sector = ahci_transfer False 0x25"

definition ahci_write_sector :: "u32 \<Rightarrow> u32 \<Rightarrow> u32 \<Rightarrow> u32 \<Rightarrow> u32 \<Rightarrow> 'z machine_scheme \<Rightarrow> int \<times> 'z machine_scheme" where
  "ahci_write_sector = ahci_transfer True 0x35"

section \<open>Initialisation\<close>

fun ahci_find :: "(u8 \<times> u8 \<times> u8) list \<Rightarrow> 'z machine_scheme \<Rightarrow> (u8 \<times> u8 \<times> u8) option \<times> 'z machine_scheme" where
  "ahci_find [] s = (None, s)"
| "ahci_find ((bus, dev, func) # rest) s =
     (let (i, s) = pci_read bus dev func 0 s in
      if i AND 0xFFFF = 0xFFFF then ahci_find rest s
      else let (class_reg, s) = pci_read bus dev func 0x08 s in
        if pci_class class_reg = (0x01, 0x06) then (Some (bus, dev, func), s) else ahci_find rest s)"

definition ahci_add_drive :: "u32 \<Rightarrow> 'z drives_scheme \<Rightarrow> 'z drives_scheme option" where
  "ahci_add_drive port s =
     (if sys_drive_count s < int MAX_SYS_DRIVES then do {
        s \<leftarrow> upd_drive (sys_drive_count s)
          (\<lambda>d. d\<lparr>dr_type := DRIVE_TYPE_AHCI, dr_ahci_port := port, dr_name := ''AHCI SATA Drive''\<rparr>) s;
        Some (s\<lparr>sys_drive_count := sys_drive_count s + 1\<rparr>) }
      else Some s)"

fun ahci_ports :: "nat list \<Rightarrow> u32 \<Rightarrow> 'z drives_scheme \<Rightarrow> 'z drives_scheme option" where
  "ahci_ports [] pi s = Some s"
| "ahci_ports (i # is) pi s =
     (if pi AND push_bit i 1 = 0 then ahci_ports is pi s
      else do {
        let port = hba_port (abar s) i;
        let s = mmio_modify (port + PORT_CMD) (\<lambda>v. v OR 0x02) s;
        let s = sleep 10 s;
        let (dt, s) = check_type port s;
        s \<leftarrow> (if dt = AHCI_DEV_SATA then do {
            port_msg \<leftarrow> strcat 64 ''[AHCI] Rebased SATA Drive on Port '' (itoa (of_nat i) 10);
            s \<leftarrow> klog port_msg s;
            let s = mmio_write (port + PORT_SERR) 0xFFFFFFFF s;
            let s = mmio_write (port + PORT_IS) 0xFFFFFFFF s;
            s \<leftarrow> port_rebase port s;
            let s = (if active_sata_port s = 0 then s\<lparr>active_sata_port := port\<rparr> else s);
            ahci_add_drive port s }
          else Some s);
        ahci_ports is pi s })"

definition ahci_init :: "'z drives_scheme \<Rightarrow> 'z drives_scheme option" where
  "ahci_init s = do {
     s \<leftarrow> klog ''[AHCI] Scanning PCI for AHCI controller...'' s;
     let (target, s) = ahci_find pci_slots s;
     case target of
       None \<Rightarrow> klog ''[AHCI] Controller not found on PCI bus.'' s
     | Some (bus, dev, func) \<Rightarrow> do {
         s \<leftarrow> klog ''[AHCI] Controller found. Enabling PCI busmaster...'' s;
         let (pci_cmd, s) = pci_read bus dev func 0x04 s;
         let s = pci_write bus dev func 0x04 (pci_cmd OR 0x06) s;
         let (bar, s) = pci_read bus dev func 0x24 s;
         let abar_phys = bar AND 0xFFFFFFF0;
         if abar_phys = 0 then klog ''[AHCI] ERROR: ABAR memory address is 0.'' s
         else do {
           log_msg \<leftarrow> strcat 64 ''[AHCI] Mapping ABAR at '' (itoa abar_phys 16);
           s \<leftarrow> klog log_msg s;
           let abar_page = abar_phys AND 0xFFFFF000;
           s \<leftarrow> paging_map abar_page abar_page 3 s;
           s \<leftarrow> paging_map (abar_page + 4096) (abar_page + 4096) 3 s;
           let s = switch_page_directory (kernel_dir s) s;
           let s = s\<lparr>abar := abar_phys\<rparr>;
           let s = mmio_modify (abar_phys + HBA_GHC) (\<lambda>v. v OR push_bit 31 1) s;
           let s = mmio_modify (abar_phys + HBA_GHC) (\<lambda>v. v AND NOT (push_bit 1 1)) s;
           s \<leftarrow> klog ''[AHCI] Scanning SATA ports...'' s;
           let (pi, s) = mmio_read (abar_phys + HBA_PI) s;
           s \<leftarrow> ahci_ports [0..<32] pi s;
           klog ''[AHCI] Subsystem setup complete.'' s } } }"

section \<open>Facts\<close>

lemma free_slot_cases:
  "free_slot slots = -1 \<and> (\<forall>i<32. bit slots i) \<or>
   (\<exists>i<32. free_slot slots = int i \<and> \<not> bit slots i \<and> (\<forall>j<i. bit slots j))"
proof -
  have bit: "slots AND push_bit i 1 = 0 \<longleftrightarrow> \<not> bit slots i" if "i < 32" for i
    using that and_exp_eq_0_iff_not_bit [of slots i] by (simp add: push_bit_eq_mult)
  show ?thesis
  proof (cases "find (\<lambda>i. slots AND push_bit i 1 = 0) [0..<32]")
    case None
    then have "\<forall>i<32. bit slots i" using bit by (auto simp: find_None_iff)
    with None show ?thesis by (simp add: free_slot_def)
  next
    case (Some i)
    then have "i < 32" "slots AND push_bit i 1 = 0" "\<forall>j<i. slots AND push_bit j 1 \<noteq> 0"
      by (auto simp: find_Some_iff)
    with bit Some show ?thesis by (auto simp: free_slot_def)
  qed
qed

end
