(* ===== verification/Disk.thy ===== *)
theory Disk
  imports Ahci
begin

text \<open>
  The disk layer: the sector cache (\<^verbatim>\<open>fs/cache.c\<close>), the drive manager with the ATA PIO driver
  and the ramdisk (\<^verbatim>\<open>drivers/file/ATA/ATA.c\<close>), and the registration of the boot ramdisk
  (\<^verbatim>\<open>drivers/file/initrd.c\<close>). A sector buffer is an address in memory; the cache entries are
  a list of records.
\<close>

section \<open>State\<close>

record cache_entry =
  ce_drive_id :: int
  ce_lba :: u32
  ce_data :: "u8 list"
  ce_last_access :: u32
  ce_valid :: bool

text \<open>\<open>disk_cache\<close> is the pointer to the array, NULL before \<^verbatim>\<open>init_disk_cache\<close>.\<close>

record disk = drives +
  disk_cache :: u32
  cache_entries :: "cache_entry list"
  ramdisk_start :: u32
  ramdisk_size :: u32
  isReadMode :: int

definition CACHE_SIZE :: nat where "CACHE_SIZE = 2048"

section \<open>The sector cache\<close>

definition init_disk_cache :: "'z disk_scheme \<Rightarrow> 'z disk_scheme option" where
  "init_disk_cache s = do {
     (p, s) \<leftarrow> kmalloc (528 * of_nat CACHE_SIZE) s;
     let s = s\<lparr>disk_cache := p\<rparr>;
     if disk_cache s = NULL then None
     else Some (s\<lparr>cache_entries := replicate CACHE_SIZE
       \<lparr>ce_drive_id = 0, ce_lba = 0, ce_data = replicate 512 0, ce_last_access = 0, ce_valid = False\<rparr>\<rparr>) }"

fun cache_find :: "cache_entry list \<Rightarrow> nat \<Rightarrow> int \<Rightarrow> u32 \<Rightarrow> nat option" where
  "cache_find [] i drive_id lba = None"
| "cache_find (e # es) i drive_id lba =
     (if ce_valid e \<and> ce_drive_id e = drive_id \<and> ce_lba e = lba then Some i else cache_find es (Suc i) drive_id lba)"

definition cache_read :: "int \<Rightarrow> u32 \<Rightarrow> u32 \<Rightarrow> 'z disk_scheme \<Rightarrow> int \<times> 'z disk_scheme" where
  "cache_read drive_id lba buffer s =
     (if disk_cache s = NULL then (0, s)
      else case cache_find (cache_entries s) 0 drive_id lba of
        Some i \<Rightarrow>
          (let e = (cache_entries s ! i)\<lparr>ce_last_access := get_ticks s\<rparr>
           in (1, s\<lparr>cache_entries := (cache_entries s)[i := e], mem := write_bytes (mem s) buffer (ce_data e)\<rparr>))
      | None \<Rightarrow> (0, s))"

text \<open>
  The slot \<^verbatim>\<open>cache_write_thru\<close> uses: the first invalid one, or the one of the same sector,
  whichever comes first; else the least recently used.
\<close>

fun cache_target :: "cache_entry list \<Rightarrow> nat \<Rightarrow> int \<Rightarrow> u32 \<Rightarrow> u32 \<Rightarrow> nat \<Rightarrow> nat" where
  "cache_target [] i drive_id lba min_tick target_idx = target_idx"
| "cache_target (e # es) i drive_id lba min_tick target_idx =
     (if \<not> ce_valid e then i
      else if ce_drive_id e = drive_id \<and> ce_lba e = lba then i
      else if ce_last_access e < min_tick then cache_target es (Suc i) drive_id lba (ce_last_access e) i
      else cache_target es (Suc i) drive_id lba min_tick target_idx)"

definition cache_write_thru :: "int \<Rightarrow> u32 \<Rightarrow> u32 \<Rightarrow> 'z disk_scheme \<Rightarrow> 'z disk_scheme" where
  "cache_write_thru drive_id lba buffer s =
     (if disk_cache s = NULL then s
      else let target_idx = cache_target (cache_entries s) 0 drive_id lba 0xFFFFFFFF 0
        in s\<lparr>cache_entries := (cache_entries s)[target_idx :=
             \<lparr>ce_drive_id = drive_id, ce_lba = lba, ce_data = read_bytes (mem s) buffer 512,
              ce_last_access = get_ticks s, ce_valid = True\<rparr>]\<rparr>)"

section \<open>ATA\<close>

text \<open>
  \<open>while ((inb(port) & mask) && timeout > 0) { sleep(1); timeout--; }\<close> and the loop for a bit to
  be set; the result is what is left of the timeout.
\<close>

fun ata_wait_clear :: "u16 \<Rightarrow> u8 \<Rightarrow> nat \<Rightarrow> 'z machine_scheme \<Rightarrow> nat \<times> 'z machine_scheme" where
  "ata_wait_clear port bits timeout s =
     (let (v, s) = inb port s in
      if v AND bits \<noteq> 0 then (case timeout of 0 \<Rightarrow> (0, s) | Suc n \<Rightarrow> ata_wait_clear port bits n (sleep 1 s))
      else (timeout, s))"

fun ata_wait_set :: "u16 \<Rightarrow> u8 \<Rightarrow> nat \<Rightarrow> 'z machine_scheme \<Rightarrow> nat \<times> 'z machine_scheme" where
  "ata_wait_set port bits timeout s =
     (let (v, s) = inb port s in
      if v AND bits = 0 then (case timeout of 0 \<Rightarrow> (0, s) | Suc n \<Rightarrow> ata_wait_set port bits n (sleep 1 s))
      else (timeout, s))"

text \<open>The second wait of \<^verbatim>\<open>ata_identify_ext\<close>, which gives up on an error bit.\<close>

fun ata_wait_drq_err :: "u16 \<Rightarrow> nat \<Rightarrow> 'z machine_scheme \<Rightarrow> nat option \<times> 'z machine_scheme" where
  "ata_wait_drq_err port timeout s =
     (let (v, s) = inb port s in
      if v AND 0x08 = 0 then
        (case timeout of 0 \<Rightarrow> (Some 0, s)
         | Suc n \<Rightarrow> let (e, s) = inb port s in
             if e AND 0x01 \<noteq> 0 then (None, s) else ata_wait_drq_err port n (sleep 1 s))
      else (Some timeout, s))"

fun inw_n :: "nat \<Rightarrow> u16 \<Rightarrow> 'z machine_scheme \<Rightarrow> u16 list \<times> 'z machine_scheme" where
  "inw_n 0 port s = ([], s)"
| "inw_n (Suc n) port s = (let (w, s) = inw port s; (ws, s) = inw_n n port s in (w # ws, s))"

text \<open>\<open>for (i = 0; i < 256; i++) ptr[i] = inw(base)\<close> and its counterpart for writing.\<close>

fun ata_pio_in :: "nat \<Rightarrow> u16 \<Rightarrow> u32 \<Rightarrow> 'z machine_scheme \<Rightarrow> 'z machine_scheme" where
  "ata_pio_in 0 port ptr s = s"
| "ata_pio_in (Suc n) port ptr s =
     (let (w, s) = inw port s in ata_pio_in n port (ptr + 2) (s\<lparr>mem := store16 (mem s) ptr w\<rparr>))"

fun ata_pio_out :: "nat \<Rightarrow> u16 \<Rightarrow> u32 \<Rightarrow> 'z machine_scheme \<Rightarrow> 'z machine_scheme" where
  "ata_pio_out 0 port ptr s = s"
| "ata_pio_out (Suc n) port ptr s = ata_pio_out n port (ptr + 2) (outw port (load16 (mem s) ptr) s)"

text \<open>The model name: words 27 to 46, high byte first, up to a NUL, trailing blanks removed.\<close>

definition ata_model_name :: "u16 list \<Rightarrow> string" where
  "ata_model_name ws =
     (let name = concat (map (\<lambda>w. [char_of (unat (drop_bit 8 w AND 0xFF)), char_of (unat (w AND 0xFF))])
            (take 20 (drop 27 ws)));
          name = takeWhile (\<lambda>c. c \<noteq> CHR 0x00) name;
          name = rev (dropWhile (\<lambda>c. c = CHR '' '') (rev name))
      in if name = [] then ''Unknown ATA Drive'' else name)"

definition ata_identify_ext :: "u16 \<Rightarrow> u8 \<Rightarrow> 'z machine_scheme \<Rightarrow> string option \<times> 'z machine_scheme" where
  "ata_identify_ext base drive_id s =
     (let s = outb (base + 6) (if drive_id mod 2 = 0 then 0xA0 else 0xB0) s;
          s = sleep 5 s;
          s = outb (base + 5) 0 (outb (base + 4) 0 (outb (base + 3) 0 (outb (base + 2) 0 s)));
          s = outb (base + 7) 0xEC s;
          s = sleep 5 s;
          (status, s) = inb (base + 7) s
      in if status = 0 \<or> status = 0xFF then (None, s)
         else let (timeout, s) = ata_wait_clear (base + 7) 0x80 2000 s in
           if timeout = 0 then (None, s)
           else let (lba_mid, s) = inb (base + 4) s; (lba_high, s) = inb (base + 5) s in
             if lba_mid \<noteq> 0 \<or> lba_high \<noteq> 0 then (None, s)
             else let (r, s) = ata_wait_drq_err (base + 7) 2000 s in
               if r = None \<or> r = Some 0 then (None, s)
               else let (ws, s) = inw_n 256 base s in (Some (ata_model_name ws), s))"

fun disk_probe :: "(nat \<times> string \<times> u16) list \<Rightarrow> 'z disk_scheme \<Rightarrow> 'z disk_scheme option" where
  "disk_probe [] s = Some s"
| "disk_probe ((i, channel_name, base) # rest) s =
     (case ata_identify_ext base (of_nat i) s of
        (None, s) \<Rightarrow> disk_probe rest s
      | (Some name, s) \<Rightarrow>
          if sys_drive_count s \<ge> int MAX_SYS_DRIVES then Some s
          else do {
            full_name \<leftarrow> strcpy 64 channel_name;
            full_name \<leftarrow> strcat 64 full_name '' - '';
            full_name \<leftarrow> strcat 64 full_name name;
            s \<leftarrow> upd_drive (sys_drive_count s)
              (\<lambda>d. d\<lparr>dr_type := DRIVE_TYPE_ATA, dr_ata_id := of_nat i, dr_name := full_name\<rparr>) s;
            disk_probe rest (s\<lparr>sys_drive_count := sys_drive_count s + 1\<rparr>) })"

definition disk_manager_init :: "'z disk_scheme \<Rightarrow> 'z disk_scheme option" where
  "disk_manager_init s = do {
     s \<leftarrow> klog ''[ATA] Probing IDE Master & Slave drives (Primary & Secondary)...'' s;
     disk_probe [(0, ''Primary Master'', 0x1F0), (1, ''Primary Slave'', 0x1F0),
       (2, ''Secondary Master'', 0x170), (3, ''Secondary Slave'', 0x170)] (s\<lparr>sys_drive_count := 0\<rparr>) }"

text \<open>Selecting the sector: drive and head, sector count, LBA, command.\<close>

definition ata_select :: "u16 \<Rightarrow> u8 \<Rightarrow> u32 \<Rightarrow> u8 \<Rightarrow> 'z machine_scheme \<Rightarrow> 'z machine_scheme" where
  "ata_select base head lba command s =
     (let s = outb (base + 6) (head OR (ucast (drop_bit 24 lba) AND 0x0F)) s;
          s = sleep 1 s;
          s = outb (base + 1) 0x00 s;
          s = outb (base + 2) 1 s;
          s = outb (base + 3) (ucast (lba AND 0xFF)) s;
          s = outb (base + 4) (ucast (drop_bit 8 lba AND 0xFF)) s;
          s = outb (base + 5) (ucast (drop_bit 16 lba AND 0xFF)) s
      in outb (base + 7) command s)"

definition ata_read :: "u8 \<Rightarrow> u32 \<Rightarrow> u32 \<Rightarrow> 'z machine_scheme \<Rightarrow> int \<times> 'z machine_scheme" where
  "ata_read ata_id lba buffer s =
     (let base = (if ata_id < 2 then 0x1F0 else 0x170);
          drive_head = (if ata_id mod 2 = 0 then 0xE0 else 0xF0);
          (v, s) = inb (base + 7) s
      in if v = 0xFF then (0, s)
         else let s = ata_select base drive_head lba 0x20 s;
                  (_, s) = ata_wait_clear (base + 7) 0x80 2000 s;
                  (v, s) = inb (base + 7) s
           in if v AND 0x01 \<noteq> 0 then (0, s)
              else let (timeout, s) = ata_wait_set (base + 7) 0x08 2000 s in
                if timeout = 0 then (0, s) else (1, ata_pio_in 256 base buffer s))"

definition ata_write :: "u8 \<Rightarrow> u32 \<Rightarrow> u32 \<Rightarrow> 'z machine_scheme \<Rightarrow> int \<times> 'z machine_scheme" where
  "ata_write ata_id lba buffer s =
     (let base = (if ata_id < 2 then 0x1F0 else 0x170);
          s = ata_select base (if ata_id mod 2 = 0 then 0xE0 else 0xF0) lba 0x30 s;
          (_, s) = ata_wait_clear (base + 7) 0x80 2000 s;
          (_, s) = ata_wait_set (base + 7) 0x08 2000 s;
          s = ata_pio_out 256 base buffer s;
          s = outb (base + 7) 0xE7 s;
          (_, s) = ata_wait_clear (base + 7) 0x80 2000 s
      in (1, s))"

section \<open>Sectors\<close>

text \<open>A drive whose type is \<^verbatim>\<open>DRIVE_TYPE_NONE\<close> answers 0.\<close>

definition drive_read :: "drive_info \<Rightarrow> u32 \<Rightarrow> u32 \<Rightarrow> 'z disk_scheme \<Rightarrow> int \<times> 'z disk_scheme" where
  "drive_read drv lba buffer s =
     (case dr_type drv of
        DRIVE_TYPE_RAMDISK \<Rightarrow>
          if lba * 512 \<ge> ramdisk_size s then (0, s)
          else (1, s\<lparr>mem := fast_memcpy (mem s) buffer (ramdisk_start s + lba * 512) 512\<rparr>)
      | DRIVE_TYPE_AHCI \<Rightarrow> ahci_read_sector (dr_ahci_port drv) lba 0 1 buffer s
      | DRIVE_TYPE_ATA \<Rightarrow> ata_read (dr_ata_id drv) lba buffer s
      | DRIVE_TYPE_NONE \<Rightarrow> (0, s))"

definition drive_write :: "drive_info \<Rightarrow> u32 \<Rightarrow> u32 \<Rightarrow> 'z disk_scheme \<Rightarrow> int \<times> 'z disk_scheme" where
  "drive_write drv lba buffer s =
     (case dr_type drv of
        DRIVE_TYPE_RAMDISK \<Rightarrow>
          if lba * 512 \<ge> ramdisk_size s then (0, s)
          else (1, s\<lparr>mem := fast_memcpy (mem s) (ramdisk_start s + lba * 512) buffer 512\<rparr>)
      | DRIVE_TYPE_AHCI \<Rightarrow> ahci_write_sector (dr_ahci_port drv) lba 0 1 buffer s
      | DRIVE_TYPE_ATA \<Rightarrow> ata_write (dr_ata_id drv) lba buffer s
      | DRIVE_TYPE_NONE \<Rightarrow> (0, s))"

definition disk_read_sector :: "int \<Rightarrow> u32 \<Rightarrow> u32 \<Rightarrow> 'z disk_scheme \<Rightarrow> int \<times> 'z disk_scheme" where
  "disk_read_sector drive_id lba buffer s =
     (if drive_id < 0 \<or> drive_id \<ge> sys_drive_count s then (0, s)
      else case cache_read drive_id lba buffer s of
        (hit, s) \<Rightarrow>
          if hit \<noteq> 0 then (1, s)
          else let (res, s) = drive_read (sys_drives s ! nat drive_id) lba buffer s in
            if res \<noteq> 0 then (res, cache_write_thru drive_id lba buffer s) else (res, s))"

definition disk_write_sector :: "int \<Rightarrow> u32 \<Rightarrow> u32 \<Rightarrow> 'z disk_scheme \<Rightarrow> int \<times> 'z disk_scheme" where
  "disk_write_sector drive_id lba buffer s =
     (if isReadMode s = 1 then (0, s)
      else if drive_id < 0 \<or> drive_id \<ge> sys_drive_count s then (0, s)
      else let (res, s) = drive_write (sys_drives s ! nat drive_id) lba buffer s in
        if res \<noteq> 0 then (res, cache_write_thru drive_id lba buffer s) else (res, s))"

section \<open>The boot ramdisk\<close>

text \<open>A module of the multiboot information: its name, start and end.\<close>

type_synonym boot_module = "string \<times> u32 \<times> u32"

definition shift_drives :: "int \<Rightarrow> drive_info list \<Rightarrow> drive_info list" where
  "shift_drives n ds = (case ds of [] \<Rightarrow> [] | d # _ \<Rightarrow> d # take (nat n) ds @ drop (Suc (nat n)) ds)"

fun initrd_modules :: "boot_module list \<Rightarrow> 'z disk_scheme \<Rightarrow> 'z disk_scheme option" where
  "initrd_modules [] s = Some s"
| "initrd_modules ((module_name, mod_start, mod_end) # mods) s =
     (if strcmp module_name ''disk.img'' = 0 then do {
        let s = s\<lparr>ramdisk_start := mod_start, ramdisk_size := mod_end - mod_start\<rparr>;
        s \<leftarrow> (if sys_drive_count s < int MAX_SYS_DRIVES then do {
            let s = s\<lparr>sys_drives := shift_drives (sys_drive_count s) (sys_drives s)\<rparr>;
            s \<leftarrow> upd_drive 0 (\<lambda>d. d\<lparr>dr_type := DRIVE_TYPE_RAMDISK, dr_name := ''LiveUSB Ramdisk''\<rparr>) s;
            let s = s\<lparr>sys_drive_count := sys_drive_count s + 1\<rparr>;
            klog ''[INITRD] Ramdisk loaded into memory successfully.'' s }
          else Some s);
        initrd_modules mods s }
      else initrd_modules mods s)"

definition initrd_files :: "u32 \<Rightarrow> boot_module list \<Rightarrow> 'z disk_scheme \<Rightarrow> 'z disk_scheme option" where
  "initrd_files mbi_flags mods s =
     (if mbi_flags AND 0x08 = 0 then klog ''[INITRD] No modules loaded via GRUB.'' s
      else initrd_modules mods s)"

end
