(* ===== verification/Disk_Spec.thy ===== *)
theory Disk_Spec
  imports Disk
begin

text \<open>
  The disk layer as a block device. The cache keeps its valid entries as a prefix with
  distinct sectors; on a ramdisk every cached sector equals the sector in memory, so reading
  through the cache is reading the disk, and a write is seen by every later read.
\<close>

section \<open>The cache\<close>

abbreviation ce_key :: "cache_entry \<Rightarrow> int \<times> u32" where
  "ce_key e \<equiv> (ce_drive_id e, ce_lba e)"

definition cache_wf :: "cache_entry list \<Rightarrow> bool" where
  "cache_wf es \<longleftrightarrow>
     (\<forall>j<length es. ce_valid (es ! j) \<longrightarrow> (\<forall>i<j. ce_valid (es ! i))) \<and>
     (\<forall>i<length es. \<forall>j<length es. i \<noteq> j \<longrightarrow> ce_valid (es ! i) \<longrightarrow> ce_valid (es ! j) \<longrightarrow> ce_key (es ! i) \<noteq> ce_key (es ! j))"

lemma cache_wf_cong:
  assumes wf: "cache_wf es" and len: "length es' = length es"
    and valid: "\<And>j. j < length es \<Longrightarrow> ce_valid (es' ! j) = ce_valid (es ! j)"
    and key: "\<And>j. j < length es \<Longrightarrow> ce_key (es' ! j) = ce_key (es ! j)"
  shows "cache_wf es'"
  unfolding cache_wf_def
proof (intro conjI allI impI)
  fix j i assume "j < length es'" "ce_valid (es' ! j)" "i < j"
  then show "ce_valid (es' ! i)" using wf valid [of i] valid [of j] len by (simp add: cache_wf_def)
next
  fix i j assume a: "i < length es'" "j < length es'" "i \<noteq> j" "ce_valid (es' ! i)" "ce_valid (es' ! j)"
  have v: "ce_valid (es ! i)" "ce_valid (es ! j)" "i < length es" "j < length es"
    using a valid [of i] valid [of j] len by simp_all
  then have "ce_key (es ! i) \<noteq> ce_key (es ! j)" using wf a(3) unfolding cache_wf_def by blast
  then show "ce_key (es' ! i) \<noteq> ce_key (es' ! j)" using key a len by simp
qed

lemma cache_find_Some:
  "cache_find es i d l = Some r \<Longrightarrow> \<exists>j<length es. r = i + j \<and> ce_valid (es ! j) \<and> ce_key (es ! j) = (d, l)"
proof (induction es arbitrary: i)
  case (Cons e es)
  show ?case
  proof (cases "ce_valid e \<and> ce_key e = (d, l)")
    case True
    then show ?thesis using Cons.prems by (intro exI [of _ 0]) auto
  next
    case False
    then have "cache_find es (Suc i) d l = Some r" using Cons.prems by (auto split: if_splits)
    from Cons.IH [OF this] obtain j where "j < length es" "r = Suc i + j" "ce_valid (es ! j)" "ce_key (es ! j) = (d, l)"
      by auto
    then show ?thesis by (intro exI [of _ "Suc j"]) auto
  qed
qed simp

lemma cache_find_None:
  "cache_find es i d l = None \<Longrightarrow> j < length es \<Longrightarrow> ce_valid (es ! j) \<Longrightarrow> ce_key (es ! j) \<noteq> (d, l)"
  by (induction es arbitrary: i j) (auto split: if_splits simp: less_Suc_eq_0_disj nth_Cons split: nat.splits)

lemma cache_target_cases:
  fixes es :: "cache_entry list"
  assumes P_def: "P = (\<lambda>e. \<not> ce_valid e \<or> ce_key e = (d, l))"
  shows "(\<exists>j<length es. P (es ! j) \<and> (\<forall>m<j. \<not> P (es ! m)) \<and> cache_target es i d l mn t = i + j) \<or>
    ((\<forall>j<length es. \<not> P (es ! j)) \<and> (cache_target es i d l mn t = t \<or>
       i \<le> cache_target es i d l mn t \<and> cache_target es i d l mn t < i + length es))"
proof (induction es arbitrary: i mn t)
  case (Cons e es)
  show ?case
  proof (cases "P e")
    case True
    then have "cache_target (e # es) i d l mn t = i" by (auto simp: P_def)
    then show ?thesis using True by (intro disjI1 exI [of _ 0]) simp
  next
    case False
    then obtain mn' t' where step: "cache_target (e # es) i d l mn t = cache_target es (Suc i) d l mn' t'" "t' = t \<or> t' = i"
      by (cases "ce_last_access e < mn") (auto simp: P_def)
    from Cons.IH [of "Suc i" mn' t'] show ?thesis
    proof
      assume "\<exists>j<length es. P (es ! j) \<and> (\<forall>m<j. \<not> P (es ! m)) \<and> cache_target es (Suc i) d l mn' t' = Suc i + j"
      then obtain j where "j < length es" "P (es ! j)" "\<forall>m<j. \<not> P (es ! m)" "cache_target es (Suc i) d l mn' t' = Suc i + j" by blast
      then show ?thesis using step(1) False
        by (intro disjI1 exI [of _ "Suc j"]) (auto simp: nth_Cons split: nat.splits)
    next
      assume "(\<forall>j<length es. \<not> P (es ! j)) \<and> (cache_target es (Suc i) d l mn' t' = t' \<or>
        Suc i \<le> cache_target es (Suc i) d l mn' t' \<and> cache_target es (Suc i) d l mn' t' < Suc i + length es)"
      then show ?thesis using step False by (intro disjI2) (auto simp: nth_Cons split: nat.splits)
    qed
  qed
qed simp

lemma cache_insert_wf:
  assumes wf: "cache_wf es" and ne: "es \<noteq> []" and new: "ce_valid e" "ce_key e = (d, l)"
    and r: "r = cache_target es 0 d l mn 0"
  shows "r < length es" and "cache_wf (es[r := e])"
    and "\<And>j. j < length es \<Longrightarrow> j \<noteq> r \<Longrightarrow> ce_valid (es ! j) \<Longrightarrow> ce_key (es ! j) \<noteq> (d, l)"
proof -
  have pre: "ce_valid (es ! i)" if "i < j" "j < length es" "ce_valid (es ! j)" for i j
    using wf that by (auto simp: cache_wf_def)
  have dist: "ce_key (es ! i) \<noteq> ce_key (es ! j)" if "i \<noteq> j" "i < length es" "j < length es" "ce_valid (es ! i)" "ce_valid (es ! j)" for i j
    using wf that unfolding cache_wf_def by blast
  have "r < length es \<and> (\<forall>i<r. ce_valid (es ! i)) \<and>
      (\<forall>j<length es. j \<noteq> r \<longrightarrow> ce_valid (es ! j) \<longrightarrow> ce_key (es ! j) \<noteq> (d, l))"
    using cache_target_cases [OF refl, where es = es and d = d and l = l and i = 0 and mn = mn and t = 0]
  proof
    assume "\<exists>j<length es. (\<not> ce_valid (es ! j) \<or> ce_key (es ! j) = (d, l)) \<and>
       (\<forall>m<j. \<not> (\<not> ce_valid (es ! m) \<or> ce_key (es ! m) = (d, l))) \<and> cache_target es 0 d l mn 0 = 0 + j"
    then have c: "r < length es" "\<not> ce_valid (es ! r) \<or> ce_key (es ! r) = (d, l)"
      "\<forall>m<r. ce_valid (es ! m) \<and> ce_key (es ! m) \<noteq> (d, l)" using r by auto
    have "ce_key (es ! j) \<noteq> (d, l)" if "j < length es" "j \<noteq> r" "ce_valid (es ! j)" for j
    proof (cases "j < r")
      case True
      then show ?thesis using c(3) by blast
    next
      case False
      then have "ce_valid (es ! r)" using pre [of r j] that by simp
      then show ?thesis using dist [of j r] that c by auto
    qed
    then show ?thesis using c by blast
  next
    assume "(\<forall>j<length es. \<not> (\<not> ce_valid (es ! j) \<or> ce_key (es ! j) = (d, l))) \<and>
      (cache_target es 0 d l mn 0 = 0 \<or> 0 \<le> cache_target es 0 d l mn 0 \<and> cache_target es 0 d l mn 0 < 0 + length es)"
    then show ?thesis using r ne by auto
  qed
  then have rl: "r < length es" and rp: "\<And>i. i < r \<Longrightarrow> ce_valid (es ! i)"
    and oth: "\<And>j. j < length es \<Longrightarrow> j \<noteq> r \<Longrightarrow> ce_valid (es ! j) \<Longrightarrow> ce_key (es ! j) \<noteq> (d, l)" by blast+
  show "r < length es" by fact
  show "\<And>j. j < length es \<Longrightarrow> j \<noteq> r \<Longrightarrow> ce_valid (es ! j) \<Longrightarrow> ce_key (es ! j) \<noteq> (d, l)" by fact
  show "cache_wf (es[r := e])"
    unfolding cache_wf_def
  proof (intro conjI allI impI)
    fix j i assume "j < length (es[r := e])" "ce_valid (es[r := e] ! j)" "i < j"
    then show "ce_valid (es[r := e] ! i)"
      using new rp pre [of i j] rl by (cases "i = r"; cases "j = r") auto
  next
    fix i j assume a: "i < length (es[r := e])" "j < length (es[r := e])" "i \<noteq> j"
      "ce_valid (es[r := e] ! i)" "ce_valid (es[r := e] ! j)"
    show "ce_key (es[r := e] ! i) \<noteq> ce_key (es[r := e] ! j)"
    proof (cases "i = r")
      case True
      then show ?thesis using a rl new oth [of j] by (simp add: prod_eq_iff) metis
    next
      case False
      then show ?thesis using a rl new oth [of i] dist [of i j] by (cases "j = r") (auto simp: prod_eq_iff)
    qed
  qed
qed

section \<open>Copies of a sector\<close>

lemma block_copy_write_bytes:
  assumes "n < 4294967296"
  shows "block_copy m d s n = write_bytes m d (read_bytes m s n)"
proof
  fix x :: u32
  show "block_copy m d s n x = write_bytes m d (read_bytes m s n) x"
    using assms by (simp add: write_bytes_eq block_copy_def read_bytes_def)
qed

definition apart :: "u32 \<Rightarrow> nat \<Rightarrow> u32 \<Rightarrow> nat \<Rightarrow> bool" where
  "apart a n b k \<longleftrightarrow> unat a + n \<le> 4294967296 \<and> unat b + k \<le> 4294967296 \<and>
     (unat a + n \<le> unat b \<or> unat b + k \<le> unat a)"

lemma fast_memcpy_sector:
  assumes "apart d 512 s 512"
  shows "fast_memcpy m d s 512 = write_bytes m d (read_bytes m s 512)"
proof -
  have "512 \<le> unat (d - s)"
    using assms unat_sub_if_size [of d s] by (auto simp: apart_def word_size split: if_splits)
  then have "fast_memcpy m d s 512 = block_copy m d s (unat (512 :: u32))"
    by (intro fast_memcpy_block_copy) simp
  then show ?thesis by (simp add: block_copy_write_bytes)
qed

lemma write_bytes_other:
  assumes "apart d (length bs) a n" and "length bs < 4294967296" and "unat a \<le> unat x" "unat x < unat a + n"
  shows "write_bytes m d bs x = m x"
proof -
  have "\<not> unat (x - d) < length bs"
    using assms unat_sub_if_size [of x d] by (auto simp: apart_def word_size split: if_splits)
  then show ?thesis using assms(2) by (simp add: write_bytes_eq)
qed

lemma read_write_bytes_other:
  assumes "apart d (length bs) a n" and "length bs < 4294967296" and "n < 4294967296"
  shows "read_bytes (write_bytes m d bs) a n = read_bytes m a n"
proof (rule read_bytes_cong)
  fix i assume i: "i < n"
  have "unat (a + of_nat i) = unat a + i"
    using assms i unat_of_nat32 [of i] by (subst unat_add_no_wrap32) (auto simp: apart_def)
  then show "write_bytes m d bs (a + of_nat i) = m (a + of_nat i)"
    using i by (intro write_bytes_other [OF assms(1,2)]) auto
qed

section \<open>The ramdisk\<close>

definition sector :: "'z disk_scheme \<Rightarrow> nat \<Rightarrow> u8 list" where
  "sector s k = read_bytes (mem s) (ramdisk_start s + of_nat (k * 512)) 512"

definition sectors :: "'z disk_scheme \<Rightarrow> nat" where
  "sectors s = unat (ramdisk_size s) div 512"

definition cache_coherent :: "int \<Rightarrow> 'z disk_scheme \<Rightarrow> bool" where
  "cache_coherent d s \<longleftrightarrow> length (cache_entries s) = CACHE_SIZE \<and> cache_wf (cache_entries s) \<and>
     (\<forall>j<CACHE_SIZE. let e = cache_entries s ! j in ce_valid e \<and> ce_drive_id e = d \<longrightarrow>
        unat (ce_lba e) < sectors s \<and> ce_data e = sector s (unat (ce_lba e)))"

definition ram_inv :: "int \<Rightarrow> 'z disk_scheme \<Rightarrow> bool" where
  "ram_inv d s \<longleftrightarrow> 0 \<le> d \<and> d < sys_drive_count s \<and> dr_type (sys_drives s ! nat d) = DRIVE_TYPE_RAMDISK \<and>
     512 dvd unat (ramdisk_size s) \<and> unat (ramdisk_start s) + unat (ramdisk_size s) \<le> 4294967296 \<and>
     (disk_cache s \<noteq> NULL \<longrightarrow> cache_coherent d s)"

lemma sector_frame [simp]:
  "sector (s\<lparr>cache_entries := es\<rparr>) k = sector s k" "sectors (s\<lparr>cache_entries := es\<rparr>) = sectors s"
  "sectors (s\<lparr>mem := m\<rparr>) = sectors s"
  by (simp_all add: sector_def sectors_def)

text \<open>A buffer outside the ramdisk.\<close>

definition buf_ok :: "'z disk_scheme \<Rightarrow> u32 \<Rightarrow> bool" where
  "buf_ok s b \<longleftrightarrow> apart b 512 (ramdisk_start s) (unat (ramdisk_size s))"

lemma sector_addr:
  assumes "unat (ramdisk_start s) + unat (ramdisk_size s) \<le> 4294967296" and "512 dvd unat (ramdisk_size s)" and "k < sectors s"
  shows "unat (ramdisk_start s + of_nat (k * 512)) = unat (ramdisk_start s) + k * 512"
    and "k * 512 + 512 \<le> unat (ramdisk_size s)"
proof -
  show le: "k * 512 + 512 \<le> unat (ramdisk_size s)" using assms(2,3) by (auto simp: sectors_def elim!: dvdE)
  have "unat (of_nat (k * 512) :: u32) = k * 512" using le unat_lt32 [of "ramdisk_size s"] by (intro unat_of_nat32) simp
  then show "unat (ramdisk_start s + of_nat (k * 512)) = unat (ramdisk_start s) + k * 512"
    using le assms(1) by (subst unat_add_no_wrap32) auto
qed

lemma lba_512:
  assumes "unat lba < sectors s"
  shows "lba * 512 = of_nat (unat lba * 512)" and "lba * 512 < ramdisk_size s"
proof -
  show eq: "lba * 512 = of_nat (unat lba * 512)" by simp
  have lt: "unat lba * 512 < unat (ramdisk_size s)"
  proof -
    have "Suc (unat lba) * 512 \<le> unat (ramdisk_size s) div 512 * 512"
      using assms by (intro mult_le_mono1) (simp add: sectors_def)
    also have "\<dots> \<le> unat (ramdisk_size s)" by (rule div_times_less_eq_dividend)
    finally show ?thesis by simp
  qed
  then have "unat (of_nat (unat lba * 512) :: u32) = unat lba * 512"
    using unat_lt32 [of "ramdisk_size s"] by (intro unat_of_nat32) simp
  then show "lba * 512 < ramdisk_size s" unfolding eq word_less_nat_alt using lt by simp
qed

lemma buf_sector_apart:
  assumes "ram_inv d s" and "buf_ok s b" and "k < sectors s"
  shows "apart b 512 (ramdisk_start s + of_nat (k * 512)) 512" "apart (ramdisk_start s + of_nat (k * 512)) 512 b 512"
  using assms sector_addr [of s k] by (auto simp: ram_inv_def buf_ok_def apart_def)

text \<open>Writing a buffer leaves the sectors alone.\<close>

lemma sector_write_buf:
  assumes "ram_inv d s" and "buf_ok s b" and "k < sectors s" and "length bs = 512"
  shows "sector (s\<lparr>mem := write_bytes (mem s) b bs\<rparr>) k = sector s k"
  using buf_sector_apart [OF assms(1-3)] assms(4) by (simp add: sector_def read_write_bytes_other)

lemma cache_insert_coherent:
  assumes coh: "cache_coherent d s" and lba: "unat lba < sectors s" and data: "read_bytes (mem s) buffer 512 = sector s (unat lba)"
  shows "cache_coherent d (cache_write_thru d lba buffer s)"
proof (cases "disk_cache s = NULL")
  case True
  then show ?thesis using coh by (simp add: cache_write_thru_def)
next
  case False
  let ?es = "cache_entries s"
  let ?e = "\<lparr>ce_drive_id = d, ce_lba = lba, ce_data = read_bytes (mem s) buffer 512, ce_last_access = get_ticks s, ce_valid = True\<rparr>"
  let ?r = "cache_target ?es 0 d lba 0xFFFFFFFF 0"
  have wf: "cache_wf ?es" "length ?es = CACHE_SIZE" using coh by (auto simp: cache_coherent_def)
  have ne: "?es \<noteq> []" using wf(2) by (auto simp: CACHE_SIZE_def)
  note ins = cache_insert_wf [OF wf(1) ne _ _ refl, where e = ?e and d = d and l = lba and mn = "0xFFFFFFFF", simplified]
  have eq: "cache_write_thru d lba buffer s = s\<lparr>cache_entries := ?es[?r := ?e]\<rparr>"
    using False by (simp add: cache_write_thru_def Let_def)
  show ?thesis
    unfolding eq cache_coherent_def Let_def
  proof (intro conjI allI impI)
    fix j assume j: "j < CACHE_SIZE"
      "ce_valid (cache_entries (s\<lparr>cache_entries := ?es[?r := ?e]\<rparr>) ! j) \<and> ce_drive_id (cache_entries (s\<lparr>cache_entries := ?es[?r := ?e]\<rparr>) ! j) = d"
    show "unat (ce_lba (cache_entries (s\<lparr>cache_entries := ?es[?r := ?e]\<rparr>) ! j)) < sectors (s\<lparr>cache_entries := ?es[?r := ?e]\<rparr>)"
      "ce_data (cache_entries (s\<lparr>cache_entries := ?es[?r := ?e]\<rparr>) ! j) =
        sector (s\<lparr>cache_entries := ?es[?r := ?e]\<rparr>) (unat (ce_lba (cache_entries (s\<lparr>cache_entries := ?es[?r := ?e]\<rparr>) ! j)))"
      using j coh wf ins(1) lba data
      by (cases "j = ?r"; auto simp: cache_coherent_def Let_def)+
  qed (use wf ins in simp_all)
qed

lemma cache_write_thru_frame:
  "mem (cache_write_thru d lba b s) = mem s" "ramdisk_start (cache_write_thru d lba b s) = ramdisk_start s"
  "ramdisk_size (cache_write_thru d lba b s) = ramdisk_size s" "disk_cache (cache_write_thru d lba b s) = disk_cache s"
  "sys_drives (cache_write_thru d lba b s) = sys_drives s" "sys_drive_count (cache_write_thru d lba b s) = sys_drive_count s"
  "isReadMode (cache_write_thru d lba b s) = isReadMode s"
  by (simp_all add: cache_write_thru_def Let_def)

lemma cache_write_thru_upd: "\<exists>es. cache_write_thru d lba b s = s\<lparr>cache_entries := es\<rparr>"
proof (cases "disk_cache s = NULL")
  case True
  then show ?thesis by (intro exI [of _ "cache_entries s"]) (simp add: cache_write_thru_def)
qed (auto simp: cache_write_thru_def Let_def)

lemma drive_read_ram:
  assumes inv: "ram_inv d s" and lba: "unat lba < sectors s" and b: "buf_ok s buffer"
  shows "drive_read (sys_drives s ! nat d) lba buffer s = (1, s\<lparr>mem := write_bytes (mem s) buffer (sector s (unat lba))\<rparr>)"
proof -
  have "\<not> lba * 512 \<ge> ramdisk_size s" using lba_512(2) [OF lba] by simp
  moreover have "fast_memcpy (mem s) buffer (ramdisk_start s + lba * 512) 512 = write_bytes (mem s) buffer (sector s (unat lba))"
    using fast_memcpy_sector [OF buf_sector_apart(1) [OF inv b lba]] by (simp add: sector_def)
  ultimately show ?thesis using inv by (simp add: drive_read_def ram_inv_def)
qed

lemma length_sector [simp]: "length (sector s k) = 512"
  by (simp add: sector_def)

lemma disk_read_ram:
  fixes s :: "'z disk_scheme"
  assumes inv: "ram_inv d s" and lba: "unat lba < sectors s" and b: "buf_ok s buffer"
  obtains es where "disk_read_sector d lba buffer s =
      (1, s\<lparr>mem := write_bytes (mem s) buffer (sector s (unat lba)), cache_entries := es\<rparr>)"
    "ram_inv d (s\<lparr>mem := write_bytes (mem s) buffer (sector s (unat lba)), cache_entries := es\<rparr>)"
proof -
  let ?m = "write_bytes (mem s) buffer (sector s (unat lba))"
  let ?s = "s\<lparr>mem := ?m\<rparr>"
  have sec: "sector ?s k = sector s k" if "k < sectors s" for k
    by (rule sector_write_buf [OF inv b that]) simp
  have range: "\<not> (d < 0 \<or> d \<ge> sys_drive_count s)" using inv by (auto simp: ram_inv_def)
  have coh_m: "cache_coherent d (?s\<lparr>cache_entries := es\<rparr>)"
    if "cache_coherent d (s\<lparr>cache_entries := es\<rparr>)" for es
    using that sec unfolding cache_coherent_def Let_def by simp
  show ?thesis
  proof (cases "fst (cache_read d lba buffer s) = 0")
    case True
    then have miss: "cache_read d lba buffer s = (0, s)" by (auto simp: cache_read_def Let_def split: option.splits if_splits)
    obtain es where es: "cache_write_thru d lba buffer ?s = ?s\<lparr>cache_entries := es\<rparr>" using cache_write_thru_upd by blast
    have run: "disk_read_sector d lba buffer s = (1, ?s\<lparr>cache_entries := es\<rparr>)"
      using range miss drive_read_ram [OF inv lba b] es by (simp add: disk_read_sector_def)
    have "cache_coherent d (?s\<lparr>cache_entries := es\<rparr>)" if "disk_cache s \<noteq> NULL"
    proof -
      have "cache_coherent d ?s" using coh_m [of "cache_entries s"] inv that by (simp add: ram_inv_def)
      moreover have "read_bytes ?m buffer 512 = sector ?s (unat lba)"
        using read_write_bytes [of "sector s (unat lba)" "mem s" buffer] sec [OF lba] by simp
      ultimately show ?thesis using cache_insert_coherent [of d ?s lba buffer] lba es by (simp add: sectors_def)
    qed
    then show ?thesis using run inv by (intro that [of es]) (auto simp: ram_inv_def)
  next
    case False
    then obtain i where i: "disk_cache s \<noteq> NULL" "cache_find (cache_entries s) 0 d lba = Some i"
      by (auto simp: cache_read_def split: option.splits if_splits)
    have coh: "cache_coherent d s" using inv i(1) by (simp add: ram_inv_def)
    obtain "i < length (cache_entries s)" "ce_valid (cache_entries s ! i)" "ce_key (cache_entries s ! i) = (d, lba)"
      using cache_find_Some [OF i(2)] by auto
    note e = this
    define es where "es = (cache_entries s)[i := (cache_entries s ! i)\<lparr>ce_last_access := get_ticks s\<rparr>]"
    have data: "ce_data (cache_entries s ! i) = sector s (unat lba)"
      using coh e by (auto simp: cache_coherent_def Let_def)
    have run: "disk_read_sector d lba buffer s = (1, ?s\<lparr>cache_entries := es\<rparr>)"
      using range i data by (simp add: disk_read_sector_def cache_read_def Let_def es_def)
    have same: "ce_valid (es ! j) = ce_valid (cache_entries s ! j)" "ce_key (es ! j) = ce_key (cache_entries s ! j)"
      "ce_data (es ! j) = ce_data (cache_entries s ! j)" if "j < length (cache_entries s)" for j
      using that by (cases "j = i"; simp add: es_def)+
    have "cache_coherent d (s\<lparr>cache_entries := es\<rparr>)"
    proof -
      have "cache_wf es" by (rule cache_wf_cong [of "cache_entries s"]) (use coh same in \<open>simp_all add: cache_coherent_def es_def\<close>)
      moreover have "length es = CACHE_SIZE" using coh by (simp add: es_def cache_coherent_def)
      moreover have "unat (ce_lba (es ! j)) < sectors s \<and> ce_data (es ! j) = sector s (unat (ce_lba (es ! j)))"
        if "j < CACHE_SIZE" "ce_valid (es ! j)" "ce_drive_id (es ! j) = d" for j
        using that same [of j] coh by (simp add: cache_coherent_def Let_def)
      ultimately show ?thesis by (simp add: cache_coherent_def Let_def)
    qed
    then have "ram_inv d (?s\<lparr>cache_entries := es\<rparr>)" using inv coh_m by (simp add: ram_inv_def)
    then show ?thesis using run by (intro that) auto
  qed
qed

lemma disk_write_ram:
  fixes s :: "'z disk_scheme"
  assumes inv: "ram_inv d s" and lba: "unat lba < sectors s" and b: "buf_ok s buffer" and rw: "isReadMode s \<noteq> 1"
  obtains es where "disk_write_sector d lba buffer s =
      (1, s\<lparr>mem := write_bytes (mem s) (ramdisk_start s + of_nat (unat lba * 512)) (read_bytes (mem s) buffer 512), cache_entries := es\<rparr>)"
    "ram_inv d (s\<lparr>mem := write_bytes (mem s) (ramdisk_start s + of_nat (unat lba * 512)) (read_bytes (mem s) buffer 512), cache_entries := es\<rparr>)"
    "\<And>k. k < sectors s \<Longrightarrow>
      sector (s\<lparr>mem := write_bytes (mem s) (ramdisk_start s + of_nat (unat lba * 512)) (read_bytes (mem s) buffer 512), cache_entries := es\<rparr>) k =
        (if k = unat lba then read_bytes (mem s) buffer 512 else sector s k)"
proof -
  let ?a = "ramdisk_start s + of_nat (unat lba * 512)" and ?data = "read_bytes (mem s) buffer 512"
  let ?m = "write_bytes (mem s) ?a ?data"
  let ?s = "s\<lparr>mem := ?m\<rparr>"
  have ram: "unat (ramdisk_start s) + unat (ramdisk_size s) \<le> 4294967296" "512 dvd unat (ramdisk_size s)"
    "dr_type (sys_drives s ! nat d) = DRIVE_TYPE_RAMDISK" "\<not> (d < 0 \<or> d \<ge> sys_drive_count s)"
    using inv by (auto simp: ram_inv_def)
  have sec: "sector ?s k = (if k = unat lba then ?data else sector s k)" if "k < sectors s" for k
  proof (cases "k = unat lba")
    case True
    then show ?thesis using read_write_bytes [of ?data "mem s" ?a] by (simp add: sector_def)
  next
    case False
    have "apart ?a 512 (ramdisk_start s + of_nat (k * 512)) 512"
      using sector_addr [OF ram(1,2) lba] sector_addr [OF ram(1,2) that] False ram(1) by (auto simp: apart_def)
    then show ?thesis using False by (simp add: sector_def read_write_bytes_other)
  qed
  have dw: "drive_write (sys_drives s ! nat d) lba buffer s = (1, ?s)"
    using lba_512(2) [OF lba] fast_memcpy_sector [OF buf_sector_apart(2) [OF inv b lba]] ram(3)
    by (simp add: drive_write_def)
  obtain es where es: "cache_write_thru d lba buffer ?s = ?s\<lparr>cache_entries := es\<rparr>" using cache_write_thru_upd by blast
  have run: "disk_write_sector d lba buffer s = (1, ?s\<lparr>cache_entries := es\<rparr>)"
    using rw ram(4) dw es by (simp add: disk_write_sector_def)
  have "cache_coherent d (?s\<lparr>cache_entries := es\<rparr>)" if nn: "disk_cache s \<noteq> NULL"
  proof -
    let ?E = "cache_entries s"
    let ?e = "\<lparr>ce_drive_id = d, ce_lba = lba, ce_data = read_bytes ?m buffer 512, ce_last_access = get_ticks s, ce_valid = True\<rparr>"
    let ?r = "cache_target ?E 0 d lba 0xFFFFFFFF 0"
    have coh: "cache_coherent d s" using inv nn by (simp add: ram_inv_def)
    then have wf: "cache_wf ?E" "length ?E = CACHE_SIZE" by (auto simp: cache_coherent_def)
    have ne: "?E \<noteq> []" using wf(2) by (auto simp: CACHE_SIZE_def)
    note ins = cache_insert_wf [OF wf(1) ne _ _ refl, where e = ?e and d = d and l = lba and mn = "0xFFFFFFFF", simplified]
    have es': "es = ?E[?r := ?e]"
      using es nn unfolding cache_write_thru_def Let_def by (simp add: get_ticks_def) (metis disk.select_convs(2) disk.surjective disk.update_convs(2))
    have buf: "read_bytes ?m buffer 512 = ?data"
      using buf_sector_apart(2) [OF inv b lba] by (simp add: read_write_bytes_other)
    have "unat (ce_lba (es ! j)) < sectors s \<and> ce_data (es ! j) = sector ?s (unat (ce_lba (es ! j)))"
      if j: "j < CACHE_SIZE" "ce_valid (es ! j)" "ce_drive_id (es ! j) = d" for j
    proof (cases "j = ?r")
      case True
      then show ?thesis using lba sec [OF lba] buf wf(2) j(1) by (simp add: es')
    next
      case False
      then have e: "es ! j = ?E ! j" by (simp add: es')
      then have "ce_lba (?E ! j) \<noteq> lba" using ins(3) [of j] False j wf(2) by auto
      then have "unat (ce_lba (?E ! j)) \<noteq> unat lba" by (simp add: word_unat_eq_iff)
      moreover have "unat (ce_lba (?E ! j)) < sectors s \<and> ce_data (?E ! j) = sector s (unat (ce_lba (?E ! j)))"
        using coh j e by (auto simp: cache_coherent_def Let_def)
      ultimately show ?thesis using sec [of "unat (ce_lba (?E ! j))"] e by simp
    qed
    moreover have "cache_wf es" "length es = CACHE_SIZE" using ins(2) wf(2) by (simp_all add: es')
    ultimately show ?thesis by (simp add: cache_coherent_def Let_def)
  qed
  then have inv': "ram_inv d (?s\<lparr>cache_entries := es\<rparr>)" using inv by (simp add: ram_inv_def)
  have "sector (?s\<lparr>cache_entries := es\<rparr>) k = (if k = unat lba then ?data else sector s k)" if "k < sectors s" for k
    using sec [OF that] by simp
  then show ?thesis using run inv' by (intro that [of es]) auto
qed

end
