(* ===== verification/Disk_Props.thy ===== *)
theory Disk_Props
  imports Disk_Spec
begin

text \<open>
  Block devices as an interface: what the file system may rely on when it reads and writes
  sectors, what follows from it, and the ramdisk behind the sector cache as an instance.
\<close>

section \<open>The interface\<close>

text \<open>
  \<open>inv\<close> is the device's invariant, \<open>size\<close> its number of sectors, \<open>content\<close> a sector, \<open>buf\<close> the
  bytes of a buffer and \<open>usable\<close> the buffers a transfer may use.
\<close>

locale block_device =
  fixes inv :: "'s \<Rightarrow> bool"
    and cap :: "'s \<Rightarrow> nat"
    and content :: "'s \<Rightarrow> nat \<Rightarrow> u8 list"
    and buf :: "'s \<Rightarrow> u32 \<Rightarrow> u8 list"
    and usable :: "'s \<Rightarrow> u32 \<Rightarrow> bool"
    and rd wr :: "u32 \<Rightarrow> u32 \<Rightarrow> 's \<Rightarrow> int \<times> 's"
  assumes rd_law: "inv s \<Longrightarrow> unat lba < cap s \<Longrightarrow> usable s b \<Longrightarrow>
      \<exists>s'. rd lba b s = (1, s') \<and> inv s' \<and> cap s' = cap s \<and> (\<forall>c. usable s' c = usable s c) \<and>
        (\<forall>k<cap s. content s' k = content s k) \<and> buf s' b = content s (unat lba)"
    and wr_law: "inv s \<Longrightarrow> unat lba < cap s \<Longrightarrow> usable s b \<Longrightarrow>
      \<exists>s'. wr lba b s = (1, s') \<and> inv s' \<and> cap s' = cap s \<and> (\<forall>c. usable s' c = usable s c) \<and>
        (\<forall>k<cap s. content s' k = (if k = unat lba then buf s b else content s k)) \<and> (\<forall>c. usable s c \<longrightarrow> buf s' c = buf s c)"
begin

text \<open>A sequence of transfers, and the device seen as an array of sectors.\<close>

fun transfers :: "(bool \<times> u32 \<times> u32) list \<Rightarrow> 's \<Rightarrow> int \<times> 's" where
  "transfers [] s = (1, s)"
| "transfers ((w, lba, b) # ts) s =
     (case (if w then wr lba b s else rd lba b s) of (r, s') \<Rightarrow> if r = 1 then transfers ts s' else (r, s'))"

lemma read_after_write:
  assumes "inv s" and "unat lba < cap s" and "usable s b" and "usable s c"
  shows "\<exists>s1 s2. wr lba b s = (1, s1) \<and> rd lba c s1 = (1, s2) \<and> inv s2 \<and> buf s2 c = buf s b"
proof -
  obtain s1 where s1: "wr lba b s = (1, s1)" "inv s1" "cap s1 = cap s" "usable s1 c"
    "content s1 (unat lba) = buf s b" using wr_law [OF assms(1-3)] assms(2,4) by auto
  then obtain s2 where "rd lba c s1 = (1, s2)" "inv s2" "buf s2 c = content s1 (unat lba)"
    using rd_law [of s1 lba c] assms(2) by auto
  with s1 show ?thesis by auto
qed

lemma write_other_sector:
  assumes "inv s" and "unat lba < cap s" and "unat lba' < cap s" and "lba \<noteq> lba'" and "usable s b" and "usable s c"
  shows "\<exists>s1 s2. wr lba b s = (1, s1) \<and> rd lba' c s1 = (1, s2) \<and> buf s2 c = content s (unat lba')"
proof -
  have "unat lba' \<noteq> unat lba" using assms(4) by (simp add: word_unat_eq_iff eq_commute)
  then obtain s1 where s1: "wr lba b s = (1, s1)" "inv s1" "cap s1 = cap s" "usable s1 c"
    "content s1 (unat lba') = content s (unat lba')" using wr_law [OF assms(1,2,5)] assms(3,6) by auto
  then obtain s2 where "rd lba' c s1 = (1, s2)" "buf s2 c = content s1 (unat lba')"
    using rd_law [of s1 lba' c] assms(3) by auto
  with s1 show ?thesis by auto
qed

lemma transfers_ok:
  assumes "inv s" and "\<forall>(w, lba, b)\<in>set ts. unat lba < cap s \<and> usable s b"
  shows "\<exists>s'. transfers ts s = (1, s') \<and> inv s' \<and> cap s' = cap s"
  using assms
proof (induction ts arbitrary: s)
  case (Cons t ts)
  obtain w lba b where t: "t = (w, lba, b)" by (cases t)
  then have "unat lba < cap s" "usable s b" using Cons.prems(2) by auto
  then obtain s1 where s1: "(if w then wr lba b s else rd lba b s) = (1, s1)" "inv s1" "cap s1 = cap s"
    "\<forall>c. usable s1 c = usable s c"
    using rd_law [OF Cons.prems(1), of lba b] wr_law [OF Cons.prems(1), of lba b] by (cases w) auto
  then obtain s' where "transfers ts s1 = (1, s')" "inv s'" "cap s' = cap s"
    using Cons.IH [of s1] Cons.prems(2) by auto
  then show ?case using s1(1) t by auto
qed simp

end

section \<open>The cached ramdisk is a block device\<close>

text \<open>A writable ramdisk drive.\<close>

definition ram_rw :: "int \<Rightarrow> 'z disk_scheme \<Rightarrow> bool" where
  "ram_rw d s \<longleftrightarrow> ram_inv d s \<and> isReadMode s \<noteq> 1"

definition buffer_bytes :: "'z disk_scheme \<Rightarrow> u32 \<Rightarrow> u8 list" where
  "buffer_bytes s b = read_bytes (mem s) b 512"

interpretation ramdev: block_device "ram_rw d" sectors sector buffer_bytes buf_ok "disk_read_sector d" "disk_write_sector d"
  for d
proof (unfold_locales, goal_cases)
  case (1 s lba b)
  then have inv: "ram_inv d s" by (simp add: ram_rw_def)
  let ?m = "write_bytes (mem s) b (sector s (unat lba))"
  obtain es where es: "disk_read_sector d lba b s = (1, s\<lparr>mem := ?m, cache_entries := es\<rparr>)"
    "ram_inv d (s\<lparr>mem := ?m, cache_entries := es\<rparr>)"
    by (rule disk_read_ram [OF inv 1(2,3)])
  have "sector (s\<lparr>mem := ?m\<rparr>) k = sector s k" if "k < sectors s" for k
    by (rule sector_write_buf [OF inv 1(3) that]) simp
  moreover have "read_bytes ?m b 512 = sector s (unat lba)"
    using read_write_bytes [of "sector s (unat lba)" "mem s" b] by simp
  ultimately show ?case
    using es 1 by (intro exI [of _ "s\<lparr>mem := ?m, cache_entries := es\<rparr>"])
      (simp add: ram_rw_def buf_ok_def buffer_bytes_def)
next
  case (2 s lba b)
  then have inv: "ram_inv d s" "isReadMode s \<noteq> 1" by (simp_all add: ram_rw_def)
  let ?m = "write_bytes (mem s) (ramdisk_start s + of_nat (unat lba * 512)) (read_bytes (mem s) b 512)"
  obtain es where es: "disk_write_sector d lba b s = (1, s\<lparr>mem := ?m, cache_entries := es\<rparr>)"
    "ram_inv d (s\<lparr>mem := ?m, cache_entries := es\<rparr>)"
    "\<And>k. k < sectors s \<Longrightarrow> sector (s\<lparr>mem := ?m, cache_entries := es\<rparr>) k =
        (if k = unat lba then read_bytes (mem s) b 512 else sector s k)"
    by (rule disk_write_ram [OF inv(1) 2(2,3) inv(2)]) (rule that)
  have "read_bytes ?m c 512 = read_bytes (mem s) c 512" if "buf_ok s c" for c
    using buf_sector_apart(2) [OF inv(1) that 2(2)] by (simp add: read_write_bytes_other)
  then show ?case
    using es inv by (intro exI [of _ "s\<lparr>mem := ?m, cache_entries := es\<rparr>"])
      (simp add: ram_rw_def buf_ok_def buffer_bytes_def)
qed

section \<open>A concrete disk\<close>

definition disk_example :: disk where
  "disk_example = \<lparr>ticks = 7, mem = (\<lambda>x. ucast x), io_env = (\<lambda>_. 0), dma_env = (\<lambda>_ m. m), io_hist = [], sys_log = [], rand_next = 1,
     blocks = Map.empty, free_bins = replicate 16 NULL, heap_start = NULL, int_flag = True,
     kernel_dir = 0, current_dir = 0, cr3 = 0, paging_on = False, invlpgs = [], video_memory = 0, buffer_size_bytes = 0,
     sys_drives = [\<lparr>dr_type = DRIVE_TYPE_RAMDISK, dr_ata_id = 0, dr_ahci_port = 0, dr_name = ''LiveUSB Ramdisk''\<rparr>],
     sys_drive_count = 1, abar = 0, active_sata_port = 0, disk_cache = 0x20000000,
     cache_entries = replicate 2048 \<lparr>ce_drive_id = 0, ce_lba = 0, ce_data = replicate 512 0, ce_last_access = 0, ce_valid = False\<rparr>,
     ramdisk_start = 0x200000, ramdisk_size = 0x10000, isReadMode = 0\<rparr>"

lemma disk_example_ok: "ram_rw 0 disk_example" "sectors disk_example = 128"
  by (simp_all add: disk_example_def ram_rw_def ram_inv_def cache_coherent_def cache_wf_def sectors_def CACHE_SIZE_def)

lemma disk_example_buf: "buf_ok disk_example 0x100000" "buf_ok disk_example 0x110000"
  by (simp_all add: disk_example_def buf_ok_def apart_def)

section \<open>Properties\<close>

text \<open>
  C23. The cache never shows stale data: on a writable ramdisk whose cache is coherent, a
  sector written with \<^verbatim>\<open>disk_write_sector\<close> is what \<^verbatim>\<open>disk_read_sector\<close> delivers next, into any
  buffer outside the ramdisk, whether the read hits the cache or not, and the cache stays
  coherent.
\<close>

theorem disk_read_after_write:
  assumes "ram_inv d s" and "isReadMode s \<noteq> 1" and "unat lba < sectors s" and "buf_ok s b" and "buf_ok s c"
  shows "\<exists>s1 s2. disk_write_sector d lba b s = (1, s1) \<and> disk_read_sector d lba c s1 = (1, s2) \<and> ram_inv d s2 \<and>
    read_bytes (mem s2) c 512 = read_bytes (mem s) b 512"
proof -
  have "ram_rw d s" using assms by (simp add: ram_rw_def)
  from ramdev.read_after_write [OF this assms(3-5)] show ?thesis by (auto simp: ram_rw_def buffer_bytes_def)
qed

theorem disk_read_after_write_witness:
  "\<exists>s1 s2. disk_write_sector 0 5 0x100000 disk_example = (1, s1) \<and> disk_read_sector 0 5 0x110000 s1 = (1, s2) \<and>
     read_bytes (mem s2) 0x110000 512 = read_bytes (mem disk_example) 0x100000 512"
  using disk_read_after_write [OF _ _ _ disk_example_buf, of 0 5] disk_example_ok by (auto simp: ram_rw_def)

text \<open>
  Reading a sector delivers the disk: with a coherent cache \<^verbatim>\<open>disk_read_sector\<close> succeeds,
  fills the buffer with the 512 bytes of the sector, changes no other byte of memory and no
  sector, and keeps the cache coherent; and a write changes exactly the bytes of its sector.
\<close>

theorem disk_transfer_exact:
  fixes s :: "'z disk_scheme"
  assumes "ram_inv d s" and "isReadMode s \<noteq> 1" and "unat lba < sectors s" and "buf_ok s b"
  shows "(\<exists>es. disk_read_sector d lba b s = (1, s\<lparr>mem := write_bytes (mem s) b (sector s (unat lba)), cache_entries := es\<rparr>) \<and>
      ram_inv d (s\<lparr>mem := write_bytes (mem s) b (sector s (unat lba)), cache_entries := es\<rparr>)) \<and>
    (\<exists>es. disk_write_sector d lba b s = (1, s\<lparr>mem := write_bytes (mem s) (ramdisk_start s + of_nat (unat lba * 512))
        (read_bytes (mem s) b 512), cache_entries := es\<rparr>) \<and>
      ram_inv d (s\<lparr>mem := write_bytes (mem s) (ramdisk_start s + of_nat (unat lba * 512))
        (read_bytes (mem s) b 512), cache_entries := es\<rparr>))"
proof
  show "\<exists>es. disk_read_sector d lba b s = (1, s\<lparr>mem := write_bytes (mem s) b (sector s (unat lba)), cache_entries := es\<rparr>) \<and>
      ram_inv d (s\<lparr>mem := write_bytes (mem s) b (sector s (unat lba)), cache_entries := es\<rparr>)"
    by (rule disk_read_ram [OF assms(1,3,4)]) blast
  show "\<exists>es. disk_write_sector d lba b s = (1, s\<lparr>mem := write_bytes (mem s) (ramdisk_start s + of_nat (unat lba * 512))
        (read_bytes (mem s) b 512), cache_entries := es\<rparr>) \<and>
      ram_inv d (s\<lparr>mem := write_bytes (mem s) (ramdisk_start s + of_nat (unat lba * 512))
        (read_bytes (mem s) b 512), cache_entries := es\<rparr>)"
    by (rule disk_write_ram [OF assms(1,3,4,2)]) blast
qed

theorem disk_transfer_exact_witness:
  "\<exists>es. disk_read_sector 0 9 0x100000 disk_example =
     (1, disk_example\<lparr>mem := write_bytes (mem disk_example) 0x100000 (sector disk_example 9), cache_entries := es\<rparr>)"
  using disk_transfer_exact [OF _ _ _ disk_example_buf(1), of 0 9] disk_example_ok by (auto simp: ram_rw_def)

text \<open>
  Cache insertion keeps the cache in order, whatever drives it holds: the slot
  \<^verbatim>\<open>cache_write_thru\<close> picks is inside the array, no other valid slot holds the same sector
  afterwards, and the valid slots stay a prefix of the array, which the search relies on.
\<close>

theorem cache_write_thru_wf:
  assumes "disk_cache s \<noteq> NULL" and "cache_entries s \<noteq> []" and "cache_wf (cache_entries s)"
  shows "cache_wf (cache_entries (cache_write_thru d lba b s)) \<and>
    cache_find (cache_entries (cache_write_thru d lba b s)) 0 d lba \<noteq> None"
proof -
  let ?es = "cache_entries s" and ?r = "cache_target (cache_entries s) 0 d lba 0xFFFFFFFF 0"
  let ?e = "\<lparr>ce_drive_id = d, ce_lba = lba, ce_data = read_bytes (mem s) b 512, ce_last_access = get_ticks s, ce_valid = True\<rparr>"
  note ins = cache_insert_wf [OF assms(3,2) _ _ refl, where e = ?e and d = d and l = lba and mn = "0xFFFFFFFF", simplified]
  have "cache_entries (cache_write_thru d lba b s) = ?es[?r := ?e]"
    using assms(1) by (simp add: cache_write_thru_def Let_def)
  moreover have "cache_find (?es[?r := ?e]) 0 d lba \<noteq> None"
    using cache_find_None [of "?es[?r := ?e]" 0 d lba ?r] ins(1) by auto
  ultimately show ?thesis using ins(2) by simp
qed

theorem cache_write_thru_wf_witness:
  "cache_wf (cache_entries (cache_write_thru 3 17 0x100000 disk_example)) \<and>
   cache_find (cache_entries (cache_write_thru 3 17 0x100000 disk_example)) 0 3 17 \<noteq> None"
proof -
  have "disk_cache disk_example \<noteq> NULL" "cache_entries disk_example \<noteq> []" "cache_wf (cache_entries disk_example)"
    by (simp_all add: disk_example_def cache_wf_def)
  from cache_write_thru_wf [OF this] show ?thesis .
qed

text \<open>
  The ramdisk's bound check is computed modulo \<open>2^32\<close>: a sector number of \<open>2^23\<close> or more
  that wraps to a sector inside the ramdisk is accepted and reads that other sector.
\<close>

theorem ramdisk_lba_wraps:
  assumes "unat lba * 512 = 4294967296 + unat (lba' * 512)" and "dr_type drv = DRIVE_TYPE_RAMDISK"
  shows "drive_read drv lba b s = drive_read drv lba' b s"
proof -
  have "unat (lba * 512) = unat (lba' * 512)"
    using assms(1) unat_lt32 [of "lba' * 512"] by (simp add: unat_word_ariths)
  then have "lba * 512 = lba' * 512" by (simp add: word_unat_eq_iff)
  then show ?thesis using assms(2) by (simp add: drive_read_def)
qed

theorem ramdisk_lba_wraps_witness:
  "drive_read (sys_drives disk_example ! 0) 0x800005 0x100000 disk_example =
   drive_read (sys_drives disk_example ! 0) 5 0x100000 disk_example"
  using ramdisk_lba_wraps [of "0x800005" 5 "sys_drives disk_example ! 0"] by (simp add: disk_example_def)

text \<open>
  Command slots: \<^verbatim>\<open>find_cmdslot\<close> of the AHCI driver returns the lowest slot that is neither
  active nor issued, and -1 exactly when all 32 are taken.
\<close>

theorem find_cmdslot_correct:
  "case find_cmdslot port s of (slot, s') \<Rightarrow>
     let (sact, s1) = mmio_read (port + PORT_SACT) s; (ci, s2) = mmio_read (port + PORT_CI) s1 in s' = s2 \<and>
       (slot = -1 \<and> (\<forall>i<32. bit (sact OR ci) i) \<or>
        (\<exists>i<32. slot = int i \<and> \<not> bit sact i \<and> \<not> bit ci i \<and> (\<forall>j<i. bit (sact OR ci) j)))"
proof -
  obtain sact s1 where 1: "mmio_read (port + PORT_SACT) s = (sact, s1)" by (cases "mmio_read (port + PORT_SACT) s")
  obtain ci s2 where 2: "mmio_read (port + PORT_CI) s1 = (ci, s2)" by (cases "mmio_read (port + PORT_CI) s1")
  show ?thesis using free_slot_cases [of "sact OR ci"] by (auto simp: find_cmdslot_def 1 2 bit_or_iff)
qed

theorem find_cmdslot_correct_witness:
  "fst (find_cmdslot 0x1000 (disk_example\<lparr>io_env := \<lambda>_. 5\<rparr>)) = 1"
proof -
  have b: "bit (5::u32) 0" "\<not> bit (5::u32) 1" by (simp_all add: bit_numeral_rec)
  have "i = 1" if "i < 32" "\<not> bit (5::u32) i" "\<forall>j<i. bit (5::u32) j" for i
    using that b by (metis One_nat_def less_one linorder_neqE_nat)
  moreover have "\<not> (\<forall>i<32. bit (5::u32) i)" using b(2) by (auto intro!: exI [of _ 1])
  ultimately show ?thesis
    using find_cmdslot_correct [of "0x1000" "disk_example\<lparr>io_env := \<lambda>_. 5\<rparr>"]
    by (auto simp: mmio_read_def Let_def split: prod.splits)
qed

end
