(* ===== verification/Fat32.thy ===== *)
theory Fat32
  imports Disk
begin

text \<open>
  The FAT32 driver of \<^verbatim>\<open>fs/fat/fat32.c\<close>. Sectors travel through the static buffer
  \<^verbatim>\<open>fat_dma_buffer\<close>, whose address is part of the state, and the on-disk structures are read
  from it at their byte offsets. Paths are NUL-free character lists; a copy into one of the
  fixed-size character arrays that does not fit is a fault (\<open>None\<close>), and so is reading an output
  parameter that the callee left unset.
\<close>

section \<open>State\<close>

record fat32_bpb =
  jmp_boot :: "u8 list"
  oem_name :: "u8 list"
  bytes_per_sector :: u16
  sectors_per_cluster :: u8
  reserved_sectors :: u16
  num_fats :: u8
  root_dir_entries :: u16
  total_sectors_16 :: u16
  media_type :: u8
  sectors_per_fat_16 :: u16
  sectors_per_track :: u16
  num_heads :: u16
  hidden_sectors :: u32
  total_sectors_32 :: u32
  sectors_per_fat_32 :: u32
  ext_flags :: u16
  fs_ver :: u16
  root_cluster :: u32
  fs_info :: u16
  bk_boot_sec :: u16
  reserved :: "u8 list"
  drive_number :: u8
  reserved1 :: u8
  boot_signature :: u8
  volume_id :: u32
  volume_label :: "u8 list"
  fs_type_name :: "u8 list"

text \<open>The packed structure at an address, 90 bytes.\<close>

definition bpb_at :: "(u32 \<Rightarrow> u8) \<Rightarrow> u32 \<Rightarrow> fat32_bpb" where
  "bpb_at m a = \<lparr>jmp_boot = read_bytes m a 3, oem_name = read_bytes m (a + 3) 8,
     bytes_per_sector = load16 m (a + 11), sectors_per_cluster = m (a + 13), reserved_sectors = load16 m (a + 14),
     num_fats = m (a + 16), root_dir_entries = load16 m (a + 17), total_sectors_16 = load16 m (a + 19),
     media_type = m (a + 21), sectors_per_fat_16 = load16 m (a + 22), sectors_per_track = load16 m (a + 24),
     num_heads = load16 m (a + 26), hidden_sectors = load32 m (a + 28), total_sectors_32 = load32 m (a + 32),
     sectors_per_fat_32 = load32 m (a + 36), ext_flags = load16 m (a + 40), fs_ver = load16 m (a + 42),
     root_cluster = load32 m (a + 44), fs_info = load16 m (a + 48), bk_boot_sec = load16 m (a + 50),
     reserved = read_bytes m (a + 52) 12, drive_number = m (a + 64), reserved1 = m (a + 65), boot_signature = m (a + 66),
     volume_id = load32 m (a + 67), volume_label = read_bytes m (a + 71) 11, fs_type_name = read_bytes m (a + 82) 8\<rparr>"

record fat32_state =
  bpb :: fat32_bpb
  fat_start_sector :: u32
  data_start_sector :: u32
  last_free_fat_sector :: u32
  is_mounted :: bool

record fat = disk +
  fat_states :: "fat32_state list"
  fat_dma_buffer :: u32

text \<open>\<^verbatim>\<open>&fat_states[drive_id]\<close>, and a write through that pointer.\<close>

definition fs_at :: "int \<Rightarrow> 'z fat_scheme \<Rightarrow> fat32_state" where
  "fs_at drive_id s = fat_states s ! nat drive_id"

definition fs_of :: "int \<Rightarrow> 'z fat_scheme \<Rightarrow> fat32_state option" where
  "fs_of drive_id s = (if 0 \<le> drive_id \<and> nat drive_id < length (fat_states s) then Some (fs_at drive_id s) else None)"

definition upd_fs :: "int \<Rightarrow> (fat32_state \<Rightarrow> fat32_state) \<Rightarrow> 'z fat_scheme \<Rightarrow> 'z fat_scheme" where
  "upd_fs drive_id f s = s\<lparr>fat_states := (fat_states s)[nat drive_id := f (fs_at drive_id s)]\<rparr>"

section \<open>Directory entries\<close>

text \<open>\<^verbatim>\<open>struct fat_directory_entry\<close> at address \<open>e\<close>.\<close>

definition de_name :: "(u32 \<Rightarrow> u8) \<Rightarrow> u32 \<Rightarrow> u8 list" where "de_name m e = read_bytes m e 8"
definition de_ext :: "(u32 \<Rightarrow> u8) \<Rightarrow> u32 \<Rightarrow> u8 list" where "de_ext m e = read_bytes m (e + 8) 3"
definition de_attributes :: "(u32 \<Rightarrow> u8) \<Rightarrow> u32 \<Rightarrow> u8" where "de_attributes m e = m (e + 11)"
definition de_file_size :: "(u32 \<Rightarrow> u8) \<Rightarrow> u32 \<Rightarrow> u32" where "de_file_size m e = load32 m (e + 28)"

definition de_first_cluster :: "(u32 \<Rightarrow> u8) \<Rightarrow> u32 \<Rightarrow> u32" where
  "de_first_cluster m e = push_bit 16 (ucast (load16 m (e + 20))) OR ucast (load16 m (e + 26))"

section \<open>Names\<close>

definition pad :: "nat \<Rightarrow> string \<Rightarrow> string" where
  "pad n cs = cs @ replicate (n - length cs) (CHR '' '')"

definition to_dos_file_name :: "string \<Rightarrow> string" where
  "to_dos_file_name input =
     (let name = take 8 (takeWhile (\<lambda>c. c \<noteq> CHR ''.'') input);
          ext = (case drop (length name) input of
                   c # cs \<Rightarrow> if c = CHR ''.'' then take 3 cs else []
                 | [] \<Rightarrow> [])
      in pad 8 (map toupper_char name) @ pad 3 (map toupper_char ext))"

text \<open>
  The comparison is between a \<^verbatim>\<open>uint8_t\<close> and a (signed) \<^verbatim>\<open>char\<close>, both promoted to \<^verbatim>\<open>int\<close>.
\<close>

fun bytes_match :: "u8 list \<Rightarrow> string \<Rightarrow> bool" where
  "bytes_match (b # bs) (c # cs) \<longleftrightarrow> uint b = schar c \<and> bytes_match bs cs"
| "bytes_match bs cs \<longleftrightarrow> bs = [] \<and> cs = []"

definition match_dos_name :: "(u32 \<Rightarrow> u8) \<Rightarrow> u32 \<Rightarrow> string \<Rightarrow> bool" where
  "match_dos_name m e dos_name \<longleftrightarrow>
     bytes_match (de_name m e) (take 8 dos_name) \<and> bytes_match (de_ext m e) (drop 8 dos_name)"

definition char_byte :: "char \<Rightarrow> u8" where
  "char_byte c = of_char c"

text \<open>\<^verbatim>\<open>set_dos_name\<close> stores the eleven characters as bytes.\<close>

definition set_dos_name :: "(u32 \<Rightarrow> u8) \<Rightarrow> u32 \<Rightarrow> string \<Rightarrow> (u32 \<Rightarrow> u8)" where
  "set_dos_name m e dos_name = write_bytes m e (map char_byte dos_name)"

text \<open>
  A blank entry with an 11-character name, attributes, first cluster and size, as \<^verbatim>\<open>fast_memset\<close> and
  the field assignments leave it.
\<close>

definition de_store :: "(u32 \<Rightarrow> u8) \<Rightarrow> u32 \<Rightarrow> string \<Rightarrow> u8 \<Rightarrow> u32 \<Rightarrow> u32 \<Rightarrow> (u32 \<Rightarrow> u8)" where
  "de_store m e name attr cluster fsize =
     (let m = fast_memset m e 0 (32 div 4);
          m = set_dos_name m e name;
          m = m(e + 11 := attr);
          m = store16 m (e + 20) (ucast (drop_bit 16 cluster AND 0xFFFF));
          m = store16 m (e + 26) (ucast (cluster AND 0xFFFF))
      in store32 m (e + 28) fsize)"

section \<open>Long names\<close>

text \<open>
  \<^verbatim>\<open>lfn_buf\<close> is a list of 256 bytes. The copy of the up to thirteen characters of one long-name
  entry stops at a NUL or \<open>0xFF\<close>.
\<close>

definition lfn_clear :: "u8 list" where
  "lfn_clear = replicate 256 0"

fun lfn_copy :: "nat \<Rightarrow> u8 list \<Rightarrow> u8 list \<Rightarrow> u8 list" where
  "lfn_copy i [] lfn_buf = lfn_buf"
| "lfn_copy i (b # bs) lfn_buf =
     (if b = 0x00 \<or> b = 0xFF then lfn_buf[i := 0] else lfn_copy (Suc i) bs (lfn_buf[i := b]))"

definition extract_lfn_chars :: "(u32 \<Rightarrow> u8) \<Rightarrow> u32 \<Rightarrow> u8 list \<Rightarrow> u8 list" where
  "extract_lfn_chars m e lfn_buf =
     (let order = m e; idx = (uint (order AND 0x1F) - 1) * 13 in
      if idx < 0 \<or> idx \<ge> 256 - 13 then lfn_buf
      else let temp = map (\<lambda>i. m (e + 1 + of_nat (i * 2))) [0..<5] @ map (\<lambda>i. m (e + 14 + of_nat (i * 2))) [0..<6]
                 @ map (\<lambda>i. m (e + 28 + of_nat (i * 2))) [0..<2];
               lfn_buf = lfn_copy (nat idx) temp lfn_buf
        in if order AND 0x40 \<noteq> 0 then lfn_buf[nat idx + 13 := 0] else lfn_buf)"

definition lfn_str :: "u8 list \<Rightarrow> string" where
  "lfn_str lfn_buf = map (\<lambda>b. char_of (unat b)) (takeWhile (\<lambda>b. b \<noteq> 0) lfn_buf)"

fun fat32_streq :: "string \<Rightarrow> string \<Rightarrow> bool" where
  "fat32_streq (a # as) (b # bs) \<longleftrightarrow> tolower_char a = tolower_char b \<and> fat32_streq as bs"
| "fat32_streq as bs \<longleftrightarrow> as = [] \<and> bs = []"

text \<open>The name test of lookup and deletion.\<close>

definition is_match :: "(u32 \<Rightarrow> u8) \<Rightarrow> u32 \<Rightarrow> u8 list \<Rightarrow> string \<Rightarrow> string \<Rightarrow> bool" where
  "is_match m e lfn_buf token dos_name \<longleftrightarrow>
     (lfn_str lfn_buf \<noteq> [] \<and> fat32_streq (lfn_str lfn_buf) token) \<or> match_dos_name m e dos_name"

section \<open>Mounting\<close>

text \<open>The first FAT32 partition of a partition table in the buffer, 0 without one.\<close>

definition partition_offset :: "(u32 \<Rightarrow> u8) \<Rightarrow> u32 \<Rightarrow> u32" where
  "partition_offset m a =
     (case find (\<lambda>p. m (a + 0x1BE + p * 16 + 4) = 0x0B \<or> m (a + 0x1BE + p * 16 + 4) = 0x0C) [0, 1, 2, 3] of
        Some p \<Rightarrow> load32 m (a + 0x1BE + p * 16 + 8)
      | None \<Rightarrow> 0)"

definition mount_bpb :: "int \<Rightarrow> u32 \<Rightarrow> 'z fat_scheme \<Rightarrow> int \<times> 'z fat_scheme" where
  "mount_bpb drive_id partition_lba_offset s =
     (let b = bpb_at (mem s) (fat_dma_buffer s);
          s = upd_fs drive_id (\<lambda>f. f\<lparr>bpb := b\<rparr>) s
      in if sectors_per_cluster b = 0 \<or> bytes_per_sector b = 0 then (-1, s)
         else (0, upd_fs drive_id (\<lambda>f. f\<lparr>
           fat_start_sector := partition_lba_offset + ucast (reserved_sectors b),
           data_start_sector := partition_lba_offset + ucast (reserved_sectors b) + ucast (num_fats b) * sectors_per_fat_32 b,
           last_free_fat_sector := 0, is_mounted := True\<rparr>) s))"

definition fat32_mount :: "int \<Rightarrow> 'z fat_scheme \<Rightarrow> int \<times> 'z fat_scheme" where
  "fat32_mount drive_id s =
     (if drive_id < 0 \<or> drive_id \<ge> sys_drive_count s then (-1, s)
      else let (r, s) = disk_read_sector drive_id 0 (fat_dma_buffer s) s in
        if r = 0 then (-1, s)
        else let b0 = mem s (fat_dma_buffer s) in
          if b0 \<noteq> 0xEB \<and> b0 \<noteq> 0xE9 then
            let off = partition_offset (mem s) (fat_dma_buffer s);
                (r, s) = disk_read_sector drive_id off (fat_dma_buffer s) s
            in if r = 0 then (-1, s) else mount_bpb drive_id off s
          else mount_bpb drive_id 0 s)"

section \<open>The file allocation table\<close>

definition fat_sector_of :: "int \<Rightarrow> u32 \<Rightarrow> 'z fat_scheme \<Rightarrow> u32" where
  "fat_sector_of drive_id cluster s = fat_start_sector (fs_at drive_id s) + (cluster * 4) div 512"

definition fat32_write_fat_entry :: "int \<Rightarrow> u32 \<Rightarrow> u32 \<Rightarrow> 'z fat_scheme \<Rightarrow> 'z fat_scheme" where
  "fat32_write_fat_entry drive_id cluster val s =
     (if cluster < 2 then s
      else let fs = fs_at drive_id s;
               fat_sector = fat_sector_of drive_id cluster s;
               ent = fat_dma_buffer s + (cluster * 4) mod 512;
               (_, s) = disk_read_sector drive_id fat_sector (fat_dma_buffer s) s;
               v = (load32 (mem s) ent AND 0xF0000000) OR (val AND 0x0FFFFFFF);
               s = s\<lparr>mem := store32 (mem s) ent v\<rparr>;
               (_, s) = disk_write_sector drive_id fat_sector (fat_dma_buffer s) s
        in if num_fats (bpb fs) > 1
           then snd (disk_write_sector drive_id (fat_sector + sectors_per_fat_32 (bpb fs)) (fat_dma_buffer s) s)
           else s)"

definition cluster_to_lba :: "int \<Rightarrow> u32 \<Rightarrow> 'z fat_scheme \<Rightarrow> u32" where
  "cluster_to_lba drive_id cluster s =
     (if cluster < 2 then 0
      else data_start_sector (fs_at drive_id s) + (cluster - 2) * ucast (sectors_per_cluster (bpb (fs_at drive_id s))))"

definition get_next_cluster :: "int \<Rightarrow> u32 \<Rightarrow> 'z fat_scheme \<Rightarrow> u32 \<times> 'z fat_scheme" where
  "get_next_cluster drive_id current_cluster s =
     (if current_cluster < 2 then (0x0FFFFFFF, s)
      else let (r, s') = disk_read_sector drive_id (fat_sector_of drive_id current_cluster s) (fat_dma_buffer s) s in
        if r = 0 then (0x0FFFFFFF, s')
        else (load32 (mem s') (fat_dma_buffer s' + (current_cluster * 4) mod 512) AND 0x0FFFFFFF, s'))"

text \<open>The first free entry of the FAT sector in the buffer; \<open>n\<close> entries from index \<open>i\<close> on remain.\<close>

fun free_entry :: "(u32 \<Rightarrow> u8) \<Rightarrow> u32 \<Rightarrow> u32 \<Rightarrow> nat \<Rightarrow> u32 \<Rightarrow> u32 option" where
  "free_entry m a sec 0 i = None"
| "free_entry m a sec (Suc n) i =
     (if sec = 0 \<and> i < 2 then free_entry m a sec n (i + 1)
      else if load32 m (a + i * 4) AND 0x0FFFFFFF = 0 then Some i
      else free_entry m a sec n (i + 1))"

text \<open>The sector loop; \<open>n\<close> is the number of FAT sectors that remain.\<close>

fun find_free_loop :: "int \<Rightarrow> nat \<Rightarrow> u32 \<Rightarrow> 'z fat_scheme \<Rightarrow> u32 \<times> 'z fat_scheme" where
  "find_free_loop drive_id 0 sec s = (0, s)"
| "find_free_loop drive_id (Suc n) sec s =
     (let (r, s) = disk_read_sector drive_id (fat_start_sector (fs_at drive_id s) + sec) (fat_dma_buffer s) s in
      if r = 0 then (0, s)
      else case free_entry (mem s) (fat_dma_buffer s) sec 128 0 of
        Some i \<Rightarrow> (sec * 128 + i, upd_fs drive_id (\<lambda>f. f\<lparr>last_free_fat_sector := sec\<rparr>) s)
      | None \<Rightarrow> find_free_loop drive_id n (sec + 1) s)"

definition fat32_find_free_cluster :: "int \<Rightarrow> 'z fat_scheme \<Rightarrow> u32 \<times> 'z fat_scheme" where
  "fat32_find_free_cluster drive_id s =
     (let fs = fs_at drive_id s in
      find_free_loop drive_id (unat (sectors_per_fat_32 (bpb fs)) - unat (last_free_fat_sector fs)) (last_free_fat_sector fs) s)"

section \<open>Loops over clusters and sectors\<close>

text \<open>
  The directory loops of the driver have one shape: up to \<^verbatim>\<open>safety_limit\<close> clusters of a chain,
  each sector of the cluster, and for each sector a loop over its entries. A body answers
  \<open>Inl\<close> to leave all loops and \<open>Inr\<close> with the value it carries to go on.
\<close>

fun chain_loop :: "nat \<Rightarrow> int \<Rightarrow> (u32 \<Rightarrow> 'a \<Rightarrow> 'z fat_scheme \<Rightarrow> ('b + 'a) \<times> 'z fat_scheme) \<Rightarrow>
    u32 \<Rightarrow> 'a \<Rightarrow> 'z fat_scheme \<Rightarrow> ('b + 'a) \<times> 'z fat_scheme" where
  "chain_loop 0 drive_id f c a s = (Inr a, s)"
| "chain_loop (Suc safety_limit) drive_id f c a s =
     (if c \<ge> 2 \<and> c < 0x0FFFFFF8 then
        (case f c a s of
           (Inl r, s) \<Rightarrow> (Inl r, s)
         | (Inr a, s) \<Rightarrow>
             let (nxt, s) = get_next_cluster drive_id c s in
             if nxt = c \<or> nxt < 2 then (Inr a, s) else chain_loop safety_limit drive_id f nxt a s)
      else (Inr a, s))"

fun sector_loop :: "nat \<Rightarrow> (u32 \<Rightarrow> 'a \<Rightarrow> 'z fat_scheme \<Rightarrow> ('b + 'a) \<times> 'z fat_scheme) \<Rightarrow>
    u32 \<Rightarrow> 'a \<Rightarrow> 'z fat_scheme \<Rightarrow> ('b + 'a) \<times> 'z fat_scheme" where
  "sector_loop 0 f lba a s = (Inr a, s)"
| "sector_loop (Suc n) f lba a s =
     (case f lba a s of (Inl r, s) \<Rightarrow> (Inl r, s) | (Inr a, s) \<Rightarrow> sector_loop n f (lba + 1) a s)"

definition cluster_sectors :: "int \<Rightarrow> 'z fat_scheme \<Rightarrow> nat" where
  "cluster_sectors drive_id s = unat (sectors_per_cluster (bpb (fs_at drive_id s)))"

section \<open>Lookup\<close>

text \<open>
  \<open>n\<close> entries from address \<open>e\<close> on. \<open>Inl (Some e)\<close> is a match at \<open>e\<close>, \<open>Inl None\<close> the end of the
  directory.
\<close>

fun lookup_entries :: "(u32 \<Rightarrow> u8) \<Rightarrow> string \<Rightarrow> string \<Rightarrow> nat \<Rightarrow> u32 \<Rightarrow> u8 list \<Rightarrow> u32 option + u8 list" where
  "lookup_entries m token dos_name 0 e lfn_buf = Inr lfn_buf"
| "lookup_entries m token dos_name (Suc n) e lfn_buf =
     (if m e = 0x00 then Inl None
      else if m e = 0xE5 then lookup_entries m token dos_name n (e + 32) lfn_clear
      else if de_attributes m e = 0x0F then lookup_entries m token dos_name n (e + 32) (extract_lfn_chars m e lfn_buf)
      else if de_attributes m e AND 0x08 \<noteq> 0 then lookup_entries m token dos_name n (e + 32) lfn_clear
      else if is_match m e lfn_buf token dos_name then Inl (Some e)
      else lookup_entries m token dos_name n (e + 32) lfn_clear)"

definition lookup_sector :: "int \<Rightarrow> string \<Rightarrow> string \<Rightarrow> u32 \<Rightarrow> u8 list \<Rightarrow> 'z fat_scheme \<Rightarrow> (u32 option + u8 list) \<times> 'z fat_scheme" where
  "lookup_sector drive_id token dos_name lba lfn_buf s =
     (let (r, s) = disk_read_sector drive_id lba (fat_dma_buffer s) s in
      if r = 0 then (Inl None, s)
      else (lookup_entries (mem s) token dos_name 16 (fat_dma_buffer s) lfn_buf, s))"

definition lookup_cluster :: "int \<Rightarrow> string \<Rightarrow> string \<Rightarrow> u32 \<Rightarrow> u8 list \<Rightarrow> 'z fat_scheme \<Rightarrow> (u32 option + u8 list) \<times> 'z fat_scheme" where
  "lookup_cluster drive_id token dos_name c lfn_buf s =
     (let lba = cluster_to_lba drive_id c s in
      if lba = 0 then (Inl None, s)
      else sector_loop (cluster_sectors drive_id s) (lookup_sector drive_id token dos_name) lba lfn_buf s)"

text \<open>The entry named \<open>token\<close> in the directory at a cluster, in \<^verbatim>\<open>fat_dma_buffer\<close>.\<close>

definition dir_lookup :: "int \<Rightarrow> string \<Rightarrow> u32 \<Rightarrow> 'z fat_scheme \<Rightarrow> u32 option \<times> 'z fat_scheme" where
  "dir_lookup drive_id token c s =
     (case chain_loop 1000 drive_id (lookup_cluster drive_id token (to_dos_file_name token)) c lfn_clear s of
        (Inl r, s) \<Rightarrow> (r, s)
      | (Inr _, s) \<Rightarrow> (None, s))"

definition VFS_ATTR_FILE :: u8 where "VFS_ATTR_FILE = 0"
definition VFS_ATTR_DIR :: u8 where "VFS_ATTR_DIR = 1"
definition VFS_ATTR_DEV :: u8 where "VFS_ATTR_DEV = 2"

definition entry_type :: "(u32 \<Rightarrow> u8) \<Rightarrow> u32 \<Rightarrow> u8" where
  "entry_type m e = (if de_attributes m e AND 0x10 \<noteq> 0 then VFS_ATTR_DIR else VFS_ATTR_FILE)"

text \<open>
  The walk over the path components. The output parameters are carried along: \<open>None\<close> while
  nothing has been stored in them.
\<close>

type_synonym path_result = "u32 \<times> u8 option \<times> u32 option"

function walk_path :: "int \<Rightarrow> string \<Rightarrow> path_result \<Rightarrow> 'z fat_scheme \<Rightarrow> path_result \<times> 'z fat_scheme" where
  "walk_path drive_id token res s =
     (if token = [] then (res, s)
      else let name = takeWhile (\<lambda>c. c \<noteq> CHR ''/'') token; rest = drop (Suc (length name)) token in
        if name = [] then walk_path drive_id rest res s
        else case dir_lookup drive_id name (fst res) s of
          (None, s) \<Rightarrow> ((0xFFFFFFFF, snd res), s)
        | (Some e, s) \<Rightarrow>
            let c = de_first_cluster (mem s) e;
                c = (if c = 0 then root_cluster (bpb (fs_at drive_id s)) else c)
            in walk_path drive_id rest (c, Some (entry_type (mem s) e), Some (de_file_size (mem s) e)) s)"
  by pat_completeness auto
termination
  by (relation "measure (\<lambda>(_, token, _, _). length token)") auto

definition fat32_get_cluster_for_path :: "int \<Rightarrow> string \<Rightarrow> 'z fat_scheme \<Rightarrow> (path_result \<times> 'z fat_scheme) option" where
  "fat32_get_cluster_for_path drive_id path s = do {
     fs \<leftarrow> fs_of drive_id s;
     if strcmp path ''/'' = 0 \<or> path = [] then Some ((root_cluster (bpb fs), Some VFS_ATTR_DIR, Some 0), s)
     else do {
       temp_path \<leftarrow> strcpy 256 path;
       let token = (if hd temp_path = CHR ''/'' then tl temp_path else temp_path);
       Some (walk_path drive_id token (root_cluster (bpb fs), None, None) s) } }"

section \<open>Reading\<close>

definition fat32_get_file_size :: "int \<Rightarrow> string \<Rightarrow> 'z fat_scheme \<Rightarrow> (int \<times> 'z fat_scheme) option" where
  "fat32_get_file_size drive_id filename s = do {
     ((cluster, type, fsize), s) \<leftarrow> fat32_get_cluster_for_path drive_id filename s;
     if cluster = 0xFFFFFFFF then Some (-1, s)
     else do {
       type \<leftarrow> type;
       if type \<noteq> VFS_ATTR_FILE then Some (-1, s) else do { n \<leftarrow> fsize; Some (sint n, s) } } }"

text \<open>
  One sector into the output buffer; \<open>Inl\<close> when the file is complete, \<open>Inl None\<close> for a failed
  disk read.
\<close>

definition read_file_sector :: "int \<Rightarrow> u32 \<Rightarrow> u32 \<Rightarrow> u32 \<Rightarrow> u32 \<Rightarrow> 'z fat_scheme \<Rightarrow> (u32 option + u32) \<times> 'z fat_scheme" where
  "read_file_sector drive_id out_buffer fsize lba bytes_read s =
     (let (r, s) = disk_read_sector drive_id lba (fat_dma_buffer s) s in
      if r = 0 then (Inl None, s)
      else let remaining = sint (fsize - bytes_read);
               to_copy = word_of_int (if remaining < 512 then remaining else 512);
               s = s\<lparr>mem := fast_memcpy (mem s) (out_buffer + bytes_read) (fat_dma_buffer s) to_copy\<rparr>;
               bytes_read = bytes_read + to_copy
        in if bytes_read \<ge> fsize then (Inl (Some bytes_read), s) else (Inr bytes_read, s))"

fun read_file_loop :: "nat \<Rightarrow> int \<Rightarrow> u32 \<Rightarrow> u32 \<Rightarrow> u32 \<Rightarrow> u32 \<Rightarrow> 'z fat_scheme \<Rightarrow> int \<times> 'z fat_scheme" where
  "read_file_loop 0 drive_id out_buffer fsize cluster bytes_read s = (sint fsize, s)"
| "read_file_loop (Suc safety_limit) drive_id out_buffer fsize cluster bytes_read s =
     (if bytes_read < fsize \<and> cluster \<ge> 2 \<and> cluster < 0x0FFFFFF8 then
        let file_lba = cluster_to_lba drive_id cluster s in
        if file_lba = 0 then (sint fsize, s)
        else case sector_loop (cluster_sectors drive_id s) (read_file_sector drive_id out_buffer fsize) file_lba bytes_read s of
          (Inl None, s) \<Rightarrow> (-1, s)
        | (r, s) \<Rightarrow>
            let bytes_read = (case r of Inl (Some n) \<Rightarrow> n | Inl None \<Rightarrow> bytes_read | Inr n \<Rightarrow> n);
                (nxt, s) = get_next_cluster drive_id cluster s
            in if nxt = cluster \<or> nxt < 2 then (sint fsize, s)
               else read_file_loop safety_limit drive_id out_buffer fsize nxt bytes_read s
      else (sint fsize, s))"

definition fat32_read_file :: "int \<Rightarrow> string \<Rightarrow> u32 \<Rightarrow> 'z fat_scheme \<Rightarrow> (int \<times> 'z fat_scheme) option" where
  "fat32_read_file drive_id filename out_buffer s = do {
     ((cluster, type, fsize), s) \<leftarrow> fat32_get_cluster_for_path drive_id filename s;
     if cluster = 0xFFFFFFFF then Some (-1, s)
     else do {
       type \<leftarrow> type;
       if type \<noteq> VFS_ATTR_FILE then Some (-1, s)
       else do { n \<leftarrow> fsize; Some (read_file_loop 2000000 drive_id out_buffer n cluster 0 s) } } }"

section \<open>Directory listing\<close>

record vfs_dirent =
  d_name :: string
  d_size :: u32
  d_type :: u8

definition byte_char :: "u8 \<Rightarrow> char" where
  "byte_char b = char_of (unat b)"

definition short_name :: "(u32 \<Rightarrow> u8) \<Rightarrow> u32 \<Rightarrow> string" where
  "short_name m e =
     (let base = takeWhile (\<lambda>b. b \<noteq> 0x20) (de_name m e); ext = de_ext m e in
      map byte_char (if hd ext \<noteq> 0x20 then base @ [0x2E] @ takeWhile (\<lambda>b. b \<noteq> 0x20) ext else base))"

text \<open>\<open>Inl None\<close> is the end of the directory, \<open>Inl (Some None)\<close> a long name that does not fit the entry's 64 characters.\<close>

fun readdir_entries :: "(u32 \<Rightarrow> u8) \<Rightarrow> int \<Rightarrow> nat \<Rightarrow> u32 \<Rightarrow> int \<times> u8 list \<Rightarrow>
    vfs_dirent option option + int \<times> u8 list" where
  "readdir_entries m index 0 e st = Inr st"
| "readdir_entries m index (Suc n) e (current_index, lfn_buf) =
     (if m e = 0x00 then Inl None
      else if m e = 0xE5 then readdir_entries m index n (e + 32) (current_index, lfn_clear)
      else if de_attributes m e = 0x0F then readdir_entries m index n (e + 32) (current_index, extract_lfn_chars m e lfn_buf)
      else if de_attributes m e AND 0x08 \<noteq> 0 then readdir_entries m index n (e + 32) (current_index, lfn_clear)
      else if m e = 0x2E then readdir_entries m index n (e + 32) (current_index, lfn_clear)
      else if current_index = index then
        Inl (Some (do {
          name \<leftarrow> (if lfn_str lfn_buf \<noteq> [] then strcpy 64 (lfn_str lfn_buf) else Some (short_name m e));
          Some \<lparr>d_name = name, d_size = de_file_size m e, d_type = entry_type m e\<rparr> }))
      else readdir_entries m index n (e + 32) (current_index + 1, lfn_clear))"

definition readdir_sector :: "int \<Rightarrow> int \<Rightarrow> u32 \<Rightarrow> int \<times> u8 list \<Rightarrow> 'z fat_scheme \<Rightarrow>
    (vfs_dirent option option + int \<times> u8 list) \<times> 'z fat_scheme" where
  "readdir_sector drive_id index lba st s =
     (let (r, s) = disk_read_sector drive_id lba (fat_dma_buffer s) s in
      if r = 0 then (Inl None, s) else (readdir_entries (mem s) index 16 (fat_dma_buffer s) st, s))"

definition readdir_cluster :: "int \<Rightarrow> int \<Rightarrow> u32 \<Rightarrow> int \<times> u8 list \<Rightarrow> 'z fat_scheme \<Rightarrow>
    (vfs_dirent option option + int \<times> u8 list) \<times> 'z fat_scheme" where
  "readdir_cluster drive_id index c st s =
     (let lba = cluster_to_lba drive_id c s in
      if lba = 0 then (Inl None, s)
      else sector_loop (cluster_sectors drive_id s) (readdir_sector drive_id index) lba st s)"

text \<open>The result is the entry (return value 1) or nothing (return value 0).\<close>

definition fat32_readdir :: "int \<Rightarrow> string \<Rightarrow> int \<Rightarrow> 'z fat_scheme \<Rightarrow> (vfs_dirent option \<times> 'z fat_scheme) option" where
  "fat32_readdir drive_id path index s = do {
     ((dir_cluster, type, _), s) \<leftarrow> fat32_get_cluster_for_path drive_id path s;
     if dir_cluster = 0xFFFFFFFF then Some (None, s)
     else do {
       type \<leftarrow> type;
       if type \<noteq> VFS_ATTR_DIR then Some (None, s)
       else case chain_loop 1000 drive_id (readdir_cluster drive_id index) dir_cluster (0, lfn_clear) s of
         (Inl (Some r), s) \<Rightarrow> do { d \<leftarrow> r; Some (Some d, s) }
       | (_, s) \<Rightarrow> Some (None, s) } }"

section \<open>Splitting a path\<close>

text \<open>
  \<^verbatim>\<open>last_slash\<close> and the copies before and after it: \<open>Some None\<close> is a path without a slash, \<open>None\<close> a
  parent or a name that overruns its array.
\<close>

definition split_parent :: "string \<Rightarrow> (string \<times> string) option option" where
  "split_parent path =
     (if CHR ''/'' \<notin> set path then Some None
      else let name = rev (takeWhile (\<lambda>c. c \<noteq> CHR ''/'') (rev path));
               last_slash = length path - length name - 1
        in do {
          parent \<leftarrow> (if last_slash = 0 then Some ''/'' else strcpy 256 (take last_slash path));
          name \<leftarrow> strcpy 64 name;
          Some (Some (parent, name)) })"

section \<open>Inserting an entry\<close>

text \<open>The address of the first free entry among \<open>n\<close> from \<open>e\<close> on.\<close>

fun free_dir_entry :: "(u32 \<Rightarrow> u8) \<Rightarrow> nat \<Rightarrow> u32 \<Rightarrow> u32 option" where
  "free_dir_entry m 0 e = None"
| "free_dir_entry m (Suc n) e = (if m e = 0x00 \<or> m e = 0xE5 then Some e else free_dir_entry m n (e + 32))"

text \<open>
  The body for the sector \<open>lba\<close>, which is sector number \<open>i\<close> of its cluster. When the entry used was
  the end mark, the mark moves to the next entry, or to the next sector of the cluster.
\<close>

definition insert_sector :: "int \<Rightarrow> string \<Rightarrow> u8 \<Rightarrow> u32 \<Rightarrow> u32 \<Rightarrow> u32 \<Rightarrow> nat \<Rightarrow> 'z fat_scheme \<Rightarrow> (unit + nat) \<times> 'z fat_scheme" where
  "insert_sector drive_id dos_name attr cluster fsize lba i s =
     (let (_, s) = disk_read_sector drive_id lba (fat_dma_buffer s) s; buf = fat_dma_buffer s in
      case free_dir_entry (mem s) 16 buf of
        None \<Rightarrow> (Inr (Suc i), s)
      | Some e \<Rightarrow>
          let was_end = (mem s e = 0x00); j = (e - buf) div 32;
              s = s\<lparr>mem := de_store (mem s) e dos_name attr cluster fsize\<rparr>;
              s = (if was_end \<and> j + 1 < 16 then s\<lparr>mem := (mem s)(e + 32 := 0x00)\<rparr> else s);
              (_, s) = disk_write_sector drive_id lba buf s
          in if was_end \<and> j = 15 \<and> i + 1 < cluster_sectors drive_id s then
               let (_, s) = disk_read_sector drive_id (lba + 1) buf s;
                   s = s\<lparr>mem := (mem s)(buf := 0x00)\<rparr>;
                   (_, s) = disk_write_sector drive_id (lba + 1) buf s
               in (Inl (), s)
             else (Inl (), s))"

definition insert_cluster :: "int \<Rightarrow> string \<Rightarrow> u8 \<Rightarrow> u32 \<Rightarrow> u32 \<Rightarrow> u32 \<Rightarrow> nat \<Rightarrow> 'z fat_scheme \<Rightarrow> (unit + nat) \<times> 'z fat_scheme" where
  "insert_cluster drive_id dos_name attr cluster fsize c i s =
     sector_loop (cluster_sectors drive_id s) (insert_sector drive_id dos_name attr cluster fsize) (cluster_to_lba drive_id c s) 0 s"

definition dir_insert :: "int \<Rightarrow> u32 \<Rightarrow> string \<Rightarrow> u8 \<Rightarrow> u32 \<Rightarrow> u32 \<Rightarrow> 'z fat_scheme \<Rightarrow> int \<times> 'z fat_scheme" where
  "dir_insert drive_id parent_cluster dos_name attr cluster fsize s =
     (case chain_loop 1000 drive_id (insert_cluster drive_id dos_name attr cluster fsize) parent_cluster 0 s of
        (Inl _, s) \<Rightarrow> (1, s)
      | (Inr _, s) \<Rightarrow> (-1, s))"

section \<open>Creating a directory\<close>

fun clear_sectors :: "int \<Rightarrow> nat \<Rightarrow> u32 \<Rightarrow> 'z fat_scheme \<Rightarrow> 'z fat_scheme" where
  "clear_sectors drive_id 0 lba s = s"
| "clear_sectors drive_id (Suc n) lba s =
     (let s = s\<lparr>mem := fast_memset (mem s) (fat_dma_buffer s) 0 (512 div 4)\<rparr>;
          (_, s) = disk_write_sector drive_id lba (fat_dma_buffer s) s
      in clear_sectors drive_id n (lba + 1) s)"

definition init_dir_cluster :: "int \<Rightarrow> u32 \<Rightarrow> u32 \<Rightarrow> 'z fat_scheme \<Rightarrow> 'z fat_scheme" where
  "init_dir_cluster drive_id new_cluster parent_cluster s =
     (let lba = cluster_to_lba drive_id new_cluster s;
          s = clear_sectors drive_id (cluster_sectors drive_id s) lba s;
          buf = fat_dma_buffer s;
          (_, s) = disk_read_sector drive_id lba buf s;
          parent_link = (if parent_cluster = root_cluster (bpb (fs_at drive_id s)) then 0 else parent_cluster);
          m = de_store (mem s) buf (pad 11 ''.'') 0x10 new_cluster 0;
          m = de_store m (buf + 32) (pad 11 ''..'') 0x10 parent_link 0
      in snd (disk_write_sector drive_id lba buf (s\<lparr>mem := m\<rparr>)))"

text \<open>The cluster of a directory; \<open>Some None\<close> when the path names none.\<close>

definition parent_dir :: "int \<Rightarrow> string \<Rightarrow> 'z fat_scheme \<Rightarrow> (u32 option \<times> 'z fat_scheme) option" where
  "parent_dir drive_id parent_path s = do {
     ((parent_cluster, parent_type, _), s) \<leftarrow> fat32_get_cluster_for_path drive_id parent_path s;
     if parent_cluster = 0xFFFFFFFF then Some (None, s)
     else do {
       parent_type \<leftarrow> parent_type;
       Some (if parent_type \<noteq> VFS_ATTR_DIR then None else Some parent_cluster, s) } }"

definition fat32_mkdir :: "int \<Rightarrow> string \<Rightarrow> 'z fat_scheme \<Rightarrow> (int \<times> 'z fat_scheme) option" where
  "fat32_mkdir drive_id path s =
     (if isReadMode s = 1 then Some (-1, s)
      else do {
        ((c, _), s) \<leftarrow> fat32_get_cluster_for_path drive_id path s;
        if c \<noteq> 0xFFFFFFFF then Some (-3, s)
        else do {
          sp \<leftarrow> split_parent path;
          case sp of None \<Rightarrow> Some (-1, s)
          | Some (parent_path, new_dir_name) \<Rightarrow> do {
              (parent_cluster, s) \<leftarrow> parent_dir drive_id parent_path s;
              case parent_cluster of None \<Rightarrow> Some (-1, s)
              | Some parent_cluster \<Rightarrow>
                  let (new_cluster, s) = fat32_find_free_cluster drive_id s in
                  if new_cluster = 0 then Some (-2, s)
                  else let s = fat32_write_fat_entry drive_id new_cluster 0x0FFFFFFF s;
                           s = init_dir_cluster drive_id new_cluster parent_cluster s
                    in Some (dir_insert drive_id parent_cluster (to_dos_file_name new_dir_name) 0x10 new_cluster 0 s) } } })"

section \<open>Deleting a file\<close>

text \<open>
  \<open>Inl e\<close> is the match at \<open>e\<close>. The end mark leaves the loop over the entries of this sector only.
\<close>

fun delete_entries :: "(u32 \<Rightarrow> u8) \<Rightarrow> string \<Rightarrow> string \<Rightarrow> nat \<Rightarrow> u32 \<Rightarrow> u8 list \<Rightarrow> u32 + u8 list" where
  "delete_entries m token dos_name 0 e lfn_buf = Inr lfn_buf"
| "delete_entries m token dos_name (Suc n) e lfn_buf =
     (if m e = 0x00 then Inr lfn_buf
      else if m e = 0xE5 then delete_entries m token dos_name n (e + 32) lfn_clear
      else if de_attributes m e = 0x0F then delete_entries m token dos_name n (e + 32) (extract_lfn_chars m e lfn_buf)
      else if is_match m e lfn_buf token dos_name then Inl e
      else delete_entries m token dos_name n (e + 32) lfn_clear)"

text \<open>
  Freeing the chain of clusters. The loop has no counter: it returns when it meets an end mark
  or a cluster it has freed already.
\<close>

partial_function (option) free_chain :: "int \<Rightarrow> u32 \<Rightarrow> 'z fat_scheme \<Rightarrow> 'z fat_scheme option" where
  "free_chain drive_id c s =
     (if c \<ge> 2 \<and> c < 0x0FFFFFF8 then
        let (nxt, s) = get_next_cluster drive_id c s;
            s = fat32_write_fat_entry drive_id c 0 s;
            fat_sector = (c * 4) div 512;
            s = (if fat_sector < last_free_fat_sector (fs_at drive_id s)
                 then upd_fs drive_id (\<lambda>f. f\<lparr>last_free_fat_sector := fat_sector\<rparr>) s else s)
        in free_chain drive_id nxt s
      else Some s)"

text \<open>The sector body answers with the first cluster of the deleted file.\<close>

definition delete_sector :: "int \<Rightarrow> string \<Rightarrow> string \<Rightarrow> u32 \<Rightarrow> u8 list \<Rightarrow> 'z fat_scheme \<Rightarrow> (u32 + u8 list) \<times> 'z fat_scheme" where
  "delete_sector drive_id token dos_name lba lfn_buf s =
     (let (_, s) = disk_read_sector drive_id lba (fat_dma_buffer s) s in
      case delete_entries (mem s) token dos_name 16 (fat_dma_buffer s) lfn_buf of
        Inl e \<Rightarrow>
          let target_cluster = de_first_cluster (mem s) e;
              s = s\<lparr>mem := (mem s)(e := 0xE5)\<rparr>;
              (_, s) = disk_write_sector drive_id lba (fat_dma_buffer s) s
          in (Inl target_cluster, s)
      | Inr lfn_buf \<Rightarrow> (Inr lfn_buf, s))"

definition delete_cluster :: "int \<Rightarrow> string \<Rightarrow> string \<Rightarrow> u32 \<Rightarrow> u8 list \<Rightarrow> 'z fat_scheme \<Rightarrow> (u32 + u8 list) \<times> 'z fat_scheme" where
  "delete_cluster drive_id token dos_name c lfn_buf s =
     sector_loop (cluster_sectors drive_id s) (delete_sector drive_id token dos_name) (cluster_to_lba drive_id c s) lfn_buf s"

definition fat32_delete_file :: "int \<Rightarrow> string \<Rightarrow> 'z fat_scheme \<Rightarrow> (int \<times> 'z fat_scheme) option" where
  "fat32_delete_file drive_id filename s =
     (if isReadMode s = 1 then Some (-1, s)
      else do {
        fs \<leftarrow> fs_of drive_id s;
        sp \<leftarrow> split_parent filename;
        case sp of None \<Rightarrow> Some (-1, s)
        | Some (parent_path, target) \<Rightarrow> do {
            (parent_cluster, s) \<leftarrow> parent_dir drive_id parent_path s;
            case parent_cluster of None \<Rightarrow> Some (-1, s)
            | Some parent_cluster \<Rightarrow>
                (case chain_loop 1000 drive_id (delete_cluster drive_id target (to_dos_file_name target))
                        parent_cluster lfn_clear s of
                   (Inl c, s) \<Rightarrow> do { s \<leftarrow> free_chain drive_id c s; Some (1, s) }
                 | (Inr _, s) \<Rightarrow> Some (-1, s)) } })"

section \<open>Writing a file\<close>

fun write_sectors :: "int \<Rightarrow> u32 \<Rightarrow> nat \<Rightarrow> u32 \<Rightarrow> u32 \<Rightarrow> 'z fat_scheme \<Rightarrow> 'z fat_scheme" where
  "write_sectors drive_id data 0 lba bytes_to_write s = s"
| "write_sectors drive_id data (Suc n) lba bytes_to_write s =
     (let buf = fat_dma_buffer s;
          s = s\<lparr>mem := fast_memset (mem s) buf 0 (512 div 4)\<rparr>;
          chunk = (if bytes_to_write > 512 then 512 else bytes_to_write);
          s = (if bytes_to_write > 0 then s\<lparr>mem := fast_memcpy (mem s) buf data chunk\<rparr> else s);
          (_, s) = disk_write_sector drive_id lba buf s
      in write_sectors drive_id (data + 512) n (lba + 1) (bytes_to_write - chunk) s)"

text \<open>
  The allocation loop: \<open>n\<close> clusters remain, \<open>i\<close> is the index of this one. The result is the first
  cluster, \<open>None\<close> when the disk is full.
\<close>

fun write_clusters :: "int \<Rightarrow> u32 \<Rightarrow> u32 \<Rightarrow> nat \<Rightarrow> u32 \<Rightarrow> u32 \<Rightarrow> u32 \<Rightarrow> 'z fat_scheme \<Rightarrow> u32 option \<times> 'z fat_scheme" where
  "write_clusters drive_id data fsize 0 i first_cluster prev_cluster s = (Some first_cluster, s)"
| "write_clusters drive_id data fsize (Suc n) i first_cluster prev_cluster s =
     (let (new_cluster, s) = fat32_find_free_cluster drive_id s in
      if new_cluster = 0 then (None, s)
      else let s = fat32_write_fat_entry drive_id new_cluster 0x0FFFFFFF s;
               s = (if prev_cluster \<noteq> 0 then fat32_write_fat_entry drive_id prev_cluster new_cluster s else s);
               first_cluster = (if prev_cluster \<noteq> 0 then first_cluster else new_cluster);
               lba = cluster_to_lba drive_id new_cluster s;
               start = i * of_nat (cluster_sectors drive_id s) * 512;
               bytes_to_write = (if fsize > start then fsize - start else 0);
               s = write_sectors drive_id (data + start) (cluster_sectors drive_id s) lba bytes_to_write s
        in write_clusters drive_id data fsize n (i + 1) first_cluster new_cluster s)"

definition fat32_write_file :: "int \<Rightarrow> string \<Rightarrow> u32 \<Rightarrow> u32 \<Rightarrow> 'z fat_scheme \<Rightarrow> (int \<times> 'z fat_scheme) option" where
  "fat32_write_file drive_id filename data fsize s =
     (if isReadMode s = 1 then Some (-1, s)
      else do {
        fs \<leftarrow> fs_of drive_id s;
        (_, s) \<leftarrow> fat32_delete_file drive_id filename s;
        sp \<leftarrow> split_parent filename;
        case sp of None \<Rightarrow> Some (-1, s)
        | Some (parent_path, new_file_name) \<Rightarrow> do {
            (parent_cluster, s) \<leftarrow> parent_dir drive_id parent_path s;
            case parent_cluster of None \<Rightarrow> Some (-1, s)
            | Some parent_cluster \<Rightarrow>
                let bytes_per_cluster = of_nat (cluster_sectors drive_id s) * 512 in
                if bytes_per_cluster = 0 then None
                else let clusters_needed = (if fsize = 0 then 1 else (fsize + bytes_per_cluster - 1) div bytes_per_cluster) in
                  (case write_clusters drive_id data fsize (unat clusters_needed) 0 0 0 s of
                     (None, s) \<Rightarrow> Some (-2, s)
                   | (Some first_cluster, s) \<Rightarrow>
                       Some (dir_insert drive_id parent_cluster (to_dos_file_name new_file_name) 0x20 first_cluster fsize s)) } })"

end
