(* ===== verification/Fat_Spec.thy ===== *)
theory Fat_Spec
  imports Fat32 Disk_Props
begin

text \<open>
  The file allocation table as the driver's operations see it on a ramdisk: the table is an
  array of 32-bit entries spread over the sectors of the first FAT, and the reads and writes of
  the driver are reads and updates of that array.
\<close>

section \<open>Little-endian words in a sector\<close>

definition le32 :: "u8 list \<Rightarrow> nat \<Rightarrow> u32" where
  "le32 bs i = (ucast (bs ! i) :: u32) OR push_bit 8 (ucast (bs ! (i + 1)))
     OR push_bit 16 (ucast (bs ! (i + 2))) OR push_bit 24 (ucast (bs ! (i + 3)))"

definition put32 :: "u8 list \<Rightarrow> nat \<Rightarrow> u32 \<Rightarrow> u8 list" where
  "put32 bs i v = bs[i := ucast v, i + 1 := ucast (drop_bit 8 v), i + 2 := ucast (drop_bit 16 v), i + 3 := ucast (drop_bit 24 v)]"

lemma length_put32 [simp]: "length (put32 bs i v) = length bs"
  by (simp add: put32_def)

lemma load32_le32:
  assumes "i + 4 \<le> n"
  shows "load32 m (a + of_nat i) = le32 (read_bytes m a n) i"
  using assms by (simp add: load32_def le32_def read_bytes_def algebra_simps)

lemma read_bytes_upd:
  assumes "i < n" and "n < 4294967296"
  shows "read_bytes (m(a + of_nat i := b)) a n = (read_bytes m a n)[i := b]"
proof (rule nth_equalityI)
  fix j assume "j < length (read_bytes (m(a + of_nat i := b)) a n)"
  then have j: "j < n" by simp
  have "of_nat j = (of_nat i :: u32) \<longleftrightarrow> j = i"
    using assms j by (metis unat_of_nat32 order_less_trans)
  then show "read_bytes (m(a + of_nat i := b)) a n ! j = (read_bytes m a n)[i := b] ! j"
    using j by (auto simp: read_bytes_def nth_list_update)
qed simp

lemma read_bytes_store32:
  assumes "i + 4 \<le> n" and "n < 4294967296"
  shows "read_bytes (store32 m (a + of_nat i) v) a n = put32 (read_bytes m a n) i v"
proof -
  have "store32 m (a + of_nat i) v = m(a + of_nat i := ucast v, a + of_nat (i + 1) := ucast (drop_bit 8 v),
      a + of_nat (i + 2) := ucast (drop_bit 16 v), a + of_nat (i + 3) := ucast (drop_bit 24 v))"
    by (simp add: store32_def algebra_simps)
  moreover have "i < n" "i + 1 < n" "i + 2 < n" "i + 3 < n" using assms by simp_all
  ultimately show ?thesis using assms(2) by (simp only: read_bytes_upd put32_def)
qed

lemma le32_put32:
  assumes "i + 4 \<le> length bs"
  shows "le32 (put32 bs i v) i = v"
  using assms bytes_of_u32 [of v] by (simp add: le32_def put32_def nth_list_update)

lemma le32_put32_other:
  assumes "j + 4 \<le> i \<or> i + 4 \<le> j"
  shows "le32 (put32 bs i v) j = le32 bs j"
  using assms by (auto simp: le32_def put32_def)

section \<open>Volumes\<close>

definition fat_first :: "int \<Rightarrow> 'z fat_scheme \<Rightarrow> nat" where
  "fat_first d s = unat (fat_start_sector (fs_at d s))"

definition fat_len :: "int \<Rightarrow> 'z fat_scheme \<Rightarrow> nat" where
  "fat_len d s = unat (sectors_per_fat_32 (bpb (fs_at d s)))"

text \<open>
  A mounted, writable volume whose tables lie inside the ramdisk, of at most \<open>2^28\<close> clusters, and
  a transfer buffer outside the ramdisk.
\<close>

definition fat_vol :: "int \<Rightarrow> 'z fat_scheme \<Rightarrow> bool" where
  "fat_vol d s \<longleftrightarrow> ram_inv d s \<and> isReadMode s \<noteq> 1 \<and> buf_ok s (fat_dma_buffer s) \<and>
     nat d < length (fat_states s) \<and> fat_len d s < 0x200000 \<and>
     fat_first d s + (if num_fats (bpb (fs_at d s)) > 1 then 2 else 1) * fat_len d s \<le> sectors s"

text \<open>A cluster number the table has an entry for.\<close>

definition in_fat :: "int \<Rightarrow> 'z fat_scheme \<Rightarrow> nat \<Rightarrow> bool" where
  "in_fat d s c \<longleftrightarrow> 2 \<le> c \<and> c < 128 * fat_len d s"

definition fat_entry :: "int \<Rightarrow> 'z fat_scheme \<Rightarrow> nat \<Rightarrow> u32" where
  "fat_entry d s c = le32 (sector s (fat_first d s + c div 128)) (c mod 128 * 4)"

text \<open>The link of a cluster: the lower 28 bits of its entry.\<close>

definition fat_next :: "int \<Rightarrow> 'z fat_scheme \<Rightarrow> nat \<Rightarrow> u32" where
  "fat_next d s c = fat_entry d s c AND 0x0FFFFFFF"

text \<open>States that differ in memory and cache only.\<close>

definition io_only :: "'z fat_scheme \<Rightarrow> 'z fat_scheme \<Rightarrow> bool" where
  "io_only s s' \<longleftrightarrow> (\<exists>m es. s' = s\<lparr>mem := m, cache_entries := es\<rparr>)"

lemma io_only_fields:
  assumes "io_only s s'"
  shows "fs_at d s' = fs_at d s" "fat_first d s' = fat_first d s" "fat_len d s' = fat_len d s"
    "sectors s' = sectors s" "fat_dma_buffer s' = fat_dma_buffer s" "fat_states s' = fat_states s"
    "isReadMode s' = isReadMode s" "buf_ok s' b = buf_ok s b" "in_fat d s' c = in_fat d s c"
    "fat_sector_of d cl s' = fat_sector_of d cl s"
  using assms by (auto simp: io_only_def fs_at_def fat_first_def fat_len_def sectors_def buf_ok_def in_fat_def fat_sector_of_def)

lemma io_only_trans: "io_only s s' \<Longrightarrow> io_only s' s'' \<Longrightarrow> io_only s s''"
  unfolding io_only_def by (elim exE, simp) blast

lemma io_only_upd [simp]: "io_only s (s\<lparr>mem := m, cache_entries := es\<rparr>)" "io_only s (s\<lparr>mem := m\<rparr>)"
proof -
  show "io_only s (s\<lparr>mem := m, cache_entries := es\<rparr>)" unfolding io_only_def by blast
  have "s\<lparr>mem := m\<rparr> = s\<lparr>mem := m, cache_entries := cache_entries s\<rparr>" by simp
  then show "io_only s (s\<lparr>mem := m\<rparr>)" unfolding io_only_def by blast
qed

lemma fat_vol_io:
  assumes "fat_vol d s" and "io_only s s'" and "ram_inv d s'"
  shows "fat_vol d s'"
  using assms by (simp add: fat_vol_def io_only_fields [OF assms(2)])

lemma fat_entry_cong:
  assumes "io_only s s'" and "\<And>k. k < sectors s \<Longrightarrow> sector s' k = sector s k" and "fat_vol d s" and "in_fat d s c"
  shows "fat_entry d s' c = fat_entry d s c"
proof -
  have "c div 128 < fat_len d s" using assms(4) by (auto simp: in_fat_def less_mult_imp_div_less mult.commute)
  then have "fat_first d s + c div 128 < sectors s" using assms(3) by (auto simp: fat_vol_def split: if_splits)
  then show ?thesis using assms(2) by (simp add: fat_entry_def io_only_fields [OF assms(1)])
qed

section \<open>Addressing\<close>

lemma in_fat_facts:
  assumes vol: "fat_vol d s" and c: "in_fat d s (unat cl)"
  shows "unat (fat_sector_of d cl s) = fat_first d s + unat cl div 128"
    and "fat_first d s + unat cl div 128 < sectors s"
    and "(cl * 4) mod 512 = of_nat (unat cl mod 128 * 4)" and "\<not> cl < 2"
    and "unat ((cl * 4) div 512) = unat cl div 128"
proof -
  have len: "fat_len d s < 0x200000" and "fat_first d s + fat_len d s \<le> sectors s"
    using vol by (auto simp: fat_vol_def split: if_splits)
  moreover have div: "unat cl div 128 < fat_len d s" using c by (auto simp: in_fat_def less_mult_imp_div_less mult.commute)
  ultimately show lt: "fat_first d s + unat cl div 128 < sectors s" by simp
  have "unat cl < 128 * 0x200000" using c len by (auto simp: in_fat_def)
  then have u: "unat (cl * 4) = unat cl * 4" by (simp add: unat_word_ariths)
  then show q: "unat ((cl * 4) div 512) = unat cl div 128" by (simp add: unat_div)
  have "sectors s < 4294967296" using unat_lt32 [of "ramdisk_size s"] by (auto simp: sectors_def intro: le_less_trans [OF div_le_dividend])
  then show "unat (fat_sector_of d cl s) = fat_first d s + unat cl div 128"
    using lt q unfolding fat_sector_of_def fat_first_def by (subst unat_add_no_wrap32) auto
  have "unat ((cl * 4) mod 512) = unat (of_nat (unat cl mod 128 * 4) :: u32)"
    using u by (simp add: unat_mod mult_mod_left unat_of_nat32)
  then show "(cl * 4) mod 512 = of_nat (unat cl mod 128 * 4)" by (simp only: word_unat_eq_iff)
  show "\<not> cl < 2" using c by (auto simp: in_fat_def word_less_nat_alt)
qed

section \<open>Sector transfers of the driver\<close>

lemma fat_read:
  fixes s :: "'z fat_scheme"
  assumes vol: "fat_vol d s" and lba: "unat lba < sectors s"
  obtains s' where "disk_read_sector d lba (fat_dma_buffer s) s = (1, s')" "io_only s s'" "fat_vol d s'"
    "\<forall>k < sectors s. sector s' k = sector s k" "read_bytes (mem s') (fat_dma_buffer s) 512 = sector s (unat lba)"
proof -
  have inv: "ram_inv d s" and b: "buf_ok s (fat_dma_buffer s)" using vol by (simp_all add: fat_vol_def)
  let ?m = "write_bytes (mem s) (fat_dma_buffer s) (sector s (unat lba))"
  obtain es where es: "disk_read_sector d lba (fat_dma_buffer s) s = (1, s\<lparr>mem := ?m, cache_entries := es\<rparr>)"
    "ram_inv d (s\<lparr>mem := ?m, cache_entries := es\<rparr>)"
    by (rule disk_read_ram [OF inv lba b])
  show ?thesis
  proof (rule that [OF es(1)])
    show "io_only s (s\<lparr>mem := ?m, cache_entries := es\<rparr>)" by simp
    then show "fat_vol d (s\<lparr>mem := ?m, cache_entries := es\<rparr>)" by (rule fat_vol_io [OF vol _ es(2)])
    show "\<forall>k < sectors s. sector (s\<lparr>mem := ?m, cache_entries := es\<rparr>) k = sector s k"
      using sector_write_buf [OF inv b] by simp
    show "read_bytes (mem (s\<lparr>mem := ?m, cache_entries := es\<rparr>)) (fat_dma_buffer s) 512 = sector s (unat lba)"
      using read_write_bytes [of "sector s (unat lba)" "mem s" "fat_dma_buffer s"] by simp
  qed
qed

lemma fat_write:
  fixes s :: "'z fat_scheme"
  assumes vol: "fat_vol d s" and lba: "unat lba < sectors s"
  obtains s' where "disk_write_sector d lba (fat_dma_buffer s) s = (1, s')" "io_only s s'" "fat_vol d s'"
    "\<forall>k < sectors s. sector s' k = (if k = unat lba then read_bytes (mem s) (fat_dma_buffer s) 512 else sector s k)"
    "read_bytes (mem s') (fat_dma_buffer s) 512 = read_bytes (mem s) (fat_dma_buffer s) 512"
proof -
  have inv: "ram_inv d s" and b: "buf_ok s (fat_dma_buffer s)" and rw: "isReadMode s \<noteq> 1" using vol by (simp_all add: fat_vol_def)
  let ?bs = "read_bytes (mem s) (fat_dma_buffer s) 512"
  let ?m = "write_bytes (mem s) (ramdisk_start s + of_nat (unat lba * 512)) ?bs"
  obtain es where es: "disk_write_sector d lba (fat_dma_buffer s) s = (1, s\<lparr>mem := ?m, cache_entries := es\<rparr>)"
    "ram_inv d (s\<lparr>mem := ?m, cache_entries := es\<rparr>)"
    "\<And>k. k < sectors s \<Longrightarrow> sector (s\<lparr>mem := ?m, cache_entries := es\<rparr>) k = (if k = unat lba then ?bs else sector s k)"
    by (rule disk_write_ram [OF inv lba b rw]) (rule that)
  show ?thesis
  proof (rule that [OF es(1)])
    show "io_only s (s\<lparr>mem := ?m, cache_entries := es\<rparr>)" by simp
    then show "fat_vol d (s\<lparr>mem := ?m, cache_entries := es\<rparr>)" by (rule fat_vol_io [OF vol _ es(2)])
    show "\<forall>k < sectors s. sector (s\<lparr>mem := ?m, cache_entries := es\<rparr>) k = (if k = unat lba then ?bs else sector s k)"
      using es(3) by blast
    show "read_bytes (mem (s\<lparr>mem := ?m, cache_entries := es\<rparr>)) (fat_dma_buffer s) 512 = ?bs"
      using read_write_bytes_other [of "ramdisk_start s + of_nat (unat lba * 512)" ?bs "fat_dma_buffer s" 512 "mem s"]
        buf_sector_apart(2) [OF inv b lba] by simp
  qed
qed

text \<open>A store into the transfer buffer is no disk access.\<close>

lemma fat_poke:
  fixes s :: "'z fat_scheme"
  assumes vol: "fat_vol d s" and m: "m = write_bytes (mem s) (fat_dma_buffer s) bs" and len: "length bs = 512"
  shows "fat_vol d (s\<lparr>mem := m\<rparr>)" and "\<forall>k < sectors s. sector (s\<lparr>mem := m\<rparr>) k = sector s k"
proof -
  have inv: "ram_inv d s" and b: "buf_ok s (fat_dma_buffer s)" using vol by (simp_all add: fat_vol_def)
  show sec: "\<forall>k < sectors s. sector (s\<lparr>mem := m\<rparr>) k = sector s k"
    using sector_write_buf [OF inv b _ len] m by simp
  then have "ram_inv d (s\<lparr>mem := m\<rparr>)"
    using inv unfolding ram_inv_def cache_coherent_def Let_def by simp
  then show "fat_vol d (s\<lparr>mem := m\<rparr>)" by (rule fat_vol_io [OF vol io_only_upd(2)])
qed

lemma store32_write_bytes:
  assumes "i + 4 \<le> n" and "n < 4294967296"
  shows "store32 m (a + of_nat i) v = write_bytes m a (put32 (read_bytes m a n) i v)"
proof
  fix x
  show "store32 m (a + of_nat i) v x = write_bytes m a (put32 (read_bytes m a n) i v) x"
  proof (cases "unat (x - a) < n")
    case True
    then have "store32 m (a + of_nat i) v x = read_bytes (store32 m (a + of_nat i) v) a n ! unat (x - a)"
      by (simp add: read_bytes_def)
    also have "\<dots> = put32 (read_bytes m a n) i v ! unat (x - a)" by (simp add: read_bytes_store32 assms)
    finally show ?thesis using True assms(2) by (simp add: write_bytes_eq)
  next
    case False
    have "unat (x - a - of_nat i) = unat (x - a) - i"
      using False assms by (simp add: unat_sub_of_nat32)
    then have "4 \<le> unat (x - (a + of_nat i))" using False assms by (simp add: algebra_simps)
    then show ?thesis using False assms(2) by (simp add: store32_other write_bytes_eq)
  qed
qed

section \<open>Entries of the table\<close>

lemma get_next_spec:
  fixes s :: "'z fat_scheme"
  assumes vol: "fat_vol d s" and c: "in_fat d s (unat cl)"
  obtains s' where "get_next_cluster d cl s = (fat_next d s (unat cl), s')" "io_only s s'" "fat_vol d s'"
    "\<forall>k < sectors s. sector s' k = sector s k"
proof -
  note a = in_fat_facts [OF vol c]
  have "unat (fat_sector_of d cl s) < sectors s" using a(1,2) by simp
  then obtain s' where s': "disk_read_sector d (fat_sector_of d cl s) (fat_dma_buffer s) s = (1, s')" "io_only s s'" "fat_vol d s'"
    "\<forall>k < sectors s. sector s' k = sector s k"
    "read_bytes (mem s') (fat_dma_buffer s) 512 = sector s (unat (fat_sector_of d cl s))"
    by (rule fat_read [OF vol])
  have "unat cl mod 128 * 4 + 4 \<le> 512" using mod_less_divisor [of 128 "unat cl"] by linarith
  from load32_le32 [OF this, of "mem s'" "fat_dma_buffer s"] s'(5)
  have "load32 (mem s') (fat_dma_buffer s + (cl * 4) mod 512) = fat_entry d s (unat cl)"
    by (simp add: a(1,3) fat_entry_def)
  then have "get_next_cluster d cl s = (fat_next d s (unat cl), s')"
    using s'(1) a(4) by (simp add: get_next_cluster_def fat_next_def io_only_fields [OF s'(2)])
  then show ?thesis using that s' by blast
qed

definition fat_sectors :: "int \<Rightarrow> 'z fat_scheme \<Rightarrow> nat \<Rightarrow> bool" where
  "fat_sectors d s k \<longleftrightarrow> fat_first d s \<le> k \<and>
     k < fat_first d s + (if num_fats (bpb (fs_at d s)) > 1 then 2 else 1) * fat_len d s"

lemma fat_entry_put32:
  assumes io: "io_only s s'" and eq: "in_fat d s c" "in_fat d s c'"
    and sec: "sector s' (fat_first d s + c' div 128) =
      (if c' div 128 = c div 128 then put32 (sector s (fat_first d s + c div 128)) (c mod 128 * 4) v
       else sector s (fat_first d s + c' div 128))"
  shows "fat_entry d s' c' = (if c' = c then v else fat_entry d s c')"
proof (cases "c' div 128 = c div 128")
  case False
  then show ?thesis using sec by (auto simp: fat_entry_def io_only_fields [OF io])
next
  case True
  have "c mod 128 * 4 + 4 \<le> 512" using mod_less_divisor [of 128 c] by linarith
  moreover have "c' \<noteq> c \<Longrightarrow> c' mod 128 * 4 + 4 \<le> c mod 128 * 4 \<or> c mod 128 * 4 + 4 \<le> c' mod 128 * 4"
    using True by (metis div_mod_decomp linorder_neqE_nat Suc_leI mult_Suc add.commute mult.commute mult_le_mono1)
  ultimately show ?thesis
    using sec True by (auto simp: fat_entry_def io_only_fields [OF io] le32_put32 le32_put32_other)
qed

lemma write_entry_spec:
  fixes s :: "'z fat_scheme" and v :: u32 and cl :: u32
  assumes vol: "fat_vol d s" and c: "in_fat d s (unat cl)"
  defines "s' \<equiv> fat32_write_fat_entry d cl v s"
  shows "io_only s s'" and "fat_vol d s'"
    and "in_fat d s c' \<Longrightarrow> fat_entry d s' c' =
      (if c' = unat cl then (fat_entry d s c' AND 0xF0000000) OR (v AND 0x0FFFFFFF) else fat_entry d s c')"
    and "k < sectors s \<Longrightarrow> \<not> fat_sectors d s k \<Longrightarrow> sector s' k = sector s k"
    and "num_fats (bpb (fs_at d s)) > 1 \<Longrightarrow>
      sector s' (fat_first d s + fat_len d s + unat cl div 128) = sector s' (fat_first d s + unat cl div 128)"
proof -
  note a = in_fat_facts [OF vol c]
  let ?b = "fat_dma_buffer s" and ?n = "unat (fat_sector_of d cl s)" and ?i = "unat cl mod 128 * 4"
  let ?dup = "num_fats (bpb (fs_at d s)) > 1" and ?L = "sectors_per_fat_32 (bpb (fs_at d s))"
  define w where "w = (fat_entry d s (unat cl) AND 0xF0000000) OR (v AND 0x0FFFFFFF)"
  have n: "?n < sectors s" using a(1,2) by simp
  obtain s1 where s1: "disk_read_sector d (fat_sector_of d cl s) ?b s = (1, s1)" "io_only s s1" "fat_vol d s1"
    "\<forall>k < sectors s. sector s1 k = sector s k" "read_bytes (mem s1) ?b 512 = sector s ?n"
    by (rule fat_read [OF vol n])
  note f1 = io_only_fields [OF s1(2)]
  have i: "?i + 4 \<le> 512" using mod_less_divisor [of 128 "unat cl"] by linarith
  have v: "load32 (mem s1) (?b + (cl * 4) mod 512) = fat_entry d s (unat cl)"
    using load32_le32 [OF i, of "mem s1" ?b] s1(5) by (simp add: a(1,3) fat_entry_def)
  define bs where "bs = put32 (sector s ?n) ?i w"
  define s2 where "s2 = s1\<lparr>mem := store32 (mem s1) (?b + (cl * 4) mod 512) w\<rparr>"
  have st: "store32 (mem s1) (?b + (cl * 4) mod 512) w = write_bytes (mem s1) (fat_dma_buffer s1) bs"
    using store32_write_bytes [OF i, of "mem s1" ?b w] s1(5) by (simp add: a(3) bs_def f1)
  have len: "length bs = 512" by (simp add: bs_def)
  note s2 = fat_poke [OF s1(3) st len, folded s2_def]
  have b2: "read_bytes (mem s2) ?b 512 = bs" "fat_dma_buffer s2 = ?b" "sectors s2 = sectors s"
    using read_write_bytes [of bs "mem s1" ?b] len by (simp_all add: s2_def st f1)
  have io2: "io_only s s2" by (rule io_only_trans [OF s1(2)]) (simp add: s2_def)
  have "?n < sectors s2" using n b2 by simp
  then obtain s3 where s3: "disk_write_sector d (fat_sector_of d cl s) ?b s2 = (1, s3)" "io_only s2 s3" "fat_vol d s3"
    "\<forall>k < sectors s2. sector s3 k = (if k = ?n then bs else sector s2 k)"
    "read_bytes (mem s3) ?b 512 = bs"
    using fat_write [OF s2(1), of "fat_sector_of d cl s"] b2 by (metis (no_types, lifting))
  have io3: "io_only s s3" by (rule io_only_trans [OF io2 s3(2)])
  note f3 = io_only_fields [OF io3]
  have sec3: "sector s3 k = (if k = ?n then bs else sector s k)" if "k < sectors s" for k
    using s3(4) s2(2) s1(4) that b2 f1 by (metis (no_types, lifting))
  have run: "s' = (if ?dup then snd (disk_write_sector d (fat_sector_of d cl s + ?L) ?b s3) else s3)"
    using s1(1) s3(1) a(4) b2(2)
    by (simp add: s'_def fat32_write_fat_entry_def Let_def v w_def [symmetric] s2_def [symmetric] f1 f3)
  have FL: "fat_first d s + (if ?dup then 2 else 1) * fat_len d s \<le> sectors s" using vol by (simp add: fat_vol_def)
  have dv: "unat cl div 128 < fat_len d s" using c by (auto simp: in_fat_def less_mult_imp_div_less mult.commute)
  have "io_only s s' \<and> fat_vol d s' \<and> (\<forall>k < sectors s. sector s' k =
      (if k = ?n \<or> ?dup \<and> k = fat_first d s + fat_len d s + unat cl div 128 then bs else sector s k))"
  proof (cases ?dup)
    case False
    then show ?thesis using run io3 s3(3) sec3 by simp
  next
    case True
    have u: "unat (fat_sector_of d cl s + ?L) = fat_first d s + fat_len d s + unat cl div 128"
      using FL dv True a(1) unat_lt32 [of "ramdisk_size s"] div_le_dividend [of "unat (ramdisk_size s)" 512]
      by (subst unat_add_no_wrap32) (auto simp: fat_len_def sectors_def)
    have lt: "unat (fat_sector_of d cl s + ?L) < sectors s3" using FL dv True f3 u by simp
    have b3: "fat_dma_buffer s3 = ?b" using f3 by simp
    obtain s4 where "disk_write_sector d (fat_sector_of d cl s + ?L) (fat_dma_buffer s3) s3 = (1, s4)" "io_only s3 s4" "fat_vol d s4"
      "\<forall>k < sectors s3. sector s4 k = (if k = unat (fat_sector_of d cl s + ?L) then read_bytes (mem s3) (fat_dma_buffer s3) 512 else sector s3 k)"
      by (rule fat_write [OF s3(3) lt])
    then show ?thesis using run True io_only_trans [OF io3] sec3 s3(5) u f3(4) b3 by auto
  qed
  note R = this [THEN conjunct1] this [THEN conjunct2, THEN conjunct1] this [THEN conjunct2, THEN conjunct2, rule_format]
  show "io_only s s'" "fat_vol d s'" by (rule R(1), rule R(2))
  show "fat_entry d s' c' = (if c' = unat cl then (fat_entry d s c' AND 0xF0000000) OR (v AND 0x0FFFFFFF) else fat_entry d s c')"
    if c': "in_fat d s c'"
  proof -
    have d': "c' div 128 < fat_len d s" using c' by (auto simp: in_fat_def less_mult_imp_div_less mult.commute)
    then have "fat_first d s + c' div 128 < sectors s" using FL by (auto split: if_splits)
    from R(3) [OF this] have "sector s' (fat_first d s + c' div 128) =
      (if c' div 128 = unat cl div 128 then put32 (sector s (fat_first d s + unat cl div 128)) ?i w
       else sector s (fat_first d s + c' div 128))" using d' a(1) by (auto simp: bs_def)
    from fat_entry_put32 [OF R(1) c c' this] show ?thesis by (auto simp: w_def)
  qed
  show "sector s' k = sector s k" if "k < sectors s" "\<not> fat_sectors d s k"
    using R(3) [OF that(1)] that(2) dv a(1) by (auto simp: fat_sectors_def split: if_splits)
  show "sector s' (fat_first d s + fat_len d s + unat cl div 128) = sector s' (fat_first d s + unat cl div 128)" if ?dup
    using R(3) [of "fat_first d s + fat_len d s + unat cl div 128"] R(3) [of "fat_first d s + unat cl div 128"] FL dv that a(1) by auto
qed

section \<open>Free clusters\<close>

lemma io_only_refl [simp]: "io_only s s"
  using io_only_upd(2) [of s "mem s"] by simp

lemma find_append: "find P (xs @ ys) = (case find P xs of None \<Rightarrow> find P ys | Some x \<Rightarrow> Some x)"
  by (induction xs) auto

lemma find_cong_map:
  "(\<And>x. x \<in> set xs \<Longrightarrow> P (f x) \<longleftrightarrow> Q x) \<Longrightarrow> find P (map f xs) = map_option f (find Q xs)"
  by (induction xs) auto

lemma free_entry_find:
  assumes bs: "read_bytes m a 512 = bs" and n: "n \<le> 128"
  shows "free_entry m a sec n (of_nat (128 - n)) =
    map_option of_nat (find (\<lambda>j. \<not> (sec = 0 \<and> j < 2) \<and> le32 bs (j * 4) AND 0x0FFFFFFF = 0) [128 - n..<128])"
  using n
proof (induction n)
  case (Suc n)
  let ?j = "128 - Suc n"
  have "Suc ?j = 128 - n" using Suc.prems by arith
  then have up: "[?j..<128] = ?j # [128 - n..<128]" using upt_conv_Cons [of ?j 128] by simp
  have nx: "of_nat ?j + 1 = (of_nat (128 - n) :: u32)" using Suc.prems by (simp flip: of_nat_Suc)
  have lt: "(of_nat ?j :: u32) < 2 \<longleftrightarrow> ?j < 2" by (simp add: word_less_nat_alt unat_of_nat32)
  have ld: "load32 m (a + of_nat ?j * 4) = le32 bs (?j * 4)"
    using load32_le32 [of "?j * 4" 512 m a] bs Suc.prems by simp
  have "free_entry m a sec (Suc n) (of_nat ?j) =
      (if sec = 0 \<and> ?j < 2 then free_entry m a sec n (of_nat (128 - n))
       else if le32 bs (?j * 4) AND 0x0FFFFFFF = 0 then Some (of_nat ?j)
       else free_entry m a sec n (of_nat (128 - n)))"
    by (simp only: free_entry.simps lt ld nx)
  then show ?case using Suc unfolding up by auto
qed simp

text \<open>The free clusters of a volume, in ascending order.\<close>

definition is_free :: "int \<Rightarrow> 'z fat_scheme \<Rightarrow> nat \<Rightarrow> bool" where
  "is_free d s c \<longleftrightarrow> 2 \<le> c \<and> fat_next d s c = 0"

lemma is_free_io:
  assumes "io_only s s'" "\<forall>k < sectors s. sector s' k = sector s k" "fat_vol d s" "c < 128 * fat_len d s"
  shows "is_free d s' c = is_free d s c"
  using fat_entry_cong [OF assms(1) _ assms(3), of c] assms(2,4)
  by (auto simp: is_free_def fat_next_def in_fat_def)

lemma free_in_sector:
  assumes vol: "fat_vol d s" and sec: "unat sec < fat_len d s" and bs: "bs = sector s (fat_first d s + unat sec)"
  shows "find (is_free d s) [128 * unat sec..<128 * Suc (unat sec)] =
    map_option (\<lambda>j. 128 * unat sec + j) (find (\<lambda>j. \<not> (sec = 0 \<and> j < 2) \<and> le32 bs (j * 4) AND 0x0FFFFFFF = 0) [0..<128])"
proof -
  have eq: "[128 * unat sec..<128 * Suc (unat sec)] = map (\<lambda>j. 128 * unat sec + j) [0..<128]"
    by (simp add: map_add_upt add.commute)
  have iff: "is_free d s (128 * unat sec + j) \<longleftrightarrow> \<not> (sec = 0 \<and> j < 2) \<and> le32 bs (j * 4) AND 0x0FFFFFFF = 0"
    if "j \<in> set [0..<128]" for j
  proof -
    have "(2 \<le> 128 * unat sec + j) = (\<not> (sec = 0 \<and> j < 2))"
    proof (cases "sec = 0")
      case False
      then have "unat sec \<noteq> 0" by (simp add: unat_eq_0)
      then show ?thesis using False by simp
    qed auto
    then show ?thesis using that by (auto simp: is_free_def fat_next_def fat_entry_def bs)
  qed
  show ?thesis unfolding eq by (rule find_cong_map) (rule iff)
qed

lemma find_free_loop_spec:
  fixes s :: "'z fat_scheme"
  assumes "fat_vol d s" and "unat sec + n = fat_len d s"
  obtains s1 where "find_free_loop d n sec s =
      (case find (is_free d s) [128 * unat sec..<128 * fat_len d s] of None \<Rightarrow> (0, s1)
       | Some c \<Rightarrow> (of_nat c, upd_fs d (\<lambda>f. f\<lparr>last_free_fat_sector := of_nat (c div 128)\<rparr>) s1))"
    "io_only s s1" "fat_vol d s1" "\<forall>k < sectors s. sector s1 k = sector s k"
  using assms
proof (induction n arbitrary: sec s thesis)
  case 0
  have "find_free_loop d 0 sec s = (0, s)" "io_only s s" by simp_all
  then show ?case using 0 by simp
next
  case (Suc n)
  have sec: "unat sec < fat_len d s" using Suc.prems(3) by simp
  then have "unat (fat_start_sector (fs_at d s) + sec) = fat_first d s + unat sec \<and> fat_first d s + unat sec < sectors s"
    using Suc.prems(2) unat_lt32 [of "ramdisk_size s"] div_le_dividend [of "unat (ramdisk_size s)" 512]
    by (subst unat_add_no_wrap32) (auto simp: fat_vol_def fat_first_def sectors_def split: if_splits)
  note u = this [THEN conjunct1] and lt = this [THEN conjunct2]
  have "unat (fat_start_sector (fs_at d s) + sec) < sectors s" using u lt by simp
  then obtain s' where s': "disk_read_sector d (fat_start_sector (fs_at d s) + sec) (fat_dma_buffer s) s = (1, s')"
    "io_only s s'" "fat_vol d s'" "\<forall>k < sectors s. sector s' k = sector s k"
    "read_bytes (mem s') (fat_dma_buffer s) 512 = sector s (unat (fat_start_sector (fs_at d s) + sec))"
    by (rule fat_read [OF Suc.prems(2)])
  note f' = io_only_fields [OF s'(2)]
  let ?Q = "\<lambda>j. \<not> (sec = 0 \<and> j < 2) \<and> le32 (sector s (fat_first d s + unat sec)) (j * 4) AND 0x0FFFFFFF = 0"
  have fe: "free_entry (mem s') (fat_dma_buffer s') sec 128 0 = map_option of_nat (find ?Q [0..<128])"
    using free_entry_find [OF s'(5), of 128 sec] u f' by simp
  have up: "[128 * unat sec..<128 * fat_len d s] = [128 * unat sec..<128 * Suc (unat sec)] @ [128 * Suc (unat sec)..<128 * fat_len d s]"
    using upt_add_eq_append [of "128 * unat sec" "128 * Suc (unat sec)" "128 * fat_len d s - 128 * Suc (unat sec)"] sec by simp
  note fs = free_in_sector [OF Suc.prems(2) sec refl]
  show ?case
  proof (cases "find ?Q [0..<128]")
    case (Some j)
    then have j: "j < 128" by (auto simp: find_Some_iff)
    have "find (is_free d s) [128 * unat sec..<128 * fat_len d s] = Some (128 * unat sec + j)"
      unfolding up find_append fs Some by simp
    moreover have "find_free_loop d (Suc n) sec s = (sec * 128 + of_nat j, upd_fs d (\<lambda>f. f\<lparr>last_free_fat_sector := sec\<rparr>) s')"
      using s'(1) fe Some by simp
    moreover have "(of_nat (128 * unat sec + j) :: u32) = sec * 128 + of_nat j" by simp
    moreover have "(of_nat ((128 * unat sec + j) div 128) :: u32) = sec" using j by simp
    ultimately show ?thesis using Suc.prems(1) [of s'] s' by simp
  next
    case None
    have nx: "unat (sec + 1) = Suc (unat sec)"
      using sec Suc.prems(2) by (subst unat_add_no_wrap32) (auto simp: fat_vol_def)
    then have len': "unat (sec + 1) + n = fat_len d s'" using Suc.prems(3) f' by simp
    obtain s1 where s1: "find_free_loop d n (sec + 1) s' =
        (case find (is_free d s') [128 * unat (sec + 1)..<128 * fat_len d s'] of None \<Rightarrow> (0, s1)
         | Some c \<Rightarrow> (of_nat c, upd_fs d (\<lambda>f. f\<lparr>last_free_fat_sector := of_nat (c div 128)\<rparr>) s1))"
      "io_only s' s1" "fat_vol d s1" "\<forall>k < sectors s'. sector s1 k = sector s' k"
      by (rule Suc.IH [OF _ s'(3) len'])
    have "find (is_free d s') [128 * unat (sec + 1)..<128 * fat_len d s'] = find (is_free d s) [128 * Suc (unat sec)..<128 * fat_len d s]"
      unfolding nx f' using is_free_io [OF s'(2,4) Suc.prems(2)] by (intro find_cong) auto
    moreover have "find_free_loop d (Suc n) sec s = find_free_loop d n (sec + 1) s'" using s'(1) fe None by simp
    moreover have "find (is_free d s) [128 * unat sec..<128 * fat_len d s] = find (is_free d s) [128 * Suc (unat sec)..<128 * fat_len d s]"
      unfolding up find_append fs None by simp
    ultimately show ?thesis
      using Suc.prems(1) [of s1] s1 io_only_trans [OF s'(2) s1(2)] s'(4) f' by simp
  qed
qed

section \<open>The search hint\<close>

abbreviation set_hint :: "int \<Rightarrow> u32 \<Rightarrow> 'z fat_scheme \<Rightarrow> 'z fat_scheme" where
  "set_hint d h s \<equiv> upd_fs d (\<lambda>f. f\<lparr>last_free_fat_sector := h\<rparr>) s"

definition fat_hint :: "int \<Rightarrow> 'z fat_scheme \<Rightarrow> u32" where
  "fat_hint d s = last_free_fat_sector (fs_at d s)"

lemma set_hint_fields:
  assumes "fat_vol d s"
  shows "sector (set_hint d h s) k = sector s k" "sectors (set_hint d h s) = sectors s" "fat_first d (set_hint d h s) = fat_first d s"
    "fat_len d (set_hint d h s) = fat_len d s" "fat_hint d (set_hint d h s) = h" "bpb (fs_at d (set_hint d h s)) = bpb (fs_at d s)"
    "fat_dma_buffer (set_hint d h s) = fat_dma_buffer s" "in_fat d (set_hint d h s) c = in_fat d s c"
    "fat_entry d (set_hint d h s) c = fat_entry d s c" "fat_next d (set_hint d h s) c = fat_next d s c" "fat_vol d (set_hint d h s)"
proof -
  have fs: "fs_at d (set_hint d h s) = (fs_at d s)\<lparr>last_free_fat_sector := h\<rparr>"
    using assms by (simp add: fat_vol_def fs_at_def upd_fs_def)
  show sec: "sector (set_hint d h s) k = sector s k" "sectors (set_hint d h s) = sectors s" for k
    by (simp_all add: upd_fs_def sector_def sectors_def)
  show F: "fat_first d (set_hint d h s) = fat_first d s" "fat_len d (set_hint d h s) = fat_len d s"
    "bpb (fs_at d (set_hint d h s)) = bpb (fs_at d s)" "fat_hint d (set_hint d h s) = h"
    using fs by (simp_all add: fat_first_def fat_len_def fat_hint_def)
  show B: "fat_dma_buffer (set_hint d h s) = fat_dma_buffer s" by (simp add: upd_fs_def)
  show "in_fat d (set_hint d h s) c = in_fat d s c" using F by (simp add: in_fat_def)
  show E: "fat_entry d (set_hint d h s) c = fat_entry d s c" using F sec by (simp add: fat_entry_def)
  show "fat_next d (set_hint d h s) c = fat_next d s c" using E by (simp add: fat_next_def)
  have "ram_inv d (set_hint d h s) = ram_inv d s"
    by (simp add: ram_inv_def cache_coherent_def sec) (simp add: upd_fs_def)
  moreover have "buf_ok (set_hint d h s) b = buf_ok s b" for b by (simp add: buf_ok_def upd_fs_def)
  ultimately show "fat_vol d (set_hint d h s)"
    using assms F sec B unfolding fat_vol_def by (simp add: upd_fs_def)
qed

section \<open>Chains\<close>

text \<open>The clusters met when the links \<open>F\<close> are followed from \<open>c\<close>, as long as they are clusters (\<open>V\<close>).\<close>

definition chain_set :: "(u32 \<Rightarrow> bool) \<Rightarrow> (u32 \<Rightarrow> u32) \<Rightarrow> u32 \<Rightarrow> u32 set" where
  "chain_set V F c = {x. V x \<and> (c, x) \<in> {(x, F x) | x. V x}\<^sup>*}"

lemma chain_set_cong:
  assumes "\<And>x. V x \<Longrightarrow> F x = G x"
  shows "chain_set V F c = chain_set V G c"
proof -
  have "{(x, F x) | x. V x} = {(x, G x) | x. V x}" using assms by auto
  then show ?thesis by (simp add: chain_set_def)
qed

lemma rtrancl_start: "(a, b) \<in> R\<^sup>* \<Longrightarrow> a = b \<or> a \<in> Domain R"
  by (erule converse_rtranclE) auto

lemma chain_set_none: "\<not> V c \<Longrightarrow> chain_set V F c = {}"
proof -
  assume c: "\<not> V c"
  have False if "V x" "(c, x) \<in> {(x, F x) | x. V x}\<^sup>*" for x
    using rtrancl_start [OF that(2)] c that(1) by auto
  then show ?thesis by (auto simp: chain_set_def)
qed

lemma chain_set_step:
  assumes c: "V c" and G: "\<And>x. V x \<Longrightarrow> x \<noteq> c \<Longrightarrow> G x = F x" and stop: "\<not> V (G c)"
  shows "chain_set V F c = insert c (chain_set V G (F c))"
proof
  let ?F = "{(x, F x) | x. V x}" and ?G = "{(x, G x) | x. V x}"
  have fwd: "y = c \<or> (F c, y) \<in> ?G\<^sup>*" if "(c, y) \<in> ?F\<^sup>*" for y
    using that
  proof (induction rule: rtrancl_induct)
    case (step y z)
    then have z: "V y" "z = F y" by auto
    show ?case
    proof (cases "y = c")
      case False
      then have "(F c, y) \<in> ?G\<^sup>*" "(y, z) \<in> ?G" using step.IH z G [of y] by auto
      then have "(F c, z) \<in> ?G\<^sup>*" by (rule rtrancl_into_rtrancl)
      then show ?thesis ..
    qed (use z in auto)
  qed simp
  show "chain_set V F c \<subseteq> insert c (chain_set V G (F c))"
    unfolding chain_set_def using fwd by blast
  have bwd: "V y \<longrightarrow> (c, y) \<in> ?F\<^sup>*" if "(F c, y) \<in> ?G\<^sup>*" for y
    using that
  proof (induction rule: rtrancl_induct)
    case base
    then show ?case using c by (auto intro: r_into_rtrancl)
  next
    case (step y z)
    then have z: "V y" "z = G y" by auto
    show ?case
    proof (cases "y = c")
      case True
      then show ?thesis using stop z by simp
    next
      case False
      then have "(y, z) \<in> ?F" using z G [of y] by auto
      moreover have "(c, y) \<in> ?F\<^sup>*" using step.IH z by simp
      ultimately have "(c, z) \<in> ?F\<^sup>*" by (rule rtrancl_into_rtrancl [rotated])
      then show ?thesis ..
    qed
  qed
  show "insert c (chain_set V G (F c)) \<subseteq> chain_set V F c"
    unfolding chain_set_def using bwd c by auto
qed

section \<open>Freeing a chain\<close>

definition same_geometry :: "int \<Rightarrow> 'z fat_scheme \<Rightarrow> 'z fat_scheme \<Rightarrow> bool" where
  "same_geometry d s s' \<longleftrightarrow> fat_first d s' = fat_first d s \<and> fat_len d s' = fat_len d s \<and> sectors s' = sectors s \<and>
     bpb (fs_at d s') = bpb (fs_at d s) \<and> fat_dma_buffer s' = fat_dma_buffer s"

lemma same_geometry_fields:
  assumes "same_geometry d s s'"
  shows "in_fat d s' c = in_fat d s c" "fat_sectors d s' k = fat_sectors d s k" "sectors s' = sectors s" "fat_len d s' = fat_len d s"
  using assms by (simp_all add: same_geometry_def in_fat_def fat_sectors_def)

lemma same_geometry_trans: "same_geometry d s s' \<Longrightarrow> same_geometry d s' s'' \<Longrightarrow> same_geometry d s s''"
  by (simp add: same_geometry_def)

lemma same_geometry_io: "io_only s s' \<Longrightarrow> same_geometry d s s'"
  by (simp add: same_geometry_def io_only_fields)

text \<open>Every link leads to an end mark or to a cluster of the table.\<close>

definition links_ok :: "int \<Rightarrow> 'z fat_scheme \<Rightarrow> bool" where
  "links_ok d s \<longleftrightarrow> (\<forall>c. in_fat d s c \<longrightarrow> 2 \<le> fat_next d s c \<and> fat_next d s c < 0x0FFFFFF8 \<longrightarrow> in_fat d s (unat (fat_next d s c)))"

lemma link_write: "((e AND 0xF0000000) OR (v AND 0x0FFFFFFF)) AND 0x0FFFFFFF = v AND (0x0FFFFFFF :: u32)"
  by (simp add: bit.conj_disj_distrib2 and.assoc)

lemma in_fat_cluster:
  fixes c :: u32
  assumes "fat_vol d s" and "in_fat d s (unat c)"
  shows "2 \<le> c \<and> c < 0x0FFFFFF8"
proof -
  have "unat c < 0x0FFFFFF8" using assms by (auto simp: fat_vol_def in_fat_def)
  then show ?thesis using assms(2) by (auto simp: in_fat_def word_le_nat_alt word_less_nat_alt)
qed

lemma free_chain_step:
  fixes s :: "'z fat_scheme"
  assumes vol: "fat_vol d s" and c: "in_fat d s (unat c)"
  obtains s' where "free_chain d c s = free_chain d (fat_next d s (unat c)) s'" "fat_vol d s'" "same_geometry d s s'"
    "\<forall>x. in_fat d s x \<longrightarrow> fat_next d s' x = (if x = unat c then 0 else fat_next d s x)"
    "\<forall>k < sectors s. \<not> fat_sectors d s k \<longrightarrow> sector s' k = sector s k"
    "fat_hint d s' = min (fat_hint d s) ((c * 4) div 512)"
proof -
  obtain s1 where s1: "get_next_cluster d c s = (fat_next d s (unat c), s1)" "io_only s s1" "fat_vol d s1"
    "\<forall>k < sectors s. sector s1 k = sector s k" by (rule get_next_spec [OF vol c])
  note g1 = same_geometry_fields [OF same_geometry_io [where d = d, OF s1(2)]]
  have c1: "in_fat d s1 (unat c)" using c g1 by simp
  define s2 where "s2 = fat32_write_fat_entry d c 0 s1"
  note w = write_entry_spec [OF s1(3) c1, where v = 0, folded s2_def]
  define h where "h = (c * 4) div 512"
  define s3 where "s3 = (if h < last_free_fat_sector (fs_at d s2) then set_hint d h s2 else s2)"
  have geo: "same_geometry d s s2" using same_geometry_io [OF io_only_trans [OF s1(2) w(1)]] .
  note sh = set_hint_fields [OF w(2)]
  have run: "free_chain d c s = free_chain d (fat_next d s (unat c)) s3"
    using in_fat_cluster [OF vol c] s1(1)
    by (subst free_chain.simps) (simp add: s2_def [symmetric] s3_def h_def Let_def)
  have hint: "fat_hint d s2 = fat_hint d s"
    using io_only_fields(1) [OF io_only_trans [OF s1(2) w(1)]] by (simp add: fat_hint_def)
  have nxt: "fat_next d s3 x = (if x = unat c then 0 else fat_next d s x)" if "in_fat d s x" for x
  proof -
    have "fat_next d s3 x = fat_next d s2 x" using sh by (simp add: s3_def)
    also have "\<dots> = (if x = unat c then 0 else fat_next d s1 x)"
      using w(3) [of x] that g1 link_write [of "fat_entry d s1 (unat c)" 0] by (auto simp: fat_next_def)
    also have "fat_next d s1 x = fat_next d s x"
      using fat_entry_cong [OF s1(2) _ vol that] s1(4) by (simp add: fat_next_def)
    finally show ?thesis .
  qed
  show ?thesis
  proof (rule that [OF run])
    show "fat_vol d s3" using sh w(2) by (simp add: s3_def)
    show "same_geometry d s s3" using geo sh by (simp add: s3_def same_geometry_def)
    show "\<forall>x. in_fat d s x \<longrightarrow> fat_next d s3 x = (if x = unat c then 0 else fat_next d s x)" using nxt by blast
    show "\<forall>k < sectors s. \<not> fat_sectors d s k \<longrightarrow> sector s3 k = sector s k"
      using w(4) s1(4) g1 sh by (simp add: s3_def)
    show "fat_hint d s3 = min (fat_hint d s) ((c * 4) div 512)"
      using sh hint by (auto simp: s3_def min_def fat_hint_def h_def [symmetric])
  qed
qed

abbreviation fat_chain :: "int \<Rightarrow> 'z fat_scheme \<Rightarrow> u32 \<Rightarrow> u32 set" where
  "fat_chain d s c \<equiv> chain_set (\<lambda>x. in_fat d s (unat x)) (\<lambda>x. fat_next d s (unat x)) c"

definition used :: "int \<Rightarrow> 'z fat_scheme \<Rightarrow> nat set" where
  "used d s = {x. in_fat d s x \<and> fat_next d s x \<noteq> 0}"

lemma finite_used: "finite (used d s)"
  by (rule finite_subset [of _ "{..<128 * fat_len d s}"]) (auto simp: used_def in_fat_def)

lemma free_chain_spec:
  fixes s :: "'z fat_scheme"
  assumes "fat_vol d s" and "links_ok d s" and "2 \<le> c \<and> c < 0x0FFFFFF8 \<longrightarrow> in_fat d s (unat c)"
  shows "\<exists>s'. free_chain d c s = Some s' \<and> fat_vol d s' \<and> same_geometry d s s' \<and>
    (\<forall>x. in_fat d s (unat x) \<longrightarrow> fat_next d s' (unat x) = (if x \<in> fat_chain d s c then 0 else fat_next d s (unat x))) \<and>
    (\<forall>k < sectors s. \<not> fat_sectors d s k \<longrightarrow> sector s' k = sector s k) \<and>
    fat_hint d s' \<le> fat_hint d s \<and> (\<forall>x\<in>fat_chain d s c. fat_hint d s' \<le> (x * 4) div 512)"
  using assms
proof (induction "card (used d s)" arbitrary: s c rule: less_induct)
  case less
  show ?case
  proof (cases "in_fat d s (unat c)")
    case False
    then have "free_chain d c s = Some s" using less.prems(3) by (subst free_chain.simps) auto
    then show ?thesis
      using less.prems(1) chain_set_none [of "\<lambda>x. in_fat d s (unat x)" c] False
      by (auto simp: same_geometry_def)
  next
    case True
    obtain s1 where s1: "free_chain d c s = free_chain d (fat_next d s (unat c)) s1" "fat_vol d s1" "same_geometry d s s1"
      "\<forall>x. in_fat d s x \<longrightarrow> fat_next d s1 x = (if x = unat c then 0 else fat_next d s x)"
      "\<forall>k < sectors s. \<not> fat_sectors d s k \<longrightarrow> sector s1 k = sector s k"
      "fat_hint d s1 = min (fat_hint d s) ((c * 4) div 512)"
      by (rule free_chain_step [OF less.prems(1) True])
    note g = same_geometry_fields [OF s1(3)]
    have eqc: "unat x = unat c \<longleftrightarrow> x = c" for x by (simp add: word_unat_eq_iff)
    have chain: "fat_chain d s c = insert c (fat_chain d s1 (fat_next d s (unat c)))"
      unfolding g
    proof (rule chain_set_step [where V = "\<lambda>x. in_fat d s (unat x)", OF True])
      show "fat_next d s1 (unat x) = fat_next d s (unat x)" if "in_fat d s (unat x)" "x \<noteq> c" for x
        using s1(4) that eqc by simp
      show "\<not> in_fat d s (unat (fat_next d s1 (unat c)))" using s1(4) True by (simp add: in_fat_def)
    qed
    have links: "links_ok d s1" using less.prems(2) s1(4) g unfolding links_ok_def by auto
    have nx: "2 \<le> fat_next d s (unat c) \<and> fat_next d s (unat c) < 0x0FFFFFF8 \<longrightarrow> in_fat d s1 (unat (fat_next d s (unat c)))"
      using less.prems(2) True g by (auto simp: links_ok_def)
    show ?thesis
    proof (cases "fat_next d s (unat c) = 0")
      case nil: True
      then have "free_chain d c s = Some s1" unfolding s1(1) by (subst free_chain.simps) simp
      moreover have "fat_chain d s c = {c}"
        unfolding chain nil by (subst chain_set_none) (simp_all add: in_fat_def)
      ultimately show ?thesis using s1 eqc by (intro exI [of _ s1]) auto
    next
      case False
      have "used d s1 = used d s - {unat c}" using s1(4) g by (auto simp: used_def split: if_splits)
      moreover have "unat c \<in> used d s" using True False by (simp add: used_def)
      ultimately have "card (used d s1) < card (used d s)" using card_Diff1_less [OF finite_used, of "unat c" d s] by simp
      from less.hyps [OF this s1(2) links nx] obtain s2 where
        s2: "free_chain d (fat_next d s (unat c)) s1 = Some s2" "fat_vol d s2" "same_geometry d s1 s2"
        "\<forall>x. in_fat d s1 (unat x) \<longrightarrow> fat_next d s2 (unat x) =
          (if x \<in> fat_chain d s1 (fat_next d s (unat c)) then 0 else fat_next d s1 (unat x))"
        "\<forall>k < sectors s1. \<not> fat_sectors d s1 k \<longrightarrow> sector s2 k = sector s1 k"
        "fat_hint d s2 \<le> fat_hint d s1" "\<forall>x\<in>fat_chain d s1 (fat_next d s (unat c)). fat_hint d s2 \<le> (x * 4) div 512"
        by blast
      have "fat_next d s2 (unat x) = (if x \<in> fat_chain d s c then 0 else fat_next d s (unat x))" if "in_fat d s (unat x)" for x
        using s2(4) s1(4) that eqc g unfolding chain by auto
      moreover have "\<forall>x\<in>fat_chain d s c. fat_hint d s2 \<le> (x * 4) div 512"
        using s2(6,7) s1(6) unfolding chain by (auto simp: min_def split: if_splits)
      moreover have "fat_hint d s2 \<le> fat_hint d s" using s2(6) s1(6) by (auto simp: min_def split: if_splits)
      ultimately show ?thesis
        using s1(1,5) s2(1,2,5) same_geometry_trans [OF s1(3) s2(3)] g by (intro exI [of _ s2]) auto
    qed
  qed
qed

end
