(* ===== verification/Fat_Props.thy ===== *)
theory Fat_Props
  imports Fat_Spec
begin

text \<open>
  What the FAT32 driver guarantees: its table accesses, the search for free clusters, the freeing
  of chains, and the handling of file names.
\<close>

section \<open>Names\<close>

lemma length_to_dos [simp]: "length (to_dos_file_name f) = 11"
proof -
  have "length (pad n cs) = n" if "length cs \<le> n" for n cs using that by (simp add: pad_def)
  then show ?thesis by (auto simp: to_dos_file_name_def Let_def split: list.splits)
qed

lemma read_bytes_slice:
  assumes "i + k \<le> n"
  shows "read_bytes m (a + of_nat i) k = take k (drop i (read_bytes m a n))"
  using assms by (intro nth_equalityI) (auto simp: read_bytes_def algebra_simps)

lemma uint_char_byte: "uint (char_byte c) = uchar c"
proof -
  have "(of_char c :: nat) < 256" by simp
  then have "uint (of_nat (of_char c) :: u8) = int (of_char c)" by (simp add: unsigned_of_nat take_bit_eq_mod)
  then show ?thesis by (simp add: char_byte_def uchar_def of_nat_of_char)
qed

lemma bytes_match_self: "bytes_match (map char_byte cs) cs \<longleftrightarrow> (\<forall>c\<in>set cs. uchar c < 128)"
  by (induction cs) (auto simp: uint_char_byte schar_def)

section \<open>Long names\<close>

lemma length_lfn_copy [simp]: "length (lfn_copy i bs buf) = length buf"
  by (induction i bs buf rule: lfn_copy.induct) auto

lemma lfn_copy_above: "i + length bs \<le> j \<Longrightarrow> lfn_copy i bs buf ! j = buf ! j"
  by (induction i bs buf rule: lfn_copy.induct) auto

lemma length_extract [simp]: "length (extract_lfn_chars m e buf) = length buf"
  by (simp add: extract_lfn_chars_def Let_def)

lemma extract_above:
  assumes "255 \<le> j"
  shows "extract_lfn_chars m e buf ! j = buf ! j"
proof (cases "(uint (m e AND 0x1F) - 1) * 13 < 0 \<or> (uint (m e AND 0x1F) - 1) * 13 \<ge> 256 - 13")
  case False
  define x where "x = uint (m e AND 0x1F)"
  have "\<not> ((x - 1) * 13 < 0 \<or> (x - 1) * 13 \<ge> 256 - 13)" using False by (simp add: x_def)
  then have "x - 1 \<le> 18" by arith
  then have "(x - 1) * 13 \<le> 234" by simp
  then have "nat ((x - 1) * 13) \<le> 234" by simp
  then have "nat ((uint (m e AND 0x1F) - 1) * 13) + 13 \<le> 247" unfolding x_def by simp
  then show ?thesis using assms by (auto simp: extract_lfn_chars_def Let_def lfn_copy_above nth_list_update)
qed (simp add: extract_lfn_chars_def Let_def)

lemma lfn_str_le:
  assumes "length buf = 256" and "buf ! 255 = 0"
  shows "length (lfn_str buf) \<le> 255"
proof -
  have "\<not> 255 < length (takeWhile (\<lambda>b. b \<noteq> 0) buf)"
    using assms takeWhile_nth [of 255 "\<lambda>b. b \<noteq> 0" buf] nth_mem [of 255 "takeWhile (\<lambda>b. b \<noteq> 0) buf"]
    by (auto dest: set_takeWhileD)
  then show ?thesis by (simp add: lfn_str_def)
qed

section \<open>A concrete volume\<close>

text \<open>
  A ramdisk of 128 sectors with two tables of eight sectors from sector 32 on, and clusters 2 and
  3 linked to each other.
\<close>

definition fat_state_example :: fat32_state where
  "fat_state_example = \<lparr>bpb = (bpb_at (\<lambda>_. 0) 0)\<lparr>bytes_per_sector := 512, sectors_per_cluster := 1, reserved_sectors := 32,
       num_fats := 2, sectors_per_fat_32 := 8, root_cluster := 2\<rparr>,
     fat_start_sector = 32, data_start_sector = 48, last_free_fat_sector = 0, is_mounted = True\<rparr>"

definition fat_example :: fat where
  "fat_example = disk.extend (disk_example\<lparr>mem := store32 (store32 (\<lambda>_. 0) 0x204008 3) 0x20400C 2\<rparr>)
     (fat.fields (replicate 8 fat_state_example) 0x100000)"

lemma fat_example_fs [simp]: "fs_at 0 fat_example = fat_state_example" "fat_len 0 fat_example = 8" "fat_first 0 fat_example = 32"
    "mem fat_example = store32 (store32 (\<lambda>_. 0) 0x204008 3) 0x20400C 2" "ramdisk_start fat_example = 0x200000"
  by (simp_all add: fat_example_def fs_at_def disk.defs fat.defs fat_len_def fat_first_def fat_state_example_def disk_example_def)

lemma fat_example_vol: "fat_vol 0 fat_example"
  unfolding fat_vol_def fat_example_fs
  by (simp add: fat_example_def fat_state_example_def disk.defs fat.defs disk_example_def ram_inv_def cache_coherent_def cache_wf_def
      sectors_def CACHE_SIZE_def buf_ok_def apart_def)

lemma fat_entry_load:
  assumes "fat_vol d s"
  shows "fat_entry d s c = load32 (mem s) (ramdisk_start s + of_nat (fat_first d s * 512 + c * 4))"
proof -
  have "c mod 128 * 4 + 4 \<le> 512" using mod_less_divisor [of 128 c] by linarith
  from load32_le32 [OF this, of "mem s" "ramdisk_start s + of_nat ((fat_first d s + c div 128) * 512)"]
  have "fat_entry d s c = load32 (mem s) (ramdisk_start s + of_nat ((fat_first d s + c div 128) * 512 + c mod 128 * 4))"
    by (simp add: fat_entry_def sector_def add.assoc)
  also have "(fat_first d s + c div 128) * 512 + c mod 128 * 4 = fat_first d s * 512 + (128 * (c div 128) + c mod 128) * 4"
    by (simp only: add_mult_distrib mult.assoc)
  also have "128 * (c div 128) + c mod 128 = c" by (rule mult_div_mod_eq)
  finally show ?thesis .
qed

lemma fat_example_next:
  assumes "in_fat 0 fat_example c"
  shows "fat_next 0 fat_example c = (if c = 2 then 3 else if c = 3 then 2 else 0)"
proof -
  have c: "2 \<le> c" "c < 1024" using assms by (simp_all add: in_fat_def)
  have e: "fat_entry 0 fat_example c = load32 (store32 (store32 (\<lambda>_. 0) 0x204008 3) 0x20400C 2) (0x204000 + of_nat (c * 4))"
    using fat_entry_load [OF fat_example_vol, of c] by (simp add: add.assoc [symmetric])
  have z: "load32 (\<lambda>_. 0) a = 0" for a by (simp add: load32_def)
  consider "c = 2" | "c = 3" | "4 \<le> c" using c by linarith
  then show ?thesis
  proof cases
    case 1
    then have "fat_entry 0 fat_example c = 3" unfolding e by (subst load32_store32_other) simp_all
    then show ?thesis using 1 by (simp add: fat_next_def)
  next
    case 2
    then have "fat_entry 0 fat_example c = 2" unfolding e by simp
    then show ?thesis using 2 by (simp add: fat_next_def)
  next
    case 3
    have u: "unat (of_nat (c * 4) :: u32) = c * 4" using c by (intro unat_of_nat32) simp
    have apart: "4 \<le> unat (0x204000 + of_nat (c * 4) - (0x204000 + of_nat n) :: u32)"
      "4 \<le> unat (0x204000 + of_nat n - (0x204000 + of_nat (c * 4)) :: u32)" if "n \<le> 12" for n
      using unat_sub_of_nat32 [of n "of_nat (c * 4)"] unat_sub_of_nat32 [of "c * 4" "of_nat n"] that 3 c u unat_of_nat32 [of n] by simp_all
    have "fat_entry 0 fat_example c = 0"
      unfolding e using apart [of 12] apart [of 8] by (simp add: load32_store32_other z)
    then show ?thesis using 3 by (simp add: fat_next_def)
  qed
qed

lemma fat_example_links: "links_ok 0 fat_example"
  unfolding links_ok_def using fat_example_next by (auto simp: in_fat_def)

section \<open>Properties\<close>

lemma find_upt_Some:
  assumes "find P [a..<b] = Some c"
  shows "a \<le> c \<and> c < b \<and> P c \<and> (\<forall>x. a \<le> x \<and> x < c \<longrightarrow> \<not> P x)"
proof -
  obtain i where i: "i < b - a" "P (a + i)" "c = a + i" "\<forall>j<i. \<not> P (a + j)"
    using assms by (auto simp: find_Some_iff)
  moreover have "\<not> P x" if "a \<le> x" "x < a + i" for x using i(4) that by (metis le_add_diff_inverse less_diff_conv2 add.commute nat_add_left_cancel_less)
  ultimately show ?thesis by auto
qed

text \<open>The hint never passes over a free cluster.\<close>

definition hint_ok :: "int \<Rightarrow> 'z fat_scheme \<Rightarrow> bool" where
  "hint_ok d s \<longleftrightarrow> unat (fat_hint d s) \<le> fat_len d s \<and>
     (\<forall>x. in_fat d s x \<and> fat_next d s x = 0 \<longrightarrow> unat (fat_hint d s) \<le> x div 128)"

text \<open>
  C24. The file allocation table behaves like an array: after \<^verbatim>\<open>fat32_write_fat_entry\<close> stores a
  link, \<^verbatim>\<open>get_next_cluster\<close> returns its lower 28 bits, every other link is what it was, the four
  reserved bits of the entry are kept, both copies of the table agree on the sector, and no sector
  outside the tables changes.
\<close>

theorem fat_entry_round_trip:
  fixes s :: "'z fat_scheme"
  assumes "fat_vol d s" and "in_fat d s (unat c)" and "in_fat d s (unat c')" and "c' \<noteq> c" and "k < sectors s" and "\<not> fat_sectors d s k"
  shows "let s' = fat32_write_fat_entry d c v s in
    fst (get_next_cluster d c s') = v AND 0x0FFFFFFF \<and> fst (get_next_cluster d c' s') = fst (get_next_cluster d c' s) \<and>
    fat_entry d s' (unat c) AND 0xF0000000 = fat_entry d s (unat c) AND 0xF0000000 \<and>
    sector s' k = sector s k \<and> fat_vol d s' \<and>
    (num_fats (bpb (fs_at d s)) > 1 \<longrightarrow>
      sector s' (fat_first d s + fat_len d s + unat c div 128) = sector s' (fat_first d s + unat c div 128))"
proof -
  define s' where "s' = fat32_write_fat_entry d c v s"
  note w = write_entry_spec [OF assms(1,2), where v = v, folded s'_def]
  note f = io_only_fields [OF w(1)]
  have get: "fst (get_next_cluster d x t) = fat_next d t (unat x)" if "fat_vol d t" "in_fat d t (unat x)" for x and t :: "'z fat_scheme"
    by (rule get_next_spec [OF that]) simp
  have ne: "unat c' \<noteq> unat c" using assms(4) by (simp add: word_unat_eq_iff)
  have "(((e AND 0xF0000000) OR (v AND 0x0FFFFFFF)) AND 0xF0000000) = e AND (0xF0000000 :: u32)" for e
    by (simp add: bit.conj_disj_distrib2 and.assoc)
  then show ?thesis
    unfolding Let_def s'_def [symmetric]
    using get [OF w(2), of c] get [OF w(2), of c'] get [OF assms(1,3)] w(2,3,4,5) assms(2,3,5,6) ne link_write f
    by (simp add: fat_next_def)
qed

theorem fat_entry_round_trip_witness:
  "fst (get_next_cluster 0 5 (fat32_write_fat_entry 0 5 77 fat_example)) = 77"
proof -
  have "in_fat 0 fat_example (unat (5 :: u32))" "in_fat 0 fat_example (unat (9 :: u32))" by (simp_all add: in_fat_def)
  moreover have "60 < sectors fat_example" "\<not> fat_sectors 0 fat_example 60"
    by (simp_all add: fat_sectors_def fat_state_example_def) (simp add: fat_example_def disk.defs fat.defs disk_example_def sectors_def)
  ultimately show ?thesis using fat_entry_round_trip [OF fat_example_vol, of 5 9 60 77] by (simp add: Let_def)
qed

text \<open>
  C25. \<^verbatim>\<open>fat32_find_free_cluster\<close> returns the lowest free cluster of the volume, and 0 exactly when
  no cluster is free, provided the hint has not passed over a free one; the search keeps the hint
  sound, moves it to the sector of its result and changes no sector.
\<close>

theorem find_free_cluster_correct:
  fixes s :: "'z fat_scheme"
  assumes vol: "fat_vol d s" and hint: "hint_ok d s"
  shows "case fat32_find_free_cluster d s of (c, s') \<Rightarrow> fat_vol d s' \<and> hint_ok d s' \<and>
    (\<forall>k < sectors s. sector s' k = sector s k) \<and>
    (if c = 0 then \<forall>x. in_fat d s x \<longrightarrow> fat_next d s x \<noteq> 0
     else in_fat d s (unat c) \<and> fat_next d s (unat c) = 0 \<and> fat_hint d s' = c div 128 \<and>
       (\<forall>x. in_fat d s x \<and> fat_next d s x = 0 \<longrightarrow> unat c \<le> x))"
proof -
  have len: "unat (fat_hint d s) + (fat_len d s - unat (fat_hint d s)) = fat_len d s" using hint by (simp add: hint_ok_def)
  have eq: "fat32_find_free_cluster d s = find_free_loop d (fat_len d s - unat (fat_hint d s)) (fat_hint d s) s"
    by (simp add: fat32_find_free_cluster_def fat_hint_def fat_len_def Let_def)
  obtain s1 where s1: "fat32_find_free_cluster d s =
      (case find (is_free d s) [128 * unat (fat_hint d s)..<128 * fat_len d s] of None \<Rightarrow> (0, s1)
       | Some c \<Rightarrow> (of_nat c, set_hint d (of_nat (c div 128)) s1))"
    "io_only s s1" "fat_vol d s1" "\<forall>k < sectors s. sector s1 k = sector s k"
    unfolding eq by (rule find_free_loop_spec [OF vol len])
  note f = io_only_fields [OF s1(2)]
  have nx: "fat_next d s1 x = fat_next d s x" if "in_fat d s x" for x
    using fat_entry_cong [OF s1(2) _ vol that] s1(4) by (simp add: fat_next_def)
  have low: "128 * unat (fat_hint d s) \<le> x" if "in_fat d s x" "fat_next d s x = 0" for x
    using hint that by (auto simp: hint_ok_def dest!: spec [of _ x])
  have h1: "fat_hint d s1 = fat_hint d s" using f by (simp add: fat_hint_def)
  show ?thesis
  proof (cases "find (is_free d s) [128 * unat (fat_hint d s)..<128 * fat_len d s]")
    case None
    then have "fat_next d s x \<noteq> 0" if "in_fat d s x" for x
      using low that by (auto simp: find_None_iff is_free_def in_fat_def)
    moreover have "hint_ok d s1" using hint f nx h1 by (auto simp: hint_ok_def)
    ultimately show ?thesis using s1 None by simp
  next
    case (Some c)
    then have c: "128 * unat (fat_hint d s) \<le> c" "c < 128 * fat_len d s" "is_free d s c"
      and least: "\<And>x. 128 * unat (fat_hint d s) \<le> x \<Longrightarrow> x < c \<Longrightarrow> \<not> is_free d s x"
      using find_upt_Some [OF Some] by auto
    have "c < 4294967296" using c(2) vol by (auto simp: fat_vol_def)
    then have u: "unat (of_nat c :: u32) = c" "unat (of_nat (c div 128) :: u32) = c div 128"
      by (auto intro!: unat_of_nat32 intro: le_less_trans [OF div_le_dividend])
    have in_c: "in_fat d s c" "fat_next d s c = 0" using c by (auto simp: is_free_def in_fat_def)
    have le: "c \<le> x" if "in_fat d s x" "fat_next d s x = 0" for x
      using least [of x] low [OF that] that by (simp add: is_free_def in_fat_def) (metis not_less)
    have "of_nat c \<noteq> (0 :: u32)" using u in_c by (metis in_fat_def not_numeral_le_zero unat_0)
    moreover have "of_nat (c div 128) = (of_nat c :: u32) div 128" using u by (simp add: word_unat_eq_iff unat_div)
    moreover have "hint_ok d (set_hint d (of_nat (c div 128)) s1)"
      using set_hint_fields [OF s1(3)] nx f u le c by (auto simp: hint_ok_def intro: div_le_mono)
    ultimately show ?thesis using s1 Some set_hint_fields [OF s1(3)] u in_c le by simp
  qed
qed

theorem find_free_cluster_correct_witness:
  "fst (fat32_find_free_cluster 0 fat_example) = 4"
proof -
  have h: "fat_hint 0 fat_example = 0" by (simp add: fat_hint_def fat_state_example_def)
  have "hint_ok 0 fat_example" by (simp add: hint_ok_def h)
  note c = find_free_cluster_correct [OF fat_example_vol this]
  obtain c s' where r: "fat32_find_free_cluster 0 fat_example = (c, s')" by (cases "fat32_find_free_cluster 0 fat_example")
  have i: "in_fat 0 fat_example 4" by (simp add: in_fat_def)
  then have z: "fat_next 0 fat_example 4 = 0" by (simp add: fat_example_next)
  with c r i have "c \<noteq> 0" by auto
  with c r i z have u: "in_fat 0 fat_example (unat c)" "fat_next 0 fat_example (unat c) = 0" "unat c \<le> 4" by auto
  then have "unat c \<noteq> 2" "unat c \<noteq> 3" using fat_example_next [of "unat c"] by auto
  then have "unat c = 4" using u by (auto simp: in_fat_def)
  then have "c = 4" by (simp add: word_unat_eq_iff)
  then show ?thesis using r by simp
qed

text \<open>
  C26. Deleting always comes to an end: on a volume whose links stay inside the table, the loop of
  \<^verbatim>\<open>fat32_delete_file\<close> that frees a chain returns even when the chain is cyclic. It frees exactly
  the clusters of the chain, changes no sector outside the tables, and lowers the search hint so
  that it stays sound.
\<close>

theorem free_chain_terminates:
  fixes s :: "'z fat_scheme"
  assumes "fat_vol d s" and "links_ok d s" and "hint_ok d s" and "2 \<le> c \<and> c < 0x0FFFFFF8 \<longrightarrow> in_fat d s (unat c)"
  shows "\<exists>s'. free_chain d c s = Some s' \<and> fat_vol d s' \<and> hint_ok d s' \<and>
    (\<forall>x. in_fat d s (unat x) \<longrightarrow> fat_next d s' (unat x) = (if x \<in> fat_chain d s c then 0 else fat_next d s (unat x))) \<and>
    (\<forall>k < sectors s. \<not> fat_sectors d s k \<longrightarrow> sector s' k = sector s k)"
proof -
  obtain s' where s': "free_chain d c s = Some s'" "fat_vol d s'" "same_geometry d s s'"
    "\<forall>x. in_fat d s (unat x) \<longrightarrow> fat_next d s' (unat x) = (if x \<in> fat_chain d s c then 0 else fat_next d s (unat x))"
    "\<forall>k < sectors s. \<not> fat_sectors d s k \<longrightarrow> sector s' k = sector s k"
    "fat_hint d s' \<le> fat_hint d s" "\<forall>x\<in>fat_chain d s c. fat_hint d s' \<le> (x * 4) div 512"
    using free_chain_spec [OF assms(1,2,4)] by blast
  note g = same_geometry_fields [OF s'(3)]
  have hint: "unat (fat_hint d s') \<le> x div 128" if x: "in_fat d s x" "fat_next d s' x = 0" for x
  proof -
    have "x < 4294967296" using x(1) assms(1) by (auto simp: in_fat_def fat_vol_def)
    then have u: "unat (of_nat x :: u32) = x" by (rule unat_of_nat32)
    show ?thesis
    proof (cases "of_nat x \<in> fat_chain d s c")
      case True
      then have "fat_hint d s' \<le> (of_nat x * 4) div 512" using s'(7) by blast
      then show ?thesis using in_fat_facts(5) [OF assms(1), of "of_nat x"] x(1) u by (simp add: word_le_nat_alt)
    next
      case False
      then have "fat_next d s x = 0" using s'(4) x u by (metis (mono_tags, lifting))
      then have "unat (fat_hint d s) \<le> x div 128" using assms(3) x(1) by (simp add: hint_ok_def)
      then show ?thesis using s'(6) by (simp add: word_le_nat_alt)
    qed
  qed
  have "unat (fat_hint d s') \<le> fat_len d s" using s'(6) assms(3) by (simp add: word_le_nat_alt hint_ok_def)
  then have "hint_ok d s'" using hint g by (simp add: hint_ok_def)
  then show ?thesis using s' by blast
qed

theorem free_chain_terminates_witness:
  "\<exists>s'. free_chain 0 2 fat_example = Some s' \<and> fat_next 0 s' 2 = 0 \<and> fat_next 0 s' 3 = 0"
proof -
  have i: "in_fat 0 fat_example (unat (2 :: u32))" "in_fat 0 fat_example (unat (3 :: u32))" by (simp_all add: in_fat_def)
  have h: "hint_ok 0 fat_example" by (simp add: hint_ok_def fat_hint_def fat_state_example_def)
  obtain s' where s': "free_chain 0 2 fat_example = Some s'"
    "\<forall>x. in_fat 0 fat_example (unat x) \<longrightarrow> fat_next 0 s' (unat x) =
      (if x \<in> fat_chain 0 fat_example 2 then 0 else fat_next 0 fat_example (unat x))"
    using free_chain_terminates [OF fat_example_vol fat_example_links h, of 2] i by blast
  have "fat_next 0 fat_example (unat (2 :: u32)) = 3" using fat_example_next [OF i(1)] by simp
  then have "(2 :: u32, 3) \<in> {(x, fat_next 0 fat_example (unat x)) | x. in_fat 0 fat_example (unat x)}" using i(1) by auto
  then have "3 \<in> fat_chain 0 fat_example 2" "2 \<in> fat_chain 0 fat_example 2"
    using i by (auto simp: chain_set_def)
  then have "fat_next 0 s' (unat (2 :: u32)) = 0" "fat_next 0 s' (unat (3 :: u32)) = 0"
    using s'(2) [rule_format, OF i(1)] s'(2) [rule_format, OF i(2)] by simp_all
  then show ?thesis using s'(1) by simp
qed

text \<open>
  A file name survives the directory: the entry \<^verbatim>\<open>set_dos_name\<close> writes is found again by
  \<^verbatim>\<open>match_dos_name\<close> exactly when the 8.3 name is plain ASCII. A name with a byte of \<open>0x80\<close> or more is
  stored but never matched, because the byte is compared with a signed character.
\<close>

theorem dos_name_round_trip:
  "match_dos_name (set_dos_name m e (to_dos_file_name f)) e (to_dos_file_name f) \<longleftrightarrow>
   (\<forall>c\<in>set (to_dos_file_name f). uchar c < 128)"
proof -
  let ?n = "to_dos_file_name f" and ?m = "set_dos_name m e (to_dos_file_name f)"
  have r: "read_bytes ?m e 11 = map char_byte ?n"
    using read_write_bytes [of "map char_byte ?n" m e] by (simp add: set_dos_name_def)
  have "de_name ?m e = map char_byte (take 8 ?n)"
    using read_bytes_slice [of 0 8 11 ?m e] r by (simp add: de_name_def take_map)
  moreover have "de_ext ?m e = map char_byte (drop 8 ?n)"
    using read_bytes_slice [of 8 3 11 ?m e] r by (simp add: de_ext_def drop_map)
  moreover have "set ?n = set (take 8 ?n) \<union> set (drop 8 ?n)" by (metis append_take_drop_id set_append)
  ultimately show ?thesis by (auto simp: match_dos_name_def bytes_match_self)
qed

theorem dos_name_round_trip_witness:
  "match_dos_name (set_dos_name (\<lambda>_. 0) 0x1000 (to_dos_file_name ''boot.cfg'')) 0x1000 (to_dos_file_name ''boot.cfg'')"
  unfolding dos_name_round_trip
  by code_simp

text \<open>
  Long names never leave their 256-byte buffer: whatever bytes a directory entry holds,
  \<^verbatim>\<open>extract_lfn_chars\<close> keeps the buffer's size and its last byte, so a buffer that starts cleared
  stays terminated and the collected name has at most 255 characters.
\<close>

theorem extract_lfn_bounded:
  assumes "length lfn_buf = 256" and "lfn_buf ! 255 = 0"
  shows "length (extract_lfn_chars m e lfn_buf) = 256 \<and> extract_lfn_chars m e lfn_buf ! 255 = 0 \<and>
    length (lfn_str (extract_lfn_chars m e lfn_buf)) \<le> 255"
  using assms extract_above [of 255 m e lfn_buf] lfn_str_le [of "extract_lfn_chars m e lfn_buf"] by simp

theorem extract_lfn_bounded_witness:
  "length (lfn_str (extract_lfn_chars (\<lambda>_. 0x41) 0x1000 lfn_clear)) \<le> 255"
  using extract_lfn_bounded [of lfn_clear "\<lambda>_. 0x41" "0x1000"] by (simp add: lfn_clear_def)

text \<open>
  Listing a directory overruns the caller's entry when a long name has 64 characters or more:
  \<^verbatim>\<open>fat32_readdir\<close> copies it with \<^verbatim>\<open>strcpy\<close> into \<^verbatim>\<open>vfs_dirent_t.name\<close>, an array of 64.
\<close>

theorem readdir_long_name_overruns:
  assumes "m e \<notin> {0x00, 0xE5, 0x2E}" and "de_attributes m e \<noteq> 0x0F" and "de_attributes m e AND 0x08 = 0"
    and "64 \<le> length (lfn_str lfn_buf)"
  shows "readdir_entries m index (Suc n) e (index, lfn_buf) = Inl (Some None)"
proof -
  have "lfn_str lfn_buf \<noteq> []" using assms(4) by auto
  then show ?thesis using assms by (simp add: strcpy_def strlen_def)
qed

theorem readdir_long_name_overruns_witness:
  "readdir_entries (\<lambda>_. 0x41) 0 16 0x1000 (0, replicate 100 0x41 @ replicate 156 0) = Inl (Some None)"
proof -
  have "length (lfn_str (replicate 100 0x41 @ replicate 156 0)) = 100"
    by (simp add: lfn_str_def takeWhile_append)
  then show ?thesis
    using readdir_long_name_overruns [of "\<lambda>_. 0x41" "0x1000" "replicate 100 0x41 @ replicate 156 0" 0 15]
    by (simp add: de_attributes_def)
qed

end
