(* ===== verification/Font.thy ===== *)
theory Font
  imports Prelude
begin

text \<open>
  The bitmap font of \<^verbatim>\<open>drivers/video/bga/font.c\<close>: the glyphs the table initialises, by code point,
  eight rows of eight pixels each with the leftmost pixel in bit 0. All other entries of the
  array are zero.
\<close>

definition font_ascii :: "(nat \<times> u8 list) list" where
  "font_ascii = [
    (0x0, [0x00, 0x00, 0x00, 0x00, 0x00, 0x00, 0x00, 0x00]),
    (0x1, [0xFF, 0xFF, 0xFF, 0xFF, 0xFF, 0xFF, 0xFF, 0xFF]),
    (0x2, [0x00, 0x00, 0x00, 0x00, 0x00, 0x00, 0x00, 0x00]),
    (0x3, [0x00, 0x00, 0x00, 0x00, 0x00, 0x00, 0x00, 0x00]),
    (0x4, [0x00, 0x00, 0x00, 0x00, 0x00, 0x00, 0x00, 0x00]),
    (0x5, [0x00, 0x00, 0x00, 0x00, 0x00, 0x00, 0x00, 0x00]),
    (0x6, [0x00, 0x00, 0x00, 0x00, 0x00, 0x00, 0x00, 0x00]),
    (0x7, [0x00, 0x00, 0x00, 0x00, 0x00, 0x00, 0x00, 0x00]),
    (0x8, [0x00, 0x00, 0x00, 0x00, 0x00, 0x00, 0x00, 0x00]),
    (0x9, [0x00, 0x00, 0x00, 0x00, 0x00, 0x00, 0x00, 0x00]),
    (0xA, [0x00, 0x00, 0x00, 0x00, 0x00, 0x00, 0x00, 0x00]),
    (0xB, [0x00, 0x00, 0x00, 0x00, 0x00, 0x00, 0x00, 0x00]),
    (0xC, [0x00, 0x00, 0x00, 0x00, 0x00, 0x00, 0x00, 0x00]),
    (0xD, [0x00, 0x00, 0x00, 0x00, 0x00, 0x00, 0x00, 0x00]),
    (0xE, [0x00, 0x00, 0x00, 0x00, 0x00, 0x00, 0x00, 0x00]),
    (0xF, [0x00, 0x00, 0x00, 0x00, 0x00, 0x00, 0x00, 0x00]),
    (0x10, [0x00, 0x00, 0x00, 0x00, 0x00, 0x00, 0x00, 0x00]),
    (0x11, [0x00, 0x00, 0x00, 0x00, 0x00, 0x00, 0x00, 0x00]),
    (0x12, [0x00, 0x00, 0x00, 0x00, 0x00, 0x00, 0x00, 0x00]),
    (0x13, [0x00, 0x00, 0x00, 0x00, 0x00, 0x00, 0x00, 0x00]),
    (0x14, [0x00, 0x00, 0x00, 0x00, 0x00, 0x00, 0x00, 0x00]),
    (0x15, [0x00, 0x00, 0x00, 0x00, 0x00, 0x00, 0x00, 0x00]),
    (0x16, [0x00, 0x00, 0x00, 0x00, 0x00, 0x00, 0x00, 0x00]),
    (0x17, [0x00, 0x00, 0x00, 0x00, 0x00, 0x00, 0x00, 0x00]),
    (0x18, [0x00, 0x00, 0x00, 0x00, 0x00, 0x00, 0x00, 0x00]),
    (0x19, [0x00, 0x00, 0x00, 0x00, 0x00, 0x00, 0x00, 0x00]),
    (0x1A, [0x00, 0x00, 0x00, 0x00, 0x00, 0x00, 0x00, 0x00]),
    (0x1B, [0x00, 0x00, 0x00, 0x00, 0x00, 0x00, 0x00, 0x00]),
    (0x1C, [0x00, 0x00, 0x00, 0x00, 0x00, 0x00, 0x00, 0x00]),
    (0x1D, [0x00, 0x00, 0x00, 0x00, 0x00, 0x00, 0x00, 0x00]),
    (0x1E, [0x00, 0x00, 0x00, 0x00, 0x00, 0x00, 0x00, 0x00]),
    (0x1F, [0xFF, 0xFF, 0xFF, 0xFF, 0xFF, 0xFF, 0xFF, 0xFF]),
    (0x20, [0x00, 0x00, 0x00, 0x00, 0x00, 0x00, 0x00, 0x00]),
    (0x21, [0x18, 0x3C, 0x3C, 0x18, 0x18, 0x00, 0x18, 0x00]),
    (0x22, [0x36, 0x36, 0x00, 0x00, 0x00, 0x00, 0x00, 0x00]),
    (0x23, [0x36, 0x36, 0x7F, 0x36, 0x7F, 0x36, 0x36, 0x00]),
    (0x24, [0x0C, 0x3E, 0x03, 0x1E, 0x30, 0x1F, 0x0C, 0x00]),
    (0x25, [0x00, 0x63, 0x33, 0x18, 0x0C, 0x66, 0x63, 0x00]),
    (0x26, [0x1C, 0x36, 0x1C, 0x6E, 0x3B, 0x33, 0x6E, 0x00]),
    (0x27, [0x06, 0x06, 0x03, 0x00, 0x00, 0x00, 0x00, 0x00]),
    (0x28, [0x18, 0x0C, 0x06, 0x06, 0x06, 0x0C, 0x18, 0x00]),
    (0x29, [0x06, 0x0C, 0x18, 0x18, 0x18, 0x0C, 0x06, 0x00]),
    (0x2A, [0x00, 0x66, 0x3C, 0xFF, 0x3C, 0x66, 0x00, 0x00]),
    (0x2B, [0x00, 0x0C, 0x0C, 0x3F, 0x0C, 0x0C, 0x00, 0x00]),
    (0x2C, [0x00, 0x00, 0x00, 0x00, 0x00, 0x0C, 0x0C, 0x06]),
    (0x2D, [0x00, 0x00, 0x00, 0x3F, 0x00, 0x00, 0x00, 0x00]),
    (0x2E, [0x00, 0x00, 0x00, 0x00, 0x00, 0x0C, 0x0C, 0x00]),
    (0x2F, [0x60, 0x30, 0x18, 0x0C, 0x06, 0x03, 0x01, 0x00]),
    (0x30, [0x3E, 0x63, 0x73, 0x7B, 0x6F, 0x67, 0x3E, 0x00]),
    (0x31, [0x0C, 0x0E, 0x0C, 0x0C, 0x0C, 0x0C, 0x3F, 0x00]),
    (0x32, [0x1E, 0x33, 0x30, 0x1C, 0x06, 0x33, 0x3F, 0x00]),
    (0x33, [0x1E, 0x33, 0x30, 0x1C, 0x30, 0x33, 0x1E, 0x00]),
    (0x34, [0x38, 0x3C, 0x36, 0x33, 0x7F, 0x30, 0x78, 0x00]),
    (0x35, [0x3F, 0x03, 0x1F, 0x30, 0x30, 0x33, 0x1E, 0x00]),
    (0x36, [0x1C, 0x06, 0x03, 0x1F, 0x33, 0x33, 0x1E, 0x00]),
    (0x37, [0x3F, 0x33, 0x30, 0x18, 0x0C, 0x0C, 0x0C, 0x00]),
    (0x38, [0x1E, 0x33, 0x33, 0x1E, 0x33, 0x33, 0x1E, 0x00]),
    (0x39, [0x1E, 0x33, 0x33, 0x3E, 0x30, 0x18, 0x0E, 0x00]),
    (0x3A, [0x00, 0x0C, 0x0C, 0x00, 0x00, 0x0C, 0x0C, 0x00]),
    (0x3B, [0x00, 0x0C, 0x0C, 0x00, 0x00, 0x0C, 0x0C, 0x06]),
    (0x3C, [0x18, 0x0C, 0x06, 0x03, 0x06, 0x0C, 0x18, 0x00]),
    (0x3D, [0x00, 0x00, 0x3F, 0x00, 0x00, 0x3F, 0x00, 0x00]),
    (0x3E, [0x06, 0x0C, 0x18, 0x30, 0x18, 0x0C, 0x06, 0x00]),
    (0x3F, [0x1E, 0x33, 0x30, 0x18, 0x0C, 0x00, 0x0C, 0x00]),
    (0x40, [0x3E, 0x63, 0x7B, 0x7B, 0x7B, 0x03, 0x1E, 0x00]),
    (0x41, [0x0C, 0x1E, 0x33, 0x33, 0x3F, 0x33, 0x33, 0x00]),
    (0x42, [0x3F, 0x66, 0x66, 0x3E, 0x66, 0x66, 0x3F, 0x00]),
    (0x43, [0x3C, 0x66, 0x03, 0x03, 0x03, 0x66, 0x3C, 0x00]),
    (0x44, [0x1F, 0x36, 0x66, 0x66, 0x66, 0x36, 0x1F, 0x00]),
    (0x45, [0x7F, 0x46, 0x16, 0x1E, 0x16, 0x46, 0x7F, 0x00]),
    (0x46, [0x7F, 0x46, 0x16, 0x1E, 0x16, 0x06, 0x0F, 0x00]),
    (0x47, [0x3C, 0x66, 0x03, 0x03, 0x73, 0x66, 0x7C, 0x00]),
    (0x48, [0x33, 0x33, 0x33, 0x3F, 0x33, 0x33, 0x33, 0x00]),
    (0x49, [0x1E, 0x0C, 0x0C, 0x0C, 0x0C, 0x0C, 0x1E, 0x00]),
    (0x4A, [0x78, 0x30, 0x30, 0x30, 0x33, 0x33, 0x1E, 0x00]),
    (0x4B, [0x67, 0x66, 0x36, 0x1E, 0x36, 0x66, 0x67, 0x00]),
    (0x4C, [0x0F, 0x06, 0x06, 0x06, 0x46, 0x66, 0x7F, 0x00]),
    (0x4D, [0x63, 0x77, 0x7F, 0x7F, 0x6B, 0x63, 0x63, 0x00]),
    (0x4E, [0x63, 0x67, 0x6F, 0x7B, 0x73, 0x63, 0x63, 0x00]),
    (0x4F, [0x1C, 0x36, 0x63, 0x63, 0x63, 0x36, 0x1C, 0x00]),
    (0x50, [0x3F, 0x66, 0x66, 0x3E, 0x06, 0x06, 0x0F, 0x00]),
    (0x51, [0x1E, 0x33, 0x33, 0x33, 0x3B, 0x1E, 0x38, 0x00]),
    (0x52, [0x3F, 0x66, 0x66, 0x3E, 0x36, 0x66, 0x67, 0x00]),
    (0x53, [0x1E, 0x33, 0x07, 0x0E, 0x38, 0x33, 0x1E, 0x00]),
    (0x54, [0x3F, 0x2D, 0x0C, 0x0C, 0x0C, 0x0C, 0x1E, 0x00]),
    (0x55, [0x33, 0x33, 0x33, 0x33, 0x33, 0x33, 0x3F, 0x00]),
    (0x56, [0x33, 0x33, 0x33, 0x33, 0x33, 0x1E, 0x0C, 0x00]),
    (0x57, [0x63, 0x63, 0x63, 0x6B, 0x7F, 0x77, 0x63, 0x00]),
    (0x58, [0x63, 0x63, 0x36, 0x1C, 0x1C, 0x36, 0x63, 0x00]),
    (0x59, [0x33, 0x33, 0x33, 0x1E, 0x0C, 0x0C, 0x1E, 0x00]),
    (0x5A, [0x7F, 0x63, 0x31, 0x18, 0x4C, 0x66, 0x7F, 0x00]),
    (0x5B, [0x1E, 0x06, 0x06, 0x06, 0x06, 0x06, 0x1E, 0x00]),
    (0x5C, [0x03, 0x06, 0x0C, 0x18, 0x30, 0x60, 0x40, 0x00]),
    (0x5D, [0x1E, 0x18, 0x18, 0x18, 0x18, 0x18, 0x1E, 0x00]),
    (0x5E, [0x08, 0x1C, 0x36, 0x63, 0x00, 0x00, 0x00, 0x00]),
    (0x5F, [0x00, 0x00, 0x00, 0x00, 0x00, 0x00, 0x00, 0xFF]),
    (0x60, [0x0C, 0x0C, 0x18, 0x00, 0x00, 0x00, 0x00, 0x00]),
    (0x61, [0x00, 0x00, 0x1E, 0x30, 0x3E, 0x33, 0x6E, 0x00]),
    (0x62, [0x07, 0x06, 0x06, 0x3E, 0x66, 0x66, 0x3B, 0x00]),
    (0x63, [0x00, 0x00, 0x1E, 0x33, 0x03, 0x33, 0x1E, 0x00]),
    (0x64, [0x38, 0x30, 0x30, 0x3e, 0x33, 0x33, 0x6E, 0x00]),
    (0x65, [0x00, 0x00, 0x1E, 0x33, 0x3f, 0x03, 0x1E, 0x00]),
    (0x66, [0x1C, 0x36, 0x06, 0x0f, 0x06, 0x06, 0x0F, 0x00]),
    (0x67, [0x00, 0x00, 0x6E, 0x33, 0x33, 0x3E, 0x30, 0x1F]),
    (0x68, [0x07, 0x06, 0x36, 0x6E, 0x66, 0x66, 0x67, 0x00]),
    (0x69, [0x0C, 0x00, 0x0E, 0x0C, 0x0C, 0x0C, 0x1E, 0x00]),
    (0x6A, [0x30, 0x00, 0x30, 0x30, 0x30, 0x33, 0x33, 0x1E]),
    (0x6B, [0x07, 0x06, 0x66, 0x36, 0x1E, 0x36, 0x67, 0x00]),
    (0x6C, [0x0E, 0x0C, 0x0C, 0x0C, 0x0C, 0x0C, 0x1E, 0x00]),
    (0x6D, [0x00, 0x00, 0x33, 0x7F, 0x7F, 0x6B, 0x63, 0x00]),
    (0x6E, [0x00, 0x00, 0x1F, 0x33, 0x33, 0x33, 0x33, 0x00]),
    (0x6F, [0x00, 0x00, 0x1E, 0x33, 0x33, 0x33, 0x1E, 0x00]),
    (0x70, [0x00, 0x00, 0x3B, 0x66, 0x66, 0x3E, 0x06, 0x0F]),
    (0x71, [0x00, 0x00, 0x6E, 0x33, 0x33, 0x3E, 0x30, 0x78]),
    (0x72, [0x00, 0x00, 0x3B, 0x6E, 0x66, 0x06, 0x0F, 0x00]),
    (0x73, [0x00, 0x00, 0x3E, 0x03, 0x1E, 0x30, 0x1F, 0x00]),
    (0x74, [0x08, 0x0C, 0x3E, 0x0C, 0x0C, 0x2C, 0x18, 0x00]),
    (0x75, [0x00, 0x00, 0x33, 0x33, 0x33, 0x33, 0x6E, 0x00]),
    (0x76, [0x00, 0x00, 0x33, 0x33, 0x33, 0x1E, 0x0C, 0x00]),
    (0x77, [0x00, 0x00, 0x63, 0x6B, 0x7F, 0x7F, 0x36, 0x00]),
    (0x78, [0x00, 0x00, 0x63, 0x36, 0x1C, 0x36, 0x63, 0x00]),
    (0x79, [0x00, 0x00, 0x33, 0x33, 0x33, 0x3E, 0x30, 0x1F]),
    (0x7A, [0x00, 0x00, 0x3F, 0x19, 0x0C, 0x26, 0x3F, 0x00]),
    (0x7B, [0x38, 0x0C, 0x0C, 0x07, 0x0C, 0x0C, 0x38, 0x00]),
    (0x7C, [0x18, 0x18, 0x18, 0x00, 0x18, 0x18, 0x18, 0x00]),
    (0x7D, [0x07, 0x0C, 0x0C, 0x38, 0x0C, 0x0C, 0x07, 0x00]),
    (0x7E, [0x6E, 0x3B, 0x00, 0x00, 0x00, 0x00, 0x00, 0x00]),
    (0x7F, [0x00, 0x00, 0x00, 0x00, 0x00, 0x00, 0x00, 0x00])]"

definition font_rest :: "(nat \<times> u8 list) list" where
  "font_rest = [
    (0x410, [0x0C, 0x1E, 0x33, 0x33, 0x3F, 0x33, 0x33, 0x00]),
    (0x411, [0x3E, 0x02, 0x02, 0x1E, 0x22, 0x22, 0x1E, 0x00]),
    (0x412, [0x1E, 0x22, 0x22, 0x1E, 0x22, 0x22, 0x1E, 0x00]),
    (0x413, [0x3E, 0x02, 0x02, 0x02, 0x02, 0x02, 0x02, 0x00]),
    (0x414, [0x18, 0x24, 0x24, 0x24, 0x7E, 0x81, 0x81, 0x00]),
    (0x415, [0x3E, 0x02, 0x02, 0x1E, 0x02, 0x02, 0x3E, 0x00]),
    (0x416, [0x49, 0x49, 0x2A, 0x1C, 0x2A, 0x49, 0x49, 0x00]),
    (0x417, [0x1E, 0x22, 0x20, 0x18, 0x20, 0x22, 0x1E, 0x00]),
    (0x418, [0x41, 0x61, 0x51, 0x49, 0x45, 0x43, 0x41, 0x00]),
    (0x419, [0x1C, 0x41, 0x51, 0x49, 0x45, 0x43, 0x41, 0x00]),
    (0x41A, [0x21, 0x11, 0x09, 0x03, 0x09, 0x11, 0x21, 0x00]),
    (0x41B, [0x18, 0x24, 0x24, 0x24, 0x24, 0x22, 0x21, 0x00]),
    (0x41C, [0x41, 0x63, 0x55, 0x49, 0x41, 0x41, 0x41, 0x00]),
    (0x41D, [0x41, 0x41, 0x41, 0x7F, 0x41, 0x41, 0x41, 0x00]),
    (0x41E, [0x1C, 0x22, 0x41, 0x41, 0x41, 0x22, 0x1C, 0x00]),
    (0x41F, [0x7F, 0x41, 0x41, 0x41, 0x41, 0x41, 0x41, 0x00]),
    (0x420, [0x3F, 0x41, 0x41, 0x3F, 0x01, 0x01, 0x01, 0x00]),
    (0x421, [0x3C, 0x42, 0x01, 0x01, 0x01, 0x42, 0x3C, 0x00]),
    (0x422, [0x7F, 0x08, 0x08, 0x08, 0x08, 0x08, 0x08, 0x00]),
    (0x423, [0x41, 0x41, 0x22, 0x14, 0x08, 0x04, 0x03, 0x00]),
    (0x424, [0x18, 0x7E, 0x99, 0x99, 0x7E, 0x18, 0x18, 0x00]),
    (0x425, [0x41, 0x22, 0x14, 0x08, 0x14, 0x22, 0x41, 0x00]),
    (0x426, [0x41, 0x41, 0x41, 0x41, 0x41, 0x7F, 0xC0, 0x40]),
    (0x427, [0x41, 0x41, 0x41, 0x7E, 0x40, 0x40, 0x40, 0x00]),
    (0x428, [0x49, 0x49, 0x49, 0x49, 0x49, 0x49, 0x7F, 0x00]),
    (0x429, [0x49, 0x49, 0x49, 0x49, 0x49, 0x7F, 0xC0, 0x40]),
    (0x42A, [0x03, 0x02, 0x02, 0x1E, 0x22, 0x22, 0x1E, 0x00]),
    (0x42B, [0x01, 0x01, 0x01, 0x4F, 0x51, 0x51, 0x4F, 0x00]),
    (0x42C, [0x01, 0x01, 0x01, 0x0F, 0x11, 0x11, 0x0F, 0x00]),
    (0x42D, [0x3C, 0x42, 0x40, 0x7C, 0x40, 0x42, 0x3C, 0x00]),
    (0x42E, [0x71, 0x89, 0x89, 0x8F, 0x89, 0x89, 0x71, 0x00]),
    (0x42F, [0x3E, 0x41, 0x41, 0x7E, 0x48, 0x44, 0x42, 0x00]),
    (0x430, [0x00, 0x00, 0x1E, 0x21, 0x3E, 0x21, 0x5E, 0x00]),
    (0x431, [0x00, 0x1C, 0x02, 0x1E, 0x22, 0x22, 0x1E, 0x00]),
    (0x432, [0x00, 0x00, 0x1E, 0x22, 0x1E, 0x22, 0x1E, 0x00]),
    (0x433, [0x00, 0x00, 0x3E, 0x02, 0x02, 0x02, 0x02, 0x00]),
    (0x434, [0x00, 0x00, 0x18, 0x24, 0x24, 0x7E, 0x81, 0x00]),
    (0x435, [0x00, 0x00, 0x1E, 0x21, 0x3F, 0x01, 0x1E, 0x00]),
    (0x436, [0x00, 0x00, 0x49, 0x2A, 0x1C, 0x2A, 0x49, 0x00]),
    (0x437, [0x00, 0x00, 0x1E, 0x20, 0x18, 0x20, 0x1E, 0x00]),
    (0x438, [0x00, 0x00, 0x21, 0x31, 0x29, 0x25, 0x23, 0x00]),
    (0x439, [0x00, 0x0C, 0x21, 0x31, 0x29, 0x25, 0x23, 0x00]),
    (0x43A, [0x00, 0x00, 0x11, 0x09, 0x07, 0x09, 0x11, 0x00]),
    (0x43B, [0x00, 0x00, 0x18, 0x24, 0x24, 0x22, 0x21, 0x00]),
    (0x43C, [0x00, 0x00, 0x41, 0x63, 0x55, 0x49, 0x41, 0x00]),
    (0x43D, [0x00, 0x00, 0x21, 0x21, 0x3F, 0x21, 0x21, 0x00]),
    (0x43E, [0x00, 0x00, 0x1E, 0x21, 0x21, 0x21, 0x1E, 0x00]),
    (0x43F, [0x00, 0x00, 0x3F, 0x21, 0x21, 0x21, 0x21, 0x00]),
    (0x440, [0x00, 0x00, 0x1F, 0x21, 0x21, 0x1F, 0x01, 0x01]),
    (0x441, [0x00, 0x00, 0x1E, 0x01, 0x01, 0x01, 0x1E, 0x00]),
    (0x442, [0x00, 0x00, 0x1F, 0x04, 0x04, 0x04, 0x04, 0x00]),
    (0x443, [0x00, 0x00, 0x21, 0x21, 0x22, 0x14, 0x08, 0x04]),
    (0x444, [0x00, 0x00, 0x08, 0x3E, 0x49, 0x49, 0x3E, 0x08]),
    (0x445, [0x00, 0x00, 0x11, 0x0A, 0x04, 0x0A, 0x11, 0x00]),
    (0x446, [0x00, 0x00, 0x21, 0x21, 0x21, 0x3F, 0xC0, 0x40]),
    (0x447, [0x00, 0x00, 0x11, 0x11, 0x1E, 0x10, 0x10, 0x00]),
    (0x448, [0x00, 0x00, 0x49, 0x49, 0x49, 0x7F, 0x00, 0x00]),
    (0x449, [0x00, 0x00, 0x49, 0x49, 0x49, 0x7F, 0xC0, 0x40]),
    (0x44A, [0x00, 0x00, 0x03, 0x02, 0x1E, 0x22, 0x1E, 0x00]),
    (0x44B, [0x00, 0x00, 0x01, 0x01, 0x4F, 0x51, 0x4F, 0x00]),
    (0x44C, [0x00, 0x00, 0x01, 0x01, 0x0F, 0x11, 0x0F, 0x00]),
    (0x44D, [0x00, 0x00, 0x0E, 0x08, 0x1E, 0x08, 0x0E, 0x00]),
    (0x44E, [0x00, 0x00, 0x31, 0x49, 0x4F, 0x49, 0x31, 0x00]),
    (0x44F, [0x00, 0x00, 0x1E, 0x11, 0x1E, 0x08, 0x11, 0x00]),
    (0x2500, [0x00, 0x00, 0x00, 0x00, 0xFF, 0x00, 0x00, 0x00]),
    (0x250C, [0x00, 0x00, 0x00, 0x00, 0xF8, 0x08, 0x08, 0x08]),
    (0x2514, [0x08, 0x08, 0x08, 0x08, 0xF8, 0x00, 0x00, 0x00])]"

definition font8x8_basic :: "nat \<Rightarrow> u8 list" where
  "font8x8_basic c = (case map_of (font_ascii @ font_rest) c of Some glyph \<Rightarrow> glyph | None \<Rightarrow> replicate 8 0)"

lemma font_rows: "list_all (\<lambda>(c, g). length g = 8) (font_ascii @ font_rest)"
  by (simp add: font_ascii_def font_rest_def)

lemma length_glyph [simp]: "length (font8x8_basic c) = 8"
proof (cases "map_of (font_ascii @ font_rest) c")
  case (Some g)
  then have "(c, g) \<in> set (font_ascii @ font_rest)" by (rule map_of_SomeD)
  then show ?thesis using font_rows Some by (auto simp: list_all_iff font8x8_basic_def)
qed (simp add: font8x8_basic_def map_add_def)

end
