(* ===== verification/Video.thy ===== *)
theory Video
  imports Fat32 "Font"
begin

text \<open>
  The frame buffer (\<^verbatim>\<open>drivers/video/vesa.c\<close>) and the graphics console on top of it
  (\<^verbatim>\<open>drivers/video/bga/gfx_console.c\<close>). Pixels are bytes of memory, drawn into the back buffer and
  copied to video memory. C \<^verbatim>\<open>int\<close> values are integers; the two places where an addition of an
  escape-sequence argument can leave the 32-bit range wrap around.
\<close>

section \<open>State\<close>

record video = fat +
  back_buffer :: u32
  screen_width :: int
  screen_height :: int
  screen_pitch :: int
  screen_bpp :: int
  term_x :: int
  term_y :: int
  term_fg_color :: u32
  term_bg_color :: u32
  term_cols :: int
  term_rows :: int
  gfx_batch_mode :: bool
  gfx_is_dirty :: bool
  gfx_dirty_min_y :: int
  gfx_dirty_max_y :: int
  ansi_state :: nat
  ansi_buf :: string

text \<open>\<open>ansi_buf\<close> holds the \<^verbatim>\<open>ansi_pos\<close> characters collected so far.\<close>

definition vga_to_rgb :: "u32 list" where
  "vga_to_rgb = [0x000000, 0x0000AA, 0x00AA00, 0x00AAAA, 0xAA0000, 0xAA00AA, 0xAA5500, 0xAAAAAA,
     0x555555, 0x5555FF, 0x55FF55, 0x55FFFF, 0xFF5555, 0xFF55FF, 0xFFFF55, 0xFFFFFF]"

definition i32 :: "int \<Rightarrow> int" where
  "i32 n = sint (word_of_int n :: u32)"

section \<open>Pixels\<close>

definition store24 :: "(u32 \<Rightarrow> u8) \<Rightarrow> u32 \<Rightarrow> u32 \<Rightarrow> (u32 \<Rightarrow> u8)" where
  "store24 m a color = m(a := ucast color, a + 1 := ucast (drop_bit 8 color), a + 2 := ucast (drop_bit 16 color))"

definition put_pixel :: "int \<Rightarrow> int \<Rightarrow> u32 \<Rightarrow> int \<Rightarrow> 'z video_scheme \<Rightarrow> 'z video_scheme" where
  "put_pixel x y color tar s =
     (let target = (if tar \<noteq> 0 then back_buffer s else video_memory s);
          target = (if target = 0 then video_memory s else target)
      in if x < 0 \<or> x \<ge> screen_width s \<or> y < 0 \<or> y \<ge> screen_height s then s
         else let a = target + word_of_int (y * screen_pitch s) + word_of_int (x * (screen_bpp s div 8)) in
           if screen_bpp s = 32 then s\<lparr>mem := store32 (mem s) a color\<rparr>
           else if screen_bpp s = 24 then s\<lparr>mem := store24 (mem s) a color\<rparr>
           else s)"

text \<open>\<^verbatim>\<open>for (i = 0; i < n; i++) p[i] = color\<close> on double words.\<close>

definition fill32 :: "(u32 \<Rightarrow> u8) \<Rightarrow> u32 \<Rightarrow> u32 \<Rightarrow> int \<Rightarrow> (u32 \<Rightarrow> u8)" where
  "fill32 m a color n = fast_memset m a color (nat n)"

definition vesa_render_buffer :: "'z video_scheme \<Rightarrow> 'z video_scheme" where
  "vesa_render_buffer s =
     (if video_memory s \<noteq> 0 \<and> back_buffer s \<noteq> 0
      then s\<lparr>mem := fast_memcpy (mem s) (video_memory s) (back_buffer s) (buffer_size_bytes s)\<rparr> else s)"

fun put_pixels :: "(int \<times> int) list \<Rightarrow> u32 \<Rightarrow> 'z video_scheme \<Rightarrow> 'z video_scheme" where
  "put_pixels [] color s = s"
| "put_pixels ((y, x) # ps) color s = put_pixels ps color (put_pixel x y color 1 s)"

definition clear_screen_vesa :: "u32 \<Rightarrow> 'z video_scheme \<Rightarrow> 'z video_scheme" where
  "clear_screen_vesa color s =
     (if back_buffer s = 0 then s
      else vesa_render_buffer
        (if color = 0 \<or> screen_bpp s = 32
         then s\<lparr>mem := fast_memset (mem s) (back_buffer s) color (nat (sint (buffer_size_bytes s) div 4))\<rparr>
         else put_pixels (List.product [0..screen_height s - 1] [0..screen_width s - 1]) color s))"

fun copy_lines :: "nat \<Rightarrow> u32 \<Rightarrow> u32 \<Rightarrow> u32 \<Rightarrow> u32 \<Rightarrow> (u32 \<Rightarrow> u8) \<Rightarrow> (u32 \<Rightarrow> u8)" where
  "copy_lines 0 dst src line_len pitch m = m"
| "copy_lines (Suc h) dst src line_len pitch m =
     copy_lines h (dst + pitch) (src + pitch) line_len pitch (fast_memcpy m dst src line_len)"

definition vesa_render_rect :: "int \<Rightarrow> int \<Rightarrow> int \<Rightarrow> int \<Rightarrow> 'z video_scheme \<Rightarrow> 'z video_scheme" where
  "vesa_render_rect x y w h s =
     (if video_memory s = 0 \<or> back_buffer s = 0 then s
      else let w = (if x < 0 then w + x else w); x = (if x < 0 then 0 else x);
               h = (if y < 0 then h + y else h); y = (if y < 0 then 0 else y);
               w = (if x + w > screen_width s then screen_width s - x else w);
               h = (if y + h > screen_height s then screen_height s - y else h)
        in if w \<le> 0 \<or> h \<le> 0 then s
           else let bpp_bytes = screen_bpp s div 8;
                    off = word_of_int (y * screen_pitch s) + word_of_int (x * bpp_bytes)
             in s\<lparr>mem := copy_lines (nat h) (video_memory s + off) (back_buffer s + off)
                   (word_of_int (w * bpp_bytes)) (word_of_int (screen_pitch s)) (mem s)\<rparr>)"

section \<open>Characters\<close>

definition plot_fg :: "int \<Rightarrow> (u32 \<Rightarrow> u8) \<Rightarrow> u32 \<Rightarrow> u32 \<Rightarrow> (u32 \<Rightarrow> u8)" where
  "plot_fg bpp_bytes m a color =
     (if bpp_bytes = 4 then store32 m a color
      else if bpp_bytes \<ge> 3 then store24 m a color
      else if bpp_bytes = 2 then store16 m a (ucast color)
      else m)"

definition plot_bg :: "int \<Rightarrow> (u32 \<Rightarrow> u8) \<Rightarrow> u32 \<Rightarrow> u32 \<Rightarrow> (u32 \<Rightarrow> u8)" where
  "plot_bg bpp_bytes m a color = (if bpp_bytes = 4 then store32 m a color else store24 m a color)"

text \<open>
  \<open>n\<close> columns from \<open>col\<close> on; \<open>room\<close> is \<^verbatim>\<open>screen_width - x\<close>. A background with a nonzero top byte
  is transparent.
\<close>

fun draw_cols :: "nat \<Rightarrow> nat \<Rightarrow> int \<Rightarrow> int \<Rightarrow> u8 \<Rightarrow> u32 \<Rightarrow> u32 \<Rightarrow> u32 \<Rightarrow> (u32 \<Rightarrow> u8) \<Rightarrow> (u32 \<Rightarrow> u8)" where
  "draw_cols 0 col bpp_bytes room line color bgcolor a m = m"
| "draw_cols (Suc n) col bpp_bytes room line color bgcolor a m =
     (if int col \<ge> room then m
      else draw_cols n (Suc col) bpp_bytes room line color bgcolor (a + word_of_int bpp_bytes)
        (if bit line col then plot_fg bpp_bytes m a color
         else if bgcolor AND 0xFF000000 = 0 then plot_bg bpp_bytes m a bgcolor else m))"

fun draw_rows :: "u8 list \<Rightarrow> int \<Rightarrow> int \<Rightarrow> u32 \<Rightarrow> u32 \<Rightarrow> u32 \<Rightarrow> 'z video_scheme \<Rightarrow> (u32 \<Rightarrow> u8) \<Rightarrow> (u32 \<Rightarrow> u8)" where
  "draw_rows [] x y color bgcolor target s m = m"
| "draw_rows (line # glyph) x y color bgcolor target s m =
     (if y \<ge> screen_height s then m
      else let bpp_bytes = screen_bpp s div 8;
               a = target + word_of_int (y * screen_pitch s) + word_of_int (x * bpp_bytes)
        in draw_rows glyph x (y + 1) color bgcolor target s
             (draw_cols 8 0 bpp_bytes (screen_width s - x) line color bgcolor a m))"

text \<open>A code of \<open>2^31\<close> or more is a negative index into the font table: a fault.\<close>

definition vesa_draw_char :: "int \<Rightarrow> int \<Rightarrow> u32 \<Rightarrow> u32 \<Rightarrow> u32 \<Rightarrow> 'z video_scheme \<Rightarrow> 'z video_scheme option" where
  "vesa_draw_char x y c color bgcolor s =
     (if x < 0 \<or> y < 0 \<or> x \<ge> screen_width s \<or> y \<ge> screen_height s then Some s
      else let idx = sint c; idx = (if idx \<ge> 9728 then uchar (CHR ''?'') else idx) in
        if idx < 0 then None
        else let target = (if back_buffer s \<noteq> 0 then back_buffer s else video_memory s) in
          if target = 0 then Some s
          else Some (s\<lparr>mem := draw_rows (font8x8_basic (nat idx)) x y color bgcolor target s (mem s)\<rparr>))"

section \<open>The console\<close>

definition gfx_start_batch :: "'z video_scheme \<Rightarrow> 'z video_scheme" where
  "gfx_start_batch s = s\<lparr>gfx_batch_mode := True, gfx_is_dirty := False, gfx_dirty_min_y := 99999, gfx_dirty_max_y := -1\<rparr>"

definition gfx_end_batch :: "'z video_scheme \<Rightarrow> 'z video_scheme" where
  "gfx_end_batch s =
     (let s = s\<lparr>gfx_batch_mode := False\<rparr> in
      if back_buffer s = 0 \<or> video_memory s = 0 then s
      else if gfx_is_dirty s then vesa_render_buffer s
      else if gfx_dirty_max_y s \<ge> 0 then
        vesa_render_rect 0 (gfx_dirty_min_y s * 8) (screen_width s) ((gfx_dirty_max_y s - gfx_dirty_min_y s + 1) * 8) s
      else s)"

definition init_gfx_console :: "'z video_scheme \<Rightarrow> 'z video_scheme" where
  "init_gfx_console s = s\<lparr>term_x := 0, term_y := 0, term_cols := screen_width s div 8, term_rows := screen_height s div 8\<rparr>"

definition gfx_refresh :: "'z video_scheme \<Rightarrow> 'z video_scheme" where
  "gfx_refresh s = (if gfx_batch_mode s then s\<lparr>gfx_is_dirty := True\<rparr> else vesa_render_buffer s)"

definition gfx_scroll :: "'z video_scheme \<Rightarrow> 'z video_scheme" where
  "gfx_scroll s =
     (let vram = back_buffer s in
      if vram = 0 then s
      else let row_bytes = screen_pitch s * 8; copy_bytes = screen_pitch s * (screen_height s - 8) in
        if copy_bytes \<le> 0 then s
        else let m = memmove (mem s) vram (vram + word_of_int row_bytes) (nat copy_bytes);
                 m = fill32 m (vram + word_of_int copy_bytes) (term_bg_color s) (row_bytes div 4)
          in gfx_refresh (s\<lparr>mem := m\<rparr>))"

text \<open>The colour codes of an \<^verbatim>\<open>m\<close> sequence, separated by semicolons.\<close>

definition sgr_code :: "int \<Rightarrow> 'z video_scheme \<Rightarrow> 'z video_scheme" where
  "sgr_code code s =
     (if code = 0 then s\<lparr>term_fg_color := 0x00FFFFFF, term_bg_color := 0x00000000\<rparr>
      else if 30 \<le> code \<and> code \<le> 37 then s\<lparr>term_fg_color := vga_to_rgb ! nat (code - 30)\<rparr>
      else if 40 \<le> code \<and> code \<le> 47 then s\<lparr>term_bg_color := vga_to_rgb ! nat (code - 40)\<rparr>
      else if 90 \<le> code \<and> code \<le> 97 then s\<lparr>term_fg_color := vga_to_rgb ! nat (code - 90 + 8)\<rparr>
      else if 100 \<le> code \<and> code \<le> 107 then s\<lparr>term_bg_color := vga_to_rgb ! nat (code - 100 + 8)\<rparr>
      else s)"

function sgr_codes :: "string \<Rightarrow> 'z video_scheme \<Rightarrow> 'z video_scheme" where
  "sgr_codes p s =
     (if p = [] then s
      else sgr_codes (drop (Suc (length (takeWhile (\<lambda>c. c \<noteq> CHR '';'') p))) p) (sgr_code (atoi p 10) s))"
  by pat_completeness auto
termination
  by (relation "measure (\<lambda>(p, _). length p)") auto

declare sgr_codes.simps [simp del]

definition ansi_arg :: "string \<Rightarrow> int" where
  "ansi_arg buf = (let arg = atoi buf 10 in if arg = 0 then 1 else arg)"

text \<open>The final character \<open>c\<close> of a sequence whose parameters are \<open>buf\<close>.\<close>

definition ansi_command :: "u32 \<Rightarrow> 'z video_scheme \<Rightarrow> 'z video_scheme" where
  "ansi_command c s =
     (let pos = length (ansi_buf s); buf = takeWhile (\<lambda>c. c \<noteq> CHR 0x00) (ansi_buf s) in
      if c = of_char (CHR ''J'') then
        (if pos = 0 \<or> strcmp buf ''2'' = 0 then
           gfx_refresh (s\<lparr>mem := fill32 (mem s) (back_buffer s) (term_bg_color s) (sint (buffer_size_bytes s) div 4),
             term_x := 0, term_y := 0\<rparr>)
         else s)
      else if c = of_char (CHR ''H'') \<or> c = of_char (CHR ''f'') then
        let (r, col) = (if pos > 0 then
              (case strchr buf (CHR '';'') of
                 Some semicolon \<Rightarrow> (atoi (takeWhile (\<lambda>c. c \<noteq> CHR '';'') buf) 10, atoi (tl semicolon) 10)
               | None \<Rightarrow> (atoi buf 10, 1))
            else (1, 1));
            r = (if r < 1 then 1 else r); col = (if col < 1 then 1 else col);
            y = (if r - 1 \<ge> term_rows s then term_rows s - 1 else r - 1);
            x = (if col - 1 \<ge> term_cols s then term_cols s - 1 else col - 1)
        in s\<lparr>term_y := y, term_x := x\<rparr>
      else if c = of_char (CHR ''A'') then
        let y = i32 (term_y s - ansi_arg buf) in s\<lparr>term_y := if y < 0 then 0 else y\<rparr>
      else if c = of_char (CHR ''B'') then
        let y = i32 (term_y s + ansi_arg buf) in s\<lparr>term_y := if y \<ge> term_rows s then term_rows s - 1 else y\<rparr>
      else if c = of_char (CHR ''C'') then
        let x = i32 (term_x s + ansi_arg buf) in s\<lparr>term_x := if x \<ge> term_cols s then term_cols s - 1 else x\<rparr>
      else if c = of_char (CHR ''D'') then
        let x = i32 (term_x s - ansi_arg buf) in s\<lparr>term_x := if x < 0 then 0 else x\<rparr>
      else if c = of_char (CHR ''m'') then
        (if pos = 0 then s\<lparr>term_fg_color := 0x00FFFFFF, term_bg_color := 0x00000000\<rparr> else sgr_codes buf s)
      else s)"

definition is_letter :: "u32 \<Rightarrow> bool" where
  "is_letter c \<longleftrightarrow> (of_char (CHR ''a'') \<le> c \<and> c \<le> of_char (CHR ''z'')) \<or> (of_char (CHR ''A'') \<le> c \<and> c \<le> of_char (CHR ''Z''))"

text \<open>A character inside an escape sequence.\<close>

definition ansi_char :: "u32 \<Rightarrow> 'z video_scheme \<Rightarrow> 'z video_scheme" where
  "ansi_char c s =
     (if ansi_state s = 1 then
        (if c = of_char (CHR ''['') then s\<lparr>ansi_state := 2, ansi_buf := []\<rparr> else s\<lparr>ansi_state := 0\<rparr>)
      else if is_letter c then (ansi_command c s)\<lparr>ansi_state := 0\<rparr>
      else if length (ansi_buf s) < 63 then s\<lparr>ansi_buf := ansi_buf s @ [char_of (unat c)]\<rparr>
      else s\<lparr>ansi_state := 0\<rparr>)"

text \<open>The changed text row, or the changed cell at once when there is no batch.\<close>

definition gfx_touch :: "'z video_scheme \<Rightarrow> 'z video_scheme" where
  "gfx_touch s =
     (if gfx_batch_mode s then
        s\<lparr>gfx_dirty_min_y := if term_y s < gfx_dirty_min_y s then term_y s else gfx_dirty_min_y s,
          gfx_dirty_max_y := if term_y s > gfx_dirty_max_y s then term_y s else gfx_dirty_max_y s\<rparr>
      else vesa_render_rect (term_x s * 8) (term_y s * 8) 8 8 s)"

text \<open>The eight by eight pixels of a cell, with no bounds check.\<close>

definition cell_pixels :: "'z video_scheme \<Rightarrow> u32 list" where
  "cell_pixels s = map (\<lambda>(y, x). back_buffer s + word_of_int ((term_y s * 8 + y) * screen_pitch s) + word_of_int ((term_x s * 8 + x) * 4))
     (List.product [0..7] [0..7])"

definition clear_cell :: "'z video_scheme \<Rightarrow> 'z video_scheme" where
  "clear_cell s = s\<lparr>mem := fold (\<lambda>a m. store32 m a (term_bg_color s)) (cell_pixels s) (mem s)\<rparr>"

definition gfx_backspace :: "'z video_scheme \<Rightarrow> 'z video_scheme" where
  "gfx_backspace s =
     (let s = (if term_x s > 0 then s\<lparr>term_x := term_x s - 1\<rparr>
               else if term_y s > 0 then s\<lparr>term_x := term_cols s - 1, term_y := term_y s - 1\<rparr> else s)
      in gfx_touch (clear_cell s))"

definition gfx_wrap :: "'z video_scheme \<Rightarrow> 'z video_scheme" where
  "gfx_wrap s =
     (let s = (if term_x s \<ge> term_cols s then s\<lparr>term_x := 0, term_y := term_y s + 1\<rparr> else s) in
      if term_y s \<ge> term_rows s then (gfx_scroll s)\<lparr>term_y := term_rows s - 1\<rparr> else s)"

definition gfx_putc :: "u32 \<Rightarrow> 'z video_scheme \<Rightarrow> 'z video_scheme option" where
  "gfx_putc c s =
     (if term_cols s = 0 \<or> term_rows s = 0 \<or> back_buffer s = 0 then Some s
      else if ansi_state s = 1 \<or> ansi_state s = 2 then Some (ansi_char c s)
      else if c = 27 then Some (s\<lparr>ansi_state := 1\<rparr>)
      else do {
        s \<leftarrow> (if c = 0x0A then Some (s\<lparr>term_x := 0, term_y := term_y s + 1\<rparr>)
             else if c = 0x0D then Some (s\<lparr>term_x := 0\<rparr>)
             else if c = 0x09 then Some (s\<lparr>term_x := term_x s + 4\<rparr>)
             else if c = 0x08 then Some (gfx_backspace s)
             else if c \<ge> 32 then do {
               s \<leftarrow> vesa_draw_char (term_x s * 8) (term_y s * 8) c (term_fg_color s) (term_bg_color s) s;
               let s = gfx_touch s;
               Some (s\<lparr>term_x := term_x s + 1\<rparr>) }
             else Some s);
        Some (gfx_wrap s) })"

fun gfx_puts :: "u32 list \<Rightarrow> 'z video_scheme \<Rightarrow> 'z video_scheme option" where
  "gfx_puts [] s = Some s"
| "gfx_puts (c # cs) s = do { s \<leftarrow> gfx_putc c s; gfx_puts cs s }"

text \<open>\<^verbatim>\<open>gfx_putc(*str++)\<close> sign-extends the character.\<close>

definition gfx_print :: "string \<Rightarrow> 'z video_scheme \<Rightarrow> 'z video_scheme option" where
  "gfx_print str s = gfx_puts (map (\<lambda>c. word_of_int (schar c)) str) s"

definition gfx_set_color :: "u32 \<Rightarrow> 'z video_scheme \<Rightarrow> 'z video_scheme" where
  "gfx_set_color fg s = s\<lparr>term_fg_color := fg\<rparr>"

definition gfx_set_bg_color :: "u32 \<Rightarrow> 'z video_scheme \<Rightarrow> 'z video_scheme" where
  "gfx_set_bg_color bg s = s\<lparr>term_bg_color := bg\<rparr>"

definition gfx_set_cursor :: "int \<Rightarrow> int \<Rightarrow> 'z video_scheme \<Rightarrow> 'z video_scheme" where
  "gfx_set_cursor x y s =
     (let x = (if x < 0 then 0 else x); x = (if x \<ge> term_cols s then term_cols s - 1 else x);
          y = (if y < 0 then 0 else y); y = (if y \<ge> term_rows s then term_rows s - 1 else y)
      in s\<lparr>term_x := x, term_y := y\<rparr>)"

definition gfx_get_cursor :: "'z video_scheme \<Rightarrow> int \<times> int" where
  "gfx_get_cursor s = (term_x s, term_y s)"

end
