(* ===== verification/Vga.thy ===== *)
theory Vga
  imports Video
begin

text \<open>
  The text console at \<^verbatim>\<open>0xb8000\<close> and the formatted output of \<^verbatim>\<open>drivers/vga/vga.c\<close>, which draws on the
  graphics console, and \<^verbatim>\<open>init_vesa\<close>, which reports through it. The string routines of the same
  file are in the theory of C strings.
\<close>

record vga = video +
  current_loc :: u32
  vga_lines :: u32
  current_color :: u8

definition vidptr :: u32 where
  "vidptr = 0xb8000"

section \<open>The text screen\<close>

definition vga_get_entry :: "int \<Rightarrow> int \<Rightarrow> 'z vga_scheme \<Rightarrow> u16" where
  "vga_get_entry x y s =
     (let index = word_of_int (y * 80 + x) :: u32;
          lo = scast (mem s (vidptr + index * 2)) :: u32; hi = scast (mem s (vidptr + (index * 2 + 1))) :: u32
      in ucast (lo OR push_bit 8 hi))"

definition vga_set_entry :: "int \<Rightarrow> int \<Rightarrow> u16 \<Rightarrow> 'z vga_scheme \<Rightarrow> 'z vga_scheme" where
  "vga_set_entry x y entry s =
     (let index = word_of_int (y * 80 + x) :: u32
      in s\<lparr>mem := (mem s)(vidptr + index * 2 := ucast (entry AND 0xFF),
                          vidptr + (index * 2 + 1) := ucast (drop_bit 8 entry AND 0xFF))\<rparr>)"

definition set_text_color :: "u32 \<Rightarrow> 'z vga_scheme \<Rightarrow> 'z vga_scheme" where
  "set_text_color fg s = s\<lparr>current_color := (current_color s AND 0xF0) OR (ucast fg AND 0x0F)\<rparr>"

definition set_background_color :: "u32 \<Rightarrow> 'z vga_scheme \<Rightarrow> 'z vga_scheme" where
  "set_background_color bg s = gfx_set_bg_color (if bg \<le> 15 then vga_to_rgb ! unat bg else bg) s"

definition set_color :: "u32 \<Rightarrow> u32 \<Rightarrow> 'z vga_scheme \<Rightarrow> 'z vga_scheme" where
  "set_color fg bg s = s\<lparr>current_color := ucast (push_bit 4 (bg AND 0x0F) OR (fg AND 0x0F))\<rparr>"

definition get_current_color :: "'z vga_scheme \<Rightarrow> u8" where
  "get_current_color s = current_color s"

definition set_current_color :: "u32 \<Rightarrow> 'z vga_scheme \<Rightarrow> 'z vga_scheme" where
  "set_current_color color s = s\<lparr>current_color := ucast color\<rparr>"

definition update_cursor :: "'z vga_scheme \<Rightarrow> 'z vga_scheme" where
  "update_cursor s =
     (let s = outb 0x3D4 0x0E s;
          s = outb 0x3D5 (ucast (drop_bit 8 (current_loc s) AND 0xFF)) s;
          s = outb 0x3D4 0x0F s
      in outb 0x3D5 (ucast (current_loc s AND 0xFF)) s)"

definition disable_cursor :: "'z vga_scheme \<Rightarrow> 'z vga_scheme" where
  "disable_cursor s = outb 0x3D5 0x20 (outb 0x3D4 0x0A s)"

definition enable_cursor :: "'z vga_scheme \<Rightarrow> 'z vga_scheme" where
  "enable_cursor s = outb 0x3D5 0x0F (outb 0x3D4 0x0B (outb 0x3D5 0x0E (outb 0x3D4 0x0A s)))"

definition enable_cursor_block :: "'z vga_scheme \<Rightarrow> 'z vga_scheme" where
  "enable_cursor_block s = outb 0x3D5 0x0F (outb 0x3D4 0x0B (outb 0x3D5 0x00 (outb 0x3D4 0x0A s)))"

definition get_cursor_position :: "'z vga_scheme \<Rightarrow> u32 \<times> 'z vga_scheme" where
  "get_cursor_position s =
     (let (hi, s) = inb 0x3D5 (outb 0x3D4 0x0E s);
          (lo, s) = inb 0x3D5 (outb 0x3D4 0x0F s)
      in (push_bit 8 (ucast hi) OR ucast lo, s))"

definition set_cursor_position :: "u32 \<Rightarrow> u32 \<Rightarrow> 'z vga_scheme \<Rightarrow> 'z vga_scheme" where
  "set_cursor_position x y s = gfx_set_cursor (sint x) (sint y) s"

definition get_cursor_xy :: "'z vga_scheme \<Rightarrow> u32 \<times> u32" where
  "get_cursor_xy s = (let (ix, iy) = gfx_get_cursor s in (word_of_int ix, word_of_int iy))"

text \<open>A blank cell of a colour, \<open>n\<close> of them from \<open>p\<close> on.\<close>

fun blank_cells :: "nat \<Rightarrow> u32 \<Rightarrow> u8 \<Rightarrow> (u32 \<Rightarrow> u8) \<Rightarrow> (u32 \<Rightarrow> u8)" where
  "blank_cells 0 p color m = m"
| "blank_cells (Suc n) p color m = blank_cells n (p + 2) color (m(p := 0x20, p + 1 := color))"

definition scroll_screen :: "'z vga_scheme \<Rightarrow> 'z vga_scheme" where
  "scroll_screen s = s\<lparr>mem := blank_cells 80 (vidptr + 3840) (current_color s) (memcpy (mem s) vidptr (vidptr + 160) 3840)\<rparr>"

definition move_cursor_next_line :: "'z vga_scheme \<Rightarrow> 'z vga_scheme" where
  "move_cursor_next_line s =
     (let s = s\<lparr>current_loc := current_loc s + (80 - current_loc s mod 80)\<rparr>;
          s = (if current_loc s \<ge> 2000 then (scroll_screen s)\<lparr>current_loc := 1920\<rparr> else s)
      in update_cursor s)"

definition clear_screen :: "'z vga_scheme \<Rightarrow> 'z vga_scheme" where
  "clear_screen s = gfx_set_cursor 0 0 (clear_screen_vesa 0 s)"

definition clear_screen_colored :: "u8 \<Rightarrow> 'z vga_scheme \<Rightarrow> 'z vga_scheme" where
  "clear_screen_colored color s =
     update_cursor (s\<lparr>mem := blank_cells 2000 vidptr color (mem s), current_loc := 0, vga_lines := 0\<rparr>)"

definition put_cell :: "u8 \<Rightarrow> u8 \<Rightarrow> 'z vga_scheme \<Rightarrow> 'z vga_scheme" where
  "put_cell c color s =
     s\<lparr>mem := (mem s)(vidptr + current_loc s * 2 := c, vidptr + (current_loc s * 2 + 1) := color)\<rparr>"

definition print_char_colored :: "char \<Rightarrow> u8 \<Rightarrow> 'z vga_scheme \<Rightarrow> 'z vga_scheme" where
  "print_char_colored c color s =
     (if c = CHR 0x0A then move_cursor_next_line s
      else if c = CHR 0x09 then
        move_cursor_next_line (move_cursor_next_line (move_cursor_next_line (move_cursor_next_line s)))
      else if c = CHR 0x08 then
        (if current_loc s > 0 then update_cursor (put_cell 0x20 color (s\<lparr>current_loc := current_loc s - 1\<rparr>)) else s)
      else let s = put_cell (byte_of c) color s;
               s = s\<lparr>current_loc := current_loc s + 1\<rparr>;
               s = (if current_loc s \<ge> 2000 then (scroll_screen s)\<lparr>current_loc := 1920\<rparr> else s)
        in update_cursor s)"

definition print_char :: "char \<Rightarrow> 'z vga_scheme \<Rightarrow> 'z vga_scheme" where
  "print_char c s = print_char_colored c (current_color s) s"

fun print_colored :: "string \<Rightarrow> u8 \<Rightarrow> 'z vga_scheme \<Rightarrow> 'z vga_scheme" where
  "print_colored [] color s = s"
| "print_colored (c # str) color s = print_colored str color (print_char_colored c color s)"

definition vga_print :: "string \<Rightarrow> 'z vga_scheme \<Rightarrow> 'z vga_scheme" where
  "vga_print str s = print_colored str (current_color s) s"

definition printn_colored :: "string \<Rightarrow> u8 \<Rightarrow> 'z vga_scheme \<Rightarrow> 'z vga_scheme" where
  "printn_colored c color s = print_colored c color (print_char_colored (CHR 0x0A) color s)"

text \<open>The output loop of \<^verbatim>\<open>printnumber_colored\<close> and \<^verbatim>\<open>printhex_colored\<close>.\<close>

fun put_digits :: "string \<Rightarrow> u8 \<Rightarrow> 'z vga_scheme \<Rightarrow> 'z vga_scheme" where
  "put_digits [] color s = update_cursor s"
| "put_digits (c # cs) color s =
     (let s = put_cell (byte_of c) color s;
          s = s\<lparr>current_loc := current_loc s + 1\<rparr>;
          s = (if current_loc s mod 80 = 0 then
                 let s = s\<lparr>vga_lines := vga_lines s + 1\<rparr>
                 in if current_loc s \<ge> 2000 then (scroll_screen s)\<lparr>current_loc := 1920\<rparr> else s
               else s)
      in put_digits cs color s)"

text \<open>
  The digits of \<^verbatim>\<open>printnumber\<close>. For the most negative number the negation changes nothing, and the
  remainder of a negative number gives a character below \<^verbatim>\<open>'0'\<close>.
\<close>

definition number_digits :: "u32 \<Rightarrow> string" where
  "number_digits num =
     (let neg = sint num < 0; n = (if neg then - num else num);
          digits = (if sint n < 0 then [char_of (nat (48 - (- sint n) mod 10))]
                    else if n = 0 then ''0'' else rev (fmt_digits (unat n) 10))
      in if neg then CHR ''-'' # digits else digits)"

definition printnumber_colored :: "u32 \<Rightarrow> u8 \<Rightarrow> 'z vga_scheme \<Rightarrow> 'z vga_scheme" where
  "printnumber_colored num color s = put_digits (number_digits num) color s"

definition printnumber :: "u32 \<Rightarrow> 'z vga_scheme \<Rightarrow> 'z vga_scheme" where
  "printnumber num s = printnumber_colored num (current_color s) s"

definition printhex_colored :: "u32 \<Rightarrow> u8 \<Rightarrow> 'z vga_scheme \<Rightarrow> 'z vga_scheme" where
  "printhex_colored num color s = put_digits (fmt_u num 16) color (print_colored ''0x'' color s)"

definition printhex :: "u32 \<Rightarrow> 'z vga_scheme \<Rightarrow> 'z vga_scheme" where
  "printhex num s = printhex_colored num (current_color s) s"

section \<open>Formatted output on the graphics console\<close>

definition putchar :: "u32 \<Rightarrow> 'z vga_scheme \<Rightarrow> 'z vga_scheme option" where
  "putchar c s = gfx_putc c s"

definition vga_puts :: "string \<Rightarrow> 'z vga_scheme \<Rightarrow> 'z vga_scheme option" where
  "vga_puts str s = gfx_print str s"

definition print_number_digits :: "u32 \<Rightarrow> nat \<Rightarrow> bool \<Rightarrow> string" where
  "print_number_digits n base is_signed =
     (let is_neg = (is_signed \<and> sint n < 0 \<and> base = 10); n = (if is_neg then - n else n) in
      if n = 0 then ''0''
      else (if is_neg then [CHR ''-''] else []) @ rev (fmt_digits (unat n) base))"

definition print_number :: "u32 \<Rightarrow> nat \<Rightarrow> bool \<Rightarrow> 'z vga_scheme \<Rightarrow> 'z vga_scheme option" where
  "print_number n base is_signed s = vga_puts (print_number_digits n base is_signed) s"

lemma utf8_shorter: "utf8_to_unicode str = Some (c, rest) \<Longrightarrow> str \<noteq> [] \<Longrightarrow> length rest < length str"
  by (auto simp: utf8_to_unicode_def Let_def utf8_len_def Option.bind_eq_Some_conv split: if_splits)

function print_utf8_string :: "string \<Rightarrow> 'z vga_scheme \<Rightarrow> 'z vga_scheme option" where
  "print_utf8_string str s =
     (if str = [] then Some s
      else case utf8_to_unicode str of
        None \<Rightarrow> None
      | Some (code, rest) \<Rightarrow> do { s \<leftarrow> putchar code s; print_utf8_string rest s })"
  by pat_completeness auto
termination
  by (relation "measure (\<lambda>(str, _). length str)") (auto dest: utf8_shorter)

declare print_utf8_string.simps [simp del]

definition set_console_color :: "u32 \<Rightarrow> 'z vga_scheme \<Rightarrow> 'z vga_scheme" where
  "set_console_color color s = gfx_set_color (if color \<le> 15 then vga_to_rgb ! unat color else color) s"

text \<open>One conversion, \<open>k\<close> being the character after the percent sign; the arguments that remain.\<close>

definition vprintf_conv :: "char \<Rightarrow> fmt_arg list \<Rightarrow> 'z vga_scheme \<Rightarrow> (fmt_arg list \<times> 'z vga_scheme) option" where
  "vprintf_conv k args s =
     (if k = CHR ''c'' then
        (case args of ArgWord n # as \<Rightarrow> do { s \<leftarrow> putchar n s; Some (as, s) } | _ \<Rightarrow> None)
      else if k = CHR ''s'' then
        (case args of ArgStr (Some str) # as \<Rightarrow> do { s \<leftarrow> print_utf8_string str s; Some (as, s) } | _ \<Rightarrow> None)
      else if k = CHR ''d'' \<or> k = CHR ''i'' then
        (case args of ArgWord n # as \<Rightarrow> do { s \<leftarrow> print_number n 10 True s; Some (as, s) } | _ \<Rightarrow> None)
      else if k = CHR ''u'' then
        (case args of ArgWord n # as \<Rightarrow> do { s \<leftarrow> print_number n 10 False s; Some (as, s) } | _ \<Rightarrow> None)
      else if k = CHR ''x'' \<or> k = CHR ''X'' then
        (case args of ArgWord n # as \<Rightarrow> do { s \<leftarrow> vga_puts ''0x'' s; s \<leftarrow> print_number n 16 False s; Some (as, s) } | _ \<Rightarrow> None)
      else if k = CHR ''C'' then
        (case args of ArgWord n # as \<Rightarrow> Some (as, set_console_color n s) | _ \<Rightarrow> None)
      else if k = CHR ''%'' then do { s \<leftarrow> putchar (of_char (CHR ''%'')) s; Some (args, s) }
      else do { s \<leftarrow> putchar (of_char (CHR ''%'')) s; s \<leftarrow> putchar (word_of_int (schar k)) s; Some (args, s) })"

text \<open>A percent sign at the end of the format steps over the terminator: a fault.\<close>

function vprintf_loop :: "string \<Rightarrow> fmt_arg list \<Rightarrow> 'z vga_scheme \<Rightarrow> 'z vga_scheme option" where
  "vprintf_loop format args s =
     (if format = [] then Some s
      else if hd format = CHR ''%'' then
        (case tl format of
           [] \<Rightarrow> None
         | k # rest \<Rightarrow> do { (args, s) \<leftarrow> vprintf_conv k args s; vprintf_loop rest args s })
      else case utf8_to_unicode format of
        None \<Rightarrow> None
      | Some (code, rest) \<Rightarrow> do { s \<leftarrow> putchar code s; vprintf_loop rest args s })"
  by pat_completeness auto
termination
  by (relation "measure (\<lambda>(format, _, _). length format)") (auto dest: utf8_shorter simp: length_Suc_conv neq_Nil_conv)

declare vprintf_loop.simps [simp del]

definition vprintf :: "string \<Rightarrow> fmt_arg list \<Rightarrow> 'z vga_scheme \<Rightarrow> 'z vga_scheme option" where
  "vprintf format args s = do {
     s \<leftarrow> vprintf_loop format args (gfx_start_batch s);
     Some (gfx_end_batch (set_console_color 0x00FFFFFF s)) }"

definition printf :: "string \<Rightarrow> fmt_arg list \<Rightarrow> 'z vga_scheme \<Rightarrow> 'z vga_scheme option" where
  "printf format args s = vprintf format args s"

definition printn :: "string \<Rightarrow> 'z vga_scheme \<Rightarrow> 'z vga_scheme option" where
  "printn c s = do { s \<leftarrow> printf [CHR 0x0A] [] s; printf c [] s }"

definition printn_void :: "'z vga_scheme \<Rightarrow> 'z vga_scheme option" where
  "printn_void s = printf [CHR 0x0A] [] s"

fun print_spaces :: "nat \<Rightarrow> 'z vga_scheme \<Rightarrow> 'z vga_scheme option" where
  "print_spaces 0 s = Some s"
| "print_spaces (Suc n) s = do { s \<leftarrow> printf '' '' [] s; print_spaces n s }"

text \<open>C division rounds towards zero, so a title of 81 characters still has padding 0.\<close>

definition print_header :: "u32 \<Rightarrow> u32 \<Rightarrow> string \<Rightarrow> 'z vga_scheme \<Rightarrow> 'z vga_scheme option" where
  "print_header bg fg title s =
     (let len = int (length title); padding = (if len \<le> 80 then (80 - len) div 2 else - ((len - 80) div 2)) in do {
      s \<leftarrow> print_spaces (nat padding) (set_text_color fg (set_background_color bg s));
      s \<leftarrow> printf title [] s;
      s \<leftarrow> print_spaces (nat (padding + 1)) s;
      Some (set_text_color 7 (set_background_color 0 s)) })"

text \<open>\<^verbatim>\<open>parts\<close> is an array of ten pointers that is filled and never read.\<close>

definition print_footer :: "u32 \<Rightarrow> u32 \<Rightarrow> string \<Rightarrow> 'z vga_scheme \<Rightarrow> 'z vga_scheme option" where
  "print_footer bg fg text s =
     (let len = length text; line_breaks = (if len > 80 then (len - 1) div 80 else 0) in
      if (len + 79) div 80 > 10 then None
      else do {
        let s = set_cursor_position 0 (24 - of_nat line_breaks) s;
        s \<leftarrow> printf text [] (set_text_color fg (set_background_color bg s));
        s \<leftarrow> print_spaces 76 s;
        Some (set_text_color 7 (set_background_color 0 s)) })"

definition print_info :: "string \<Rightarrow> string \<Rightarrow> u16 \<Rightarrow> u16 \<Rightarrow> 'z vga_scheme \<Rightarrow> 'z vga_scheme option" where
  "print_info status info color_status color_info s = do {
     s \<leftarrow> printf ''['' [] s;
     s \<leftarrow> printf ''] '' [] (print_colored status (ucast color_status) s);
     Some (print_colored info (ucast color_info) s) }"

section \<open>Initialisation of the frame buffer\<close>

record framebuffer_info =
  fb_flags :: u32
  fb_addr :: u64
  fb_pitch :: u32
  fb_width :: u32
  fb_height :: u32
  fb_bpp :: u8

text \<open>The allocation is not checked; a NULL back buffer is dereferenced.\<close>

definition init_vesa :: "framebuffer_info \<Rightarrow> 'z vga_scheme \<Rightarrow> 'z vga_scheme option" where
  "init_vesa mbi s =
     (if fb_flags mbi AND 0x1000 \<noteq> 0 then do {
        let s = s\<lparr>video_memory := ucast (fb_addr mbi), screen_width := sint (fb_width mbi), screen_height := sint (fb_height mbi),
              screen_pitch := sint (fb_pitch mbi), screen_bpp := uint (fb_bpp mbi),
              buffer_size_bytes := fb_pitch mbi * fb_height mbi\<rparr>;
        (p, s) \<leftarrow> kmalloc (buffer_size_bytes s + 4096) s;
        let s = s\<lparr>back_buffer := p\<rparr>;
        if back_buffer s = NULL then None
        else do {
          let s = s\<lparr>mem := fast_memset (mem s) (back_buffer s) 0 (nat (sint (buffer_size_bytes s) div 4))\<rparr>;
          printf (''VESA Init: %dx%d @ %d bpp (Pitch: %d)'' @ [CHR 0x0A])
            [ArgWord (fb_width mbi), ArgWord (fb_height mbi), ArgWord (ucast (fb_bpp mbi)), ArgWord (fb_pitch mbi)] s } }
      else Some s)"

end
