(* ===== verification/Video_Props.thy ===== *)
theory Video_Props
  imports Vga Fat_Props
begin

text \<open>
  The consoles stay inside their screens: the text console writes only its 4000 bytes, and the
  cursor of the graphics console stays on the screen for every sequence of characters whose
  escape arguments are sensible.
\<close>

section \<open>Memory frames\<close>

lemma unat_pred: "Suc n \<le> unat (k :: u32) \<Longrightarrow> unat (k - 1) = unat k - 1"
  by (simp add: unat_sub word_le_nat_alt)

lemma memcpy_frame: "n \<le> unat (x - d) \<Longrightarrow> memcpy m d src n x = m x"
proof (induction n arbitrary: d src m)
  case (Suc n)
  have "unat (x - (d + 1)) = unat (x - d) - 1" using unat_pred [OF Suc.prems] by (simp add: algebra_simps)
  moreover have "x \<noteq> d" using Suc.prems by auto
  ultimately show ?case using Suc by simp
qed simp

lemma blank_cells_frame: "2 * n \<le> unat (x - p) \<Longrightarrow> blank_cells n p color m x = m x"
proof (induction n arbitrary: p m)
  case (Suc n)
  have u: "unat (x - (p + 2)) = unat (x - p) - 2"
    using Suc.prems unat_sub [of 2 "x - p"] by (simp add: word_le_nat_alt algebra_simps)
  have "x \<noteq> p" "x \<noteq> p + 1" using Suc.prems by auto
  then show ?case using Suc.IH [of "p + 2"] Suc.prems u by simp
qed simp

section \<open>A concrete console\<close>

text \<open>A screen of 640 by 480 pixels at 32 bits, 80 by 60 characters.\<close>

definition video_example :: video where
  "video_example = fat.extend fat_example (video.fields 0x300000 640 480 2560 32 0 0 0xFFFFFF 0 80 60 False False 99999 (-1) 0 [])"

definition vga_example :: vga where
  "vga_example = video.extend video_example (vga.fields 1999 0 0x07)"

section \<open>The text console\<close>

definition text_ok :: "'z vga_scheme \<Rightarrow> bool" where
  "text_ok s \<longleftrightarrow> current_loc s < 2000"

text \<open>Every byte outside the text buffer is unchanged.\<close>

definition text_only :: "'z vga_scheme \<Rightarrow> 'z vga_scheme \<Rightarrow> bool" where
  "text_only s s' \<longleftrightarrow> (\<forall>x. 4000 \<le> unat (x - vidptr) \<longrightarrow> mem s' x = mem s x)"

lemma text_only_trans: "text_only s s' \<Longrightarrow> text_only s' s'' \<Longrightarrow> text_only s s''"
  by (simp add: text_only_def)

lemma text_only_frame [simp]: "text_only s s" "text_only s (s\<lparr>current_loc := l\<rparr>)" "text_only s (s\<lparr>vga_lines := l\<rparr>)" "text_only s (update_cursor s)"
  by (simp_all add: text_only_def update_cursor_def outb_def)

lemma text_ok_update_cursor [simp]: "text_ok (update_cursor s) = text_ok s" "current_loc (update_cursor s) = current_loc s"
  by (simp_all add: text_ok_def update_cursor_def outb_def)

lemma put_cell_text:
  assumes "text_ok s"
  shows "text_only s (put_cell c color s)" and "current_loc (put_cell c color s) = current_loc s"
proof -
  have l: "unat (current_loc s) < 2000" using assms by (simp add: text_ok_def word_less_nat_alt)
  then have "unat (current_loc s * 2) = unat (current_loc s) * 2" by (simp add: unat_word_ariths)
  moreover from this l have "unat (current_loc s * 2 + 1) = unat (current_loc s) * 2 + 1" by (simp add: unat_word_ariths)
  ultimately show "text_only s (put_cell c color s)" using l by (auto simp: text_only_def put_cell_def)
  show "current_loc (put_cell c color s) = current_loc s" by (simp add: put_cell_def)
qed

lemma scroll_text: "text_only s (scroll_screen s)"
  unfolding text_only_def
proof (intro allI impI)
  fix x :: u32 assume x: "4000 \<le> unat (x - vidptr)"
  have "unat (x - (vidptr + 3840)) = unat (x - vidptr) - 3840"
    using x unat_sub_of_nat32 [of 3840 "x - vidptr"] by (simp add: diff_diff_eq)
  then show "mem (scroll_screen s) x = mem s x"
    using x by (simp add: scroll_screen_def blank_cells_frame memcpy_frame)
qed

lemma scroll_loc: "text_only s ((scroll_screen s)\<lparr>current_loc := l\<rparr>)"
  using scroll_text [of s] by (simp add: text_only_def)

lemma next_line_text:
  assumes "text_ok s"
  shows "text_ok (move_cursor_next_line s) \<and> text_only s (move_cursor_next_line s)"
proof -
  let ?s = "s\<lparr>current_loc := current_loc s + (80 - current_loc s mod 80)\<rparr>"
  let ?t = "if current_loc ?s \<ge> 2000 then (scroll_screen ?s)\<lparr>current_loc := 1920\<rparr> else ?s"
  have "text_only s ?t" using scroll_loc [of ?s 1920] by (auto simp: text_only_def)
  moreover have "text_ok ?t" by (auto simp: text_ok_def not_le)
  ultimately show ?thesis by (simp add: move_cursor_next_line_def Let_def text_only_trans)
qed

lemma print_char_text:
  assumes ok: "text_ok s"
  shows "text_ok (print_char_colored c color s) \<and> text_only s (print_char_colored c color s)"
proof -
  consider "c = CHR 0x0A" | "c = CHR 0x09" | "c = CHR 0x08" | "c \<notin> {CHR 0x0A, CHR 0x09, CHR 0x08}" by blast
  then show ?thesis
  proof cases
    case 1
    then show ?thesis using next_line_text [OF ok] by (simp add: print_char_colored_def)
  next
    case 2
    let ?n = "move_cursor_next_line"
    have one: "text_ok (?n s)" "text_only s (?n s)" using next_line_text [OF ok] by simp_all
    have two: "text_ok (?n (?n s))" "text_only s (?n (?n s))" using next_line_text [OF one(1)] one(2) text_only_trans by blast+
    have three: "text_ok (?n (?n (?n s)))" "text_only s (?n (?n (?n s)))" using next_line_text [OF two(1)] two(2) text_only_trans by blast+
    have "text_ok (?n (?n (?n (?n s))))" "text_only s (?n (?n (?n (?n s))))" using next_line_text [OF three(1)] three(2) text_only_trans by blast+
    then show ?thesis using 2 by (simp add: print_char_colored_def)
  next
    case 3
    let ?s = "s\<lparr>current_loc := current_loc s - 1\<rparr>"
    have "text_ok ?s" if "0 < current_loc s" using ok that by (simp add: text_ok_def) (metis word_less_nat_alt less_imp_diff_less unat_pred Suc_leI unat_gt_0 word_neq_0_conv)
    from put_cell_text [OF this] this have "0 < current_loc s \<Longrightarrow> text_only s (put_cell 0x20 color ?s) \<and> text_ok (put_cell 0x20 color ?s)"
      by (auto simp: text_only_def text_ok_def)
    then show ?thesis using 3 ok by (auto simp: print_char_colored_def intro: text_only_trans)
  next
    case 4
    let ?p = "put_cell (byte_of c) color s"
    let ?s = "?p\<lparr>current_loc := current_loc ?p + 1\<rparr>"
    let ?t = "if current_loc ?s \<ge> 2000 then (scroll_screen ?s)\<lparr>current_loc := 1920\<rparr> else ?s"
    have "text_only s ?s" using put_cell_text(1) [OF ok] by (simp add: text_only_def)
    then have "text_only s ?t" using scroll_loc [of ?s 1920] by (auto simp: text_only_def)
    moreover have "text_ok ?t" by (auto simp: text_ok_def not_le)
    ultimately show ?thesis using 4 by (simp add: print_char_colored_def Let_def text_only_trans)
  qed
qed

text \<open>
  C34. Printing on the text console never leaves the screen: whatever string is printed, the
  cursor stays below cell 2000 and no byte of memory outside the 4000 bytes of the text buffer
  changes, scrolling and tabs included.
\<close>

theorem print_colored_inside:
  assumes "text_ok s"
  shows "text_ok (print_colored str color s) \<and>
    (\<forall>x. 4000 \<le> unat (x - vidptr) \<longrightarrow> mem (print_colored str color s) x = mem s x)"
  using assms
proof (induction str arbitrary: s)
  case (Cons c str)
  then show ?case using print_char_text [OF Cons.prems, of c color] Cons.IH by (simp add: text_only_def)
qed simp

theorem print_colored_inside_witness:
  "text_ok (print_colored ''ok'' 7 vga_example) \<and> mem (print_colored ''ok'' 7 vga_example) 0x100000 = mem vga_example 0x100000"
proof -
  have "text_ok vga_example" by (simp add: text_ok_def vga_example_def video.defs vga.defs)
  moreover have "4000 \<le> unat (0x100000 - vidptr)" by (simp add: vidptr_def)
  ultimately show ?thesis using print_colored_inside [of vga_example "''ok''" 7] by blast
qed

section \<open>The graphics console\<close>

text \<open>The cursor is on the screen and the escape buffer in its array.\<close>

definition console_ok :: "'z video_scheme \<Rightarrow> bool" where
  "console_ok s \<longleftrightarrow> 0 \<le> term_x s \<and> term_x s < term_cols s \<and> term_cols s < 2 ^ 30 \<and>
     0 \<le> term_y s \<and> term_y s < term_rows s \<and> term_rows s < 2 ^ 30 \<and> ansi_state s \<le> 2 \<and> length (ansi_buf s) \<le> 63"

text \<open>Drawing changes memory and the marks of the batch only.\<close>

definition same_console :: "'z video_scheme \<Rightarrow> 'z video_scheme \<Rightarrow> bool" where
  "same_console s s' \<longleftrightarrow> term_x s' = term_x s \<and> term_y s' = term_y s \<and> term_cols s' = term_cols s \<and> term_rows s' = term_rows s \<and>
     ansi_state s' = ansi_state s \<and> ansi_buf s' = ansi_buf s"

lemma console_ok_same: "same_console s s' \<Longrightarrow> console_ok s' = console_ok s"
  by (simp add: same_console_def console_ok_def)

lemma same_console_draw [simp]:
  "same_console s (vesa_render_buffer s)" "same_console s (vesa_render_rect x y w h s)" "same_console s (gfx_refresh s)"
  "same_console s (gfx_touch s)" "same_console s (clear_cell s)" "same_console s (gfx_scroll s)" "same_console s (sgr_code code s)"
  by (simp_all add: same_console_def vesa_render_buffer_def vesa_render_rect_def gfx_refresh_def gfx_touch_def clear_cell_def gfx_scroll_def
      sgr_code_def Let_def)

lemma same_console_trans: "same_console s s' \<Longrightarrow> same_console s' s'' \<Longrightarrow> same_console s s''"
  by (simp add: same_console_def)

lemma same_console_sgr: "same_console s (sgr_codes p s)"
proof (induction p s rule: sgr_codes.induct)
  case (1 p s)
  show ?case
  proof (cases "p = []")
    case True
    then show ?thesis by (subst sgr_codes.simps) (simp add: same_console_def)
  next
    case False
    have "same_console (sgr_code (atoi p 10) s) (sgr_codes p s)" using 1 [OF False] False by (subst sgr_codes.simps) simp
    then show ?thesis by (rule same_console_trans [OF same_console_draw(7)])
  qed
qed

lemma vesa_draw_char_Some:
  assumes "0 \<le> sint c"
  obtains s' where "vesa_draw_char x y c fg bg s = Some s'" "same_console s s'"
proof (cases "x < 0 \<or> y < 0 \<or> x \<ge> screen_width s \<or> y \<ge> screen_height s")
  case True
  then show ?thesis using that [of s] by (auto simp: vesa_draw_char_def same_console_def)
next
  case False
  let ?i = "if sint c \<ge> 9728 then uchar (CHR ''?'') else sint c" and ?t = "if back_buffer s \<noteq> 0 then back_buffer s else video_memory s"
  have "\<not> ?i < 0" using assms uchar_bounds [of "CHR ''?''"] by auto
  then have "vesa_draw_char x y c fg bg s = Some (if ?t = 0 then s else
      s\<lparr>mem := draw_rows (font8x8_basic (nat ?i)) x y fg bg ?t s (mem s)\<rparr>)"
    using False by (simp add: vesa_draw_char_def Let_def)
  then show ?thesis using that by (auto simp: same_console_def)
qed

text \<open>Escape arguments that do not move the cursor across the 32-bit range.\<close>

definition sane_arg :: "u32 \<Rightarrow> 'z video_scheme \<Rightarrow> bool" where
  "sane_arg c s \<longleftrightarrow> (ansi_state s = 2 \<and> c \<in> {of_char (CHR ''A''), of_char (CHR ''B''), of_char (CHR ''C''), of_char (CHR ''D'')} \<longrightarrow>
     (let n = atoi (takeWhile (\<lambda>c. c \<noteq> CHR 0x00) (ansi_buf s)) 10 in 0 \<le> n \<and> n < 2 ^ 30))"

lemma i32_id: "- (2 ^ 31) \<le> n \<Longrightarrow> n < 2 ^ 31 \<Longrightarrow> i32 n = n"
  by (simp add: i32_def int_word_sint)

lemma ansi_command_ok:
  assumes ok: "console_ok s" and sane: "sane_arg c s" and st: "ansi_state s = 2"
  shows "console_ok ((ansi_command c s)\<lparr>ansi_state := 0\<rparr>)"
proof -
  define buf where "buf = takeWhile (\<lambda>c. c \<noteq> CHR 0x00) (ansi_buf s)"
  have keep: "console_ok (s'\<lparr>ansi_state := 0\<rparr>)" if "same_console s s'" for s'
    using that ok by (auto simp: same_console_def console_ok_def)
  have arg: "1 \<le> ansi_arg buf \<and> ansi_arg buf < 2 ^ 30"
    if "c \<in> {of_char (CHR ''A''), of_char (CHR ''B''), of_char (CHR ''C''), of_char (CHR ''D'')}"
    using sane st that by (auto simp: sane_arg_def ansi_arg_def buf_def Let_def)
  have b: "0 \<le> term_x s" "term_x s < term_cols s" "term_cols s < 2 ^ 30" "0 \<le> term_y s" "term_y s < term_rows s" "term_rows s < 2 ^ 30"
    "length (ansi_buf s) \<le> 63" using ok by (simp_all add: console_ok_def)
  have home: "console_ok ((s\<lparr>mem := m, term_x := 0, term_y := 0\<rparr>)\<lparr>ansi_state := 0\<rparr>)" for m using b by (simp add: console_ok_def)
  have refresh: "console_ok ((gfx_refresh (s\<lparr>mem := m, term_x := 0, term_y := 0\<rparr>))\<lparr>ansi_state := 0\<rparr>)" for m
    using home [of m] same_console_draw(3) [of "s\<lparr>mem := m, term_x := 0, term_y := 0\<rparr>"] by (simp add: same_console_def console_ok_def)
  have move: "i32 (term_y s - ansi_arg buf) = term_y s - ansi_arg buf" "i32 (term_y s + ansi_arg buf) = term_y s + ansi_arg buf"
    "i32 (term_x s + ansi_arg buf) = term_x s + ansi_arg buf" "i32 (term_x s - ansi_arg buf) = term_x s - ansi_arg buf"
    if "c \<in> {of_char (CHR ''A''), of_char (CHR ''B''), of_char (CHR ''C''), of_char (CHR ''D'')}"
    using arg [OF that] b by (auto intro!: i32_id)
  consider "c = of_char (CHR ''J'')" | "c = of_char (CHR ''H'') \<or> c = of_char (CHR ''f'')"
    | "c \<in> {of_char (CHR ''A''), of_char (CHR ''B''), of_char (CHR ''C''), of_char (CHR ''D'')}" | "c = of_char (CHR ''m'')"
    | "c \<notin> {of_char (CHR ''J''), of_char (CHR ''H''), of_char (CHR ''f''), of_char (CHR ''A''), of_char (CHR ''B''), of_char (CHR ''C''),
        of_char (CHR ''D''), of_char (CHR ''m'')}" by blast
  then show ?thesis
  proof cases
    case 1
    then show ?thesis using refresh keep [of s] by (auto simp: ansi_command_def same_console_def)
  next
    case 2
    then show ?thesis using b by (auto simp: ansi_command_def console_ok_def Let_def split: prod.splits option.splits)
  next
    case 3
    then show ?thesis using b arg [OF 3] move [OF 3] by (auto simp: ansi_command_def console_ok_def Let_def buf_def [symmetric])
  next
    case 4
    then show ?thesis using same_console_sgr keep by (auto simp: ansi_command_def same_console_def)
  next
    case 5
    then show ?thesis using keep [of s] by (auto simp: ansi_command_def same_console_def)
  qed
qed

lemma gfx_wrap_ok:
  assumes "0 \<le> term_x s" "0 \<le> term_y s" "term_y s < term_rows s \<or> term_y s = term_rows s" "0 < term_cols s" "term_cols s < 2 ^ 30" "0 < term_rows s"
    "term_rows s < 2 ^ 30" "ansi_state s \<le> 2" "length (ansi_buf s) \<le> 63"
  shows "console_ok (gfx_wrap s)"
proof -
  let ?s = "if term_x s \<ge> term_cols s then s\<lparr>term_x := 0, term_y := term_y s + 1\<rparr> else s"
  have "same_console ?s (gfx_scroll ?s)" by (rule same_console_draw)
  then show ?thesis using assms by (auto simp: gfx_wrap_def console_ok_def same_console_def Let_def)
qed

lemma sint_small: "unat (n :: u32) < 2147483648 \<Longrightarrow> sint n = int (unat n)"
proof -
  assume "unat n < 2147483648"
  then have "uint n < 2147483648" by (metis of_nat_less_iff of_nat_numeral uint_nat)
  then have "signed_take_bit 31 (uint n) = uint n" by (intro signed_take_bit_int_eq_self) (simp_all add: order.trans [OF _ uint_ge_0])
  then show ?thesis by (simp add: sint_uint)
qed

text \<open>
  A code of \<open>2^31\<close> or more, such as a byte above 127 that was sign-extended, is a negative index into the font
  when it is drawn on the screen.
\<close>

definition no_glyph :: "u32 \<Rightarrow> 'z video_scheme \<Rightarrow> bool" where
  "no_glyph c s \<longleftrightarrow> sint c < 0 \<and> back_buffer s \<noteq> 0 \<and> ansi_state s = 0 \<and> term_x s * 8 < screen_width s \<and> term_y s * 8 < screen_height s"

lemma negative_code:
  assumes "sint (c :: u32) < 0"
  shows "32 \<le> c" and "c \<noteq> 27" and "c \<noteq> 0x0A" and "c \<noteq> 0x0D" and "c \<noteq> 0x09" and "c \<noteq> 0x08"
proof -
  have "\<not> unat c < 2147483648" using assms sint_small [of c] by auto
  then have u: "32 \<le> unat c" by simp
  then show "32 \<le> c" "c \<noteq> 27" "c \<noteq> 0x0A" "c \<noteq> 0x0D" "c \<noteq> 0x09" "c \<noteq> 0x08" by (auto simp: word_le_nat_alt)
qed

text \<open>
  C35. The console state is well formed after every character, with one exception and under one condition. \<^verbatim>\<open>gfx_putc\<close> faults exactly
  when it draws a code of \<open>2^31\<close> or more on the screen; for every other code it returns
  and keeps the cursor on the screen and the escape buffer inside its 64 bytes, through
  line ends, tabs, backspaces, wrapping, scrolling and escape sequences. The condition is that the argument of
  a cursor movement is at least 0 and below \<open>2^30\<close>: with a negative argument the cursor does leave the screen (\<open>ansi_negative_argument\<close> below).
\<close>

theorem gfx_putc_console_ok:
  assumes "console_ok s" and "sane_arg c s"
  shows "if no_glyph c s then gfx_putc c s = None else \<exists>s'. gfx_putc c s = Some s' \<and> console_ok s'"
proof (cases "no_glyph c s")
  case True
  then have n: "sint c < 0" "back_buffer s \<noteq> 0" "ansi_state s = 0" "term_x s * 8 < screen_width s" "term_y s * 8 < screen_height s"
    by (simp_all add: no_glyph_def)
  have "vesa_draw_char (term_x s * 8) (term_y s * 8) c (term_fg_color s) (term_bg_color s) s = None"
    using n assms(1) by (simp add: vesa_draw_char_def console_ok_def)
  then show ?thesis using True n(2,3) negative_code [OF n(1)] assms(1) by (simp add: gfx_putc_def console_ok_def)
next
  case False
  have b: "0 \<le> term_x s" "term_x s < term_cols s" "term_cols s < 2 ^ 30" "0 \<le> term_y s" "term_y s < term_rows s" "term_rows s < 2 ^ 30"
    "ansi_state s \<le> 2" "length (ansi_buf s) \<le> 63" using assms(1) by (simp_all add: console_ok_def)
  consider "back_buffer s = 0" | "back_buffer s \<noteq> 0" "ansi_state s \<in> {1, 2}" | "back_buffer s \<noteq> 0" "ansi_state s = 0"
    using b(7) by fastforce
  then have "\<exists>s'. gfx_putc c s = Some s' \<and> console_ok s'"
  proof cases
    case 1
    then show ?thesis using assms(1) by (simp add: gfx_putc_def)
  next
    case 2
    then have "console_ok (ansi_char c s)"
      using b ansi_command_ok [OF assms(1,2)] by (auto simp: ansi_char_def console_ok_def)
    then show ?thesis using 2 b by (auto simp: gfx_putc_def)
  next
    case 3
    obtain t where t: "vesa_draw_char (term_x s * 8) (term_y s * 8) c (term_fg_color s) (term_bg_color s) s = Some t" "same_console s t"
    proof (cases "sint c < 0")
      case True
      then have "term_x s * 8 \<ge> screen_width s \<or> term_y s * 8 \<ge> screen_height s" using False 3 by (auto simp: no_glyph_def)
      then show ?thesis using that [of s] by (auto simp: vesa_draw_char_def same_console_def)
    next
      case False
      then have "0 \<le> sint c" by simp
      then show ?thesis by (rule vesa_draw_char_Some) (rule that)
    qed
    have "same_console s (gfx_touch t)" by (rule same_console_trans [OF t(2) same_console_draw(4)])
    then have draw: "console_ok (gfx_wrap ((gfx_touch t)\<lparr>term_x := term_x (gfx_touch t) + 1\<rparr>))"
      using b by (intro gfx_wrap_ok) (auto simp: same_console_def)
    let ?b = "if term_x s > 0 then s\<lparr>term_x := term_x s - 1\<rparr>
               else if term_y s > 0 then s\<lparr>term_x := term_cols s - 1, term_y := term_y s - 1\<rparr> else s"
    have "same_console ?b (gfx_backspace s)"
      unfolding gfx_backspace_def Let_def by (rule same_console_trans [OF same_console_draw(5) same_console_draw(4)])
    then have bsp: "console_ok (gfx_wrap (gfx_backspace s))"
      using b by (intro gfx_wrap_ok) (auto simp: same_console_def split: if_splits)
    have plain: "console_ok (gfx_wrap (s\<lparr>term_x := 0, term_y := term_y s + 1\<rparr>))" "console_ok (gfx_wrap (s\<lparr>term_x := 0\<rparr>))"
      "console_ok (gfx_wrap (s\<lparr>term_x := term_x s + 4\<rparr>))" "console_ok (gfx_wrap s)"
      using b by (auto intro!: gfx_wrap_ok)
    show ?thesis
      using 3 b t draw bsp plain assms(1) by (auto simp: gfx_putc_def console_ok_def [of "_\<lparr>ansi_state := _\<rparr>"] Let_def)
  qed
  then show ?thesis using False by simp
qed

theorem gfx_putc_console_ok_witness:
  "\<exists>s'. gfx_putc 0x41 video_example = Some s' \<and> console_ok s'"
proof -
  have "console_ok video_example" "sane_arg 0x41 video_example"
    by (simp_all add: console_ok_def sane_arg_def video_example_def fat.defs video.defs)
  then show ?thesis using gfx_putc_console_ok [of video_example "0x41"] by (simp add: no_glyph_def)
qed

text \<open>
  A cursor movement with a negative argument leaves the screen: after \<^verbatim>\<open>ESC [ - 5\<close> the final
  \<^verbatim>\<open>B\<close> subtracts five rows, and only the lower edge is checked. A backspace there clears memory in
  front of the back buffer.
\<close>

theorem ansi_negative_argument:
  assumes "console_ok s" and "back_buffer s \<noteq> 0" and "ansi_state s = 2" and "ansi_buf s = ''-5''" and "term_y s < 5"
  shows "\<exists>s'. gfx_putc (of_char (CHR ''B'')) s = Some s' \<and> term_y s' = term_y s - 5 \<and> term_y s' < 0"
proof -
  have a: "ansi_arg ''-5'' = -5" by code_simp
  have "i32 (term_y s - 5) = term_y s - 5" using assms(1,5) by (intro i32_id) (auto simp: console_ok_def)
  then show ?thesis
    using assms a by (auto simp: gfx_putc_def ansi_char_def ansi_command_def is_letter_def console_ok_def Let_def)
qed

end
