(* ===== verification/Task.thy ===== *)
theory Task
  imports Vga
begin

text \<open>
  Tasks, the round-robin scheduler, the reaping of dead tasks, and signals: the first and the last
  part of \<^verbatim>\<open>kernel/task/task.c\<close>. Task structures and the nodes of their allocation lists live in
  stores from addresses to records, as the heap's headers do; their space comes from \<^verbatim>\<open>kmalloc\<close>.

  \<open>raw_task\<close> is what the memory of a new task structure holds before it is initialised, and
  \<open>cpu_esp\<close> the stack pointer at the call of \<^verbatim>\<open>switch_to_task\<close> (\<^verbatim>\<open>kernel/task/switch.asm\<close>), which saves
  nine words on the old stack and takes nine words off the new one.
\<close>

section \<open>State\<close>

datatype task_state = TASK_RUNNING | TASK_READY | TASK_SLEEPING | TASK_DEAD

record task =
  t_id :: int
  t_esp :: u32
  stack_start :: u32
  t_next :: u32
  t_state :: task_state
  kill_me :: bool
  wake_tick :: u32
  parent_id :: int
  allocations :: u32
  t_name :: string
  page_dir :: u32
  app_phys_addr :: u32
  cwd :: string
  fd_table :: "int list"
  uid :: int
  lib_offset :: u32
  t_heap_start :: u32
  t_heap_end :: u32
  blocked_signals :: u32
  pending_signals :: u32
  signal_handlers :: "u32 list"
  sig_saved_frame :: "u8 list"
  in_signal_handler :: bool

record alloc_node =
  an_ptr :: u32
  an_next :: u32

record tasking = vga +
  tasks :: "u32 \<rightharpoonup> task"
  alloc_nodes :: "u32 \<rightharpoonup> alloc_node"
  raw_task :: "u32 \<Rightarrow> task"
  current_task :: u32
  ready_queue :: u32
  next_pid :: int
  zombie_task :: u32
  tasks_need_cleanup :: bool
  foreground_task_id :: int
  cpu_esp :: u32
  signal_trampoline_entry :: u32
  exit_process_entry :: u32

text \<open>The last two are the addresses of code: the trampoline of \<^verbatim>\<open>interrupts_a.asm\<close> and \<^verbatim>\<open>exit_process\<close>.\<close>

definition MAX_FDS :: nat where "MAX_FDS = 16"
definition MAX_SIG :: nat where "MAX_SIG = 32"
definition SIGINT :: nat where "SIGINT = 2"
definition SIGKILL :: nat where "SIGKILL = 9"
definition SIGSEGV :: nat where "SIGSEGV = 11"

text \<open>\<^verbatim>\<open>sizeof(Task)\<close> and \<^verbatim>\<open>sizeof(struct trap_frame)\<close>.\<close>

definition sizeof_Task :: u32 where "sizeof_Task = 404"
definition sizeof_trap_frame :: nat where "sizeof_trap_frame = 44"

definition get_task :: "u32 \<Rightarrow> 'z tasking_scheme \<Rightarrow> task option" where
  "get_task p s = (if p = NULL then None else tasks s p)"

definition upd_task :: "u32 \<Rightarrow> (task \<Rightarrow> task) \<Rightarrow> 'z tasking_scheme \<Rightarrow> 'z tasking_scheme option" where
  "upd_task p f s = do { t \<leftarrow> get_task p s; Some (s\<lparr>tasks := (tasks s)(p \<mapsto> f t)\<rparr>) }"

definition get_node :: "u32 \<Rightarrow> 'z tasking_scheme \<Rightarrow> alloc_node option" where
  "get_node p s = (if p = NULL then None else alloc_nodes s p)"

section \<open>Allocation lists\<close>

text \<open>A new node in front of the list; without memory for it the allocation is not tracked.\<close>

definition track_ptr :: "u32 \<Rightarrow> u32 \<Rightarrow> 'z tasking_scheme \<Rightarrow> 'z tasking_scheme option" where
  "track_ptr task val s = do {
     (node, s) \<leftarrow> kmalloc 8 s;
     if node = NULL then Some s
     else do {
       t \<leftarrow> get_task task s;
       let s = s\<lparr>alloc_nodes := (alloc_nodes s)(node \<mapsto> \<lparr>an_ptr = val, an_next = allocations t\<rparr>)\<rparr>;
       upd_task task (\<lambda>t. t\<lparr>allocations := node\<rparr>) s } }"

definition track_allocation :: "u32 \<Rightarrow> u32 \<Rightarrow> 'z tasking_scheme \<Rightarrow> 'z tasking_scheme option" where
  "track_allocation task ptr s = (if task = NULL \<or> ptr = NULL then Some s else track_ptr task ptr s)"

definition track_allocation_a :: "u32 \<Rightarrow> u32 \<Rightarrow> 'z tasking_scheme \<Rightarrow> 'z tasking_scheme option" where
  "track_allocation_a task ptr s = (if task = NULL \<or> ptr = NULL then Some s else track_ptr task (ptr OR 1) s)"

partial_function (option) untrack_loop :: "u32 \<Rightarrow> u32 \<Rightarrow> u32 \<Rightarrow> u32 \<Rightarrow> 'z tasking_scheme \<Rightarrow> 'z tasking_scheme option" where
  "untrack_loop task ptr curr_node prev s =
     (if curr_node = NULL then Some s
      else Option.bind (get_node curr_node s) (\<lambda>n.
        if an_ptr n AND NOT 1 = ptr then
          Option.bind (if prev \<noteq> NULL
              then Option.bind (get_node prev s) (\<lambda>q. Some (s\<lparr>alloc_nodes := (alloc_nodes s)(prev \<mapsto> q\<lparr>an_next := an_next n\<rparr>)\<rparr>))
              else upd_task task (\<lambda>t. t\<lparr>allocations := an_next n\<rparr>) s)
            (\<lambda>s. kfree curr_node s)
        else untrack_loop task ptr (an_next n) curr_node s))"

definition untrack_allocation :: "u32 \<Rightarrow> u32 \<Rightarrow> 'z tasking_scheme \<Rightarrow> 'z tasking_scheme option" where
  "untrack_allocation task ptr s =
     (if task = NULL then Some s
      else do {
        t \<leftarrow> get_task task s;
        if allocations t = NULL then Some s else untrack_loop task ptr (allocations t) NULL s })"

partial_function (option) free_allocs :: "u32 \<Rightarrow> 'z tasking_scheme \<Rightarrow> 'z tasking_scheme option" where
  "free_allocs curr_node s =
     (if curr_node = NULL then Some s
      else Option.bind (get_node curr_node s) (\<lambda>n.
        Option.bind (if an_ptr n AND 1 \<noteq> 0 then kfree_a (an_ptr n AND NOT 1) s else kfree (an_ptr n) s) (\<lambda>s.
        Option.bind (get_node curr_node s) (\<lambda>n.
        Option.bind (kfree curr_node s) (\<lambda>s. free_allocs (an_next n) s)))))"

definition free_task_memory :: "u32 \<Rightarrow> 'z tasking_scheme \<Rightarrow> 'z tasking_scheme option" where
  "free_task_memory task s = do {
     t \<leftarrow> get_task task s;
     s \<leftarrow> free_allocs (allocations t) s;
     upd_task task (\<lambda>t. t\<lparr>allocations := NULL\<rparr>) s }"

text \<open>The page tables of the upper three quarters that the directory does not share with the kernel's.\<close>

fun free_tables :: "nat list \<Rightarrow> u32 \<Rightarrow> 'z tasking_scheme \<Rightarrow> 'z tasking_scheme option" where
  "free_tables [] pd s = Some s"
| "free_tables (i # is) pd s =
     (let e = load32 (mem s) (pd + of_nat (i * 4)); k = load32 (mem s) (kernel_dir s + of_nat (i * 4)) in do {
      s \<leftarrow> (if e AND 1 \<noteq> 0 \<and> e \<noteq> k then kfree_a (e AND 0xFFFFF000) s else Some s);
      free_tables is pd s })"

definition free_task_struct :: "u32 \<Rightarrow> 'z tasking_scheme \<Rightarrow> 'z tasking_scheme option" where
  "free_task_struct p s =
     (if p = NULL then Some s
      else do {
        s \<leftarrow> free_task_memory p s;
        t \<leftarrow> get_task p s;
        s \<leftarrow> (if app_phys_addr t \<noteq> NULL then kfree_a (app_phys_addr t) s else Some s);
        s \<leftarrow> (if page_dir t \<noteq> NULL \<and> page_dir t \<noteq> kernel_dir s then do {
               s \<leftarrow> free_tables [256..<1024] (page_dir t) s;
               kfree_a (page_dir t) s }
             else Some s);
        s \<leftarrow> (if stack_start t \<noteq> NULL then kfree (stack_start t) s else Some s);
        kfree p s })"

section \<open>Reaping dead tasks\<close>

text \<open>\<^verbatim>\<open>while (prev->next != curr) prev = prev->next;\<close>\<close>

partial_function (option) find_prev :: "u32 \<Rightarrow> u32 \<Rightarrow> 'z tasking_scheme \<Rightarrow> u32 option" where
  "find_prev prev p s =
     Option.bind (get_task prev s) (\<lambda>t. if t_next t = p then Some prev else find_prev (t_next t) p s)"

text \<open>Unlinking \<open>p\<close>, whose successor is \<open>nx\<close>, from the ring.\<close>

definition unlink_task :: "u32 \<Rightarrow> u32 \<Rightarrow> 'z tasking_scheme \<Rightarrow> 'z tasking_scheme option" where
  "unlink_task p nx s = do {
     prev \<leftarrow> find_prev (ready_queue s) p s;
     s \<leftarrow> upd_task prev (\<lambda>t. t\<lparr>t_next := nx\<rparr>) s;
     let s = (if p = ready_queue s then s\<lparr>ready_queue := nx\<rparr> else s);
     Some (if current_task s = p then s\<lparr>current_task := nx\<rparr> else s) }"

partial_function (option) cleanup_loop :: "u32 \<Rightarrow> u32 \<Rightarrow> bool \<Rightarrow> 'z tasking_scheme \<Rightarrow> 'z tasking_scheme option" where
  "cleanup_loop p start looped s =
     (if p = NULL \<or> looped then Some s
      else Option.bind (get_task p s) (\<lambda>t.
        if t_state t = TASK_DEAD then
          (if t_next t = p then free_task_struct p (s\<lparr>ready_queue := NULL\<rparr>)
           else Option.bind (unlink_task p (t_next t) s) (\<lambda>s.
             Option.bind (free_task_struct p s) (\<lambda>s.
               cleanup_loop (t_next t) (if p = start then t_next t else start) (t_next t = start) s)))
        else cleanup_loop (t_next t) start (t_next t = start) s))"

definition cleanup_zombies :: "'z tasking_scheme \<Rightarrow> 'z tasking_scheme option" where
  "cleanup_zombies s =
     (if \<not> tasks_need_cleanup s then Some s
      else do {
        let (flags, s) = save_flags s;
        s \<leftarrow> (if ready_queue s \<noteq> NULL then cleanup_loop (ready_queue s) (ready_queue s) False s else Some s);
        Some (restore_flags flags (s\<lparr>tasks_need_cleanup := False, zombie_task := NULL\<rparr>)) })"

section \<open>Names\<close>

definition task_set_name :: "string option \<Rightarrow> string" where
  "task_set_name name = (case name of None \<Rightarrow> ''unk'' | Some n \<Rightarrow> take 31 n)"

section \<open>Initialisation\<close>

definition init_tasking :: "'z tasking_scheme \<Rightarrow> 'z tasking_scheme option" where
  "init_tasking s = do {
     (p, s) \<leftarrow> kmalloc sizeof_Task s;
     if p = NULL then None
     else do {
       let t = (raw_task s p)\<lparr>t_id := next_pid s, t_esp := 0, stack_start := 0, t_next := p, t_state := TASK_RUNNING,
             parent_id := -1, allocations := NULL, page_dir := kernel_dir s, app_phys_addr := 0, kill_me := False, wake_tick := 0,
             cwd := ''/'', uid := 0, t_heap_start := 0x60000000, t_heap_end := 0x60000000, pending_signals := 0,
             in_signal_handler := False, signal_handlers := replicate MAX_SIG 0, fd_table := replicate MAX_FDS (-1),
             t_name := task_set_name (Some ''kernel'')\<rparr>;
       Some (s\<lparr>tasks := (tasks s)(p \<mapsto> t), next_pid := next_pid s + 1, current_task := p, ready_queue := p,
         foreground_task_id := t_id t, int_flag := True\<rparr>) } }"

section \<open>The scheduler\<close>

definition runnable :: "'z tasking_scheme \<Rightarrow> task \<Rightarrow> bool" where
  "runnable s t \<longleftrightarrow> t_state t = TASK_RUNNING \<or> t_state t = TASK_READY \<or> (t_state t = TASK_SLEEPING \<and> get_ticks s \<ge> wake_tick t)"

text \<open>
  The search around the ring. The result is the task to run, \<open>Some None\<close> when the search came back
  to a task that cannot run either.
\<close>

partial_function (option) sched_search :: "u32 \<Rightarrow> u32 \<Rightarrow> 'z tasking_scheme \<Rightarrow> u32 option option" where
  "sched_search prev p s =
     Option.bind (get_task p s) (\<lambda>t.
       if runnable s t then Some (Some p)
       else if t_next t = prev then
         Option.bind (get_task prev s) (\<lambda>q. Some (if t_state q = TASK_RUNNING then Some prev else None))
       else sched_search prev (t_next t) s)"

definition wake_task :: "u32 \<Rightarrow> 'z tasking_scheme \<Rightarrow> 'z tasking_scheme option" where
  "wake_task p s = upd_task p (\<lambda>t. if t_state t = TASK_SLEEPING then t\<lparr>t_state := TASK_RUNNING\<rparr> else t) s"

definition switch_to_task :: "u32 \<Rightarrow> u32 \<Rightarrow> 'z tasking_scheme \<Rightarrow> 'z tasking_scheme option" where
  "switch_to_task nx prev s = do {
     s \<leftarrow> upd_task prev (\<lambda>t. t\<lparr>t_esp := cpu_esp s - 36\<rparr>) s;
     t \<leftarrow> get_task nx s;
     Some (s\<lparr>cpu_esp := t_esp t + 36\<rparr>) }"

text \<open>
  \<^verbatim>\<open>task_scheduler\<close> up to the moment the next task has the processor, with interrupts off; every task
  restores the flags it saved when it continues after its own call. The first component says whether a switch took place. The early
  return without a current task leaves interrupts off.
\<close>

definition task_scheduler :: "'z tasking_scheme \<Rightarrow> (bool \<times> 'z tasking_scheme) option" where
  "task_scheduler s = do {
     let (flags, s) = save_flags s;
     s \<leftarrow> cleanup_zombies s;
     if current_task s = NULL \<or> ready_queue s = NULL then Some (False, s)
     else do {
       let prev = current_task s;
       t \<leftarrow> get_task prev s;
       r \<leftarrow> sched_search prev (t_next t) s;
       case r of
         None \<Rightarrow> Some (False, restore_flags flags s)
       | Some nx \<Rightarrow> do {
           s \<leftarrow> wake_task nx s;
           if nx = prev then Some (False, restore_flags flags s)
           else do {
             n \<leftarrow> get_task nx s;
             let s = s\<lparr>current_task := nx\<rparr>;
             let s = (if page_dir n \<noteq> NULL \<and> page_dir n \<noteq> current_dir s then switch_page_directory (page_dir n) s else s);
             s \<leftarrow> switch_to_task nx prev s;
             Some (True, s) } } } }"

definition yield :: "'z tasking_scheme \<Rightarrow> (bool \<times> 'z tasking_scheme) option" where
  "yield s = task_scheduler s"

definition task_sleep :: "u32 \<Rightarrow> 'z tasking_scheme \<Rightarrow> (bool \<times> 'z tasking_scheme) option" where
  "task_sleep ms s =
     (if current_task s = NULL then Some (False, s)
      else do {
        s \<leftarrow> upd_task (current_task s) (\<lambda>t. t\<lparr>wake_tick := get_ticks s + ms, t_state := TASK_SLEEPING\<rparr>) s;
        task_scheduler s })"

section \<open>Walks around the ring\<close>

text \<open>\<^verbatim>\<open>do { if (P t) break; t = t->next; } while (t != ready_queue);\<close>\<close>

partial_function (option) find_task :: "(task \<Rightarrow> bool) \<Rightarrow> u32 \<Rightarrow> 'z tasking_scheme \<Rightarrow> u32 option option" where
  "find_task P p s =
     Option.bind (get_task p s) (\<lambda>t.
       if P t then Some (Some p) else if t_next t = ready_queue s then Some None else find_task P (t_next t) s)"

definition find_live :: "int \<Rightarrow> 'z tasking_scheme \<Rightarrow> u32 option option" where
  "find_live pid s = find_task (\<lambda>t. t_id t = pid \<and> t_state t \<noteq> TASK_DEAD) (ready_queue s) s"

partial_function (option) kill_children_loop :: "int \<Rightarrow> u32 \<Rightarrow> 'z tasking_scheme \<Rightarrow> 'z tasking_scheme option" where
  "kill_children_loop pid p s =
     Option.bind (get_task p s) (\<lambda>t.
       Option.bind (if parent_id t = pid \<and> t_state t \<noteq> TASK_DEAD then upd_task p (\<lambda>t. t\<lparr>parent_id := 1\<rparr>) s else Some s) (\<lambda>s.
         if t_next t = ready_queue s then Some s else kill_children_loop pid (t_next t) s))"

definition kill_children_of :: "int \<Rightarrow> 'z tasking_scheme \<Rightarrow> 'z tasking_scheme option" where
  "kill_children_of pid s = (if ready_queue s = NULL then Some s else kill_children_loop pid (ready_queue s) s)"

section \<open>Signals\<close>

definition send_signal :: "int \<Rightarrow> int \<Rightarrow> 'z tasking_scheme \<Rightarrow> 'z tasking_scheme option" where
  "send_signal pid sig s =
     (if ready_queue s = NULL \<or> sig < 1 \<or> sig \<ge> int MAX_SIG then Some s
      else if pid \<le> 1 then Some s
      else do {
        r \<leftarrow> find_live pid s;
        case r of
          None \<Rightarrow> Some s
        | Some p \<Rightarrow> upd_task p (\<lambda>t. if sig = int SIGKILL then t\<lparr>kill_me := True\<rparr>
              else t\<lparr>pending_signals := pending_signals t OR push_bit (nat sig) 1\<rparr>) s })"

text \<open>
  The loop over the pending signals of the task at \<open>p\<close>, with the trap frame at address \<open>frame\<close>: an
  ignored signal is dropped, the default action ends the loop, and a handler is entered through
  the trampoline, with the interrupted frame saved in the task.
\<close>

fun signal_loop :: "nat list \<Rightarrow> u32 \<Rightarrow> u32 \<Rightarrow> 'z tasking_scheme \<Rightarrow> 'z tasking_scheme option" where
  "signal_loop [] p frame s = Some s"
| "signal_loop (sig # sigs) p frame s = do {
     t \<leftarrow> get_task p s;
     if bit (pending_signals t) sig then do {
       s \<leftarrow> upd_task p (\<lambda>t. t\<lparr>pending_signals := pending_signals t AND NOT (push_bit sig 1)\<rparr>) s;
       let handler = signal_handlers t ! sig;
       if handler = 1 then signal_loop sigs p frame s
       else if handler = 0 then
         (if sig = SIGINT \<or> sig = SIGKILL then upd_task p (\<lambda>t. t\<lparr>kill_me := True\<rparr>) s else Some s)
       else do {
         s \<leftarrow> upd_task p (\<lambda>t. t\<lparr>sig_saved_frame := read_bytes (mem s) frame sizeof_trap_frame, in_signal_handler := True\<rparr>) s;
         let m = store32 (mem s) (frame + 32) (signal_trampoline_entry s);
         let m = store32 m (frame + 28) handler;
         Some (s\<lparr>mem := store32 m (frame + 16) (of_nat sig)\<rparr>) } }
     else signal_loop sigs p frame s }"

definition check_signals :: "u32 \<Rightarrow> 'z tasking_scheme \<Rightarrow> 'z tasking_scheme option" where
  "check_signals esp_after_pusha s =
     (if current_task s = NULL then Some s
      else do {
        t \<leftarrow> get_task (current_task s) s;
        if t_id t \<le> 1 \<or> in_signal_handler t \<or> pending_signals t = 0 then Some s
        else signal_loop [1..<MAX_SIG] (current_task s) esp_after_pusha s })"

definition sys_sigreturn_impl :: "u32 \<Rightarrow> 'z tasking_scheme \<Rightarrow> 'z tasking_scheme option" where
  "sys_sigreturn_impl esp_after_pusha s =
     (if current_task s = NULL then Some s
      else do {
        t \<leftarrow> get_task (current_task s) s;
        if \<not> in_signal_handler t then Some s
        else upd_task (current_task s) (\<lambda>t. t\<lparr>in_signal_handler := False\<rparr>)
               (s\<lparr>mem := write_bytes (mem s) esp_after_pusha (sig_saved_frame t)\<rparr>) })"

end
