(* ===== verification/Task_Props.thy ===== *)
theory Task_Props
  imports Task Video_Props
begin

text \<open>
  The scheduler and the signals. Tasks form a ring through their \<open>t_next\<close> fields; the scheduler hands
  the processor to the first task after the current one that can run, and whoever can run gets it
  within one round. A signal interrupts a task once, and returning from it restores the frame.
\<close>

section \<open>The ring of tasks\<close>

fun links :: "'z tasking_scheme \<Rightarrow> u32 \<Rightarrow> u32 list \<Rightarrow> u32 \<Rightarrow> bool" where
  "links s p [] q \<longleftrightarrow> p = q"
| "links s p (x # xs) q \<longleftrightarrow> p = x \<and> x \<noteq> NULL \<and> (case tasks s x of None \<Rightarrow> False | Some t \<Rightarrow> links s (t_next t) xs q)"

definition ring :: "'z tasking_scheme \<Rightarrow> u32 list \<Rightarrow> bool" where
  "ring s ps \<longleftrightarrow> ps \<noteq> [] \<and> distinct ps \<and> links s (hd ps) ps (hd ps)"

definition ready :: "'z tasking_scheme \<Rightarrow> u32 \<Rightarrow> bool" where
  "ready s p = (case tasks s p of None \<Rightarrow> False | Some t \<Rightarrow> runnable s t)"

lemma links_append: "links s p (xs @ ys) q \<longleftrightarrow> (\<exists>r. links s p xs r \<and> links s r ys q)"
  by (induction xs arbitrary: p) (auto split: option.splits)

lemma links_start: "links s p (x # xs) q \<Longrightarrow> p = x"
  by simp

lemma links_cong:
  assumes "\<And>x. x \<in> set xs \<Longrightarrow> map_option t_next (tasks s' x) = map_option t_next (tasks s x)"
  shows "links s' p xs q = links s p xs q"
  using assms
proof (induction xs arbitrary: p)
  case (Cons x xs)
  have "map_option t_next (tasks s' x) = map_option t_next (tasks s x)" by (rule Cons.prems) simp
  then show ?case using Cons.IH Cons.prems by (cases "tasks s x"; cases "tasks s' x") auto
qed simp

lemma ring_cong:
  "(\<And>x. x \<in> set ps \<Longrightarrow> map_option t_next (tasks s' x) = map_option t_next (tasks s x)) \<Longrightarrow> ring s' ps = ring s ps"
  unfolding ring_def using links_cong [of ps s' s] by blast

lemma ring_rotate:
  assumes "ring s (xs @ ys)" and "ys \<noteq> []"
  shows "ring s (ys @ xs)"
proof (cases "xs = []")
  case False
  then obtain r where r: "links s (hd xs) xs r" "links s r ys (hd xs)"
    using assms(1) by (auto simp: ring_def links_append)
  have "r = hd ys" using r(2) assms(2) by (cases ys) auto
  then show ?thesis using assms r by (auto simp: ring_def links_append)
qed (use assms in simp)

lemma ring_task:
  assumes "ring s ps" and "p \<in> set ps"
  obtains t where "tasks s p = Some t" "p \<noteq> NULL"
proof -
  have "links s a xs b \<Longrightarrow> p \<in> set xs \<Longrightarrow> \<exists>t. tasks s p = Some t \<and> p \<noteq> NULL" for a b xs
    by (induction xs arbitrary: a) (auto split: option.splits)
  then show ?thesis using assms that by (auto simp: ring_def)
qed

lemma ring_ConsD:
  assumes "ring s (p # qs)"
  obtains t where "tasks s p = Some t" "p \<noteq> NULL" "links s (t_next t) qs p" "p \<notin> set qs" "distinct qs"
  using assms by (auto simp: ring_def split: option.splits)

section \<open>The search\<close>

lemma get_task_Some [simp]: "p \<noteq> NULL \<Longrightarrow> tasks s p = Some t \<Longrightarrow> get_task p s = Some t"
  by (simp add: get_task_def)

text \<open>The walk stops at the first task of the chain that can run, and at the current one otherwise.\<close>

lemma sched_search_links:
  assumes "links s p qs prev" and "prev \<notin> set qs" and "qs \<noteq> []" and "get_task prev s = Some t"
  shows "sched_search prev p s =
    Some (case find (ready s) qs of Some q \<Rightarrow> Some q | None \<Rightarrow> (if t_state t = TASK_RUNNING then Some prev else None))"
  using assms
proof (induction qs arbitrary: p)
  case (Cons x xs)
  obtain u where u: "tasks s x = Some u" "p = x" "x \<noteq> NULL" "links s (t_next u) xs prev"
    using Cons.prems(1) by (auto split: option.splits)
  then have g: "get_task x s = Some u" "p = x" by simp_all
  show ?case
  proof (cases "runnable s u")
    case True
    then show ?thesis using g u by (simp add: sched_search.simps [of prev x] ready_def)
  next
    case nr: False
    then have f: "find (ready s) (x # xs) = find (ready s) xs" using u by (simp add: ready_def)
    show ?thesis
    proof (cases xs)
      case Nil
      then have "t_next u = prev" using u by simp
      then show ?thesis using g u nr Cons.prems(4) f Nil by (simp add: sched_search.simps [of prev x])
    next
      case (Cons y ys)
      then have "t_next u = y" using u(4) by simp
      then have "t_next u \<noteq> prev" using Cons.prems(2) Cons by auto
      moreover have "sched_search prev (t_next u) s = Some (case find (ready s) xs of Some q \<Rightarrow> Some q
          | None \<Rightarrow> (if t_state t = TASK_RUNNING then Some prev else None))"
        using Cons.IH [OF u(4)] Cons.prems Cons by simp
      ultimately show ?thesis using g nr f by (simp add: sched_search.simps [of prev x])
    qed
  qed
qed simp

section \<open>A scheduler call\<close>

text \<open>What the scheduler leaves: the chosen task runs, in its address space and on its stack.\<close>

definition woken :: "task \<Rightarrow> task" where
  "woken t = (if t_state t = TASK_SLEEPING then t\<lparr>t_state := TASK_RUNNING\<rparr> else t)"

definition switched :: "u32 \<Rightarrow> u32 \<Rightarrow> task \<Rightarrow> 'z tasking_scheme \<Rightarrow> 'z tasking_scheme" where
  "switched p q u s =
     (let s = s\<lparr>int_flag := False, tasks := (tasks s)(q \<mapsto> woken u), current_task := q\<rparr>;
          s = (if page_dir u \<noteq> NULL \<and> page_dir u \<noteq> current_dir s then switch_page_directory (page_dir u) s else s);
          s = s\<lparr>tasks := (tasks s)(p \<mapsto> (the (tasks s p))\<lparr>t_esp := cpu_esp s - 36\<rparr>)\<rparr>
      in s\<lparr>cpu_esp := t_esp u + 36\<rparr>)"

lemma woken_fields [simp]: "page_dir (woken u) = page_dir u" "t_esp (woken u) = t_esp u" "t_next (woken u) = t_next u"
  by (simp_all add: woken_def)

lemma find_ready:
  assumes "find (ready s) qs = Some q"
  obtains u where "q \<in> set qs" "tasks s q = Some u" "runnable s u"
  using assms by (auto simp: find_Some_iff ready_def split: option.splits)

lemma ready_flag [simp]: "ready (s\<lparr>int_flag := b\<rparr>) = ready s"
  by (auto simp: ready_def runnable_def get_ticks_def fun_eq_iff split: option.splits)

lemma links_flag [simp]: "links (s\<lparr>int_flag := b\<rparr>) p xs q = links s p xs q"
  by (rule links_cong) simp

lemma ring_flag [simp]: "ring (s\<lparr>int_flag := b\<rparr>) ps = ring s ps"
  by (rule ring_cong) simp

lemma task_scheduler_switch:
  assumes r: "ring s (p # qs)" and c: "current_task s = p" and n: "ready_queue s \<noteq> NULL" "\<not> tasks_need_cleanup s"
    and f: "find (ready s) qs = Some q" and u: "tasks s q = Some u"
  shows "task_scheduler s = Some (True, switched p q u s)"
proof -
  obtain t where t: "tasks s p = Some t" "p \<noteq> NULL" "links s (t_next t) qs p" "p \<notin> set qs" "distinct qs"
    using r by (rule ring_ConsD)
  from f have q: "q \<in> set qs" by (rule find_ready)
  have ne: "q \<noteq> p" "qs \<noteq> []" using q t(4) by auto
  obtain v where qn: "tasks s q = Some v" "q \<noteq> NULL" by (rule ring_task [OF r, of q]) (auto simp: q)
  have search: "sched_search p (t_next t) (s\<lparr>int_flag := False\<rparr>) = Some (Some q)"
    using sched_search_links [of "s\<lparr>int_flag := False\<rparr>" "t_next t" qs p t] t ne f by simp
  show ?thesis
    using t(1,2) ne qn u search n c
    by (simp add: task_scheduler_def save_flags_def cleanup_zombies_def Let_def wake_task_def upd_task_def get_task_def
        switch_to_task_def switched_def switch_page_directory_def woken_def)
qed

lemma task_scheduler_stay:
  assumes r: "ring s (p # qs)" and c: "current_task s = p" and n: "ready_queue s \<noteq> NULL" "\<not> tasks_need_cleanup s"
    and f: "find (ready s) qs = None" and ne: "qs \<noteq> []"
  shows "task_scheduler s = Some (False, s)"
proof -
  obtain t where t: "tasks s p = Some t" "p \<noteq> NULL" "links s (t_next t) qs p" "p \<notin> set qs" "distinct qs"
    using r by (rule ring_ConsD)
  have search: "sched_search p (t_next t) (s\<lparr>int_flag := False\<rparr>) = Some (if t_state t = TASK_RUNNING then Some p else None)"
    using sched_search_links [of "s\<lparr>int_flag := False\<rparr>" "t_next t" qs p t] t ne f by simp
  have upd: "(tasks s)(p \<mapsto> t) = tasks s" using t(1) by (rule map_upd_triv)
  show ?thesis
    using t(1,2) ne search n c upd
    by (simp add: task_scheduler_def save_flags_def restore_flags_def cleanup_zombies_def Let_def wake_task_def upd_task_def get_task_def)
qed

lemma switched_fields:
  assumes "p \<noteq> q"
  shows "current_task (switched p q u s) = q" "ready_queue (switched p q u s) = ready_queue s"
    "tasks_need_cleanup (switched p q u s) = tasks_need_cleanup s" "ticks (switched p q u s) = ticks s"
    "tasks (switched p q u s) = (tasks s)(q \<mapsto> woken u, p \<mapsto> (the (tasks s p))\<lparr>t_esp := cpu_esp s - 36\<rparr>)"
    "cpu_esp (switched p q u s) = t_esp u + 36" "int_flag (switched p q u s) = False"
    "current_dir (switched p q u s) = (if page_dir u \<noteq> NULL then page_dir u else current_dir s)"
  using assms by (auto simp: switched_def Let_def switch_page_directory_def)

lemma switched_ring:
  assumes "ring s (p # qs)" and "q \<in> set qs" and "tasks s q = Some u"
  shows "ring (switched p q u s) (p # qs)"
proof -
  obtain t where t: "tasks s p = Some t" "p \<notin> set qs" using assms(1) by (rule ring_ConsD)
  then have "p \<noteq> q" using assms(2) by auto
  then have "map_option t_next (tasks (switched p q u s) x) = map_option t_next (tasks s x)" for x
    using t(1) assms(3) by (simp add: switched_fields)
  then show ?thesis using ring_cong [of "p # qs" "switched p q u s" s] assms(1) by simp
qed

lemma switched_ready:
  assumes "tasks s q = Some u" and "runnable s u" and "p \<noteq> q" and "tasks s p = Some t"
  shows "ready (switched p q u s) x = ready s x"
  using assms by (auto simp: ready_def runnable_def switched_fields woken_def get_ticks_def split: option.splits)

section \<open>An example state\<close>

definition task_example :: "int \<Rightarrow> u32 \<Rightarrow> task_state \<Rightarrow> task" where
  "task_example i nx st = \<lparr>t_id = i, t_esp = 0x9000, stack_start = 0x8000, t_next = nx, t_state = st, kill_me = False, wake_tick = 1000,
     parent_id = 1, allocations = NULL, t_name = ''app'', page_dir = 0x50000, app_phys_addr = 0, cwd = ''/'',
     fd_table = replicate MAX_FDS (-1), uid = 0, lib_offset = 0, t_heap_start = 0x60000000, t_heap_end = 0x60000000,
     blocked_signals = 0, pending_signals = 0x404, signal_handlers = (replicate MAX_SIG 0)[2 := 1, 10 := 0x401000],
     sig_saved_frame = [], in_signal_handler = False\<rparr>"

text \<open>Three tasks: the current one, one that sleeps and one that is ready.\<close>

definition tasking_example :: tasking where
  "tasking_example = vga.extend vga_example (tasking.fields
     [0x1000 \<mapsto> task_example 5 0x2000 TASK_RUNNING, 0x2000 \<mapsto> task_example 6 0x3000 TASK_SLEEPING, 0x3000 \<mapsto> task_example 7 0x1000 TASK_READY]
     Map.empty (\<lambda>_. task_example 0 0 TASK_DEAD) 0x1000 0x1000 8 NULL False 5 0x7000 0x101000 0x102000)"

lemma tasking_example_fields [simp]:
  "tasks tasking_example = [0x1000 \<mapsto> task_example 5 0x2000 TASK_RUNNING, 0x2000 \<mapsto> task_example 6 0x3000 TASK_SLEEPING, 0x3000 \<mapsto> task_example 7 0x1000 TASK_READY]"
  "current_task tasking_example = 0x1000" "ready_queue tasking_example = 0x1000" "tasks_need_cleanup tasking_example = False"
  "ticks tasking_example = 7"
  by (simp_all add: tasking_example_def vga_example_def video_example_def fat_example_def disk_example_def vga.defs tasking.defs
      video.defs fat.defs disk.defs)

lemma tasking_example_ring: "ring tasking_example [0x1000, 0x2000, 0x3000]"
  by (simp add: ring_def task_example_def)

lemma tasking_example_ready: "ready tasking_example 0x3000" "\<not> ready tasking_example 0x2000"
  by (simp_all add: ready_def runnable_def task_example_def get_ticks_def)

section \<open>Round robin\<close>

text \<open>
  C28. The scheduler hands the processor to the first task after the current one, in ring order, that can run, when no cleanup of ended tasks is
  pending. The whole state after the switch is given: that task is the current one and woken if it slept, its stack pointer is
  loaded, and its page directory too (with CR3) if it has one other than the active one; the stack pointer of the old task is saved, interrupts are off; memory, heap, other
  tasks and everything else are as before (the registers that the assembly of the switch keeps in the nine words below the stack pointer are not part of the state). When no other task can run the scheduler changes nothing.
\<close>

theorem task_scheduler_picks_first:
  assumes "ring s (p # qs)" and "current_task s = p" and "ready_queue s \<noteq> NULL" and "\<not> tasks_need_cleanup s" and "qs \<noteq> []"
  shows "case find (ready s) qs of
      None \<Rightarrow> task_scheduler s = Some (False, s)
    | Some q \<Rightarrow> \<exists>t u s'. tasks s p = Some t \<and> tasks s q = Some u \<and> task_scheduler s = Some (True, s') \<and> ring s' (p # qs) \<and>
        s' = s\<lparr>int_flag := False, current_task := q, cpu_esp := t_esp u + 36,
          tasks := (tasks s)(q \<mapsto> (if t_state u = TASK_SLEEPING then u\<lparr>t_state := TASK_RUNNING\<rparr> else u), p \<mapsto> t\<lparr>t_esp := cpu_esp s - 36\<rparr>),
          current_dir := (if page_dir u \<noteq> NULL then page_dir u else current_dir s),
          cr3 := (if page_dir u \<noteq> NULL \<and> page_dir u \<noteq> current_dir s then page_dir u else cr3 s)\<rparr>"
proof (cases "find (ready s) qs")
  case None
  then show ?thesis using task_scheduler_stay [OF assms(1-4)] assms(5) by simp
next
  case (Some q)
  then obtain u where u: "q \<in> set qs" "tasks s q = Some u" "runnable s u" by (rule find_ready)
  obtain t where t: "tasks s p = Some t" "p \<notin> set qs" using assms(1) by (rule ring_ConsD)
  then have ne: "p \<noteq> q" using u(1) by auto
  show ?thesis
    using task_scheduler_switch [OF assms(1-4) Some u(2)] u(2) t(1) switched_ring [OF assms(1) u(1,2)] Some ne
    by (simp add: switched_def switch_page_directory_def woken_def Let_def)
qed

theorem task_scheduler_picks_first_witness:
  "\<exists>s'. task_scheduler tasking_example = Some (True, s') \<and> current_task s' = 0x3000 \<and> cpu_esp s' = 0x9024 \<and> current_dir s' = 0x50000 \<and>
     mem s' = mem tasking_example"
  using task_scheduler_picks_first [OF tasking_example_ring] by (auto simp: tasking_example_ready task_example_def)

text \<open>Scheduler calls with whatever the running tasks and the interrupt handlers do between them.\<close>

fun sched_rounds :: "('z tasking_scheme \<Rightarrow> 'z tasking_scheme) list \<Rightarrow> 'z tasking_scheme \<Rightarrow> 'z tasking_scheme option" where
  "sched_rounds [] s = Some s"
| "sched_rounds (e # es) s = do { (_, s) \<leftarrow> task_scheduler s; sched_rounds es (e s) }"

text \<open>
  What happens between two calls: it creates and ends no task, does not change the current task, and keeps task \<open>q\<close> able to run.
\<close>

definition keeps_ready :: "u32 \<Rightarrow> ('z tasking_scheme \<Rightarrow> 'z tasking_scheme) \<Rightarrow> bool" where
  "keeps_ready q e \<longleftrightarrow> (\<forall>s ps. ring s ps \<and> ready s q \<longrightarrow> ring (e s) ps \<and> ready (e s) q \<and> current_task (e s) = current_task s
     \<and> (ready_queue s \<noteq> NULL \<longrightarrow> ready_queue (e s) \<noteq> NULL) \<and> (\<not> tasks_need_cleanup s \<longrightarrow> \<not> tasks_need_cleanup (e s)))"

lemma keeps_readyD:
  assumes "keeps_ready q e" and "ring s ps" and "ready s q"
  shows "ring (e s) ps" "ready (e s) q" "current_task (e s) = current_task s" "ready_queue s \<noteq> NULL \<Longrightarrow> ready_queue (e s) \<noteq> NULL"
    "\<not> tasks_need_cleanup s \<Longrightarrow> \<not> tasks_need_cleanup (e s)"
  using assms unfolding keeps_ready_def by blast+

lemma find_ready_before:
  "ready s q \<Longrightarrow> \<exists>r. find (ready s) (as @ q # bs) = Some r \<and> (r = q \<or> (\<exists>cs ds. as = cs @ r # ds))"
proof (induction as)
  case (Cons a as)
  then obtain r where r: "find (ready s) (as @ q # bs) = Some r" "r = q \<or> (\<exists>cs ds. as = cs @ r # ds)" by blast
  then have "r = q \<or> (\<exists>cs ds. a # as = cs @ r # ds)" by (metis append_Cons)
  then show ?case using r(1) by (cases "ready s a") auto
qed simp

lemma round_robin_aux:
  assumes "ring s (p # as @ q # bs)" and "current_task s = p" and "ready_queue s \<noteq> NULL" and "\<not> tasks_need_cleanup s"
    and "ready s q" and "\<forall>e \<in> set es. keeps_ready q e" and "length as < length es"
  shows "\<exists>k \<le> Suc (length as). \<exists>s'. sched_rounds (take k es) s = Some s' \<and> current_task s' = q"
  using assms
proof (induction "length as" arbitrary: s p as bs es rule: less_induct)
  case less
  obtain e es' where es: "es = e # es'" using less.prems(7) by (cases es) auto
  obtain r where r: "find (ready s) (as @ q # bs) = Some r" "r = q \<or> (\<exists>cs ds. as = cs @ r # ds)"
    using find_ready_before [OF less.prems(5)] by blast
  obtain u where u: "r \<in> set (as @ q # bs)" "tasks s r = Some u" "runnable s u" using r(1) by (rule find_ready)
  obtain t where t: "tasks s p = Some t" "p \<notin> set (as @ q # bs)" using less.prems(1) by (rule ring_ConsD)
  then have pr: "p \<noteq> r" using u(1) by auto
  let ?s = "switched p r u s"
  have step: "task_scheduler s = Some (True, ?s)" using task_scheduler_switch [OF less.prems(1-4) r(1) u(2)] .
  have rg: "ring ?s (p # as @ q # bs)" using switched_ring [OF less.prems(1) u(1,2)] .
  have rq: "ready ?s q" using switched_ready [OF u(2,3) pr t(1)] less.prems(5) by simp
  have k: "keeps_ready q e" using less.prems(6) es by simp
  have k1: "current_task (e ?s) = r" "ready_queue (e ?s) \<noteq> NULL" "\<not> tasks_need_cleanup (e ?s)" "ready (e ?s) q"
    using keeps_readyD(2-) [OF k rg rq] less.prems(3,4) switched_fields(1-3) [OF pr, of u s] by simp_all
  show ?case
  proof (cases "r = q")
    case True
    then show ?thesis using step k1 es by (intro exI [of _ 1]) simp
  next
    case False
    then obtain cs ds where as: "as = cs @ r # ds" using r(2) by blast
    have "ring ?s ((p # cs) @ (r # ds @ q # bs))" using rg as by simp
    then have "ring ?s ((r # ds @ q # bs) @ (p # cs))" by (rule ring_rotate) simp
    then have rg': "ring (e ?s) (r # ds @ q # (bs @ p # cs))" using keeps_readyD(1) [OF k _ rq] by simp
    have "\<exists>k \<le> Suc (length ds). \<exists>s'. sched_rounds (take k es') (e ?s) = Some s' \<and> current_task s' = q"
      using less.hyps [OF _ rg' k1(1-4)] less.prems(6,7) as es by simp
    then obtain k s' where "k \<le> Suc (length ds)" "sched_rounds (take k es') (e ?s) = Some s'" "current_task s' = q" by blast
    then show ?thesis using step es as by (intro exI [of _ "Suc k"]) auto
  qed
qed

text \<open>
  C27. A task that can run gets the processor: within as many scheduler calls as the ring has other
  tasks it becomes the current one. Between the calls the running tasks and the interrupts may do anything that creates and ends no task, leaves
  the ring and the current task alone and no cleanup pending, and keeps the task able to run.
\<close>

theorem round_robin_liveness:
  assumes "ring s (p # qs)" and "current_task s = p" and "ready_queue s \<noteq> NULL" and "\<not> tasks_need_cleanup s"
    and "q \<in> set (p # qs)" and "ready s q" and "\<forall>e \<in> set es. keeps_ready q e" and "length qs \<le> length es"
  shows "\<exists>k \<le> length qs. \<exists>s'. sched_rounds (take k es) s = Some s' \<and> current_task s' = q"
proof (cases "q = p")
  case True
  then show ?thesis using assms(2) by (intro exI [of _ 0]) simp
next
  case False
  then obtain as bs where qs: "qs = as @ q # bs" using assms(5) by (auto simp: in_set_conv_decomp)
  then have "\<exists>k \<le> Suc (length as). \<exists>s'. sched_rounds (take k es) s = Some s' \<and> current_task s' = q"
    using round_robin_aux [of s p as q bs es] assms by simp
  then obtain k where "k \<le> Suc (length as)" "\<exists>s'. sched_rounds (take k es) s = Some s' \<and> current_task s' = q" by blast
  then show ?thesis using qs by (intro exI [of _ k]) simp
qed

theorem round_robin_liveness_witness:
  "\<exists>k \<le> Suc (Suc 0). \<exists>s'. sched_rounds (take k [id, id]) tasking_example = Some s' \<and> current_task s' = 0x3000"
  using round_robin_liveness [OF tasking_example_ring _ _ _ _ tasking_example_ready(1), of "[id, id]"]
  by (simp add: keeps_ready_def)

section \<open>Walks\<close>

text \<open>A walk around the ring finds the first task that satisfies the condition.\<close>

definition holds :: "(task \<Rightarrow> bool) \<Rightarrow> 'z tasking_scheme \<Rightarrow> u32 \<Rightarrow> bool" where
  "holds P s p = (case tasks s p of None \<Rightarrow> False | Some t \<Rightarrow> P t)"

lemma find_task_links:
  assumes "links s p qs (ready_queue s)" and "ready_queue s \<notin> set (tl qs)" and "qs \<noteq> []"
  shows "find_task P p s = Some (find (holds P s) qs)"
  using assms
proof (induction qs arbitrary: p)
  case (Cons x xs)
  obtain u where u: "tasks s x = Some u" "p = x" "x \<noteq> NULL" "links s (t_next u) xs (ready_queue s)"
    using Cons.prems(1) by (auto split: option.splits)
  then have h: "holds P s x = P u" by (simp add: holds_def)
  show ?case
  proof (cases xs)
    case Nil
    then show ?thesis using u h by (simp add: find_task.simps [of P x])
  next
    case (Cons y ys)
    then have "t_next u \<noteq> ready_queue s" using u(4) Cons.prems(2) by auto
    moreover have "find_task P (t_next u) s = Some (find (holds P s) xs)" using Cons.IH [OF u(4)] Cons.prems(2) Cons by simp
    ultimately show ?thesis using u h by (simp add: find_task.simps [of P x])
  qed
qed simp

lemma find_task_ring:
  assumes "ring s ps" and "ready_queue s = hd ps"
  shows "find_task P (ready_queue s) s = Some (find (holds P s) ps)"
  using find_task_links [of s "ready_queue s" ps P] assms by (cases ps) (auto simp: ring_def)

section \<open>Signals\<close>

lemma bit_clear: "bit (w AND NOT (2 ^ k) :: u32) n \<longleftrightarrow> bit w n \<and> n \<noteq> k"
proof -
  have "bit w n \<Longrightarrow> n < 32" using bit_imp_le_length [of w n] by simp
  then show ?thesis by (auto simp: bit_simps)
qed

text \<open>The signal that interrupts the task: the first pending one that is not ignored.\<close>

definition deliverable :: "task \<Rightarrow> nat \<Rightarrow> bool" where
  "deliverable t sig \<longleftrightarrow> bit (pending_signals t) sig \<and> signal_handlers t ! sig \<noteq> 1"

definition enter_frame :: "(u32 \<Rightarrow> u8) \<Rightarrow> u32 \<Rightarrow> u32 \<Rightarrow> u32 \<Rightarrow> u32 \<Rightarrow> (u32 \<Rightarrow> u8)" where
  "enter_frame m frame eip eax ebx = store32 (store32 (store32 m (frame + 32) eip) (frame + 28) eax) (frame + 16) ebx"

definition entered :: "u32 \<Rightarrow> u32 \<Rightarrow> nat \<Rightarrow> u32 \<Rightarrow> task \<Rightarrow> 'z tasking_scheme \<Rightarrow> 'z tasking_scheme" where
  "entered p frame sig w t s =
     s\<lparr>tasks := (tasks s)(p \<mapsto> t\<lparr>pending_signals := w, sig_saved_frame := read_bytes (mem s) frame sizeof_trap_frame, in_signal_handler := True\<rparr>),
       mem := enter_frame (mem s) frame (signal_trampoline_entry s) (signal_handlers t ! sig) (of_nat sig)\<rparr>"

lemma signal_loop_enters:
  assumes "tasks s p = Some t" and "p \<noteq> NULL" and "distinct sigs" and "find (deliverable t) sigs = Some sig" and "signal_handlers t ! sig \<noteq> 0"
  shows "\<exists>w. (\<forall>n. bit w n \<longleftrightarrow> bit (pending_signals t) n \<and> n \<noteq> sig \<and> n \<notin> set (takeWhile (\<lambda>n. n \<noteq> sig) sigs))
    \<and> signal_loop sigs p frame s = Some (entered p frame sig w t s)"
  using assms
proof (induction sigs arbitrary: s t)
  case (Cons x xs)
  show ?case
  proof (cases "deliverable t x")
    case True
    then have x: "x = sig" using Cons.prems(4) by simp
    then have h: "bit (pending_signals t) sig" "signal_handlers t ! sig \<noteq> 1" using True by (simp_all add: deliverable_def)
    let ?w = "pending_signals t AND NOT (push_bit sig 1)"
    have "signal_loop (x # xs) p frame s = Some (entered p frame sig ?w t s)"
      using x h Cons.prems(1,2,5) by (simp add: upd_task_def entered_def enter_frame_def)
    moreover have "bit ?w n \<longleftrightarrow> bit (pending_signals t) n \<and> n \<noteq> sig \<and> n \<notin> set (takeWhile (\<lambda>n. n \<noteq> sig) (x # xs))" for n
      using x by (simp add: bit_clear)
    ultimately show ?thesis by blast
  next
    case nd: False
    then have f: "find (deliverable t) xs = Some sig" using Cons.prems(4) by simp
    then have ne: "sig \<noteq> x" using Cons.prems(3) by (auto simp: find_Some_iff)
    have d: "distinct xs" using Cons.prems(3) by simp
    show ?thesis
    proof (cases "bit (pending_signals t) x")
      case False
      obtain w where "\<forall>n. bit w n \<longleftrightarrow> bit (pending_signals t) n \<and> n \<noteq> sig \<and> n \<notin> set (takeWhile (\<lambda>n. n \<noteq> sig) xs)"
          "signal_loop xs p frame s = Some (entered p frame sig w t s)"
        using Cons.IH [OF Cons.prems(1,2) d f Cons.prems(5)] by blast
      then show ?thesis using False Cons.prems(1,2) ne by (intro exI [of _ w]) auto
    next
      case True
      then have ign: "signal_handlers t ! x = 1" using nd by (simp add: deliverable_def)
      let ?t = "t\<lparr>pending_signals := pending_signals t AND NOT (push_bit x 1)\<rparr>"
      let ?s = "s\<lparr>tasks := (tasks s)(p \<mapsto> ?t)\<rparr>"
      have "find (deliverable ?t) xs = find (deliverable t) xs"
        using Cons.prems(3) by (intro find_cong) (auto simp: deliverable_def bit_clear)
      then have f': "find (deliverable ?t) xs = Some sig" using f by simp
      have "tasks ?s p = Some ?t" "signal_handlers ?t ! sig \<noteq> 0" using Cons.prems(5) by simp_all
      from Cons.IH [OF this(1) Cons.prems(2) d f' this(2)]
      obtain w where w: "\<forall>n. bit w n \<longleftrightarrow> bit (pending_signals ?t) n \<and> n \<noteq> sig \<and> n \<notin> set (takeWhile (\<lambda>n. n \<noteq> sig) xs)"
          "signal_loop xs p frame ?s = Some (entered p frame sig w ?t ?s)"
        by blast
      have "entered p frame sig w ?t ?s = entered p frame sig w t s" by (simp add: entered_def)
      then show ?thesis using True ign w Cons.prems(1,2) ne
        by (intro exI [of _ w]) (auto simp: upd_task_def Let_def bit_clear)
    qed
  qed
qed simp

lemma takeWhile_upt: "a \<le> k \<Longrightarrow> k < b \<Longrightarrow> set (takeWhile (\<lambda>n. n \<noteq> k) [a..<b]) = {a..<k}"
proof -
  assume "a \<le> k" "k < b"
  then have "[a..<b] = [a..<k] @ k # [Suc k..<b]" by (metis upt_add_eq_append upt_conv_Cons le_add_diff_inverse less_imp_le)
  then show ?thesis by (simp add: takeWhile_append2 takeWhile_append)
qed

lemma check_signals_enters:
  assumes "current_task s = p" and "p \<noteq> NULL" and "tasks s p = Some t" and "t_id t > 1" and "\<not> in_signal_handler t"
    and "find (deliverable t) [1..<MAX_SIG] = Some sig" and "signal_handlers t ! sig \<noteq> 0"
  obtains w where "\<And>n. bit w n \<longleftrightarrow> bit (pending_signals t) n \<and> n \<noteq> sig \<and> (n < sig \<longrightarrow> n = 0)"
    and "check_signals frame s = Some (entered p frame sig w t s)"
proof -
  have sig: "1 \<le> sig" "sig < MAX_SIG" "deliverable t sig" using assms(6) by (auto simp: find_Some_iff)
  then have "pending_signals t \<noteq> 0" by (auto simp: deliverable_def)
  then have c: "check_signals frame s = signal_loop [1..<MAX_SIG] p frame s"
    using assms(1-5) by (simp add: check_signals_def)
  have "distinct [1..<MAX_SIG]" by simp
  from signal_loop_enters [OF assms(3,2) this assms(6,7), of frame] obtain w
    where w: "\<forall>n. bit w n \<longleftrightarrow> bit (pending_signals t) n \<and> n \<noteq> sig \<and> n \<notin> set (takeWhile (\<lambda>n. n \<noteq> sig) [1..<MAX_SIG])"
      "signal_loop [1..<MAX_SIG] p frame s = Some (entered p frame sig w t s)" by blast
  have "bit w n \<longleftrightarrow> bit (pending_signals t) n \<and> n \<noteq> sig \<and> (n < sig \<longrightarrow> n = 0)" for n
    using w(1) takeWhile_upt [OF sig(1,2)] by auto
  then show thesis using w(2) by (intro that) (simp_all add: c)
qed

lemma enter_frame_words:
  "load32 (enter_frame m frame a b c) (frame + 32) = a" "load32 (enter_frame m frame a b c) (frame + 28) = b"
  "load32 (enter_frame m frame a b c) (frame + 16) = c"
  by (simp_all add: enter_frame_def load32_store32_other)

lemma enter_frame_other:
  "16 \<le> unat (x - frame) \<and> unat (x - frame) < 20 \<or> 28 \<le> unat (x - frame) \<and> unat (x - frame) < 36 \<or> enter_frame m frame a b c x = m x"
proof -
  have d: "unat (x - (frame + of_nat n)) = (if n \<le> unat (x - frame) then unat (x - frame) - n else unat (x - frame) + 4294967296 - n)"
    if "n < 4294967296" for n
    using unat_sub_of_nat32 [OF that, of "x - frame"] by (simp add: algebra_simps)
  have s: "unat (x - k) < 4 \<or> store32 m k v x = m x" for k v m
    using store32_other [of x k m v] by linarith
  show ?thesis
    unfolding enter_frame_def
    using d [of 16] d [of 28] d [of 32] s [of "frame + 16" "store32 (store32 m (frame + 32) a) (frame + 28) b" c]
      s [of "frame + 28" "store32 m (frame + 32) a" b] s [of "frame + 32" m a]
    by (auto split: if_splits)
qed

text \<open>
  C29. Signal delivery. Of the pending signals that are not ignored, the one with the lowest number
  interrupts a task that has a handler for it: the interrupted frame is saved in the task, the
  frame continues in the trampoline with the handler and the signal number in its registers, the
  signal is no longer pending and higher ones stay pending; the rest of the frame and of memory
  is unchanged, and so is every other task.
\<close>

theorem signal_delivery:
  assumes "current_task s = p" and "p \<noteq> NULL" and "tasks s p = Some t" and "t_id t > 1" and "\<not> in_signal_handler t"
    and "find (deliverable t) [1..<MAX_SIG] = Some sig" and "signal_handlers t ! sig \<noteq> 0"
  shows "\<exists>s' t'. check_signals frame s = Some s' \<and> tasks s' = (tasks s)(p \<mapsto> t') \<and> in_signal_handler t' \<and>
    sig_saved_frame t' = read_bytes (mem s) frame sizeof_trap_frame \<and>
    (\<forall>n. bit (pending_signals t') n \<longleftrightarrow> bit (pending_signals t) n \<and> n \<noteq> sig \<and> (n < sig \<longrightarrow> n = 0)) \<and>
    load32 (mem s') (frame + 32) = signal_trampoline_entry s \<and> load32 (mem s') (frame + 28) = signal_handlers t ! sig \<and>
    load32 (mem s') (frame + 16) = of_nat sig \<and>
    (\<forall>x. 16 \<le> unat (x - frame) \<and> unat (x - frame) < 20 \<or> 28 \<le> unat (x - frame) \<and> unat (x - frame) < 36 \<or> mem s' x = mem s x)"
proof -
  obtain w where w: "\<And>n. bit w n \<longleftrightarrow> bit (pending_signals t) n \<and> n \<noteq> sig \<and> (n < sig \<longrightarrow> n = 0)"
    "check_signals frame s = Some (entered p frame sig w t s)" using check_signals_enters [OF assms] by blast
  let ?t = "t\<lparr>pending_signals := w, sig_saved_frame := read_bytes (mem s) frame sizeof_trap_frame, in_signal_handler := True\<rparr>"
  show ?thesis
    using w enter_frame_words enter_frame_other
    by (intro exI [of _ "entered p frame sig w t s"] exI [of _ ?t]) (simp add: entered_def)
qed

lemma example_signal:
  "current_task tasking_example = 0x1000" "(0x1000 :: u32) \<noteq> NULL" "tasks tasking_example 0x1000 = Some (task_example 5 0x2000 TASK_RUNNING)"
  "t_id (task_example 5 0x2000 TASK_RUNNING) > 1" "\<not> in_signal_handler (task_example 5 0x2000 TASK_RUNNING)"
  "find (deliverable (task_example 5 0x2000 TASK_RUNNING)) [1..<MAX_SIG] = Some 10"
  "signal_handlers (task_example 5 0x2000 TASK_RUNNING) ! 10 \<noteq> 0"
  by (simp, simp, simp, simp add: task_example_def, simp add: task_example_def, code_simp, code_simp)

theorem signal_delivery_witness:
  "\<exists>s' t'. check_signals 0x6000 tasking_example = Some s' \<and> tasks s' = (tasks tasking_example)(0x1000 \<mapsto> t') \<and>
     load32 (mem s') (0x6000 + 16) = of_nat 10 \<and> \<not> bit (pending_signals t') 10"
  using signal_delivery [OF example_signal, of "0x6000"] by blast

text \<open>
  C30. A signal handler runs once and returns to where the task was: while it runs no other signal is
  delivered, and when it returns through the system call, the frame is again the interrupted one,
  byte by byte, whatever the handler did to memory; nothing outside the frame is touched. A handler
  that returns at once leaves memory as it was before the signal.
\<close>

theorem signal_round_trip:
  assumes "current_task s = p" and "p \<noteq> NULL" and "tasks s p = Some t" and "t_id t > 1" and "\<not> in_signal_handler t"
    and "find (deliverable t) [1..<MAX_SIG] = Some sig" and "signal_handlers t ! sig \<noteq> 0"
    and "check_signals frame s = Some s1" and "current_task s2 = p" and "tasks s2 p = tasks s1 p"
  shows "check_signals frame' s2 = Some s2 \<and>
    (\<exists>s3. sys_sigreturn_impl frame s2 = Some s3 \<and> read_bytes (mem s3) frame sizeof_trap_frame = read_bytes (mem s) frame sizeof_trap_frame \<and>
      (\<forall>x. unat (x - frame) < sizeof_trap_frame \<or> mem s3 x = mem s2 x) \<and> (mem s2 = mem s1 \<longrightarrow> mem s3 = mem s) \<and>
      (\<exists>t3. tasks s3 = (tasks s2)(p \<mapsto> t3) \<and> \<not> in_signal_handler t3))"
proof -
  obtain w where w: "check_signals frame s = Some (entered p frame sig w t s)" by (rule check_signals_enters [OF assms(1-7)])
  let ?t = "t\<lparr>pending_signals := w, sig_saved_frame := read_bytes (mem s) frame sizeof_trap_frame, in_signal_handler := True\<rparr>"
  have s1: "s1 = entered p frame sig w t s" using w assms(8) by simp
  have t2: "tasks s2 p = Some ?t" using assms(10) by (simp add: s1 entered_def)
  then have g: "get_task p s2 = Some ?t" using assms(2) by simp
  then have c: "check_signals frame' s2 = Some s2" using assms(2,9) by (simp add: check_signals_def)
  let ?bs = "read_bytes (mem s) frame sizeof_trap_frame"
  let ?m = "write_bytes (mem s2) frame ?bs"
  let ?s3 = "s2\<lparr>mem := ?m, tasks := (tasks s2)(p \<mapsto> ?t\<lparr>in_signal_handler := False\<rparr>)\<rparr>"
  have r: "sys_sigreturn_impl frame s2 = Some ?s3"
    using g t2 assms(2,9) by (simp add: sys_sigreturn_impl_def upd_task_def get_task_def)
  have m: "?m x = (if unat (x - frame) < sizeof_trap_frame then mem s x else mem s2 x)" for x
    by (simp add: write_bytes_eq read_bytes_def sizeof_trap_frame_def)
  have "?m = mem s" if "mem s2 = mem s1"
  proof
    fix x show "?m x = mem s x"
      using m [of x] that enter_frame_other [of x frame "mem s"] by (auto simp: s1 entered_def sizeof_trap_frame_def)
  qed
  moreover have "read_bytes ?m frame sizeof_trap_frame = ?bs"
    using read_write_bytes [of ?bs "mem s2" frame] by (simp add: sizeof_trap_frame_def)
  ultimately show ?thesis using c r m by (intro conjI exI [of _ ?s3]) auto
qed

theorem signal_round_trip_witness:
  "\<exists>s1 s3. check_signals 0x6000 tasking_example = Some s1 \<and> sys_sigreturn_impl 0x6000 s1 = Some s3 \<and> mem s3 = mem tasking_example"
proof -
  obtain w where w: "check_signals 0x6000 tasking_example = Some (entered 0x1000 0x6000 10 w (task_example 5 0x2000 TASK_RUNNING) tasking_example)"
    by (rule check_signals_enters [OF example_signal])
  have "current_task (entered 0x1000 0x6000 10 w (task_example 5 0x2000 TASK_RUNNING) tasking_example) = 0x1000" by (simp add: entered_def)
  then show ?thesis using signal_round_trip [OF example_signal w _ refl] w by blast
qed

end
