(* ===== verification/Fifo.thy ===== *)
theory Fifo
  imports Prelude
begin

text \<open>
  Bounded first-in first-out queues as an interface. The keyboard's two buffers and the pipes
  provide it; what a client may conclude from it is proved once, here.
\<close>

text \<open>Taking elements out one after the other.\<close>

fun drain :: "('q \<Rightarrow> 'a \<times> 'q) \<Rightarrow> nat \<Rightarrow> 'q \<Rightarrow> 'a list \<times> 'q" where
  "drain get 0 q = ([], q)"
| "drain get (Suc n) q = (let (x, q) = get q; (xs, q) = drain get n q in (x # xs, q))"

section \<open>The interface\<close>

text \<open>
  \<open>inv\<close> is the representation invariant, \<open>content\<close> the queued elements, oldest first, and \<open>cap\<close> the
  capacity. A \<open>put\<close> on a full queue changes nothing.
\<close>

locale fifo =
  fixes inv :: "'q \<Rightarrow> bool"
    and content :: "'q \<Rightarrow> 'a list"
    and cap :: nat
    and put :: "'a \<Rightarrow> 'q \<Rightarrow> 'q"
    and get :: "'q \<Rightarrow> 'a \<times> 'q"
  assumes bounded: "inv q \<Longrightarrow> length (content q) \<le> cap"
    and put_law: "inv q \<Longrightarrow> inv (put x q) \<and>
      content (put x q) = (if length (content q) < cap then content q @ [x] else content q)"
    and get_law: "inv q \<Longrightarrow> content q \<noteq> [] \<Longrightarrow>
      inv (snd (get q)) \<and> fst (get q) = hd (content q) \<and> content (snd (get q)) = tl (content q)"
begin

lemma fold_put_content:
  "inv q \<Longrightarrow> inv (fold put xs q) \<and> content (fold put xs q) = content q @ take (cap - length (content q)) xs"
proof (induction xs arbitrary: q)
  case (Cons x xs)
  have p: "inv (put x q)" "content (put x q) = (if length (content q) < cap then content q @ [x] else content q)"
    using put_law [OF Cons.prems] by auto
  then show ?case
    using Cons.IH [OF p(1)] bounded [OF Cons.prems] by (auto simp: take_Cons' Suc_diff_Suc)
qed simp

lemma drain_content:
  "inv q \<Longrightarrow> n \<le> length (content q) \<Longrightarrow>
   fst (drain get n q) = take n (content q) \<and> inv (snd (drain get n q)) \<and> content (snd (drain get n q)) = drop n (content q)"
proof (induction n arbitrary: q)
  case (Suc n)
  then have ne: "content q \<noteq> []" by auto
  note g = get_law [OF Suc.prems(1) ne]
  have "n \<le> length (content (snd (get q)))" using g Suc.prems(2) by simp
  then show ?case using Suc.IH [of "snd (get q)"] g ne by (cases "content q") (auto simp: Let_def split: prod.splits)
qed simp

text \<open>What goes in comes out, in order, as long as it fits.\<close>

lemma in_order:
  assumes "inv q" and "length (content q) + length xs \<le> cap"
  shows "fst (drain get (length (content q) + length xs) (fold put xs q)) = content q @ xs"
proof -
  have c: "inv (fold put xs q)" "content (fold put xs q) = content q @ xs" using fold_put_content [OF assms(1), of xs] assms(2) by auto
  then show ?thesis using drain_content [OF c(1), of "length (content q) + length xs"] by simp
qed

lemma never_overflows:
  assumes "inv q"
  shows "length (content (fold put xs q)) \<le> cap"
  using fold_put_content [OF assms] bounded by blast

end

end
