(* ===== verification/Input.thy ===== *)
theory Input
  imports Task Fifo
begin

text \<open>
  Input devices and small drivers: the keyboard (\<^verbatim>\<open>drivers/keyboard/keyboardDriver.c\<close>), the mouse
  (\<^verbatim>\<open>drivers/mouse/mouse.c\<close>), the real-time clock (\<^verbatim>\<open>drivers/rtc/rtc.c\<close>), the speaker
  (\<^verbatim>\<open>drivers/speaker/speaker.c\<close>) and the timer chip (\<^verbatim>\<open>drivers/timer/timer.c\<close>).

  A function that waits for another task or an interrupt takes the argument \<open>resume\<close>, which stands
  for everything that runs until the caller continues.
\<close>

section \<open>State\<close>

record 'a shift_buffer =
  sb_data :: "'a list"
  sb_count :: nat

definition BUFFER_SIZE :: nat where "BUFFER_SIZE = 256"

record mouse_state =
  m_x :: int
  m_y :: int
  m_z :: int
  left_button :: u8
  right_button :: u8
  middle_button :: u8

record input = tasking +
  shift_pressed :: bool
  caps_lock :: bool
  ctrl_pressed :: bool
  alt_pressed :: bool
  win_pressed :: bool
  key_buffer :: "u32 shift_buffer"
  scancode_buffer :: "u8 shift_buffer"
  current_layout :: u8
  key_states :: "bool list"
  mouse :: mouse_state
  mouse_cycle :: nat
  mouse_byte :: "u8 list"
  mouse_has_wheel :: bool

section \<open>The key buffers\<close>

text \<open>
  An array with a count, filled at the end and emptied at the front by moving every element down:
  \<^verbatim>\<open>for (i = 1; i < count; i++) buf[i-1] = buf[i];\<close>
\<close>

definition buf_add :: "'a \<Rightarrow> 'a shift_buffer \<Rightarrow> 'a shift_buffer" where
  "buf_add c b =
     (if sb_count b < BUFFER_SIZE then b\<lparr>sb_data := (sb_data b)[sb_count b := c], sb_count := sb_count b + 1\<rparr> else b)"

fun shift_down :: "nat \<Rightarrow> nat \<Rightarrow> 'a list \<Rightarrow> 'a list" where
  "shift_down i 0 xs = xs"
| "shift_down i (Suc n) xs = shift_down (Suc i) n (xs[i - 1 := xs ! i])"

definition buf_get :: "'a::zero shift_buffer \<Rightarrow> 'a \<times> 'a shift_buffer" where
  "buf_get b =
     (if sb_count b > 0 then
        (sb_data b ! 0, b\<lparr>sb_data := shift_down 1 (sb_count b - 1) (sb_data b), sb_count := sb_count b - 1\<rparr>)
      else (0, b))"

definition add_to_buffer :: "u32 \<Rightarrow> 'z input_scheme \<Rightarrow> 'z input_scheme" where
  "add_to_buffer c s = s\<lparr>key_buffer := buf_add c (key_buffer s)\<rparr>"

definition is_buffer_empty :: "'z input_scheme \<Rightarrow> bool" where
  "is_buffer_empty s \<longleftrightarrow> sb_count (key_buffer s) = 0"

definition get_from_buffer :: "'z input_scheme \<Rightarrow> u32 \<times> 'z input_scheme" where
  "get_from_buffer s = (let (c, b) = buf_get (key_buffer s) in (c, s\<lparr>key_buffer := b\<rparr>))"

definition add_scancode_to_buffer :: "u8 \<Rightarrow> 'z input_scheme \<Rightarrow> 'z input_scheme" where
  "add_scancode_to_buffer code s = s\<lparr>scancode_buffer := buf_add code (scancode_buffer s)\<rparr>"

definition is_scancode_buffer_empty :: "'z input_scheme \<Rightarrow> bool" where
  "is_scancode_buffer_empty s \<longleftrightarrow> sb_count (scancode_buffer s) = 0"

definition get_scancode_from_buffer :: "'z input_scheme \<Rightarrow> u8 \<times> 'z input_scheme" where
  "get_scancode_from_buffer s = (let (c, b) = buf_get (scancode_buffer s) in (c, s\<lparr>scancode_buffer := b\<rparr>))"

text \<open>\<^verbatim>\<open>poll_buffer\<close> has the body of \<^verbatim>\<open>get_from_buffer\<close>.\<close>

definition poll_buffer :: "'z input_scheme \<Rightarrow> u32 \<times> 'z input_scheme" where
  "poll_buffer s = get_from_buffer s"

section \<open>Scan codes\<close>

definition get_key_state :: "u8 \<Rightarrow> 'z input_scheme \<Rightarrow> bool" where
  "get_key_state scancode s = (if scancode < 128 then key_states s ! unat scancode else False)"

definition get_letter :: "char \<Rightarrow> char \<Rightarrow> bool \<Rightarrow> bool \<Rightarrow> u32" where
  "get_letter lower upper shift caps = (if shift \<or> caps then of_char upper else of_char lower)"

text \<open>The keys whose character depends on Shift only, and the letter keys.\<close>

definition shift_keys :: "(u8 \<times> char \<times> char) list" where
  "shift_keys = [(0x02, CHR ''1'', CHR ''!''), (0x03, CHR ''2'', CHR 0x40), (0x04, CHR ''3'', CHR ''#''), (0x05, CHR ''4'', CHR ''$''),
     (0x06, CHR ''5'', CHR ''%''), (0x07, CHR ''6'', CHR 0x5E), (0x08, CHR ''7'', CHR ''&''), (0x09, CHR ''8'', CHR ''*''),
     (0x0A, CHR ''9'', CHR ''(''), (0x0B, CHR ''0'', CHR '')''), (0x0C, CHR ''-'', CHR ''_''), (0x0D, CHR ''='', CHR ''+''),
     (0x1A, CHR ''['', CHR ''{''), (0x1B, CHR '']'', CHR ''}''), (0x27, CHR '';'', CHR '':''), (0x28, CHR 0x27, CHR 0x22),
     (0x29, CHR 0x60, CHR ''~''), (0x2B, CHR 0x5C, CHR ''|''), (0x33, CHR '','', CHR ''<''), (0x34, CHR ''.'', CHR ''>''),
     (0x35, CHR ''/'', CHR ''?'')]"

definition letter_keys :: "(u8 \<times> char \<times> char) list" where
  "letter_keys = [(0x10, CHR ''q'', CHR ''Q''), (0x11, CHR ''w'', CHR ''W''), (0x12, CHR ''e'', CHR ''E''), (0x13, CHR ''r'', CHR ''R''),
     (0x14, CHR ''t'', CHR ''T''), (0x15, CHR ''y'', CHR ''Y''), (0x16, CHR ''u'', CHR ''U''), (0x17, CHR ''i'', CHR ''I''),
     (0x18, CHR ''o'', CHR ''O''), (0x19, CHR ''p'', CHR ''P''), (0x1E, CHR ''a'', CHR ''A''), (0x1F, CHR ''s'', CHR ''S''),
     (0x20, CHR ''d'', CHR ''D''), (0x21, CHR ''f'', CHR ''F''), (0x22, CHR ''g'', CHR ''G''), (0x23, CHR ''h'', CHR ''H''),
     (0x24, CHR ''j'', CHR ''J''), (0x25, CHR ''k'', CHR ''K''), (0x26, CHR ''l'', CHR ''L''), (0x2C, CHR ''z'', CHR ''Z''),
     (0x2D, CHR ''x'', CHR ''X''), (0x2E, CHR ''c'', CHR ''C''), (0x2F, CHR ''v'', CHR ''V''), (0x30, CHR ''b'', CHR ''B''),
     (0x31, CHR ''n'', CHR ''N''), (0x32, CHR ''m'', CHR ''M'')]"

definition plain_keys :: "(u8 \<times> u32) list" where
  "plain_keys = [(0x01, 27), (0x0E, 8), (0x1C, 10), (0x39, 32), (0x3B, 21), (0x3C, 22), (0x48, 17), (0x4B, 19), (0x4D, 20), (0x50, 18)]"

definition scancode_to_char :: "u8 \<Rightarrow> 'z input_scheme \<Rightarrow> u32" where
  "scancode_to_char scancode s =
     (if scancode AND 0x80 \<noteq> 0 then 0
      else if scancode = 0x0F then (if win_pressed s then 23 else if alt_pressed s then 24 else 9)
      else case map_of plain_keys scancode of Some c \<Rightarrow> c
      | None \<Rightarrow> (case map_of shift_keys scancode of Some (lo, up) \<Rightarrow> (if shift_pressed s then of_char up else of_char lo)
      | None \<Rightarrow> (case map_of letter_keys scancode of Some (lo, up) \<Rightarrow> get_letter lo up (shift_pressed s) (caps_lock s)
      | None \<Rightarrow> 0)))"

definition scancode_to_char_layout :: "u8 \<Rightarrow> 'z input_scheme \<Rightarrow> u32" where
  "scancode_to_char_layout scancode s = scancode_to_char scancode s"

definition get_keyboard_modifiers :: "'z input_scheme \<Rightarrow> u8" where
  "get_keyboard_modifiers s =
     (if shift_pressed s then 1 else 0) OR (if ctrl_pressed s then 2 else 0) OR (if alt_pressed s then 4 else 0) OR
     (if win_pressed s then 8 else 0) OR (if caps_lock s then 16 else 0)"

section \<open>The keyboard\<close>

text \<open>\<^verbatim>\<open>while (inb(0x64) & 1) inb(0x60);\<close> and \<^verbatim>\<open>while (inb(0x64) & 2);\<close>\<close>

partial_function (option) kbd_drain :: "'z input_scheme \<Rightarrow> 'z input_scheme option" where
  "kbd_drain s = (let (v, s) = inb 0x64 s in if v AND 1 \<noteq> 0 then kbd_drain (snd (inb 0x60 s)) else Some s)"

partial_function (option) kbd_wait :: "'z input_scheme \<Rightarrow> 'z input_scheme option" where
  "kbd_wait s = (let (v, s) = inb 0x64 s in if v AND 2 \<noteq> 0 then kbd_wait s else Some s)"

definition keyboard_init :: "'z input_scheme \<Rightarrow> 'z input_scheme option" where
  "keyboard_init s = do {
     s \<leftarrow> kbd_drain s;
     s \<leftarrow> kbd_wait (outb 0x64 0x20 s);
     let (status, s) = inb 0x60 s;
     let status = (status OR 1) AND NOT 0x10;
     s \<leftarrow> kbd_wait (outb 0x64 0x60 s);
     kbd_drain (outb 0x60 status s) }"

definition keyboard_flush :: "'z input_scheme \<Rightarrow> 'z input_scheme" where
  "keyboard_flush s = s\<lparr>key_buffer := (key_buffer s)\<lparr>sb_count := 0\<rparr>, scancode_buffer := (scancode_buffer s)\<lparr>sb_count := 0\<rparr>, int_flag := True\<rparr>"

definition set_modifier :: "u8 \<Rightarrow> bool \<Rightarrow> 'z input_scheme \<Rightarrow> 'z input_scheme" where
  "set_modifier make_code press s =
     (if make_code = 0x2A \<or> make_code = 0x36 then s\<lparr>shift_pressed := press\<rparr>
      else if make_code = 0x3A \<and> press then s\<lparr>caps_lock := \<not> caps_lock s\<rparr>
      else if make_code = 0x1D then s\<lparr>ctrl_pressed := press\<rparr>
      else if make_code = 0x38 then s\<lparr>alt_pressed := press\<rparr>
      else if make_code = 0x5B then s\<lparr>win_pressed := press\<rparr>
      else s)"

text \<open>The part of the handler after the scan code has been read.\<close>

definition keyboard_event :: "u8 \<Rightarrow> 'z input_scheme \<Rightarrow> 'z input_scheme option" where
  "keyboard_event scancode s =
     (let press = (scancode AND 0x80 = 0); make_code = scancode AND 0x7F;
          s = s\<lparr>key_states := (key_states s)[unat make_code := press]\<rparr>;
          s = set_modifier make_code press s
      in do {
        s \<leftarrow> (if press \<and> ctrl_pressed s \<and> make_code = 0x2E \<and> foreground_task_id s > 1
             then send_signal (foreground_task_id s) 2 s else Some s);
        Some (if press then
                let s = add_scancode_to_buffer make_code s; c = scancode_to_char_layout make_code s in
                if c \<noteq> 0 then add_to_buffer ((c AND 0xFFFFFF) OR push_bit 24 (ucast (get_keyboard_modifiers s))) s else s
              else s) })"

definition keyboard_handler_c :: "'z input_scheme \<Rightarrow> 'z input_scheme option" where
  "keyboard_handler_c s =
     (let (status, s) = inb 0x64 s;
          (status, s) = (if status AND 0x01 = 0 then inb 0x64 s else (status, s))
      in if status AND 0x01 = 0 then Some (snd (inb 0x60 s))
         else let (scancode, s) = inb 0x60 s in keyboard_event scancode s)"

text \<open>
  \<^verbatim>\<open>getch\<close> puts the task to sleep for ten ticks and calls the scheduler while the buffer is empty;
  without a task it halts until the next interrupt.
\<close>

partial_function (option) getch :: "('z input_scheme \<Rightarrow> 'z input_scheme) \<Rightarrow> 'z input_scheme \<Rightarrow> (u32 \<times> 'z input_scheme) option" where
  "getch resume s =
     (if \<not> is_buffer_empty s then (let (c, s) = get_from_buffer s in Some (c, s\<lparr>int_flag := True\<rparr>))
      else let s = s\<lparr>int_flag := True\<rparr> in
        if current_task s \<noteq> NULL \<and> (case get_task (current_task s) s of Some t \<Rightarrow> t_id t > 0 | None \<Rightarrow> False) then
          Option.bind (upd_task (current_task s) (\<lambda>t. t\<lparr>wake_tick := get_ticks s + 10, t_state := TASK_SLEEPING\<rparr>) s) (\<lambda>s.
          Option.bind (task_scheduler s) (\<lambda>(_, s). getch resume (resume s)))
        else getch resume (resume s))"

partial_function (option) wait_scancode_loop :: "('z input_scheme \<Rightarrow> 'z input_scheme) \<Rightarrow> 'z input_scheme \<Rightarrow> 'z input_scheme option" where
  "wait_scancode_loop resume s =
     (if \<not> is_scancode_buffer_empty s then Some s
      else Option.bind (task_scheduler s) (\<lambda>(_, s). wait_scancode_loop resume (resume s)))"

definition wait_scancode :: "('z input_scheme \<Rightarrow> 'z input_scheme) \<Rightarrow> 'z input_scheme \<Rightarrow> (u8 \<times> 'z input_scheme) option" where
  "wait_scancode resume s = do {
     s \<leftarrow> wait_scancode_loop resume (s\<lparr>int_flag := True\<rparr>);
     let (code, s) = get_scancode_from_buffer s;
     Some (code, s\<lparr>int_flag := True\<rparr>) }"

text \<open>
  \<^verbatim>\<open>gets\<close>: the line as typed. A character with a modifier in its top byte is neither a line end nor
  a backspace.
\<close>

partial_function (option) gets_loop :: "('z input_scheme \<Rightarrow> 'z input_scheme) \<Rightarrow> nat \<Rightarrow> string \<Rightarrow> 'z input_scheme \<Rightarrow> (string \<times> 'z input_scheme) option" where
  "gets_loop resume max_len line s =
     Option.bind (getch resume s) (\<lambda>(c, s).
       if c = 10 then Option.bind (printf [CHR 0x0A] [] s) (\<lambda>s. Some (line, s))
       else if c = 8 then
         (if line \<noteq> [] then Option.bind (printf [CHR 0x08, CHR '' '', CHR 0x08] [] s) (\<lambda>s. gets_loop resume max_len (butlast line) s)
          else gets_loop resume max_len line s)
       else if c \<noteq> 0 \<and> int (length line) < int max_len - 1 then
         Option.bind (printf ''%c'' [ArgWord c] s) (\<lambda>s. gets_loop resume max_len (line @ [char_of (unat c)]) s)
       else gets_loop resume max_len line s)"

definition gets :: "('z input_scheme \<Rightarrow> 'z input_scheme) \<Rightarrow> nat \<Rightarrow> 'z input_scheme \<Rightarrow> (string \<times> 'z input_scheme) option" where
  "gets resume max_len s = gets_loop resume max_len [] s"

section \<open>The mouse\<close>

fun mouse_wait_loop :: "nat \<Rightarrow> u8 \<Rightarrow> u8 \<Rightarrow> 'z machine_scheme \<Rightarrow> 'z machine_scheme" where
  "mouse_wait_loop 0 bits want s = s"
| "mouse_wait_loop (Suc timeout) bits want s =
     (let (v, s) = inb 0x64 s in if v AND bits = want then s else mouse_wait_loop timeout bits want s)"

definition mouse_wait :: "u8 \<Rightarrow> 'z machine_scheme \<Rightarrow> 'z machine_scheme" where
  "mouse_wait type s = (if type = 0 then mouse_wait_loop 100000 1 1 s else mouse_wait_loop 100000 2 0 s)"

definition mouse_write :: "u8 \<Rightarrow> 'z machine_scheme \<Rightarrow> 'z machine_scheme" where
  "mouse_write w s = outb 0x60 w (mouse_wait 1 (outb 0x64 0xD4 (mouse_wait 1 s)))"

definition mouse_read :: "'z machine_scheme \<Rightarrow> u8 \<times> 'z machine_scheme" where
  "mouse_read s = inb 0x60 (mouse_wait 0 s)"

definition mouse_command :: "u8 \<Rightarrow> 'z machine_scheme \<Rightarrow> 'z machine_scheme" where
  "mouse_command w s = snd (mouse_read (mouse_write w s))"

definition mouse_init :: "'z input_scheme \<Rightarrow> 'z input_scheme" where
  "mouse_init s =
     (let s = s\<lparr>mouse := (mouse s)\<lparr>m_x := screen_width s div 2, m_y := screen_height s div 2, m_z := 0\<rparr>\<rparr>;
          s = outb 0x64 0xA8 (mouse_wait 1 s);
          s = outb 0x64 0x20 (mouse_wait 1 s);
          (status, s) = inb 0x60 (mouse_wait 0 s);
          status = (status OR 2) AND NOT 0x20;
          s = outb 0x64 0x60 (mouse_wait 1 s);
          s = outb 0x60 status (mouse_wait 1 s);
          s = fold mouse_command [0xF6, 0xF3, 200, 0xF3, 100, 0xF3, 80, 0xF2] s;
          (mouse_id, s) = mouse_read s;
          s = (if mouse_id = 3 \<or> mouse_id = 4 then s\<lparr>mouse_has_wheel := True\<rparr> else s)
      in mouse_command 0xF4 s)"

text \<open>A complete packet.\<close>

definition mouse_packet :: "u8 list \<Rightarrow> 'z input_scheme \<Rightarrow> mouse_state" where
  "mouse_packet b s =
     (let b0 = ucast (b ! 0) :: u32;
          dx = uint (b ! 1) - uint (push_bit 4 b0 AND 0x100);
          dy = uint (b ! 2) - uint (push_bit 3 b0 AND 0x100);
          x = m_x (mouse s) + dx; y = m_y (mouse s) - dy;
          z = (if mouse_has_wheel s then m_z (mouse s) + sint (b ! 3) else m_z (mouse s));
          x = (if x < 0 then 0 else x); y = (if y < 0 then 0 else y);
          x = (if x \<ge> screen_width s then screen_width s - 1 else x);
          y = (if y \<ge> screen_height s then screen_height s - 1 else y)
      in \<lparr>m_x = x, m_y = y, m_z = z, left_button = b ! 0 AND 0x01, right_button = drop_bit 1 (b ! 0 AND 0x02),
          middle_button = drop_bit 2 (b ! 0 AND 0x04)\<rparr>)"

text \<open>\<^verbatim>\<open>mouse_byte\<close> has three elements: the fourth byte of a wheel mouse is stored outside, a fault.\<close>

definition mouse_data :: "u8 \<Rightarrow> 'z input_scheme \<Rightarrow> 'z input_scheme option" where
  "mouse_data data s =
     (if mouse_cycle s = 0 \<and> data AND 0x08 = 0 then Some s
      else if mouse_cycle s \<ge> length (mouse_byte s) then None
      else let s = s\<lparr>mouse_byte := (mouse_byte s)[mouse_cycle s := data], mouse_cycle := mouse_cycle s + 1\<rparr>;
               max_bytes = (if mouse_has_wheel s then 4 else 3)
        in Some (if mouse_cycle s = max_bytes then s\<lparr>mouse := mouse_packet (mouse_byte s) s, mouse_cycle := 0\<rparr> else s))"

definition mouse_handler_c :: "'z input_scheme \<Rightarrow> 'z input_scheme option" where
  "mouse_handler_c s =
     (let (status, s) = inb 0x64 s in
      if status AND 0x01 = 0 \<or> status AND 0x20 = 0 then Some (snd (inb 0x60 s))
      else let (data, s) = inb 0x60 s in mouse_data data s)"

section \<open>Clock, speaker, timer chip\<close>

definition rtc_read :: "u8 \<Rightarrow> 'z machine_scheme \<Rightarrow> u8 \<times> 'z machine_scheme" where
  "rtc_read reg s = inb 0x71 (outb 0x70 reg s)"

definition bcd_to_bin :: "u8 \<Rightarrow> u8" where
  "bcd_to_bin bcd = drop_bit 4 bcd * 10 + (bcd AND 0x0F)"

definition rtc_init :: "'z machine_scheme \<Rightarrow> 'z machine_scheme" where
  "rtc_init s = (let (prev, s) = inb 0x71 (outb 0x70 0x0B s) in outb 0x71 (prev OR 0x02) (outb 0x70 0x0B s))"

record rtc_time =
  rt_second :: u8
  rt_minute :: u8
  rt_hour :: u8
  rt_day :: u8
  rt_month :: u8
  rt_year :: u16

partial_function (option) rtc_wait :: "'z machine_scheme \<Rightarrow> 'z machine_scheme option" where
  "rtc_wait s = (let (v, s) = rtc_read 0x0A s in if v AND 0x80 \<noteq> 0 then rtc_wait s else Some s)"

definition rtc_get_time :: "'z machine_scheme \<Rightarrow> (rtc_time \<times> 'z machine_scheme) option" where
  "rtc_get_time s = do {
     s \<leftarrow> rtc_wait s;
     let (sec, s) = rtc_read 0x00 s;
     let (mnt, s) = rtc_read 0x02 s;
     let (hr, s) = rtc_read 0x04 s;
     let (day, s) = rtc_read 0x07 s;
     let (mon, s) = rtc_read 0x08 s;
     let (yr, s) = rtc_read 0x09 s;
     Some (\<lparr>rt_second = bcd_to_bin sec, rt_minute = bcd_to_bin mnt, rt_hour = bcd_to_bin hr, rt_day = bcd_to_bin day,
            rt_month = bcd_to_bin mon, rt_year = ucast (bcd_to_bin yr)\<rparr>, s) }"

definition beep :: "u32 \<Rightarrow> 'z machine_scheme \<Rightarrow> 'z machine_scheme" where
  "beep frequency s =
     (let frequency = (if frequency = 0 then 1000 else frequency);
          divisor = 1193180 div frequency;
          s = outb 0x42 (ucast (drop_bit 8 divisor AND 0xFF)) (outb 0x42 (ucast (divisor AND 0xFF)) (outb 0x43 0xB6 s));
          (tmp, s) = inb 0x61 s
      in outb 0x61 (tmp OR 0x03) s)"

definition stop_beep :: "'z machine_scheme \<Rightarrow> 'z machine_scheme" where
  "stop_beep s = (let (tmp, s) = inb 0x61 s in outb 0x61 (tmp AND 0xFC) s)"

text \<open>The busy loop between the two has no effect on the state.\<close>

definition beep_timed :: "u32 \<Rightarrow> u32 \<Rightarrow> 'z machine_scheme \<Rightarrow> 'z machine_scheme" where
  "beep_timed frequency duration_ms s = stop_beep (beep frequency s)"

definition timer_install :: "'z machine_scheme \<Rightarrow> 'z machine_scheme" where
  "timer_install s =
     (let divisor = 1193180 div 1000 :: u32
      in outb 0x40 (ucast (drop_bit 8 divisor AND 0xFF)) (outb 0x40 (ucast (divisor AND 0xFF)) (outb 0x43 0x36 s)))"

end
