(* ===== verification/Input_Props.thy ===== *)
theory Input_Props
  imports Input Task_Props
begin

text \<open>
  The keyboard buffers as bounded queues, the order of key strokes, the interrupt key, and the
  bounds of the mouse pointer.
\<close>

section \<open>The buffers are bounded queues\<close>

definition buf_inv :: "'a shift_buffer \<Rightarrow> bool" where
  "buf_inv b \<longleftrightarrow> length (sb_data b) = BUFFER_SIZE \<and> sb_count b \<le> BUFFER_SIZE"

definition buf_content :: "'a shift_buffer \<Rightarrow> 'a list" where
  "buf_content b = take (sb_count b) (sb_data b)"

lemma length_shift_down [simp]: "length (shift_down i n xs) = length xs"
  by (induction i n xs rule: shift_down.induct) simp_all

lemma shift_down_nth:
  "1 \<le> i \<Longrightarrow> i + n \<le> length xs \<Longrightarrow> j < length xs \<Longrightarrow>
   shift_down i n xs ! j = (if i - 1 \<le> j \<and> j < i - 1 + n then xs ! (j + 1) else xs ! j)"
proof (induction i n xs rule: shift_down.induct)
  case (2 i n xs)
  then have "shift_down (Suc i) n (xs[i - 1 := xs ! i]) ! j =
      (if i \<le> j \<and> j < i + n then xs[i - 1 := xs ! i] ! (j + 1) else xs[i - 1 := xs ! i] ! j)" by simp
  then show ?case using 2(2-4) by (auto simp: nth_list_update)
qed auto

lemma shift_down_tl:
  assumes "0 < n" and "n \<le> length xs"
  shows "take (n - 1) (shift_down 1 (n - 1) xs) = tl (take n xs)"
  using assms by (intro nth_equalityI) (auto simp: shift_down_nth nth_tl)

lemma buf_add_content:
  assumes "buf_inv b"
  shows "buf_inv (buf_add x b)"
    and "buf_content (buf_add x b) = (if length (buf_content b) < BUFFER_SIZE then buf_content b @ [x] else buf_content b)"
  using assms by (auto simp: buf_inv_def buf_content_def buf_add_def take_Suc_conv_app_nth)

lemma buf_get_content:
  assumes "buf_inv b" and "buf_content b \<noteq> []"
  shows "buf_inv (snd (buf_get b))" "fst (buf_get b) = hd (buf_content b)" "buf_content (snd (buf_get b)) = tl (buf_content b)"
proof -
  have c: "0 < sb_count b" "sb_count b \<le> length (sb_data b)" using assms by (auto simp: buf_inv_def buf_content_def)
  then show "buf_inv (snd (buf_get b))" "fst (buf_get b) = hd (buf_content b)" "buf_content (snd (buf_get b)) = tl (buf_content b)"
    using assms shift_down_tl [of "sb_count b" "sb_data b"] by (auto simp: buf_inv_def buf_get_def buf_content_def hd_conv_nth)
qed

lemma buf_content_length: "buf_inv b \<Longrightarrow> length (buf_content b) \<le> BUFFER_SIZE"
  by (simp add: buf_inv_def buf_content_def)

interpretation keys: fifo "\<lambda>s :: 'z input_scheme. buf_inv (key_buffer s)" "\<lambda>s. buf_content (key_buffer s)" BUFFER_SIZE add_to_buffer get_from_buffer
  by unfold_locales
    (auto simp: buf_content_length add_to_buffer_def get_from_buffer_def buf_add_content buf_get_content split: prod.splits
      dest: buf_get_content)

interpretation codes: fifo "\<lambda>s :: 'z input_scheme. buf_inv (scancode_buffer s)" "\<lambda>s. buf_content (scancode_buffer s)" BUFFER_SIZE
    add_scancode_to_buffer get_scancode_from_buffer
  by unfold_locales
    (auto simp: buf_content_length add_scancode_to_buffer_def get_scancode_from_buffer_def buf_add_content buf_get_content split: prod.splits
      dest: buf_get_content)

section \<open>Key strokes\<close>

definition kbd_ok :: "'z input_scheme \<Rightarrow> bool" where
  "kbd_ok s \<longleftrightarrow> buf_inv (key_buffer s) \<and> buf_inv (scancode_buffer s)"

fun keystrokes :: "u8 list \<Rightarrow> 'z input_scheme \<Rightarrow> 'z input_scheme option" where
  "keystrokes [] s = Some s"
| "keystrokes (c # cs) s = do { s \<leftarrow> keyboard_event c s; keystrokes cs s }"

text \<open>What the codes mean: the character of every pressed key, with the modifiers held at that moment.\<close>

definition pressed :: "u8 \<Rightarrow> bool" where
  "pressed c \<longleftrightarrow> c AND 0x80 = 0"

definition key_event :: "u8 \<Rightarrow> 'z input_scheme \<Rightarrow> u32 list" where
  "key_event c s =
     (let ch = scancode_to_char_layout (c AND 0x7F) s in
      if pressed c \<and> ch \<noteq> 0 then [(ch AND 0xFFFFFF) OR push_bit 24 (ucast (get_keyboard_modifiers s))] else [])"

fun typed :: "u8 list \<Rightarrow> 'z input_scheme \<Rightarrow> u32 list" where
  "typed [] s = []"
| "typed (c # cs) s = (let s = set_modifier (c AND 0x7F) (pressed c) s in key_event c s @ typed cs s)"

definition same_mods :: "'z input_scheme \<Rightarrow> 'z input_scheme \<Rightarrow> bool" where
  "same_mods s s' \<longleftrightarrow> shift_pressed s = shift_pressed s' \<and> caps_lock s = caps_lock s' \<and> ctrl_pressed s = ctrl_pressed s' \<and>
     alt_pressed s = alt_pressed s' \<and> win_pressed s = win_pressed s'"

lemma same_mods_event:
  assumes "same_mods s s'"
  shows "key_event c s = key_event c s'"
proof -
  have e: "shift_pressed s = shift_pressed s'" "caps_lock s = caps_lock s'" "ctrl_pressed s = ctrl_pressed s'"
    "alt_pressed s = alt_pressed s'" "win_pressed s = win_pressed s'" using assms by (simp_all add: same_mods_def)
  show ?thesis unfolding key_event_def scancode_to_char_layout_def scancode_to_char_def get_keyboard_modifiers_def e ..
qed

lemma same_mods_set: "same_mods s s' \<Longrightarrow> same_mods (set_modifier c b s) (set_modifier c b s')"
  by (simp add: same_mods_def set_modifier_def)

lemma typed_cong: "same_mods s s' \<Longrightarrow> typed cs s = typed cs s'"
proof (induction cs arbitrary: s s')
  case (Cons c cs)
  note m = same_mods_set [OF Cons.prems, of "c AND 0x7F" "pressed c"]
  show ?case using Cons.IH [OF m] same_mods_event [OF m] by (simp add: Let_def)
qed simp

text \<open>Signals change tasks only, and only their signal fields.\<close>

lemma send_signal_ring:
  assumes "ring s ps" and "ready_queue s = hd ps"
  shows "\<exists>ts. send_signal pid sig s = Some (s\<lparr>tasks := ts\<rparr>) \<and> ring (s\<lparr>tasks := ts\<rparr>) ps"
proof (cases "sig < 1 \<or> sig \<ge> int MAX_SIG \<or> pid \<le> 1")
  case True
  then show ?thesis using assms(1) by (intro exI [of _ "tasks s"]) (auto simp: send_signal_def)
next
  case False
  have nn: "ready_queue s \<noteq> NULL" using assms by (cases ps) (auto simp: ring_def)
  let ?P = "\<lambda>t. t_id t = pid \<and> t_state t \<noteq> TASK_DEAD"
  have f: "find_live pid s = Some (find (holds ?P s) ps)"
    unfolding find_live_def by (rule find_task_ring [OF assms])
  show ?thesis
  proof (cases "find (holds ?P s) ps")
    case None
    then show ?thesis using False nn f assms(1) by (intro exI [of _ "tasks s"]) (auto simp: send_signal_def)
  next
    case (Some p)
    then have "p \<in> set ps" by (auto simp: find_Some_iff)
    then obtain t where t: "tasks s p = Some t" "p \<noteq> NULL" using ring_task [OF assms(1)] by blast
    let ?t = "if sig = int SIGKILL then t\<lparr>kill_me := True\<rparr> else t\<lparr>pending_signals := pending_signals t OR push_bit (nat sig) 1\<rparr>"
    have "send_signal pid sig s = Some (s\<lparr>tasks := (tasks s)(p \<mapsto> ?t)\<rparr>)"
      using False nn f Some t by (auto simp: send_signal_def upd_task_def)
    moreover have "ring (s\<lparr>tasks := (tasks s)(p \<mapsto> ?t)\<rparr>) ps"
      using assms(1) t by (subst ring_cong [of ps _ s]) auto
    ultimately show ?thesis by blast
  qed
qed

lemma maybe_signal_ring:
  assumes "ring s ps" and "ready_queue s = hd ps"
  obtains ts where "(if C then send_signal pid sig s else Some s) = Some (s\<lparr>tasks := ts\<rparr>)" and "ring (s\<lparr>tasks := ts\<rparr>) ps"
proof (cases C)
  case True
  then show ?thesis using that send_signal_ring [OF assms, of pid sig] by auto
next
  case False
  then show ?thesis using that [of "tasks s"] assms(1) by simp
qed

lemma ring_tasks_cong: "tasks s' = tasks s \<Longrightarrow> ring s' ps = ring s ps"
  by (rule ring_cong) simp

lemma keyboard_event_step:
  assumes "ring s ps" and "ready_queue s = hd ps"
  obtains s' where "keyboard_event c s = Some s'" and "ring s' ps" and "ready_queue s' = hd ps"
    and "same_mods s' (set_modifier (c AND 0x7F) (pressed c) s)"
    and "key_buffer s' = fold buf_add (key_event c (set_modifier (c AND 0x7F) (pressed c) s)) (key_buffer s)"
    and "scancode_buffer s' = (if pressed c then buf_add (c AND 0x7F) (scancode_buffer s) else scancode_buffer s)"
proof -
  define s1 where "s1 = set_modifier (c AND 0x7F) (pressed c) (s\<lparr>key_states := (key_states s)[unat (c AND 0x7F) := pressed c]\<rparr>)"
  have f1: "tasks s1 = tasks s" "ready_queue s1 = ready_queue s" "key_buffer s1 = key_buffer s" "scancode_buffer s1 = scancode_buffer s"
    by (simp_all add: s1_def set_modifier_def)
  have r1: "ring s1 ps" "ready_queue s1 = hd ps" using assms ring_tasks_cong [OF f1(1)] f1(2) by simp_all
  obtain ts where ts: "(if pressed c \<and> ctrl_pressed s1 \<and> c AND 0x7F = 0x2E \<and> foreground_task_id s1 > 1
      then send_signal (foreground_task_id s1) 2 s1 else Some s1) = Some (s1\<lparr>tasks := ts\<rparr>)" "ring (s1\<lparr>tasks := ts\<rparr>) ps"
    by (rule maybe_signal_ring [OF r1])
  define s3 where "s3 = (if pressed c then add_scancode_to_buffer (c AND 0x7F) (s1\<lparr>tasks := ts\<rparr>) else s1\<lparr>tasks := ts\<rparr>)"
  have "same_mods (s\<lparr>key_states := (key_states s)[unat (c AND 0x7F) := pressed c]\<rparr>) s" by (simp add: same_mods_def)
  from same_mods_set [OF this] have "same_mods s1 (set_modifier (c AND 0x7F) (pressed c) s)" by (simp add: s1_def)
  then have m3: "same_mods s3 (set_modifier (c AND 0x7F) (pressed c) s)" by (simp add: same_mods_def s3_def add_scancode_to_buffer_def)
  have f3: "tasks s3 = ts" "ready_queue s3 = hd ps" "key_buffer s3 = key_buffer s"
    "scancode_buffer s3 = (if pressed c then buf_add (c AND 0x7F) (scancode_buffer s) else scancode_buffer s)"
    using r1 f1 by (simp_all add: s3_def add_scancode_to_buffer_def)
  define s4 where "s4 = fold add_to_buffer (key_event c s3) s3"
  have e: "keyboard_event c s = Some s4"
    unfolding keyboard_event_def Let_def pressed_def [symmetric] s1_def [symmetric] ts(1) Option.bind.simps s4_def s3_def key_event_def
    by (cases "pressed c") simp_all
  have f4: "tasks s4 = tasks s3" "ready_queue s4 = ready_queue s3" "key_buffer s4 = fold buf_add (key_event c s3) (key_buffer s3)"
    "scancode_buffer s4 = scancode_buffer s3" "same_mods s4 s3"
    by (simp_all add: s4_def key_event_def Let_def add_to_buffer_def same_mods_def)
  have r4: "ring s4 ps" using ts(2) ring_cong [of ps s4 "s1\<lparr>tasks := ts\<rparr>"] f4(1) f3(1) by simp
  have m4: "same_mods s4 (set_modifier (c AND 0x7F) (pressed c) s)" using f4(5) m3 by (simp add: same_mods_def)
  show thesis using that [OF e r4 _ m4] f3 f4 same_mods_event [OF m3] by simp
qed

lemma fold_add_to_buffer: "key_buffer (fold add_to_buffer xs s) = fold buf_add xs (key_buffer s)"
  by (induction xs arbitrary: s) (simp_all add: add_to_buffer_def)

lemma fold_add_scancode: "scancode_buffer (fold add_scancode_to_buffer xs s) = fold buf_add xs (scancode_buffer s)"
  by (induction xs arbitrary: s) (simp_all add: add_scancode_to_buffer_def)

lemma keystrokes_buffers:
  assumes "ring s ps" and "ready_queue s = hd ps"
  shows "\<exists>s'. keystrokes cs s = Some s' \<and> key_buffer s' = fold buf_add (typed cs s) (key_buffer s) \<and>
    scancode_buffer s' = fold buf_add (map (\<lambda>c. c AND 0x7F) (filter pressed cs)) (scancode_buffer s)"
  using assms
proof (induction cs arbitrary: s)
  case (Cons c cs)
  obtain s1 where s1: "keyboard_event c s = Some s1" "ring s1 ps" "ready_queue s1 = hd ps"
      "same_mods s1 (set_modifier (c AND 0x7F) (pressed c) s)"
      "key_buffer s1 = fold buf_add (key_event c (set_modifier (c AND 0x7F) (pressed c) s)) (key_buffer s)"
      "scancode_buffer s1 = (if pressed c then buf_add (c AND 0x7F) (scancode_buffer s) else scancode_buffer s)"
    by (rule keyboard_event_step [OF Cons.prems])
  show ?case using Cons.IH [OF s1(2,3)] s1(1,5,6) typed_cong [OF s1(4), of cs] by (cases "pressed c") (simp_all add: Let_def)
qed simp

text \<open>
  C31. Key strokes arrive in order. The handler turns every sequence of scan codes into the characters
  of the pressed keys, each with the modifiers held at that moment, and the pressed keys' codes;
  readers get them oldest first, after what was already waiting. What does not fit into the 256
  places is dropped, never overwriting what waits.
\<close>

theorem keystrokes_in_order:
  assumes "kbd_ok s" and "ring s ps" and "ready_queue s = hd ps"
  shows "\<exists>s'. keystrokes cs s = Some s' \<and> kbd_ok s' \<and>
    buf_content (key_buffer s') = buf_content (key_buffer s) @ take (BUFFER_SIZE - length (buf_content (key_buffer s))) (typed cs s) \<and>
    buf_content (scancode_buffer s') = buf_content (scancode_buffer s) @
      take (BUFFER_SIZE - length (buf_content (scancode_buffer s))) (map (\<lambda>c. c AND 0x7F) (filter pressed cs)) \<and>
    fst (drain poll_buffer (length (buf_content (key_buffer s'))) s') = buf_content (key_buffer s')"
proof -
  obtain s' where s': "keystrokes cs s = Some s'" "key_buffer s' = key_buffer (fold add_to_buffer (typed cs s) s)"
      "scancode_buffer s' = scancode_buffer (fold add_scancode_to_buffer (map (\<lambda>c. c AND 0x7F) (filter pressed cs)) s)"
    using keystrokes_buffers [OF assms(2,3), of cs] by (auto simp: fold_add_to_buffer fold_add_scancode)
  have ok: "buf_inv (key_buffer s)" "buf_inv (scancode_buffer s)" using assms(1) by (simp_all add: kbd_ok_def)
  have k: "buf_inv (key_buffer s')" using keys.fold_put_content [OF ok(1)] s'(2) by simp
  have "poll_buffer = (get_from_buffer :: 'a input_scheme \<Rightarrow> _)" by (simp add: fun_eq_iff poll_buffer_def)
  then have "fst (drain poll_buffer (length (buf_content (key_buffer s'))) s') = buf_content (key_buffer s')"
    using keys.drain_content [OF k, of "length (buf_content (key_buffer s'))"] by simp
  then show ?thesis
    using s' k keys.fold_put_content [OF ok(1)] codes.fold_put_content [OF ok(2)] by (simp add: kbd_ok_def)
qed

definition empty_buffer :: "'a::zero shift_buffer" where
  "empty_buffer = \<lparr>sb_data = replicate BUFFER_SIZE 0, sb_count = 0\<rparr>"

definition input_example :: input where
  "input_example = tasking.extend tasking_example (input.fields False False True False False empty_buffer empty_buffer 0
     (replicate 128 False) \<lparr>m_x = 320, m_y = 240, m_z = 0, left_button = 0, right_button = 0, middle_button = 0\<rparr> 0 [0, 0, 0] False)"

lemma input_example_fields [simp]:
  "tasks input_example = tasks tasking_example" "ready_queue input_example = 0x1000" "foreground_task_id input_example = 5"
  "ctrl_pressed input_example" "key_buffer input_example = empty_buffer" "scancode_buffer input_example = empty_buffer"
  "mouse_has_wheel input_example = False" "mouse_cycle input_example = 0" "mouse_byte input_example = [0, 0, 0]"
  "screen_width input_example = 640" "screen_height input_example = 480" "m_x (mouse input_example) = 320" "m_y (mouse input_example) = 240"
  by (simp_all add: input_example_def tasking.defs input.defs)
    (simp_all add: tasking_example_def vga_example_def video_example_def vga.defs tasking.defs video.defs fat.defs)

lemma input_example_ring: "ring input_example [0x1000, 0x2000, 0x3000]"
  by (simp add: ring_def task_example_def)

lemma input_example_ok: "kbd_ok input_example" "buf_content (empty_buffer :: u32 shift_buffer) = []"
  by (simp_all add: kbd_ok_def buf_inv_def buf_content_def empty_buffer_def)

theorem keystrokes_in_order_witness:
  "\<exists>s'. keystrokes [0x10, 0x90, 0x11] input_example = Some s' \<and>
     buf_content (key_buffer s') = take BUFFER_SIZE (typed [0x10, 0x90, 0x11] input_example)"
  using keystrokes_in_order [OF input_example_ok(1) input_example_ring, of "[0x10, 0x90, 0x11]"] by (auto simp: input_example_ok(2))

section \<open>The interrupt key\<close>

lemma check_signals_default_int:
  assumes "current_task s = p" and "p \<noteq> NULL" and "tasks s p = Some t" and "t_id t > 1" and "\<not> in_signal_handler t"
    and "pending_signals t = 4" and "signal_handlers t ! SIGINT = 0"
  shows "check_signals frame s = Some (s\<lparr>tasks := (tasks s)(p \<mapsto> t\<lparr>pending_signals := 0, kill_me := True\<rparr>)\<rparr>)"
proof -
  have l: "[1..<MAX_SIG] = 1 # 2 # [3..<MAX_SIG]" by (simp add: MAX_SIG_def upt_rec)
  have b: "\<not> bit (4 :: u32) 1" "bit (4 :: u32) 2" by simp_all
  have c: "4 AND NOT (push_bit 2 1) = (0 :: u32)" by code_simp
  show ?thesis
    unfolding check_signals_def l signal_loop.simps
    using assms b c by (simp add: upd_task_def SIGINT_def get_task_def)
qed

text \<open>
  Control-C reaches the foreground task: with the control key held, the code of the key C marks
  the interrupt signal pending in the live task that owns the foreground, and in no other task;
  when this task has no other signal pending and keeps the default action, its next look at its
  signals marks it to be killed.
\<close>

theorem ctrl_c_interrupts_foreground:
  assumes "ring s ps" and "ready_queue s = hd ps" and "ctrl_pressed s" and "foreground_task_id s > 1"
    and "find (holds (\<lambda>t. t_id t = foreground_task_id s \<and> t_state t \<noteq> TASK_DEAD) s) ps = Some p" and "tasks s p = Some t"
  shows "\<exists>s'. keyboard_event 0x2E s = Some s' \<and> tasks s' = (tasks s)(p \<mapsto> t\<lparr>pending_signals := pending_signals t OR 4\<rparr>) \<and>
    (pending_signals t = 0 \<and> \<not> in_signal_handler t \<and> signal_handlers t ! SIGINT = 0 \<longrightarrow>
      check_signals frame (s'\<lparr>current_task := p\<rparr>) =
        Some (s'\<lparr>current_task := p, tasks := (tasks s)(p \<mapsto> t\<lparr>pending_signals := 0, kill_me := True\<rparr>)\<rparr>))"
proof -
  let ?s1 = "s\<lparr>key_states := (key_states s)[46 := True]\<rparr>"
  let ?P = "\<lambda>t. t_id t = foreground_task_id s \<and> t_state t \<noteq> TASK_DEAD"
  let ?t = "t\<lparr>pending_signals := pending_signals t OR 4\<rparr>"
  have p: "p \<in> set ps" "t_id t = foreground_task_id s" using assms(5,6) by (auto simp: find_Some_iff holds_def)
  then have pn: "p \<noteq> NULL" using ring_task [OF assms(1)] by blast
  have nn: "ready_queue s \<noteq> NULL" using assms(1,2) by (cases ps) (auto simp: ring_def)
  have "ring ?s1 ps" using ring_tasks_cong [of ?s1 s ps] assms(1) by simp
  then have "find_live (foreground_task_id s) ?s1 = Some (Some p)"
    unfolding find_live_def using find_task_ring [of ?s1 ps ?P] assms(2,5) by (simp add: holds_def [abs_def])
  then have sig: "send_signal (foreground_task_id s) 2 ?s1 = Some (?s1\<lparr>tasks := (tasks s)(p \<mapsto> ?t)\<rparr>)"
    using assms(4,6) nn pn by (simp add: send_signal_def MAX_SIG_def SIGKILL_def upd_task_def get_task_def)
  have m: "set_modifier 46 True ?s1 = ?s1" by (simp add: set_modifier_def)
  obtain s' where s': "keyboard_event 0x2E s = Some s'" "tasks s' = (tasks s)(p \<mapsto> ?t)"
    using sig m assms(3,4) by (simp add: keyboard_event_def Let_def add_scancode_to_buffer_def add_to_buffer_def)
  moreover have "check_signals frame (s'\<lparr>current_task := p\<rparr>) = Some (s'\<lparr>current_task := p, tasks := (tasks s)(p \<mapsto> t\<lparr>pending_signals := 0, kill_me := True\<rparr>)\<rparr>)"
    if "pending_signals t = 0" "\<not> in_signal_handler t" "signal_handlers t ! SIGINT = 0"
    using check_signals_default_int [of "s'\<lparr>current_task := p\<rparr>" p ?t frame] s'(2) that p(2) pn assms(4) by simp
  ultimately show ?thesis by blast
qed

theorem ctrl_c_interrupts_foreground_witness:
  "\<exists>s'. keyboard_event 0x2E input_example = Some s' \<and> bit (pending_signals (the (tasks s' 0x1000))) 2"
proof -
  have "find (holds (\<lambda>t. t_id t = foreground_task_id input_example \<and> t_state t \<noteq> TASK_DEAD) input_example) [0x1000, 0x2000, 0x3000] = Some 0x1000"
    by (simp add: holds_def task_example_def)
  from ctrl_c_interrupts_foreground [OF input_example_ring _ _ _ this, of "task_example 5 0x2000 TASK_RUNNING"]
  show ?thesis by (auto simp: task_example_def bit_or_iff)
qed

section \<open>The mouse\<close>

definition mouse_ok :: "'z input_scheme \<Rightarrow> bool" where
  "mouse_ok s \<longleftrightarrow> \<not> mouse_has_wheel s \<and> mouse_cycle s < 3 \<and> length (mouse_byte s) = 3 \<and>
     0 \<le> m_x (mouse s) \<and> m_x (mouse s) < screen_width s \<and> 0 \<le> m_y (mouse s) \<and> m_y (mouse s) < screen_height s"

lemma mouse_data_ok: "mouse_ok s \<Longrightarrow> \<exists>s'. mouse_data d s = Some s' \<and> mouse_ok s' \<and> screen_width s' = screen_width s \<and> screen_height s' = screen_height s"
  by (auto simp: mouse_ok_def mouse_data_def mouse_packet_def Let_def)

text \<open>
  C32. The mouse pointer stays on the screen: with a mouse that has no wheel, whatever bytes the
  controller delivers, the handler returns, and the pointer is inside the screen afterwards.
\<close>

theorem mouse_stays_on_screen:
  assumes "mouse_ok s"
  shows "\<exists>s'. mouse_handler_c s = Some s' \<and> mouse_ok s' \<and> screen_width s' = screen_width s \<and> screen_height s' = screen_height s"
proof -
  have i: "mouse_ok (snd (inb p s)) \<and> screen_width (snd (inb p s)) = screen_width s \<and> screen_height (snd (inb p s)) = screen_height s"
    if "mouse_ok s" for p s using that by (simp add: mouse_ok_def inb_def Let_def)
  show ?thesis
    using i [OF assms, of "0x64"] i [of "snd (inb 0x64 s)" "0x60"] mouse_data_ok [of "snd (inb 0x60 (snd (inb 0x64 s)))" "fst (inb 0x60 (snd (inb 0x64 s)))"]
    by (auto simp: mouse_handler_c_def Let_def split: prod.splits)
qed

theorem mouse_stays_on_screen_witness: "\<exists>s'. mouse_handler_c input_example = Some s' \<and> mouse_ok s'"
  using mouse_stays_on_screen [of input_example] by (auto simp: mouse_ok_def)

text \<open>
  A wheel mouse sends four bytes per packet, and \<^verbatim>\<open>mouse_byte\<close> has room for three: the fourth byte of its
  first packet is stored outside the array.
\<close>

theorem mouse_wheel_overruns:
  assumes "mouse_has_wheel s" and "mouse_cycle s = 0" and "length (mouse_byte s) = 3" and "b0 AND 0x08 \<noteq> 0"
  shows "Option.bind (mouse_data b0 s) (\<lambda>s. Option.bind (mouse_data b1 s) (\<lambda>s. Option.bind (mouse_data b2 s) (mouse_data b3))) = None"
  using assms by (simp add: mouse_data_def Let_def)

end
