(* ===== verification/Vfs.thy ===== *)
theory Vfs
  imports Input
begin

text \<open>
  The virtual file system of \<^verbatim>\<open>fs/vfs.c\<close>: the mount table, the device and process files, and the
  dispatch to FAT32. The processor's vendor string, the compilation date and the addresses of the
  network interface are part of the environment: \<open>cpu_vendor\<close>, \<open>build_date\<close>, \<open>netif_addrs\<close>.
\<close>

section \<open>State\<close>

record mount =
  mount_point :: string
  device :: string
  mt_drive_id :: int
  fs_type :: string
  is_active :: bool

record vfs = input +
  mount_table :: "mount list"
  cpu_vendor :: string
  build_date :: string
  netif_addrs :: "u8 list"
  sys_log_buffer :: u32

definition MAX_MOUNTS :: nat where "MAX_MOUNTS = 16"

definition dev_files :: "string list" where
  "dev_files = [''stdin'', ''stdout'', ''stderr'', ''null'', ''random'', ''urandom'', ''zero'']"

definition proc_files :: "string list" where
  "proc_files = [''meminfo'', ''cpuinfo'', ''version'', ''uptime'', ''klog'', ''disks'', ''net'']"

section \<open>Mounting\<close>

fun free_mount :: "mount list \<Rightarrow> nat \<Rightarrow> nat option" where
  "free_mount [] i = None"
| "free_mount (m # ms) i = (if \<not> is_active m then Some i else free_mount ms (Suc i))"

definition device_drive :: "string \<Rightarrow> int" where
  "device_drive dev =
     (if strncmp dev ''/dev/sd'' 7 = 0 \<or> strncmp dev ''/dev/hd'' 7 = 0
      then (case char_at dev 7 of Some c \<Rightarrow> schar c - schar (CHR ''a'') | None \<Rightarrow> -1) else -1)"

definition vfs_mount :: "string \<Rightarrow> string \<Rightarrow> string \<Rightarrow> 'z vfs_scheme \<Rightarrow> (int \<times> 'z vfs_scheme) option" where
  "vfs_mount dev point fstype s =
     (let drive_id = device_drive dev in
      if drive_id < 0 \<or> drive_id \<ge> sys_drive_count s then Some (-1, s)
      else if strcmp fstype ''fat32'' \<noteq> 0 then Some (-3, s)
      else let (r, s) = fat32_mount drive_id s in
        if r \<noteq> 0 then Some (-2, s)
        else case free_mount (mount_table s) 0 of
          None \<Rightarrow> Some (-4, s)
        | Some i \<Rightarrow> do {
            mp \<leftarrow> strcpy 64 point;
            dv \<leftarrow> strcpy 64 dev;
            ft \<leftarrow> strcpy 16 fstype;
            let s = s\<lparr>mount_table := (mount_table s)[i :=
                  \<lparr>mount_point = mp, device = dv, mt_drive_id = drive_id, fs_type = ft, is_active = True\<rparr>]\<rparr>;
            msg \<leftarrow> strcat 128 ''[VFS] Mounted '' dev;
            msg \<leftarrow> strcat 128 msg '' on '';
            msg \<leftarrow> strcat 128 msg point;
            s \<leftarrow> klog msg s;
            Some (0, s) })"

fun unmount_loop :: "mount list \<Rightarrow> string \<Rightarrow> nat \<Rightarrow> nat option" where
  "unmount_loop [] point i = None"
| "unmount_loop (m # ms) point i =
     (if is_active m \<and> strcmp (mount_point m) point = 0 then Some i else unmount_loop ms point (Suc i))"

definition vfs_unmount :: "string \<Rightarrow> 'z vfs_scheme \<Rightarrow> int \<times> 'z vfs_scheme" where
  "vfs_unmount point s =
     (case unmount_loop (mount_table s) point 0 of
        Some i \<Rightarrow> (0, s\<lparr>mount_table := (mount_table s)[i := (mount_table s ! i)\<lparr>is_active := False\<rparr>]\<rparr>)
      | None \<Rightarrow> (-1, s))"

text \<open>A mount point that is the path or a directory prefix of it.\<close>

definition mount_matches :: "string \<Rightarrow> mount \<Rightarrow> bool" where
  "mount_matches path m \<longleftrightarrow> is_active m \<and>
     (let m_len = strlen (mount_point m) in
      strncmp path (mount_point m) m_len = 0 \<and>
      (char_at path m_len = Some (CHR ''/'') \<or> char_at path m_len = Some (CHR 0x00) \<or> strcmp (mount_point m) ''/'' = 0))"

fun best_mount :: "string \<Rightarrow> mount list \<Rightarrow> mount option \<Rightarrow> nat \<Rightarrow> mount option" where
  "best_mount path [] best best_len = best"
| "best_mount path (m # ms) best best_len =
     (if mount_matches path m \<and> strlen (mount_point m) > best_len
      then best_mount path ms (Some m) (strlen (mount_point m))
      else best_mount path ms best best_len)"

text \<open>The drive and the path on it.\<close>

definition vfs_resolve_mount :: "string \<Rightarrow> 'z vfs_scheme \<Rightarrow> (int \<times> string) option" where
  "vfs_resolve_mount path s =
     (case best_mount path (mount_table s) None 0 of
        None \<Rightarrow> None
      | Some m \<Rightarrow> Some (mt_drive_id m,
          if strcmp (mount_point m) ''/'' = 0 then path
          else let relative_path = drop (strlen (mount_point m)) path in if relative_path = [] then ''/'' else relative_path))"

fun mount_root :: "nat list \<Rightarrow> 'z vfs_scheme \<Rightarrow> (bool \<times> 'z vfs_scheme) option" where
  "mount_root [] s = Some (False, s)"
| "mount_root (i # is) s = do {
     let ty = dr_type (sys_drives s ! i);
     devname \<leftarrow> sprintf 16 (if ty = DRIVE_TYPE_AHCI \<or> ty = DRIVE_TYPE_RAMDISK then ''/dev/sd%c'' else ''/dev/hd%c'')
       [ArgWord (of_char (CHR ''a'') + of_nat i)];
     (r, s) \<leftarrow> vfs_mount devname ''/'' ''fat32'' s;
     if r = 0 then Some (True, s) else mount_root is s }"

definition vfs_init :: "'z vfs_scheme \<Rightarrow> 'z vfs_scheme option" where
  "vfs_init s = do {
     let s = s\<lparr>mount_table := map (\<lambda>m. m\<lparr>is_active := False\<rparr>) (mount_table s)\<rparr>;
     s \<leftarrow> klog ''[VFS] Virtual File System initialized.'' s;
     (root_mounted, s) \<leftarrow> mount_root [0..<nat (sys_drive_count s)] s;
     if \<not> root_mounted then klog ''[VFS] WARNING: Could not find any FAT32 drive to mount as Root (/)!'' s else Some s }"

section \<open>The process files\<close>

definition put_str :: "u32 \<Rightarrow> string \<Rightarrow> 'z machine_scheme \<Rightarrow> 'z machine_scheme" where
  "put_str a str s = s\<lparr>mem := write_bytes (mem s) a (map byte_of str @ [0])\<rparr>"

fun proc_disks :: "(nat \<times> drive_info) list \<Rightarrow> string \<Rightarrow> string option" where
  "proc_disks [] buf = Some buf"
| "proc_disks ((i, d) # ds) buf = do {
     dev_name \<leftarrow> sprintf 8 ''sd%c'' [ArgWord (of_char (CHR ''a'') + of_nat i)];
     let type_str = (case dr_type d of DRIVE_TYPE_AHCI \<Rightarrow> ''AHCI'' | DRIVE_TYPE_ATA \<Rightarrow> ''IDE '' | DRIVE_TYPE_RAMDISK \<Rightarrow> ''RAM ''
           | DRIVE_TYPE_NONE \<Rightarrow> ''UNK '');
     line \<leftarrow> sprintf 128 (''%s'' @ [CHR 0x09] @ ''%s'' @ [CHR 0x09] @ ''%s'' @ [CHR 0x0A])
       [ArgStr (Some dev_name), ArgStr (Some type_str), ArgStr (Some (dr_name d))];
     buf \<leftarrow> strcat 1024 buf line;
     proc_disks ds buf }"

definition proc_text :: "string \<Rightarrow> 'z vfs_scheme \<Rightarrow> (string \<times> 'z vfs_scheme) option" where
  "proc_text path s =
     (if strcmp path ''/proc/meminfo'' = 0 then do {
        (used, s) \<leftarrow> get_used_memory s;
        let used = used div 1024;
        let total = get_total_memory div 1024;
        Some (''MemTotal:  '' @ itoa total 10 @ '' kB'' @ [CHR 0x0A] @ ''MemFree:   '' @ itoa (total - used) 10 @ '' kB'' @ [CHR 0x0A], s) }
      else if strcmp path ''/proc/cpuinfo'' = 0 then do {
        buf \<leftarrow> strcat 1024 (''vendor_id'' @ [CHR 0x09] @ '': '') (take 12 (cpu_vendor s));
        Some (buf @ [CHR 0x0A], s) }
      else if strcmp path ''/proc/version'' = 0 then do {
        buf \<leftarrow> sprintf 1024 (''%s version %s (Compiled on %s)'' @ [CHR 0x0A])
          [ArgStr (Some ''8086-OS''), ArgStr (Some ''0.9.8-beta''), ArgStr (Some (build_date s))];
        Some (buf, s) }
      else if strcmp path ''/proc/uptime'' = 0 then Some (itoa (get_ticks s div 1000) 10 @ '' seconds'' @ [CHR 0x0A], s)
      else if strcmp path ''/proc/disks'' = 0 then do {
        buf \<leftarrow> proc_disks (enumerate 0 (take (nat (sys_drive_count s)) (sys_drives s)))
          (''NAME'' @ [CHR 0x09] @ ''TYPE'' @ [CHR 0x09] @ ''DESCRIPTION'' @ [CHR 0x0A]);
        Some (buf, s) }
      else if strcmp path ''/proc/net'' = 0 then do {
        buf \<leftarrow> sprintf 1024 (''eth0'' @ [CHR 0x0A] @ '' IP Address  : %d.%d.%d.%d'' @ [CHR 0x0A] @ '' Subnet Mask : %d.%d.%d.%d'' @ [CHR 0x0A]
            @ '' Gateway     : %d.%d.%d.%d'' @ [CHR 0x0A]) (map (\<lambda>b. ArgWord (ucast b)) (netif_addrs s));
        Some (buf, s) }
      else Some ([], s))"

section \<open>Reading and writing\<close>

definition vfs_read :: "('z vfs_scheme \<Rightarrow> 'z vfs_scheme) \<Rightarrow> string \<Rightarrow> u32 \<Rightarrow> 'z vfs_scheme \<Rightarrow> (int \<times> 'z vfs_scheme) option" where
  "vfs_read resume path buffer s =
     (if strcmp path ''/dev/stdin'' = 0 then do {
        (c, s) \<leftarrow> getch resume s;
        Some (1, s\<lparr>mem := (mem s)(buffer := ucast c, buffer + 1 := 0)\<rparr>) }
      else if strcmp path ''/dev/urandom'' = 0 \<or> strcmp path ''/dev/random'' = 0 then
        (let (v, s) = random s in Some (1, s\<lparr>mem := (mem s)(buffer := ucast (v mod 256))\<rparr>))
      else if strcmp path ''/dev/zero'' = 0 then Some (1, s\<lparr>mem := (mem s)(buffer := 0)\<rparr>)
      else if strcmp path ''/dev/null'' = 0 \<or> strcmp path ''/dev/stdout'' = 0 \<or> strcmp path ''/dev/stderr'' = 0 then Some (0, s)
      else if strncmp path ''/proc/'' 6 = 0 then
        (if strcmp path ''/proc/klog'' = 0 then Some (int (length (sys_log s)), put_str buffer (sys_log s) s)
         else do { (buf, s) \<leftarrow> proc_text path s; Some (int (strlen buf), put_str buffer buf s) })
      else case vfs_resolve_mount path s of
        Some (drive_id, rel_path) \<Rightarrow> fat32_read_file drive_id rel_path buffer s
      | None \<Rightarrow> Some (-1, s))"

fun put_bytes :: "nat \<Rightarrow> u32 \<Rightarrow> 'z vfs_scheme \<Rightarrow> 'z vfs_scheme option" where
  "put_bytes 0 a s = Some s"
| "put_bytes (Suc n) a s = do { s \<leftarrow> gfx_putc (ucast (mem s a)) s; put_bytes n (a + 1) s }"

definition vfs_write :: "string \<Rightarrow> u32 \<Rightarrow> u32 \<Rightarrow> 'z vfs_scheme \<Rightarrow> (int \<times> 'z vfs_scheme) option" where
  "vfs_write path buffer n s =
     (if strcmp path ''/dev/stdout'' = 0 \<or> strcmp path ''/dev/stderr'' = 0 then do {
        s \<leftarrow> put_bytes (unat n) buffer s; Some (sint n, s) }
      else if strcmp path ''/dev/null'' = 0 then Some (sint n, s)
      else if strncmp path ''/dev/'' 5 = 0 \<or> strncmp path ''/proc/'' 6 = 0 then Some (-1, s)
      else case vfs_resolve_mount path s of
        Some (drive_id, rel_path) \<Rightarrow> fat32_write_file drive_id rel_path buffer n s
      | None \<Rightarrow> Some (-1, s))"

definition vfs_get_size :: "string \<Rightarrow> 'z vfs_scheme \<Rightarrow> (int \<times> 'z vfs_scheme) option" where
  "vfs_get_size path s =
     (if strncmp path ''/dev/'' 5 = 0 then Some (1, s)
      else if strcmp path ''/proc/klog'' = 0 then Some (int (length (sys_log s)), s)
      else if strncmp path ''/proc/'' 6 = 0 then Some (512, s)
      else case vfs_resolve_mount path s of
        Some (drive_id, rel_path) \<Rightarrow> fat32_get_file_size drive_id rel_path s
      | None \<Rightarrow> Some (-1, s))"

text \<open>
  The type of a path: \<open>Some\<close> for return value 1 (the inner option is what was stored in the output
  parameter), \<open>None\<close> for return value 0.
\<close>

definition vfs_get_attr :: "string \<Rightarrow> 'z vfs_scheme \<Rightarrow> (u8 option option \<times> 'z vfs_scheme) option" where
  "vfs_get_attr path s =
     (if strcmp path ''/dev'' = 0 \<or> strcmp path ''/dev/'' = 0 \<or> strcmp path ''/proc'' = 0 \<or> strcmp path ''/proc/'' = 0
      then Some (Some (Some VFS_ATTR_DIR), s)
      else if \<exists>f\<in>set dev_files. strcmp path (''/dev/'' @ f) = 0 then Some (Some (Some VFS_ATTR_DEV), s)
      else if strncmp path ''/dev/sd'' 7 = 0 \<and> (case char_at path 7 of
          Some c \<Rightarrow> schar c - schar (CHR ''a'') \<ge> 0 \<and> schar c - schar (CHR ''a'') < sys_drive_count s | None \<Rightarrow> False)
      then Some (Some (Some VFS_ATTR_DEV), s)
      else if \<exists>f\<in>set proc_files. strcmp path (''/proc/'' @ f) = 0 then Some (Some (Some VFS_ATTR_FILE), s)
      else case vfs_resolve_mount path s of
        Some (drive_id, rel_path) \<Rightarrow> do {
          ((cluster, type, _), s) \<leftarrow> fat32_get_cluster_for_path drive_id rel_path s;
          Some (if cluster = 0xFFFFFFFF then None else Some type, s) }
      | None \<Rightarrow> Some (None, s))"

section \<open>Listing\<close>

partial_function (option) count_entries :: "int \<Rightarrow> string \<Rightarrow> int \<Rightarrow> 'z vfs_scheme \<Rightarrow> (int \<times> 'z vfs_scheme) option" where
  "count_entries drive_id rel_path n s =
     Option.bind (fat32_readdir drive_id rel_path n s) (\<lambda>(r, s).
       case r of Some _ \<Rightarrow> count_entries drive_id rel_path (n + 1) s | None \<Rightarrow> Some (n, s))"

definition other_mounts :: "mount list \<Rightarrow> mount list" where
  "other_mounts ms = filter (\<lambda>m. is_active m \<and> strcmp (mount_point m) ''/'' \<noteq> 0) ms"

definition readdir_root :: "int \<Rightarrow> string \<Rightarrow> int \<Rightarrow> 'z vfs_scheme \<Rightarrow> (vfs_dirent option \<times> 'z vfs_scheme) option" where
  "readdir_root drive_id rel_path index s = do {
     (r, s) \<leftarrow> fat32_readdir drive_id rel_path index s;
     case r of Some d \<Rightarrow> Some (Some d, s)
     | None \<Rightarrow> do {
         (fat_count, s) \<leftarrow> count_entries drive_id rel_path 0 s;
         let dir = (\<lambda>name. \<lparr>d_name = name, d_size = 0, d_type = VFS_ATTR_DIR\<rparr>);
         if index = fat_count then Some (Some (dir ''dev''), s)
         else if index = fat_count + 1 then Some (Some (dir ''proc''), s)
         else let m_idx = index - (fat_count + 2); ms = other_mounts (mount_table s) in
           if 0 \<le> m_idx \<and> m_idx < int (length ms) then Some (Some (dir (tl (mount_point (ms ! nat m_idx)))), s)
           else Some (None, s) } }"

definition vfs_readdir :: "string \<Rightarrow> int \<Rightarrow> 'z vfs_scheme \<Rightarrow> (vfs_dirent option \<times> 'z vfs_scheme) option" where
  "vfs_readdir path index s =
     (let ndev = int (length dev_files) in
      if strcmp path ''/dev'' = 0 \<or> strcmp path ''/dev/'' = 0 then
        (if index < 0 then None
         else if index < ndev then Some (Some \<lparr>d_name = dev_files ! nat index, d_size = 0, d_type = VFS_ATTR_DEV\<rparr>, s)
         else if index < ndev + sys_drive_count s then do {
           name \<leftarrow> sprintf 64 ''sd%c'' [ArgWord (of_char (CHR ''a'') + word_of_int (index - ndev))];
           Some (Some \<lparr>d_name = name, d_size = 0, d_type = VFS_ATTR_DEV\<rparr>, s) }
         else Some (None, s))
      else if strcmp path ''/proc'' = 0 \<or> strcmp path ''/proc/'' = 0 then
        (if index < 0 then None
         else if index \<ge> int (length proc_files) then Some (None, s)
         else Some (Some \<lparr>d_name = proc_files ! nat index, d_size = 0, d_type = VFS_ATTR_FILE\<rparr>, s))
      else case vfs_resolve_mount path s of
        Some (drive_id, rel_path) \<Rightarrow>
          if strcmp path ''/'' = 0 then readdir_root drive_id rel_path index s
          else fat32_readdir drive_id rel_path index s
      | None \<Rightarrow> Some (None, s))"

section \<open>Creating and deleting\<close>

definition vfs_mkdir :: "string \<Rightarrow> 'z vfs_scheme \<Rightarrow> (int \<times> 'z vfs_scheme) option" where
  "vfs_mkdir path s =
     (if strncmp path ''/dev'' 4 = 0 \<or> strncmp path ''/proc'' 5 = 0 then Some (-1, s)
      else case vfs_resolve_mount path s of
        Some (drive_id, rel_path) \<Rightarrow> fat32_mkdir drive_id rel_path s
      | None \<Rightarrow> Some (-1, s))"

definition vfs_delete :: "string \<Rightarrow> 'z vfs_scheme \<Rightarrow> (int \<times> 'z vfs_scheme) option" where
  "vfs_delete path s =
     (if strncmp path ''/dev'' 4 = 0 \<or> strncmp path ''/proc'' 5 = 0 then Some (-1, s)
      else case vfs_resolve_mount path s of
        Some (drive_id, rel_path) \<Rightarrow> fat32_delete_file drive_id rel_path s
      | None \<Rightarrow> Some (-1, s))"

text \<open>
  The directories above the path, created from the top. \<open>attr\<close> is the output parameter, which the
  test reads even when \<^verbatim>\<open>vfs_get_attr\<close> left it as it was.
\<close>

fun ensure_dirs :: "nat list \<Rightarrow> string \<Rightarrow> u8 option \<Rightarrow> 'z vfs_scheme \<Rightarrow> (bool \<times> 'z vfs_scheme) option" where
  "ensure_dirs [] path attr s = Some (True, s)"
| "ensure_dirs (i # is) path attr s =
     (if path ! i = CHR ''/'' then do {
        let temp_path = take i path;
        (r, s) \<leftarrow> vfs_get_attr temp_path s;
        case r of
          None \<Rightarrow> do {
            (k, s) \<leftarrow> vfs_mkdir temp_path s;
            if k \<noteq> 1 then Some (False, s) else ensure_dirs is path attr s }
        | Some a \<Rightarrow> do {
            let attr = (case a of Some v \<Rightarrow> Some v | None \<Rightarrow> attr);
            v \<leftarrow> attr;
            if v \<noteq> VFS_ATTR_DIR then Some (False, s) else ensure_dirs is path attr s } }
      else ensure_dirs is path attr s)"

text \<open>Nothing is read from the buffer of the final write, whose size is 0.\<close>

definition vfs_ensure_file_exists :: "string \<Rightarrow> 'z vfs_scheme \<Rightarrow> (int \<times> 'z vfs_scheme) option" where
  "vfs_ensure_file_exists full_path s = do {
     (r, s) \<leftarrow> vfs_get_attr full_path s;
     case r of
       Some a \<Rightarrow> do { v \<leftarrow> a; Some (if v = VFS_ATTR_FILE then 0 else -1, s) }
     | None \<Rightarrow>
         if strlen full_path \<ge> 256 then Some (-1, s)
         else do {
           (ok, s) \<leftarrow> ensure_dirs [1..<strlen full_path] full_path None s;
           if \<not> ok then Some (-1, s)
           else do { (w, s) \<leftarrow> vfs_write full_path 0 0 s; Some (if w \<ge> 0 then 1 else -1, s) } } }"

section \<open>Files the kernel keeps\<close>

text \<open>The log is saved from its array in memory.\<close>

definition klog_save :: "'z vfs_scheme \<Rightarrow> 'z vfs_scheme option" where
  "klog_save s = do {
     let s = put_str (sys_log_buffer s) (sys_log s) s;
     (_, s) \<leftarrow> vfs_write ''/sys.log'' (sys_log_buffer s) (of_nat (length (sys_log s))) s;
     Some s }"

definition config_save :: "string \<Rightarrow> (string \<times> string) list \<Rightarrow> 'z vfs_scheme \<Rightarrow> 'z vfs_scheme option" where
  "config_save filename cfg s = do {
     (out_buffer, s) \<leftarrow> kmalloc 4096 s;
     let text = config_text cfg;
     if out_buffer = NULL \<or> length text > 4096 then None
     else do {
       let s = s\<lparr>mem := write_bytes (mem s) out_buffer (map byte_of text)\<rparr>;
       (_, s) \<leftarrow> vfs_write filename out_buffer (of_nat (length text)) s;
       kfree out_buffer s } }"

end
