(* ===== verification/Vfs_Props.thy ===== *)
theory Vfs_Props
  imports Vfs Task_Props
begin

text \<open>
  Path resolution: the mount with the longest mount point that is a directory prefix of the path.
\<close>

section \<open>Mount points as prefixes\<close>

definition under :: "string \<Rightarrow> string \<Rightarrow> bool" where
  "under path mp \<longleftrightarrow> (\<exists>rest. path = mp @ rest \<and> (mp = ''/'' \<or> rest = [] \<or> hd rest = CHR ''/''))"

definition mounts_ok :: "mount list \<Rightarrow> bool" where
  "mounts_ok ms \<longleftrightarrow> (\<forall>m \<in> set ms. nul_free (mount_point m) \<and> mount_point m \<noteq> [])"

lemma char_at_rest: "char_at (mp @ rest) (length mp) = Some (if rest = [] then CHR 0x00 else hd rest)"
  by (auto simp: char_at_def nth_append hd_conv_nth)

lemma mount_matches_under:
  assumes "nul_free path" and "nul_free (mount_point m)"
  shows "mount_matches path m \<longleftrightarrow> is_active m \<and> under path (mount_point m)"
proof (cases "take (length (mount_point m)) path = mount_point m")
  case True
  then obtain rest where path: "path = mount_point m @ rest" by (metis append_take_drop_id)
  have "hd rest \<noteq> CHR 0x00 \<or> rest = []" using assms(1) path by (cases rest) (auto simp: nul_free_def)
  moreover have "strcmp (mount_point m) ''/'' = 0 \<longleftrightarrow> mount_point m = ''/''"
    using assms(2) by (intro strcmp_0_iff) (auto simp: nul_free_def)
  moreover have "strncmp path (mount_point m) (length (mount_point m)) = 0" using True assms strncmp_0_iff by simp
  ultimately show ?thesis
    using path char_at_rest [of "mount_point m" rest] by (auto simp: mount_matches_def under_def strlen_def)
next
  case False
  then have "\<not> under path (mount_point m)" by (auto simp: under_def)
  then show ?thesis using False strncmp_0_iff [OF assms(2,1)] by (simp add: mount_matches_def strlen_def Let_def)
qed

text \<open>The loop keeps the first of the longest matches.\<close>

lemma best_mount_longest:
  "best_mount path ms best len = (if \<forall>m \<in> set ms. mount_matches path m \<longrightarrow> strlen (mount_point m) \<le> len then best
     else best_mount path ms None len)"
proof (induction ms arbitrary: best len)
  case (Cons m ms)
  show ?case
  proof (cases "mount_matches path m \<and> strlen (mount_point m) > len")
    case False
    then show ?thesis using Cons.IH [of best len] by auto
  qed auto
qed simp

lemma best_mount_Some:
  assumes "best_mount path ms None len = Some m"
  shows "m \<in> set ms \<and> mount_matches path m \<and> len < strlen (mount_point m) \<and>
    (\<forall>m' \<in> set ms. mount_matches path m' \<longrightarrow> strlen (mount_point m') \<le> strlen (mount_point m))"
  using assms
proof (induction ms arbitrary: len)
  case (Cons a ms)
  show ?case
  proof (cases "mount_matches path a \<and> strlen (mount_point a) > len")
    case True
    let ?l = "strlen (mount_point a)"
    show ?thesis
    proof (cases "\<forall>m \<in> set ms. mount_matches path m \<longrightarrow> strlen (mount_point m) \<le> ?l")
      case all: True
      then have "m = a" using Cons.prems True best_mount_longest [of path ms "Some a" ?l] by simp
      then show ?thesis using True all by auto
    next
      case False
      have "best_mount path ms (Some a) ?l = best_mount path ms None ?l"
        by (subst best_mount_longest) (rule if_not_P [OF False])
      then have "best_mount path ms None ?l = Some m" using Cons.prems True by simp
      from Cons.IH [OF this] show ?thesis using True by auto
    qed
  next
    case False
    then have "best_mount path ms None len = Some m" using Cons.prems by auto
    from Cons.IH [OF this] show ?thesis using False by auto
  qed
qed simp

lemma best_mount_None:
  "best_mount path ms None len = None \<longleftrightarrow> (\<forall>m \<in> set ms. mount_matches path m \<longrightarrow> strlen (mount_point m) \<le> len)"
proof (induction ms arbitrary: len)
  case (Cons a ms)
  show ?case
  proof (cases "mount_matches path a \<and> strlen (mount_point a) > len")
    case True
    let ?l = "strlen (mount_point a)"
    have "best_mount path ms (Some a) ?l \<noteq> None"
      using best_mount_longest [of path ms "Some a" ?l] Cons.IH [of ?l] by (auto split: if_splits)
    then show ?thesis using True by auto
  qed (use Cons.IH in auto)
qed simp

text \<open>
  C33. A path is resolved on the active mount whose mount point is its longest directory prefix: the
  drive is that mount's, and the path on it is what follows the mount point (the whole path
  for the root, \<open>/\<close> when nothing follows). It is not resolved exactly when no active mount
  point is a directory prefix of it.
\<close>

theorem resolve_longest_prefix:
  assumes "nul_free path" and "mounts_ok (mount_table s)"
  shows "case vfs_resolve_mount path s of
      None \<Rightarrow> \<forall>m \<in> set (mount_table s). \<not> (is_active m \<and> under path (mount_point m))
    | Some (drive, rel) \<Rightarrow> \<exists>m \<in> set (mount_table s). is_active m \<and> under path (mount_point m) \<and> mt_drive_id m = drive \<and>
        (\<forall>m' \<in> set (mount_table s). is_active m' \<and> under path (mount_point m') \<longrightarrow> length (mount_point m') \<le> length (mount_point m)) \<and>
        (if mount_point m = ''/'' then rel = path else if path = mount_point m then rel = ''/'' else path = mount_point m @ rel)"
proof -
  have match: "mount_matches path m \<longleftrightarrow> is_active m \<and> under path (mount_point m)" if "m \<in> set (mount_table s)" for m
    using that assms by (auto simp: mounts_ok_def intro!: mount_matches_under)
  show ?thesis
  proof (cases "best_mount path (mount_table s) None 0")
    case None
    then have "\<forall>m \<in> set (mount_table s). \<not> mount_matches path m" using assms(2) by (auto simp: best_mount_None mounts_ok_def strlen_def)
    then show ?thesis using None match by (auto simp: vfs_resolve_mount_def)
  next
    case (Some m)
    note b = best_mount_Some [OF Some]
    have root: "strcmp (mount_point m) ''/'' = 0 \<longleftrightarrow> mount_point m = ''/''"
      using b assms(2) by (intro strcmp_0_iff) (auto simp: mounts_ok_def nul_free_def)
    have u: "under path (mount_point m)" using b match by blast
    then obtain rest where rest: "path = mount_point m @ rest" by (auto simp: under_def)
    have long: "\<forall>m' \<in> set (mount_table s). is_active m' \<and> under path (mount_point m') \<longrightarrow> length (mount_point m') \<le> length (mount_point m)"
      using b match by (auto simp: strlen_def)
    have "vfs_resolve_mount path s = Some (mt_drive_id m, if mount_point m = ''/'' then path else if rest = [] then ''/'' else rest)"
      using Some root rest by (simp add: vfs_resolve_mount_def strlen_def)
    then show ?thesis using b u long rest match by (auto simp: Let_def)
  qed
qed

definition vfs_example :: vfs where
  "vfs_example = input.extend (tasking.extend tasking_example (input.fields False False False False False
       \<lparr>sb_data = [], sb_count = 0\<rparr> \<lparr>sb_data = [], sb_count = 0\<rparr> 0 [] \<lparr>m_x = 0, m_y = 0, m_z = 0, left_button = 0, right_button = 0, middle_button = 0\<rparr> 0 [] False))
     (vfs.fields [\<lparr>mount_point = ''/'', device = ''/dev/sda'', mt_drive_id = 0, fs_type = ''fat32'', is_active = True\<rparr>,
        \<lparr>mount_point = ''/mnt'', device = ''/dev/sdb'', mt_drive_id = 1, fs_type = ''fat32'', is_active = True\<rparr>]
      ''GenuineIntel'' ''Jan  1 2026'' [] 0)"

theorem resolve_longest_prefix_witness:
  "vfs_resolve_mount ''/mnt/a'' vfs_example = Some (1, ''/a'') \<and>
   (\<exists>m \<in> set (mount_table vfs_example). mt_drive_id m = 1 \<and> under ''/mnt/a'' (mount_point m))"
proof -
  have t: "mount_table vfs_example = [\<lparr>mount_point = ''/'', device = ''/dev/sda'', mt_drive_id = 0, fs_type = ''fat32'', is_active = True\<rparr>,
      \<lparr>mount_point = ''/mnt'', device = ''/dev/sdb'', mt_drive_id = 1, fs_type = ''fat32'', is_active = True\<rparr>]"
    by (simp add: vfs_example_def input.defs vfs.defs)
  have r: "vfs_resolve_mount ''/mnt/a'' vfs_example = Some (1, ''/a'')"
    unfolding vfs_resolve_mount_def t by code_simp
  have "nul_free ''/mnt/a''" "mounts_ok (mount_table vfs_example)" unfolding t by code_simp+
  from resolve_longest_prefix [OF this] show ?thesis unfolding r by auto
qed

end
