(* ===== verification/Fd.thy ===== *)
theory Fd
  imports Vfs
begin

text \<open>
  Open files, pipes and descriptors: \<^verbatim>\<open>fs/fd.c\<close>. The table of open files is a list of 256 records,
  pipe structures live in a store from addresses to records. Closing a socket calls the lwIP
  library, which is not part of the repository: every call is recorded in \<open>lwip_hist\<close>, and
  \<open>lwip_env\<close> gives the value the library returns after a history of calls.
\<close>

section \<open>State\<close>

datatype file_type = FILE_TYPE_NORMAL | FILE_TYPE_PIPE | FILE_TYPE_SOCKET | FILE_TYPE_SOCKET_TCP

record pipe_data =
  pd_buffer :: "u8 list"
  pd_head :: nat
  pd_tail :: nat
  pd_count :: nat
  pd_readers :: int
  pd_writers :: int

record kfile =
  in_use :: bool
  refcount :: int
  kf_type :: file_type
  kf_path :: string
  kf_buffer :: u32
  kf_size :: u32
  kf_offset :: u32
  kf_capacity :: u32
  kf_mode :: u32
  is_dirty :: int
  kf_pipe :: u32
  socket_id :: u32

datatype lwip_call = Raw_new int | Raw_recv u32 int | Raw_remove u32 | Raw_connect u32 u32 | Raw_send u32 "u8 list"
  | Tcp_new | Tcp_arg u32 "int option" | Tcp_recv u32 bool | Tcp_err u32 | Tcp_poll u32 | Tcp_sent u32 | Tcp_abort u32
  | Tcp_connect u32 u32 u16 | Tcp_write u32 "u8 list" | Tcp_output u32 | Tcp_recved u32 u32 | Dns_gethostbyname string
  | Pbuf_alloc u16 | Lwip_init | Dns_init | Netif_add | Netif_set_default | Netif_set_up | Dhcp_start

record fds = vfs +
  open_files :: "kfile list"
  pipes :: "u32 \<rightharpoonup> pipe_data"
  lwip_hist :: "lwip_call list"
  lwip_env :: "lwip_call list \<Rightarrow> u32"

definition MAX_OPEN_FILES :: nat where "MAX_OPEN_FILES = 256"
definition O_RDONLY :: u32 where "O_RDONLY = 0"
definition O_WRONLY :: u32 where "O_WRONLY = 1"
definition O_CREAT :: u32 where "O_CREAT = 0x0200"
definition O_TRUNC :: u32 where "O_TRUNC = 0x0400"

definition sizeof_PipeData :: u32 where "sizeof_PipeData = 4116"

definition lwip :: "lwip_call \<Rightarrow> 'z fds_scheme \<Rightarrow> u32 \<times> 'z fds_scheme" where
  "lwip c s = (let h = lwip_hist s @ [c] in (lwip_env s h, s\<lparr>lwip_hist := h\<rparr>))"

text \<open>Accesses to the arrays fault outside their bounds.\<close>

definition get_file :: "int \<Rightarrow> 'z fds_scheme \<Rightarrow> kfile option" where
  "get_file i s = (if 0 \<le> i \<and> nat i < length (open_files s) then Some (open_files s ! nat i) else None)"

definition upd_file :: "int \<Rightarrow> (kfile \<Rightarrow> kfile) \<Rightarrow> 'z fds_scheme \<Rightarrow> 'z fds_scheme option" where
  "upd_file i f s = do { k \<leftarrow> get_file i s; Some (s\<lparr>open_files := (open_files s)[nat i := f k]\<rparr>) }"

definition get_pipe :: "u32 \<Rightarrow> 'z fds_scheme \<Rightarrow> pipe_data option" where
  "get_pipe p s = (if p = NULL then None else pipes s p)"

definition upd_pipe :: "u32 \<Rightarrow> (pipe_data \<Rightarrow> pipe_data) \<Rightarrow> 'z fds_scheme \<Rightarrow> 'z fds_scheme option" where
  "upd_pipe p f s = do { q \<leftarrow> get_pipe p s; Some (s\<lparr>pipes := (pipes s)(p \<mapsto> f q)\<rparr>) }"

definition fd_at :: "int \<Rightarrow> task \<Rightarrow> int option" where
  "fd_at fd t = (if 0 \<le> fd \<and> nat fd < length (fd_table t) then Some (fd_table t ! nat fd) else None)"

definition fd_init :: "'z fds_scheme \<Rightarrow> 'z fds_scheme" where
  "fd_init s = s\<lparr>open_files := map (\<lambda>k. k\<lparr>in_use := False, refcount := 0\<rparr>) (open_files s)\<rparr>"

section \<open>Reference counts\<close>

text \<open>One more (or, with -1, one less) descriptor refers to an end of the pipe of this mode, and to the open file.\<close>

definition pipe_ref :: "int \<Rightarrow> kfile \<Rightarrow> 'z fds_scheme \<Rightarrow> 'z fds_scheme option" where
  "pipe_ref d k s =
     (if kf_mode k = O_RDONLY then upd_pipe (kf_pipe k) (\<lambda>q. q\<lparr>pd_readers := pd_readers q + d\<rparr>) s
      else upd_pipe (kf_pipe k) (\<lambda>q. q\<lparr>pd_writers := pd_writers q + d\<rparr>) s)"

definition file_ref :: "int \<Rightarrow> int \<Rightarrow> 'z fds_scheme \<Rightarrow> 'z fds_scheme option" where
  "file_ref d sys_fd s = do {
     s \<leftarrow> upd_file sys_fd (\<lambda>k. k\<lparr>refcount := refcount k + d\<rparr>) s;
     k \<leftarrow> get_file sys_fd s;
     if kf_type k = FILE_TYPE_PIPE then pipe_ref d k s else Some s }"

fun inherit_loop :: "nat list \<Rightarrow> u32 \<Rightarrow> u32 \<Rightarrow> 'z fds_scheme \<Rightarrow> 'z fds_scheme option" where
  "inherit_loop [] child parent s = Some s"
| "inherit_loop (i # is) child parent s = do {
     t \<leftarrow> get_task parent s;
     sys_fd \<leftarrow> fd_at (int i) t;
     s \<leftarrow> upd_task child (\<lambda>c. c\<lparr>fd_table := (fd_table c)[i := sys_fd]\<rparr>) s;
     s \<leftarrow> (if sys_fd \<noteq> -1 then file_ref 1 sys_fd s else Some s);
     inherit_loop is child parent s }"

definition fd_inherit :: "u32 \<Rightarrow> u32 \<Rightarrow> 'z fds_scheme \<Rightarrow> 'z fds_scheme option" where
  "fd_inherit child parent s = inherit_loop [0..<MAX_FDS] child parent s"

section \<open>Opening\<close>

definition free_fds :: "task \<Rightarrow> nat list" where
  "free_fds t = filter (\<lambda>i. fd_table t ! i = -1) [3..<MAX_FDS]"

definition free_files :: "'z fds_scheme \<Rightarrow> nat list" where
  "free_files s = filter (\<lambda>i. \<not> in_use (open_files s ! i)) [0..<MAX_OPEN_FILES]"

definition set_fd :: "nat \<Rightarrow> int \<Rightarrow> 'z fds_scheme \<Rightarrow> 'z fds_scheme option" where
  "set_fd fd sys_fd s = upd_task (current_task s) (\<lambda>t. t\<lparr>fd_table := (fd_table t)[fd := sys_fd]\<rparr>) s"

text \<open>The searches take the first free descriptor and the first free open file. Writing the empty string reads no byte of it.\<close>

definition sys_open :: "('z fds_scheme \<Rightarrow> 'z fds_scheme) \<Rightarrow> string \<Rightarrow> u32 \<Rightarrow> 'z fds_scheme \<Rightarrow> (int \<times> 'z fds_scheme) option" where
  "sys_open resume path flags s = do {
     t \<leftarrow> get_task (current_task s) s;
     abs_path \<leftarrow> get_absolute_path (cwd t) path;
     case free_fds t of [] \<Rightarrow> Some (-1, s) | free_fd # _ \<Rightarrow>
     case free_files s of [] \<Rightarrow> Some (-1, s) | sys_fd # _ \<Rightarrow> do {
       (sz, s) \<leftarrow> vfs_get_size abs_path s;
       if sz \<le> 0 \<and> flags AND O_CREAT = 0 then Some (-1, s)
       else do {
         (sz, s) \<leftarrow> (if sz \<le> 0 then do { (_, s) \<leftarrow> vfs_write abs_path NULL 0 s; Some (0, s) } else Some (sz, s));
         (sz, s) \<leftarrow> (if flags AND O_TRUNC \<noteq> 0 then do { (_, s) \<leftarrow> vfs_write abs_path NULL 0 s; Some (0, s) } else Some (sz, s));
         file_path \<leftarrow> strcpy 256 abs_path;
         s \<leftarrow> upd_file (int sys_fd) (\<lambda>k. k\<lparr>in_use := True, refcount := 1, kf_type := FILE_TYPE_NORMAL, kf_path := file_path,
                kf_size := word_of_int sz, kf_offset := 0, kf_mode := flags, is_dirty := 0, kf_capacity := word_of_int (sz + 4096)\<rparr>) s;
         (buffer, s) \<leftarrow> kmalloc (word_of_int (sz + 4096)) s;
         s \<leftarrow> upd_file (int sys_fd) (\<lambda>k. k\<lparr>kf_buffer := buffer\<rparr>) s;
         s \<leftarrow> (if sz > 0 then do { (_, s) \<leftarrow> vfs_read resume abs_path buffer s; Some s } else Some s);
         s \<leftarrow> set_fd free_fd (int sys_fd) s;
         Some (int free_fd, s) } } }"

definition empty_pipe :: pipe_data where
  "empty_pipe = \<lparr>pd_buffer = replicate 4096 0, pd_head = 0, pd_tail = 0, pd_count = 0, pd_readers = 1, pd_writers = 1\<rparr>"

definition pipe_end :: "u32 \<Rightarrow> u32 \<Rightarrow> kfile \<Rightarrow> kfile" where
  "pipe_end p mode k = k\<lparr>in_use := True, refcount := 1, kf_type := FILE_TYPE_PIPE, kf_mode := mode, kf_pipe := p\<rparr>"

definition sys_pipe_impl :: "u32 \<Rightarrow> 'z fds_scheme \<Rightarrow> (int \<times> 'z fds_scheme) option" where
  "sys_pipe_impl fds s = do {
     t \<leftarrow> get_task (current_task s) s;
     case free_fds t of fd0 # fd1 # _ \<Rightarrow>
       (case free_files s of sys_fd0 # sys_fd1 # _ \<Rightarrow> do {
          (p, s) \<leftarrow> kmalloc sizeof_PipeData s;
          if p = NULL then None
          else do {
            let s = s\<lparr>pipes := (pipes s)(p \<mapsto> empty_pipe)\<rparr>;
            s \<leftarrow> upd_file (int sys_fd0) (pipe_end p O_RDONLY) s;
            s \<leftarrow> upd_file (int sys_fd1) (pipe_end p O_WRONLY) s;
            s \<leftarrow> set_fd fd0 (int sys_fd0) s;
            s \<leftarrow> set_fd fd1 (int sys_fd1) s;
            let m = store32 (mem s) fds (of_nat fd0);
            Some (0, s\<lparr>mem := store32 m (fds + 4) (of_nat fd1)\<rparr>) } }
        | _ \<Rightarrow> Some (-1, s))
     | _ \<Rightarrow> Some (-1, s) }"

section \<open>Closing\<close>

definition net_close_socket :: "u32 \<Rightarrow> 'z fds_scheme \<Rightarrow> 'z fds_scheme" where
  "net_close_socket pcb_id s = (if pcb_id \<noteq> 0 then snd (lwip (Raw_remove pcb_id) s) else s)"

definition net_close_tcp_socket :: "u32 \<Rightarrow> 'z fds_scheme \<Rightarrow> 'z fds_scheme" where
  "net_close_tcp_socket pcb s =
     (if pcb \<noteq> 0 then fold (\<lambda>c s. snd (lwip c s)) [Tcp_arg pcb None, Tcp_recv pcb False, Tcp_err pcb, Tcp_poll pcb, Tcp_sent pcb, Tcp_abort pcb] s
      else s)"

text \<open>The pipe part: one end less, and the structure is released with its last end.\<close>

definition close_pipe_end :: "int \<Rightarrow> kfile \<Rightarrow> 'z fds_scheme \<Rightarrow> 'z fds_scheme option" where
  "close_pipe_end sys_fd k s = do {
     s \<leftarrow> pipe_ref (-1) k s;
     q \<leftarrow> get_pipe (kf_pipe k) s;
     if pd_readers q \<le> 0 \<and> pd_writers q \<le> 0 then do {
       s \<leftarrow> kfree (kf_pipe k) s;
       upd_file sys_fd (\<lambda>k. k\<lparr>kf_pipe := NULL\<rparr>) (s\<lparr>pipes := (pipes s)(kf_pipe k := None)\<rparr>) }
     else Some s }"

definition free_buffer :: "kfile \<Rightarrow> 'z fds_scheme \<Rightarrow> 'z fds_scheme option" where
  "free_buffer k s = (if kf_buffer k \<noteq> NULL then kfree (kf_buffer k) s else Some s)"

definition release_file :: "kfile \<Rightarrow> 'z fds_scheme \<Rightarrow> 'z fds_scheme option" where
  "release_file k s =
     (case kf_type k of
        FILE_TYPE_SOCKET \<Rightarrow> free_buffer k (net_close_socket (socket_id k) s)
      | FILE_TYPE_SOCKET_TCP \<Rightarrow> free_buffer k (net_close_tcp_socket (socket_id k) s)
      | FILE_TYPE_NORMAL \<Rightarrow> do {
          s \<leftarrow> (if is_dirty k \<noteq> 0 then do { (_, s) \<leftarrow> vfs_write (kf_path k) (kf_buffer k) (kf_size k) s; Some s } else Some s);
          free_buffer k s }
      | FILE_TYPE_PIPE \<Rightarrow> Some s)"

definition sys_close :: "int \<Rightarrow> 'z fds_scheme \<Rightarrow> (int \<times> 'z fds_scheme) option" where
  "sys_close fd s =
     (if fd < 0 \<or> fd \<ge> int MAX_FDS then Some (-1, s)
      else do {
        t \<leftarrow> get_task (current_task s) s;
        sys_fd \<leftarrow> fd_at fd t;
        if sys_fd = -1 then Some (-1, s)
        else do {
          s \<leftarrow> set_fd (nat fd) (-1) s;
          k \<leftarrow> get_file sys_fd s;
          s \<leftarrow> (if kf_type k = FILE_TYPE_PIPE then close_pipe_end sys_fd k s else Some s);
          s \<leftarrow> upd_file sys_fd (\<lambda>k. k\<lparr>refcount := refcount k - 1\<rparr>) s;
          k \<leftarrow> get_file sys_fd s;
          s \<leftarrow> (if refcount k \<le> 0 then do {
                 s \<leftarrow> release_file k s;
                 upd_file sys_fd (\<lambda>k. k\<lparr>in_use := False\<rparr>) s }
               else Some s);
          Some (0, s) } })"

section \<open>Reading and writing\<close>

definition pipe_get :: "pipe_data \<Rightarrow> u8 \<times> pipe_data" where
  "pipe_get q = (pd_buffer q ! pd_head q, q\<lparr>pd_head := (pd_head q + 1) mod 4096, pd_count := pd_count q - 1\<rparr>)"

definition pipe_put :: "u8 \<Rightarrow> pipe_data \<Rightarrow> pipe_data" where
  "pipe_put x q =
     (if pd_count q < 4096
      then q\<lparr>pd_buffer := (pd_buffer q)[pd_tail q := x], pd_tail := (pd_tail q + 1) mod 4096, pd_count := pd_count q + 1\<rparr> else q)"

partial_function (option) pipe_read_loop :: "('z fds_scheme \<Rightarrow> 'z fds_scheme) \<Rightarrow> u32 \<Rightarrow> u32 \<Rightarrow> u32 \<Rightarrow> u32 \<Rightarrow> 'z fds_scheme \<Rightarrow> (u32 \<times> 'z fds_scheme) option" where
  "pipe_read_loop resume p buf count n s =
     (if n < count then
        Option.bind (get_pipe p s) (\<lambda>q.
          if pd_count q > 0 then
            (let (x, q) = pipe_get q in
             pipe_read_loop resume p buf count (n + 1) (s\<lparr>mem := (mem s)(buf + n := x), pipes := (pipes s)(p \<mapsto> q)\<rparr>))
          else if pd_writers q \<le> 0 then Some (n, s)
          else Option.bind (yield s) (\<lambda>(_, s). pipe_read_loop resume p buf count n (resume s)))
      else Some (n, s))"

text \<open>The result \<open>None\<close> of the inner option is the return value -1: nobody can read the pipe.\<close>

partial_function (option) pipe_write_loop :: "('z fds_scheme \<Rightarrow> 'z fds_scheme) \<Rightarrow> u32 \<Rightarrow> u32 \<Rightarrow> u32 \<Rightarrow> u32 \<Rightarrow> 'z fds_scheme \<Rightarrow> (u32 option \<times> 'z fds_scheme) option" where
  "pipe_write_loop resume p buf count n s =
     (if n < count then
        Option.bind (get_pipe p s) (\<lambda>q.
          if pd_readers q \<le> 0 then Some (None, s)
          else if pd_count q < 4096 then
            pipe_write_loop resume p buf count (n + 1) (s\<lparr>pipes := (pipes s)(p \<mapsto> pipe_put (mem s (buf + n)) q)\<rparr>)
          else Option.bind (yield s) (\<lambda>(_, s). pipe_write_loop resume p buf count n (resume s)))
      else Some (Some n, s))"

definition sys_read_fd :: "('z fds_scheme \<Rightarrow> 'z fds_scheme) \<Rightarrow> int \<Rightarrow> u32 \<Rightarrow> u32 \<Rightarrow> 'z fds_scheme \<Rightarrow> (int \<times> 'z fds_scheme) option" where
  "sys_read_fd resume fd buf count s =
     (if fd < 0 \<or> fd \<ge> int MAX_FDS then Some (-1, s)
      else do {
        t \<leftarrow> get_task (current_task s) s;
        sys_fd \<leftarrow> fd_at fd t;
        if sys_fd = -1 then
          (if fd = 0 then do { (c, s) \<leftarrow> getch resume s; Some (1, s\<lparr>mem := (mem s)(buf := ucast c)\<rparr>) } else Some (-1, s))
        else do {
          k \<leftarrow> get_file sys_fd s;
          if kf_type k = FILE_TYPE_PIPE then
            (if count = 0 then do {
               q \<leftarrow> get_pipe (kf_pipe k) s;
               Some (if pd_count q > 0 then int (pd_count q) else if pd_writers q \<le> 0 then -1 else 0, s) }
             else do { (n, s) \<leftarrow> pipe_read_loop resume (kf_pipe k) buf count 0 s; Some (sint n, s) })
          else if kf_offset k \<ge> kf_size k then Some (0, s)
          else do {
            let to_read = (if kf_offset k + count > kf_size k then kf_size k - kf_offset k else count);
            let s = s\<lparr>mem := fast_memcpy (mem s) buf (kf_buffer k + kf_offset k) to_read\<rparr>;
            s \<leftarrow> upd_file sys_fd (\<lambda>k. k\<lparr>kf_offset := kf_offset k + to_read\<rparr>) s;
            Some (sint to_read, s) } } })"

text \<open>Console output decodes UTF-8; a sequence that does not end inside the buffer is written byte by byte.\<close>

partial_function (option) console_loop :: "u32 \<Rightarrow> u32 \<Rightarrow> u32 \<Rightarrow> 'z fds_scheme \<Rightarrow> 'z fds_scheme option" where
  "console_loop buf count i s =
     (if i < count then
        (let c = mem s (buf + i); n = of_nat (utf8_len c) in
         if i + n > count then Option.bind (gfx_putc (ucast c) s) (\<lambda>s. console_loop buf count (i + 1) s)
         else Option.bind (gfx_putc (utf8_code c (mem s (buf + i + 1)) (mem s (buf + i + 2))) s) (\<lambda>s. console_loop buf count (i + n) s))
      else Some s)"

definition grow_file :: "int \<Rightarrow> u32 \<Rightarrow> 'z fds_scheme \<Rightarrow> 'z fds_scheme option" where
  "grow_file sys_fd needed s = do {
     k \<leftarrow> get_file sys_fd s;
     if needed > kf_capacity k then do {
       let new_cap = needed + 4096;
       (new_buf, s) \<leftarrow> kmalloc new_cap s;
       let s = s\<lparr>mem := fast_memcpy (mem s) new_buf (kf_buffer k) (kf_size k)\<rparr>;
       s \<leftarrow> kfree (kf_buffer k) s;
       upd_file sys_fd (\<lambda>k. k\<lparr>kf_buffer := new_buf, kf_capacity := new_cap\<rparr>) s }
     else Some s }"

definition sys_write_fd :: "('z fds_scheme \<Rightarrow> 'z fds_scheme) \<Rightarrow> int \<Rightarrow> u32 \<Rightarrow> u32 \<Rightarrow> 'z fds_scheme \<Rightarrow> (int \<times> 'z fds_scheme) option" where
  "sys_write_fd resume fd buf count s =
     (if fd < 0 \<or> fd \<ge> int MAX_FDS then Some (-1, s)
      else do {
        t \<leftarrow> get_task (current_task s) s;
        sys_fd \<leftarrow> fd_at fd t;
        if sys_fd = -1 then
          (if fd = 1 \<or> fd = 2 then do {
             s \<leftarrow> console_loop buf count 0 (gfx_start_batch s);
             Some (sint count, gfx_end_batch s) }
           else Some (-1, s))
        else do {
          k \<leftarrow> get_file sys_fd s;
          if kf_type k = FILE_TYPE_PIPE then do {
            (r, s) \<leftarrow> pipe_write_loop resume (kf_pipe k) buf count 0 s;
            Some (case r of Some n \<Rightarrow> sint n | None \<Rightarrow> -1, s) }
          else do {
            s \<leftarrow> grow_file sys_fd (kf_offset k + count) s;
            k \<leftarrow> get_file sys_fd s;
            let s = s\<lparr>mem := fast_memcpy (mem s) (kf_buffer k + kf_offset k) buf count\<rparr>;
            s \<leftarrow> upd_file sys_fd (\<lambda>k. let off = kf_offset k + count in
                   k\<lparr>kf_offset := off, kf_size := (if off > kf_size k then off else kf_size k), is_dirty := 1\<rparr>) s;
            Some (sint count, s) } } })"

definition sys_lseek :: "int \<Rightarrow> int \<Rightarrow> int \<Rightarrow> 'z fds_scheme \<Rightarrow> (int \<times> 'z fds_scheme) option" where
  "sys_lseek fd offset whence s =
     (if fd < 0 \<or> fd \<ge> int MAX_FDS then Some (-1, s)
      else do {
        t \<leftarrow> get_task (current_task s) s;
        sys_fd \<leftarrow> fd_at fd t;
        if sys_fd = -1 then Some (-1, s)
        else do {
          k \<leftarrow> get_file sys_fd s;
          if kf_type k = FILE_TYPE_PIPE then Some (-1, s)
          else do {
            let off = (if whence = 0 then word_of_int offset
                       else if whence = 1 then kf_offset k + word_of_int offset
                       else if whence = 2 then kf_size k + word_of_int offset
                       else kf_offset k);
            s \<leftarrow> upd_file sys_fd (\<lambda>k. k\<lparr>kf_offset := off\<rparr>) s;
            Some (sint off, s) } } })"

end
