(* ===== verification/Heap_Room.thy ===== *)
theory Heap_Room
  imports Heap_Props
begin

text \<open>
  Room in the heap, and the memory it does not hand out: what a caller of \<^verbatim>\<open>kmalloc\<close> that
  needs the request to succeed relies on, and what an allocation leaves alone.
\<close>

section \<open>Room\<close>

definition room :: "ablock list \<Rightarrow> nat \<Rightarrow> bool" where
  "room bs c \<longleftrightarrow> (\<exists>p n. (p, n, True) \<in> set bs \<and> c \<le> unat n)"

lemma room_mono: "room bs c \<Longrightarrow> d \<le> c \<Longrightarrow> room bs d"
  by (auto simp: room_def intro: order_trans)

lemma room_alloc:
  assumes wf: "heap_wf bs" and p: "(p, n, True) \<in> set bs" and r: "room bs (unat k + 28 + c)" and c: "17 \<le> c"
  shows "room (a_alloc p k bs) c"
proof -
  obtain q j where q: "(q, j, True) \<in> set bs" "unat k + 28 + c \<le> unat j" using r by (auto simp: room_def)
  from p obtain as cs where bs: "bs = as @ (p, n, True) # cs" by (auto simp: in_set_conv_decomp)
  have dist: "distinct (map fst (as @ (p, n, True) # cs))" using heap_wf_distinct [OF wf] bs by simp
  note sp = a_alloc_split [OF dist, of k, folded bs]
  show ?thesis
  proof (cases "q = p")
    case False
    then have "(q, j, True) \<in> set (a_alloc p k bs)" using q(1) bs unfolding sp by auto
    then show ?thesis using q(2) unfolding room_def by (intro exI [of _ q] exI [of _ j]) simp
  next
    case True
    then have j: "j = n" using eq_key_imp_eq_value [OF heap_wf_distinct [OF wf]] p q(1) by fastforce
    have "unat n \<le> HEAP_END" using heap_wf_block(2) [OF wf p] by simp
    then have "unat n < 4294967296 - 100" by (simp add: HEAP_END_def layout_simps)
    then have u: "unat (k + sizeof_block + 16) = unat k + 44"
      using q(2) j c unat_add_no_wrap32 [of k 44] by (simp add: layout_simps add.assoc)
    then have big: "n > k + sizeof_block + 16" using q(2) j c by (simp add: word_less_nat_alt)
    have "unat (n - k) = unat n - unat k" using q(2) j by (intro unat_sub32) simp
    then have "unat (n - k - sizeof_block) = unat n - unat k - 28"
      using q(2) j by (subst unat_sub32) (simp_all add: layout_simps)
    moreover have "(p + sizeof_block + k, n - k - sizeof_block, True) \<in> set (a_alloc p k bs)"
      unfolding sp using big by (simp add: alloc_parts_def)
    ultimately show ?thesis
      using q(2) j unfolding room_def by (intro exI [of _ "p + sizeof_block + k"] exI [of _ "n - k - sizeof_block"]) simp
  qed
qed

lemma kmalloc_a_room:
  assumes "heap_ok s bs" and "unat k + 4100 \<le> 0xFFFFFFFC" and "room bs (unat (round_size (k + 4096 + 4)))"
  shows "\<exists>a s'. kmalloc_a k s = Some (a, s') \<and> a \<noteq> NULL"
  by (rule kmalloc_a_spec [OF assms(1,2)]) (use assms(3) in \<open>auto simp: room_def word_less_nat_alt dest: leD\<close>)

section \<open>Memory in use\<close>

definition outside :: "nat \<Rightarrow> nat \<Rightarrow> u32 \<Rightarrow> bool" where
  "outside lo hi x \<longleftrightarrow> unat x < lo \<or> hi \<le> unat x"

lemma outside_mono: "outside lo hi x \<Longrightarrow> lo \<le> lo' \<Longrightarrow> hi' \<le> hi \<Longrightarrow> outside lo' hi' x"
  by (auto simp: outside_def)

text \<open>Memory that belongs to no free block: the heap hands out other memory only.\<close>

definition used_memory :: "ablock list \<Rightarrow> u32 set" where
  "used_memory bs = {x. \<forall>p n. (p, n, True) \<in> set bs \<longrightarrow> outside (unat p) (unat p + 28 + unat n) x}"

definition allocated_at :: "ablock list \<Rightarrow> u32 \<Rightarrow> bool" where
  "allocated_at bs q \<longleftrightarrow> (\<exists>p n. (p, n, False) \<in> set bs \<and> q = p + sizeof_block)"

lemma kmalloc_room:
  assumes hok: "heap_ok s bs" and rm: "room bs (unat (round_size k))"
  obtains p n B F where "kmalloc k s = Some (p + sizeof_block, s\<lparr>blocks := B, free_bins := F\<rparr>)" "p + sizeof_block \<noteq> NULL" "(p, n, True) \<in> set bs"
    "round_size k \<le> n" "heap_ok (s\<lparr>blocks := B, free_bins := F\<rparr>) (a_alloc p (round_size k) bs)" "\<not> allocated_at bs (p + sizeof_block)"
proof (rule kmalloc_spec [OF hok, of k])
  assume "\<And>p n. (p, n, True) \<in> set bs \<Longrightarrow> n < round_size k"
  then show ?thesis using rm by (auto simp: room_def word_less_nat_alt dest: leD)
next
  fix p n s' assume a: "kmalloc k s = Some (p + sizeof_block, s')" "heap_frame s s'" "p + sizeof_block \<noteq> NULL" "(p, n, True) \<in> set bs"
    "round_size k \<le> n" "heap_ok s' (a_alloc p (round_size k) bs)"
  have wf: "heap_wf bs" using hok by (simp add: heap_ok_def)
  have "\<not> allocated_at bs (p + sizeof_block)"
    using eq_key_imp_eq_value [OF heap_wf_distinct [OF wf] a(4)] by (fastforce simp: allocated_at_def)
  moreover have "s' = s\<lparr>blocks := blocks s', free_bins := free_bins s'\<rparr>" using a(2) by (simp add: heap_frame_def)
  ultimately show ?thesis using a that [where p = p and n = n and B = "blocks s'" and F = "free_bins s'"] by metis
qed

lemma used_memory_alloc:
  assumes wf: "heap_wf bs" and p: "(p, n, True) \<in> set bs" and k: "k \<le> n"
  shows "used_memory bs \<subseteq> used_memory (a_alloc p k bs)"
proof
  fix x assume x: "x \<in> used_memory bs"
  from p obtain as cs where bs: "bs = as @ (p, n, True) # cs" by (auto simp: in_set_conv_decomp)
  have dist: "distinct (map fst (as @ (p, n, True) # cs))" using heap_wf_distinct [OF wf] bs by simp
  have lim: "unat p + 28 + unat n < 4294967296" using heap_wf_block(2) [OF wf p] by (simp add: HEAP_END_def layout_simps)
  have k': "unat k \<le> unat n" using k by (simp add: word_le_nat_alt)
  have out: "outside (unat q) (unat q + 28 + unat j) x" if q: "(q, j, True) \<in> set (a_alloc p k bs)" for q j
  proof (cases "(q, j, True) \<in> set bs")
    case True
    then show ?thesis using x by (simp add: used_memory_def)
  next
    case False
    then have r: "q = p + sizeof_block + k" "j = n - k - sizeof_block" "n > k + sizeof_block + 16"
      using q a_alloc_split [OF dist, of k] bs by (auto simp: alloc_parts_def split: if_splits)
    have "unat n \<le> HEAP_END" using heap_wf_block(2) [OF wf p] by simp
    then have kk: "unat k + 44 < 4294967296" using k' by (simp add: HEAP_END_def layout_simps)
    have "unat (k + sizeof_block + 16) = unat k + 44" using kk unat_add_no_wrap32 [of k 44] by (simp add: layout_simps add.assoc)
    then have "unat k + 44 < unat n" using r(3) by (simp add: word_less_nat_alt)
    moreover have "unat q = unat p + 28 + unat k" using lim k' unat_add_no_wrap32 [of "p + 28" k] unat_add_no_wrap32 [of p 28]
      by (simp add: r(1) layout_simps)
    moreover have "unat (n - k) = unat n - unat k" using k' by (rule unat_sub32)
    ultimately have "unat p \<le> unat q" "unat q + 28 + unat j \<le> unat p + 28 + unat n"
      using unat_sub32 [of 28 "n - k"] by (simp_all add: r(2) layout_simps)
    moreover have "outside (unat p) (unat p + 28 + unat n) x" using x p by (simp add: used_memory_def)
    ultimately show ?thesis by (auto elim!: outside_mono)
  qed
  then show "x \<in> used_memory (a_alloc p k bs)" by (simp add: used_memory_def)
qed

end
