(* ===== verification/Fd_Props.thy ===== *)
theory Fd_Props
  imports Fd Fifo Task_Props Heap_Room Heap_Room Heap_Room Heap_Room Heap_Room Heap_Room
begin

text \<open>
  Pipes are bounded queues, what is written into a pipe or a file comes out again.
\<close>

section \<open>The ring buffer of a pipe\<close>

definition pipe_inv :: "pipe_data \<Rightarrow> bool" where
  "pipe_inv q \<longleftrightarrow> length (pd_buffer q) = 4096 \<and> pd_head q < 4096 \<and> pd_count q \<le> 4096 \<and> pd_tail q = (pd_head q + pd_count q) mod 4096"

definition pipe_content :: "pipe_data \<Rightarrow> u8 list" where
  "pipe_content q = map (\<lambda>i. pd_buffer q ! ((pd_head q + i) mod 4096)) [0..<pd_count q]"

lemma length_pipe_content [simp]: "length (pipe_content q) = pd_count q"
  by (simp add: pipe_content_def)

lemma ring_index_other: "i < n \<Longrightarrow> n < 4096 \<Longrightarrow> (h + i) mod 4096 \<noteq> (h + n) mod (4096 :: nat)"
proof
  assume i: "i < n" "n < 4096" and eq: "(h + i) mod 4096 = (h + n) mod (4096 :: nat)"
  then have "4096 dvd (h + n) - (h + i)" using mod_eq_dvd_iff_nat [of "h + i" "h + n" 4096] by simp
  then show False using i by (auto dest: dvd_imp_le)
qed

lemma pipe_put_content:
  assumes "pipe_inv q"
  shows "pipe_inv (pipe_put x q) \<and> pipe_content (pipe_put x q) =
    (if length (pipe_content q) < 4096 then pipe_content q @ [x] else pipe_content q)"
proof (cases "pd_count q < 4096")
  case True
  have "(pd_buffer q)[pd_tail q := x] ! ((pd_head q + i) mod 4096) = pd_buffer q ! ((pd_head q + i) mod 4096)" if "i < pd_count q" for i
    using assms ring_index_other [OF that True, of "pd_head q"] by (simp add: pipe_inv_def)
  moreover have "pd_tail q < length (pd_buffer q)" using assms by (simp add: pipe_inv_def)
  ultimately show ?thesis
    using True assms by (simp add: pipe_put_def pipe_inv_def pipe_content_def mod_simps)
qed (use assms in \<open>simp add: pipe_put_def\<close>)

lemma pipe_get_content:
  assumes "pipe_inv q" and "pipe_content q \<noteq> []"
  shows "pipe_inv (snd (pipe_get q)) \<and> fst (pipe_get q) = hd (pipe_content q) \<and> pipe_content (snd (pipe_get q)) = tl (pipe_content q)"
proof -
  obtain n where n: "pd_count q = Suc n" using assms(2) by (cases "pd_count q") (auto simp: pipe_content_def)
  have "[0..<Suc n] = 0 # map Suc [0..<n]" by (simp add: upt_conv_Cons map_Suc_upt del: upt_Suc)
  then have c: "pipe_content q = pd_buffer q ! (pd_head q mod 4096) # map (\<lambda>i. pd_buffer q ! ((pd_head q + Suc i) mod 4096)) [0..<n]"
    unfolding pipe_content_def n by simp
  have "((pd_head q + 1) mod 4096 + i) mod 4096 = (pd_head q + Suc i) mod 4096" for i by (simp add: mod_simps)
  then show ?thesis using assms(1) n c by (simp add: pipe_get_def pipe_inv_def pipe_content_def)
qed

interpretation pipe: fifo pipe_inv pipe_content 4096 pipe_put pipe_get
  by unfold_locales (simp add: pipe_inv_def, rule pipe_put_content, assumption, rule pipe_get_content)

lemma pipe_put_ends [simp]: "pd_readers (pipe_put x q) = pd_readers q" "pd_writers (pipe_put x q) = pd_writers q"
  by (simp_all add: pipe_put_def)

section \<open>Transfers that do not block\<close>

lemma pipe_write_loop_fits:
  assumes "pipes s p = Some q" and "p \<noteq> NULL" and "pd_readers q > 0" and "pipe_inv q" and "n \<le> count"
    and "pd_count q + (unat count - unat n) \<le> 4096"
  shows "pipe_write_loop resume p buf count n s = Some (Some count, s\<lparr>pipes := (pipes s)(p \<mapsto>
    fold pipe_put (map (\<lambda>i. mem s (buf + of_nat i)) [unat n..<unat count]) q)\<rparr>)"
  using assms
proof (induction "unat count - unat n" arbitrary: n s q)
  case 0
  then have "n = count" by (simp add: word_le_nat_alt word_unat_eq_iff)
  then show ?case using 0 by (simp add: pipe_write_loop.simps map_upd_triv)
next
  case (Suc k)
  then have lt: "n < count" "unat n < unat count" by (simp_all add: word_less_nat_alt)
  then have n1: "unat (n + 1) = Suc (unat n)" using unat_add_no_wrap32 [of n 1] unat_lt32 [of count] by simp
  let ?q = "pipe_put (mem s (buf + n)) q"
  let ?s = "s\<lparr>pipes := (pipes s)(p \<mapsto> ?q)\<rparr>"
  have c: "pd_count q < 4096" using Suc.prems(6) lt by linarith
  then have qc: "pd_count ?q = Suc (pd_count q)" by (simp add: pipe_put_def)
  have "n + 1 \<le> count" using lt n1 by (simp add: word_le_nat_alt)
  moreover have "k = unat count - unat (n + 1)" using Suc.hyps(2) n1 by simp
  moreover have "pipe_inv ?q" using pipe_put_content [OF Suc.prems(4)] by blast
  moreover have "pd_count ?q + (unat count - unat (n + 1)) \<le> 4096" using Suc.prems(6) lt n1 qc by simp
  ultimately have "pipe_write_loop resume p buf count (n + 1) ?s = Some (Some count, ?s\<lparr>pipes := (pipes ?s)(p \<mapsto>
      fold pipe_put (map (\<lambda>i. mem ?s (buf + of_nat i)) [unat (n + 1)..<unat count]) ?q)\<rparr>)"
    using Suc.prems(2,3) by (intro Suc.hyps(1)) simp_all
  moreover have "[unat n..<unat count] = unat n # [unat (n + 1)..<unat count]" using lt(2) n1 by (simp add: upt_conv_Cons)
  ultimately show ?case
    using Suc.prems(1-3) lt(1) c by (simp add: pipe_write_loop.simps [of resume p buf count n s] get_pipe_def)
qed

lemma write_bytes_Cons: "write_bytes (m(a := b)) (a + 1) bs = write_bytes m a (b # bs)"
  by simp

lemma pipe_read_loop_fits:
  assumes "pipes s p = Some q" and "p \<noteq> NULL" and "pipe_inv q" and "n \<le> count" and "unat count - unat n \<le> pd_count q"
  shows "pipe_read_loop resume p buf count n s = Some (count,
    s\<lparr>mem := write_bytes (mem s) (buf + n) (fst (drain pipe_get (unat count - unat n) q)),
      pipes := (pipes s)(p \<mapsto> snd (drain pipe_get (unat count - unat n) q))\<rparr>)"
  using assms
proof (induction "unat count - unat n" arbitrary: n s q)
  case 0
  then have "n = count" by (simp add: word_le_nat_alt word_unat_eq_iff)
  then show ?case using 0 by (simp add: pipe_read_loop.simps map_upd_triv)
next
  case (Suc k)
  then have lt: "n < count" "unat n < unat count" by (simp_all add: word_less_nat_alt)
  then have n1: "unat (n + 1) = Suc (unat n)" using unat_add_no_wrap32 [of n 1] unat_lt32 [of count] by simp
  obtain x q' where g: "pipe_get q = (x, q')" by (cases "pipe_get q")
  let ?s = "s\<lparr>mem := (mem s)(buf + n := x), pipes := (pipes s)(p \<mapsto> q')\<rparr>"
  have c: "pd_count q > 0" using Suc.prems(5) lt by linarith
  then have "pipe_content q \<noteq> []" by (simp add: pipe_content_def)
  then have q': "pipe_inv q'" "pd_count q' = pd_count q - 1" using pipe_get_content [OF Suc.prems(3)] g by (auto simp: pipe_get_def)
  have k: "k = unat count - unat (n + 1)" "unat count - unat n = Suc k" using Suc.hyps(2) n1 by simp_all
  have "n + 1 \<le> count" using lt n1 by (simp add: word_le_nat_alt)
  then have "pipe_read_loop resume p buf count (n + 1) ?s = Some (count,
      ?s\<lparr>mem := write_bytes (mem ?s) (buf + (n + 1)) (fst (drain pipe_get (unat count - unat (n + 1)) q')),
        pipes := (pipes ?s)(p \<mapsto> snd (drain pipe_get (unat count - unat (n + 1)) q'))\<rparr>)"
    using Suc.prems(2,5) q' k c by (intro Suc.hyps(1)) simp_all
  then show ?case
    using Suc.prems(1,2) lt(1) c g k
    by (simp add: pipe_read_loop.simps [of resume p buf count n s] get_pipe_def add.assoc split: prod.splits)
qed

section \<open>Transfers that wait\<close>

text \<open>
  A task that finds the pipe full, or empty, gives up the processor. What it relies on when it runs again:
  of a full pipe the readers took some bytes from the front, or there is no reader any more; into an empty
  pipe the writers put some bytes, or there is no writer any more. \<open>taken\<close> is what the readers took so far and
  \<open>given\<close> what the writers put in; the addresses \<open>kept\<close> are the task's own buffers.
\<close>

definition peer_step :: "('z fds_scheme \<Rightarrow> u8 list) \<Rightarrow> ('z fds_scheme \<Rightarrow> u8 list) \<Rightarrow> u32 \<Rightarrow> u32 set \<Rightarrow> 'z fds_scheme \<Rightarrow> 'z fds_scheme \<Rightarrow> bool" where
  "peer_step taken given p kept s s' \<longleftrightarrow> (\<exists>q q'. pipes s p = Some q \<and> pipes s' p = Some q' \<and> pipe_inv q' \<and> (\<forall>a\<in>kept. mem s' a = mem s a) \<and>
     (if pipe_content q = []
      then taken s' = taken s \<and> given s' = given s @ pipe_content q' \<and> (pipe_content q' \<noteq> [] \<or> pd_writers q' \<le> 0)
      else given s' = given s \<and> taken s' @ pipe_content q' = taken s @ pipe_content q \<and>
        (length (pipe_content q') < length (pipe_content q) \<or> pd_readers q' \<le> 0)))"

text \<open>\<open>I\<close> holds whenever the task runs; its own transfers, which touch memory and the pipe only, keep it.\<close>

definition live_peers :: "('z fds_scheme \<Rightarrow> 'z fds_scheme) \<Rightarrow> ('z fds_scheme \<Rightarrow> bool) \<Rightarrow> u32 \<Rightarrow>
    ('z fds_scheme \<Rightarrow> u8 list) \<Rightarrow> ('z fds_scheme \<Rightarrow> u8 list) \<Rightarrow> u32 set \<Rightarrow> bool" where
  "live_peers resume I p taken given kept \<longleftrightarrow>
     (\<forall>s q. I s \<and> pipes s p = Some q \<and> pipe_inv q \<and> (pd_count q = 0 \<and> pd_writers q > 0 \<or> pd_count q = 4096 \<and> pd_readers q > 0) \<longrightarrow>
       (\<exists>b s1. yield s = Some (b, s1) \<and> I (resume s1) \<and> peer_step taken given p kept s (resume s1))) \<and>
     (\<forall>s m. I s \<longrightarrow> I (s\<lparr>mem := m\<rparr>) \<and> taken (s\<lparr>mem := m\<rparr>) = taken s \<and> given (s\<lparr>mem := m\<rparr>) = given s) \<and>
     (\<forall>s q q'. I s \<and> pipes s p = Some q \<and> pd_readers q' = pd_readers q \<and> pd_writers q' = pd_writers q \<longrightarrow>
       I (s\<lparr>pipes := (pipes s)(p \<mapsto> q')\<rparr>) \<and> taken (s\<lparr>pipes := (pipes s)(p \<mapsto> q')\<rparr>) = taken s \<and> given (s\<lparr>pipes := (pipes s)(p \<mapsto> q')\<rparr>) = given s)"

lemma live_peersD:
  assumes "live_peers resume I p taken given kept" and "I s"
  shows "I (s\<lparr>mem := m\<rparr>)" "taken (s\<lparr>mem := m\<rparr>) = taken s" "given (s\<lparr>mem := m\<rparr>) = given s"
  using assms unfolding live_peers_def by blast+

lemma live_peers_pipe:
  assumes "live_peers resume I p taken given kept" and "I s" and "pipes s p = Some q" and "pd_readers q' = pd_readers q" and "pd_writers q' = pd_writers q"
  shows "I (s\<lparr>pipes := (pipes s)(p \<mapsto> q')\<rparr>)" "taken (s\<lparr>pipes := (pipes s)(p \<mapsto> q')\<rparr>) = taken s" "given (s\<lparr>pipes := (pipes s)(p \<mapsto> q')\<rparr>) = given s"
  using assms unfolding live_peers_def by blast+

lemma pipe_get_ends [simp]: "pd_readers (snd (pipe_get q)) = pd_readers q" "pd_writers (snd (pipe_get q)) = pd_writers q"
  by (simp_all add: pipe_get_def)

lemma live_peers_yield:
  assumes "live_peers resume I p taken given kept" and "I s" and "pipes s p = Some q" and "pipe_inv q"
    and "pd_count q = 0 \<and> pd_writers q > 0 \<or> pd_count q = 4096 \<and> pd_readers q > 0"
  obtains b s1 where "yield s = Some (b, s1)" "I (resume s1)" "peer_step taken given p kept s (resume s1)"
  using assms unfolding live_peers_def by blast

lemma pipe_content_empty: "pipe_content q = [] \<longleftrightarrow> pd_count q = 0"
  by (simp add: pipe_content_def)

lemma succ32: "(n :: u32) < count \<Longrightarrow> unat (n + 1) = Suc (unat n) \<and> n + 1 \<le> count \<and> unat n < unat count"
  using unat_add_no_wrap32 [of n 1] unat_lt32 [of count] by (simp add: word_less_nat_alt word_le_nat_alt)

text \<open>The writer, whose bytes all arrive behind what the pipe already held.\<close>

lemma pipe_write_loop_waits:
  assumes "live_peers resume I p taken given kept" and "p \<noteq> NULL" and "\<forall>i < unat count. buf + of_nat i \<in> kept"
    and "I s" and "pipes s p = Some q" and "pipe_inv q" and "n \<le> count"
  shows "\<exists>r s' q' k. pipe_write_loop resume p buf count n s = Some (r, s') \<and> I s' \<and> pipes s' p = Some q' \<and> pipe_inv q' \<and>
    given s' = given s \<and> (\<forall>a\<in>kept. mem s' a = mem s a) \<and> unat n \<le> k \<and> k \<le> unat count \<and>
    (r = Some count \<and> k = unat count \<or> r = None \<and> k < unat count \<and> pd_readers q' \<le> 0) \<and>
    taken s' @ pipe_content q' = taken s @ pipe_content q @ map (\<lambda>i. mem s (buf + of_nat i)) [unat n..<k]"
  using assms(4-7)
proof (induction "2 * (unat count - unat n) + (if pd_count q = 4096 \<and> pd_readers q > 0 then 1 else 0)" arbitrary: n s q rule: less_induct)
  case less
  have unfold: "pipe_write_loop resume p buf count n s = (if n < count then
      if pd_readers q \<le> 0 then Some (None, s)
      else if pd_count q < 4096 then pipe_write_loop resume p buf count (n + 1) (s\<lparr>pipes := (pipes s)(p \<mapsto> pipe_put (mem s (buf + n)) q)\<rparr>)
      else Option.bind (yield s) (\<lambda>(_, s). pipe_write_loop resume p buf count n (resume s)) else Some (Some n, s))"
    using less.prems(2) assms(2) by (simp add: pipe_write_loop.simps [of resume p buf count n s] get_pipe_def)
  consider "n = count" | "n < count" "pd_readers q \<le> 0" | "n < count" "pd_readers q > 0" "pd_count q < 4096"
    | "n < count" "pd_readers q > 0" "pd_count q = 4096"
    using less.prems(3,4) by (force simp: pipe_inv_def)
  then show ?case
  proof cases
    case 1
    then show ?thesis using unfold less.prems by (intro exI [of _ "Some count"] exI [of _ s] exI [of _ q] exI [of _ "unat count"]) simp
  next
    case 2
    then show ?thesis using unfold less.prems by (intro exI [of _ None] exI [of _ s] exI [of _ q] exI [of _ "unat n"]) (simp add: word_less_nat_alt)
  next
    case 3
    let ?x = "mem s (buf + n)"
    let ?s = "s\<lparr>pipes := (pipes s)(p \<mapsto> pipe_put ?x q)\<rparr>"
    note n1 = succ32 [OF 3(1)]
    note live = live_peers_pipe [OF assms(1) less.prems(1,2), of "pipe_put ?x q", simplified]
    have q: "pipe_inv (pipe_put ?x q)" "pipe_content (pipe_put ?x q) = pipe_content q @ [?x]"
      using pipe_put_content [OF less.prems(3), of ?x] 3(3) by simp_all
    have p: "pipes ?s p = Some (pipe_put ?x q)" by simp
    have "2 * (unat count - unat (n + 1)) + (if b then 1 else 0) < 2 * (unat count - unat n) + (if c then 1 else 0)" for b c using n1 by auto
    from less.hyps [OF this live(1) p q(1) n1 [THEN conjunct2, THEN conjunct1]] obtain r s' q' k where
      r: "pipe_write_loop resume p buf count (n + 1) ?s = Some (r, s')" "I s'" "pipes s' p = Some q'" "pipe_inv q'" "given s' = given ?s"
      "\<forall>a\<in>kept. mem s' a = mem ?s a" "unat (n + 1) \<le> k" "k \<le> unat count" "r = Some count \<and> k = unat count \<or> r = None \<and> k < unat count \<and> pd_readers q' \<le> 0"
      "taken s' @ pipe_content q' = taken ?s @ pipe_content (pipe_put ?x q) @ map (\<lambda>i. mem ?s (buf + of_nat i)) [unat (n + 1)..<k]"
      by blast
    have "[unat n..<k] = unat n # [unat (n + 1)..<k]" using r(7) n1 by (simp add: upt_conv_Cons)
    then show ?thesis using unfold 3 r n1 live(2,3) q(2)
      by (intro exI [of _ r] exI [of _ s'] exI [of _ q'] exI [of _ k]) simp
  next
    case 4
    obtain b s1 where y: "yield s = Some (b, s1)" "I (resume s1)" "peer_step taken given p kept s (resume s1)"
      by (rule live_peers_yield [OF assms(1) less.prems(1-3)]) (use 4 in auto)
    have "pipe_content q \<noteq> []" using 4(3) by (simp add: pipe_content_empty)
    then obtain q1 where q1: "pipes (resume s1) p = Some q1" "pipe_inv q1" "\<forall>a\<in>kept. mem (resume s1) a = mem s a" "given (resume s1) = given s"
      "taken (resume s1) @ pipe_content q1 = taken s @ pipe_content q" "pd_count q1 < pd_count q \<or> pd_readers q1 \<le> 0"
      using y(3) less.prems(2) by (auto simp: peer_step_def)
    have "2 * (unat count - unat n) + (if pd_count q1 = 4096 \<and> pd_readers q1 > 0 then 1 else 0) < 2 * (unat count - unat n) + (if pd_count q = 4096 \<and> pd_readers q > 0 then 1 else 0)"
      using q1(6) 4 by auto
    from less.hyps [OF this y(2) q1(1,2) less.prems(4)] obtain r s' q' k where
      r: "pipe_write_loop resume p buf count n (resume s1) = Some (r, s')" "I s'" "pipes s' p = Some q'" "pipe_inv q'" "given s' = given (resume s1)"
      "\<forall>a\<in>kept. mem s' a = mem (resume s1) a" "unat n \<le> k" "k \<le> unat count" "r = Some count \<and> k = unat count \<or> r = None \<and> k < unat count \<and> pd_readers q' \<le> 0"
      "taken s' @ pipe_content q' = taken (resume s1) @ pipe_content q1 @ map (\<lambda>i. mem (resume s1) (buf + of_nat i)) [unat n..<k]"
      by blast
    have m: "map (\<lambda>i. mem (resume s1) (buf + of_nat i)) [unat n..<k] = map (\<lambda>i. mem s (buf + of_nat i)) [unat n..<k]"
      using q1(3) assms(3) r(8) by simp
    have "taken s' @ pipe_content q' = taken s @ pipe_content q @ map (\<lambda>i. mem s (buf + of_nat i)) [unat n..<k]"
      using r(10) q1(5) unfolding m by (metis append.assoc)
    moreover have "pipe_write_loop resume p buf count n s = pipe_write_loop resume p buf count n (resume s1)"
      unfolding unfold using 4 y(1) by simp
    moreover have "\<forall>a\<in>kept. mem s' a = mem s a" "given s' = given s" using r(5,6) q1(3,4) by simp_all
    ultimately show ?thesis using r(1-4,7-9) by metis
  qed
qed

text \<open>The reader, who gets what the pipe held and then what the writers put in, without a gap.\<close>

lemma pipe_read_loop_waits:
  assumes "live_peers resume I p taken given kept" and "p \<noteq> NULL" and "\<forall>i < unat count. buf + of_nat i \<in> kept"
    and "I s" and "pipes s p = Some q" and "pipe_inv q" and "n \<le> count"
  shows "\<exists>m s' q' xs. pipe_read_loop resume p buf count n s = Some (m, s') \<and> I s' \<and> pipes s' p = Some q' \<and> pipe_inv q' \<and>
    n \<le> m \<and> m \<le> count \<and> (m = count \<or> pipe_content q' = [] \<and> pd_writers q' \<le> 0) \<and> taken s' = taken s \<and> given s' = given s @ xs \<and>
    (\<forall>i < unat n. mem s' (buf + of_nat i) = mem s (buf + of_nat i)) \<and>
    map (\<lambda>i. mem s' (buf + of_nat i)) [unat n..<unat m] @ pipe_content q' = pipe_content q @ xs"
  using assms(4-7)
proof (induction "2 * (unat count - unat n) + (if pd_count q = 0 \<and> pd_writers q > 0 then 1 else 0)" arbitrary: n s q rule: less_induct)
  case less
  have unfold: "pipe_read_loop resume p buf count n s = (if n < count then
      if pd_count q > 0 then pipe_read_loop resume p buf count (n + 1) (s\<lparr>mem := (mem s)(buf + n := fst (pipe_get q)), pipes := (pipes s)(p \<mapsto> snd (pipe_get q))\<rparr>)
      else if pd_writers q \<le> 0 then Some (n, s)
      else Option.bind (yield s) (\<lambda>(_, s). pipe_read_loop resume p buf count n (resume s)) else Some (n, s))"
    using less.prems(2) assms(2) by (simp add: pipe_read_loop.simps [of resume p buf count n s] get_pipe_def split_beta Let_def)
  consider "n = count" | "n < count" "pd_count q > 0" | "n < count" "pd_count q = 0" "pd_writers q \<le> 0"
    | "n < count" "pd_count q = 0" "pd_writers q > 0"
    using less.prems(4) by force
  then show ?case
  proof cases
    case 1
    then show ?thesis using unfold less.prems by (intro exI [of _ count] exI [of _ s] exI [of _ q] exI [of _ "[]"]) simp
  next
    case 2
    let ?x = "fst (pipe_get q)" and ?q = "snd (pipe_get q)"
    let ?s = "s\<lparr>mem := (mem s)(buf + n := ?x), pipes := (pipes s)(p \<mapsto> ?q)\<rparr>"
    note n1 = succ32 [OF 2(1)]
    have ne: "pipe_content q \<noteq> []" using 2(2) by (simp add: pipe_content_empty)
    have q: "pipe_inv ?q" "pipe_content q = ?x # pipe_content ?q" using pipe_get_content [OF less.prems(3) ne] ne by auto
    note m = live_peersD [OF assms(1) less.prems(1), of "(mem s)(buf + n := ?x)"]
    have "pipes (s\<lparr>mem := (mem s)(buf + n := ?x)\<rparr>) p = Some q" using less.prems(2) by simp
    then have "I ?s" "taken ?s = taken s" "given ?s = given s"
      using live_peers_pipe [OF assms(1) m(1), of q ?q] m(2,3) by simp_all
    note I = this
    have p: "pipes ?s p = Some ?q" by simp
    have "2 * (unat count - unat (n + 1)) + (if b then 1 else 0) < 2 * (unat count - unat n) + (if c then 1 else 0)" for b c using n1 by auto
    from less.hyps [OF this I(1) p q(1) n1 [THEN conjunct2, THEN conjunct1]] obtain m s' q' xs where
      r: "pipe_read_loop resume p buf count (n + 1) ?s = Some (m, s')" "I s'" "pipes s' p = Some q'" "pipe_inv q'" "n + 1 \<le> m" "m \<le> count"
      "m = count \<or> pipe_content q' = [] \<and> pd_writers q' \<le> 0" "taken s' = taken ?s" "given s' = given ?s @ xs"
      "\<forall>i < unat (n + 1). mem s' (buf + of_nat i) = mem ?s (buf + of_nat i)"
      "map (\<lambda>i. mem s' (buf + of_nat i)) [unat (n + 1)..<unat m] @ pipe_content q' = pipe_content ?q @ xs"
      by blast
    have "mem s' (buf + n) = ?x" using r(10) n1 by (auto dest: spec [where x = "unat n"])
    moreover have "mem s' (buf + of_nat i) = mem s (buf + of_nat i)" if "i < unat n" for i
    proof -
      have "unat (of_nat i :: u32) = i" using that unat_lt32 [of n] by (intro unat_of_nat32) linarith
      then have "of_nat i \<noteq> n" using that by auto
      then show ?thesis using r(10) that n1 by simp
    qed
    moreover have "n \<le> m" "[unat n..<unat m] = unat n # [unat (n + 1)..<unat m]"
      using r(5) n1 by (simp_all add: upt_conv_Cons word_le_nat_alt)
    ultimately show ?thesis using unfold 2 r I q(2)
      by (intro exI [of _ m] exI [of _ s'] exI [of _ q'] exI [of _ xs]) simp
  next
    case 3
    then show ?thesis using unfold less.prems by (intro exI [of _ n] exI [of _ s] exI [of _ q] exI [of _ "[]"]) (simp add: pipe_content_empty)
  next
    case 4
    obtain b s1 where y: "yield s = Some (b, s1)" "I (resume s1)" "peer_step taken given p kept s (resume s1)"
      by (rule live_peers_yield [OF assms(1) less.prems(1-3)]) (use 4 in auto)
    have e: "pipe_content q = []" using 4(2) by (simp add: pipe_content_empty)
    then obtain q1 where q1: "pipes (resume s1) p = Some q1" "pipe_inv q1" "\<forall>a\<in>kept. mem (resume s1) a = mem s a" "taken (resume s1) = taken s"
      "given (resume s1) = given s @ pipe_content q1" "pd_count q1 > 0 \<or> pd_writers q1 \<le> 0"
      using y(3) less.prems(2) by (auto simp: peer_step_def pipe_content_empty)
    have "2 * (unat count - unat n) + (if pd_count q1 = 0 \<and> pd_writers q1 > 0 then 1 else 0) < 2 * (unat count - unat n) + (if pd_count q = 0 \<and> pd_writers q > 0 then 1 else 0)"
      using q1(6) 4 by auto
    from less.hyps [OF this y(2) q1(1,2) less.prems(4)] obtain m s' q' xs where
      r: "pipe_read_loop resume p buf count n (resume s1) = Some (m, s')" "I s'" "pipes s' p = Some q'" "pipe_inv q'" "n \<le> m" "m \<le> count"
      "m = count \<or> pipe_content q' = [] \<and> pd_writers q' \<le> 0" "taken s' = taken (resume s1)" "given s' = given (resume s1) @ xs"
      "\<forall>i < unat n. mem s' (buf + of_nat i) = mem (resume s1) (buf + of_nat i)"
      "map (\<lambda>i. mem s' (buf + of_nat i)) [unat n..<unat m] @ pipe_content q' = pipe_content q1 @ xs"
      by blast
    have "\<forall>i < unat n. mem s' (buf + of_nat i) = mem s (buf + of_nat i)"
      using r(10) q1(3) assms(3) 4(1) by (simp add: word_less_nat_alt)
    moreover have "pipe_read_loop resume p buf count n s = pipe_read_loop resume p buf count n (resume s1)"
      unfolding unfold using 4 y(1) by simp
    moreover have "taken s' = taken s" "given s' = given s @ pipe_content q1 @ xs" using r(8,9) q1(4,5) by simp_all
    ultimately show ?thesis using r(1-7,11) unfolding e append_Nil by metis
  qed
qed

section \<open>Round trips through descriptors\<close>

text \<open>Descriptor \<open>fd\<close> of the current task refers to the open file number \<open>i\<close>.\<close>

definition open_as :: "int \<Rightarrow> int \<Rightarrow> kfile \<Rightarrow> 'z fds_scheme \<Rightarrow> bool" where
  "open_as fd i k s \<longleftrightarrow> 0 \<le> fd \<and> fd < int MAX_FDS \<and> i \<noteq> -1 \<and> get_file i s = Some k \<and>
     (\<exists>t. get_task (current_task s) s = Some t \<and> fd_at fd t = Some i)"

lemma open_as_mono:
  "open_as fd i k s \<Longrightarrow> open_files s' = open_files s \<Longrightarrow> tasks s' = tasks s \<Longrightarrow> current_task s' = current_task s \<Longrightarrow> open_as fd i k s'"
  by (simp only: open_as_def get_file_def get_task_def simp_thms)

definition put_file :: "int \<Rightarrow> kfile \<Rightarrow> (u32 \<Rightarrow> u8) \<Rightarrow> 'z fds_scheme \<Rightarrow> 'z fds_scheme" where
  "put_file i k m s = s\<lparr>mem := m, open_files := (open_files s)[nat i := k]\<rparr>"

lemma open_as_put:
  assumes "open_as fd i k s"
  shows "upd_file i f (s\<lparr>mem := m\<rparr>) = Some (put_file i (f k) m s)" "open_as fd i k' (put_file i k' m s)"
    "get_file i (put_file i k' m s) = Some k'" "mem (put_file i k' m s) = m"
  using assms by (auto simp: open_as_def upd_file_def get_file_def put_file_def get_task_def split: if_splits)

lemma put_file_twice [simp]: "put_file i k' m' (put_file i k m s) = put_file i k' m' s"
  by (simp add: put_file_def)

lemma open_as_get:
  assumes "open_as fd i k s"
  obtains t where "get_task (current_task s) s = Some t" "fd_at fd t = Some i" "get_file i s = Some k" "i \<noteq> -1" "0 \<le> fd" "fd < int MAX_FDS"
  using assms by (auto simp: open_as_def)

lemma sys_write_fd_file:
  assumes "open_as fd i k s" and "kf_type k = FILE_TYPE_NORMAL"
    and g: "grow_file i (kf_offset k + count) s = Some (put_file i (k\<lparr>kf_buffer := q, kf_capacity := c\<rparr>) M t)" and t: "open_as fd i k t"
  shows "sys_write_fd resume fd src count s = Some (sint count,
    put_file i (k\<lparr>kf_buffer := q, kf_capacity := c, kf_offset := kf_offset k + count, kf_size := max (kf_size k) (kf_offset k + count), is_dirty := 1\<rparr>)
      (fast_memcpy M (q + kf_offset k) src count) t)"
proof -
  obtain u where u: "get_task (current_task s) s = Some u" "fd_at fd u = Some i" "get_file i s = Some k" "i \<noteq> -1" "0 \<le> fd" "fd < int MAX_FDS"
    using assms(1) by (rule open_as_get)
  let ?k = "k\<lparr>kf_buffer := q, kf_capacity := c\<rparr>"
  have f: "get_file i (put_file i ?k M t) = Some ?k" "mem (put_file i ?k M t) = M" using open_as_put(3,4) [OF t] by simp_all
  have mx: "(if kf_size k < x then x else kf_size k) = max (kf_size k) x" for x by (auto simp: max_def)
  have "upd_file i h ((put_file i ?k M t)\<lparr>mem := m\<rparr>) = Some (put_file i (h ?k) m t)" for h m
    using open_as_put(1) [OF open_as_put(2) [OF t, of ?k M], of h m] by simp
  then show ?thesis
    using u assms(2) g f by (simp add: sys_write_fd_def mx Let_def)
qed

lemma sys_lseek_set:
  assumes "open_as fd i k s" and "kf_type k \<noteq> FILE_TYPE_PIPE"
  shows "sys_lseek fd (int (unat off)) 0 s = Some (sint off, put_file i (k\<lparr>kf_offset := off\<rparr>) (mem s) s)"
proof -
  obtain t where t: "get_task (current_task s) s = Some t" "fd_at fd t = Some i" "get_file i s = Some k" "i \<noteq> -1" "0 \<le> fd" "fd < int MAX_FDS"
    using assms(1) by (rule open_as_get)
  show ?thesis using t assms(2) open_as_put(1) [OF assms(1), of _ "mem s"] by (simp add: sys_lseek_def)
qed

lemma sys_read_fd_file:
  assumes "open_as fd i k s" and "kf_type k \<noteq> FILE_TYPE_PIPE" and "kf_offset k < kf_size k" and "kf_offset k + count \<le> kf_size k"
  shows "sys_read_fd resume fd dst count s = Some (sint count,
    put_file i (k\<lparr>kf_offset := kf_offset k + count\<rparr>) (fast_memcpy (mem s) dst (kf_buffer k + kf_offset k) count) s)"
proof -
  obtain t where t: "get_task (current_task s) s = Some t" "fd_at fd t = Some i" "get_file i s = Some k" "i \<noteq> -1" "0 \<le> fd" "fd < int MAX_FDS"
    using assms(1) by (rule open_as_get)
  have "\<not> kf_size k \<le> kf_offset k" "\<not> kf_size k < kf_offset k + count"
    using assms(3,4) by (simp_all only: linorder_not_less linorder_not_le)
  then show ?thesis using t assms(2) open_as_put(1) [OF assms(1)] by (simp add: sys_read_fd_def)
qed

section \<open>Growing a file\<close>

text \<open>
  The buffer of an open file is an allocation of the heap that is at least as large as its capacity, and its size is within the capacity.
  A buffer of the caller is memory the heap does not hand out, apart from the file's buffer.
\<close>

definition file_ok :: "ablock list \<Rightarrow> kfile \<Rightarrow> bool" where
  "file_ok bs k \<longleftrightarrow> (\<exists>m. (kf_buffer k, m) \<in> live bs \<and> unat (kf_capacity k) \<le> m) \<and> kf_size k \<le> kf_capacity k"

definition caller_buffer :: "ablock list \<Rightarrow> kfile \<Rightarrow> u32 \<Rightarrow> nat \<Rightarrow> bool" where
  "caller_buffer bs k a n \<longleftrightarrow> (\<forall>i<n. a + of_nat i \<in> used_memory bs \<and> outside (unat (kf_buffer k)) (unat (kf_buffer k) + unat (kf_capacity k)) (a + of_nat i))"

definition file_bytes :: "kfile \<Rightarrow> (u32 \<Rightarrow> u8) \<Rightarrow> u8 list" where
  "file_bytes k m = read_bytes m (kf_buffer k) (unat (kf_size k))"

lemma live_range:
  assumes "heap_ok s bs" and "(q, m) \<in> live bs"
  shows "unat q + m \<le> HEAP_END" "28 \<le> unat q"
proof -
  obtain p n where p: "q = p + sizeof_block" "m = unat n" "(p, n, False) \<in> set bs" using assms(2) by (auto simp: live_def)
  have wf: "heap_wf bs" using assms(1) by (simp add: heap_ok_def)
  show "unat q + m \<le> HEAP_END" "28 \<le> unat q"
    using heap_wf_block [OF wf p(3)] heap_wf_ptr(1) [OF wf p(3)] p(1,2) by simp_all
qed

text \<open>A fresh allocation, and the release of an old one.\<close>

lemma kmalloc_live:
  assumes hok: "heap_ok s bs" and k: "unat k \<le> 0xFFFFFFFC" and rm: "room bs (unat (round_size k))"
  obtains q m B F bs' where "kmalloc k s = Some (q, s\<lparr>blocks := B, free_bins := F\<rparr>)" "heap_ok (s\<lparr>blocks := B, free_bins := F\<rparr>) bs'"
    "live bs' = insert (q, m) (live bs)" "unat k \<le> m" "\<forall>x\<in>live bs. fst x \<noteq> q" "\<forall>x\<in>used_memory bs. outside (unat q) (unat q + m) x"
    "\<forall>x\<in>live bs. disjoint_ranges (q, m) x"
proof (rule kmalloc_room [OF hok rm])
  fix p n B F assume a: "kmalloc k s = Some (p + sizeof_block, s\<lparr>blocks := B, free_bins := F\<rparr>)" "(p, n, True) \<in> set bs" "round_size k \<le> n"
    "heap_ok (s\<lparr>blocks := B, free_bins := F\<rparr>) (a_alloc p (round_size k) bs)" "\<not> allocated_at bs (p + sizeof_block)"
  have wf: "heap_wf bs" using hok by (simp add: heap_ok_def)
  obtain m where m: "round_size k \<le> m" "m \<le> n"
    "\<And>q j. (q, j, False) \<in> set (a_alloc p (round_size k) bs) \<longleftrightarrow> (q, j, False) \<in> set bs \<or> (q = p \<and> j = m)"
    by (rule a_alloc_used [OF wf a(2,3)]) blast
  have u: "unat (p + sizeof_block) = unat p + 28" by (rule heap_wf_ptr(1) [OF wf a(2)])
  have "live (a_alloc p (round_size k) bs) = insert (p + sizeof_block, unat m) (live bs)" using m(3) by (auto simp: live_def)
  moreover have "unat k \<le> unat m" using round_size_ge [OF k] m(1) by (simp add: word_le_nat_alt)
  moreover have "\<forall>x\<in>live bs. fst x \<noteq> p + sizeof_block" using a(5) by (auto simp: live_def allocated_at_def)
  moreover have mn: "unat m \<le> unat n" using m(2) by (simp add: word_le_nat_alt)
  then have "\<forall>x\<in>used_memory bs. outside (unat (p + sizeof_block)) (unat (p + sizeof_block) + unat m) x"
    using a(2) u unfolding used_memory_def by (fastforce elim: outside_mono)
  moreover have "\<forall>x\<in>live bs. disjoint_ranges (p + sizeof_block, unat m) x"
  proof
    fix x assume "x \<in> live bs"
    then obtain q j where q: "x = (q + sizeof_block, unat j)" "(q, j, False) \<in> set bs" by (auto simp: live_def)
    then have "p \<noteq> q" using eq_key_imp_eq_value [OF heap_wf_distinct [OF wf] a(2)] by fastforce
    then show "disjoint_ranges (p + sizeof_block, unat m) x"
      using block_ranges_disjoint [OF wf a(2) q(2)] mn u heap_wf_ptr(1) [OF wf q(2)] q(1) by (auto simp: disjoint_ranges_def)
  qed
  ultimately show ?thesis using that [OF a(1,4)] by blast
qed

lemma kfree_live:
  assumes hok: "heap_ok s bs" and q: "(q, m) \<in> live bs"
  obtains B F bs' where "kfree q s = Some (s\<lparr>blocks := B, free_bins := F\<rparr>)" "heap_ok (s\<lparr>blocks := B, free_bins := F\<rparr>) bs'" "live bs' = live bs - {(q, m)}"
proof -
  obtain p n where p: "q = p + sizeof_block" "m = unat n" "(p, n, False) \<in> set bs" using q by (auto simp: live_def)
  have wf: "heap_wf bs" using hok by (simp add: heap_ok_def)
  obtain s' where f: "kfree (p + sizeof_block) s = Some s'" "heap_frame s s'" "heap_ok s' (a_free p bs)" by (rule kfree_used [OF hok p(3)])
  have "s' = s\<lparr>blocks := blocks s', free_bins := free_bins s'\<rparr>" using f(2) by (simp add: heap_frame_def)
  then show ?thesis using that f(1,3) live_a_free [OF wf p(3)] p(1,2) by metis
qed

lemma no_wrap_range:
  assumes "unat (a :: u32) + n < 4294967296"
  shows "unat (x - a) < n \<longleftrightarrow> unat a \<le> unat x \<and> unat x < unat a + n"
proof (cases "unat a \<le> unat x")
  case True
  then show ?thesis using unat_sub32 [of a x] by auto
next
  case False
  then have "unat (x - a) = unat x + 4294967296 - unat a"
    using unat_sub_if_size [of x a] by (simp add: word_size)
  then show ?thesis using False assms by auto
qed

lemma outside_other:
  assumes "\<forall>i<n. outside (unat a) (unat a + n) (b + of_nat i)" and "0 < n" and "unat (a :: u32) + n < 4294967296"
  shows "n \<le> unat (a - b)" "n \<le> unat (b - a)"
proof -
  show "n \<le> unat (a - b)"
  proof (rule ccontr)
    assume "\<not> n \<le> unat (a - b)"
    then have "outside (unat a) (unat a + n) (b + of_nat (unat (a - b)))" using assms(1) [rule_format, of "unat (a - b)"] by simp
    then show False using assms(2) by (simp add: outside_def)
  qed
  show "n \<le> unat (b - a)"
    using assms(1) [rule_format, of 0] assms(2) no_wrap_range [OF assms(3), of b] by (auto simp: outside_def)
qed

text \<open>
  Before a write the file has room: its old buffer, or a new one into which the contents are copied. What the
  caller holds is neither changed nor inside the buffer.
\<close>

lemma grow_file_ok:
  fixes s :: "'z fds_scheme"
  assumes op: "get_file i s = Some k" and hok: "heap_ok s bs" and fo: "file_ok bs k" and nw: "unat need + 4096 \<le> 0xFFFFFFFC"
    and rm: "need \<le> kf_capacity k \<or> room bs (unat (round_size (need + 4096)))"
  obtains q c m M B F bs' where "grow_file i need s = Some (put_file i (k\<lparr>kf_buffer := q, kf_capacity := c\<rparr>) M (s\<lparr>blocks := B, free_bins := F\<rparr>))"
    "heap_ok (s\<lparr>blocks := B, free_bins := F\<rparr>) bs'" "(q, m) \<in> live bs'" "unat c \<le> m" "need \<le> c" "kf_size k \<le> c" "unat q + unat c \<le> HEAP_END"
    "read_bytes M q (unat (kf_size k)) = file_bytes k (mem s)"
    "\<And>x. x \<in> used_memory bs \<Longrightarrow> outside (unat (kf_buffer k)) (unat (kf_buffer k) + unat (kf_capacity k)) x \<Longrightarrow>
       outside (unat q) (unat q + unat c) x \<and> M x = mem s x"
proof (cases "need \<le> kf_capacity k")
  case True
  then have "\<not> kf_capacity k < need" by (simp only: linorder_not_less)
  then have g: "grow_file i need s = Some s" using op by (simp add: grow_file_def)
  have "(open_files s)[nat i := k] = open_files s" using op by (auto simp: get_file_def split: if_splits)
  then have "put_file i (k\<lparr>kf_buffer := kf_buffer k, kf_capacity := kf_capacity k\<rparr>) (mem s) (s\<lparr>blocks := blocks s, free_bins := free_bins s\<rparr>) = s"
    by (simp add: put_file_def)
  moreover obtain m where m: "(kf_buffer k, m) \<in> live bs" "unat (kf_capacity k) \<le> m" using fo by (auto simp: file_ok_def)
  moreover have "unat (kf_buffer k) + unat (kf_capacity k) \<le> HEAP_END" using live_range(1) [OF hok m(1)] m(2) by simp
  moreover have "kf_size k \<le> kf_capacity k" using fo by (simp add: file_ok_def)
  ultimately show ?thesis
    using that [of "kf_capacity k" "kf_buffer k" "mem s" "free_bins s" "blocks s" bs m] g hok True by (simp add: file_bytes_def)
next
  case False
  let ?b = "kf_buffer k" and ?c = "need + 4096"
  obtain n where n: "(?b, n) \<in> live bs" "unat (kf_capacity k) \<le> n" and sz: "kf_size k \<le> kf_capacity k" using fo by (auto simp: file_ok_def)
  have uc: "unat ?c = unat need + 4096" using nw unat_add_no_wrap32 [of need 4096] by simp
  have cap: "kf_capacity k < need" using False by (simp only: linorder_not_le)
  then have sc: "need \<le> ?c" "kf_size k \<le> ?c" using sz uc by (simp_all add: word_le_nat_alt word_less_nat_alt)
  obtain q m B1 F1 bs1 where a: "kmalloc ?c s = Some (q, s\<lparr>blocks := B1, free_bins := F1\<rparr>)" "heap_ok (s\<lparr>blocks := B1, free_bins := F1\<rparr>) bs1"
    "live bs1 = insert (q, m) (live bs)" "unat ?c \<le> m" "\<forall>x\<in>live bs. fst x \<noteq> q" "\<forall>x\<in>used_memory bs. outside (unat q) (unat q + m) x"
    "\<forall>x\<in>live bs. disjoint_ranges (q, m) x"
    by (rule kmalloc_live [OF hok _ _, of ?c]) (use nw uc rm False in simp_all)
  let ?M = "fast_memcpy (mem s) q ?b (kf_size k)"
  let ?s1 = "s\<lparr>blocks := B1, free_bins := F1, mem := ?M\<rparr>"
  have h1: "heap_ok ?s1 bs1" using a(2) by (simp add: heap_ok_def heap_rel_def)
  obtain B F bs' where f: "kfree ?b ?s1 = Some (?s1\<lparr>blocks := B, free_bins := F\<rparr>)" "heap_ok (?s1\<lparr>blocks := B, free_bins := F\<rparr>) bs'"
    "live bs' = live bs1 - {(?b, n)}"
    by (rule kfree_live [OF h1, of ?b n]) (use a(3) n(1) in auto)
  have ql: "(q, m) \<in> live bs'" using a(3,5) f(3) n(1) by auto
  have hk: "heap_ok (s\<lparr>blocks := B, free_bins := F\<rparr>) bs'" using f(2) by (simp add: heap_ok_def heap_rel_def)
  have g: "grow_file i need s = Some (put_file i (k\<lparr>kf_buffer := q, kf_capacity := ?c\<rparr>) ?M (s\<lparr>blocks := B, free_bins := F\<rparr>))"
    using op cap a(1) f(1) by (auto simp: grow_file_def upd_file_def get_file_def put_file_def Let_def split: if_splits)
  have qm: "unat q + m \<le> HEAP_END" by (rule live_range(1) [OF hk ql])
  have dj: "unat q + m \<le> unat ?b \<or> unat ?b + n \<le> unat q" using a(7) n(1) by (auto simp: disjoint_ranges_def)
  have le: "unat (kf_size k) \<le> n" "unat (kf_size k) \<le> m" "unat ?b + n \<le> HEAP_END"
    using sz n(2) sc(2) a(4) live_range(1) [OF hok n(1)] by (simp_all add: word_le_nat_alt)
  have small: "unat q + unat (kf_size k) < 4294967296" "unat ?b + unat (kf_size k) < 4294967296" using qm le by (simp_all add: HEAP_END_def layout_simps)
  have "unat (kf_size k) \<le> unat (q - ?b) \<or> q = ?b"
    using no_wrap_range [OF small(2), of q] dj le by (cases "unat (kf_size k) = 0") (auto simp: not_le)
  then have cp: "?M = block_copy (mem s) q ?b (unat (kf_size k))" by (intro fast_memcpy_block_copy) auto
  have rb: "read_bytes ?M q (unat (kf_size k)) = file_bytes k (mem s)"
    unfolding cp file_bytes_def by (rule read_bytes_block_copy [OF unat_lt32])
  have fr: "outside (unat q) (unat q + unat ?c) x \<and> ?M x = mem s x" if "x \<in> used_memory bs" for x
  proof -
    have o: "outside (unat q) (unat q + m) x" using a(6) that by blast
    then have "\<not> unat (x - q) < unat (kf_size k)" using no_wrap_range [OF small(1), of x] le(2) by (auto simp: outside_def)
    then show ?thesis using o outside_mono [OF o, of "unat q" "unat q + unat ?c"] a(4) unfolding cp by (simp add: block_copy_def)
  qed
  show ?thesis using that [OF g hk ql a(4) sc _ rb] fr qm a(4) by simp
qed

section \<open>An example state\<close>

definition kfile_example :: "file_type \<Rightarrow> u32 \<Rightarrow> kfile" where
  "kfile_example ty mode = \<lparr>in_use = True, refcount = 1, kf_type = ty, kf_path = ''/a'', kf_buffer = 0x400000, kf_size = 0, kf_offset = 0,
     kf_capacity = 4096, kf_mode = mode, is_dirty = 0, kf_pipe = 0x300000, socket_id = 0\<rparr>"

text \<open>Descriptors 3 and 4 are the ends of a pipe, descriptor 5 is a file.\<close>

definition fds_example :: fds where
  "fds_example = vfs.extend (input.extend (tasking.extend (tasking_example\<lparr>tasks := [0x1000 \<mapsto>
        (task_example 5 0x1000 TASK_RUNNING)\<lparr>fd_table := [-1, -1, -1, 0, 1, 2, -1, -1, -1, -1, -1, -1, -1, -1, -1, -1]\<rparr>]\<rparr>)
      (input.fields False False False False False \<lparr>sb_data = [], sb_count = 0\<rparr> \<lparr>sb_data = [], sb_count = 0\<rparr> 0 []
        \<lparr>m_x = 0, m_y = 0, m_z = 0, left_button = 0, right_button = 0, middle_button = 0\<rparr> 0 [] False))
      (vfs.fields [] ''GenuineIntel'' ''Jan  1 2026'' [] 0))
    (fds.fields [kfile_example FILE_TYPE_PIPE O_RDONLY, kfile_example FILE_TYPE_PIPE O_WRONLY, kfile_example FILE_TYPE_NORMAL 2]
      [0x300000 \<mapsto> empty_pipe] [] (\<lambda>_. 0))"

lemma fds_example_fields [simp]:
  "tasks fds_example = [0x1000 \<mapsto> (task_example 5 0x1000 TASK_RUNNING)\<lparr>fd_table := [-1, -1, -1, 0, 1, 2, -1, -1, -1, -1, -1, -1, -1, -1, -1, -1]\<rparr>]"
  "current_task fds_example = 0x1000" "pipes fds_example = [0x300000 \<mapsto> empty_pipe]"
  "open_files fds_example = [kfile_example FILE_TYPE_PIPE O_RDONLY, kfile_example FILE_TYPE_PIPE O_WRONLY, kfile_example FILE_TYPE_NORMAL 2]"
  by (simp_all add: fds_example_def vfs.defs fds.defs input.defs tasking.defs vga.defs)

lemma fds_example_open:
  "open_as 4 1 (kfile_example FILE_TYPE_PIPE O_WRONLY) fds_example" "open_as 3 0 (kfile_example FILE_TYPE_PIPE O_RDONLY) fds_example"
  "open_as 5 2 (kfile_example FILE_TYPE_NORMAL 2) fds_example"
  by (simp_all add: open_as_def get_file_def get_task_def fd_at_def MAX_FDS_def)

lemma empty_pipe_inv: "pipe_inv empty_pipe" "pipe_content empty_pipe = []"
  by (simp_all add: pipe_inv_def pipe_content_def empty_pipe_def)

section \<open>Pipes and files\<close>

text \<open>
  C37. A pipe delivers what was written into it, also when it is full or empty in between. While the task waits for
  room or for bytes the others run (a rely condition: when it runs again, the readers took at least a byte of a full pipe or
  there are none left, the writers put at least a byte into an empty one or there are none left, and nobody else
  touches the task's buffers). Then every write of less than 2 GB returns, and the bytes the readers took
  followed by the bytes still in the pipe are what was there before followed by exactly the bytes written: all of them,
  or -1 is returned, the reader being gone. Every read returns as well: what it stores, followed by what stays in the pipe, is the
  former content followed by what the writers put in meanwhile, and it falls short of the count asked for only when the pipe is
  empty and has no writer. Without a need to wait only the pipe, and the reader's buffer, change.
\<close>

theorem pipe_transfer:
  fixes s :: "'z fds_scheme"
  assumes "\<forall>s. I s \<longrightarrow> open_as wfd i kw s \<and> open_as rfd j kr s" and "kf_type kw = FILE_TYPE_PIPE" and "kf_pipe kw = p"
    and "kf_type kr = FILE_TYPE_PIPE" and "kf_pipe kr = p"
    and live: "live_peers resume I p taken given kept" and I: "I s"
    and q: "pipes s p = Some q" "p \<noteq> NULL" "pipe_inv q" and n: "unat wcount < 2147483648" "0 < unat rcount" "unat rcount < 2147483648"
    and kept: "\<forall>i < unat wcount. src + of_nat i \<in> kept" "\<forall>i < unat rcount. dst + of_nat i \<in> kept"
  shows "\<exists>r s1 q1 k n s2 q2 xs. sys_write_fd resume wfd src wcount s = Some (r, s1) \<and> I s1 \<and> pipes s1 p = Some q1 \<and> pipe_inv q1 \<and>
    (r = int (unat wcount) \<and> k = unat wcount \<or> r = -1 \<and> k < unat wcount \<and> pd_readers q1 \<le> 0) \<and>
    given s1 = given s \<and> taken s1 @ pipe_content q1 = taken s @ pipe_content q @ read_bytes (mem s) src k \<and>
    sys_read_fd resume rfd dst rcount s1 = Some (int n, s2) \<and> I s2 \<and> pipes s2 p = Some q2 \<and> pipe_inv q2 \<and>
    (n = unat rcount \<or> n < unat rcount \<and> pipe_content q2 = [] \<and> pd_writers q2 \<le> 0) \<and>
    taken s2 = taken s1 \<and> given s2 = given s1 @ xs \<and> read_bytes (mem s2) dst n @ pipe_content q2 = pipe_content q1 @ xs \<and>
    (length (pipe_content q) + unat wcount \<le> 4096 \<and> pd_readers q > 0 \<longrightarrow> s1 = s\<lparr>pipes := (pipes s)(p \<mapsto> q1)\<rparr>) \<and>
    (unat rcount \<le> length (pipe_content q1) \<longrightarrow> s2 = s1\<lparr>mem := mem s2, pipes := (pipes s1)(p \<mapsto> q2)\<rparr> \<and>
       (\<forall>x. unat (x - dst) < unat rcount \<or> mem s2 x = mem s1 x))"
proof -
  obtain r s1 q1 k where w: "pipe_write_loop resume p src wcount 0 s = Some (r, s1)" "I s1" "pipes s1 p = Some q1" "pipe_inv q1" "given s1 = given s"
    "r = Some wcount \<and> k = unat wcount \<or> r = None \<and> k < unat wcount \<and> pd_readers q1 \<le> 0"
    "taken s1 @ pipe_content q1 = taken s @ pipe_content q @ map (\<lambda>i. mem s (src + of_nat i)) [unat (0 :: u32)..<k]"
    using pipe_write_loop_waits [OF live q(2) kept(1) I q(1,3), of 0] by auto
  obtain m s2 q2 xs where rd: "pipe_read_loop resume p dst rcount 0 s1 = Some (m, s2)" "I s2" "pipes s2 p = Some q2" "pipe_inv q2" "m \<le> rcount"
    "m = rcount \<or> pipe_content q2 = [] \<and> pd_writers q2 \<le> 0" "taken s2 = taken s1" "given s2 = given s1 @ xs"
    "map (\<lambda>i. mem s2 (dst + of_nat i)) [unat (0 :: u32)..<unat m] @ pipe_content q2 = pipe_content q1 @ xs"
    using pipe_read_loop_waits [OF live q(2) kept(2) w(2-4), of 0] by auto
  have ml: "unat m \<le> unat rcount" using rd(5) by (simp add: word_le_nat_alt)
  have sm: "sint wcount = int (unat wcount)" "sint m = int (unat m)" using n ml by (simp_all add: sint_small)
  have wr: "sys_write_fd resume wfd src wcount s = Some (case r of Some n \<Rightarrow> sint n | None \<Rightarrow> -1, s1)"
    using assms(1-3) I w(1) by (auto simp: sys_write_fd_def open_as_def)
  have re: "sys_read_fd resume rfd dst rcount s1 = Some (int (unat m), s2)"
    using assms(1,4,5) w(2) rd(1) n(2) sm(2) by (fastforce simp: sys_read_fd_def open_as_def)
  have r: "(case r of Some n \<Rightarrow> sint n | None \<Rightarrow> -1) = int (unat wcount) \<and> k = unat wcount \<or>
      (case r of Some n \<Rightarrow> sint n | None \<Rightarrow> -1) = -1 \<and> k < unat wcount \<and> pd_readers q1 \<le> 0" using w(6) sm(1) by auto
  have tk: "taken s1 @ pipe_content q1 = taken s @ pipe_content q @ read_bytes (mem s) src k" using w(7) by (simp add: read_bytes_def)
  have rb: "read_bytes (mem s2) dst (unat m) @ pipe_content q2 = pipe_content q1 @ xs" using rd(9) by (simp add: read_bytes_def)
  have sh: "unat m = unat rcount \<or> unat m < unat rcount \<and> pipe_content q2 = [] \<and> pd_writers q2 \<le> 0"
    using rd(6) ml by (cases "m = rcount") (auto simp: word_unat_eq_iff)
  have f1: "s1 = s\<lparr>pipes := (pipes s)(p \<mapsto> q1)\<rparr>" if "length (pipe_content q) + unat wcount \<le> 4096 \<and> pd_readers q > 0"
    using pipe_write_loop_fits [OF q(1,2) _ q(3), of 0 wcount resume src] that w(1,3) by auto
  have f2: "s2 = s1\<lparr>mem := mem s2, pipes := (pipes s1)(p \<mapsto> q2)\<rparr> \<and> (\<forall>x. unat (x - dst) < unat rcount \<or> mem s2 x = mem s1 x)"
    if le: "unat rcount \<le> length (pipe_content q1)"
  proof -
    let ?d = "drain pipe_get (unat rcount) q1"
    have e: "s2 = s1\<lparr>mem := write_bytes (mem s1) dst (fst ?d), pipes := (pipes s1)(p \<mapsto> snd ?d)\<rparr>"
      using pipe_read_loop_fits [OF w(3) q(2) w(4), of 0 rcount resume dst] le rd(1) by simp
    then have "q2 = snd ?d" using rd(3) by auto
    moreover have "length (fst ?d) = unat rcount" using pipe.drain_content [OF w(4) le] le by simp
    then have "mem s2 x = mem s1 x" if "\<not> unat (x - dst) < unat rcount" for x
      using that write_bytes_eq [of "fst ?d" "mem s1" dst x] n(3) e by simp
    ultimately show ?thesis using e by auto
  qed
  show ?thesis using wr re r tk rb sh f1 f2 w(2-5) rd(2-4,7,8) by blast
qed

text \<open>
  A writer and a reader behind the pipe of the example: the one takes all of a full pipe, the other puts three
  bytes into an empty one. What they took and put is kept behind the fields of the state.
\<close>

definition peer_example :: "(u8 list \<times> u8 list) fds_scheme \<Rightarrow> (u8 list \<times> u8 list) fds_scheme" where
  "peer_example s = (case pipes s 0x300000 of None \<Rightarrow> s | Some q \<Rightarrow>
     if pd_count q = 0 then s\<lparr>pipes := (pipes s)(0x300000 \<mapsto> fold pipe_put [1, 2, 3] q), more := (fst (fds.more s), snd (fds.more s) @ [1, 2, 3])\<rparr>
     else s\<lparr>pipes := (pipes s)(0x300000 \<mapsto> snd (drain pipe_get (pd_count q) q)), more := (fst (fds.more s) @ pipe_content q, snd (fds.more s))\<rparr>)"

definition peers_example :: "(u8 list \<times> u8 list) fds_scheme" where
  "peers_example = fds.extend fds_example ([], [])"

definition example_running :: "'z fds_scheme \<Rightarrow> bool" where
  "example_running s \<longleftrightarrow> tasks s = tasks fds_example \<and> current_task s = 0x1000 \<and> ready_queue s = 0x1000 \<and> \<not> tasks_need_cleanup s \<and>
     open_files s = open_files fds_example \<and> (\<exists>q. pipes s 0x300000 = Some q \<and> pd_readers q = 1 \<and> pd_writers q = 1)"

lemma peers_example_running: "example_running peers_example"
  by (simp add: example_running_def peers_example_def fds.defs fds_example_def vfs.defs input.defs tasking.defs vga.defs tasking_example_def empty_pipe_def)

lemma example_yields:
  assumes "example_running s"
  shows "yield s = Some (False, s)"
proof -
  obtain fl s0 where f: "save_flags s = (fl, s0)" "s0 = s\<lparr>int_flag := False\<rparr>" "restore_flags fl s0 = s"
    by (cases "save_flags s") (auto simp: save_flags_def restore_flags_def)
  let ?t = "(task_example 5 0x1000 TASK_RUNNING)\<lparr>fd_table := [-1, -1, -1, 0, 1, 2, -1, -1, -1, -1, -1, -1, -1, -1, -1, -1]\<rparr>"
  have g: "get_task 0x1000 s0 = Some ?t" "current_task s0 = 0x1000" "ready_queue s0 = 0x1000" "cleanup_zombies s0 = Some s0" "tasks s0 0x1000 = Some ?t"
    using assms by (simp_all add: f(2) example_running_def get_task_def cleanup_zombies_def)
  have "t_next ?t = 0x1000" "t_state ?t = TASK_RUNNING" by (simp_all add: task_example_def)
  note t = this
  have "sched_search 0x1000 0x1000 s0 = Some (Some 0x1000)" using g t by (simp add: sched_search.simps runnable_def)
  moreover have "wake_task 0x1000 s0 = Some s0" using g t by (simp add: wake_task_def upd_task_def map_upd_triv)
  ultimately show ?thesis using f g t unfolding yield_def task_scheduler_def by simp
qed

lemma drain_ends: "pd_readers (snd (drain pipe_get n q)) = pd_readers q \<and> pd_writers (snd (drain pipe_get n q)) = pd_writers q"
  by (induction n arbitrary: q) (auto simp: Let_def split_beta)

lemma peers_example_live:
  "live_peers peer_example example_running 0x300000 (\<lambda>s. fst (fds.more s)) (\<lambda>s. snd (fds.more s)) UNIV"
proof -
  have step: "\<exists>b s1. yield s = Some (b, s1) \<and> example_running (peer_example s1) \<and>
      peer_step (\<lambda>s. fst (fds.more s)) (\<lambda>s. snd (fds.more s)) 0x300000 UNIV s (peer_example s1)"
    if s: "example_running s" "pipes s 0x300000 = Some q" "pipe_inv q" and c: "pd_count q = 0 \<or> pd_count q = 4096" for s q
  proof (cases "pd_count q = 0")
    case True
    then have e: "pipe_content q = []" by (simp add: pipe_content_empty)
    have p: "pipe_inv (fold pipe_put [1, 2, 3] q)" "pipe_content (fold pipe_put [1, 2, 3] q) = [1, 2, 3]"
      using pipe.fold_put_content [OF s(3), of "[1, 2, 3]"] e by simp_all
    have "peer_step (\<lambda>s. fst (fds.more s)) (\<lambda>s. snd (fds.more s)) 0x300000 UNIV s (peer_example s)"
      using p e s(2) True by (simp add: peer_step_def peer_example_def)
    moreover have "example_running (peer_example s)" using s(1,2) True by (auto simp: example_running_def peer_example_def)
    ultimately show ?thesis using example_yields [OF s(1)] by blast
  next
    case False
    then have n: "pipe_content q \<noteq> []" by (simp add: pipe_content_empty)
    have p: "pipe_inv (snd (drain pipe_get (pd_count q) q))" "pipe_content (snd (drain pipe_get (pd_count q) q)) = []"
      using pipe.drain_content [OF s(3), of "pd_count q"] by simp_all
    have "peer_step (\<lambda>s. fst (fds.more s)) (\<lambda>s. snd (fds.more s)) 0x300000 UNIV s (peer_example s)"
      using p n s(2) False by (simp add: peer_step_def peer_example_def)
    moreover have "example_running (peer_example s)" using s(1,2) False drain_ends by (auto simp: example_running_def peer_example_def)
    ultimately show ?thesis using example_yields [OF s(1)] by blast
  qed
  have "example_running s \<Longrightarrow> example_running (s\<lparr>mem := m\<rparr>)" for s :: "(u8 list \<times> u8 list) fds_scheme" and m
    by (simp add: example_running_def)
  moreover have "example_running s \<Longrightarrow> pipes s 0x300000 = Some q \<Longrightarrow> pd_readers q' = pd_readers q \<Longrightarrow> pd_writers q' = pd_writers q \<Longrightarrow>
      example_running (s\<lparr>pipes := (pipes s)(0x300000 \<mapsto> q')\<rparr>)" for s :: "(u8 list \<times> u8 list) fds_scheme" and q q'
    by (auto simp: example_running_def)
  ultimately show ?thesis using step unfolding live_peers_def by auto
qed

theorem pipe_transfer_witness:
  "\<exists>s1 q1 s2. sys_write_fd peer_example 4 0x5000 5000 peers_example = Some (5000, s1) \<and> pipes s1 0x300000 = Some q1 \<and>
     fst (fds.more s1) @ pipe_content q1 = read_bytes (mem peers_example) 0x5000 5000 \<and> sys_read_fd peer_example 3 0x9000 1000 s1 = Some (1000, s2)"
proof -
  let ?kw = "kfile_example FILE_TYPE_PIPE O_WRONLY" and ?kr = "kfile_example FILE_TYPE_PIPE O_RDONLY"
  have "\<forall>s :: (u8 list \<times> u8 list) fds_scheme. example_running s \<longrightarrow> open_as 4 1 ?kw s \<and> open_as 3 0 ?kr s"
    by (auto simp: example_running_def open_as_def get_file_def get_task_def fd_at_def MAX_FDS_def)
  moreover have "pipes peers_example 0x300000 = Some empty_pipe" "fds.more peers_example = ([], [])"
    by (simp_all add: peers_example_def fds.defs)
  ultimately obtain r s1 q1 k n s2 q2 where "sys_write_fd peer_example 4 0x5000 5000 peers_example = Some (r, s1)" "example_running s1" "pipes s1 0x300000 = Some q1"
    "r = 5000 \<and> k = 5000 \<or> pd_readers q1 \<le> 0" "fst (fds.more s1) @ pipe_content q1 = read_bytes (mem peers_example) 0x5000 k"
    "sys_read_fd peer_example 3 0x9000 1000 s1 = Some (int n, s2)" "example_running s2" "pipes s2 0x300000 = Some q2" "n = 1000 \<or> pd_writers q2 \<le> 0"
    using pipe_transfer [OF _ _ _ _ _ peers_example_live peers_example_running, of 4 1 ?kw 3 0 ?kr empty_pipe 5000 1000 "0x5000" "0x9000"]
    by (force simp: empty_pipe_inv kfile_example_def)
  then show ?thesis by (auto simp: example_running_def)
qed

text \<open>
  C38. A file returns what was written into it, also when its buffer has to grow. Writing through a
  descriptor, at an offset not beyond the end of the file, from a buffer apart from the file's own, either fits or finds room in the heap for
  a larger buffer; then seeking back to where the write began and reading as many bytes gives the
  written bytes. The contents of the file are the old ones with the written bytes in their place, it is as long
  as that requires and marked for writing back, its buffer is again an allocation of the heap that holds its
  capacity; no other open file changes, and no other memory in use than the old buffer and the
  reader's. (Without room in the heap \<^verbatim>\<open>kmalloc\<close> returns NULL, which \<^verbatim>\<open>sys_write_fd\<close> does not check.)
\<close>

theorem file_write_read:
  fixes s :: "'z fds_scheme"
  assumes op: "open_as fd i k s" and ty: "kf_type k = FILE_TYPE_NORMAL" and hok: "heap_ok s bs" and fo: "file_ok bs k"
    and n: "kf_offset k \<le> kf_size k" "0 < count" "unat (kf_offset k) + unat count < 2147483648"
    and rm: "kf_offset k + count \<le> kf_capacity k \<or> room bs (unat (round_size (kf_offset k + count + 4096)))"
    and src: "caller_buffer bs k src (unat count)" and dst: "caller_buffer bs k dst (unat count)"
  shows "\<exists>s1 s2 s3 k3 bs3. sys_write_fd resume fd src count s = Some (int (unat count), s1) \<and>
    sys_lseek fd (int (unat (kf_offset k))) 0 s1 = Some (int (unat (kf_offset k)), s2) \<and>
    sys_read_fd resume fd dst count s2 = Some (int (unat count), s3) \<and>
    read_bytes (mem s3) dst (unat count) = read_bytes (mem s) src (unat count) \<and>
    get_file i s3 = Some k3 \<and> open_files s3 = (open_files s)[nat i := k3] \<and> is_dirty k3 = 1 \<and> kf_offset k3 = kf_offset k + count \<and>
    unat (kf_size k3) = max (unat (kf_size k)) (unat (kf_offset k) + unat count) \<and>
    file_bytes k3 (mem s3) = take (unat (kf_offset k)) (file_bytes k (mem s)) @ read_bytes (mem s) src (unat count) @
      drop (unat (kf_offset k) + unat count) (file_bytes k (mem s)) \<and>
    heap_ok s3 bs3 \<and> file_ok bs3 k3 \<and>
    (\<forall>x\<in>used_memory bs. outside (unat (kf_buffer k)) (unat (kf_buffer k) + unat (kf_capacity k)) x \<longrightarrow> unat count \<le> unat (x - dst) \<longrightarrow> mem s3 x = mem s x)"
proof -
  let ?off = "kf_offset k" and ?n = "unat count" and ?sz = "unat (kf_size k)"
  have u: "unat (?off + count) = unat ?off + ?n" using n(3) by (intro unat_add_no_wrap32) simp
  have sm: "sint count = int ?n" "sint ?off = int (unat ?off)" using n(3) by (simp_all add: sint_small)
  have gf: "get_file i s = Some k" using op by (simp add: open_as_def)
  obtain q c m M B F bs' where g: "grow_file i (?off + count) s = Some (put_file i (k\<lparr>kf_buffer := q, kf_capacity := c\<rparr>) M (s\<lparr>blocks := B, free_bins := F\<rparr>))"
    "heap_ok (s\<lparr>blocks := B, free_bins := F\<rparr>) bs'" "(q, m) \<in> live bs'" "unat c \<le> m" "?off + count \<le> c" "kf_size k \<le> c" "unat q + unat c \<le> HEAP_END"
    "read_bytes M q ?sz = file_bytes k (mem s)"
    and keep: "\<And>x. x \<in> used_memory bs \<Longrightarrow> outside (unat (kf_buffer k)) (unat (kf_buffer k) + unat (kf_capacity k)) x \<Longrightarrow>
       outside (unat q) (unat q + unat c) x \<and> M x = mem s x"
    by (rule grow_file_ok [OF gf hok fo _ rm]) (use u n(3) in auto)
  let ?t = "s\<lparr>blocks := B, free_bins := F\<rparr>" and ?at = "q + ?off"
  have t: "open_as fd i k ?t" using op by (rule open_as_mono) simp_all
  let ?k1 = "k\<lparr>kf_buffer := q, kf_capacity := c, kf_offset := ?off + count, kf_size := max (kf_size k) (?off + count), is_dirty := 1\<rparr>"
  let ?k2 = "?k1\<lparr>kf_offset := ?off\<rparr>" and ?k3 = "?k1\<lparr>kf_offset := ?off + count\<rparr>"
  let ?m1 = "fast_memcpy M ?at src count"
  let ?m3 = "fast_memcpy ?m1 dst ?at count"
  note w = sys_write_fd_file [OF op ty g(1) t, of resume src]
  have "?off < ?off + count" using u n(2) by (simp add: word_less_nat_alt unat_gt_0)
  then have sz: "?off < kf_size ?k2" "?off + count \<le> kf_size ?k2" by (auto simp: less_max_iff_disj)
  have l: "sys_lseek fd (int (unat ?off)) 0 (put_file i ?k1 ?m1 ?t) = Some (int (unat ?off), put_file i ?k2 ?m1 ?t)"
    using sys_lseek_set [OF open_as_put(2) [OF t, of ?k1 ?m1], of ?off] ty sm(2) open_as_put(4) [OF t] by simp
  have r: "sys_read_fd resume fd dst count (put_file i ?k2 ?m1 ?t) = Some (int ?n, put_file i ?k3 ?m3 ?t)"
    using sys_read_fd_file [OF open_as_put(2) [OF t, of ?k2 ?m1], of count resume dst] ty sz sm(1) open_as_put(4) [OF t] by simp
  have lim: "unat ?off + ?n \<le> unat c" "?sz \<le> unat c" "unat q + unat c < 4294967296"
    using g(5-7) u by (simp_all add: word_le_nat_alt HEAP_END_def layout_simps)
  have at: "unat ?at = unat q + unat ?off" using lim by (intro unat_add_no_wrap32) linarith
  have n0: "0 < ?n" using n(2) by (simp add: unat_gt_0)
  have out: "outside (unat ?at) (unat ?at + ?n) (a + of_nat j)" "M (a + of_nat j) = mem s (a + of_nat j)" "outside (unat q) (unat q + unat c) (a + of_nat j)"
    if "caller_buffer bs k a ?n" "j < ?n" for a j
    using that keep [of "a + of_nat j"] at lim(1) by (auto simp: caller_buffer_def outside_def)
  have at_lim: "unat ?at + ?n < 4294967296" using at lim by simp
  have c1: "?m1 = block_copy M ?at src ?n" using outside_other(1) [OF _ n0 at_lim, of src] out(1) [OF src] by (intro fast_memcpy_block_copy) simp
  have c3: "?m3 = block_copy ?m1 dst ?at ?n" using outside_other(2) [OF _ n0 at_lim, of dst] out(1) [OF dst] by (intro fast_memcpy_block_copy) simp
  have sr: "read_bytes M src ?n = read_bytes (mem s) src ?n" using out(2) [OF src] by (intro read_bytes_cong) simp
  have rd: "read_bytes ?m3 dst ?n = read_bytes (mem s) src ?n"
    unfolding c3 read_bytes_block_copy [OF unat_lt32] unfolding c1 sr [symmetric] by (rule read_bytes_block_copy [OF unat_lt32])
  have buf: "?m3 (q + of_nat j) = (if unat ?off \<le> j \<and> j < unat ?off + ?n then read_bytes (mem s) src ?n ! (j - unat ?off) else M (q + of_nat j))"
    if j: "j < unat c" for j
  proof -
    let ?x = "q + of_nat j"
    have x: "unat ?x = unat q + j" using j lim(3) unat_of_nat32 [of j] unat_add_no_wrap32 [of q "of_nat j"] by simp
    have "\<not> unat (?x - dst) < ?n"
    proof
      assume "unat (?x - dst) < ?n"
      from out(3) [OF dst this] show False using x j by (simp add: outside_def)
    qed
    then have e: "?m3 ?x = (if unat (?x - ?at) < ?n then M (src + (?x - ?at)) else M ?x)" unfolding c3 by (simp add: block_copy_def c1)
    have i: "unat (?x - ?at) < ?n \<longleftrightarrow> unat ?off \<le> j \<and> j < unat ?off + ?n" unfolding no_wrap_range [OF at_lim] using x at by auto
    have "M (src + (?x - ?at)) = read_bytes (mem s) src ?n ! (j - unat ?off)" if c: "unat ?off \<le> j" "j < unat ?off + ?n"
    proof -
      define d where "d = j - unat ?off"
      have d: "d < ?n" "unat (?x - ?at) = d" using c x at unat_sub32 [of ?at ?x] by (simp_all add: d_def)
      have "?x - ?at = of_nat (unat (?x - ?at))" by simp
      then have "?x - ?at = of_nat d" unfolding d(2) .
      then show ?thesis using out(2) [OF src d(1)] d(1) unfolding d_def [symmetric] by (simp add: read_bytes_def)
    qed
    then show ?thesis unfolding e i by simp
  qed
  have us: "unat (max (kf_size k) (?off + count)) = max ?sz (unat ?off + ?n)" using u by (simp add: max_def word_le_nat_alt)
  have len: "unat ?off \<le> ?sz" using n(1) by (simp add: word_le_nat_alt)
  have old: "M (q + of_nat j) = file_bytes k (mem s) ! j" if "j < ?sz" for j
    using that arg_cong [OF g(8), of "\<lambda>l. l ! j"] by (simp add: read_bytes_def)
  have fl: "length (file_bytes k (mem s)) = ?sz" by (simp add: file_bytes_def)
  have fb: "file_bytes ?k3 ?m3 = take (unat ?off) (file_bytes k (mem s)) @ read_bytes (mem s) src ?n @ drop (unat ?off + ?n) (file_bytes k (mem s))"
  proof (rule nth_equalityI)
    fix j assume "j < length (file_bytes ?k3 ?m3)"
    then have j: "j < max ?sz (unat ?off + ?n)" "j < unat c" using us lim by (simp_all add: file_bytes_def)
    have "file_bytes ?k3 ?m3 ! j = ?m3 (q + of_nat j)" using j us by (simp add: file_bytes_def read_bytes_def)
    then show "file_bytes ?k3 ?m3 ! j = (take (unat ?off) (file_bytes k (mem s)) @ read_bytes (mem s) src ?n @ drop (unat ?off + ?n) (file_bytes k (mem s))) ! j"
      unfolding buf [OF j(2)] using j(1) len fl old by (auto simp: nth_append)
  qed (use us len fl in \<open>simp add: file_bytes_def\<close>)
  have fr: "?m3 x = mem s x" if x: "x \<in> used_memory bs" "outside (unat (kf_buffer k)) (unat (kf_buffer k) + unat (kf_capacity k)) x" "?n \<le> unat (x - dst)" for x
  proof -
    have "outside (unat ?at) (unat ?at + ?n) x" "M x = mem s x" using keep [OF x(1,2)] at lim(1) by (auto simp: outside_def)
    then have "\<not> unat (x - ?at) < ?n" "M x = mem s x" using no_wrap_range [OF at_lim, of x] by (auto simp: outside_def)
    then show ?thesis using x(3) unfolding c3 by (simp add: block_copy_def c1)
  qed
  have "file_ok bs' ?k3" using g(3-6) by (auto simp: file_ok_def)
  moreover have "heap_ok (put_file i ?k3 ?m3 ?t) bs'" using g(2) by (simp add: put_file_def heap_ok_def heap_rel_def)
  moreover have "open_files (put_file i ?k3 ?m3 ?t) = (open_files s)[nat i := ?k3]" by (simp add: put_file_def)
  ultimately show ?thesis
    using w l r sm(1) open_as_put(3,4) [OF t] rd us fb fr
    by (intro exI [of _ "put_file i ?k1 ?m1 ?t"] exI [of _ "put_file i ?k2 ?m1 ?t"] exI [of _ "put_file i ?k3 ?m3 ?t"] exI [of _ ?k3] exI [of _ bs']) simp
qed

text \<open>A file of four bytes whose buffer of 64 bytes is the only allocation of the heap.\<close>

definition small_file :: kfile where
  "small_file = (kfile_example FILE_TYPE_NORMAL 2)\<lparr>kf_buffer := 0x1000001C, kf_size := 4, kf_offset := 4, kf_capacity := 64\<rparr>"

definition file_example :: fds where
  "file_example = fds_example\<lparr>blocks := blocks heap_used_1, free_bins := free_bins heap_used_1, heap_start := heap_start heap_used_1,
     open_files := [kfile_example FILE_TYPE_PIPE O_RDONLY, kfile_example FILE_TYPE_PIPE O_WRONLY, small_file]\<rparr>"

lemma file_example_ok:
  "heap_ok file_example (a_alloc HEAP_START 64 initial_blocks)" "open_as 5 2 small_file file_example"
  "file_ok (a_alloc HEAP_START 64 initial_blocks) small_file" "room (a_alloc HEAP_START 64 initial_blocks) 5000"
proof -
  let ?bs = "a_alloc HEAP_START 64 initial_blocks"
  show "heap_ok file_example ?bs" using heap_used_1_ok(2) by (simp add: file_example_def heap_ok_def heap_rel_def)
  show "open_as 5 2 small_file file_example" by (simp add: file_example_def open_as_def get_file_def get_task_def fd_at_def MAX_FDS_def)
  have "(HEAP_START + sizeof_block, unat (64 :: u32)) \<in> live ?bs" unfolding live_def using heap_used_1_block by blast
  then show "file_ok ?bs small_file" by (auto simp: file_ok_def small_file_def kfile_example_def layout_simps)
  show "room ?bs 5000"
    unfolding room_def by (intro exI [of _ "HEAP_START + sizeof_block + 64"] exI [of _ "HEAP_SIZE - sizeof_block - 64 - sizeof_block"])
      (simp add: a_alloc_def initial_blocks_def alloc_parts_def layout_simps)
qed

lemma low_memory_buffer:
  assumes "unat a + n \<le> 0x10000000"
  shows "caller_buffer (a_alloc HEAP_START 64 initial_blocks) small_file a n"
proof -
  let ?bs = "a_alloc HEAP_START 64 initial_blocks"
  have wf: "heap_wf ?bs" using heap_used_1_ok(2) by (simp add: heap_ok_def)
  have u: "unat (a + of_nat i) = unat a + i" if "i < n" for i
    using that assms unat_of_nat32 [of i] unat_add_no_wrap32 [of a "of_nat i"] by simp
  have "x \<in> used_memory ?bs \<and> outside (unat (kf_buffer small_file)) (unat (kf_buffer small_file) + unat (kf_capacity small_file)) x"
    if "unat x < 0x10000000" for x
    using that heap_wf_block(1) [OF wf] by (fastforce simp: used_memory_def outside_def layout_simps small_file_def)
  then show ?thesis using u assms by (simp add: caller_buffer_def)
qed

theorem file_write_read_witness:
  "\<exists>s1 s2 s3 k3. sys_write_fd id 5 0x5000 100 file_example = Some (100, s1) \<and> sys_lseek 5 4 0 s1 = Some (4, s2) \<and>
     sys_read_fd id 5 0x600000 100 s2 = Some (100, s3) \<and> read_bytes (mem s3) 0x600000 100 = read_bytes (mem file_example) 0x5000 100 \<and>
     get_file 2 s3 = Some k3 \<and> kf_size k3 = 104 \<and>
     file_bytes k3 (mem s3) = file_bytes small_file (mem file_example) @ read_bytes (mem file_example) 0x5000 100"
proof -
  have f: "kf_type small_file = FILE_TYPE_NORMAL" "kf_offset small_file = 4" "kf_size small_file = 4" by (simp_all add: small_file_def kfile_example_def)
  have rs: "room (a_alloc HEAP_START 64 initial_blocks) (unat (round_size (kf_offset small_file + 100 + 4096)))"
    by (rule room_mono [OF file_example_ok(4)]) (simp add: f round_size_def)
  have a: "caller_buffer (a_alloc HEAP_START 64 initial_blocks) small_file 0x5000 (unat (100 :: u32))"
    "caller_buffer (a_alloc HEAP_START 64 initial_blocks) small_file 0x600000 (unat (100 :: u32))" by (rule low_memory_buffer; simp)+
  have len: "length (file_bytes small_file (mem file_example)) = 4" by (simp add: file_bytes_def f)
  from file_write_read [OF file_example_ok(2) f(1) file_example_ok(1,3) _ _ _ disjI2 [OF rs] a, of id] obtain s1 s2 s3 k3 where
    r: "sys_write_fd id 5 0x5000 100 file_example = Some (100, s1)" "sys_lseek 5 4 0 s1 = Some (4, s2)" "sys_read_fd id 5 0x600000 100 s2 = Some (100, s3)"
    "read_bytes (mem s3) 0x600000 100 = read_bytes (mem file_example) 0x5000 100" "get_file 2 s3 = Some k3" "unat (kf_size k3) = 104"
    "file_bytes k3 (mem s3) = take 4 (file_bytes small_file (mem file_example)) @ read_bytes (mem file_example) 0x5000 100 @
       drop 104 (file_bytes small_file (mem file_example))"
    by (auto simp: f)
  have "kf_size k3 = 104" using r(6) by (simp add: word_unat_eq_iff)
  then show ?thesis using r len by (intro exI [of _ s1] exI [of _ s2] exI [of _ s3] exI [of _ k3]) simp
qed

end
