(* ===== verification/Process.thy ===== *)
theory Process
  imports Fd
begin

text \<open>
  Processes: creation, termination, waiting, program loading, shared libraries and symbols, the
  second part of \<^verbatim>\<open>kernel/task/task.c\<close>, and the handlers of \<^verbatim>\<open>drivers/timer/timer.c\<close> and
  \<^verbatim>\<open>kernel/irq/interrupts.c\<close> that end or switch tasks. The table of shared memory, which a task that
  ends gives back, is declared in \<^verbatim>\<open>kernel/syscalls/syscalls.c\<close>.

  A result of \<open>exit_process\<close> is the state in which the next task has the processor.
\<close>

section \<open>State\<close>

record shm_entry =
  shm_key :: int
  shm_phys :: u32
  shm_bytes :: u32
  shm_owner :: int

record procs = fds +
  shm_table :: "shm_entry list"
  cpu_idle_ticks :: nat
  cpu_total_ticks :: nat
  global_cpu_usage :: u32

definition PROC_STACK_SIZE :: u32 where "PROC_STACK_SIZE = 1048576"
definition MAX_SHM :: nat where "MAX_SHM = 32"

section \<open>Strings and words in memory\<close>

partial_function (option) str_at :: "(u32 \<Rightarrow> u8) \<Rightarrow> u32 \<Rightarrow> string option" where
  "str_at m a = (if m a = 0 then Some [] else Option.bind (str_at m (a + 1)) (\<lambda>cs. Some (char_of (unat (m a)) # cs)))"

text \<open>\<^verbatim>\<open>strcmp\<close> of the string at an address with a given one yields 0.\<close>

fun mem_streq :: "(u32 \<Rightarrow> u8) \<Rightarrow> u32 \<Rightarrow> string \<Rightarrow> bool" where
  "mem_streq m a [] \<longleftrightarrow> m a = 0"
| "mem_streq m a (c # cs) \<longleftrightarrow> m a = byte_of c \<and> mem_streq m (a + 1) cs"

section \<open>Creating a process\<close>

text \<open>\<^verbatim>\<open>new_task->fd_table[slot]\<close> changes from one open file to another.\<close>

definition redirect_fd :: "u32 \<Rightarrow> nat \<Rightarrow> int \<Rightarrow> 'z fds_scheme \<Rightarrow> 'z fds_scheme option" where
  "redirect_fd p slot new_sys s = do {
     t \<leftarrow> get_task p s;
     old_sys \<leftarrow> fd_at (int slot) t;
     s \<leftarrow> (if old_sys \<noteq> -1 then file_ref (-1) old_sys s else Some s);
     s \<leftarrow> upd_task p (\<lambda>t. t\<lparr>fd_table := (fd_table t)[slot := new_sys]\<rparr>) s;
     if new_sys \<noteq> -1 then file_ref 1 new_sys s else Some s }"

definition inherit_task :: "u32 \<Rightarrow> int \<Rightarrow> int \<Rightarrow> 'z fds_scheme \<Rightarrow> 'z fds_scheme option" where
  "inherit_task p fd_in fd_out s =
     (if current_task s \<noteq> NULL then do {
        c \<leftarrow> get_task (current_task s) s;
        dir \<leftarrow> strcpy 64 (cwd c);
        s \<leftarrow> upd_task p (\<lambda>t. t\<lparr>parent_id := t_id c, uid := uid c, cwd := dir\<rparr>) s;
        s \<leftarrow> fd_inherit p (current_task s) s;
        s \<leftarrow> (if fd_in \<noteq> -1 then do { new_sys \<leftarrow> fd_at fd_in c; redirect_fd p 0 new_sys s } else Some s);
        if fd_out \<noteq> -1 then do { new_sys \<leftarrow> fd_at fd_out c; s \<leftarrow> redirect_fd p 1 new_sys s; redirect_fd p 2 new_sys s } else Some s }
      else upd_task p (\<lambda>t. t\<lparr>parent_id := -1, uid := 0, cwd := ''/'', fd_table := replicate MAX_FDS (-1)\<rparr>) s)"

text \<open>
  The arguments on the new stack: the strings from the last to the first, then the array of
  pointers. \<^verbatim>\<open>ptrs\<close> has 64 elements; the list holds the pointers from index \<open>i\<close> on.
\<close>

fun push_strings :: "nat \<Rightarrow> u32 \<Rightarrow> u32 \<Rightarrow> u32 list \<Rightarrow> (u32 \<Rightarrow> u8) \<Rightarrow> (u32 \<times> u32 list \<times> (u32 \<Rightarrow> u8)) option" where
  "push_strings 0 argv stack_top ptrs m = Some (stack_top, ptrs, m)"
| "push_strings (Suc i) argv stack_top ptrs m =
     (if i \<ge> 64 then None
      else do {
        str \<leftarrow> str_at m (load32 m (argv + 4 * of_nat i));
        let stack_top = stack_top - of_nat (length str + 1);
        push_strings i argv stack_top (stack_top # ptrs) (write_bytes m stack_top (map byte_of str @ [0])) })"

fun store_words :: "(u32 \<Rightarrow> u8) \<Rightarrow> u32 \<Rightarrow> u32 list \<Rightarrow> (u32 \<Rightarrow> u8)" where
  "store_words m a [] = m"
| "store_words m a (w # ws) = store_words (store32 m a w) (a + 4) ws"

definition push_args :: "int \<Rightarrow> u32 \<Rightarrow> u32 \<Rightarrow> (u32 \<Rightarrow> u8) \<Rightarrow> (u32 \<times> u32 \<times> (u32 \<Rightarrow> u8)) option" where
  "push_args argc argv stack_top m =
     (if argc > 0 \<and> argv \<noteq> NULL then do {
        (stack_top, ptrs, m) \<leftarrow> push_strings (nat argc) argv stack_top [] m;
        let stack_top = (stack_top AND NOT 3) - word_of_int (argc + 1) * 4;
        Some (stack_top, stack_top, store_words m stack_top (ptrs @ [0])) }
      else Some (stack_top, NULL, m))"

text \<open>
  The initial stack, from the lowest address: flags, eight zeros for \<^verbatim>\<open>popa\<close>, the entry point as return
  address of the switch, \<^verbatim>\<open>exit_process\<close> as return address of the entry, and its two arguments.
\<close>

definition initial_stack :: "u32 \<Rightarrow> int \<Rightarrow> u32 \<Rightarrow> u32 \<Rightarrow> u32 list" where
  "initial_stack entry argc new_argv exit_addr = 0x202 # replicate 8 0 @ [entry, exit_addr, word_of_int argc, new_argv]"

definition new_task :: "u32 \<Rightarrow> u32 \<Rightarrow> string option \<Rightarrow> u32 list \<Rightarrow> 'z fds_scheme \<Rightarrow> task" where
  "new_task p pd name handlers s = (raw_task s p)\<lparr>t_id := next_pid s, t_state := TASK_READY, kill_me := False, allocations := NULL,
     page_dir := (if pd \<noteq> NULL then pd else kernel_dir s), app_phys_addr := 0, wake_tick := 0, t_heap_start := 0x60000000,
     t_heap_end := 0x60000000, pending_signals := 0, in_signal_handler := False, signal_handlers := handlers, t_name := task_set_name name\<rparr>"

definition link_task :: "u32 \<Rightarrow> 'z tasking_scheme \<Rightarrow> 'z tasking_scheme option" where
  "link_task p s = do {
     q \<leftarrow> get_task (ready_queue s) s;
     s \<leftarrow> upd_task (ready_queue s) (\<lambda>t. t\<lparr>t_next := p\<rparr>) s;
     upd_task p (\<lambda>t. t\<lparr>t_next := t_next q\<rparr>) s }"

definition create_process :: "u32 \<Rightarrow> int \<Rightarrow> u32 \<Rightarrow> string option \<Rightarrow> u32 \<Rightarrow> int \<Rightarrow> int \<Rightarrow> 'z fds_scheme \<Rightarrow> (int \<times> 'z fds_scheme) option" where
  "create_process entry argc argv name pd fd_in fd_out s = do {
     s \<leftarrow> cleanup_zombies s;
     (p, s) \<leftarrow> kmalloc sizeof_Task s;
     if p = NULL then Some (-1, s)
     else do {
       handlers \<leftarrow> (if current_task s \<noteq> NULL then map_option signal_handlers (get_task (current_task s) s) else Some (replicate MAX_SIG 0));
       let pid = next_pid s;
       let s = s\<lparr>tasks := (tasks s)(p \<mapsto> new_task p pd name handlers s), next_pid := pid + 1\<rparr>;
       s \<leftarrow> inherit_task p fd_in fd_out s;
       (stack, s) \<leftarrow> kmalloc PROC_STACK_SIZE s;
       if stack = NULL then do { s \<leftarrow> kfree p s; Some (-1, s) }
       else do {
         (stack_top, new_argv, m) \<leftarrow> push_args argc argv (stack + PROC_STACK_SIZE) (mem s);
         let esp = stack_top - 52;
         let s = s\<lparr>mem := store_words m esp (initial_stack entry argc new_argv (exit_process_entry s))\<rparr>;
         s \<leftarrow> upd_task p (\<lambda>t. t\<lparr>stack_start := stack, t_esp := esp\<rparr>) s;
         s \<leftarrow> link_task p s;
         log \<leftarrow> sprintf 128 (''[TASK] Process spawned: '' @ [CHR 0x27] @ ''%s'' @ [CHR 0x27] @ '' (PID %d)'') [ArgStr name, ArgWord (word_of_int pid)];
         s \<leftarrow> klog log s;
         Some (pid, s) } } }"

definition create_thread :: "u32 \<Rightarrow> 'z fds_scheme \<Rightarrow> (int \<times> 'z fds_scheme) option" where
  "create_thread f s = create_process f 0 NULL (Some ''thread'') (kernel_dir s) (-1) (-1) s"

section \<open>Ending a process\<close>

definition shm_free :: shm_entry where
  "shm_free = \<lparr>shm_key = 0, shm_phys = 0, shm_bytes = 0, shm_owner = 0\<rparr>"

fun release_shm :: "nat list \<Rightarrow> int \<Rightarrow> 'z procs_scheme \<Rightarrow> 'z procs_scheme option" where
  "release_shm [] pid s = Some s"
| "release_shm (i # is) pid s =
     (let e = shm_table s ! i in
      if shm_phys e \<noteq> 0 \<and> shm_owner e = pid then do {
        log \<leftarrow> sprintf 128 ''[SHM] Recovered leaked memory block (Key: %d, Size: %d)'' [ArgWord (word_of_int (shm_key e)), ArgWord (shm_bytes e)];
        s \<leftarrow> klog log s;
        s \<leftarrow> kfree_a (shm_phys e) s;
        release_shm is pid (s\<lparr>shm_table := (shm_table s)[i := shm_free]\<rparr>) }
      else release_shm is pid s)"

fun close_all :: "nat list \<Rightarrow> 'z fds_scheme \<Rightarrow> 'z fds_scheme option" where
  "close_all [] s = Some s"
| "close_all (i # is) s = do {
     t \<leftarrow> get_task (current_task s) s;
     sys_fd \<leftarrow> fd_at (int i) t;
     s \<leftarrow> (if sys_fd \<noteq> -1 then do { (_, s) \<leftarrow> sys_close (int i) s; Some s } else Some s);
     close_all is s }"

partial_function (option) next_live :: "u32 \<Rightarrow> u32 \<Rightarrow> 'z tasking_scheme \<Rightarrow> u32 option" where
  "next_live victim p s =
     Option.bind (get_task p s) (\<lambda>t. if t_state t = TASK_DEAD \<and> p \<noteq> victim then next_live victim (t_next t) s else Some p)"

definition exit_process :: "'z procs_scheme \<Rightarrow> 'z procs_scheme option" where
  "exit_process s = do {
     let s = s\<lparr>int_flag := False\<rparr>;
     let victim = current_task s;
     t \<leftarrow> get_task victim s;
     log \<leftarrow> sprintf 128 (''[TASK] Process exited/killed: '' @ [CHR 0x27] @ ''%s'' @ [CHR 0x27] @ '' (PID %d)'')
       [ArgStr (Some (t_name t)), ArgWord (word_of_int (t_id t))];
     s \<leftarrow> klog log s;
     s \<leftarrow> kill_children_of (t_id t) s;
     s \<leftarrow> release_shm [0..<MAX_SHM] (t_id t) s;
     s \<leftarrow> close_all [0..<MAX_FDS] s;
     s \<leftarrow> upd_task victim (\<lambda>t. t\<lparr>t_state := TASK_DEAD\<rparr>) s;
     let s = s\<lparr>tasks_need_cleanup := True\<rparr>;
     t \<leftarrow> get_task victim s;
     nx \<leftarrow> next_live victim (t_next t) s;
     let s = s\<lparr>current_task := nx\<rparr>;
     s \<leftarrow> upd_task nx (\<lambda>t. if t_state t = TASK_SLEEPING then t\<lparr>t_state := TASK_READY\<rparr> else t) s;
     n \<leftarrow> get_task nx s;
     let s = (if foreground_task_id s = t_id t then s\<lparr>foreground_task_id := t_id n\<rparr> else s);
     let s = switch_page_directory (if page_dir n \<noteq> NULL then page_dir n else kernel_dir s) s;
     switch_to_task nx victim s }"

text \<open>The result says whether the task has ended.\<close>

definition check_kill_flag :: "'z procs_scheme \<Rightarrow> (bool \<times> 'z procs_scheme) option" where
  "check_kill_flag s =
     (if current_task s = NULL then Some (False, s)
      else do {
        t \<leftarrow> get_task (current_task s) s;
        if kill_me t then do {
          s \<leftarrow> upd_task (current_task s) (\<lambda>t. t\<lparr>kill_me := False\<rparr>) s;
          s \<leftarrow> exit_process s;
          Some (True, s) }
        else Some (False, s) })"

definition kill_task :: "int \<Rightarrow> 'z procs_scheme \<Rightarrow> (bool \<times> 'z procs_scheme) option" where
  "kill_task pid s =
     (if ready_queue s = NULL \<or> pid \<le> 1 then Some (False, s)
      else do {
        r \<leftarrow> find_live pid s;
        case r of
          None \<Rightarrow> Some (False, s)
        | Some p \<Rightarrow>
            if p = current_task s then do { s \<leftarrow> exit_process s; Some (True, s) }
            else do { s \<leftarrow> upd_task p (\<lambda>t. t\<lparr>kill_me := True\<rparr>) s; Some (False, s) } })"

partial_function (option) wait_loop :: "('z procs_scheme \<Rightarrow> 'z procs_scheme) \<Rightarrow> int \<Rightarrow> 'z procs_scheme \<Rightarrow> 'z procs_scheme option" where
  "wait_loop resume pid s =
     Option.bind (find_live pid s) (\<lambda>r. case r of
       None \<Rightarrow> Some s
     | Some _ \<Rightarrow> Option.bind (task_sleep 20 s) (\<lambda>(_, s). wait_loop resume pid (resume s)))"

definition wait_process :: "('z procs_scheme \<Rightarrow> 'z procs_scheme) \<Rightarrow> int \<Rightarrow> 'z procs_scheme \<Rightarrow> 'z procs_scheme option" where
  "wait_process resume pid s = do {
     s \<leftarrow> wait_loop resume pid (s\<lparr>foreground_task_id := pid\<rparr>);
     t \<leftarrow> get_task (current_task s) s;
     Some (s\<lparr>foreground_task_id := t_id t\<rparr>) }"

section \<open>Interrupts that switch or end tasks\<close>

definition count_tick :: "'z procs_scheme \<Rightarrow> 'z procs_scheme" where
  "count_tick s =
     (let idle = (case get_task (current_task s) s of Some t \<Rightarrow> t_id t = 0 | None \<Rightarrow> False);
          s = s\<lparr>ticks := ticks s + 1, cpu_total_ticks := cpu_total_ticks s + 1,
                cpu_idle_ticks := (if idle then cpu_idle_ticks s + 1 else cpu_idle_ticks s)\<rparr>
      in if cpu_total_ticks s \<ge> 1000 then
           (let usage = word_of_int (100 - int (cpu_idle_ticks s * 100 div cpu_total_ticks s)) :: u32
            in s\<lparr>global_cpu_usage := (if usage > 100 then 100 else usage), cpu_idle_ticks := 0, cpu_total_ticks := 0\<rparr>)
         else s)"

definition timer_handler_c :: "u32 \<Rightarrow> 'z procs_scheme \<Rightarrow> 'z procs_scheme option" where
  "timer_handler_c esp s = do {
     (ended, s) \<leftarrow> check_kill_flag (outb 0x20 0x20 (count_tick s));
     if ended then Some s
     else do {
       s \<leftarrow> check_signals esp s;
       (_, s) \<leftarrow> task_scheduler s;
       Some s } }"

text \<open>A fault in the kernel itself ends in \<^verbatim>\<open>panic\<close>, which does not return: no result.\<close>

definition crash_process :: "string \<Rightarrow> 'z procs_scheme \<Rightarrow> 'z procs_scheme option" where
  "crash_process dump s = do {
     s \<leftarrow> klog dump s;
     s \<leftarrow> klog_save s;
     exit_process s }"

definition user_task :: "'z procs_scheme \<Rightarrow> task option" where
  "user_task s = (case get_task (current_task s) s of Some t \<Rightarrow> if t_id t > 0 then Some t else None | None \<Rightarrow> None)"

definition system_division_handler_c :: "'z procs_scheme \<Rightarrow> 'z procs_scheme option" where
  "system_division_handler_c s = do {
     t \<leftarrow> user_task s;
     dump \<leftarrow> sprintf 128 (''[CRASH] Process '' @ [CHR 0x27] @ ''%s'' @ [CHR 0x27] @ '' (PID %d) Killed: Division by Zero!'')
       [ArgStr (Some (t_name t)), ArgWord (word_of_int (t_id t))];
     crash_process dump s }"

definition invalid_opcode_handler_c :: "'z procs_scheme \<Rightarrow> 'z procs_scheme option" where
  "invalid_opcode_handler_c s = do {
     t \<leftarrow> user_task s;
     dump \<leftarrow> sprintf 128 (''[CRASH] Process '' @ [CHR 0x27] @ ''%s'' @ [CHR 0x27] @ '' (PID %d) Killed: Invalid Opcode!'')
       [ArgStr (Some (t_name t)), ArgWord (word_of_int (t_id t))];
     crash_process dump s }"

record registers =
  r_eax :: u32
  r_ebx :: u32
  r_ecx :: u32
  r_edx :: u32
  r_esp :: u32
  r_ebp :: u32
  r_eip :: u32
  r_err_code :: u32

definition page_fault_handler_c :: "u32 \<Rightarrow> registers \<Rightarrow> 'z procs_scheme \<Rightarrow> 'z procs_scheme option" where
  "page_fault_handler_c cr2 regs s = do {
     t \<leftarrow> user_task s;
     dump \<leftarrow> sprintf 256 (''[CRASH DUMP] '' @ [CHR 0x27] @ ''%s'' @ [CHR 0x27] @ '' (PID %d) Segfault at 0x%x. ERR: 0x%x. EIP: 0x%x'')
       [ArgStr (Some (t_name t)), ArgWord (word_of_int (t_id t)), ArgWord cr2, ArgWord (r_err_code regs), ArgWord (r_eip regs)];
     s \<leftarrow> klog dump s;
     dump_regs \<leftarrow> sprintf 256 ''[CRASH REGS] EAX:0x%x EBX:0x%x ECX:0x%x EDX:0x%x ESP:0x%x EBP:0x%x''
       (map ArgWord [r_eax regs, r_ebx regs, r_ecx regs, r_edx regs, r_esp regs, r_ebp regs]);
     crash_process dump_regs s }"

end
