(* ===== verification/Elf.thy ===== *)
theory Elf
  imports Process
begin

text \<open>
  Loading programs and libraries: \<^verbatim>\<open>spawn_process_ext\<close>, \<^verbatim>\<open>load_library\<close> and \<^verbatim>\<open>get_symbol\<close> of
  \<^verbatim>\<open>kernel/task/task.c\<close>, on the ELF structures of \<^verbatim>\<open>kernel/include/elf.h\<close>. The file image and its headers are
  bytes in memory; the headers are read when a loop over them starts.
\<close>

section \<open>ELF structures\<close>

definition ELF_MAGIC :: u32 where "ELF_MAGIC = 0x464C457F"
definition PT_LOAD :: u32 where "PT_LOAD = 1"
definition SHT_SYMTAB :: u32 where "SHT_SYMTAB = 2"
definition SHT_STRTAB :: u32 where "SHT_STRTAB = 3"

record elf_ehdr =
  e_magic :: u32
  e_entry :: u32
  e_phoff :: u32
  e_shoff :: u32
  e_phnum :: u16
  e_shnum :: u16
  e_shstrndx :: u16

definition ehdr_at :: "(u32 \<Rightarrow> u8) \<Rightarrow> u32 \<Rightarrow> elf_ehdr" where
  "ehdr_at m a = \<lparr>e_magic = load32 m a, e_entry = load32 m (a + 24), e_phoff = load32 m (a + 28), e_shoff = load32 m (a + 32),
     e_phnum = load16 m (a + 44), e_shnum = load16 m (a + 48), e_shstrndx = load16 m (a + 50)\<rparr>"

record elf_phdr =
  p_type :: u32
  p_offset :: u32
  p_vaddr :: u32
  p_filesz :: u32
  p_memsz :: u32

definition phdr_at :: "(u32 \<Rightarrow> u8) \<Rightarrow> u32 \<Rightarrow> nat \<Rightarrow> elf_phdr" where
  "phdr_at m a i = (let a = a + of_nat (32 * i) in
     \<lparr>p_type = load32 m a, p_offset = load32 m (a + 4), p_vaddr = load32 m (a + 8), p_filesz = load32 m (a + 16), p_memsz = load32 m (a + 20)\<rparr>)"

record elf_shdr =
  sh_type :: u32
  sh_offset :: u32
  sh_size :: u32
  sh_entsize :: u32

definition shdr_at :: "(u32 \<Rightarrow> u8) \<Rightarrow> u32 \<Rightarrow> nat \<Rightarrow> elf_shdr" where
  "shdr_at m a i = (let a = a + of_nat (40 * i) in
     \<lparr>sh_type = load32 m (a + 4), sh_offset = load32 m (a + 16), sh_size = load32 m (a + 20), sh_entsize = load32 m (a + 36)\<rparr>)"

definition loads :: "(u32 \<Rightarrow> u8) \<Rightarrow> u32 \<Rightarrow> elf_phdr list" where
  "loads m file_buf = (let h = ehdr_at m file_buf in
     filter (\<lambda>p. p_type p = PT_LOAD) (map (phdr_at m (file_buf + e_phoff h)) [0..<unat (e_phnum h)]))"

section \<open>Starting a program\<close>

fun vaddr_range :: "elf_phdr list \<Rightarrow> u32 \<Rightarrow> u32 \<Rightarrow> u32 \<times> u32" where
  "vaddr_range [] min_vaddr max_vaddr = (min_vaddr, max_vaddr)"
| "vaddr_range (p # ps) min_vaddr max_vaddr =
     (let min_vaddr = (if p_vaddr p < min_vaddr then p_vaddr p else min_vaddr);
          end_vaddr = p_vaddr p + p_memsz p
      in vaddr_range ps min_vaddr (if end_vaddr > max_vaddr then end_vaddr else max_vaddr))"

fun copy_segments :: "elf_phdr list \<Rightarrow> u32 \<Rightarrow> u32 \<Rightarrow> u32 \<Rightarrow> (u32 \<Rightarrow> u8) \<Rightarrow> (u32 \<Rightarrow> u8)" where
  "copy_segments [] phys_addr base_page file_buf m = m"
| "copy_segments (p # ps) phys_addr base_page file_buf m =
     copy_segments ps phys_addr base_page file_buf
       (fast_memcpy m (phys_addr + (p_vaddr p - base_page)) (file_buf + p_offset p) (p_filesz p))"

text \<open>\<^verbatim>\<open>for (j = 0; j < size; j += 4096) paging_map_user(pd, phys + j, virt + j, 7);\<close> for a multiple of the page size.\<close>

fun map_pages :: "nat \<Rightarrow> u32 \<Rightarrow> u32 \<Rightarrow> u32 \<Rightarrow> 'z paging_scheme \<Rightarrow> 'z paging_scheme option" where
  "map_pages 0 pd phys virt s = Some s"
| "map_pages (Suc n) pd phys virt s = do { s \<leftarrow> paging_map_user pd phys virt 7 s; map_pages n pd (phys + 4096) (virt + 4096) s }"

definition page_round :: "u32 \<Rightarrow> u32" where
  "page_round n = (n + 4095) AND NOT 4095"

text \<open>
  Placing the image: the entry point, the first page behind it and the allocation, or \<open>None\<close> in the
  inner option without memory for it.
\<close>

definition load_elf :: "u32 \<Rightarrow> u32 \<Rightarrow> 'z paging_scheme \<Rightarrow> ((u32 \<times> u32 \<times> u32 list) option \<times> 'z paging_scheme) option" where
  "load_elf file_buf app_pd s =
     (let entry = e_entry (ehdr_at (mem s) file_buf);
          (min_vaddr, max_vaddr) = vaddr_range (loads (mem s) file_buf) 0xFFFFFFFF 0
      in if min_vaddr \<noteq> 0xFFFFFFFF then
           (let base_page = min_vaddr AND 0xFFFFF000; top_page = page_round max_vaddr; total = top_page - base_page in do {
            (phys_addr, s) \<leftarrow> kmalloc_a total s;
            if phys_addr = NULL then Some (None, s)
            else do {
              let m = fast_memset (mem s) phys_addr 0 (unat (total div 4));
              let s = s\<lparr>mem := copy_segments (loads m file_buf) phys_addr base_page file_buf m\<rparr>;
              s \<leftarrow> map_pages (unat (total div 4096)) app_pd phys_addr base_page s;
              Some (Some (entry, top_page, [phys_addr]), s) } })
         else Some (Some (entry, 0x60000000, []), s))"

definition load_flat :: "u32 \<Rightarrow> u32 \<Rightarrow> u32 \<Rightarrow> 'z paging_scheme \<Rightarrow> ((u32 \<times> u32 \<times> u32 list) option \<times> 'z paging_scheme) option" where
  "load_flat file_buf file_size app_pd s = do {
     let alloc_size = page_round (file_size + 1024 * 1024);
     (phys_addr, s) \<leftarrow> kmalloc_a alloc_size s;
     if phys_addr = NULL then Some (None, s)
     else do {
       let m = fast_memset (mem s) phys_addr 0 (unat (alloc_size div 4));
       let s = s\<lparr>mem := fast_memcpy m phys_addr file_buf file_size\<rparr>;
       s \<leftarrow> map_pages (unat (alloc_size div 4096)) app_pd phys_addr 0x60000000 s;
       Some (Some (0x60000000, 0x60000000 + alloc_size, [phys_addr]), s) } }"

partial_function (option) count_args :: "(u32 \<Rightarrow> u8) \<Rightarrow> u32 \<Rightarrow> nat \<Rightarrow> nat option" where
  "count_args m argv n = (if load32 m (argv + 4 * of_nat n) \<noteq> 0 then count_args m argv (n + 1) else Some n)"

fun free_all_a :: "u32 list \<Rightarrow> 'z heap_scheme \<Rightarrow> 'z heap_scheme option" where
  "free_all_a [] s = Some s"
| "free_all_a (a # as) s = do { s \<leftarrow> kfree_a a s; free_all_a as s }"

fun track_all_a :: "u32 \<Rightarrow> u32 list \<Rightarrow> 'z tasking_scheme \<Rightarrow> 'z tasking_scheme option" where
  "track_all_a p [] s = Some s"
| "track_all_a p (a # as) s = do { s \<leftarrow> track_allocation_a p a s; track_all_a p as s }"

text \<open>The part after the last slash.\<close>

definition base_name :: "string \<Rightarrow> string" where
  "base_name path = rev (takeWhile (\<lambda>c. c \<noteq> slash) (rev path))"

definition discard_image :: "u32 list \<Rightarrow> u32 \<Rightarrow> 'z tasking_scheme \<Rightarrow> 'z tasking_scheme option" where
  "discard_image allocs app_pd s = do {
     s \<leftarrow> free_all_a allocs s;
     s \<leftarrow> (if app_pd \<noteq> NULL \<and> app_pd \<noteq> kernel_dir s then free_tables [256..<1024] app_pd s else Some s);
     kfree_a app_pd s }"

definition adopt_image :: "int \<Rightarrow> u32 \<Rightarrow> u32 list \<Rightarrow> 'z tasking_scheme \<Rightarrow> 'z tasking_scheme option" where
  "adopt_image pid next_free_page allocs s = do {
     r \<leftarrow> find_task (\<lambda>t. t_id t = pid) (ready_queue s) s;
     case r of
       None \<Rightarrow> Some s
     | Some p \<Rightarrow> do {
         s \<leftarrow> upd_task p (\<lambda>t. t\<lparr>lib_offset := 0x70000000, t_heap_start := next_free_page, t_heap_end := next_free_page\<rparr>) s;
         track_all_a p allocs s } }"

definition spawn_process_ext :: "('z fds_scheme \<Rightarrow> 'z fds_scheme) \<Rightarrow> string \<Rightarrow> u32 \<Rightarrow> int \<Rightarrow> int \<Rightarrow> 'z fds_scheme \<Rightarrow> (int \<times> 'z fds_scheme) option" where
  "spawn_process_ext resume path argv fd_in fd_out s = do {
     (file_size, s) \<leftarrow> vfs_get_size path s;
     if file_size \<le> 0 then Some (-1, s)
     else do {
       (file_buf, s) \<leftarrow> kmalloc (word_of_int file_size) s;
       if file_buf = NULL then Some (-1, s)
       else do {
         (_, s) \<leftarrow> vfs_read resume path file_buf s;
         (app_pd, s) \<leftarrow> clone_page_directory s;
         (image, s) \<leftarrow> (if e_magic (ehdr_at (mem s) file_buf) = ELF_MAGIC then load_elf file_buf app_pd s
                         else load_flat file_buf (word_of_int file_size) app_pd s);
         s \<leftarrow> kfree file_buf s;
         case image of
           None \<Rightarrow> Some (-1, s)
         | Some (entry_point, next_free_page, allocs) \<Rightarrow> do {
             argc \<leftarrow> (if argv \<noteq> NULL then count_args (mem s) argv 0 else Some 0);
             let (flags, s) = save_flags s;
             (pid, s) \<leftarrow> create_process entry_point (int argc) argv (Some (base_name path)) app_pd fd_in fd_out s;
             if pid < 0 then do { s \<leftarrow> discard_image allocs app_pd s; Some (-1, restore_flags flags s) }
             else do {
               s \<leftarrow> adopt_image pid next_free_page allocs s;
               Some (pid, restore_flags flags s) } } } } }"

definition spawn_process :: "('z fds_scheme \<Rightarrow> 'z fds_scheme) \<Rightarrow> string \<Rightarrow> u32 \<Rightarrow> 'z fds_scheme \<Rightarrow> (int \<times> 'z fds_scheme) option" where
  "spawn_process resume path argv s = spawn_process_ext resume path argv (-1) (-1) s"

section \<open>Libraries\<close>

text \<open>A segment without memory is skipped.\<close>

fun load_segments :: "elf_phdr list \<Rightarrow> u32 \<Rightarrow> u32 \<Rightarrow> u32 \<Rightarrow> 'z tasking_scheme \<Rightarrow> 'z tasking_scheme option" where
  "load_segments [] t base_addr file_buf s = Some s"
| "load_segments (p # ps) t base_addr file_buf s = do {
     let alloc_size = page_round (p_memsz p);
     (phys_addr, s) \<leftarrow> kmalloc_a alloc_size s;
     if phys_addr = NULL then load_segments ps t base_addr file_buf s
     else do {
       s \<leftarrow> track_allocation_a t phys_addr s;
       let m = fast_memset (mem s) phys_addr 0 (unat (alloc_size div 4));
       let s = s\<lparr>mem := fast_memcpy m phys_addr (file_buf + p_offset p) (p_filesz p)\<rparr>;
       task \<leftarrow> get_task t s;
       s \<leftarrow> map_pages (unat (alloc_size div 4096)) (page_dir task) phys_addr (base_addr + (p_vaddr p AND 0xFFFFF000)) s;
       load_segments ps t base_addr file_buf s } }"

definition load_library :: "('z vfs_scheme \<Rightarrow> 'z vfs_scheme) \<Rightarrow> u32 \<Rightarrow> string \<Rightarrow> 'z vfs_scheme \<Rightarrow> (u32 \<times> 'z vfs_scheme) option" where
  "load_library resume t lib_name s = do {
     path \<leftarrow> (if char_at lib_name 0 = Some slash then strcpy 128 lib_name else strcat 128 ''/lib/'' lib_name);
     (sz, s) \<leftarrow> vfs_get_size path s;
     if sz \<le> 0 then Some (0, s)
     else do {
       (file_buf, s) \<leftarrow> kmalloc (word_of_int sz) s;
       (_, s) \<leftarrow> vfs_read resume path file_buf s;
       if e_magic (ehdr_at (mem s) file_buf) \<noteq> ELF_MAGIC then do { s \<leftarrow> kfree file_buf s; Some (0, s) }
       else do {
         task \<leftarrow> get_task t s;
         s \<leftarrow> load_segments (loads (mem s) file_buf) t (lib_offset task) file_buf s;
         s \<leftarrow> track_allocation t file_buf s;
         s \<leftarrow> upd_task t (\<lambda>t. t\<lparr>lib_offset := lib_offset t + 0x01000000\<rparr>) s;
         Some (file_buf, s) } } }"

text \<open>The last symbol table, and the last string table that is not the one of the section names.\<close>

fun find_tables :: "nat list \<Rightarrow> (nat \<Rightarrow> elf_shdr) \<Rightarrow> nat \<Rightarrow> elf_shdr option \<times> elf_shdr option \<Rightarrow> elf_shdr option \<times> elf_shdr option" where
  "find_tables [] sh shstrndx r = r"
| "find_tables (i # is) sh shstrndx (symtab, strtab) =
     find_tables is sh shstrndx
       (if sh_type (sh i) = SHT_SYMTAB then Some (sh i) else symtab,
        if sh_type (sh i) = SHT_STRTAB \<and> i \<noteq> shstrndx then Some (sh i) else strtab)"

definition get_symbol :: "u32 \<Rightarrow> string \<Rightarrow> 'z machine_scheme \<Rightarrow> u32 option" where
  "get_symbol lib_handle sym_name s =
     (if lib_handle = NULL then Some 0
      else let m = mem s; h = ehdr_at m lib_handle in
        case find_tables [0..<unat (e_shnum h)] (shdr_at m (lib_handle + e_shoff h)) (unat (e_shstrndx h)) (None, None) of
          (Some symtab, Some strtab) \<Rightarrow>
            (let syms = lib_handle + sh_offset symtab; strings = lib_handle + sh_offset strtab in
             if sh_entsize symtab = 0 then None
             else case find (\<lambda>i. mem_streq m (strings + load32 m (syms + of_nat (16 * i))) sym_name)
                 [0..<nat (sint (sh_size symtab div sh_entsize symtab))] of
               Some i \<Rightarrow> Some (0x50000000 + load32 m (syms + of_nat (16 * i) + 4))
             | None \<Rightarrow> Some 0)
        | _ \<Rightarrow> Some 0)"

end
