(* ===== verification/Syscalls.thy ===== *)
theory Syscalls
  imports Elf
begin

text \<open>
  The system calls of \<^verbatim>\<open>kernel/syscalls/syscalls.c\<close>: the checks on user pointers, one definition per
  handler, and the dispatcher. The registers of the caller are the words \<^verbatim>\<open>pusha\<close> left on its stack,
  at the address the handlers get. User memory is addressed as the kernel addresses it.

  Handlers that wait take \<open>resume\<close>, which stands for everything that runs until the caller continues.
  \<open>dns_answer\<close> is the address the resolver of lwIP delivers, \<open>err_inprogress\<close> the code it returns for a query
  under way.
\<close>

section \<open>State\<close>

record kernel = procs +
  global_cfg :: "(string \<times> string) list option"
  dns_state :: nat
  resolved_ip :: u32
  kernel_hostname :: string
  dns_answer :: "string \<Rightarrow> u32"
  err_inprogress :: u32

definition reg_edi :: "u32 \<Rightarrow> 'z machine_scheme \<Rightarrow> u32" where "reg_edi regs s = load32 (mem s) regs"
definition reg_esi :: "u32 \<Rightarrow> 'z machine_scheme \<Rightarrow> u32" where "reg_esi regs s = load32 (mem s) (regs + 4)"
definition reg_ebx :: "u32 \<Rightarrow> 'z machine_scheme \<Rightarrow> u32" where "reg_ebx regs s = load32 (mem s) (regs + 16)"
definition reg_edx :: "u32 \<Rightarrow> 'z machine_scheme \<Rightarrow> u32" where "reg_edx regs s = load32 (mem s) (regs + 20)"
definition reg_ecx :: "u32 \<Rightarrow> 'z machine_scheme \<Rightarrow> u32" where "reg_ecx regs s = load32 (mem s) (regs + 24)"
definition reg_eax :: "u32 \<Rightarrow> 'z machine_scheme \<Rightarrow> u32" where "reg_eax regs s = load32 (mem s) (regs + 28)"

definition set_eax :: "u32 \<Rightarrow> u32 \<Rightarrow> 'z machine_scheme \<Rightarrow> 'z machine_scheme" where
  "set_eax regs v s = s\<lparr>mem := store32 (mem s) (regs + 28) v\<rparr>"

definition ret_int :: "u32 \<Rightarrow> int \<times> 'z machine_scheme \<Rightarrow> 'z machine_scheme" where
  "ret_int regs r = (case r of (v, s) \<Rightarrow> set_eax regs (word_of_int v) s)"

section \<open>User pointers\<close>

definition validate_user_ptr :: "u32 \<Rightarrow> u32 \<Rightarrow> bool" where
  "validate_user_ptr addr n \<longleftrightarrow> addr \<noteq> 0 \<and> \<not> addr < 0x01000000 \<and> \<not> addr + n < addr"

text \<open>The loop from position \<open>len\<close> on, with \<open>n\<close> positions left; the result \<open>None\<close> is -1.\<close>

fun strlen_loop :: "(u32 \<Rightarrow> u8) \<Rightarrow> u32 \<Rightarrow> nat \<Rightarrow> nat \<Rightarrow> nat option" where
  "strlen_loop m str len 0 = None"
| "strlen_loop m str len (Suc n) =
     (if \<not> validate_user_ptr (str + of_nat len) 1 then None
      else if m (str + of_nat len) = 0 then Some len else strlen_loop m str (len + 1) n)"

definition safe_strlen :: "u32 \<Rightarrow> nat \<Rightarrow> 'z machine_scheme \<Rightarrow> nat option" where
  "safe_strlen str max_len s = (if \<not> validate_user_ptr str 1 then None else strlen_loop (mem s) str 0 max_len)"

text \<open>The string behind a checked pointer.\<close>

definition user_str :: "u32 \<Rightarrow> nat \<Rightarrow> 'z machine_scheme \<Rightarrow> string option" where
  "user_str str max_len s = map_option (\<lambda>n. map (\<lambda>b. char_of (unat b)) (read_bytes (mem s) str n)) (safe_strlen str max_len s)"

definition store_user :: "u32 \<Rightarrow> u32 \<Rightarrow> 'z machine_scheme \<Rightarrow> 'z machine_scheme" where
  "store_user a v s = (if a \<noteq> 0 \<and> validate_user_ptr a 4 then s\<lparr>mem := store32 (mem s) a v\<rparr> else s)"

text \<open>An absolute path relative to the directory of the current task.\<close>

definition abs_path :: "string \<Rightarrow> 'z tasking_scheme \<Rightarrow> string option" where
  "abs_path str s = do { t \<leftarrow> get_task (current_task s) s; get_absolute_path (cwd t) str }"

definition with_path :: "u32 \<Rightarrow> u32 \<Rightarrow> (string \<Rightarrow> 'z tasking_scheme \<Rightarrow> 'z tasking_scheme option) \<Rightarrow> 'z tasking_scheme \<Rightarrow> 'z tasking_scheme option" where
  "with_path regs err f s =
     (case user_str (reg_ebx regs s) 256 s of
        None \<Rightarrow> Some (set_eax regs err s)
      | Some str \<Rightarrow> do { path \<leftarrow> abs_path str s; f path s })"

section \<open>Files\<close>

definition sys_read :: "('z kernel_scheme \<Rightarrow> 'z kernel_scheme) \<Rightarrow> u32 \<Rightarrow> 'z kernel_scheme \<Rightarrow> 'z kernel_scheme option" where
  "sys_read resume regs s =
     (if \<not> validate_user_ptr (reg_ecx regs s) (reg_edx regs s) then Some (set_eax regs (-1) s)
      else map_option (ret_int regs) (sys_read_fd resume (sint (reg_ebx regs s)) (reg_ecx regs s) (reg_edx regs s) s))"

definition sys_write :: "('z kernel_scheme \<Rightarrow> 'z kernel_scheme) \<Rightarrow> u32 \<Rightarrow> 'z kernel_scheme \<Rightarrow> 'z kernel_scheme option" where
  "sys_write resume regs s =
     (if \<not> validate_user_ptr (reg_ecx regs s) (reg_edx regs s) then Some (set_eax regs (-1) s)
      else map_option (ret_int regs) (sys_write_fd resume (sint (reg_ebx regs s)) (reg_ecx regs s) (reg_edx regs s) s))"

text \<open>Only the user with identity 0 may change the configuration and the programs of the search path.\<close>

definition protected_path :: "string \<Rightarrow> 'z tasking_scheme \<Rightarrow> bool option" where
  "protected_path path s = do {
     t \<leftarrow> get_task (current_task s) s;
     Some (uid t \<noteq> 0 \<and> (strcmp path ''/kernel.cfg'' = 0 \<or> strncmp path ''/path'' 5 = 0)) }"

definition sys_write_file :: "u32 \<Rightarrow> 'z kernel_scheme \<Rightarrow> 'z kernel_scheme option" where
  "sys_write_file regs s =
     (case user_str (reg_ebx regs s) 256 s of
        None \<Rightarrow> Some (set_eax regs (-1) s)
      | Some str \<Rightarrow>
          if \<not> validate_user_ptr (reg_ecx regs s) (reg_edx regs s) then Some (set_eax regs (-1) s)
          else do {
            path \<leftarrow> abs_path str s;
            denied \<leftarrow> protected_path path s;
            if denied then Some (set_eax regs (-1) s)
            else map_option (ret_int regs) (vfs_write path (reg_ecx regs s) (reg_edx regs s) s) })"

definition sys_delete_file :: "u32 \<Rightarrow> 'z kernel_scheme \<Rightarrow> 'z kernel_scheme option" where
  "sys_delete_file regs s = with_path regs (-1) (\<lambda>path s. do {
     denied \<leftarrow> protected_path path s;
     if denied then Some (set_eax regs (-1) s) else map_option (ret_int regs) (vfs_delete path s) }) s"

definition sys_read_file :: "('z kernel_scheme \<Rightarrow> 'z kernel_scheme) \<Rightarrow> u32 \<Rightarrow> 'z kernel_scheme \<Rightarrow> 'z kernel_scheme option" where
  "sys_read_file resume regs s =
     (case user_str (reg_ebx regs s) 256 s of
        None \<Rightarrow> Some (set_eax regs (-1) s)
      | Some str \<Rightarrow>
          if \<not> validate_user_ptr (reg_ecx regs s) 1 then Some (set_eax regs (-1) s)
          else do {
            path \<leftarrow> abs_path str s;
            map_option (ret_int regs) (vfs_read resume path (reg_ecx regs s) s) })"

definition sys_get_file_size :: "u32 \<Rightarrow> 'z kernel_scheme \<Rightarrow> 'z kernel_scheme option" where
  "sys_get_file_size regs s = with_path regs (-1) (\<lambda>path s. map_option (ret_int regs) (vfs_get_size path s)) s"

definition sys_mkdir :: "u32 \<Rightarrow> 'z kernel_scheme \<Rightarrow> 'z kernel_scheme option" where
  "sys_mkdir regs s = with_path regs (-1) (\<lambda>path s. map_option (ret_int regs) (vfs_mkdir path s)) s"

text \<open>The test of \<^verbatim>\<open>type\<close> after a success that left it uninitialised has no defined outcome.\<close>

definition sys_chdir :: "u32 \<Rightarrow> 'z kernel_scheme \<Rightarrow> 'z kernel_scheme option" where
  "sys_chdir regs s = with_path regs (-1) (\<lambda>path s. do {
     (r, s) \<leftarrow> vfs_get_attr path s;
     case r of
       None \<Rightarrow> Some (set_eax regs (-1) s)
     | Some attr \<Rightarrow> do {
         type \<leftarrow> attr;
         if type = VFS_ATTR_DIR then do {
           dir \<leftarrow> strcpy 64 path;
           s \<leftarrow> upd_task (current_task s) (\<lambda>t. t\<lparr>cwd := dir\<rparr>) s;
           Some (set_eax regs 0 s) }
         else Some (set_eax regs (-1) s) } }) s"

definition store_dirent :: "u32 \<Rightarrow> vfs_dirent \<Rightarrow> 'z machine_scheme \<Rightarrow> 'z machine_scheme" where
  "store_dirent a d s = (let s = put_str a (d_name d) s; m = store32 (mem s) (a + 64) (d_size d) in s\<lparr>mem := m(a + 68 := d_type d)\<rparr>)"

definition sys_readdir :: "u32 \<Rightarrow> 'z kernel_scheme \<Rightarrow> 'z kernel_scheme option" where
  "sys_readdir regs s =
     (case user_str (reg_ebx regs s) 256 s of
        None \<Rightarrow> Some (set_eax regs 0 s)
      | Some str \<Rightarrow>
          if \<not> validate_user_ptr (reg_edx regs s) 72 then Some (set_eax regs 0 s)
          else do {
            path \<leftarrow> abs_path str s;
            let out = reg_edx regs s;
            (r, s) \<leftarrow> vfs_readdir path (sint (reg_ecx regs s)) s;
            Some (case r of Some d \<Rightarrow> set_eax regs 1 (store_dirent out d s) | None \<Rightarrow> set_eax regs 0 s) })"

definition sys_getcwd :: "u32 \<Rightarrow> 'z kernel_scheme \<Rightarrow> 'z kernel_scheme option" where
  "sys_getcwd regs s =
     (if \<not> validate_user_ptr (reg_ebx regs s) 256 then Some (set_eax regs (-1) s)
      else do { t \<leftarrow> get_task (current_task s) s; Some (set_eax regs 0 (put_str (reg_ebx regs s) (cwd t) s)) })"

definition sys_mount :: "u32 \<Rightarrow> 'z kernel_scheme \<Rightarrow> 'z kernel_scheme option" where
  "sys_mount regs s =
     (case (user_str (reg_ebx regs s) 64 s, user_str (reg_ecx regs s) 64 s, user_str (reg_edx regs s) 16 s) of
        (Some dev, Some point, Some fstype) \<Rightarrow> map_option (ret_int regs) (vfs_mount dev point fstype s)
      | _ \<Rightarrow> Some (set_eax regs (-1) s))"

definition sys_unmount :: "u32 \<Rightarrow> 'z kernel_scheme \<Rightarrow> 'z kernel_scheme option" where
  "sys_unmount regs s =
     (case user_str (reg_ebx regs s) 64 s of
        Some point \<Rightarrow> Some (ret_int regs (vfs_unmount point s))
      | None \<Rightarrow> Some (set_eax regs (-1) s))"

definition wrap_open :: "('z kernel_scheme \<Rightarrow> 'z kernel_scheme) \<Rightarrow> u32 \<Rightarrow> 'z kernel_scheme \<Rightarrow> 'z kernel_scheme option" where
  "wrap_open resume regs s =
     (case user_str (reg_ebx regs s) 256 s of
        Some str \<Rightarrow> map_option (ret_int regs) (sys_open resume str (reg_ecx regs s) s)
      | None \<Rightarrow> Some (set_eax regs (-1) s))"

definition wrap_close :: "u32 \<Rightarrow> 'z kernel_scheme \<Rightarrow> 'z kernel_scheme option" where
  "wrap_close regs s = map_option (ret_int regs) (sys_close (sint (reg_ebx regs s)) s)"

text \<open>\<^verbatim>\<open>wrap_read_fd\<close> and \<^verbatim>\<open>wrap_write_fd\<close> have the bodies of \<^verbatim>\<open>sys_read\<close> and \<^verbatim>\<open>sys_write\<close>.\<close>

definition wrap_read_fd :: "('z kernel_scheme \<Rightarrow> 'z kernel_scheme) \<Rightarrow> u32 \<Rightarrow> 'z kernel_scheme \<Rightarrow> 'z kernel_scheme option" where
  "wrap_read_fd resume regs s = sys_read resume regs s"

definition wrap_write_fd :: "('z kernel_scheme \<Rightarrow> 'z kernel_scheme) \<Rightarrow> u32 \<Rightarrow> 'z kernel_scheme \<Rightarrow> 'z kernel_scheme option" where
  "wrap_write_fd resume regs s = sys_write resume regs s"

definition wrap_lseek :: "u32 \<Rightarrow> 'z kernel_scheme \<Rightarrow> 'z kernel_scheme option" where
  "wrap_lseek regs s = map_option (ret_int regs) (sys_lseek (sint (reg_ebx regs s)) (sint (reg_ecx regs s)) (sint (reg_edx regs s)) s)"

definition sys_pipe :: "u32 \<Rightarrow> 'z kernel_scheme \<Rightarrow> 'z kernel_scheme option" where
  "sys_pipe regs s =
     (if \<not> validate_user_ptr (reg_ebx regs s) 8 then Some (set_eax regs (-1) s)
      else map_option (ret_int regs) (sys_pipe_impl (reg_ebx regs s) s))"

section \<open>Console, screen, devices\<close>

definition sys_set_color :: "u32 \<Rightarrow> 'z kernel_scheme \<Rightarrow> 'z kernel_scheme option" where
  "sys_set_color regs s = Some (set_background_color (reg_ecx regs s) (set_console_color (reg_ebx regs s) s))"

definition sys_get_cursor :: "u32 \<Rightarrow> 'z kernel_scheme \<Rightarrow> 'z kernel_scheme option" where
  "sys_get_cursor regs s =
     (let px = reg_ebx regs s; py = reg_ecx regs s; (x, y) = gfx_get_cursor s in
      Some (if validate_user_ptr px 4 \<and> validate_user_ptr py 4
            then s\<lparr>mem := store32 (store32 (mem s) px (word_of_int x)) py (word_of_int y)\<rparr> else s))"

definition sys_set_cursor :: "u32 \<Rightarrow> 'z kernel_scheme \<Rightarrow> 'z kernel_scheme option" where
  "sys_set_cursor regs s = Some (gfx_set_cursor (sint (reg_ebx regs s)) (sint (reg_ecx regs s)) s)"

definition sys_clear :: "u32 \<Rightarrow> 'z kernel_scheme \<Rightarrow> 'z kernel_scheme option" where
  "sys_clear regs s = Some (set_eax regs 0 (clear_screen s))"

text \<open>The registers are read again after each store, which may have changed them.\<close>

definition sys_get_term_size :: "u32 \<Rightarrow> 'z kernel_scheme \<Rightarrow> 'z kernel_scheme option" where
  "sys_get_term_size regs s =
     (let s = store_user (reg_ebx regs s) (word_of_int (term_cols s)) s;
          s = store_user (reg_ecx regs s) (word_of_int (term_rows s)) s
      in Some (set_eax regs 0 s))"

fun print_loop :: "nat \<Rightarrow> u32 \<Rightarrow> 'z kernel_scheme \<Rightarrow> 'z kernel_scheme option" where
  "print_loop 0 a s = Some s"
| "print_loop (Suc n) a s = do { s \<leftarrow> gfx_putc (word_of_int (sint (mem s a))) s; print_loop n (a + 1) s }"

definition sys_print :: "u32 \<Rightarrow> 'z kernel_scheme \<Rightarrow> 'z kernel_scheme option" where
  "sys_print regs s =
     (case safe_strlen (reg_ebx regs s) 8192 s of
        None \<Rightarrow> Some (set_eax regs 0 s)
      | Some len \<Rightarrow> do { s \<leftarrow> print_loop len (reg_ebx regs s) s; Some (set_eax regs (of_nat len) s) })"

definition sys_get_screen_info :: "u32 \<Rightarrow> 'z kernel_scheme \<Rightarrow> 'z kernel_scheme option" where
  "sys_get_screen_info regs s =
     (let s = store_user (reg_ebx regs s) (word_of_int (screen_width s)) s;
          s = store_user (reg_ecx regs s) (word_of_int (screen_height s)) s;
          s = store_user (reg_edx regs s) (word_of_int (screen_bpp s)) s
      in Some (set_eax regs 0 s))"

definition sys_flush_screen :: "u32 \<Rightarrow> 'z kernel_scheme \<Rightarrow> 'z kernel_scheme option" where
  "sys_flush_screen regs s =
     (let buf = reg_ebx regs s; n = word_of_int (screen_height s * screen_pitch s) :: u32 in
      Some (set_eax regs 0 (if buf \<noteq> 0 \<and> validate_user_ptr buf n \<and> video_memory s \<noteq> 0
        then s\<lparr>mem := fast_memcpy (mem s) (video_memory s) buf n\<rparr> else s)))"

fun copy_rect :: "nat \<Rightarrow> u32 \<Rightarrow> u32 \<Rightarrow> u32 \<Rightarrow> u32 \<Rightarrow> u32 \<Rightarrow> (u32 \<Rightarrow> u8) \<Rightarrow> (u32 \<Rightarrow> u8)" where
  "copy_rect 0 dst src n dpitch spitch m = m"
| "copy_rect (Suc h) dst src n dpitch spitch m = copy_rect h (dst + dpitch) (src + spitch) n dpitch spitch (fast_memcpy m dst src n)"

definition sys_flush_rect :: "u32 \<Rightarrow> 'z kernel_scheme \<Rightarrow> 'z kernel_scheme option" where
  "sys_flush_rect regs s =
     (let buf = reg_ebx regs s; x = sint (reg_ecx regs s); y = sint (reg_edx regs s); w = sint (reg_esi regs s); h = sint (reg_edi regs s);
          (x, w) = (if x < 0 then (0, i32 (w + x)) else (x, w));
          (y, h) = (if y < 0 then (0, i32 (h + y)) else (y, h));
          w = (if i32 (x + w) > screen_width s then screen_width s - x else w);
          h = (if i32 (y + h) > screen_height s then screen_height s - y else h)
      in Some (set_eax regs 0
        (if w > 0 \<and> h > 0 \<and> buf \<noteq> 0 \<and> back_buffer s \<noteq> 0 \<and> video_memory s \<noteq> 0 then
           (let bpp_bytes = screen_bpp s div 8;
                src = buf + word_of_int (y * (screen_width s * 4)) + word_of_int (x * 4);
                dst = back_buffer s + word_of_int (y * screen_pitch s) + word_of_int (x * bpp_bytes);
                m = copy_rect (nat h) dst src (word_of_int (w * bpp_bytes)) (word_of_int (screen_pitch s)) (word_of_int (screen_width s * 4)) (mem s)
            in vesa_render_rect x y w h (s\<lparr>mem := m\<rparr>))
         else s)))"

definition sys_get_mouse :: "u32 \<Rightarrow> 'z kernel_scheme \<Rightarrow> 'z kernel_scheme option" where
  "sys_get_mouse regs s =
     (let s = store_user (reg_ebx regs s) (word_of_int (m_x (mouse s))) s;
          s = store_user (reg_ecx regs s) (word_of_int (m_y (mouse s))) s;
          buttons = (if left_button (mouse s) \<noteq> 0 then 1 else 0) OR (if right_button (mouse s) \<noteq> 0 then 2 else 0) OR
            (if middle_button (mouse s) \<noteq> 0 then 4 else 0);
          s = store_user (reg_edx regs s) buttons s
      in Some (set_eax regs 0 s))"

definition sys_poll_key :: "u32 \<Rightarrow> 'z kernel_scheme \<Rightarrow> 'z kernel_scheme option" where
  "sys_poll_key regs s = (let (c, s) = poll_buffer s in Some (set_eax regs c s))"

definition sys_get_key_modifiers :: "u32 \<Rightarrow> 'z kernel_scheme \<Rightarrow> 'z kernel_scheme option" where
  "sys_get_key_modifiers regs s = Some (set_eax regs (ucast (get_keyboard_modifiers s)) s)"

definition sys_get_key_state :: "u32 \<Rightarrow> 'z kernel_scheme \<Rightarrow> 'z kernel_scheme option" where
  "sys_get_key_state regs s = Some (set_eax regs (if get_key_state (ucast (reg_ebx regs s)) s then 1 else 0) s)"

definition sys_scancode_to_char :: "u32 \<Rightarrow> 'z kernel_scheme \<Rightarrow> 'z kernel_scheme option" where
  "sys_scancode_to_char regs s =
     Some (set_eax regs (word_of_int (sint (ucast (scancode_to_char (ucast (reg_ebx regs s)) s) :: u8))) s)"

definition sys_wait_scancode :: "('z kernel_scheme \<Rightarrow> 'z kernel_scheme) \<Rightarrow> u32 \<Rightarrow> 'z kernel_scheme \<Rightarrow> 'z kernel_scheme option" where
  "sys_wait_scancode resume regs s = do { (code, s) \<leftarrow> wait_scancode resume s; Some (set_eax regs (ucast code) s) }"

definition sys_flush_keyboard :: "u32 \<Rightarrow> 'z kernel_scheme \<Rightarrow> 'z kernel_scheme option" where
  "sys_flush_keyboard regs s = Some (keyboard_flush s)"

definition sys_get_ticks :: "u32 \<Rightarrow> 'z kernel_scheme \<Rightarrow> 'z kernel_scheme option" where
  "sys_get_ticks regs s = Some (set_eax regs (get_ticks s) s)"

definition store_time :: "u32 \<Rightarrow> rtc_time \<Rightarrow> (u32 \<Rightarrow> u8) \<Rightarrow> (u32 \<Rightarrow> u8)" where
  "store_time a t m = m(a := rt_second t, a + 1 := rt_minute t, a + 2 := rt_hour t, a + 3 := rt_day t, a + 4 := rt_month t,
     a + 6 := ucast (rt_year t), a + 7 := ucast (drop_bit 8 (rt_year t)))"

definition sys_get_rtc :: "u32 \<Rightarrow> 'z kernel_scheme \<Rightarrow> 'z kernel_scheme option" where
  "sys_get_rtc regs s =
     (let a = reg_ebx regs s in
      if \<not> validate_user_ptr a 8 then Some s
      else do { (t, s) \<leftarrow> rtc_get_time s; Some (s\<lparr>mem := store_time a t (mem s)\<rparr>) })"

definition sys_uname :: "u32 \<Rightarrow> 'z kernel_scheme \<Rightarrow> 'z kernel_scheme option" where
  "sys_uname regs s =
     (let a = reg_ebx regs s in
      if \<not> validate_user_ptr a (65 * 4) then Some (set_eax regs (-1) s)
      else Some (set_eax regs 0 (put_str (a + 195) ''i386'' (put_str (a + 130) (build_date s) (put_str (a + 65) ''0.9.8-beta'' (put_str a ''8086-OS'' s))))))"

definition sys_getenv :: "u32 \<Rightarrow> 'z kernel_scheme \<Rightarrow> 'z kernel_scheme option" where
  "sys_getenv regs s =
     (case user_str (reg_ebx regs s) 64 s of
        None \<Rightarrow> Some (set_eax regs 0 s)
      | Some key \<Rightarrow>
          if \<not> validate_user_ptr (reg_ecx regs s) 128 then Some (set_eax regs 0 s)
          else Some (case global_cfg s of
              None \<Rightarrow> set_eax regs 0 s
            | Some cfg \<Rightarrow> (case config_get_value cfg key of
                Some val \<Rightarrow> set_eax regs 1 (put_str (reg_ecx regs s) val s)
              | None \<Rightarrow> set_eax regs 0 s)))"

section \<open>Processes and memory\<close>

definition sys_getuid :: "u32 \<Rightarrow> 'z kernel_scheme \<Rightarrow> 'z kernel_scheme option" where
  "sys_getuid regs s = do { t \<leftarrow> get_task (current_task s) s; Some (set_eax regs (word_of_int (uid t)) s) }"

definition sys_setuid :: "u32 \<Rightarrow> 'z kernel_scheme \<Rightarrow> 'z kernel_scheme option" where
  "sys_setuid regs s = do {
     s \<leftarrow> upd_task (current_task s) (\<lambda>t. t\<lparr>uid := sint (reg_ebx regs s)\<rparr>) s;
     Some (set_eax regs 0 s) }"

definition sys_spawn :: "('z kernel_scheme \<Rightarrow> 'z kernel_scheme) \<Rightarrow> u32 \<Rightarrow> 'z kernel_scheme \<Rightarrow> 'z kernel_scheme option" where
  "sys_spawn resume regs s = with_path regs (-1) (\<lambda>path s.
     let argv = reg_ecx regs s; redirect = reg_edx regs s in
     case (if redirect \<noteq> 0 then user_str redirect 256 s else None) of
       Some (c # cs) \<Rightarrow> do {
         r_path \<leftarrow> abs_path (c # cs) s;
         (fd, s) \<leftarrow> sys_open resume r_path (O_WRONLY OR O_CREAT OR O_TRUNC) s;
         if fd \<noteq> -1 then do {
           (pid, s) \<leftarrow> spawn_process_ext resume path argv (-1) fd s;
           (_, s) \<leftarrow> sys_close fd (set_eax regs (word_of_int pid) s);
           Some s }
         else Some (set_eax regs (-1) s) }
     | _ \<Rightarrow> map_option (ret_int regs) (spawn_process resume path argv s)) s"

definition sys_spawn_ext :: "('z kernel_scheme \<Rightarrow> 'z kernel_scheme) \<Rightarrow> u32 \<Rightarrow> 'z kernel_scheme \<Rightarrow> 'z kernel_scheme option" where
  "sys_spawn_ext resume regs s = with_path regs (-1) (\<lambda>path s.
     map_option (ret_int regs) (spawn_process_ext resume path (reg_ecx regs s) (sint (reg_edx regs s)) (sint (reg_esi regs s)) s)) s"

definition sys_fork :: "u32 \<Rightarrow> 'z kernel_scheme \<Rightarrow> 'z kernel_scheme option" where
  "sys_fork regs s =
     (let a = reg_ebx regs s in
      if \<not> validate_user_ptr a 16 then Some (set_eax regs (-1) s)
      else do {
        t \<leftarrow> get_task (current_task s) s;
        let w = (\<lambda>i. load32 (mem s) (a + i));
        name \<leftarrow> (if w 12 = 0 then Some None else map_option Some (str_at (mem s) (w 12)));
        map_option (ret_int regs) (create_process (w 0) (sint (w 4)) (w 8) name (page_dir t) (-1) (-1) s) })"

definition sys_waitpid :: "('z kernel_scheme \<Rightarrow> 'z kernel_scheme) \<Rightarrow> u32 \<Rightarrow> 'z kernel_scheme \<Rightarrow> 'z kernel_scheme option" where
  "sys_waitpid resume regs s = wait_process resume (sint (reg_ebx regs s)) s"

definition sys_kill :: "u32 \<Rightarrow> 'z kernel_scheme \<Rightarrow> 'z kernel_scheme option" where
  "sys_kill regs s = do {
     s \<leftarrow> send_signal (sint (reg_ebx regs s)) (if reg_ecx regs s = 0 then 9 else sint (reg_ecx regs s)) s;
     Some (set_eax regs 0 s) }"

definition sys_yield :: "('z kernel_scheme \<Rightarrow> 'z kernel_scheme) \<Rightarrow> u32 \<Rightarrow> 'z kernel_scheme \<Rightarrow> 'z kernel_scheme option" where
  "sys_yield resume regs s = do { (_, s) \<leftarrow> yield s; Some (resume s) }"

definition sys_detach :: "u32 \<Rightarrow> 'z kernel_scheme \<Rightarrow> 'z kernel_scheme option" where
  "sys_detach regs s = do {
     let pid = sint (reg_ebx regs s);
     s \<leftarrow> (if pid \<le> 0 then upd_task (current_task s) (\<lambda>t. t\<lparr>parent_id := 1\<rparr>) s
          else if ready_queue s = NULL then Some s
          else do {
            r \<leftarrow> find_task (\<lambda>t. t_id t = pid) (ready_queue s) s;
            case r of Some p \<Rightarrow> upd_task p (\<lambda>t. t\<lparr>parent_id := 1\<rparr>) s | None \<Rightarrow> Some s });
     Some (set_eax regs 0 s) }"

definition state_code :: "task_state \<Rightarrow> u32" where
  "state_code st = (case st of TASK_RUNNING \<Rightarrow> 0 | TASK_READY \<Rightarrow> 1 | TASK_SLEEPING \<Rightarrow> 2 | TASK_DEAD \<Rightarrow> 3)"

definition store_task_info :: "u32 \<Rightarrow> task \<Rightarrow> 'z machine_scheme \<Rightarrow> 'z machine_scheme" where
  "store_task_info a t s = put_str (a + 12) (t_name t)
     (s\<lparr>mem := store32 (store32 (store32 (mem s) a (word_of_int (t_id t))) (a + 4) (word_of_int (parent_id t))) (a + 8) (state_code (t_state t))\<rparr>)"

partial_function (option) tasks_loop :: "u32 \<Rightarrow> int \<Rightarrow> nat \<Rightarrow> u32 \<Rightarrow> 'z kernel_scheme \<Rightarrow> (nat \<times> 'z kernel_scheme) option" where
  "tasks_loop buf max_count count p s =
     Option.bind (get_task p s) (\<lambda>t.
       let (count, s) = (if t_state t \<noteq> TASK_DEAD \<and> int count < max_count
             then (count + 1, store_task_info (buf + of_nat (44 * count)) t s) else (count, s))
       in if t_next t = ready_queue s then Some (count, s) else tasks_loop buf max_count count (t_next t) s)"

definition sys_get_tasks :: "u32 \<Rightarrow> 'z kernel_scheme \<Rightarrow> 'z kernel_scheme option" where
  "sys_get_tasks regs s =
     (let buf = reg_ebx regs s; n = reg_ecx regs s in
      if \<not> validate_user_ptr buf (n * 44) \<or> ready_queue s = NULL then Some (set_eax regs 0 s)
      else do { (count, s) \<leftarrow> tasks_loop buf (sint n) 0 (ready_queue s) s; Some (set_eax regs (of_nat count) s) })"

definition sys_get_mem_info :: "u32 \<Rightarrow> 'z kernel_scheme \<Rightarrow> 'z kernel_scheme option" where
  "sys_get_mem_info regs s = do {
     s \<leftarrow> (if validate_user_ptr (reg_ebx regs s) 4
          then do { let a = reg_ebx regs s; (v, s) \<leftarrow> get_used_memory s; Some (s\<lparr>mem := store32 (mem s) a v\<rparr>) } else Some s);
     Some (if validate_user_ptr (reg_ecx regs s) 4 then s\<lparr>mem := store32 (mem s) (reg_ecx regs s) get_total_memory\<rparr> else s) }"

definition sys_malloc :: "u32 \<Rightarrow> 'z kernel_scheme \<Rightarrow> 'z kernel_scheme option" where
  "sys_malloc regs s = do {
     (ptr, s) \<leftarrow> kmalloc (reg_ebx regs s) s;
     let s = set_eax regs ptr s;
     track_allocation (current_task s) ptr s }"

definition sys_free :: "u32 \<Rightarrow> 'z kernel_scheme \<Rightarrow> 'z kernel_scheme option" where
  "sys_free regs s = do {
     let ptr = reg_ebx regs s;
     s \<leftarrow> untrack_allocation (current_task s) ptr s;
     kfree ptr s }"

text \<open>Growing the heap of a program page by page; the result says whether all pages were mapped.\<close>

fun sbrk_pages :: "nat \<Rightarrow> u32 \<Rightarrow> 'z kernel_scheme \<Rightarrow> (bool \<times> 'z kernel_scheme) option" where
  "sbrk_pages 0 pg s = Some (True, s)"
| "sbrk_pages (Suc n) pg s = do {
     (phys, s) \<leftarrow> kmalloc_a 4096 s;
     if phys = NULL then Some (False, s)
     else do {
       let s = s\<lparr>mem := fast_memset (mem s) phys 0 1024\<rparr>;
       t \<leftarrow> get_task (current_task s) s;
       s \<leftarrow> paging_map_user (page_dir t) phys pg 7 s;
       s \<leftarrow> track_allocation_a (current_task s) phys s;
       sbrk_pages n (pg + 4096) s } }"

definition sys_sbrk :: "u32 \<Rightarrow> 'z kernel_scheme \<Rightarrow> 'z kernel_scheme option" where
  "sys_sbrk regs s = do {
     t \<leftarrow> get_task (current_task s) s;
     let incr = reg_ebx regs s;
     let old_end = t_heap_end t;
     if incr = 0 then Some (set_eax regs old_end s)
     else do {
       let new_end = old_end + incr;
       let start_page = page_round old_end;
       let end_page = page_round new_end;
       (ok, s) \<leftarrow> sbrk_pages (if start_page < end_page then unat ((end_page - start_page) div 4096) else 0) start_page s;
       if \<not> ok then Some (set_eax regs (-1) s)
       else do {
         s \<leftarrow> upd_task (current_task s) (\<lambda>t. t\<lparr>t_heap_end := new_end\<rparr>) s;
         Some (set_eax regs old_end s) } } }"

definition sys_dlopen :: "('z kernel_scheme \<Rightarrow> 'z kernel_scheme) \<Rightarrow> u32 \<Rightarrow> 'z kernel_scheme \<Rightarrow> 'z kernel_scheme option" where
  "sys_dlopen resume regs s =
     (case user_str (reg_ebx regs s) 128 s of
        None \<Rightarrow> Some (set_eax regs 0 s)
      | Some str \<Rightarrow> do { (h, s) \<leftarrow> load_library resume (current_task s) str s; Some (set_eax regs h s) })"

definition sys_dlsym :: "u32 \<Rightarrow> 'z kernel_scheme \<Rightarrow> 'z kernel_scheme option" where
  "sys_dlsym regs s =
     (case user_str (reg_ecx regs s) 64 s of
        None \<Rightarrow> Some (set_eax regs 0 s)
      | Some str \<Rightarrow> do { v \<leftarrow> get_symbol (reg_ebx regs s) str s; Some (set_eax regs v s) })"

definition sys_sigaction :: "u32 \<Rightarrow> 'z kernel_scheme \<Rightarrow> 'z kernel_scheme option" where
  "sys_sigaction regs s =
     (let sig = sint (reg_ebx regs s); handler = reg_ecx regs s in
      if sig > 0 \<and> sig < 32 \<and> current_task s \<noteq> NULL then do {
        s \<leftarrow> upd_task (current_task s) (\<lambda>t. t\<lparr>signal_handlers := (signal_handlers t)[nat sig := handler]\<rparr>) s;
        Some (set_eax regs 0 s) }
      else Some (set_eax regs (-1) s))"

definition sys_sigreturn :: "u32 \<Rightarrow> 'z kernel_scheme \<Rightarrow> 'z kernel_scheme option" where
  "sys_sigreturn regs s = sys_sigreturn_impl regs s"

section \<open>Shared memory\<close>

definition shm_find :: "int \<Rightarrow> 'z kernel_scheme \<Rightarrow> nat option" where
  "shm_find key s = find (\<lambda>i. shm_key (shm_table s ! i) = key \<and> shm_phys (shm_table s ! i) \<noteq> 0) [0..<MAX_SHM]"

definition put_shm :: "nat \<Rightarrow> shm_entry \<Rightarrow> 'z kernel_scheme \<Rightarrow> 'z kernel_scheme" where
  "put_shm i e s = s\<lparr>shm_table := (shm_table s)[i := e]\<rparr>"

definition shm_create :: "int \<Rightarrow> u32 \<Rightarrow> 'z kernel_scheme \<Rightarrow> (u32 \<times> 'z kernel_scheme) option" where
  "shm_create key n s =
     (case find (\<lambda>i. shm_phys (shm_table s ! i) = 0) [0..<MAX_SHM] of
        None \<Rightarrow> Some (-1, s)
      | Some i \<Rightarrow> do {
          let bytes = page_round n;
          (phys, s) \<leftarrow> kmalloc_a bytes s;
          let e = shm_table s ! i;
          if phys = NULL then Some (-1, put_shm i (e\<lparr>shm_key := 0, shm_bytes := 0, shm_phys := 0\<rparr>) s)
          else do {
            t \<leftarrow> get_task (current_task s) s;
            let s = put_shm i \<lparr>shm_key = key, shm_phys = phys, shm_bytes = bytes, shm_owner = t_id t\<rparr> s;
            Some (bytes, s\<lparr>mem := fast_memset (mem s) phys 0 (unat (bytes div 4))\<rparr>) } })"

definition shm_delete :: "int \<Rightarrow> 'z kernel_scheme \<Rightarrow> (u32 \<times> 'z kernel_scheme) option" where
  "shm_delete key s =
     (case shm_find key s of
        None \<Rightarrow> Some (-1, s)
      | Some i \<Rightarrow> do { s \<leftarrow> kfree_a (shm_phys (shm_table s ! i)) s; Some (0, put_shm i shm_free s) })"

definition sys_shm_get :: "u32 \<Rightarrow> 'z kernel_scheme \<Rightarrow> 'z kernel_scheme option" where
  "sys_shm_get regs s = do {
     let key = sint (reg_ebx regs s);
     let n = reg_ecx regs s;
     (r, s) \<leftarrow> (if n = 0xFFFFFFFF then Some (case shm_find key s of Some _ \<Rightarrow> 1 | None \<Rightarrow> 0, s)
               else if n = 0 then shm_delete key s
               else case shm_find key s of
                 Some i \<Rightarrow> Some (shm_bytes (shm_table s ! i), s)
               | None \<Rightarrow> shm_create key n s);
     Some (set_eax regs r s) }"

definition sys_shm_map :: "u32 \<Rightarrow> 'z kernel_scheme \<Rightarrow> 'z kernel_scheme option" where
  "sys_shm_map regs s =
     (case shm_find (sint (reg_ebx regs s)) s of
        None \<Rightarrow> Some (set_eax regs 0 s)
      | Some i \<Rightarrow> do {
          t \<leftarrow> get_task (current_task s) s;
          let e = shm_table s ! i;
          let vaddr = 0x80000000 + of_nat i * 0x01000000;
          s \<leftarrow> map_pages (unat (shm_bytes e div 4096)) (page_dir t) (shm_phys e) vaddr s;
          Some (set_eax regs vaddr s) })"

section \<open>Sockets\<close>

text \<open>
  The callbacks lwIP calls with the bytes of a packet buffer; the Boolean result of the second
  is acceptance. A closed connection arrives as \<open>None\<close>.
\<close>

definition raw_net_recv :: "int \<Rightarrow> u8 list \<Rightarrow> 'z kernel_scheme \<Rightarrow> 'z kernel_scheme option" where
  "raw_net_recv sys_fd p s =
     (if sys_fd \<ge> 0 \<and> sys_fd < int MAX_OPEN_FILES then do {
        k \<leftarrow> get_file sys_fd s;
        if in_use k \<and> kf_type k = FILE_TYPE_SOCKET \<and> kf_buffer k \<noteq> NULL then do {
          let len = min (length p) (unat (kf_capacity k));
          upd_file sys_fd (\<lambda>k. k\<lparr>kf_size := of_nat len, is_dirty := 1\<rparr>) (s\<lparr>mem := write_bytes (mem s) (kf_buffer k) (take len p)\<rparr>) }
        else Some s }
      else Some s)"

definition tcp_recv_callback :: "int \<Rightarrow> u8 list option \<Rightarrow> 'z kernel_scheme \<Rightarrow> (bool \<times> 'z kernel_scheme) option" where
  "tcp_recv_callback sys_fd p s =
     (case p of
        None \<Rightarrow> do { s \<leftarrow> upd_file sys_fd (\<lambda>k. k\<lparr>is_dirty := -1\<rparr>) s; Some (True, s) }
      | Some bs \<Rightarrow> do {
          k \<leftarrow> get_file sys_fd s;
          if in_use k \<and> kf_buffer k \<noteq> NULL then
            (if kf_size k + of_nat (length bs) > kf_capacity k then Some (False, s)
             else do {
               s \<leftarrow> upd_file sys_fd (\<lambda>k. k\<lparr>kf_size := kf_size k + of_nat (length bs), is_dirty := 1\<rparr>)
                 (s\<lparr>mem := write_bytes (mem s) (kf_buffer k + kf_size k) bs\<rparr>);
               Some (True, s) })
          else Some (True, s) })"

definition tcp_connected_callback :: "int \<Rightarrow> 'z kernel_scheme \<Rightarrow> 'z kernel_scheme option" where
  "tcp_connected_callback sys_fd s = upd_file sys_fd (\<lambda>k. k\<lparr>is_dirty := 1\<rparr>) s"

definition sys_socket :: "u32 \<Rightarrow> 'z kernel_scheme \<Rightarrow> 'z kernel_scheme option" where
  "sys_socket regs s = do {
     let type = sint (reg_ecx regs s);
     let proto = sint (reg_edx regs s);
     t \<leftarrow> get_task (current_task s) s;
     case free_fds t of [] \<Rightarrow> Some (set_eax regs (-1) s) | free_fd # _ \<Rightarrow>
     case free_files s of [] \<Rightarrow> Some (set_eax regs (-1) s) | i # _ \<Rightarrow> do {
       let sys_fd = int i;
       (buffer, s) \<leftarrow> kmalloc 65536 s;
       s \<leftarrow> upd_file sys_fd (\<lambda>k. k\<lparr>in_use := True, refcount := 1, kf_capacity := 65536, kf_buffer := buffer, is_dirty := 0,
              kf_size := 0, kf_offset := 0\<rparr>) s;
       if type = 3 then do {
         let (pcb, s) = lwip (Raw_new proto) s;
         s \<leftarrow> upd_file sys_fd (\<lambda>k. k\<lparr>kf_type := FILE_TYPE_SOCKET, socket_id := pcb\<rparr>) s;
         s \<leftarrow> set_fd free_fd sys_fd (snd (lwip (Raw_recv pcb sys_fd) s));
         Some (set_eax regs (of_nat free_fd) s) }
       else if type = 1 then do {
         let (pcb, s) = lwip Tcp_new s;
         s \<leftarrow> upd_file sys_fd (\<lambda>k. k\<lparr>kf_type := FILE_TYPE_SOCKET_TCP, socket_id := pcb\<rparr>) s;
         s \<leftarrow> set_fd free_fd sys_fd (snd (lwip (Tcp_recv pcb True) (snd (lwip (Tcp_arg pcb (Some sys_fd)) s))));
         Some (set_eax regs (of_nat free_fd) s) }
       else do {
         s \<leftarrow> upd_file sys_fd (\<lambda>k. k\<lparr>in_use := False\<rparr>) s;
         s \<leftarrow> kfree buffer s;
         Some (set_eax regs (-1) s) } } }"

text \<open>The open file behind a descriptor of the current task; \<open>None\<close> in the inner option when there is none.\<close>

definition fd_file :: "int \<Rightarrow> 'z kernel_scheme \<Rightarrow> (int \<times> kfile) option option" where
  "fd_file fd s =
     (if fd < 0 \<or> fd \<ge> int MAX_FDS then Some None
      else do {
        t \<leftarrow> get_task (current_task s) s;
        sys_fd \<leftarrow> fd_at fd t;
        if sys_fd = -1 then Some None else do { k \<leftarrow> get_file sys_fd s; Some (Some (sys_fd, k)) } })"

definition ntohs :: "u16 \<Rightarrow> u16" where
  "ntohs n = push_bit 8 n OR drop_bit 8 n"

definition sys_connect :: "u32 \<Rightarrow> 'z kernel_scheme \<Rightarrow> 'z kernel_scheme option" where
  "sys_connect regs s =
     (let addr = reg_ecx regs s in
      if \<not> validate_user_ptr addr 16 then Some (set_eax regs (-1) s)
      else do {
        f \<leftarrow> fd_file (sint (reg_ebx regs s)) s;
        case f of None \<Rightarrow> Some (set_eax regs (-1) s)
        | Some (sys_fd, k) \<Rightarrow>
            let ip = load32 (mem s) (addr + 4) in
            if kf_type k = FILE_TYPE_SOCKET then Some (set_eax regs 0 (snd (lwip (Raw_connect (socket_id k) ip) s)))
            else if kf_type k = FILE_TYPE_SOCKET_TCP then
              (if kf_offset k = 0 then do {
                 s \<leftarrow> upd_file sys_fd (\<lambda>k. k\<lparr>kf_offset := 1, is_dirty := 0\<rparr>) s;
                 Some (set_eax regs 0xFFFFFFFF (snd (lwip (Tcp_connect (socket_id k) ip (ntohs (load16 (mem s) (addr + 2)))) s))) }
               else if is_dirty k = 1 \<or> is_dirty k = -1 then do {
                 s \<leftarrow> upd_file sys_fd (\<lambda>k. k\<lparr>kf_offset := 0, is_dirty := 0\<rparr>) s;
                 Some (set_eax regs (if is_dirty k = 1 then 0 else -1) s) }
               else Some (set_eax regs 0xFFFFFFFF s))
            else Some (set_eax regs (-1) s) })"

definition sys_send :: "u32 \<Rightarrow> 'z kernel_scheme \<Rightarrow> 'z kernel_scheme option" where
  "sys_send regs s =
     (let data = reg_ecx regs s; n = reg_edx regs s in
      if \<not> validate_user_ptr data n then Some (set_eax regs (-1) s)
      else do {
        f \<leftarrow> fd_file (sint (reg_ebx regs s)) s;
        case f of None \<Rightarrow> Some (set_eax regs (-1) s)
        | Some (sys_fd, k) \<Rightarrow>
            let bs = read_bytes (mem s) data (unat n) in
            if kf_type k = FILE_TYPE_SOCKET then (let (r, s) = lwip (Raw_send (socket_id k) bs) s in Some (set_eax regs r s))
            else if kf_type k = FILE_TYPE_SOCKET_TCP then
              (let (err, s) = lwip (Tcp_write (socket_id k) bs) s; (_, s) = lwip (Tcp_output (socket_id k)) s
               in Some (set_eax regs (if err = 0 then n else -1) s))
            else Some (set_eax regs (-1) s) })"

definition sys_recv :: "u32 \<Rightarrow> 'z kernel_scheme \<Rightarrow> 'z kernel_scheme option" where
  "sys_recv regs s =
     (let dst = reg_ecx regs s; len = reg_edx regs s in
      if \<not> validate_user_ptr dst len then Some (set_eax regs (-1) s)
      else do {
        f \<leftarrow> fd_file (sint (reg_ebx regs s)) s;
        case f of None \<Rightarrow> Some (set_eax regs (-1) s)
        | Some (sys_fd, k) \<Rightarrow>
            if is_dirty k = 0 then Some (set_eax regs 0xFFFFFFFF s)
            else if is_dirty k = -1 \<and> kf_size k = 0 then Some (set_eax regs 0 s)
            else do {
              let to_copy = (if kf_size k > len then len else kf_size k);
              let m = fast_memcpy (mem s) dst (kf_buffer k) to_copy;
              s \<leftarrow> (if kf_size k > to_copy
                    then upd_file sys_fd (\<lambda>k. k\<lparr>kf_size := kf_size k - to_copy\<rparr>)
                      (s\<lparr>mem := memmove m (kf_buffer k) (kf_buffer k + to_copy) (unat (kf_size k - to_copy))\<rparr>)
                    else upd_file sys_fd (\<lambda>k. k\<lparr>kf_size := 0, is_dirty := (if is_dirty k = -1 then -1 else 0)\<rparr>) (s\<lparr>mem := m\<rparr>));
              let s = (if kf_type k = FILE_TYPE_SOCKET_TCP \<and> to_copy > 0 then snd (lwip (Tcp_recved (socket_id k) to_copy) s) else s);
              Some (set_eax regs to_copy s) } })"

definition dns_callback :: "u32 option \<Rightarrow> 'z kernel_scheme \<Rightarrow> 'z kernel_scheme" where
  "dns_callback ipaddr s = (case ipaddr of Some ip \<Rightarrow> s\<lparr>resolved_ip := ip, dns_state := 2\<rparr> | None \<Rightarrow> s\<lparr>dns_state := 3\<rparr>)"

definition sys_gethostbyname :: "u32 \<Rightarrow> 'z kernel_scheme \<Rightarrow> 'z kernel_scheme option" where
  "sys_gethostbyname regs s =
     (case user_str (reg_ebx regs s) 256 s of
        None \<Rightarrow> Some (set_eax regs 0 s)
      | Some name \<Rightarrow>
          if dns_state s = 2 then Some (set_eax regs (resolved_ip s) (s\<lparr>dns_state := 0\<rparr>))
          else if dns_state s = 3 then Some (set_eax regs 0 (s\<lparr>dns_state := 0\<rparr>))
          else if dns_state s = 0 then do {
            host \<leftarrow> strcpy 256 name;
            let s = s\<lparr>kernel_hostname := host\<rparr>;
            let (err, s) = lwip (Dns_gethostbyname host) s;
            if err = 0 then Some (set_eax regs (dns_answer s host) s)
            else if err = err_inprogress s then Some (set_eax regs 0xFFFFFFFF (s\<lparr>dns_state := 1\<rparr>))
            else Some (set_eax regs 0 s) }
          else Some (set_eax regs 0xFFFFFFFF s))"

section \<open>The dispatcher\<close>

text \<open>
  \<^verbatim>\<open>syscall_table\<close>: entry 120 is initialised twice, and the later initialiser, the keyboard flush, is the one in
  effect. Entry 1, \<^verbatim>\<open>sys_exit\<close>, does not return to the dispatcher and is handled there.
\<close>

definition syscall_table :: "('z kernel_scheme \<Rightarrow> 'z kernel_scheme) \<Rightarrow> (nat \<times> (u32 \<Rightarrow> 'z kernel_scheme \<Rightarrow> 'z kernel_scheme option)) list" where
  "syscall_table resume = [
     (2, sys_fork), (3, sys_read resume), (4, sys_write resume), (5, sys_read_file resume), (6, sys_write_file),
     (7, sys_waitpid resume), (8, sys_get_file_size), (10, sys_delete_file), (11, sys_spawn resume), (12, sys_chdir), (13, sys_set_color),
     (14, sys_get_tasks), (15, sys_get_mem_info), (16, sys_get_cursor), (17, sys_set_cursor), (18, sys_clear), (19, sys_getenv),
     (20, sys_getuid), (21, sys_setuid), (22, sys_get_term_size), (23, sys_print),
     (37, sys_kill), (39, sys_mkdir), (45, sys_malloc), (46, sys_free), (79, sys_getcwd), (89, sys_readdir),
     (90, sys_dlopen resume), (91, sys_dlsym), (92, sys_mount), (93, sys_unmount),
     (24, sys_detach), (25, sys_get_screen_info), (26, sys_flush_screen),
     (27, sys_get_mouse), (28, sys_poll_key), (29, sys_get_key_modifiers), (30, sys_yield resume),
     (31, sys_get_ticks), (32, sys_get_key_state), (34, sys_uname),
     (100, wrap_open resume), (101, wrap_close), (102, wrap_lseek), (103, sys_sbrk), (104, wrap_read_fd resume), (105, wrap_write_fd resume),
     (110, sys_shm_get), (111, sys_shm_map), (112, sys_pipe), (113, sys_spawn_ext resume),
     (121, sys_connect), (122, sys_send), (123, sys_recv), (124, sys_gethostbyname),
     (125, sys_scancode_to_char), (126, sys_wait_scancode resume), (33, sys_get_rtc),
     (118, sys_sigaction), (119, sys_sigreturn), (120, sys_flush_keyboard), (127, sys_flush_rect)]"

definition sys_exit :: "'z kernel_scheme \<Rightarrow> 'z kernel_scheme option" where
  "sys_exit s = exit_process s"

definition syscall_handler_c :: "('z kernel_scheme \<Rightarrow> 'z kernel_scheme) \<Rightarrow> u32 \<Rightarrow> 'z kernel_scheme \<Rightarrow> 'z kernel_scheme option" where
  "syscall_handler_c resume regs s =
     (let s = s\<lparr>int_flag := True\<rparr>; n = unat (reg_eax regs s) in
      if n = 1 then sys_exit s
      else do {
        s \<leftarrow> (case (if n < 256 then map_of (syscall_table resume) n else None) of
               Some handler \<Rightarrow> handler regs s
             | None \<Rightarrow> printf (''Kernel Warning: Unhandled syscall ID %d'' @ [CHR 0x0A]) [ArgWord (reg_eax regs s)] s);
        check_signals regs s })"

end
