(* ===== verification/Syscall_Props.thy ===== *)
theory Syscall_Props
  imports Syscalls Fd_Props
begin

text \<open>
  What the system calls guarantee: strings of user programs are read completely and inside user
  memory, and the configuration is protected from ordinary users on the paths that check for it.
\<close>

section \<open>User pointers\<close>

lemma validate_user_ptr_byte: "validate_user_ptr a 1 \<longleftrightarrow> 0x01000000 \<le> unat a \<and> unat a < 0xFFFFFFFF"
proof -
  have "a + 1 < a \<longleftrightarrow> unat a = 0xFFFFFFFF"
  proof (cases "unat a = 0xFFFFFFFF")
    case True
    then have "unat (a + 1) = 0" by (simp add: unat_word_ariths)
    then show ?thesis using True by (simp add: word_less_nat_alt)
  next
    case False
    then show ?thesis using unat_lt32 [of a] unat_add_no_wrap32 [of a 1] by (simp add: word_less_nat_alt)
  qed
  moreover have "a < 0x01000000 \<longleftrightarrow> unat a < 0x01000000" by (simp add: word_less_nat_alt)
  moreover have "a = 0 \<longleftrightarrow> unat a = 0" by (simp add: unat_eq_0)
  ultimately show ?thesis using unat_lt32 [of a] unfolding validate_user_ptr_def by auto
qed

lemma strlen_loop_Some:
  "strlen_loop m a len n = Some r \<longleftrightarrow> len \<le> r \<and> r < len + n \<and> (\<forall>i. len \<le> i \<and> i \<le> r \<longrightarrow> validate_user_ptr (a + of_nat i) 1) \<and>
     (\<forall>i. len \<le> i \<and> i < r \<longrightarrow> m (a + of_nat i) \<noteq> 0) \<and> m (a + of_nat r) = 0"
proof (induction n arbitrary: len)
  case (Suc n)
  show ?case
  proof (cases "validate_user_ptr (a + of_nat len) 1 \<and> m (a + of_nat len) \<noteq> 0")
    case True
    have "len \<le> i \<longleftrightarrow> i = len \<or> len + 1 \<le> i" for i by auto
    then show ?thesis using True Suc.IH [of "len + 1"] by (auto simp del: of_nat_Suc)
  next
    case False
    then show ?thesis by (auto simp: le_less)
  qed
qed simp

lemma user_addresses:
  assumes "0x01000000 \<le> unat (a :: u32)"
  shows "(\<forall>i\<le>r. validate_user_ptr (a + of_nat i) 1) \<longleftrightarrow> unat a + r < 0xFFFFFFFF"
proof
  assume v: "\<forall>i\<le>r. validate_user_ptr (a + of_nat i) 1"
  have "unat a + i < 0xFFFFFFFF" if "i \<le> r" for i
    using that
  proof (induction i)
    case 0
    then show ?case using v [rule_format, of 0] by (simp add: validate_user_ptr_byte)
  next
    case (Suc i)
    then have lt: "unat a + Suc i < 4294967296" by simp
    then have "unat (of_nat (Suc i) :: u32) = Suc i" by (intro unat_of_nat32) simp
    then have "unat (a + of_nat (Suc i)) = unat a + Suc i" using unat_add_no_wrap32 [of a "of_nat (Suc i)"] lt by simp
    then show ?case using v [rule_format, of "Suc i"] Suc.prems by (simp only: validate_user_ptr_byte)
  qed
  then show "unat a + r < 0xFFFFFFFF" by simp
next
  assume r: "unat a + r < 0xFFFFFFFF"
  have "unat (a + of_nat i) = unat a + i" if "i \<le> r" for i
    using that r unat_of_nat32 [of i] unat_add_no_wrap32 [of a "of_nat i"] by simp
  then show "\<forall>i\<le>r. validate_user_ptr (a + of_nat i) 1" using r assms by (simp add: validate_user_ptr_byte)
qed

lemma safe_strlen_Some:
  "safe_strlen a n s = Some r \<longleftrightarrow> r < n \<and> 0x01000000 \<le> unat a \<and> unat a + r < 0xFFFFFFFF \<and>
     (\<forall>i<r. mem s (a + of_nat i) \<noteq> 0) \<and> mem s (a + of_nat r) = 0"
proof (cases "validate_user_ptr a 1")
  case True
  then have a: "0x01000000 \<le> unat a" by (simp add: validate_user_ptr_byte)
  show ?thesis using True a user_addresses [OF a, of r] by (simp add: safe_strlen_def strlen_loop_Some)
qed (auto simp: safe_strlen_def validate_user_ptr_byte)

lemma byte_char: "byte_of (char_of (unat b)) = b"
proof -
  have "unat b < 256" using unsigned_less [of b] by simp
  then have "(of_char (char_of (unat b)) :: int) = int (unat b)"
    by (simp only: of_nat_of_char [symmetric, where 'a = int] of_char_of mod_less)
  then show ?thesis by (simp add: byte_of_def uchar_def)
qed

lemma char_byte_of: "char_of (unat (byte_of c)) = c"
proof -
  have "uint (byte_of c) = uchar c" using uchar_bounds [of c] by (simp add: byte_of_def uint_word_of_int)
  then have "unat (byte_of c) = nat (uchar c)" by (simp add: unat_eq_nat_uint)
  then show ?thesis by (simp add: uchar_def)
qed

lemma byte_of_0: "byte_of c = 0 \<longleftrightarrow> c = CHR 0x00"
proof
  assume "byte_of c = 0"
  then show "c = CHR 0x00" using char_byte_of [of c] by (simp add: char_of_def)
qed (simp add: byte_of_def uchar_def)

lemma user_str_Some:
  "user_str a n s = Some str \<longleftrightarrow>
     length str < n \<and> 0x01000000 \<le> unat a \<and> unat a + length str < 0xFFFFFFFF \<and> CHR 0x00 \<notin> set str \<and>
     read_bytes (mem s) a (length str + 1) = map byte_of str @ [0]"
proof -
  have rb: "read_bytes (mem s) a (r + 1) = read_bytes (mem s) a r @ [mem s (a + of_nat r)]" for r
    by (simp add: read_bytes_def)
  have str: "map (\<lambda>b. char_of (unat b)) (read_bytes (mem s) a (length str)) = str \<longleftrightarrow> read_bytes (mem s) a (length str) = map byte_of str"
    by (metis (no_types, lifting) byte_char char_byte_of list.map_comp list.map_id0 map_idI o_apply list.map_cong0)
  have nz: "CHR 0x00 \<notin> set str \<longleftrightarrow> (\<forall>i<length str. mem s (a + of_nat i) \<noteq> 0)"
    if rd: "read_bytes (mem s) a (length str) = map byte_of str"
  proof -
    have "mem s (a + of_nat i) = byte_of (str ! i)" if i: "i < length str" for i
      using i arg_cong [OF rd, of "\<lambda>xs. xs ! i"] by (simp add: read_bytes_def)
    then show ?thesis by (auto simp: in_set_conv_nth byte_of_0)
  qed
  have "user_str a n s = Some str \<longleftrightarrow> safe_strlen a n s = Some (length str) \<and> read_bytes (mem s) a (length str) = map byte_of str"
    unfolding user_str_def using str by (auto simp: map_option_case split: option.splits)
  then show ?thesis unfolding rb safe_strlen_Some using nz by auto
qed

text \<open>
  C12. Reading a string from a user program is exact: it succeeds with a string precisely when that string
  lies at the pointer, terminated within the given number of bytes, entirely at or above the 16 MB
  where the memory of programs begins and below the end of the address space.
\<close>

theorem user_str_exact:
  "user_str a n s = Some str \<longleftrightarrow>
     length str < n \<and> 0x01000000 \<le> unat a \<and> unat a + length str < 0xFFFFFFFF \<and> CHR 0x00 \<notin> set str \<and>
     read_bytes (mem s) a (length str + 1) = map byte_of str @ [0]"
  by (rule user_str_Some)

section \<open>Protected files\<close>

text \<open>
  C36. The two calls that write and delete a file by name refuse a user other than root the protected names: when the name, relative or with
  redundant components as it may be, resolves to exactly \<^verbatim>\<open>/kernel.cfg\<close> or to a path that begins with \<^verbatim>\<open>/path\<close>, in
  these lower-case letters, both return -1 and change nothing but the return register. It is a property of names and not of
  files: the file system does not distinguish upper and lower case, so the same file has other names that
  pass the check (\<open>letter_case_escapes\<close> below), and \<^verbatim>\<open>open\<close> has no such check at all.
\<close>

theorem protected_files_error:
  assumes "get_task (current_task s) s = Some t" and "uid t \<noteq> 0"
    and "user_str (reg_ebx regs s) 256 s = Some str" and "get_absolute_path (cwd t) str = Some path"
    and "path = ''/kernel.cfg'' \<or> (\<exists>rest. path = ''/path'' @ rest)"
  shows "sys_write_file regs s = Some (set_eax regs (-1) s) \<and> sys_delete_file regs s = Some (set_eax regs (-1) s) \<and>
    load32 (mem (set_eax regs (-1) s)) (regs + 28) = 0xFFFFFFFF \<and>
    (\<forall>x. unat (x - (regs + 28)) < 4 \<or> mem (set_eax regs (-1) s) x = mem s x)"
proof -
  have "strcmp path ''/kernel.cfg'' = 0 \<or> strncmp path ''/path'' 5 = 0"
    using assms(5) by (auto simp: numeral_eq_Suc)
  then have "protected_path path s = Some True" using assms(1,2) by (simp add: protected_path_def)
  then have "sys_write_file regs s = Some (set_eax regs (-1) s)" "sys_delete_file regs s = Some (set_eax regs (-1) s)"
    using assms(1,3,4) by (simp_all add: sys_write_file_def sys_delete_file_def with_path_def abs_path_def)
  moreover have "mem (set_eax regs (-1) s) x = mem s x" if "\<not> unat (x - (regs + 28)) < 4" for x
    using store32_other [of x "regs + 28" "mem s" "-1"] that by (simp add: set_eax_def)
  ultimately show ?thesis by (auto simp: set_eax_def)
qed

text \<open>The name in capitals passes the check, and a directory entry matches it when it matches the protected name.\<close>

lemma fat32_streq_lower: "fat32_streq xs ys \<longleftrightarrow> map tolower_char xs = map tolower_char ys"
  by (induction xs ys rule: fat32_streq.induct) auto

lemma letter_case_escapes:
  assumes "get_task (current_task s) s = Some t"
  shows "get_absolute_path (cwd t) ''/x/../KERNEL.CFG'' = Some ''/KERNEL.CFG''" and "protected_path ''/KERNEL.CFG'' s = Some False"
    and "is_match m e lfn_buf ''KERNEL.CFG'' (to_dos_file_name ''KERNEL.CFG'') = is_match m e lfn_buf ''kernel.cfg'' (to_dos_file_name ''kernel.cfg'')"
proof -
  show "get_absolute_path (cwd t) ''/x/../KERNEL.CFG'' = Some ''/KERNEL.CFG''" by code_simp
  show "protected_path ''/KERNEL.CFG'' s = Some False" using assms by (simp add: protected_path_def numeral_eq_Suc)
  have "to_dos_file_name ''KERNEL.CFG'' = to_dos_file_name ''kernel.cfg''" "map tolower_char ''KERNEL.CFG'' = map tolower_char ''kernel.cfg''"
    by code_simp+
  then show "is_match m e lfn_buf ''KERNEL.CFG'' (to_dos_file_name ''KERNEL.CFG'') = is_match m e lfn_buf ''kernel.cfg'' (to_dos_file_name ''kernel.cfg'')"
    by (simp only: is_match_def fat32_streq_lower)
qed

definition kernel_example :: kernel where
  "kernel_example = procs.extend (fds.extend (fds_example\<lparr>mem := write_bytes ((\<lambda>_. 0)(0x113 := 2)) 0x2000000 (map byte_of ''/x/../kernel.cfg'' @ [0]),
       tasks := [0x1000 \<mapsto> (task_example 5 0x1000 TASK_RUNNING)\<lparr>uid := 7\<rparr>]\<rparr>)
     (procs.fields [] 0 0 0)) (kernel.fields None 0 0 [] (\<lambda>_. 0) 0)"

lemma kernel_example_fields [simp]:
  "mem kernel_example = write_bytes ((\<lambda>_. 0)(0x113 := 2)) 0x2000000 (map byte_of ''/x/../kernel.cfg'' @ [0])"
  "tasks kernel_example = [0x1000 \<mapsto> (task_example 5 0x1000 TASK_RUNNING)\<lparr>uid := 7\<rparr>]" "current_task kernel_example = 0x1000"
  by (simp_all add: kernel_example_def kernel.defs procs.defs fds.defs fds_example_def vfs.defs input.defs tasking.defs tasking_example_def vga.defs)

theorem protected_files_error_witness:
  "sys_write_file 0x100 kernel_example = Some (set_eax 0x100 (-1) kernel_example)"
proof -
  have l1: "length ''/x/../kernel.cfg'' + 1 = 17" by simp
  have l: "length (map byte_of ''/x/../kernel.cfg'' @ [0]) = 17" by simp
  have m: "mem kernel_example x = ((\<lambda>_. 0)(0x113 := 2)) x" if "17 \<le> unat (x - 0x2000000)" for x
    using write_bytes_eq [of "map byte_of ''/x/../kernel.cfg'' @ [0]" "(\<lambda>_. 0)(0x113 := 2)" "0x2000000" x] that
    unfolding l kernel_example_fields by simp
  have "load32 (mem kernel_example) 0x110 = 0x2000000"
    by (simp add: load32_def m del: kernel_example_fields)
  then have "reg_ebx 0x100 kernel_example = 0x2000000" by (simp add: reg_ebx_def del: kernel_example_fields)
  moreover have "read_bytes (mem kernel_example) 0x2000000 17 = map byte_of ''/x/../kernel.cfg'' @ [0]"
    using read_write_bytes [of "map byte_of ''/x/../kernel.cfg'' @ [0]" "(\<lambda>_. 0)(0x113 := 2)" "0x2000000"]
    unfolding l kernel_example_fields by simp
  then have "user_str 0x2000000 256 kernel_example = Some ''/x/../kernel.cfg''"
    unfolding user_str_Some l1 by simp
  moreover have "get_absolute_path ''/'' ''/x/../kernel.cfg'' = Some ''/kernel.cfg''" by code_simp
  ultimately show ?thesis
    using protected_files_error [of kernel_example _ "0x100" "''/x/../kernel.cfg''" "''/kernel.cfg''"] by (simp add: task_example_def)
qed

end
