(* ===== verification/Address_Space.thy ===== *)
theory Address_Space
  imports Elf Paging_Props Heap_Room
begin

text \<open>
  Mapping ranges of pages into the address space of a program: \<open>map_pages\<close> gives every page of the
  range its frame, changes no other translation, and leaves the memory of blocks that hold no page
  tables alone, as long as the heap has room for the tables that are missing.
\<close>

section \<open>Pages\<close>

lemma page_unat: "page p \<longleftrightarrow> (\<exists>k. unat p = 4096 * k)"
  unfolding page_def by (metis mod_0_imp_dvd dvdE mod_mult_self1_is_0)

lemma page_next:
  assumes "page p" and "unat p + 4096 < 4294967296"
  shows "page (p + 4096)" "unat (p + 4096) = unat p + 4096"
proof -
  show u: "unat (p + 4096) = unat p + 4096" using unat_add_no_wrap32 [of p 4096] assms(2) by simp
  show "page (p + 4096)" using assms(1) unfolding page_def u by simp
qed

lemma pt_index_unat: "unat (pt_index v) = unat v div 4096 mod 1024"
proof -
  have m: "(0x3FF :: u32) = mask 10" by (simp add: mask_eq_exp_minus_1)
  have "pt_index v = take_bit 10 (drop_bit 12 v)" unfolding pt_index_def m by (simp add: take_bit_eq_mask)
  then show ?thesis by (simp add: take_bit_eq_mod drop_bit_eq_div unat_mod unat_div)
qed

lemma same_page:
  assumes "page p"
  shows "pd_index v = pd_index p \<and> pt_index v = pt_index p \<longleftrightarrow> unat p \<le> unat v \<and> unat v < unat p + 4096"
proof -
  obtain k where k: "unat p = 4096 * k" using assms by (auto simp: page_unat)
  have pd: "unat (pd_index w) = unat w div 4096 div 1024" for w by (simp add: pd_index_unat div_mult2_eq [symmetric])
  have "pd_index v = pd_index p \<and> pt_index v = pt_index p \<longleftrightarrow>
      unat v div 4096 div 1024 = k div 1024 \<and> unat v div 4096 mod 1024 = k mod 1024"
    unfolding word_unat_eq_iff [of "pd_index v"] word_unat_eq_iff [of "pt_index v"] pd pt_index_unat k by simp
  also have "\<dots> \<longleftrightarrow> unat v div 4096 = k" by (metis div_mult_mod_eq)
  also have "\<dots> \<longleftrightarrow> unat p \<le> unat v \<and> unat v < unat p + 4096" unfolding k by (auto simp: div_nat_eqI dividend_less_times_div)
  finally show ?thesis .
qed

lemma frame_offset:
  assumes "page phys" and "page p" and "unat p \<le> unat v" and "unat v < unat p + 4096"
  shows "(phys AND 0xFFFFF000) OR (v AND 0xFFF) = phys + (v - p)"
proof -
  have m: "(0xFFF :: u32) = mask 12" by (simp add: mask_eq_exp_minus_1)
  have "phys AND (v AND mask 12) = (phys AND NOT (mask 12)) AND (v AND mask 12)"
    using page_frame [OF assms(1)] by (simp add: frame_mask)
  also have "\<dots> = 0" by (rule bit_eqI) (auto simp: bit_simps)
  finally have "phys OR (v AND mask 12) = phys + (v AND mask 12)" by (simp add: disjunctive_add_eq_or)
  moreover have "v AND mask 12 = v - p"
  proof -
    obtain k where k: "unat p = 4096 * k" using assms(2) by (auto simp: page_unat)
    have "unat (v AND mask 12) = unat v mod 4096" by (simp flip: take_bit_eq_mask add: take_bit_eq_mod unat_mod)
    also have "\<dots> = unat v - unat p" using assms(3,4) unfolding k
      by (metis add_diff_cancel_left' le_add_diff_inverse less_diff_conv2 add.commute mod_less mod_mult_self2)
    also have "\<dots> = unat (v - p)" using assms(3) by (simp add: unat_sub32)
    finally show ?thesis by (simp add: word_unat_eq_iff)
  qed
  ultimately show ?thesis using page_frame [OF assms(1)] m by simp
qed

section \<open>Tables that are missing\<close>

definition absent :: "(u32 \<Rightarrow> u8) \<Rightarrow> u32 \<Rightarrow> nat \<Rightarrow> nat \<Rightarrow> nat set" where
  "absent m dir lo hi = {j. j < 1024 \<and> (\<exists>v::u32. lo \<le> unat v \<and> unat v < hi \<and> unat (pd_index v) = j) \<and> pde m dir j AND 1 = 0}"

definition no_big :: "(u32 \<Rightarrow> u8) \<Rightarrow> u32 \<Rightarrow> nat \<Rightarrow> nat \<Rightarrow> bool" where
  "no_big m dir lo hi \<longleftrightarrow> (\<forall>v::u32. lo \<le> unat v \<and> unat v < hi \<longrightarrow> pde m dir (unat (pd_index v)) AND 1 \<noteq> 0 \<longrightarrow>
     pde m dir (unat (pd_index v)) AND 0x80 = 0)"

lemma finite_absent [simp]: "finite (absent m dir lo hi)"
  by (rule finite_subset [of _ "{..<1024}"]) (auto simp: absent_def)

text \<open>After one page the tables that are missing for the rest.\<close>

lemma absent_first: "unat (pd_index virt) \<in> absent m dir (unat virt) (unat virt + 4096 * Suc n) \<longleftrightarrow> pde m dir (unat (pd_index virt)) AND 1 = 0"
proof -
  have "\<exists>v. unat virt \<le> unat v \<and> unat v < unat virt + 4096 * Suc n \<and> unat (pd_index v) = unat (pd_index virt)"
    by (intro exI [of _ virt]) simp
  then show ?thesis using pd_index_less [of virt] by (simp add: absent_def)
qed

lemma tables_next:
  assumes virt: "unat (virt + 4096) = unat virt + 4096"
    and has: "has_table m' dir (unat (pd_index virt))" and others: "\<forall>k<1024. k \<noteq> unat (pd_index virt) \<longrightarrow> pde m' dir k = pde m dir k"
  shows "no_big m dir (unat virt) (unat virt + 4096 * Suc n) \<Longrightarrow> no_big m' dir (unat (virt + 4096)) (unat (virt + 4096) + 4096 * n)"
    "card (absent m' dir (unat (virt + 4096)) (unat (virt + 4096) + 4096 * n)) + (if pde m dir (unat (pd_index virt)) AND 1 = 0 then 1 else 0)
       \<le> card (absent m dir (unat virt) (unat virt + 4096 * Suc n))"
proof -
  let ?i = "unat (pd_index virt)" and ?lo = "unat virt" and ?hi = "unat virt + 4096 * Suc n"
  let ?A = "absent m' dir (unat (virt + 4096)) (unat (virt + 4096) + 4096 * n)"
  show "no_big m' dir (unat (virt + 4096)) (unat (virt + 4096) + 4096 * n)" if nb: "no_big m dir ?lo ?hi"
    unfolding no_big_def
  proof (intro allI impI)
    fix v :: u32 assume v: "unat (virt + 4096) \<le> unat v \<and> unat v < unat (virt + 4096) + 4096 * n" "pde m' dir (unat (pd_index v)) AND 1 \<noteq> 0"
    then show "pde m' dir (unat (pd_index v)) AND 0x80 = 0"
      using has others pd_index_less [of v] nb virt by (cases "unat (pd_index v) = ?i") (auto simp: has_table_def no_big_def)
  qed
  have sub: "?A \<subseteq> absent m dir ?lo ?hi - {?i}"
  proof
    fix j assume j: "j \<in> ?A"
    then obtain v :: u32 where v: "unat (virt + 4096) \<le> unat v" "unat v < unat (virt + 4096) + 4096 * n" "unat (pd_index v) = j"
      and p: "j < 1024" "pde m' dir j AND 1 = 0" by (auto simp: absent_def)
    have "j \<noteq> ?i" using has p(2) by (auto simp: has_table_def)
    moreover have "?lo \<le> unat v" "unat v < ?hi" using v(1,2) virt by auto
    ultimately show "j \<in> absent m dir ?lo ?hi - {?i}" using v(3) p others by (auto simp: absent_def)
  qed
  have c: "card ?A \<le> card (absent m dir ?lo ?hi - {?i})" using sub by (intro card_mono) auto
  show "card ?A + (if pde m dir ?i AND 1 = 0 then 1 else 0) \<le> card (absent m dir ?lo ?hi)"
  proof (cases "?i \<in> absent m dir ?lo ?hi")
    case True
    then show ?thesis using c card.remove [of "absent m dir ?lo ?hi" ?i] by simp
  next
    case False
    then have "pde m dir ?i AND 1 \<noteq> 0" unfolding absent_first .
    then show ?thesis using c False by simp
  qed
qed

lemma map_pages_ok:
  fixes s :: "'z paging_scheme"
  assumes "heap_ok s bs" and "dir_ok bs (mem s) dir" and "page phys" and "page virt"
    and "unat phys + 4096 * n < 4294967296" and "unat virt + 4096 * n < 4294967296"
    and "no_big (mem s) dir (unat virt) (unat virt + 4096 * n)"
    and "room bs (8224 * card (absent (mem s) dir (unat virt) (unat virt + 4096 * n)) + 17)"
  shows "\<exists>s' bs'. map_pages n dir phys virt s = Some s' \<and> heap_ok s' bs' \<and> dir_ok bs' (mem s') dir \<and>
    (\<forall>v. translate (mem s') dir v = (if unat virt \<le> unat v \<and> unat v < unat virt + 4096 * n then Some (phys + (v - virt))
       else translate (mem s) dir v)) \<and>
    (\<forall>q j. secluded bs (mem s) dir q j \<longrightarrow> secluded bs' (mem s') dir q j \<and> (\<forall>x. in_block q j x \<longrightarrow> mem s' x = mem s x))"
  using assms
proof (induction n arbitrary: s bs phys virt)
  case 0
  then show ?case by auto
next
  case (Suc n)
  let ?i = "unat (pd_index virt)"
  let ?lo = "unat virt" and ?hi = "unat virt + 4096 * Suc n"
  note hok = Suc.prems(1) and dok = Suc.prems(2) and nb = Suc.prems(7) and rm = Suc.prems(8)
  have virt: "page (virt + 4096)" "unat (virt + 4096) = unat virt + 4096"
    using page_next [OF Suc.prems(4)] Suc.prems(6) by auto
  have phys: "page (phys + 4096)" "unat (phys + 4096) = unat phys + 4096"
    using page_next [OF Suc.prems(3)] Suc.prems(5) by auto
  have wf: "heap_wf bs" using hok by (simp add: heap_ok_def)
  have small: "pde (mem s) dir ?i AND 1 \<noteq> 0 \<Longrightarrow> pde (mem s) dir ?i AND 0x80 = 0" using nb by (auto simp: no_big_def)
  have first: "?i \<in> absent (mem s) dir ?lo ?hi \<longleftrightarrow> pde (mem s) dir ?i AND 1 = 0" by (rule absent_first)
  have mk: "\<exists>a s'. kmalloc_a 4096 s = Some (a, s') \<and> a \<noteq> NULL" if "pde (mem s) dir ?i AND 1 = 0"
  proof (rule kmalloc_a_room [OF hok])
    have "0 < card (absent (mem s) dir ?lo ?hi)" using first that by (auto simp: card_gt_0_iff)
    then have "8196 \<le> 8224 * card (absent (mem s) dir ?lo ?hi) + 17" by linarith
    then show "room bs (unat (round_size (4096 + 4096 + 4)))" using rm by (auto simp: round_size_def intro: room_mono)
  qed simp
  have fl: "unat (7 :: u32) < 4096" by simp
  obtain s1 bs1 where m: "paging_map_user dir phys virt 7 s = Some s1" "heap_ok s1 bs1" "dir_ok bs1 (mem s1) dir"
    and tr: "\<And>v. translate (mem s1) dir v = (if pd_index v = pd_index virt \<and> pt_index v = pt_index virt
      then Some ((phys AND 0xFFFFF000) OR (v AND 0xFFF)) else translate (mem s) dir v)"
    and bs1: "bs1 = bs \<and> pde (mem s) dir ?i AND 1 \<noteq> 0 \<or> one_table bs bs1 \<and> pde (mem s) dir ?i AND 1 = 0"
    and has: "has_table (mem s1) dir ?i"
    and others: "\<And>k. k < 1024 \<Longrightarrow> k \<noteq> ?i \<Longrightarrow> pde (mem s1) dir k = pde (mem s) dir k"
    and keep: "\<And>q j. secluded bs (mem s) dir q j \<Longrightarrow> secluded bs1 (mem s1) dir q j \<and> (\<forall>x. in_block q j x \<longrightarrow> mem s1 x = mem s x)"
    by (rule paging_map_user_ok [OF hok dok fl small mk, of phys], assumption, assumption, rule that)
  have oth: "\<forall>k<1024. k \<noteq> ?i \<longrightarrow> pde (mem s1) dir k = pde (mem s) dir k" using others by blast
  note nx = tables_next [OF virt(2) has oth, of n]
  have rm1: "room bs1 (8224 * card (absent (mem s1) dir (unat (virt + 4096)) (unat (virt + 4096) + 4096 * n)) + 17)"
    using bs1
  proof
    assume b: "bs1 = bs \<and> pde (mem s) dir ?i AND 1 \<noteq> 0"
    have "card (absent (mem s1) dir (unat (virt + 4096)) (unat (virt + 4096) + 4096 * n)) \<le> card (absent (mem s) dir ?lo ?hi)"
      using nx(2) by simp
    then show ?thesis using b rm by (auto intro: room_mono)
  next
    assume b: "one_table bs bs1 \<and> pde (mem s) dir ?i AND 1 = 0"
    then obtain p k where p: "(p, k, True) \<in> set bs" "bs1 = a_alloc p 8196 bs" by (auto simp: one_table_def)
    let ?c = "card (absent (mem s1) dir (unat (virt + 4096)) (unat (virt + 4096) + 4096 * n))"
    have "?c + 1 \<le> card (absent (mem s) dir ?lo ?hi)" using nx(2) b by simp
    then have "unat (8196 :: u32) + 28 + (8224 * ?c + 17) \<le> 8224 * card (absent (mem s) dir ?lo ?hi) + 17" by simp
    then have "room bs (unat (8196 :: u32) + 28 + (8224 * ?c + 17))" using rm by (rule room_mono [rotated])
    then show ?thesis unfolding p(2) by (intro room_alloc [OF wf p(1)]) simp_all
  qed
  obtain s2 bs2 where r: "map_pages n dir (phys + 4096) (virt + 4096) s1 = Some s2" "heap_ok s2 bs2" "dir_ok bs2 (mem s2) dir"
    and tr2: "\<And>v. translate (mem s2) dir v = (if unat (virt + 4096) \<le> unat v \<and> unat v < unat (virt + 4096) + 4096 * n
       then Some (phys + 4096 + (v - (virt + 4096))) else translate (mem s1) dir v)"
    and keep2: "\<And>q j. secluded bs1 (mem s1) dir q j \<Longrightarrow> secluded bs2 (mem s2) dir q j \<and> (\<forall>x. in_block q j x \<longrightarrow> mem s2 x = mem s1 x)"
    using Suc.IH [OF m(2,3) phys(1) virt(1) _ _ nx(1) [OF nb] rm1] Suc.prems(5,6) phys(2) virt(2) by auto
  have trans: "translate (mem s2) dir v = (if ?lo \<le> unat v \<and> unat v < ?hi then Some (phys + (v - virt)) else translate (mem s) dir v)" for v
    using tr2 [of v] tr [of v] same_page [OF Suc.prems(4), of v] frame_offset [OF Suc.prems(3,4), of v] virt(2) by auto
  have "map_pages (Suc n) dir phys virt s = Some s2" using m(1) r(1) by simp
  moreover have "secluded bs2 (mem s2) dir q j \<and> (\<forall>x. in_block q j x \<longrightarrow> mem s2 x = mem s x)" if "secluded bs (mem s) dir q j" for q j
    using keep [OF that] keep2 by auto
  ultimately show ?case using r(2,3) trans by blast
qed

end
