(* ===== verification/Elf_Props.thy ===== *)
theory Elf_Props
  imports Address_Space
begin

text \<open>
  Loading a program: the image which \<open>load_elf\<close> builds and maps is the one the file describes.
\<close>

section \<open>Clearing and copying\<close>

lemma fast_memset_zero:
  assumes "unat p + 4 * n \<le> 4294967296"
  shows "fast_memset m p 0 n x = (if unat p \<le> unat x \<and> unat x < unat p + 4 * n then 0 else m x)"
  using assms
proof (induction n arbitrary: m p)
  case (Suc n)
  have st: "store32 m p 0 x = (if unat p \<le> unat x \<and> unat x < unat p + 4 then 0 else m x)"
  proof (cases "unat p \<le> unat x \<and> unat x < unat p + 4")
    case True
    have "unat (p + of_nat j) = unat p + j" if "j < 4" for j
      using that Suc.prems unat_of_nat32 [of j] by (subst unat_add_no_wrap32) auto
    from this [of 0] this [of 1] this [of 2] this [of 3] have "x = p \<or> x = p + 1 \<or> x = p + 2 \<or> x = p + 3"
      using True by (auto simp: word_unat_eq_iff [of x])
    then show ?thesis using True by (auto simp: store32_def)
  next
    case False
    then show ?thesis using Suc.prems by (auto intro!: store32_other_nat)
  qed
  show ?case
  proof (cases n)
    case 0
    then show ?thesis using st by simp
  next
    case (Suc k)
    then have u: "unat (p + 4) = unat p + 4" using Suc.prems unat_add_no_wrap32 [of p 4] by simp
    have "unat (p + 4) + 4 * n \<le> 4294967296" using Suc.prems u by simp
    from Suc.IH [OF this, of "store32 m p 0"] show ?thesis using st u by auto
  qed
qed auto

lemma copy_apart:
  assumes "unat d + n \<le> 4294967296" and "unat s + n \<le> 4294967296" and "unat s + n \<le> unat d \<or> unat d + n \<le> unat s" and "n = unat k"
  shows "fast_memcpy m d s k x = (if unat d \<le> unat x \<and> unat x < unat d + n then m (s + (x - d)) else m x)"
proof -
  have sub: "unat (a - b) = (if unat b \<le> unat a then unat a - unat b else unat a + 4294967296 - unat b)" for a b :: u32
    using unat_sub_if_size [of a b] unat_lt32 [of b] by (simp add: word_size)
  have "d = s \<or> unat k \<le> unat (d - s)" using assms sub [of d s] by auto
  then have "fast_memcpy m d s k = block_copy m d s n" using fast_memcpy_block_copy assms(4) by simp
  moreover have "unat (x - d) < n \<longleftrightarrow> unat d \<le> unat x \<and> unat x < unat d + n"
    using assms(1) sub [of x d] unat_lt32 [of x] by auto
  ultimately show ?thesis by (simp add: block_copy_def)
qed

section \<open>The segments of a file\<close>

definition in_seg :: "elf_phdr \<Rightarrow> u32 \<Rightarrow> bool" where
  "in_seg p v \<longleftrightarrow> unat (p_vaddr p) \<le> unat v \<and> unat v < unat (p_vaddr p) + unat (p_filesz p)"

definition seg_ok :: "nat \<Rightarrow> elf_phdr \<Rightarrow> bool" where
  "seg_ok file_size p \<longleftrightarrow> unat (p_offset p) + unat (p_filesz p) \<le> file_size \<and> p_filesz p \<le> p_memsz p \<and>
     unat (p_vaddr p) + unat (p_memsz p) \<le> 0xFFFFF000"

fun disjoint_segs :: "elf_phdr list \<Rightarrow> bool" where
  "disjoint_segs [] \<longleftrightarrow> True"
| "disjoint_segs (p # ps) \<longleftrightarrow> (\<forall>q\<in>set ps. unat (p_vaddr p) + unat (p_filesz p) \<le> unat (p_vaddr q) \<or>
     unat (p_vaddr q) + unat (p_filesz q) \<le> unat (p_vaddr p)) \<and> disjoint_segs ps"

lemma vaddr_range_bounds:
  assumes "vaddr_range ps lo hi = (a, b)" and "\<forall>p\<in>set ps. unat (p_vaddr p) + unat (p_memsz p) \<le> 0xFFFFF000"
  shows "unat a \<le> unat lo \<and> unat hi \<le> unat b \<and> (unat hi \<le> 0xFFFFF000 \<longrightarrow> unat b \<le> 0xFFFFF000) \<and>
    (\<forall>p\<in>set ps. unat a \<le> unat (p_vaddr p) \<and> unat (p_vaddr p) + unat (p_memsz p) \<le> unat b)"
  using assms
proof (induction ps arbitrary: lo hi)
  case (Cons p ps)
  have u: "unat (p_vaddr p + p_memsz p) = unat (p_vaddr p) + unat (p_memsz p)"
    using Cons.prems(2) by (intro unat_add_no_wrap32) (simp add: le_less_trans)
  note IH = Cons.IH [of "if p_vaddr p < lo then p_vaddr p else lo" "if p_vaddr p + p_memsz p > hi then p_vaddr p + p_memsz p else hi"]
  show ?case using IH Cons.prems u by (auto simp: Let_def word_less_nat_alt split: if_splits)
qed simp

text \<open>
  Copying the segments into an area of \<open>T\<close> bytes at \<open>phys\<close> that stands for the addresses from \<open>base\<close> on,
  apart from the \<open>n\<close> bytes of the file.
\<close>

definition area_ok :: "u32 \<Rightarrow> u32 \<Rightarrow> nat \<Rightarrow> u32 \<Rightarrow> nat \<Rightarrow> bool" where
  "area_ok phys base T fb n \<longleftrightarrow> unat phys + T \<le> 4294967295 \<and> unat fb + n \<le> 4294967295 \<and> (unat fb + n \<le> unat phys \<or> unat phys + T \<le> unat fb)"

definition seg_in :: "u32 \<Rightarrow> nat \<Rightarrow> nat \<Rightarrow> elf_phdr \<Rightarrow> bool" where
  "seg_in base T n p \<longleftrightarrow> seg_ok n p \<and> unat base \<le> unat (p_vaddr p) \<and> unat (p_vaddr p) + unat (p_filesz p) \<le> unat base + T"

lemma copy_segment:
  assumes area: "area_ok phys base T fb n" and seg: "seg_in base T n p"
    and m': "m' = fast_memcpy m (phys + (p_vaddr p - base)) (fb + p_offset p) (p_filesz p)"
  shows "unat x < unat phys \<or> unat phys + T \<le> unat x \<Longrightarrow> m' x = m x"
    and "unat base \<le> unat v \<Longrightarrow> unat v < unat base + T \<Longrightarrow>
      m' (phys + (v - base)) = (if in_seg p v then m (fb + p_offset p + (v - p_vaddr p)) else m (phys + (v - base)))"
proof -
  let ?d = "phys + (p_vaddr p - base)" and ?s = "fb + p_offset p" and ?n = "unat (p_filesz p)"
  have p: "unat (p_offset p) + ?n \<le> n" "unat base \<le> unat (p_vaddr p)" "unat (p_vaddr p) + ?n \<le> unat base + T"
    using seg by (auto simp: seg_in_def seg_ok_def)
  have ar: "unat phys + T \<le> 4294967295" "unat fb + n \<le> 4294967295" "unat fb + n \<le> unat phys \<or> unat phys + T \<le> unat fb"
    using area by (auto simp: area_ok_def)
  have ud: "unat ?d = unat phys + (unat (p_vaddr p) - unat base)"
    using p ar(1) unat_sub32 [of base "p_vaddr p"] by (subst unat_add_no_wrap32) auto
  have us: "unat ?s = unat fb + unat (p_offset p)" using p(1) ar(2) by (intro unat_add_no_wrap32) linarith
  have c: "m' x = (if unat ?d \<le> unat x \<and> unat x < unat ?d + ?n then m (?s + (x - ?d)) else m x)" for x
    unfolding m' using p us ud ar by (intro copy_apart) auto
  show "m' x = m x" if "unat x < unat phys \<or> unat phys + T \<le> unat x" for x
    using that c [of x] ud p(2,3) by auto
  show "m' (phys + (v - base)) = (if in_seg p v then m (?s + (v - p_vaddr p)) else m (phys + (v - base)))"
    if v: "unat base \<le> unat v" "unat v < unat base + T"
  proof -
    have ux: "unat (phys + (v - base)) = unat phys + (unat v - unat base)"
      using ar(1) v unat_sub32 [of base v] by (subst unat_add_no_wrap32) auto
    have "unat ?d \<le> unat (phys + (v - base)) \<and> unat (phys + (v - base)) < unat ?d + ?n \<longleftrightarrow> in_seg p v"
      unfolding ud ux in_seg_def using p(2) v(1) by auto
    moreover have "phys + (v - base) - ?d = v - p_vaddr p" by simp
    ultimately show ?thesis using c [of "phys + (v - base)"] by simp
  qed
qed

lemma copy_segments_outside:
  assumes "area_ok phys base T fb n" and "\<forall>p\<in>set ps. seg_in base T n p" and "unat x < unat phys \<or> unat phys + T \<le> unat x"
  shows "copy_segments ps phys base fb m x = m x"
  using assms(2) by (induction ps arbitrary: m) (simp_all add: copy_segment(1) [OF assms(1) _ refl assms(3)])

lemma seg_source:
  assumes "area_ok phys base T fb n" and "seg_in base T n p" and "in_seg p v"
  shows "unat (fb + p_offset p + (v - p_vaddr p)) = unat fb + (unat (p_offset p) + (unat v - unat (p_vaddr p)))"
    and "unat (p_offset p) + (unat v - unat (p_vaddr p)) < n"
proof -
  have o: "unat (p_offset p) + unat (p_filesz p) \<le> n" "unat fb + n \<le> 4294967295" using assms by (auto simp: seg_in_def seg_ok_def area_ok_def)
  have "unat (fb + p_offset p) = unat fb + unat (p_offset p)" using o by (intro unat_add_no_wrap32) linarith
  moreover have "unat (v - p_vaddr p) = unat v - unat (p_vaddr p)" using assms(3) by (intro unat_sub32) (simp add: in_seg_def)
  ultimately show "unat (fb + p_offset p + (v - p_vaddr p)) = unat fb + (unat (p_offset p) + (unat v - unat (p_vaddr p)))"
    using o assms(3) by (subst unat_add_no_wrap32) (auto simp: in_seg_def)
  show "unat (p_offset p) + (unat v - unat (p_vaddr p)) < n" using o(1) assms(3) by (auto simp: in_seg_def)
qed

lemma copy_segments_inside:
  assumes area: "area_ok phys base T fb n" and "\<forall>p\<in>set ps. seg_in base T n p" and "disjoint_segs ps"
    and v: "unat base \<le> unat v" "unat v < unat base + T"
  shows "(\<forall>p\<in>set ps. in_seg p v \<longrightarrow> copy_segments ps phys base fb m (phys + (v - base)) = m (fb + p_offset p + (v - p_vaddr p))) \<and>
    ((\<forall>p\<in>set ps. \<not> in_seg p v) \<longrightarrow> copy_segments ps phys base fb m (phys + (v - base)) = m (phys + (v - base)))"
  using assms(2,3)
proof (induction ps arbitrary: m)
  case (Cons p ps)
  let ?m = "fast_memcpy m (phys + (p_vaddr p - base)) (fb + p_offset p) (p_filesz p)"
  have sp: "seg_in base T n p" using Cons.prems by simp
  have src: "?m (fb + p_offset q + (v - p_vaddr q)) = m (fb + p_offset q + (v - p_vaddr q))" if "q \<in> set ps" "in_seg q v" for q
    using seg_source [OF area _ that(2)] that(1) Cons.prems(1) area by (intro copy_segment(1) [OF area sp refl]) (auto simp: area_ok_def)
  have "\<not> in_seg q v" if "in_seg p v" "q \<in> set ps" for q using that Cons.prems(2) by (auto simp: in_seg_def)
  then show ?case using Cons.IH [of ?m] Cons.prems src copy_segment(2) [OF area sp refl v, of m] by auto
qed simp

section \<open>The headers of a file\<close>

lemma read_same:
  assumes "\<forall>i<n. m' (a + of_nat i) = m (a + of_nat i)" and "k + 4 \<le> n"
  shows "load32 m' (a + of_nat k) = load32 m (a + of_nat k)" "load16 m' (a + of_nat k) = load16 m (a + of_nat k)"
proof -
  have "m' (a + of_nat k + of_nat j) = m (a + of_nat k + of_nat j)" if "j < 4" for j
    using that assms spec [OF assms(1), of "k + j"] by (simp add: add.assoc)
  from this [of 0] this [of 1] this [of 2] this [of 3]
  show "load32 m' (a + of_nat k) = load32 m (a + of_nat k)" "load16 m' (a + of_nat k) = load16 m (a + of_nat k)"
    by (simp_all add: load32_def load16_def)
qed

lemma headers_same:
  assumes "\<forall>i<n. m' (fb + of_nat i) = m (fb + of_nat i)" and "54 \<le> n"
    and "unat (e_phoff (ehdr_at m fb)) + 32 * unat (e_phnum (ehdr_at m fb)) \<le> n"
  shows "ehdr_at m' fb = ehdr_at m fb" "loads m' fb = loads m fb"
proof -
  have r: "load32 m' (fb + 24) = load32 m (fb + 24)" "load32 m' (fb + 28) = load32 m (fb + 28)" "load32 m' (fb + 32) = load32 m (fb + 32)"
    "load32 m' fb = load32 m fb" "load16 m' (fb + 44) = load16 m (fb + 44)" "load16 m' (fb + 48) = load16 m (fb + 48)"
    "load16 m' (fb + 50) = load16 m (fb + 50)"
    using read_same [OF assms(1), of 24] read_same [OF assms(1), of 28] read_same [OF assms(1), of 32] read_same [OF assms(1), of 0]
      read_same [OF assms(1), of 44] read_same [OF assms(1), of 48] read_same [OF assms(1), of 50] assms(2) by simp_all
  then show h: "ehdr_at m' fb = ehdr_at m fb" by (simp add: ehdr_at_def)
  let ?o = "e_phoff (ehdr_at m fb)"
  have "phdr_at m' (fb + ?o) i = phdr_at m (fb + ?o) i" if i: "i < unat (e_phnum (ehdr_at m fb))" for i
  proof -
    have "unat ?o + 32 * i + 32 \<le> n" using i assms(3) by linarith
    then have "load32 m' (fb + ?o + of_nat (32 * i) + of_nat k) = load32 m (fb + ?o + of_nat (32 * i) + of_nat k)" if "k \<le> 28" for k
      using read_same(1) [OF assms(1), of "unat ?o + 32 * i + k"] that by (simp add: add.assoc)
    from this [of 0] this [of 4] this [of 8] this [of 16] this [of 20] show ?thesis by (simp add: phdr_at_def Let_def)
  qed
  then show "loads m' fb = loads m fb" unfolding loads_def h Let_def by (intro arg_cong [of _ _ "filter _"] map_cong) auto
qed

section \<open>Memory that holds no page tables\<close>

lemma dir_mem_cong:
  assumes ok: "dir_ok bs m dir" and eq: "\<And>t x. live_page bs t \<Longrightarrow> unat t \<le> unat x \<Longrightarrow> unat x < unat t + 4096 \<Longrightarrow> m' x = m x"
  shows "dir_ok bs m' dir" "translate m' dir v = translate m dir v" "j < 1024 \<Longrightarrow> pde m' dir j = pde m dir j"
proof -
  have l: "live_page bs dir" using ok by (simp add: dir_ok_def)
  show pde: "pde m' dir j = pde m dir j" if "j < 1024" for j
    unfolding pde_def by (rule page_load_cong [OF live_page_page [OF l] that]) (rule eq [OF l])
  then have same: "has_table m' dir j = has_table m dir j" "table_of m' dir j = table_of m dir j" if "j < 1024" for j
    using that by (simp_all add: has_table_def table_of_def)
  then show "dir_ok bs m' dir" using ok by (auto simp: dir_ok_def)
  let ?i = "unat (pd_index v)"
  have "load32 m' (table_of m dir ?i + 4 * pt_index v) = load32 m (table_of m dir ?i + 4 * pt_index v)" if h: "has_table m dir ?i"
  proof -
    have t: "live_page bs (table_of m dir ?i)" using ok h pd_index_less [of v] by (auto simp: dir_ok_def)
    from page_load_cong [OF live_page_page [OF t] pt_index_less [of v], of m' m] eq [OF t] show ?thesis by simp
  qed
  then show "translate m' dir v = translate m dir v" using translate_cong [OF pde [OF pd_index_less] refl] by blast
qed

lemma dir_ok_alloc:
  assumes "heap_wf bs" and "(p, n, True) \<in> set bs" and "k \<le> n" and "dir_ok bs m dir"
  shows "dir_ok (a_alloc p k bs) m dir"
  using assms(4) live_page_alloc(1) [OF assms(1-3)] by (auto simp: dir_ok_def)

lemma live_page_off:
  assumes wf: "heap_wf bs" and l: "live_page bs t" and p: "(p, n, True) \<in> set bs"
  shows "unat t + 4096 \<le> unat p \<or> unat p + 28 + unat n \<le> unat t"
proof -
  obtain q m where q: "(q, m, False) \<in> set bs" "unat q + 32 \<le> unat t" "unat t + 4096 \<le> unat q + 28 + unat m"
    using l by (auto simp: live_page_def)
  have "p \<noteq> q" using eq_key_imp_eq_value [OF heap_wf_distinct [OF wf]] p q(1) by fastforce
  from block_ranges_disjoint [OF wf p q(1) this] show ?thesis using q by auto
qed

section \<open>The image of a program\<close>

definition elf_file :: "(u32 \<Rightarrow> u8) \<Rightarrow> u32 \<Rightarrow> nat \<Rightarrow> bool" where
  "elf_file m fb n \<longleftrightarrow> 54 \<le> n \<and> unat (e_phoff (ehdr_at m fb)) + 32 * unat (e_phnum (ehdr_at m fb)) \<le> n \<and> loads m fb \<noteq> [] \<and>
     (\<forall>p\<in>set (loads m fb). seg_ok n p) \<and> disjoint_segs (loads m fb)"

definition image_base :: "(u32 \<Rightarrow> u8) \<Rightarrow> u32 \<Rightarrow> u32" where
  "image_base m fb = fst (vaddr_range (loads m fb) 0xFFFFFFFF 0) AND 0xFFFFF000"

definition image_top :: "(u32 \<Rightarrow> u8) \<Rightarrow> u32 \<Rightarrow> u32" where
  "image_top m fb = page_round (snd (vaddr_range (loads m fb) 0xFFFFFFFF 0))"

lemma page_round_unat:
  assumes "unat a \<le> 0xFFFFF000"
  shows "page (page_round a)" "unat a \<le> unat (page_round a)" "unat (page_round a) \<le> 0xFFFFF000"
proof -
  have u: "unat (a + 4095) = unat a + 4095" using unat_add_no_wrap32 [of a 4095] assms by simp
  have r: "unat (page_round a) = (unat a + 4095) - (unat a + 4095) mod 4096"
    unfolding page_round_def not_4095 unat_align_down u by simp
  show "page (page_round a)" unfolding page_def r by (simp add: minus_mod_eq_mult_div)
  show "unat a \<le> unat (page_round a)" unfolding r using mod_less_divisor [of 4096 "unat a + 4095"] by linarith
  have "(unat a + 4095) div 4096 \<le> (0xFFFFF000 + 4095) div 4096" using assms by (intro div_le_mono) simp
  then show "unat (page_round a) \<le> 0xFFFFF000" unfolding r minus_mod_eq_mult_div by simp
qed

lemma image_bounds:
  assumes "elf_file m fb n"
  shows "page (image_base m fb)" "page (image_top m fb)" "unat (image_base m fb) \<le> unat (image_top m fb)" "unat (image_top m fb) \<le> 0xFFFFF000"
    "fst (vaddr_range (loads m fb) 0xFFFFFFFF 0) \<noteq> 0xFFFFFFFF"
    "p \<in> set (loads m fb) \<Longrightarrow> unat (image_base m fb) \<le> unat (p_vaddr p) \<and> unat (p_vaddr p) + unat (p_memsz p) \<le> unat (image_top m fb)"
proof -
  obtain a b where ab: "vaddr_range (loads m fb) 0xFFFFFFFF 0 = (a, b)" by fastforce
  have "\<forall>p\<in>set (loads m fb). unat (p_vaddr p) + unat (p_memsz p) \<le> 0xFFFFF000" using assms by (auto simp: elf_file_def seg_ok_def)
  from vaddr_range_bounds [OF ab this] have v: "unat b \<le> 0xFFFFF000"
    "\<And>p. p \<in> set (loads m fb) \<Longrightarrow> unat a \<le> unat (p_vaddr p) \<and> unat (p_vaddr p) + unat (p_memsz p) \<le> unat b" by auto
  obtain p0 where p0: "p0 \<in> set (loads m fb)" using assms unfolding elf_file_def by (metis list.set_sel(1))
  have ab': "unat a \<le> unat b" using v(2) [OF p0] by linarith
  have base: "unat (image_base m fb) \<le> unat a" unfolding image_base_def ab frame_mask fst_conv unat_align_down by simp
  note top = page_round_unat [OF v(1)]
  have it: "image_top m fb = page_round b" by (simp add: image_top_def ab)
  show "page (image_base m fb)" unfolding image_base_def by (rule frame_page)
  show "page (image_top m fb)" "unat (image_top m fb) \<le> 0xFFFFF000" using top it by simp_all
  show "unat (image_base m fb) \<le> unat (image_top m fb)" using base ab' top(2) it by simp
  show "fst (vaddr_range (loads m fb) 0xFFFFFFFF 0) \<noteq> 0xFFFFFFFF" using ab' v(1) ab by auto
  show "unat (image_base m fb) \<le> unat (p_vaddr p) \<and> unat (p_vaddr p) + unat (p_memsz p) \<le> unat (image_top m fb)" if "p \<in> set (loads m fb)"
    using v(2) [OF that] base top(2) it by simp
qed

lemma absent_cong:
  assumes "\<And>j. j < 1024 \<Longrightarrow> pde m' dir j = pde m dir j"
  shows "absent m' dir lo hi = absent m dir lo hi" "no_big m' dir lo hi = no_big m dir lo hi"
  using assms pd_index_less by (auto simp: absent_def no_big_def)

lemma image_request:
  assumes elf: "elf_file m fb n" and len: "len = image_top m fb - image_base m fb" and T: "unat len + 4100 \<le> 0xFFFFFFFC"
  shows "unat len = unat (image_top m fb) - unat (image_base m fb)" "unat (len + 4100) = unat len + 4100" "round_size (len + 4096 + 4) = len + 4100"
    "4 * unat (len div 4) = unat len" "4096 * unat (len div 4096) = unat len"
proof -
  note im = image_bounds [OF elf]
  show ut: "unat len = unat (image_top m fb) - unat (image_base m fb)" unfolding len by (rule unat_sub32 [OF im(3)])
  have t4096: "4096 dvd unat len" using im(1,2) unfolding ut page_def by (simp add: dvd_diff_nat mod_0_imp_dvd)
  show req: "unat (len + 4100) = unat len + 4100" using T unat_add_no_wrap32 [of len 4100] by simp
  have t4: "4 dvd unat len" using dvd_trans [of 4 4096 "unat len"] t4096 by simp
  then have "4 dvd unat len + 4100" by (simp add: dvd_add)
  then have "(len + 4100) mod 4 = 0" using unat_mod4 [of "len + 4100"] req by (simp add: unat_eq_0 [symmetric] dvd_eq_mod_eq_0)
  then show "round_size (len + 4096 + 4) = len + 4100" by (simp add: round_size_def add.assoc)
  show "4 * unat (len div 4) = unat len" "4096 * unat (len div 4096) = unat len" using t4 t4096 by (simp_all add: unat_div)
qed

lemma image_block:
  assumes hok: "heap_ok s bs" and T: "unat len + 4100 \<le> 0xFFFFFFFC" and rs: "round_size (len + 4096 + 4) = len + 4100"
    and run: "kmalloc_a len s = Some (phys, s1)" "phys \<noteq> NULL" and req: "unat (len + 4100) = unat len + 4100"
  obtains p k where "(p, k, True) \<in> set bs" "len + 4100 \<le> k" "heap_ok s1 (a_alloc p (len + 4100) bs)" "page phys"
    "unat p + 32 \<le> unat phys" "unat phys + unat len \<le> unat p + 28 + unat (len + 4100)" "unat p + 28 + unat k \<le> HEAP_END"
    "unat phys + unat len \<le> unat p + 28 + unat k" "\<And>x. unat x < unat p \<or> unat p + 28 + unat k \<le> unat x \<Longrightarrow> mem s1 x = mem s x"
proof -
  have wf: "heap_wf bs" using hok by (simp add: heap_ok_def)
  have rs2: "round_size (4100 + len) = len + 4100" using rs by (simp add: add.commute)
  obtain p k where a: "(p, k, True) \<in> set bs" "len + 4100 \<le> k" "heap_ok s1 (a_alloc p (len + 4100) bs)" "unat phys mod 4096 = 0"
    "unat p + 28 + 4 \<le> unat phys" "unat phys + unat len \<le> unat p + 28 + unat (len + 4100)"
    and same: "\<forall>x. 4 \<le> unat (x - (phys - 4)) \<longrightarrow> mem s1 x = mem s x"
    by (rule kmalloc_a_spec [OF hok T]) (use run in \<open>auto simp: rs2\<close>)
  have kk: "unat len + 4100 \<le> unat k" using a(2) req by (simp add: word_le_nat_alt)
  have lim: "unat p + 28 + unat k \<le> HEAP_END" by (rule heap_wf_block(2) [OF wf a(1)])
  have phi: "unat phys + unat len \<le> unat p + 28 + unat k" using a(6) req kk by simp
  have b4: "unat (phys - 4) = unat phys - 4" using a(5) by (intro unat_sub32 [of 4 phys, simplified]) auto
  have mem1: "mem s1 x = mem s x" if "unat x < unat p \<or> unat p + 28 + unat k \<le> unat x" for x
    using that same b4 unat_lt32 [of x] unat_lt32 [of phys] unat_sub_if_size [of x "phys - 4"] a(5) phi
    by (auto simp: word_size split: if_splits)
  show ?thesis using a lim phi mem1 by (intro that [of p k]) (auto simp: page_def)
qed

text \<open>Allocating, clearing and filling the image, before it is mapped.\<close>

lemma image_allocated:
  fixes s :: "'z paging_scheme"
  assumes hok: "heap_ok s bs" and dok: "dir_ok bs (mem s) pd" and elf: "elf_file (mem s) fb n"
    and img: "(q, j, False) \<in> set bs" "unat q + 28 \<le> unat fb" "unat fb + n \<le> unat q + 28 + unat j"
    and base: "base = image_base (mem s) fb" and len: "len = image_top (mem s) fb - base"
    and run: "kmalloc_a len s = Some (phys, s1)" "phys \<noteq> NULL" and T: "unat len + 4100 \<le> 0xFFFFFFFC"
    and m1: "m1 = fast_memset (mem s1) phys 0 (unat (len div 4))" and m2: "m2 = copy_segments (loads m1 fb) phys base fb m1"
  obtains p k l where "(p, k, True) \<in> set bs" "heap_ok (s1\<lparr>mem := m2\<rparr>) (a_alloc p (len + 4100) bs)" "len + 4100 \<le> k"
    "dir_ok (a_alloc p (len + 4100) bs) m2 pd" "secluded (a_alloc p (len + 4100) bs) m2 pd p l"
    "page phys" "unat p + 28 \<le> unat phys" "unat phys + unat len \<le> unat p + 28 + unat l" "unat phys + unat len < 0x60000000"
    "\<And>v. translate m2 pd v = translate (mem s) pd v" "\<And>i. i < 1024 \<Longrightarrow> pde m2 pd i = pde (mem s) pd i"
    "\<And>v. unat base \<le> unat v \<Longrightarrow> unat v < unat base + unat len \<Longrightarrow>
       (\<forall>p\<in>set (loads (mem s) fb). in_seg p v \<longrightarrow> m2 (phys + (v - base)) = mem s (fb + p_offset p + (v - p_vaddr p))) \<and>
       ((\<forall>p\<in>set (loads (mem s) fb). \<not> in_seg p v) \<longrightarrow> m2 (phys + (v - base)) = 0)"
proof -
  note im = image_bounds [OF elf]
  let ?T = "unat len"
  have wf: "heap_wf bs" using hok by (simp add: heap_ok_def)
  note rq = image_request [OF elf len [unfolded base] T]
  obtain p k where a: "(p, k, True) \<in> set bs" "len + 4100 \<le> k" "heap_ok s1 (a_alloc p (len + 4100) bs)" "page phys"
    "unat p + 32 \<le> unat phys" "unat phys + ?T \<le> unat p + 28 + unat (len + 4100)"
    and lim: "unat p + 28 + unat k \<le> HEAP_END" and phi: "unat phys + ?T \<le> unat p + 28 + unat k"
    and mem1: "\<And>x. unat x < unat p \<or> unat p + 28 + unat k \<le> unat x \<Longrightarrow> mem s1 x = mem s x"
    by (rule image_block [OF hok T rq(3) run rq(2)]) (rule that)
  let ?bs = "a_alloc p (len + 4100) bs"
  have set0: "m1 x = (if unat phys \<le> unat x \<and> unat x < unat phys + ?T then 0 else mem s1 x)" for x
    unfolding m1 using fast_memset_zero [of phys "unat (len div 4)" "mem s1" x] rq(4) phi lim by (simp add: HEAP_END_def layout_simps)
  have m1o: "m1 x = mem s x" if "unat x < unat p \<or> unat p + 28 + unat k \<le> unat x" for x
    using that set0 [of x] mem1 [of x] a(5) phi by auto
  have qp: "unat p + 28 + unat k \<le> unat q \<or> unat q + 28 + unat j \<le> unat p"
    using block_ranges_disjoint [OF wf a(1) img(1)] eq_key_imp_eq_value [OF heap_wf_distinct [OF wf] a(1)] img(1) by fastforce
  have qlim: "unat q + 28 + unat j \<le> HEAP_END" by (rule heap_wf_block(2) [OF wf img(1)])
  have fin: "m1 (fb + of_nat i) = mem s (fb + of_nat i)" if "i < n" for i
  proof (rule m1o)
    have "unat (fb + of_nat i) = unat fb + i"
      using that img(3) qlim unat_of_nat32 [of i] by (subst unat_add_no_wrap32) (auto simp: HEAP_END_def layout_simps)
    then show "unat (fb + of_nat i) < unat p \<or> unat p + 28 + unat k \<le> unat (fb + of_nat i)" using that img(2,3) qp by auto
  qed
  have ld: "loads m1 fb = loads (mem s) fb" using elf fin headers_same(2) [of n m1 fb "mem s"] by (auto simp: elf_file_def)
  have seg: "\<forall>r\<in>set (loads (mem s) fb). seg_in base ?T n r"
    using elf im(3,6) rq(1) unfolding base by (fastforce simp: elf_file_def seg_ok_def seg_in_def word_le_nat_alt)
  have dis: "disjoint_segs (loads (mem s) fb)" using elf by (simp add: elf_file_def)
  have area: "area_ok phys base ?T fb n"
    using phi lim img(2,3) qlim qp a(5) by (auto simp: area_ok_def HEAP_END_def layout_simps)
  have m2o: "m2 x = mem s x" if "unat x < unat p \<or> unat p + 28 + unat k \<le> unat x" for x
    unfolding m2 ld using copy_segments_outside [OF area seg, of x m1] m1o [OF that] that a(5) phi by auto
  have live: "m2 x = mem s x" if "live_page bs t" "unat t \<le> unat x" "unat x < unat t + 4096" for t x
    using live_page_off [OF wf that(1) a(1)] that(2,3) by (intro m2o) auto
  note dir = dir_mem_cong [OF dok live]
  have dok2: "dir_ok ?bs m2 pd" by (rule dir_ok_alloc [OF wf a(1,2) dir(1)])
  obtain l where l: "len + 4100 \<le> l" "l \<le> k" "(p, l, False) \<in> set ?bs" by (rule a_alloc_used [OF wf a(1,2)]) blast
  have ul: "unat (len + 4100) \<le> unat l" "unat l \<le> unat k" using l(1,2) by (simp_all add: word_le_nat_alt)
  have off: "off_block p l t" if "live_page bs t" for t using live_page_off [OF wf that a(1)] ul(2) by (auto simp: off_block_def)
  have "secluded ?bs m2 pd p l"
    using l(3) off dir(1) by (auto simp: secluded_def dir_ok_def)
  moreover have "heap_ok (s1\<lparr>mem := m2\<rparr>) ?bs" using a(3) by (simp add: heap_ok_def heap_rel_def)
  moreover have "(\<forall>r\<in>set (loads (mem s) fb). in_seg r v \<longrightarrow> m2 (phys + (v - base)) = mem s (fb + p_offset r + (v - p_vaddr r))) \<and>
      ((\<forall>r\<in>set (loads (mem s) fb). \<not> in_seg r v) \<longrightarrow> m2 (phys + (v - base)) = 0)" if v: "unat base \<le> unat v" "unat v < unat base + ?T" for v
  proof -
    have "m1 (fb + p_offset r + (v - p_vaddr r)) = mem s (fb + p_offset r + (v - p_vaddr r))" if "r \<in> set (loads (mem s) fb)" "in_seg r v" for r
      using seg_source [OF area _ that(2)] that(1) seg qp img(2,3) by (intro m1o) auto
    moreover have "unat (phys + (v - base)) = unat phys + (unat v - unat base)"
      using area v unat_sub32 [of base v] by (subst unat_add_no_wrap32) (auto simp: area_ok_def)
    then have "m1 (phys + (v - base)) = 0" using set0 [of "phys + (v - base)"] v by auto
    ultimately show ?thesis using copy_segments_inside [OF area seg dis v, of m1] unfolding m2 ld by auto
  qed
  moreover have "page phys" "unat phys + unat len \<le> unat p + 28 + unat l" "unat phys + ?T < 0x60000000"
    using a(4,6) ul phi lim by (auto simp: HEAP_END_def layout_simps)
  ultimately show ?thesis using that [OF a(1) _ a(2) dok2] dir(2,3) a(5) by auto
qed

section \<open>Programs\<close>

text \<open>
  C6. A loaded program is what its file says. For a well-formed ELF file held in an allocated block, and
  with room for the image and for the page tables it needs, \<^verbatim>\<open>load_elf\<close> succeeds, and afterwards every
  address of the image translates, in the address space of the program, to memory that holds the byte
  of the segment there, or zero outside the file contents of the segments; every other
  address translates as before, and heap and page tables stay well formed.
\<close>

theorem load_elf_exact:
  fixes s :: "'z paging_scheme"
  assumes hok: "heap_ok s bs" and dok: "dir_ok bs (mem s) pd" and elf: "elf_file (mem s) fb n"
    and img: "(q, j, False) \<in> set bs" "unat q + 28 \<le> unat fb" "unat fb + n \<le> unat q + 28 + unat j"
    and small: "no_big (mem s) pd (unat (image_base (mem s) fb)) (unat (image_top (mem s) fb))"
    and rm: "room bs (unat (image_top (mem s) fb) - unat (image_base (mem s) fb) + 4145 +
      8224 * card (absent (mem s) pd (unat (image_base (mem s) fb)) (unat (image_top (mem s) fb))))"
  shows "\<exists>phys s' bs'. load_elf fb pd s = Some (Some (e_entry (ehdr_at (mem s) fb), image_top (mem s) fb, [phys]), s') \<and>
    heap_ok s' bs' \<and> dir_ok bs' (mem s') pd \<and>
    (\<forall>v. if unat (image_base (mem s) fb) \<le> unat v \<and> unat v < unat (image_top (mem s) fb)
       then \<exists>a. translate (mem s') pd v = Some a \<and>
         (\<forall>p\<in>set (loads (mem s) fb). in_seg p v \<longrightarrow> mem s' a = mem s (fb + p_offset p + (v - p_vaddr p))) \<and>
         ((\<forall>p\<in>set (loads (mem s) fb). \<not> in_seg p v) \<longrightarrow> mem s' a = 0)
       else translate (mem s') pd v = translate (mem s) pd v)"
proof -
  let ?lo = "unat (image_base (mem s) fb)" and ?hi = "unat (image_top (mem s) fb)"
  define base where "base = image_base (mem s) fb"
  define len where "len = image_top (mem s) fb - base"
  note im = image_bounds [OF elf]
  have wf: "heap_wf bs" using hok by (simp add: heap_ok_def)
  obtain p0 k0 where "(p0, k0, True) \<in> set bs" "unat len + 4145 \<le> unat k0"
    using rm unat_sub32 [OF im(3)] by (auto simp: room_def len_def base_def)
  then have T: "unat len + 4100 \<le> 0xFFFFFFFC" using unat_lt32 [of k0] by linarith
  note rq = image_request [OF elf len_def [unfolded base_def] T]
  have rs: "room bs (unat (round_size (len + 4096 + 4)))" using rm unfolding rq(3) rq(2) rq(1) by (rule room_mono) simp
  obtain phys s1 where run: "kmalloc_a len s = Some (phys, s1)" "phys \<noteq> NULL" using kmalloc_a_room [OF hok T rs] by blast
  define m1 where "m1 = fast_memset (mem s1) phys 0 (unat (len div 4))"
  define m2 where "m2 = copy_segments (loads m1 fb) phys base fb m1"
  obtain p k l where a: "(p, k, True) \<in> set bs" "heap_ok (s1\<lparr>mem := m2\<rparr>) (a_alloc p (len + 4100) bs)" "len + 4100 \<le> k"
    "dir_ok (a_alloc p (len + 4100) bs) m2 pd" and sec: "secluded (a_alloc p (len + 4100) bs) m2 pd p l"
    and ph: "page phys" "unat p + 28 \<le> unat phys" "unat phys + unat len \<le> unat p + 28 + unat l" "unat phys + unat len < 0x60000000"
    and tr: "\<And>v. translate m2 pd v = translate (mem s) pd v" and pd: "\<And>i. i < 1024 \<Longrightarrow> pde m2 pd i = pde (mem s) pd i"
    and bytes: "\<And>v. unat base \<le> unat v \<Longrightarrow> unat v < unat base + unat len \<Longrightarrow>
       (\<forall>p\<in>set (loads (mem s) fb). in_seg p v \<longrightarrow> m2 (phys + (v - base)) = mem s (fb + p_offset p + (v - p_vaddr p))) \<and>
       ((\<forall>p\<in>set (loads (mem s) fb). \<not> in_seg p v) \<longrightarrow> m2 (phys + (v - base)) = 0)"
    by (rule image_allocated [OF hok dok elf img base_def len_def run T m1_def m2_def]) (rule that)
  have ub: "unat base = ?lo" "unat base + unat len = ?hi" using rq(1) im(3) by (simp_all add: base_def)
  have rm2: "room (a_alloc p (len + 4100) bs) (8224 * card (absent m2 pd ?lo ?hi) + 17)"
    by (rule room_alloc [OF wf a(1) room_mono [OF rm]]) (simp_all add: absent_cong [OF pd] rq(1,2))
  obtain s2 bs2 where r: "map_pages (unat (len div 4096)) pd phys base (s1\<lparr>mem := m2\<rparr>) = Some s2" "heap_ok s2 bs2" "dir_ok bs2 (mem s2) pd"
    and tr2: "\<And>v. translate (mem s2) pd v = (if ?lo \<le> unat v \<and> unat v < ?hi then Some (phys + (v - base)) else translate m2 pd v)"
    and keep: "\<And>x. in_block p l x \<Longrightarrow> mem s2 x = m2 x"
    using map_pages_ok [OF a(2), of pd phys base "unat (len div 4096)"] a(4) ph im(1,4) ub rm2 small sec
    unfolding rq(5) base_def [symmetric] by (auto simp: absent_cong [OF pd])
  obtain lo hi where vr: "vaddr_range (loads (mem s) fb) 0xFFFFFFFF 0 = (lo, hi)" by fastforce
  have "load_elf fb pd s = Some (Some (e_entry (ehdr_at (mem s) fb), image_top (mem s) fb, [phys]), s2)"
    using im(5) run r(1) unfolding m2_def m1_def len_def base_def image_base_def image_top_def vr
    by (simp add: load_elf_def vr Let_def)
  moreover have "mem s2 (phys + (v - base)) = m2 (phys + (v - base))" if "?lo \<le> unat v" "unat v < ?hi" for v
  proof (rule keep)
    have "unat (phys + (v - base)) = unat phys + (unat v - unat base)"
      using that ub ph(4) unat_sub32 [of base v] by (subst unat_add_no_wrap32) auto
    then show "in_block p l (phys + (v - base))" using that ub ph(2,3) by (auto simp: in_block_def)
  qed
  ultimately show ?thesis using r(2,3) tr tr2 bytes ub by (intro exI [of _ phys] exI [of _ s2] exI [of _ bs2]) auto
qed

section \<open>A concrete program\<close>

text \<open>A header, one program header and two bytes of code at 0x60000000, with 16 bytes of memory.\<close>

definition elf_example :: "u8 list" where
  "elf_example = [0x7F, 0x45, 0x4C, 0x46, 1, 1, 1, 0, 0, 0, 0, 0, 0, 0, 0, 0, 2, 0, 3, 0, 1, 0, 0, 0, 0, 0, 0, 0x60, 52, 0, 0, 0,
     0, 0, 0, 0, 0, 0, 0, 0, 52, 0, 32, 0, 1, 0, 40, 0, 0, 0, 0, 0,
     1, 0, 0, 0, 84, 0, 0, 0, 0, 0, 0, 0x60, 0, 0, 0, 0, 2, 0, 0, 0, 16, 0, 0, 0, 5, 0, 0, 0, 0, 16, 0, 0, 0xEB, 0xFE]"

definition elf_machine :: paging where
  "elf_machine = paging_booted\<lparr>mem := write_bytes (mem paging_booted) 0x10000020 elf_example\<rparr>"

lemma elf_example_loads:
  "loads (mem elf_machine) 0x10000020 = [\<lparr>p_type = 1, p_offset = 84, p_vaddr = 0x60000000, p_filesz = 2, p_memsz = 16\<rparr>]"
  "e_entry (ehdr_at (mem elf_machine) 0x10000020) = 0x60000000" "e_phoff (ehdr_at (mem elf_machine) 0x10000020) = 52"
  "e_phnum (ehdr_at (mem elf_machine) 0x10000020) = 1" "i < 86 \<Longrightarrow> mem elf_machine (0x10000020 + of_nat i) = elf_example ! i"
proof -
  let ?m = "\<lambda>a::u32. elf_example ! unat (a - 0x10000020)"
  have l: "length elf_example = 86" by (simp add: elf_example_def)
  have b: "mem elf_machine (0x10000020 + of_nat i) = elf_example ! i" if "i < 86" for i
    using that write_bytes_eq [of elf_example "mem paging_booted" "0x10000020" "0x10000020 + of_nat i"] l unat_of_nat32 [of i]
    by (simp add: elf_machine_def)
  then show "i < 86 \<Longrightarrow> mem elf_machine (0x10000020 + of_nat i) = elf_example ! i" .
  have "\<forall>i<86. mem elf_machine (0x10000020 + of_nat i) = ?m (0x10000020 + of_nat i)" using b unat_of_nat32 by simp
  moreover have "ehdr_at ?m 0x10000020 = \<lparr>e_magic = 0x464C457F, e_entry = 0x60000000, e_phoff = 52, e_shoff = 0, e_phnum = 1, e_shnum = 0, e_shstrndx = 0\<rparr>"
    by code_simp
  moreover have "loads ?m 0x10000020 = [\<lparr>p_type = 1, p_offset = 84, p_vaddr = 0x60000000, p_filesz = 2, p_memsz = 16\<rparr>]" by code_simp
  ultimately show "loads (mem elf_machine) 0x10000020 = [\<lparr>p_type = 1, p_offset = 84, p_vaddr = 0x60000000, p_filesz = 2, p_memsz = 16\<rparr>]"
    "e_entry (ehdr_at (mem elf_machine) 0x10000020) = 0x60000000" "e_phoff (ehdr_at (mem elf_machine) 0x10000020) = 52"
    "e_phnum (ehdr_at (mem elf_machine) 0x10000020) = 1"
    using headers_same [of 86 "mem elf_machine" "0x10000020" ?m] by simp_all
qed

lemma elf_example_image: "image_base (mem elf_machine) 0x10000020 = 0x60000000" "image_top (mem elf_machine) 0x10000020 = 0x60001000"
  by (simp_all add: image_base_def image_top_def elf_example_loads page_round_def)

lemma elf_example_file: "elf_file (mem elf_machine) 0x10000020 86"
  by (simp add: elf_file_def elf_example_loads seg_ok_def)

lemma elf_example_dir:
  "heap_ok elf_machine paged_blocks" "dir_ok paged_blocks (mem elf_machine) (kernel_dir paging_booted)"
  "pde (mem elf_machine) (kernel_dir paging_booted) 384 = 2"
proof -
  have l: "length elf_example = 86" by (simp add: elf_example_def)
  show "heap_ok elf_machine paged_blocks" using paging_booted_ok(2) by (simp add: elf_machine_def heap_ok_def heap_rel_def)
  have eq: "mem elf_machine x = mem paging_booted x" if t: "live_page paged_blocks t" "unat t \<le> unat x" for t x
  proof -
    have "unat HEAP_START + 32 \<le> unat t" using t(1) paging_booted_ok(2) heap_wf_block(1)
      by (fastforce simp: live_page_def heap_ok_def)
    moreover have "4096 dvd unat t" using t(1) by (simp add: live_page_def page_def dvd_eq_mod_eq_0)
    ultimately have "0x10001000 \<le> unat t" by (auto simp: layout_simps elim!: dvdE)
    then have "0x10001000 \<le> unat x" using t(2) by simp
    then have "86 \<le> unat (x - 0x10000020)" by (subst unat_sub32) simp_all
    then show ?thesis using write_bytes_eq [of elf_example "mem paging_booted" "0x10000020" x] l by (simp add: elf_machine_def)
  qed
  show "dir_ok paged_blocks (mem elf_machine) (kernel_dir paging_booted)" by (rule dir_mem_cong(1) [OF paging_booted_ok(3)]) (rule eq)
  have "pde (mem elf_machine) (kernel_dir paging_booted) 384 = pde (mem paging_booted) (kernel_dir paging_booted) 384"
    by (rule dir_mem_cong(3) [OF paging_booted_ok(3)]) (auto intro: eq)
  then show "pde (mem elf_machine) (kernel_dir paging_booted) 384 = 2" using paging_booted_ok(4) [of 384] by simp
qed

lemma elf_example_table: "unat (0x60000000 :: u32) \<le> unat v \<Longrightarrow> unat v < unat (0x60001000 :: u32) \<Longrightarrow> unat (pd_index v) = 384"
  by (simp add: pd_index_unat div_nat_eqI)

theorem load_elf_exact_witness:
  "\<exists>phys s' a. load_elf 0x10000020 (kernel_dir paging_booted) elf_machine = Some (Some (0x60000000, 0x60001000, [phys]), s') \<and>
     translate (mem s') (kernel_dir paging_booted) 0x60000001 = Some a \<and> mem s' a = 0xFE"
proof -
  let ?pd = "kernel_dir paging_booted"
  have "absent (mem elf_machine) ?pd (unat (0x60000000 :: u32)) (unat (0x60001000 :: u32)) \<subseteq> {384}"
    using elf_example_table by (auto simp: absent_def)
  then have "card (absent (mem elf_machine) ?pd (unat (0x60000000 :: u32)) (unat (0x60001000 :: u32))) \<le> 1"
    using card_mono [of "{384::nat}"] by fastforce
  moreover have "room paged_blocks 20000"
    unfolding room_def by (intro exI [of _ "HEAP_START + sizeof_block + 8196"] exI [of _ "HEAP_SIZE - sizeof_block - 8196 - sizeof_block"])
      (simp add: paged_blocks_def a_alloc_def initial_blocks_def alloc_parts_def layout_simps)
  ultimately have rm: "room paged_blocks (unat (0x60001000 :: u32) - unat (0x60000000 :: u32) + 4145 +
      8224 * card (absent (mem elf_machine) ?pd (unat (0x60000000 :: u32)) (unat (0x60001000 :: u32))))"
    by (auto elim!: room_mono)
  have nb: "no_big (mem elf_machine) ?pd (unat (0x60000000 :: u32)) (unat (0x60001000 :: u32))"
    using elf_example_table elf_example_dir(3) by (auto simp: no_big_def)
  have blk: "(HEAP_START, 8196, False) \<in> set paged_blocks"
    by (simp add: paged_blocks_def a_alloc_def initial_blocks_def alloc_parts_def layout_simps)
  have "mem elf_machine (0x10000020 + 84 + (0x60000001 - 0x60000000)) = 0xFE"
    using elf_example_loads(5) [of 85] by (simp add: elf_example_def)
  then show ?thesis
    using load_elf_exact [OF elf_example_dir(1,2) elf_example_file blk, unfolded elf_example_image elf_example_loads, OF _ _ nb rm]
    by (fastforce simp: layout_simps in_seg_def dest!: spec [of _ "0x60000001"])
qed

end
