(* ===== verification/Process_Props.thy ===== *)
theory Process_Props
  imports Syscall_Props
begin

text \<open>
  Processes: a new process starts with the arguments it was given.
\<close>

section \<open>Ranges of memory\<close>

lemma unat_add_of_nat32: "unat (a :: u32) + n < 4294967296 \<Longrightarrow> unat (a + of_nat n) = unat a + n"
  using unat_of_nat32 [of n] unat_add_no_wrap32 [of a "of_nat n"] by simp

lemma unat_sub_of_nat: "n \<le> unat (a :: u32) \<Longrightarrow> unat (a - of_nat n) = unat a - n"
  using unat_of_nat32 [of n] unat_lt32 [of a] unat_sub32 [of "of_nat n" a] by simp

lemma write_bytes_outside:
  assumes "outside (unat a) (unat a + length bs) x" and "unat a + length bs \<le> 4294967296" and "length bs < 4294967296"
  shows "write_bytes m a bs x = m x"
proof -
  have "length bs \<le> unat (x - a)"
    using assms unat_sub_if_size [of x a] unat_lt32 [of x] by (auto simp: outside_def word_size split: if_splits)
  then show ?thesis using write_bytes_eq [OF assms(3), of m a x] by simp
qed

section \<open>Strings in memory\<close>

definition c_string :: "(u32 \<Rightarrow> u8) \<Rightarrow> u32 \<Rightarrow> string \<Rightarrow> bool" where
  "c_string m a cs \<longleftrightarrow> CHR 0x00 \<notin> set cs \<and> read_bytes m a (length cs + 1) = map byte_of cs @ [0]"

lemma read_bytes_Suc: "read_bytes m a (Suc n) = m a # read_bytes m (a + 1) n"
proof -
  have "[0..<Suc n] = 0 # map Suc [0..<n]" by (simp add: upt_conv_Cons map_Suc_upt del: upt_Suc)
  then show ?thesis by (simp add: read_bytes_def add.assoc)
qed

lemma c_string_Cons: "c_string m a (c # cs) \<longleftrightarrow> m a = byte_of c \<and> byte_of c \<noteq> 0 \<and> c_string m (a + 1) cs"
  by (auto simp: c_string_def read_bytes_Suc byte_of_0 simp del: read_bytes_def)

lemma c_string_Nil: "c_string m a [] \<longleftrightarrow> m a = 0"
  by (simp add: c_string_def read_bytes_def)

lemma str_at_c_string: "c_string m a cs \<Longrightarrow> str_at m a = Some cs"
proof (induction cs arbitrary: a)
  case Nil
  then show ?case by (simp add: c_string_Nil str_at.simps)
next
  case (Cons c cs)
  then have "m a = byte_of c" "m a \<noteq> 0" "str_at m (a + 1) = Some cs" by (auto simp: c_string_Cons)
  then show ?case by (simp add: str_at.simps [of m a] char_byte_of)
qed

lemma c_string_cong:
  assumes "c_string m a cs" and "\<forall>k\<le>length cs. m' (a + of_nat k) = m (a + of_nat k)"
  shows "c_string m' a cs"
  using assms read_bytes_cong [of "length cs + 1" m' a m] by (simp add: c_string_def less_Suc_eq_le)

lemma c_string_written:
  assumes "CHR 0x00 \<notin> set cs" and "length cs < 4294967295"
  shows "c_string (write_bytes m a (map byte_of cs @ [0])) a cs"
  using assms read_write_bytes [of "map byte_of cs @ [0]" m a] by (simp add: c_string_def)

section \<open>The arguments of a process\<close>

text \<open>
  The array at \<open>argv\<close> holds pointers to the strings; all its bytes and theirs are at addresses in \<open>P\<close>.
\<close>

definition args_at :: "(u32 \<Rightarrow> u8) \<Rightarrow> u32 \<Rightarrow> string list \<Rightarrow> u32 set \<Rightarrow> bool" where
  "args_at m argv strs P \<longleftrightarrow> (\<forall>i<length strs. (\<forall>j<4. argv + 4 * of_nat i + of_nat j \<in> P) \<and>
     c_string m (load32 m (argv + 4 * of_nat i)) (strs ! i) \<and>
     (\<forall>k\<le>length (strs ! i). load32 m (argv + 4 * of_nat i) + of_nat k \<in> P))"

definition args_size :: "string list \<Rightarrow> nat" where
  "args_size strs = sum_list (map (\<lambda>str. length str + 1) strs)"

lemma load32_same:
  assumes "\<And>x. x \<in> P \<Longrightarrow> m' x = m x" and "\<forall>j<4. a + of_nat j \<in> P"
  shows "load32 m' a = load32 m a"
proof -
  have "m' (a + of_nat j) = m (a + of_nat j)" if "j < 4" for j using assms that by blast
  from this [of 0] this [of 1] this [of 2] this [of 3] show ?thesis by (intro load32_cong) simp_all
qed

lemma args_at_cong:
  assumes "args_at m argv strs P" and eq: "\<And>x. x \<in> P \<Longrightarrow> m' x = m x"
  shows "args_at m' argv strs P"
proof -
  have l: "load32 m' (argv + 4 * of_nat i) = load32 m (argv + 4 * of_nat i)" if "i < length strs" for i
    using assms(1) that by (intro load32_same [OF eq]) (auto simp: args_at_def)
  have "c_string m' (load32 m (argv + 4 * of_nat i)) (strs ! i)" if "i < length strs" for i
  proof (rule c_string_cong)
    show "c_string m (load32 m (argv + 4 * of_nat i)) (strs ! i)" using assms(1) that unfolding args_at_def by blast
    show "\<forall>k\<le>length (strs ! i). m' (load32 m (argv + 4 * of_nat i) + of_nat k) = m (load32 m (argv + 4 * of_nat i) + of_nat k)"
      using assms(1) that eq unfolding args_at_def by blast
  qed
  then show "args_at m' argv strs P" using assms(1) l unfolding args_at_def by simp
qed

lemma args_at_mono: "args_at m argv strs P \<Longrightarrow> P \<subseteq> Q \<Longrightarrow> args_at m argv strs Q"
  unfolding args_at_def by blast

lemma push_strings_ok:
  assumes "i \<le> length strs" and "length strs \<le> 64" and "args_at m argv strs (Collect (outside lo hi))" and "unat sp \<le> hi" and "hi < 4294967296"
    and "lo + args_size (take i strs) \<le> unat sp"
  shows "\<exists>sp' ps m'. push_strings i argv sp ptrs m = Some (sp', ps @ ptrs, m') \<and> length ps = i \<and>
    unat sp' + args_size (take i strs) = unat sp \<and> (\<forall>x. outside (unat sp') (unat sp) x \<longrightarrow> m' x = m x) \<and>
    (\<forall>k<i. c_string m' (ps ! k) (strs ! k) \<and> unat sp' \<le> unat (ps ! k) \<and> unat (ps ! k) + length (strs ! k) < unat sp)"
  using assms
proof (induction i arbitrary: sp ptrs m)
  case 0
  then show ?case by (simp add: args_size_def)
next
  case (Suc i)
  let ?str = "strs ! i" and ?n = "length (strs ! i) + 1"
  have sz: "args_size (take (Suc i) strs) = args_size (take i strs) + ?n"
    using Suc.prems(1) by (simp add: args_size_def take_Suc_conv_app_nth)
  define sp1 where "sp1 = sp - of_nat ?n"
  have n: "?n \<le> unat sp" using Suc.prems(6) sz by simp
  have u1: "unat sp1 = unat sp - ?n" "?n \<le> unat sp" using unat_sub_of_nat [OF n] n by (simp_all only: sp1_def)
  define m1 where "m1 = write_bytes m sp1 (map byte_of ?str @ [0])"
  have cs: "c_string m (load32 m (argv + 4 * of_nat i)) ?str" using Suc.prems(1,3) by (auto simp: args_at_def)
  have small: "length ?str < 4294967295" using Suc.prems(4,5) u1(2) by simp
  have out1: "m1 x = m x" if "outside (unat sp1) (unat sp) x" for x
    unfolding m1_def using that u1 small Suc.prems(4,5) by (intro write_bytes_outside) auto
  have here: "c_string m1 sp1 ?str" unfolding m1_def using cs small by (intro c_string_written) (auto simp: c_string_def)
  have lo1: "lo + args_size (take i strs) \<le> unat sp1" using Suc.prems(6) sz u1 by simp
  have hi1: "unat sp1 \<le> hi" using Suc.prems(4) u1 by linarith
  have "m1 x = m x" if "x \<in> Collect (outside lo hi)" for x using lo1 that Suc.prems(4) by (intro out1) (auto elim!: outside_mono)
  note args1 = args_at_cong [OF Suc.prems(3) this]
  obtain sp' ps m' where r: "push_strings i argv sp1 (sp1 # ptrs) m1 = Some (sp', ps @ sp1 # ptrs, m')" "length ps = i"
    "unat sp' + args_size (take i strs) = unat sp1" and out: "\<And>x. outside (unat sp') (unat sp1) x \<Longrightarrow> m' x = m1 x"
    and ps: "\<And>k. k < i \<Longrightarrow> c_string m' (ps ! k) (strs ! k) \<and> unat sp' \<le> unat (ps ! k) \<and> unat (ps ! k) + length (strs ! k) < unat sp1"
    using Suc.IH [OF _ Suc.prems(2) args1 hi1 Suc.prems(5) lo1, of "sp1 # ptrs"] Suc.prems(1) by auto
  have "m' (sp1 + of_nat k) = m1 (sp1 + of_nat k)" if "k \<le> length ?str" for k
  proof (rule out)
    have "unat (sp1 + of_nat k) = unat sp1 + k" using that u1 Suc.prems(4,5) by (intro unat_add_of_nat32) linarith
    then show "outside (unat sp') (unat sp1) (sp1 + of_nat k)" by (simp add: outside_def)
  qed
  then have here': "c_string m' sp1 ?str" using c_string_cong [OF here] by blast
  have run: "push_strings (Suc i) argv sp ptrs m = Some (sp', (ps @ [sp1]) @ ptrs, m')"
    using r(1) str_at_c_string [OF cs] Suc.prems(1,2) by (simp add: sp1_def m1_def)
  moreover have "c_string m' ((ps @ [sp1]) ! k) (strs ! k) \<and> unat sp' \<le> unat ((ps @ [sp1]) ! k) \<and>
      unat ((ps @ [sp1]) ! k) + length (strs ! k) < unat sp" if "k < Suc i" for k
    using that ps [of k] here' r(2,3) u1 by (cases "k = i") (auto simp: nth_append)
  moreover have "m' x = m x" if "outside (unat sp') (unat sp) x" for x
  proof -
    have "unat sp' \<le> unat sp1" "unat sp1 \<le> unat sp" using r(3) u1 by simp_all
    then have "outside (unat sp') (unat sp1) x" "outside (unat sp1) (unat sp) x" using that by (auto simp: outside_def)
    then show ?thesis using out out1 by simp
  qed
  ultimately show ?case using r(2,3) sz u1 by (intro exI [of _ sp'] exI [of _ "ps @ [sp1]"] exI [of _ m']) auto
qed

section \<open>Words on the stack\<close>

lemma store_words_outside:
  assumes "outside (unat a) (unat a + 4 * length ws) x" and "unat a + 4 * length ws < 4294967296"
  shows "store_words m a ws x = m x"
  using assms
proof (induction ws arbitrary: m a)
  case (Cons w ws)
  have u: "unat (a + 4) = unat a + 4" using Cons.prems(2) unat_add_of_nat32 [of a 4] by simp
  have "store32 m a w x = m x" using Cons.prems by (intro store32_other_nat) (auto simp: outside_def)
  moreover have "store_words (store32 m a w) (a + 4) ws x = store32 m a w x"
    using Cons.prems u by (intro Cons.IH) (auto simp: outside_def)
  ultimately show ?case by simp
qed simp

lemma load_store_words:
  assumes "i < length ws" and "unat a + 4 * length ws < 4294967296"
  shows "load32 (store_words m a ws) (a + 4 * of_nat i) = ws ! i"
  using assms
proof (induction ws arbitrary: m a i)
  case (Cons w ws)
  have u: "unat (a + 4) = unat a + 4" using Cons.prems(2) unat_add_of_nat32 [of a 4] by simp
  show ?case
  proof (cases i)
    case 0
    have "load32 (store_words (store32 m a w) (a + 4) ws) a = load32 (store32 m a w) a"
    proof (rule load32_same [of "Collect (outside (unat (a + 4)) (unat (a + 4) + 4 * length ws))"])
      show "store_words (store32 m a w) (a + 4) ws x = store32 m a w x" if "x \<in> Collect (outside (unat (a + 4)) (unat (a + 4) + 4 * length ws))" for x
        using that Cons.prems(2) u by (intro store_words_outside) auto
      have "unat (a + of_nat j) = unat a + j" if "j < 4" for j using that Cons.prems(2) by (intro unat_add_of_nat32) auto
      then show "\<forall>j<4. a + of_nat j \<in> Collect (outside (unat (a + 4)) (unat (a + 4) + 4 * length ws))" using u by (simp add: outside_def)
    qed
    then show ?thesis using 0 by simp
  next
    case (Suc k)
    then have "load32 (store_words (store32 m a w) (a + 4) ws) (a + 4 + 4 * of_nat k) = ws ! k"
      using Cons.prems u by (intro Cons.IH) auto
    moreover have "a + 4 * of_nat i = a + 4 + 4 * (of_nat k :: u32)" using Suc by (simp add: algebra_simps)
    ultimately show ?thesis using Suc by (simp add: add.assoc)
  qed
qed simp

section \<open>The initial stack\<close>

lemma align4_unat: "unat (a AND NOT 3 :: u32) = unat a - unat a mod 4"
proof -
  have "(3 :: u32) = mask 2" by (simp add: mask_eq_exp_minus_1)
  then show ?thesis using unat_align_down [of a 2] by simp
qed

definition stack_need :: "string list \<Rightarrow> nat" where
  "stack_need strs = args_size strs + 4 * (length strs + 1) + 3"

lemma push_args_ok:
  assumes "args_at m argv strs (Collect (outside lo (unat sp)))" and "length strs \<le> 64" and "strs \<noteq> []" and "argv \<noteq> NULL" and "lo + stack_need strs \<le> unat sp"
  shows "\<exists>sp' m'. push_args (int (length strs)) argv sp m = Some (sp', sp', m') \<and> lo \<le> unat sp' \<and> unat sp' < unat sp \<and> 4 dvd unat sp' \<and>
    (\<forall>x. outside (unat sp') (unat sp) x \<longrightarrow> m' x = m x) \<and> load32 m' (sp' + 4 * of_nat (length strs)) = 0 \<and>
    (\<forall>k<length strs. c_string m' (load32 m' (sp' + 4 * of_nat k)) (strs ! k) \<and>
       unat sp' \<le> unat (load32 m' (sp' + 4 * of_nat k)) \<and> unat (load32 m' (sp' + 4 * of_nat k)) + length (strs ! k) < unat sp) \<and>
    unat sp' + 4 * (length strs + 1) \<le> unat sp"
proof -
  let ?n = "length strs"
  obtain sp1 ps m1 where r: "push_strings ?n argv sp [] m = Some (sp1, ps @ [], m1)" "length ps = ?n" "unat sp1 + args_size strs = unat sp"
    and out: "\<And>x. outside (unat sp1) (unat sp) x \<Longrightarrow> m1 x = m x"
    and ps: "\<And>k. k < ?n \<Longrightarrow> c_string m1 (ps ! k) (strs ! k) \<and> unat sp1 \<le> unat (ps ! k) \<and> unat (ps ! k) + length (strs ! k) < unat sp"
    using push_strings_ok [of ?n strs m argv lo "unat sp" sp "[]"] assms unat_lt32 [of sp] by (auto simp: stack_need_def)
  define sp' where "sp' = (sp1 AND NOT 3) - word_of_int (int ?n + 1) * 4"
  have w: "word_of_int (int ?n + 1) * 4 = (of_nat (4 * (?n + 1)) :: u32)" by simp
  have "unat (sp1 AND NOT 3) = unat sp1 - unat sp1 mod 4" by (rule align4_unat)
  moreover have "unat sp1 mod 4 < 4" by simp
  moreover have "lo + 4 * (?n + 1) + 3 \<le> unat sp1" using assms(5) r(3) by (simp add: stack_need_def)
  ultimately have al: "4 * (?n + 1) \<le> unat (sp1 AND NOT 3)" "lo + 4 * (?n + 1) \<le> unat (sp1 AND NOT 3)" "unat (sp1 AND NOT 3) \<le> unat sp1"
    "4 dvd unat (sp1 AND NOT 3)" by (auto simp: minus_mod_eq_mult_div)
  have u: "unat sp' = unat (sp1 AND NOT 3) - 4 * (?n + 1)" unfolding sp'_def w by (rule unat_sub_of_nat [OF al(1)])
  then have le: "unat sp' + 4 * (?n + 1) \<le> unat sp1" "lo \<le> unat sp'" "4 dvd unat sp'" using al by (auto simp: dvd_diff_nat)
  define m2 where "m2 = store_words m1 sp' (ps @ [0])"
  have lim: "unat sp' + 4 * length (ps @ [0]) < 4294967296" using le(1) r(2) unat_lt32 [of sp1] by simp
  have ld: "load32 m2 (sp' + 4 * of_nat k) = (ps @ [0]) ! k" if "k \<le> ?n" for k
    unfolding m2_def using that r(2) by (intro load_store_words [OF _ lim]) simp
  have out2: "m2 x = m1 x" if "outside (unat sp') (unat sp1) x" for x
    unfolding m2_def using that le(1) r(2) by (intro store_words_outside [OF _ lim]) (auto simp: outside_def)
  have str: "c_string m2 (ps ! k) (strs ! k)" if k: "k < ?n" for k
  proof (rule c_string_cong)
    show "c_string m1 (ps ! k) (strs ! k)" using ps [OF k] by blast
    have "unat (ps ! k + of_nat j) = unat (ps ! k) + j" if "j \<le> length (strs ! k)" for j
      using that ps [OF k] unat_lt32 [of sp] by (intro unat_add_of_nat32) linarith
    then show "\<forall>j\<le>length (strs ! k). m2 (ps ! k + of_nat j) = m1 (ps ! k + of_nat j)"
      using ps [OF k] by (intro allI impI out2) (simp add: outside_def)
  qed
  have low: "unat sp' \<le> unat (ps ! k)" if "k < ?n" for k using ps [OF that] le(1) by linarith
  have "push_args (int ?n) argv sp m = Some (sp', sp', m2)" using r(1) assms(3,4) by (simp add: push_args_def sp'_def m2_def Let_def)
  moreover have "m2 x = m x" if "outside (unat sp') (unat sp) x" for x
    using that out2 [of x] out [of x] le(1) r(3) by (auto simp: outside_def)
  moreover have "unat sp1 \<le> unat sp" using r(3) by simp
  ultimately show ?thesis
    using le r(2) ld str ps low by (intro exI [of _ sp'] exI [of _ m2]) (auto simp: nth_append)
qed

text \<open>
  What the switch to a new task and the code at its entry find: flags and cleared registers, the entry as
  return address of the switch, the return address of the entry, its two arguments, and behind the second
  one the arguments of the program with a NULL after them.
\<close>

definition enters_with :: "(u32 \<Rightarrow> u8) \<Rightarrow> u32 \<Rightarrow> u32 \<Rightarrow> u32 \<Rightarrow> string list \<Rightarrow> bool" where
  "enters_with m esp entry ret strs \<longleftrightarrow> load32 m esp = 0x202 \<and> (\<forall>k. 1 \<le> k \<and> k \<le> 8 \<longrightarrow> load32 m (esp + 4 * of_nat k) = 0) \<and>
     load32 m (esp + 36) = entry \<and> load32 m (esp + 40) = ret \<and> load32 m (esp + 44) = of_nat (length strs) \<and>
     (let argv = load32 m (esp + 48) in if strs = [] then argv = NULL
      else load32 m (argv + 4 * of_nat (length strs)) = 0 \<and> (\<forall>k<length strs. c_string m (load32 m (argv + 4 * of_nat k)) (strs ! k)))"

lemma initial_stack_words:
  assumes "unat esp + 52 < 4294967296" and "m' = store_words m esp (initial_stack entry argc av ret)"
  shows "load32 m' esp = 0x202" "1 \<le> k \<Longrightarrow> k \<le> 8 \<Longrightarrow> load32 m' (esp + 4 * of_nat k) = 0" "load32 m' (esp + 36) = entry"
    "load32 m' (esp + 40) = ret" "load32 m' (esp + 44) = word_of_int argc" "load32 m' (esp + 48) = av"
    "outside (unat esp) (unat esp + 52) x \<Longrightarrow> m' x = m x"
proof -
  have l: "length (initial_stack entry argc av ret) = 13" by (simp add: initial_stack_def)
  have w: "load32 m' (esp + 4 * of_nat i) = initial_stack entry argc av ret ! i" if "i < 13" for i
    unfolding assms(2) using that l assms(1) by (intro load_store_words) auto
  show "load32 m' esp = 0x202" "load32 m' (esp + 36) = entry" "load32 m' (esp + 40) = ret" "load32 m' (esp + 44) = word_of_int argc"
    "load32 m' (esp + 48) = av"
    using w [of 0] w [of 9] w [of 10] w [of 11] w [of 12] by (simp_all add: initial_stack_def nth_append)
  show "load32 m' (esp + 4 * of_nat k) = 0" if "1 \<le> k" "k \<le> 8"
  proof -
    have "k - Suc 0 < 8" using that by simp
    then show ?thesis using w [of k] that by (simp add: initial_stack_def nth_append nth_Cons')
  qed
  show "m' x = m x" if "outside (unat esp) (unat esp + 52) x"
    unfolding assms(2) using that l assms(1) by (intro store_words_outside) auto
qed

lemma start_stack:
  assumes args: "args_at m argv strs (Collect (outside lo (unat sp)))" and n: "length strs \<le> 64" "strs \<noteq> [] \<Longrightarrow> argv \<noteq> NULL"
    and room: "lo + stack_need strs + 52 \<le> unat sp"
  shows "\<exists>sp' av m1. push_args (int (length strs)) argv sp m = Some (sp', av, m1) \<and> lo + 52 \<le> unat sp' \<and> unat sp' \<le> unat sp \<and>
    (\<forall>m2. m2 = store_words m1 (sp' - 52) (initial_stack entry (int (length strs)) av ret) \<longrightarrow>
      enters_with m2 (sp' - 52) entry ret strs \<and> (\<forall>x. outside lo (unat sp) x \<longrightarrow> m2 x = m x))"
proof (cases "strs = []")
  case True
  have "unat (sp - 52) = unat sp - 52" using room unat_sub_of_nat [of 52 sp] by simp
  then have "unat (sp - 52) + 52 < 4294967296" "unat (sp - 52) + 52 = unat sp" "lo \<le> unat (sp - 52)" using room unat_lt32 [of sp] by simp_all
  note st = this initial_stack_words [OF this(1) refl, where m = m and entry = entry and argc = 0 and av = NULL and ret = ret]
  have "push_args 0 argv sp m = Some (sp, NULL, m)" by (simp add: push_args_def)
  then show ?thesis using True room st by (auto simp: enters_with_def outside_def)
next
  case False
  have args': "args_at m argv strs (Collect (outside (lo + 52) (unat sp)))"
    by (rule args_at_mono [OF args]) (auto simp: outside_def)
  obtain sp' m1 where p: "push_args (int (length strs)) argv sp m = Some (sp', sp', m1)" "lo + 52 \<le> unat sp'" "unat sp' < unat sp"
    "load32 m1 (sp' + 4 * of_nat (length strs)) = 0" "unat sp' + 4 * (length strs + 1) \<le> unat sp"
    and out: "\<And>x. outside (unat sp') (unat sp) x \<Longrightarrow> m1 x = m x"
    and str: "\<And>k. k < length strs \<Longrightarrow> c_string m1 (load32 m1 (sp' + 4 * of_nat k)) (strs ! k) \<and>
       unat sp' \<le> unat (load32 m1 (sp' + 4 * of_nat k)) \<and> unat (load32 m1 (sp' + 4 * of_nat k)) + length (strs ! k) < unat sp"
    using push_args_ok [OF args' n(1) False n(2) [OF False]] room by auto
  let ?esp = "sp' - 52"
  define m2 where "m2 = store_words m1 ?esp (initial_stack entry (int (length strs)) sp' ret)"
  have u: "unat ?esp = unat sp' - 52" using p(2) unat_sub_of_nat [of 52 sp'] by simp
  then have "unat ?esp + 52 < 4294967296" using p(2,3) unat_lt32 [of sp] by simp
  note st = initial_stack_words [OF this m2_def]
  have keep: "m2 x = m1 x" if "unat sp' \<le> unat x" for x using that u p(2) by (intro st(7)) (auto simp: outside_def)
  have ld: "load32 m2 (sp' + 4 * of_nat k) = load32 m1 (sp' + 4 * of_nat k)" if "k \<le> length strs" for k
  proof (rule load32_same [of "{x. unat sp' \<le> unat x}"])
    have "unat (sp' + of_nat (4 * k + j)) = unat sp' + (4 * k + j)" if "j < 4" for j
    proof (rule unat_add_of_nat32)
      have "4 * k + j < 4 * (length strs + 1)" using that \<open>k \<le> length strs\<close> by simp
      then show "unat sp' + (4 * k + j) < 4294967296" using p(5) unat_lt32 [of sp] by linarith
    qed
    then show "\<forall>j<4. sp' + 4 * of_nat k + of_nat j \<in> {x. unat sp' \<le> unat x}" by (simp add: add.assoc)
  qed (use keep in auto)
  have str2: "c_string m2 (load32 m1 (sp' + 4 * of_nat k)) (strs ! k)" if k: "k < length strs" for k
  proof (rule c_string_cong)
    show "c_string m1 (load32 m1 (sp' + 4 * of_nat k)) (strs ! k)" using str [OF k] by blast
    let ?a = "load32 m1 (sp' + 4 * of_nat k)"
    have "unat (?a + of_nat j) = unat ?a + j" if "j \<le> length (strs ! k)" for j
      using that str [OF k] unat_lt32 [of sp] by (intro unat_add_of_nat32) linarith
    then show "\<forall>j\<le>length (strs ! k). m2 (?a + of_nat j) = m1 (?a + of_nat j)" using str [OF k] by (intro allI impI keep) auto
  qed
  have "enters_with m2 ?esp entry ret strs"
    using st False ld str2 p(4) by (simp add: enters_with_def Let_def)
  moreover have "m2 x = m x" if "outside lo (unat sp) x" for x
    using that st(7) [of x] out [of x] u p(2,3) by (auto simp: outside_def)
  ultimately show ?thesis using p(1-3) m2_def by (intro exI [of _ sp'] exI [of _ sp'] exI [of _ m1]) auto
qed

section \<open>Log lines\<close>

lemma length_fmt_d: "length (fmt_d n) \<le> 11"
proof -
  have "length (fmt_digits (unat w) 10) \<le> 10" for w :: u32
    unfolding fmt_digits_decimal using unat_lt32 [of w] by (intro length_itoa_digits) simp_all
  from this [of n] this [of "- n"] show ?thesis by (simp add: fmt_d_def Let_def)
qed

lemma spawn_log:
  assumes "length name \<le> 60"
  shows "\<exists>log. sprintf 128 (''[TASK] Process spawned: '' @ [CHR 0x27] @ ''%s'' @ [CHR 0x27] @ '' (PID %d)'') [ArgStr (Some name), ArgWord w] = Some log \<and>
    length log \<le> 127"
  using assms length_fmt_d [of w] by (simp add: sprintf_def)

end
