(* ===== verification/Create_Props.thy ===== *)
theory Create_Props
  imports Process_Props Address_Space Heap_Props
begin

text \<open>
  Creating a process: the child inherits the descriptors of its parent, with every reference counted,
  joins the ring of tasks, and starts with its arguments.
\<close>

section \<open>Inherited descriptors\<close>

definition fd_valid :: "'z fds_scheme \<Rightarrow> int \<Rightarrow> bool" where
  "fd_valid s f \<longleftrightarrow> f = -1 \<or> (0 \<le> f \<and> nat f < length (open_files s) \<and>
     (kf_type (open_files s ! nat f) = FILE_TYPE_PIPE \<longrightarrow> kf_pipe (open_files s ! nat f) \<noteq> NULL \<and> kf_pipe (open_files s ! nat f) \<in> dom (pipes s)))"

text \<open>
  The open files and the pipes after \<open>g i\<close> more descriptors refer to the open file number \<open>i\<close>: the
  reference count of every file, and of every pipe the number of its readers and of its writers, which
  are the descriptors of the files that stand for this end.
\<close>

definition tallied :: "(int \<Rightarrow> int) \<Rightarrow> kfile list \<Rightarrow> kfile list" where
  "tallied g ofs = map (\<lambda>i. (ofs ! i)\<lparr>refcount := refcount (ofs ! i) + g (int i)\<rparr>) [0..<length ofs]"

definition ends_tally :: "(int \<Rightarrow> int) \<Rightarrow> kfile list \<Rightarrow> u32 \<Rightarrow> bool \<Rightarrow> int" where
  "ends_tally g ofs p rd =
     (\<Sum>i\<leftarrow>[0..<length ofs]. if kf_type (ofs ! i) = FILE_TYPE_PIPE \<and> kf_pipe (ofs ! i) = p \<and> (kf_mode (ofs ! i) = O_RDONLY) = rd then g (int i) else 0)"

definition pipes_tallied :: "(int \<Rightarrow> int) \<Rightarrow> kfile list \<Rightarrow> (u32 \<rightharpoonup> pipe_data) \<Rightarrow> (u32 \<rightharpoonup> pipe_data)" where
  "pipes_tallied g ofs ps = (\<lambda>p. map_option (\<lambda>q. q\<lparr>pd_readers := pd_readers q + ends_tally g ofs p True,
     pd_writers := pd_writers q + ends_tally g ofs p False\<rparr>) (ps p))"

definition tally_state :: "(int \<Rightarrow> int) \<Rightarrow> 'z fds_scheme \<Rightarrow> 'z fds_scheme" where
  "tally_state g s = s\<lparr>open_files := tallied g (open_files s), pipes := pipes_tallied g (open_files s) (pipes s)\<rparr>"

text \<open>How often each open file stands in a table of descriptors.\<close>

definition table_count :: "int list \<Rightarrow> int \<Rightarrow> int" where
  "table_count fs f = int (count_list fs f)"

lemma length_tallied [simp]: "length (tallied g ofs) = length ofs"
  by (simp add: tallied_def)

lemma nth_tallied: "i < length ofs \<Longrightarrow> tallied g ofs ! i = (ofs ! i)\<lparr>refcount := refcount (ofs ! i) + g (int i)\<rparr>"
  by (simp add: tallied_def)

lemma ends_tally_tallied [simp]: "ends_tally g (tallied h ofs) p rd = ends_tally g ofs p rd"
  unfolding ends_tally_def by (rule arg_cong [where f = sum_list]) (simp add: nth_tallied)

lemma ends_tally_plus: "ends_tally (\<lambda>i. g i + h i) ofs p rd = ends_tally g ofs p rd + ends_tally h ofs p rd"
  unfolding ends_tally_def sum_list_addf [symmetric] by (rule arg_cong [where f = sum_list]) simp

lemma ends_tally_cong: "(\<And>i. 0 \<le> i \<Longrightarrow> g i = h i) \<Longrightarrow> ends_tally g ofs p rd = ends_tally h ofs p rd"
  unfolding ends_tally_def by (rule arg_cong [where f = sum_list]) simp

lemma tally_state_fields [simp]: "tasks (tally_state g s) = tasks s" "tally_state g (s\<lparr>tasks := t\<rparr>) = (tally_state g s)\<lparr>tasks := t\<rparr>"
  "current_task (tally_state g s) = current_task s"
  by (simp_all add: tally_state_def)

lemma tally_state_plus: "tally_state g (tally_state h s) = tally_state (\<lambda>i. h i + g i) s"
proof -
  have "tallied g (tallied h (open_files s)) = tallied (\<lambda>i. h i + g i) (open_files s)"
    by (rule nth_equalityI) (simp_all add: nth_tallied add.assoc)
  moreover have "pipes_tallied g (tallied h (open_files s)) (pipes_tallied h (open_files s) (pipes s)) = pipes_tallied (\<lambda>i. h i + g i) (open_files s) (pipes s)"
    by (rule ext) (simp add: pipes_tallied_def ends_tally_plus option.map_comp comp_def add.assoc)
  ultimately show ?thesis by (simp add: tally_state_def)
qed

lemma tally_state_cong:
  assumes "\<And>i. 0 \<le> i \<Longrightarrow> g i = h i"
  shows "tally_state g s = tally_state h s"
proof -
  have "tallied g (open_files s) = tallied h (open_files s)" using assms by (simp add: tallied_def)
  moreover have "pipes_tallied g (open_files s) = pipes_tallied h (open_files s)"
    using ends_tally_cong [OF assms] by (intro ext) (simp add: pipes_tallied_def)
  ultimately show ?thesis by (simp add: tally_state_def)
qed

lemma tally_state_zero [simp]: "tally_state (\<lambda>i. 0) s = s"
proof -
  have "tallied (\<lambda>i. 0) ofs = ofs" for ofs by (rule nth_equalityI) (simp_all add: nth_tallied)
  moreover have "ends_tally (\<lambda>i. 0) ofs p rd = 0" for ofs p rd by (simp add: ends_tally_def)
  then have "pipes_tallied (\<lambda>i. 0) ofs ps = ps" for ofs ps
    by (intro ext) (simp add: pipes_tallied_def option.map_ident)
  ultimately show ?thesis by (simp add: tally_state_def)
qed

lemma fd_valid_tally [simp]: "fd_valid (tally_state g s) f = fd_valid s f"
proof -
  have "dom (pipes_tallied g (open_files s) (pipes s)) = dom (pipes s)" by (auto simp: pipes_tallied_def)
  then show ?thesis by (auto simp: fd_valid_def tally_state_def nth_tallied)
qed

lemma fd_valid_tasks [simp]: "fd_valid (s\<lparr>tasks := t\<rparr>) f = fd_valid s f"
  by (simp add: fd_valid_def)

lemma sum_list_single: "k < n \<Longrightarrow> (\<Sum>i\<leftarrow>[0..<n]. if P i \<and> i = k then d else 0) = (if P k then d else (0 :: int))"
proof (induction n)
  case (Suc n)
  show ?case
  proof (cases "k = n")
    case True
    have "(\<Sum>i\<leftarrow>[0..<n]. if P i \<and> i = n then d else 0) = (\<Sum>i\<leftarrow>[0..<n]. 0)"
      by (rule arg_cong [where f = sum_list]) simp
    then show ?thesis by (simp add: True)
  next
    case False
    then show ?thesis using Suc by auto
  qed
qed simp

lemma ends_tally_single:
  assumes "0 \<le> f" and "nat f < length ofs"
  shows "ends_tally (\<lambda>i. if i = f then d else 0) ofs p rd =
    (if kf_type (ofs ! nat f) = FILE_TYPE_PIPE \<and> kf_pipe (ofs ! nat f) = p \<and> (kf_mode (ofs ! nat f) = O_RDONLY) = rd then d else 0)"
proof -
  let ?P = "\<lambda>i. kf_type (ofs ! i) = FILE_TYPE_PIPE \<and> kf_pipe (ofs ! i) = p \<and> (kf_mode (ofs ! i) = O_RDONLY) = rd"
  have e: "(if P then (if int i = f then d else 0) else 0) = (if P \<and> i = nat f then d else 0)" for P i
    using assms(1) by (cases "int i = f") auto
  have "ends_tally (\<lambda>i. if i = f then d else 0) ofs p rd = (\<Sum>i\<leftarrow>[0..<length ofs]. if ?P i \<and> i = nat f then d else 0)"
    by (simp only: ends_tally_def e)
  then show ?thesis using sum_list_single [OF assms(2), of ?P d] by simp
qed

lemma file_ref_ok:
  fixes s :: "'z fds_scheme"
  assumes "fd_valid s f" and "f \<noteq> -1"
  shows "file_ref d f s = Some (tally_state (\<lambda>i. if i = f then d else 0) s)"
proof -
  have f: "0 \<le> f" "nat f < length (open_files s)" using assms by (auto simp: fd_valid_def)
  let ?k = "open_files s ! nat f" and ?g = "\<lambda>i. if i = f then d else 0"
  have c: "(open_files s)[nat f := ?k\<lparr>refcount := refcount ?k + d\<rparr>] = tallied ?g (open_files s)"
    using f by (auto simp: nth_tallied nth_list_update intro!: nth_equalityI)
  have u: "upd_file f (\<lambda>k. k\<lparr>refcount := refcount k + d\<rparr>) s = Some (s\<lparr>open_files := tallied ?g (open_files s)\<rparr>)"
    using f c by (simp add: upd_file_def get_file_def)
  have g: "get_file f (s\<lparr>open_files := tallied ?g (open_files s)\<rparr>) = Some (?k\<lparr>refcount := refcount ?k + d\<rparr>)"
    using f by (simp add: get_file_def nth_tallied)
  note single = ends_tally_single [OF f, of d]
  show ?thesis
  proof (cases "kf_type ?k = FILE_TYPE_PIPE")
    case True
    then obtain q where q: "pipes s (kf_pipe ?k) = Some q" "kf_pipe ?k \<noteq> NULL" using assms by (auto simp: fd_valid_def)
    have "pipe_ref d (?k\<lparr>refcount := refcount ?k + d\<rparr>) (s\<lparr>open_files := tallied ?g (open_files s)\<rparr>) = Some (tally_state ?g s)"
      using q True by (auto simp: pipe_ref_def upd_pipe_def get_pipe_def tally_state_def pipes_tallied_def single option.map_ident intro!: arg_cong2 [where f = "\<lambda>a b. s\<lparr>open_files := a, pipes := b\<rparr>"])
    then show ?thesis using u g True by (simp add: file_ref_def)
  next
    case False
    then have "pipes_tallied ?g (open_files s) (pipes s) = pipes s" by (intro ext) (simp add: pipes_tallied_def single option.map_ident)
    then show ?thesis using u g False by (simp add: file_ref_def tally_state_def)
  qed
qed

lemma table_count_Cons: "table_count (f # fs) = (\<lambda>i. (if i = f then 1 else 0) + table_count fs i)"
  by (rule ext) (simp add: table_count_def)

lemma table_count_nonneg_filter: "tally_state (table_count (filter (\<lambda>f. f \<noteq> -1) fs)) s = tally_state (table_count fs) s"
proof (rule tally_state_cong)
  have "i \<noteq> -1 \<Longrightarrow> count_list (filter (\<lambda>f. f \<noteq> -1) fs) i = count_list fs i" for i :: int
    by (induction fs) auto
  then show "0 \<le> i \<Longrightarrow> table_count (filter (\<lambda>f. f \<noteq> -1) fs) i = table_count fs i" for i by (simp add: table_count_def)
qed

lemma table_count_update:
  "k < length fs \<Longrightarrow> table_count (fs[k := y]) i = table_count fs i - (if i = fs ! k then 1 else 0) + (if i = y then 1 else 0)"
proof (induction fs arbitrary: k)
  case (Cons f fs)
  then show ?case
  proof (cases k)
    case (Suc n)
    then show ?thesis using Cons.IH [of n] Cons.prems by (simp add: table_count_def split: if_splits)
  qed (simp add: table_count_def)
qed simp

text \<open>A reference to an open file, if there is one.\<close>

lemma file_ref_opt:
  assumes "fd_valid s f"
  shows "(if f \<noteq> -1 then file_ref d f s else Some s) = Some (tally_state (\<lambda>i. if i = f then d else 0) s)"
proof (cases "f = -1")
  case True
  then have "tally_state (\<lambda>i. if i = f then d else 0) s = tally_state (\<lambda>i. 0) s" by (intro tally_state_cong) auto
  then show ?thesis using True by simp
next
  case False
  then show ?thesis using file_ref_ok [OF assms] by simp
qed

lemma inherit_loop_ok:
  fixes s :: "'z fds_scheme"
  assumes "tasks s parent = Some t" and "tasks s child = Some c" and "child \<noteq> parent" and "child \<noteq> NULL" and "parent \<noteq> NULL"
    and "length (fd_table t) = MAX_FDS" and "\<forall>f\<in>set (fd_table t). fd_valid s f" and "\<forall>i\<in>set js. i < MAX_FDS"
  shows "inherit_loop js child parent s = Some (tally_state (table_count (map ((!) (fd_table t)) js))
      (s\<lparr>tasks := (tasks s)(child \<mapsto> c\<lparr>fd_table := fold (\<lambda>i l. l[i := fd_table t ! i]) js (fd_table c)\<rparr>)\<rparr>))"
  using assms
proof (induction js arbitrary: s c)
  case Nil
  have "table_count [] = (\<lambda>_. 0)" by (simp add: table_count_def fun_eq_iff)
  then show ?case using Nil(2) by (simp add: map_upd_triv)
next
  case (Cons i js)
  let ?f = "fd_table t ! i"
  let ?c = "c\<lparr>fd_table := (fd_table c)[i := ?f]\<rparr>"
  let ?s = "s\<lparr>tasks := (tasks s)(child \<mapsto> ?c)\<rparr>"
  have at: "fd_at (int i) t = Some ?f" using Cons.prems(6,8) by (simp add: fd_at_def)
  have v: "fd_valid ?s ?f" using Cons.prems(6-8) by auto
  let ?s1 = "tally_state (\<lambda>x. if x = ?f then 1 else 0) ?s"
  have "tasks ?s1 parent = Some t" "tasks ?s1 child = Some ?c" "\<forall>i\<in>set js. i < MAX_FDS" "\<forall>f\<in>set (fd_table t). fd_valid ?s1 f"
    using Cons.prems(1,3,7,8) by simp_all
  note hyps = this
  note IH = Cons.IH [OF hyps(1,2) Cons.prems(3-6) hyps(4,3)]
  have "get_task parent s = Some t" "get_task child s = Some c" using Cons.prems by simp_all
  then have step: "inherit_loop (i # js) child parent s = inherit_loop js child parent ?s1"
    by (simp only: inherit_loop.simps upd_task_def at file_ref_opt [OF v, of 1] Option.bind.bind_lunit)
  have "?s1\<lparr>tasks := (tasks ?s1)(child \<mapsto> x)\<rparr> = tally_state (\<lambda>x. if x = ?f then 1 else 0) (s\<lparr>tasks := (tasks s)(child \<mapsto> x)\<rparr>)" for x
    by simp
  note upd = this
  show ?case unfolding step IH upd unfolding tally_state_plus by (simp add: table_count_Cons fun_upd_def)
qed

lemma fold_copy:
  assumes "\<forall>i\<in>set js. i < length l" and "k < length l"
  shows "fold (\<lambda>i l. l[i := xs ! i]) js l ! k = (if k \<in> set js then xs ! k else l ! k)"
  using assms by (induction js arbitrary: l) auto

lemma length_fold_copy [simp]: "length (fold (\<lambda>i l. l[i := xs ! i]) js l) = length l"
  by (induction js arbitrary: l) auto

lemma fd_inherit_ok:
  fixes s :: "'z fds_scheme"
  assumes "tasks s parent = Some t" and "tasks s child = Some c" and "child \<noteq> parent" and "child \<noteq> NULL" and "parent \<noteq> NULL"
    and "length (fd_table t) = MAX_FDS" and "\<forall>f\<in>set (fd_table t). fd_valid s f" and "length (fd_table c) = MAX_FDS"
  shows "fd_inherit child parent s = Some (tally_state (table_count (fd_table t)) (s\<lparr>tasks := (tasks s)(child \<mapsto> c\<lparr>fd_table := fd_table t\<rparr>)\<rparr>))"
proof -
  have "fold (\<lambda>i l. l[i := fd_table t ! i]) [0..<MAX_FDS] (fd_table c) = fd_table t"
    using assms(6,8) by (intro nth_equalityI) (simp_all add: fold_copy)
  moreover have "map ((!) (fd_table t)) [0..<MAX_FDS] = fd_table t" using assms(6) map_nth [of "fd_table t"] by simp
  ultimately show ?thesis using inherit_loop_ok [OF assms(1-7), of "[0..<MAX_FDS]"] unfolding fd_inherit_def by simp
qed

text \<open>The descriptors of a child whose standard input or output is another descriptor of its parent.\<close>

definition child_table :: "int list \<Rightarrow> int \<Rightarrow> int \<Rightarrow> int list" where
  "child_table l fd_in fd_out =
     (let l1 = (if fd_in = -1 then l else l[0 := l ! nat fd_in])
      in if fd_out = -1 then l1 else l1[1 := l ! nat fd_out, 2 := l ! nat fd_out])"

text \<open>\<open>s\<close> after the task \<open>p\<close> was given the table \<open>l\<close>, all references counted.\<close>

definition table_state :: "u32 \<Rightarrow> task \<Rightarrow> int list \<Rightarrow> 'z fds_scheme \<Rightarrow> 'z fds_scheme" where
  "table_state p t l s = tally_state (table_count l) (s\<lparr>tasks := (tasks s)(p \<mapsto> t\<lparr>fd_table := l\<rparr>)\<rparr>)"

lemma redirect_fd_ok:
  fixes s :: "'z fds_scheme"
  assumes "p \<noteq> NULL" and "slot < length l" and "fd_valid s (l ! slot)" and "fd_valid s f"
  shows "redirect_fd p slot f (table_state p t l s) = Some (table_state p t (l[slot := f]) s)"
proof -
  let ?s = "table_state p t l s" and ?o = "l ! slot"
  have g: "get_task p ?s = Some (t\<lparr>fd_table := l\<rparr>)" using assms(1) by (simp add: table_state_def get_task_def)
  have a: "fd_at (int slot) (t\<lparr>fd_table := l\<rparr>) = Some ?o" using assms(2) by (simp add: fd_at_def)
  have "fd_valid ?s ?o" "fd_valid ?s f" using assms(3,4) by (simp_all add: table_state_def)
  note v = this
  let ?s1 = "tally_state (\<lambda>i. if i = ?o then -1 else 0) ?s"
  let ?s2 = "?s1\<lparr>tasks := (tasks ?s)(p \<mapsto> t\<lparr>fd_table := l[slot := f]\<rparr>)\<rparr>"
  have u: "upd_task p (\<lambda>t. t\<lparr>fd_table := (fd_table t)[slot := f]\<rparr>) ?s1 = Some ?s2"
    using g by (simp add: upd_task_def get_task_def split: if_splits)
  have "fd_valid ?s2 f" using v(2) by simp
  note r = file_ref_opt [OF v(1), of "-1"] file_ref_opt [OF this, of 1]
  have "redirect_fd p slot f ?s = Some (tally_state (\<lambda>i. if i = f then 1 else 0) ?s2)"
    by (simp only: redirect_fd_def g a r u Option.bind.bind_lunit)
  moreover have "tally_state (\<lambda>i. if i = f then 1 else 0) ?s2 = table_state p t (l[slot := f]) s"
  proof -
    have "table_count (l[slot := f]) = (\<lambda>i. table_count l i + (if i = ?o then -1 else 0) + (if i = f then 1 else 0))"
      by (rule ext) (simp add: table_count_update [OF assms(2)])
    then show ?thesis by (simp add: table_state_def tally_state_plus add.assoc)
  qed
  ultimately show ?thesis by simp
qed

section \<open>The new task\<close>

definition redirects :: "int \<Rightarrow> bool" where
  "redirects fd \<longleftrightarrow> fd = -1 \<or> 0 \<le> fd \<and> fd < int MAX_FDS"

lemma inherit_task_ok:
  fixes s :: "'z fds_scheme"
  assumes "tasks s (current_task s) = Some c" and "current_task s \<noteq> NULL" and "tasks s p = Some t" and "p \<noteq> current_task s" and "p \<noteq> NULL"
    and "length (cwd c) < 64" and "length (fd_table c) = MAX_FDS" and "\<forall>f\<in>set (fd_table c). fd_valid s f" and "length (fd_table t) = MAX_FDS"
    and "redirects fd_in" and "redirects fd_out"
  shows "inherit_task p fd_in fd_out s =
    Some (table_state p (t\<lparr>parent_id := t_id c, uid := uid c, cwd := cwd c\<rparr>) (child_table (fd_table c) fd_in fd_out) s)"
proof -
  let ?t = "t\<lparr>parent_id := t_id c, uid := uid c, cwd := cwd c\<rparr>" and ?l = "fd_table c"
  let ?s = "s\<lparr>tasks := (tasks s)(p \<mapsto> ?t)\<rparr>"
  let ?l1 = "if fd_in = -1 then ?l else ?l[0 := ?l ! nat fd_in]"
  have nth: "fd_valid s (?l ! k)" if "k < MAX_FDS" for k using that assms(7,8) by simp
  have at: "fd_at fd c = Some (?l ! nat fd)" "fd_valid s (?l ! nat fd)" if "redirects fd" "fd \<noteq> -1" for fd
    using that assms(7) nth [of "nat fd"] by (auto simp: redirects_def fd_at_def)
  have inh: "fd_inherit p (current_task ?s) ?s = Some (table_state p ?t ?l s)"
    using fd_inherit_ok [of ?s "current_task s" c p ?t] assms by (simp add: table_state_def)
  have "get_task (current_task s) s = Some c" "get_task p s = Some t" "strcpy 64 (cwd c) = Some (cwd c)"
    using assms by (simp_all add: strcpy_def strlen_def)
  note run = this
  have ins: "(if fd_in \<noteq> -1 then Option.bind (fd_at fd_in c) (\<lambda>f. redirect_fd p 0 f (table_state p ?t ?l s)) else Some (table_state p ?t ?l s)) =
      Some (table_state p ?t ?l1 s)"
    using redirect_fd_ok [OF assms(5), of 0 ?l s "?l ! nat fd_in" ?t] at [OF assms(10)] nth [of 0] assms(7) by (simp add: MAX_FDS_def)
  have outs: "redirect_fd p 1 (?l ! nat fd_out) (table_state p ?t ?l1 s) = Some (table_state p ?t (?l1[1 := ?l ! nat fd_out]) s)"
    "redirect_fd p 2 (?l ! nat fd_out) (table_state p ?t (?l1[1 := ?l ! nat fd_out]) s) = Some (table_state p ?t (?l1[1 := ?l ! nat fd_out, 2 := ?l ! nat fd_out]) s)"
    if "fd_out \<noteq> -1"
    using redirect_fd_ok [OF assms(5), of 1 ?l1 s "?l ! nat fd_out" ?t] redirect_fd_ok [OF assms(5), of 2 "?l1[1 := ?l ! nat fd_out]" s "?l ! nat fd_out" ?t]
      at(2) [OF assms(11) that] nth [of 1] nth [of 2] assms(7) by (simp_all add: MAX_FDS_def)
  have "inherit_task p fd_in fd_out s = Option.bind (Some (table_state p ?t ?l1 s)) (\<lambda>s. if fd_out \<noteq> -1 then
      Option.bind (fd_at fd_out c) (\<lambda>f. Option.bind (redirect_fd p 1 f s) (redirect_fd p 2 f)) else Some s)"
    by (simp only: inherit_task_def upd_task_def run inh ins assms(2) not_False_eq_True if_True Option.bind.bind_lunit)
  then show ?thesis
  proof (cases "fd_out = -1")
    case False
    then have "inherit_task p fd_in fd_out s = Some (table_state p ?t (?l1[1 := ?l ! nat fd_out, 2 := ?l ! nat fd_out]) s)"
      unfolding \<open>inherit_task p fd_in fd_out s = _\<close> by (simp only: at(1) [OF assms(11) False] outs [OF False] not_False_eq_True if_True Option.bind.bind_lunit)
    then show ?thesis using False by (simp add: child_table_def Let_def)
  qed (simp add: child_table_def)
qed

lemma link_task_ok:
  assumes "tasks s (ready_queue s) = Some q" and "ready_queue s \<noteq> NULL" and "tasks s p = Some t" and "p \<noteq> NULL" and "p \<noteq> ready_queue s"
  shows "link_task p s = Some (s\<lparr>tasks := (tasks s)(ready_queue s \<mapsto> q\<lparr>t_next := p\<rparr>, p \<mapsto> t\<lparr>t_next := t_next q\<rparr>)\<rparr>)"
  using assms by (simp add: link_task_def upd_task_def get_task_def)

lemma linked_ring:
  assumes "ring s (r # qs)" and "tasks s r = Some q" and "p \<notin> set (r # qs)" and "p \<noteq> NULL" and "t_next t = t_next q"
    and "tasks s' = (tasks s)(r \<mapsto> q\<lparr>t_next := p\<rparr>, p \<mapsto> t)"
  shows "ring s' (r # p # qs)"
proof -
  have q: "r \<noteq> NULL" "links s (t_next q) qs r" "r \<notin> set qs" "distinct qs" using assms(1,2) by (auto simp: ring_def)
  have "links s' (t_next q) qs r = links s (t_next q) qs r"
    using assms(3,6) q(3) by (intro links_cong) auto
  then show ?thesis using q assms(3-6) by (auto simp: ring_def)
qed

section \<open>Processes\<close>

text \<open>What a caller of \<^verbatim>\<open>create_process\<close> with the current task as parent relies on.\<close>

definition can_create :: "'z fds_scheme \<Rightarrow> ablock list \<Rightarrow> u32 list \<Rightarrow> task \<Rightarrow> bool" where
  "can_create s bs qs c \<longleftrightarrow> heap_ok s bs \<and> room bs 1049200 \<and> \<not> tasks_need_cleanup s \<and> ring s (ready_queue s # qs) \<and>
     current_task s \<in> set (ready_queue s # qs) \<and> tasks s (current_task s) = Some c \<and> (\<forall>q\<in>set (ready_queue s # qs). allocated_at bs q) \<and>
     length (cwd c) < 64 \<and> length (fd_table c) = MAX_FDS \<and> (\<forall>f\<in>set (fd_table c). fd_valid s f) \<and>
     (\<forall>p. length (fd_table (raw_task s p)) = MAX_FDS) \<and> length (sys_log s) < 64000"

text \<open>The stack is allocated and filled.\<close>

lemma stack_made:
  assumes hok: "heap_ok s bs" and rm: "room bs 1048576" and args: "args_at (mem s) argv strs (used_memory bs)"
    and n: "length strs \<le> 64" "strs \<noteq> [] \<Longrightarrow> argv \<noteq> NULL" "stack_need strs + 52 \<le> 1048576"
  obtains stack B F bs' sp av m where "kmalloc PROC_STACK_SIZE s = Some (stack, s\<lparr>blocks := B, free_bins := F\<rparr>)" "stack \<noteq> NULL"
    "heap_ok (s\<lparr>blocks := B, free_bins := F\<rparr>) bs'"
    "push_args (int (length strs)) argv (stack + PROC_STACK_SIZE) (mem s) = Some (sp, av, m)"
    "enters_with (store_words m (sp - 52) (initial_stack entry (int (length strs)) av ret)) (sp - 52) entry ret strs"
    "\<And>x. x \<in> used_memory bs \<Longrightarrow> store_words m (sp - 52) (initial_stack entry (int (length strs)) av ret) x = mem s x"
proof -
  have wf: "heap_wf bs" using hok by (simp add: heap_ok_def)
  have rs: "round_size PROC_STACK_SIZE = 1048576" by (simp add: round_size_def PROC_STACK_SIZE_def)
  obtain b l B F where k: "kmalloc PROC_STACK_SIZE s = Some (b + sizeof_block, s\<lparr>blocks := B, free_bins := F\<rparr>)" "b + sizeof_block \<noteq> NULL"
    "(b, l, True) \<in> set bs" "round_size PROC_STACK_SIZE \<le> l" "heap_ok (s\<lparr>blocks := B, free_bins := F\<rparr>) (a_alloc b (round_size PROC_STACK_SIZE) bs)"
    by (rule kmalloc_room [OF hok, of PROC_STACK_SIZE]) (use rm rs in auto)
  let ?st = "b + sizeof_block" and ?top = "b + sizeof_block + PROC_STACK_SIZE"
  have us: "unat ?st = unat b + 28" by (rule heap_wf_ptr(1) [OF wf k(3)])
  have ll: "1048576 \<le> unat l" using k(4) rs by (simp add: word_le_nat_alt)
  have lim: "unat b + 28 + unat l \<le> HEAP_END" by (rule heap_wf_block(2) [OF wf k(3)])
  have ut: "unat ?top = unat b + 28 + 1048576"
    using us ll lim by (subst unat_add_no_wrap32) (simp_all add: PROC_STACK_SIZE_def HEAP_END_def layout_simps)
  have sub: "used_memory bs \<subseteq> Collect (outside (unat ?st) (unat ?top))"
    using k(3) us ut ll by (fastforce simp: used_memory_def outside_def)
  have "unat ?st + stack_need strs + 52 \<le> unat ?top" using n(3) us ut by simp
  from start_stack [OF args_at_mono [OF args sub] n(1,2) this, of entry ret] show ?thesis
    using k(1,2,5) sub by (auto intro!: that)
qed

text \<open>The task is allocated and inherits.\<close>

lemma task_made:
  fixes s :: "'z fds_scheme"
  assumes can: "can_create s bs qs c" and re: "redirects fd_in" "redirects fd_out" and l: "l = child_table (fd_table c) fd_in fd_out"
  obtains p B F bs1 where "kmalloc sizeof_Task s = Some (p, s\<lparr>blocks := B, free_bins := F\<rparr>)" "p \<noteq> NULL" "p \<notin> set (ready_queue s # qs)"
    "inherit_task p fd_in fd_out (s\<lparr>blocks := B, free_bins := F, tasks := (tasks s)(p \<mapsto> new_task p pd name (signal_handlers c) (s\<lparr>blocks := B, free_bins := F\<rparr>)), next_pid := next_pid s + 1\<rparr>) =
       Some (s\<lparr>blocks := B, free_bins := F, next_pid := next_pid s + 1, tasks := (tasks s)(p \<mapsto> (new_task p pd name (signal_handlers c) (s\<lparr>blocks := B, free_bins := F\<rparr>))
           \<lparr>parent_id := t_id c, uid := uid c, cwd := cwd c, fd_table := l\<rparr>),
         open_files := tallied (table_count l) (open_files s), pipes := pipes_tallied (table_count l) (open_files s) (pipes s)\<rparr>)"
    "heap_ok (s\<lparr>blocks := B, free_bins := F\<rparr>) bs1" "room bs1 1048576" "used_memory bs \<subseteq> used_memory bs1"
proof -
  have hok: "heap_ok s bs" and rm: "room bs 1049200" and rng: "ring s (ready_queue s # qs)"
    and cur: "current_task s \<in> set (ready_queue s # qs)" "tasks s (current_task s) = Some c" and blk: "\<forall>q\<in>set (ready_queue s # qs). allocated_at bs q"
    and cw: "length (cwd c) < 64" "length (fd_table c) = MAX_FDS" "\<forall>f\<in>set (fd_table c). fd_valid s f"
    and raw: "\<And>p. length (fd_table (raw_task s p)) = MAX_FDS"
    using can unfolding can_create_def by blast+
  have wf: "heap_wf bs" using hok by (simp add: heap_ok_def)
  have cn: "current_task s \<noteq> NULL" by (rule ring_task [OF rng cur(1)])
  have rs: "round_size sizeof_Task = 404" by (simp add: round_size_def sizeof_Task_def)
  obtain a n B F where k1: "kmalloc sizeof_Task s = Some (a + sizeof_block, s\<lparr>blocks := B, free_bins := F\<rparr>)" "a + sizeof_block \<noteq> NULL"
    "(a, n, True) \<in> set bs" "round_size sizeof_Task \<le> n" "heap_ok (s\<lparr>blocks := B, free_bins := F\<rparr>) (a_alloc a (round_size sizeof_Task) bs)"
    "\<not> allocated_at bs (a + sizeof_block)"
    by (rule kmalloc_room [OF hok, of sizeof_Task]) (use rm in \<open>auto simp: rs elim: room_mono\<close>)
  define p where "p = a + sizeof_block"
  have pn: "p \<noteq> NULL" "p \<notin> set (ready_queue s # qs)" "p \<noteq> current_task s"
    using k1(2,6) blk cur(1) unfolding p_def by auto
  let ?t0 = "new_task p pd name (signal_handlers c) (s\<lparr>blocks := B, free_bins := F\<rparr>)"
  let ?s2 = "s\<lparr>blocks := B, free_bins := F, tasks := (tasks s)(p \<mapsto> ?t0), next_pid := next_pid s + 1\<rparr>"
  have "\<forall>f\<in>set (fd_table c). fd_valid ?s2 f" using cw(3) by (simp add: fd_valid_def)
  then have "inherit_task p fd_in fd_out ?s2 = Some (table_state p (?t0\<lparr>parent_id := t_id c, uid := uid c, cwd := cwd c\<rparr>) l ?s2)"
    using inherit_task_ok [of ?s2 c p ?t0 fd_in fd_out] cur(2) cn pn cw raw re by (simp add: new_task_def l)
  note inh = this [unfolded table_state_def tally_state_def]
  have "room (a_alloc a (round_size sizeof_Task) bs) 1048576" by (rule room_alloc [OF wf k1(3) room_mono [OF rm]]) (simp_all add: rs)
  then show ?thesis
    using k1(1) [folded p_def] pn(1,2) inh k1(5) used_memory_alloc [OF wf k1(3,4)] by (auto intro: that)
qed

text \<open>
  C5. A new process starts with what it was given. With a parent whose descriptors are valid, with room in
  the heap and with no dead task left to clean up, \<^verbatim>\<open>create_process\<close> succeeds: the new task is ready, stands
  in the ring after the head of the queue, and has identity, user, directory, signal handlers and address
  space as it should. Its descriptors are its parent's, with standard input and output redirected where the
  caller asks for it, and every one of them is counted, in the open file and, at the right end, in the pipe
  it refers to: no other count changes. Its stack makes the switch enter the program with a copy of
  all arguments and with \<^verbatim>\<open>exit_process\<close> to return to; the other tasks keep their state, and
  memory in use is not touched.
\<close>

theorem create_process_starts:
  fixes s :: "'z fds_scheme"
  assumes can: "can_create s bs qs c" and args: "args_at (mem s) argv strs (used_memory bs)" "length strs \<le> 64" "strs \<noteq> [] \<longrightarrow> argv \<noteq> NULL"
    and need: "stack_need strs + 52 \<le> 1048576" and name: "length name \<le> 60" and re: "redirects fd_in" "redirects fd_out"
  shows "\<exists>s' p t bs'. create_process entry (int (length strs)) argv (Some name) pd fd_in fd_out s = Some (next_pid s, s') \<and>
    heap_ok s' bs' \<and> ring s' (ready_queue s # p # qs) \<and> current_task s' = current_task s \<and> next_pid s' = next_pid s + 1 \<and>
    tasks s' p = Some t \<and> t_id t = next_pid s \<and> t_state t = TASK_READY \<and> parent_id t = t_id c \<and> uid t = uid c \<and> cwd t = cwd c \<and>
    page_dir t = (if pd \<noteq> NULL then pd else kernel_dir s) \<and> enters_with (mem s') (t_esp t) entry (exit_process_entry s) strs \<and>
    signal_handlers t = signal_handlers c \<and> fd_table t = child_table (fd_table c) fd_in fd_out \<and>
    open_files s' = tallied (table_count (fd_table t)) (open_files s) \<and> pipes s' = pipes_tallied (table_count (fd_table t)) (open_files s) (pipes s) \<and>
    (\<forall>x. x \<noteq> p \<and> x \<noteq> ready_queue s \<longrightarrow> tasks s' x = tasks s x) \<and>
    tasks s' (ready_queue s) = map_option (\<lambda>q. q\<lparr>t_next := p\<rparr>) (tasks s (ready_queue s)) \<and> (\<forall>x\<in>used_memory bs. mem s' x = mem s x)"
proof -
  define l where "l = child_table (fd_table c) fd_in fd_out"
  have nc: "\<not> tasks_need_cleanup s" and rng: "ring s (ready_queue s # qs)" and log: "length (sys_log s) < 64000"
    and cur: "current_task s \<in> set (ready_queue s # qs)" "tasks s (current_task s) = Some c"
    using can unfolding can_create_def by blast+
  have cn: "current_task s \<noteq> NULL" by (rule ring_task [OF rng cur(1)])
  obtain q where q: "tasks s (ready_queue s) = Some q" "ready_queue s \<noteq> NULL" by (rule ring_task [OF rng, of "ready_queue s"]) auto
  let ?t0 = "\<lambda>p B F. new_task p pd (Some name) (signal_handlers c) (s\<lparr>blocks := B, free_bins := F\<rparr>)"
  obtain p B F bs1 where k1: "kmalloc sizeof_Task s = Some (p, s\<lparr>blocks := B, free_bins := F\<rparr>)" and pn: "p \<noteq> NULL" "p \<notin> set (ready_queue s # qs)"
    and inh: "inherit_task p fd_in fd_out (s\<lparr>blocks := B, free_bins := F, tasks := (tasks s)(p \<mapsto> ?t0 p B F), next_pid := next_pid s + 1\<rparr>) =
       Some (s\<lparr>blocks := B, free_bins := F, next_pid := next_pid s + 1, tasks := (tasks s)(p \<mapsto> (?t0 p B F)\<lparr>parent_id := t_id c, uid := uid c, cwd := cwd c, fd_table := l\<rparr>),
         open_files := tallied (table_count l) (open_files s), pipes := pipes_tallied (table_count l) (open_files s) (pipes s)\<rparr>)"
    and hok1: "heap_ok (s\<lparr>blocks := B, free_bins := F\<rparr>) bs1" and rm1: "room bs1 1048576" and sub: "used_memory bs \<subseteq> used_memory bs1"
    by (rule task_made [OF can re l_def, of pd "Some name"]) (rule that)
  let ?s1 = "s\<lparr>blocks := B, free_bins := F\<rparr>"
  let ?t1 = "(?t0 p B F)\<lparr>parent_id := t_id c, uid := uid c, cwd := cwd c, fd_table := l\<rparr>"
  let ?s3 = "?s1\<lparr>next_pid := next_pid s + 1, tasks := (tasks s)(p \<mapsto> ?t1), open_files := tallied (table_count l) (open_files s), pipes := pipes_tallied (table_count l) (open_files s) (pipes s)\<rparr>"
  have hok3: "heap_ok ?s3 bs1" using hok1 by (simp add: heap_ok_def heap_rel_def)
  have args3: "args_at (mem ?s3) argv strs (used_memory bs1)" using args_at_mono [OF args(1) sub] by simp
  obtain stack B' F' bs' sp av m where k2: "kmalloc PROC_STACK_SIZE ?s3 = Some (stack, ?s3\<lparr>blocks := B', free_bins := F'\<rparr>)" "stack \<noteq> NULL"
    "heap_ok (?s3\<lparr>blocks := B', free_bins := F'\<rparr>) bs'" "push_args (int (length strs)) argv (stack + PROC_STACK_SIZE) (mem ?s3) = Some (sp, av, m)"
    and st: "enters_with (store_words m (sp - 52) (initial_stack entry (int (length strs)) av (exit_process_entry s))) (sp - 52) entry (exit_process_entry s) strs"
    and keep: "\<And>x. x \<in> used_memory bs1 \<Longrightarrow> store_words m (sp - 52) (initial_stack entry (int (length strs)) av (exit_process_entry s)) x = mem ?s3 x"
    by (rule stack_made [OF hok3 rm1 args3 args(2) _ need, of entry "exit_process_entry s"]) (use args(3) in auto)
  let ?m = "store_words m (sp - 52) (initial_stack entry (int (length strs)) av (exit_process_entry s))"
  let ?t2 = "?t1\<lparr>stack_start := stack, t_esp := sp - 52\<rparr>"
  let ?s4 = "?s3\<lparr>blocks := B', free_bins := F', mem := ?m, tasks := (tasks s)(p \<mapsto> ?t2)\<rparr>"
  let ?t3 = "?t2\<lparr>t_next := t_next q\<rparr>"
  let ?s5 = "?s4\<lparr>tasks := (tasks s)(ready_queue s \<mapsto> q\<lparr>t_next := p\<rparr>, p \<mapsto> ?t3)\<rparr>"
  have lk: "link_task p ?s4 = Some ?s5" using link_task_ok [of ?s4 q p ?t2] q pn by (simp add: fun_upd_twist)
  obtain msg where msg: "sprintf 128 (''[TASK] Process spawned: '' @ [CHR 0x27] @ ''%s'' @ [CHR 0x27] @ '' (PID %d)'')
      [ArgStr (Some name), ArgWord (word_of_int (next_pid s))] = Some msg" "length msg \<le> 127" using spawn_log [OF name] by blast
  obtain lg where lg: "klog msg ?s5 = Some (?s5\<lparr>sys_log := lg\<rparr>)" using klog_Some [of ?s5 msg] log msg(2) by auto
  have run: "create_process entry (int (length strs)) argv (Some name) pd fd_in fd_out s = Some (next_pid s, ?s5\<lparr>sys_log := lg\<rparr>)"
  proof -
    have "cleanup_zombies s = Some s" using nc by (simp add: cleanup_zombies_def)
    moreover have "get_task (current_task s) ?s1 = Some c" using cur(2) cn by (simp add: get_task_def)
    moreover have "upd_task p (\<lambda>t. t\<lparr>stack_start := stack, t_esp := sp - 52\<rparr>) (?s3\<lparr>blocks := B', free_bins := F', mem := ?m\<rparr>) = Some ?s4"
      using pn(1) by (simp add: upd_task_def get_task_def)
    ultimately show ?thesis
      using k1 pn(1) cn inh k2(1,2,4) lk msg(1) lg unfolding create_process_def by (simp add: Let_def)
  qed
  have "ring (?s5\<lparr>sys_log := lg\<rparr>) (ready_queue s # p # qs)"
    using linked_ring [OF rng q(1) pn(2,1), of ?t3 "?s5\<lparr>sys_log := lg\<rparr>"] by simp
  moreover have "heap_ok (?s5\<lparr>sys_log := lg\<rparr>) bs'" using k2(3) by (simp add: heap_ok_def heap_rel_def)
  moreover have "\<forall>x\<in>used_memory bs. ?m x = mem s x" using keep sub by auto
  moreover have "ready_queue s \<noteq> p" using pn(2) by auto
  ultimately show ?thesis
    using run st q by (intro exI [of _ "?s5\<lparr>sys_log := lg\<rparr>"] exI [of _ p] exI [of _ ?t3] exI [of _ bs']) (simp add: new_task_def l_def)
qed

definition proc_example :: fds where
  "proc_example = fds_example\<lparr>blocks := blocks heap_used_1, free_bins := free_bins heap_used_1, heap_start := heap_start heap_used_1, sys_log := [],
     mem := (\<lambda>_. 0)(0x5001 := 0x60, 0x6000 := byte_of (CHR ''l''), 0x6001 := byte_of (CHR ''s'')),
     tasks := [0x1000001C \<mapsto> (task_example 5 0x1000001C TASK_RUNNING)\<lparr>fd_table := [-1, -1, -1, 0, 1, 2, -1, -1, -1, -1, -1, -1, -1, -1, -1, -1]\<rparr>],
     current_task := 0x1000001C, ready_queue := 0x1000001C\<rparr>"

lemma proc_example_can:
  "can_create proc_example (a_alloc HEAP_START 64 initial_blocks) []
     ((task_example 5 0x1000001C TASK_RUNNING)\<lparr>fd_table := [-1, -1, -1, 0, 1, 2, -1, -1, -1, -1, -1, -1, -1, -1, -1, -1]\<rparr>)"
proof -
  let ?bs = "a_alloc HEAP_START 64 initial_blocks"
  have "heap_ok proc_example ?bs" using heap_used_1_ok(2) by (simp add: proc_example_def heap_ok_def heap_rel_def)
  moreover have "room ?bs 1049200"
    unfolding room_def by (intro exI [of _ "HEAP_START + sizeof_block + 64"] exI [of _ "HEAP_SIZE - sizeof_block - 64 - sizeof_block"])
      (simp add: a_alloc_def initial_blocks_def alloc_parts_def layout_simps)
  moreover have "allocated_at ?bs 0x1000001C" unfolding allocated_at_def using heap_used_1_block by (intro exI [of _ HEAP_START] exI [of _ 64]) (auto simp: layout_simps)
  moreover have "raw_task proc_example = (\<lambda>_. task_example 0 0 TASK_DEAD)" "tasks_need_cleanup proc_example = False"
    by (simp_all add: proc_example_def fds_example_def vfs.defs fds.defs input.defs tasking.defs vga.defs tasking_example_def)
  moreover have "fd_valid proc_example f" if "f \<in> {-1, 0, 1, 2}" for f
    using that by (auto simp: fd_valid_def proc_example_def kfile_example_def)
  moreover have "ring proc_example [0x1000001C]" by (simp add: ring_def proc_example_def task_example_def)
  ultimately show ?thesis by (simp add: can_create_def proc_example_def task_example_def MAX_FDS_def)
qed

theorem create_process_starts_witness:
  "\<exists>s' p t. create_process 0x60000000 1 0x5000 (Some ''ls'') 0 (-1) 4 proc_example = Some (8, s') \<and> ring s' [0x1000001C, p] \<and> tasks s' p = Some t \<and>
     enters_with (mem s') (t_esp t) 0x60000000 0x102000 [''ls''] \<and> map refcount (open_files s') = [2, 4, 2] \<and>
     map_option pd_readers (pipes s' 0x300000) = Some 2 \<and> map_option pd_writers (pipes s' 0x300000) = Some 4"
proof -
  let ?bs = "a_alloc HEAP_START 64 initial_blocks"
  have wf: "heap_wf ?bs" using heap_used_1_ok(2) by (simp add: heap_ok_def)
  have used: "unat x < 0x10000000 \<Longrightarrow> x \<in> used_memory ?bs" for x
    using heap_wf_block(1) [OF wf] by (fastforce simp: used_memory_def outside_def layout_simps)
  have l: "load32 (mem proc_example) 0x5000 = 0x6000" by (simp add: load32_def proc_example_def)
  have c: "c_string (mem proc_example) 0x6000 ''ls''" by (simp add: c_string_Cons c_string_Nil byte_of_0 proc_example_def)
  have "unat ((0x6000 :: u32) + of_nat k) = 0x6000 + k" "unat ((0x5000 :: u32) + of_nat k) = 0x5000 + k" if "k < 10" for k
    using that unat_add_of_nat32 [of "0x6000" k] unat_add_of_nat32 [of "0x5000" k] by simp_all
  then have args: "args_at (mem proc_example) 0x5000 [''ls''] (used_memory ?bs)" using l c used by (simp add: args_at_def)
  have e: "next_pid proc_example = 8" "exit_process_entry proc_example = 0x102000" "ready_queue proc_example = 0x1000001C" "open_files proc_example = open_files fds_example"
    by (simp_all add: proc_example_def fds_example_def vfs.defs fds.defs input.defs tasking.defs vga.defs tasking_example_def)
  have sn: "stack_need [''ls''] + 52 \<le> 1048576" by (simp add: stack_need_def args_size_def)
  let ?l = "[-1, 1, 1, 0, 1, 2, -1, -1, -1, -1, -1, -1, -1, -1, -1, -1] :: int list"
  have re: "redirects (-1)" "redirects 4" by (simp_all add: redirects_def MAX_FDS_def)
  from create_process_starts [OF proc_example_can args _ _ sn _ re, of "''ls''" "0x60000000" 0] obtain s' p t where
    "create_process 0x60000000 1 0x5000 (Some ''ls'') 0 (-1) 4 proc_example = Some (8, s')" "ring s' [0x1000001C, p]" "tasks s' p = Some t"
    "enters_with (mem s') (t_esp t) 0x60000000 0x102000 [''ls'']"
    "open_files s' = tallied (table_count ?l) (open_files fds_example)" "pipes s' = pipes_tallied (table_count ?l) (open_files fds_example) (pipes proc_example)"
    unfolding e by (auto simp: child_table_def)
  moreover have "pipes proc_example = [0x300000 \<mapsto> empty_pipe]" by (simp add: proc_example_def)
  ultimately show ?thesis
    by (intro exI [of _ s'] exI [of _ p] exI [of _ t])
      (simp add: tallied_def pipes_tallied_def ends_tally_def table_count_def kfile_example_def empty_pipe_def O_RDONLY_def O_WRONLY_def upt_conv_Cons)
qed

end
