(* ===== verification/Sbrk_Props.thy ===== *)
theory Sbrk_Props
  imports Syscalls Elf_Props Create_Props Syscall_Props
begin

text \<open>
  The system call \<^verbatim>\<open>sbrk\<close>: the heap of a program grows by pages of zeros, and nothing else of its address space changes.
\<close>

section \<open>What the heap and the page tables may change\<close>

definition grow_frame :: "'z paging_scheme \<Rightarrow> 'z paging_scheme \<Rightarrow> bool" where
  "grow_frame s s' \<longleftrightarrow> s' = s\<lparr>mem := mem s', blocks := blocks s', free_bins := free_bins s', invlpgs := invlpgs s'\<rparr>"

lemma kmalloc_a_grow:
  assumes "heap_ok s bs" and "unat k + 4100 \<le> 0xFFFFFFFC" and "kmalloc_a k s = Some (a, s')"
  shows "grow_frame s s'"
proof (rule kmalloc_a_spec [OF assms(1,2)])
  fix p n a' t assume "kmalloc_a k s = Some (a', t)" "heap_frame (s\<lparr>mem := mem t\<rparr>) t"
  then have "s' = t" "t = s\<lparr>mem := mem t, blocks := blocks t, free_bins := free_bins t\<rparr>" using assms(3) by (simp_all add: heap_frame_def)
  then show ?thesis unfolding grow_frame_def by (metis (no_types, lifting) paging.surjective paging.update_convs(5))
qed (use assms(3) in \<open>simp add: grow_frame_def\<close>)

lemma grow_frame_trans: "grow_frame s t \<Longrightarrow> grow_frame t u \<Longrightarrow> grow_frame s u"
  by (cases s; cases t; cases u) (auto simp: grow_frame_def)

lemma grow_frame_mem: "grow_frame s (s\<lparr>mem := m\<rparr>)" "grow_frame s (s\<lparr>mem := m, invlpgs := l\<rparr>)" "grow_frame s s"
  by (simp_all add: grow_frame_def)

lemma paging_map_user_grow:
  assumes "heap_ok s bs" and "paging_map_user dir phys virt flags s = Some s'"
  shows "grow_frame s s'"
proof -
  obtain t s1 where t: "get_table (dir + 4 * pd_index virt) s = Some (t, s1)"
    "s' = s1 \<or> (\<exists>m l. s' = s1\<lparr>mem := m, invlpgs := l\<rparr>)"
    using assms(2) by (auto simp: paging_map_user_def bind_eq_Some_conv Let_def split: if_splits)
  have "grow_frame s s1"
  proof (cases "load32 (mem s) (dir + 4 * pd_index virt) AND 1 = 0")
    case True
    then obtain s2 m where s2: "kmalloc_a 4096 s = Some (t, s2)" "s1 = s2\<lparr>mem := m\<rparr>"
      using t(1) by (auto simp: get_table_def bind_eq_Some_conv Let_def)
    have "grow_frame s s2" by (rule kmalloc_a_grow [OF assms(1) _ s2(1)]) simp
    then show ?thesis unfolding s2(2) by (rule grow_frame_trans [OF _ grow_frame_mem(1)])
  qed (use t(1) in \<open>simp add: get_table_def grow_frame_mem\<close>)
  then show ?thesis using t(2) grow_frame_trans grow_frame_mem by blast
qed

lemma grow_frame_tasks:
  assumes "grow_frame s s'"
  shows "tasks s' = tasks s" "current_task s' = current_task s" "alloc_nodes s' = alloc_nodes s"
proof -
  note e = assms [unfolded grow_frame_def]
  show "tasks s' = tasks s" by (subst e) simp
  show "current_task s' = current_task s" by (subst e) simp
  show "alloc_nodes s' = alloc_nodes s" by (subst e) simp
qed

section \<open>One page\<close>

text \<open>A zeroed page in a new block, apart from the page tables.\<close>

lemma zeroed_page:
  fixes s :: "'z paging_scheme"
  assumes hok: "heap_ok s bs" and dok: "dir_ok bs (mem s) pd" and rm: "room bs 8196"
  obtains phys s1 p k l where "kmalloc_a 4096 s = Some (phys, s1)" "phys \<noteq> NULL" "grow_frame s s1" "(p, k, True) \<in> set bs" "8196 \<le> k"
    "heap_ok (s1\<lparr>mem := fast_memset (mem s1) phys 0 1024\<rparr>) (a_alloc p 8196 bs)" "dir_ok (a_alloc p 8196 bs) (fast_memset (mem s1) phys 0 1024) pd"
    "page phys" "unat phys + 4096 < 4294967296"
    "secluded (a_alloc p 8196 bs) (fast_memset (mem s1) phys 0 1024) pd p l"
    "\<And>x. unat phys \<le> unat x \<Longrightarrow> unat x < unat phys + 4096 \<Longrightarrow> in_block p l x \<and> fast_memset (mem s1) phys 0 1024 x = 0"
    "\<And>v. translate (fast_memset (mem s1) phys 0 1024) pd v = translate (mem s) pd v"
    "\<And>i. i < 1024 \<Longrightarrow> pde (fast_memset (mem s1) phys 0 1024) pd i = pde (mem s) pd i"
    "\<And>q j. secluded bs (mem s) pd q j \<Longrightarrow> secluded (a_alloc p 8196 bs) (fast_memset (mem s1) phys 0 1024) pd q j \<and>
       (\<forall>x. in_block q j x \<longrightarrow> fast_memset (mem s1) phys 0 1024 x = mem s x)"
proof -
  have wf: "heap_wf bs" using hok by (simp add: heap_ok_def)
  have rs: "round_size (4096 + 4096 + 4) = (8196 :: u32)" by (simp add: round_size_def)
  obtain phys s1 where run: "kmalloc_a 4096 s = Some (phys, s1)" "phys \<noteq> NULL"
    using kmalloc_a_room [OF hok, of 4096] rm rs by auto
  obtain p k where a: "(p, k, True) \<in> set bs" "8196 \<le> k" "heap_ok s1 (a_alloc p 8196 bs)" "page phys" "unat p + 32 \<le> unat phys"
      "unat phys + 4096 \<le> unat p + 28 + 8196" "unat p + 28 + unat k \<le> HEAP_END" "unat phys + 4096 \<le> unat p + 28 + unat k"
    and mem1: "\<And>x. unat x < unat p \<or> unat p + 28 + unat k \<le> unat x \<Longrightarrow> mem s1 x = mem s x"
    by (rule image_block [OF hok _ _ run]) (use rs in simp_all)
  let ?m = "fast_memset (mem s1) phys 0 1024" and ?bs = "a_alloc p 8196 bs"
  have lim: "unat phys + 4096 < 4294967296" using a(7,8) by (simp add: HEAP_END_def layout_simps)
  have set0: "?m x = (if unat phys \<le> unat x \<and> unat x < unat phys + 4096 then 0 else mem s1 x)" for x
    using fast_memset_zero [of phys 1024 "mem s1" x] lim by simp
  have out: "?m x = mem s x" if "unat x < unat p \<or> unat p + 28 + unat k \<le> unat x" for x
    using that set0 [of x] mem1 [of x] a(5,8) by auto
  have live: "?m x = mem s x" if "live_page bs t" "unat t \<le> unat x" "unat x < unat t + 4096" for t x
    using live_page_off [OF wf that(1) a(1)] that(2,3) by (intro out) auto
  have dir: "dir_ok bs ?m pd" by (rule dir_mem_cong(1) [OF dok]) (rule live)
  have tr: "translate ?m pd v = translate (mem s) pd v" for v by (rule dir_mem_cong(2) [OF dok]) (rule live)
  have pd: "pde ?m pd i = pde (mem s) pd i" if "i < 1024" for i by (rule dir_mem_cong(3) [OF dok _ that]) (rule live)
  have dok2: "dir_ok ?bs ?m pd" by (rule dir_ok_alloc [OF wf a(1,2) dir])
  obtain l where l: "8196 \<le> l" "l \<le> k" and used: "\<And>q j. (q, j, False) \<in> set ?bs \<longleftrightarrow> (q, j, False) \<in> set bs \<or> q = p \<and> j = l"
    by (rule a_alloc_used [OF wf a(1,2)]) blast
  have ul: "8196 \<le> unat l" "unat l \<le> unat k" using l by (simp_all add: word_le_nat_alt)
  have off: "off_block p l t" if "live_page bs t" for t using live_page_off [OF wf that a(1)] ul(2) by (auto simp: off_block_def)
  have same: "has_table ?m pd i = has_table (mem s) pd i" "table_of ?m pd i = table_of (mem s) pd i" if "i < 1024" for i
    using pd [OF that] by (simp_all add: has_table_def table_of_def)
  have sec: "secluded ?bs ?m pd p l" using used off dir by (auto simp: secluded_def dir_ok_def)
  have keep: "secluded ?bs ?m pd q j \<and> (\<forall>x. in_block q j x \<longrightarrow> ?m x = mem s x)" if q: "secluded bs (mem s) pd q j" for q j
  proof -
    have qj: "(q, j, False) \<in> set bs" using q by (simp add: secluded_def)
    have "p \<noteq> q" using eq_key_imp_eq_value [OF heap_wf_distinct [OF wf] a(1)] qj by fastforce
    from block_ranges_disjoint [OF wf a(1) qj this] have "\<forall>x. in_block q j x \<longrightarrow> ?m x = mem s x"
      by (auto simp: in_block_def intro!: out)
    then show ?thesis using q used same by (auto simp: secluded_def)
  qed
  have "heap_ok (s1\<lparr>mem := ?m\<rparr>) ?bs" using a(3) by (simp add: heap_ok_def heap_rel_def)
  moreover have "in_block p l x \<and> ?m x = 0" if "unat phys \<le> unat x" "unat x < unat phys + 4096" for x
    using that set0 [of x] a(5,6) ul by (auto simp: in_block_def)
  moreover have "grow_frame s s1" by (rule kmalloc_a_grow [OF hok _ run(1)]) simp
  ultimately show ?thesis using that [OF run _ a(1,2) _ dok2 a(4) lim sec _ tr pd keep] by blast
qed

lemma secluded_alloc:
  assumes "heap_wf bs" and "(p, n, True) \<in> set bs" and "k \<le> n" and "secluded bs m pd q j"
  shows "secluded (a_alloc p k bs) m pd q j"
proof -
  obtain l where "\<And>q j. (q, j, False) \<in> set (a_alloc p k bs) \<longleftrightarrow> (q, j, False) \<in> set bs \<or> q = p \<and> j = l"
    by (rule a_alloc_used [OF assms(1-3)]) blast
  then show ?thesis using assms(4) by (simp add: secluded_def)
qed

text \<open>What one or more pages at \<open>virt\<close> did to the address space \<open>pd\<close>.\<close>

definition fresh_at :: "'z kernel_scheme \<Rightarrow> ablock list \<Rightarrow> u32 \<Rightarrow> u32 \<Rightarrow> bool" where
  "fresh_at s bs pd a \<longleftrightarrow> (\<forall>q j. secluded bs (mem s) pd q j \<longrightarrow> \<not> in_block q j a)"

definition grown :: "'z kernel_scheme \<Rightarrow> ablock list \<Rightarrow> 'z kernel_scheme \<Rightarrow> ablock list \<Rightarrow> u32 \<Rightarrow> u32 \<Rightarrow> nat \<Rightarrow> bool" where
  "grown s bs s' bs' pd virt n \<longleftrightarrow> heap_ok s' bs' \<and> dir_ok bs' (mem s') pd \<and>
     (\<forall>v. if unat virt \<le> unat v \<and> unat v < unat virt + 4096 * n
        then \<exists>a q j. translate (mem s') pd v = Some a \<and> mem s' a = 0 \<and> in_block q j a \<and> secluded bs' (mem s') pd q j \<and> fresh_at s bs pd a
        else translate (mem s') pd v = translate (mem s) pd v) \<and>
     (\<forall>q j. secluded bs (mem s) pd q j \<longrightarrow> secluded bs' (mem s') pd q j \<and> (\<forall>x. in_block q j x \<longrightarrow> mem s' x = mem s x)) \<and>
     (\<exists>nd. current_task s' = current_task s \<and>
        tasks s' = (tasks s)(current_task s := map_option (\<lambda>t. t\<lparr>allocations := nd\<rparr>) (tasks s (current_task s))))"

lemma tracked:
  fixes s :: "'z tasking_scheme"
  assumes hok: "heap_ok s bs" and dok: "dir_ok bs (mem s) pd" and c: "task \<noteq> NULL" "tasks s task = Some t" and phys: "phys \<noteq> NULL" and rm: "room bs (36 + r)" "17 \<le> r"
  obtains s' bs' nd where "track_allocation_a task phys s = Some s'" "heap_ok s' bs'" "dir_ok bs' (mem s') pd" "mem s' = mem s" "room bs' r"
    "\<And>q j. secluded bs (mem s) pd q j \<Longrightarrow> secluded bs' (mem s') pd q j" "current_task s' = current_task s" "tasks s' = (tasks s)(task \<mapsto> t\<lparr>allocations := nd\<rparr>)"
proof -
  have wf: "heap_wf bs" using hok by (simp add: heap_ok_def)
  have rs: "round_size 8 = (8 :: u32)" by (simp add: round_size_def)
  have rm8: "room bs (unat (round_size 8))" using room_mono [OF rm(1), of 8] rs by simp
  obtain p n B F where k: "kmalloc 8 s = Some (p + sizeof_block, s\<lparr>blocks := B, free_bins := F\<rparr>)" "p + sizeof_block \<noteq> NULL" "(p, n, True) \<in> set bs"
    "round_size 8 \<le> n" "heap_ok (s\<lparr>blocks := B, free_bins := F\<rparr>) (a_alloc p (round_size 8) bs)"
    by (rule kmalloc_room [OF hok rm8])
  let ?nd = "p + sizeof_block" and ?bs = "a_alloc p 8 bs"
  let ?s = "s\<lparr>blocks := B, free_bins := F, alloc_nodes := (alloc_nodes s)(?nd \<mapsto> \<lparr>an_ptr = phys OR 1, an_next = allocations t\<rparr>),
      tasks := (tasks s)(task \<mapsto> t\<lparr>allocations := ?nd\<rparr>)\<rparr>"
  have "track_allocation_a task phys s = Some ?s"
    using k(1,2) c phys by (simp add: track_allocation_a_def track_ptr_def get_task_def upd_task_def)
  moreover have "heap_ok ?s ?bs" using k(5) unfolding rs by (simp add: heap_ok_def heap_rel_def)
  moreover have "dir_ok ?bs (mem ?s) pd" using dir_ok_alloc [OF wf k(3) _ dok, of 8] k(4) rs by simp
  moreover have "room ?bs r" using room_alloc [OF wf k(3), of 8 r] rm by simp
  moreover have "secluded ?bs (mem ?s) pd q j" if "secluded bs (mem s) pd q j" for q j
    using secluded_alloc [OF wf k(3) _ that, of 8] k(4) rs by simp
  ultimately show ?thesis using that [of ?s ?bs ?nd] by simp
qed

lemma sbrk_page:
  fixes s :: "'z kernel_scheme"
  assumes hok: "heap_ok s bs" and dok: "dir_ok bs (mem s) pd" and c: "current_task s \<noteq> NULL" "tasks s (current_task s) = Some t" "page_dir t = pd"
    and virt: "page virt"
    and small: "pde (mem s) pd (unat (pd_index virt)) AND 1 \<noteq> 0 \<Longrightarrow> pde (mem s) pd (unat (pd_index virt)) AND 0x80 = 0"
    and rm: "room bs (8260 + (if pde (mem s) pd (unat (pd_index virt)) AND 1 = 0 then 8224 else 0) + r)" "17 \<le> r"
  obtains s' bs' where "\<And>n. sbrk_pages (Suc n) virt s = sbrk_pages n (virt + 4096) s'" "grown s bs s' bs' pd virt 1" "room bs' r"
    "has_table (mem s') pd (unat (pd_index virt))" "\<And>k. k < 1024 \<Longrightarrow> k \<noteq> unat (pd_index virt) \<Longrightarrow> pde (mem s') pd k = pde (mem s) pd k"
proof -
  let ?i = "unat (pd_index virt)" and ?b = "pde (mem s) pd (unat (pd_index virt)) AND 1 = 0"
  have wf: "heap_wf bs" using hok by (simp add: heap_ok_def)
  have rm0: "room bs 8196" using rm(1) by (rule room_mono) simp
  obtain phys s1 p k l where z: "kmalloc_a 4096 s = Some (phys, s1)" "phys \<noteq> NULL" "grow_frame s s1" "(p, k, True) \<in> set bs" "8196 \<le> k"
    "heap_ok (s1\<lparr>mem := fast_memset (mem s1) phys 0 1024\<rparr>) (a_alloc p 8196 bs)" "dir_ok (a_alloc p 8196 bs) (fast_memset (mem s1) phys 0 1024) pd"
    "page phys" "unat phys + 4096 < 4294967296" "secluded (a_alloc p 8196 bs) (fast_memset (mem s1) phys 0 1024) pd p l"
    and zero: "\<And>x. unat phys \<le> unat x \<Longrightarrow> unat x < unat phys + 4096 \<Longrightarrow> in_block p l x \<and> fast_memset (mem s1) phys 0 1024 x = 0"
    and tr1: "\<And>v. translate (fast_memset (mem s1) phys 0 1024) pd v = translate (mem s) pd v"
    and pd1: "\<And>i. i < 1024 \<Longrightarrow> pde (fast_memset (mem s1) phys 0 1024) pd i = pde (mem s) pd i"
    and keep1: "\<And>q j. secluded bs (mem s) pd q j \<Longrightarrow> secluded (a_alloc p 8196 bs) (fast_memset (mem s1) phys 0 1024) pd q j \<and>
       (\<forall>x. in_block q j x \<longrightarrow> fast_memset (mem s1) phys 0 1024 x = mem s x)"
    by (rule zeroed_page [OF hok dok rm0]) (rule that)
  define s2 where "s2 = s1\<lparr>mem := fast_memset (mem s1) phys 0 1024\<rparr>"
  let ?bs = "a_alloc p 8196 bs"
  have m2: "mem s2 = fast_memset (mem s1) phys 0 1024" by (simp add: s2_def)
  note z2 = z(6,7,10) [folded s2_def m2] and zero2 = zero [folded m2] and tr2 = tr1 [folded m2] and pd2 = pd1 [folded m2] and keep2 = keep1 [folded m2]
  have rm1: "room ?bs (36 + (if ?b then 8224 else 0) + r)"
    using room_alloc [OF wf z(4), of 8196 "36 + (if ?b then 8224 else 0) + r"] rm by (simp add: add.assoc)
  have i: "?i < 1024" by (rule pd_index_less)
  have wf2: "heap_wf ?bs" using z2(1) by (simp add: heap_ok_def)
  have mk: "\<exists>a s'. kmalloc_a 4096 s2 = Some (a, s') \<and> a \<noteq> NULL" if ?b
  proof (rule kmalloc_a_room [OF z2(1)])
    show "room ?bs (unat (round_size (4096 + 4096 + 4)))" using rm1 that by (auto simp: round_size_def intro: room_mono)
  qed simp
  have fl: "unat (7 :: u32) < 4096" by simp
  obtain s3 bs3 where m: "paging_map_user pd phys virt 7 s2 = Some s3" "heap_ok s3 bs3" "dir_ok bs3 (mem s3) pd"
    and tr3: "\<And>v. translate (mem s3) pd v = (if pd_index v = pd_index virt \<and> pt_index v = pt_index virt
      then Some ((phys AND 0xFFFFF000) OR (v AND 0xFFF)) else translate (mem s2) pd v)"
    and bs3: "bs3 = ?bs \<and> pde (mem s2) pd ?i AND 1 \<noteq> 0 \<or> one_table ?bs bs3 \<and> pde (mem s2) pd ?i AND 1 = 0"
    and has: "has_table (mem s3) pd ?i"
    and others: "\<And>k. k < 1024 \<Longrightarrow> k \<noteq> ?i \<Longrightarrow> pde (mem s3) pd k = pde (mem s2) pd k"
    and keep3: "\<And>q j. secluded ?bs (mem s2) pd q j \<Longrightarrow> secluded bs3 (mem s3) pd q j \<and> (\<forall>x. in_block q j x \<longrightarrow> mem s3 x = mem s2 x)"
    by (rule paging_map_user_ok [OF z2(1,2) fl, of virt phys]) (use small mk pd2 [OF i] in auto)
  have rm3: "room bs3 (36 + r)" using bs3
  proof
    assume "one_table ?bs bs3 \<and> pde (mem s2) pd ?i AND 1 = 0"
    then obtain p' k' where p': "(p', k', True) \<in> set ?bs" "bs3 = a_alloc p' 8196 ?bs" and b: ?b using pd2 [OF i] by (auto simp: one_table_def)
    have "room ?bs (unat (8196 :: u32) + 28 + (36 + r))" using rm1 b by (auto intro: room_mono)
    then show ?thesis unfolding p'(2) by (rule room_alloc [OF wf2 p'(1)]) (use rm(2) in simp)
  qed (use rm1 in \<open>auto intro: room_mono\<close>)
  have fr: "grow_frame s s3"
    using grow_frame_trans [OF z(3) grow_frame_trans [OF grow_frame_mem(1) paging_map_user_grow [OF z2(1) m(1), unfolded s2_def]]] .
  note ts = grow_frame_tasks [OF fr]
  have c3: "tasks s3 (current_task s) = Some t" using c ts by simp
  obtain s4 bs4 nd where t4: "track_allocation_a (current_task s) phys s3 = Some s4" "heap_ok s4 bs4" "dir_ok bs4 (mem s4) pd" "mem s4 = mem s3" "room bs4 r"
    and keep4: "\<And>q j. secluded bs3 (mem s3) pd q j \<Longrightarrow> secluded bs4 (mem s4) pd q j"
    and ts4: "current_task s4 = current_task s3" "tasks s4 = (tasks s3)(current_task s \<mapsto> t\<lparr>allocations := nd\<rparr>)"
    by (rule tracked [OF m(2,3) c(1) c3 z(2) rm3 rm(2)]) (rule that)
  have s2t: "tasks s2 = tasks s" "current_task s2 = current_task s" using grow_frame_tasks [OF z(3)] by (simp_all add: s2_def)
  have run: "sbrk_pages (Suc n) virt s = sbrk_pages n (virt + 4096) s4" for n
    using z(1,2) m(1) t4(1) c s2t ts grow_frame_tasks [OF z(3)] by (simp add: s2_def [symmetric] get_task_def)
  have keep: "secluded bs4 (mem s4) pd q j \<and> (\<forall>x. in_block q j x \<longrightarrow> mem s4 x = mem s x)" if "secluded bs (mem s) pd q j" for q j
    using keep2 [OF that] keep3 [of q j] keep4 [of q j] t4(4) by simp
  have fresh: "fresh_at s bs pd x" if "in_block p l x" for x
  proof -
    have "\<not> in_block q j x" if q: "secluded bs (mem s) pd q j" for q j
    proof -
      have m: "(p, l, False) \<in> set ?bs" "(q, j, False) \<in> set ?bs" using z2(3) keep2 [OF q] by (simp_all add: secluded_def)
      have "p \<noteq> q" using eq_key_imp_eq_value [OF heap_wf_distinct [OF wf] z(4), of "(j, False)"] q by (auto simp: secluded_def)
      from block_ranges_disjoint [OF wf2 m this] show ?thesis using \<open>in_block p l x\<close> by (auto simp: in_block_def)
    qed
    then show ?thesis by (simp add: fresh_at_def)
  qed
  have page: "\<exists>a q j. translate (mem s4) pd v = Some a \<and> mem s4 a = 0 \<and> in_block q j a \<and> secluded bs4 (mem s4) pd q j \<and> fresh_at s bs pd a"
    if v: "unat virt \<le> unat v" "unat v < unat virt + 4096" for v
  proof -
    have "translate (mem s4) pd v = Some (phys + (v - virt))"
      using tr3 [of v] same_page [OF virt, of v] frame_offset [OF z(8) virt v] v t4(4) by simp
    moreover have "unat (phys + (v - virt)) = unat phys + (unat v - unat virt)"
      using v z(9) unat_sub32 [OF v(1)] by (subst unat_add_no_wrap32) auto
    then have "in_block p l (phys + (v - virt))" "mem s2 (phys + (v - virt)) = 0" using zero2 [of "phys + (v - virt)"] v by auto
    moreover have "fresh_at s bs pd (phys + (v - virt))" by (rule fresh [OF calculation(2)])
    ultimately show ?thesis using keep3 [OF z2(3)] keep4 [of p l] t4(4) by metis
  qed
  have "translate (mem s4) pd v = translate (mem s) pd v" if "\<not> (unat virt \<le> unat v \<and> unat v < unat virt + 4096)" for v
    using tr3 [of v] tr2 [of v] same_page [OF virt, of v] that t4(4) by auto
  then have "grown s bs s4 bs4 pd virt 1"
    using t4(2,3) page keep ts4 ts c(2) unfolding grown_def by auto
  then show ?thesis using that [of s4 bs4] run t4(4,5) has others pd2 by simp
qed

section \<open>Many pages\<close>

lemma grown_0: "heap_ok s bs \<Longrightarrow> dir_ok bs (mem s) pd \<Longrightarrow> grown s bs s bs pd virt 0"
  unfolding grown_def
  by (intro conjI exI [of _ "case tasks s (current_task s) of Some t \<Rightarrow> allocations t | None \<Rightarrow> 0"]) (auto split: option.split intro!: ext)

lemma grown_trans:
  assumes a: "grown s bs s1 bs1 pd virt 1" and b: "grown s1 bs1 s2 bs2 pd (virt + 4096) n" and v: "unat (virt + 4096) = unat virt + 4096"
  shows "grown s bs s2 bs2 pd virt (Suc n)"
proof -
  have keep: "secluded bs2 (mem s2) pd q j \<and> (\<forall>x. in_block q j x \<longrightarrow> mem s2 x = mem s x)" if "secluded bs (mem s) pd q j" for q j
    using a b that unfolding grown_def by metis
  have second: "if unat (virt + 4096) \<le> unat w \<and> unat w < unat (virt + 4096) + 4096 * n
      then \<exists>a q j. translate (mem s2) pd w = Some a \<and> mem s2 a = 0 \<and> in_block q j a \<and> secluded bs2 (mem s2) pd q j \<and> fresh_at s bs pd a
      else translate (mem s2) pd w = translate (mem s1) pd w" for w
  proof -
    have "fresh_at s1 bs1 pd a \<Longrightarrow> fresh_at s bs pd a" for a using a unfolding fresh_at_def grown_def by blast
    then show ?thesis using b unfolding grown_def by (metis (no_types, lifting))
  qed
  have tr: "if unat virt \<le> unat w \<and> unat w < unat virt + 4096 * Suc n
      then \<exists>a q j. translate (mem s2) pd w = Some a \<and> mem s2 a = 0 \<and> in_block q j a \<and> secluded bs2 (mem s2) pd q j \<and> fresh_at s bs pd a
      else translate (mem s2) pd w = translate (mem s) pd w" for w
  proof (cases "unat virt \<le> unat w \<and> unat w < unat virt + 4096")
    case True
    then obtain x q j where x: "translate (mem s1) pd w = Some x" "mem s1 x = 0" "in_block q j x" "secluded bs1 (mem s1) pd q j" "fresh_at s bs pd x"
      using a unfolding grown_def by (metis mult.right_neutral)
    have "translate (mem s2) pd w = translate (mem s1) pd w" using second [of w] True v by simp
    moreover have "mem s2 x = 0" "secluded bs2 (mem s2) pd q j" using b x(2-4) unfolding grown_def by metis+
    ultimately show ?thesis using x(1,3,5) True by auto
  next
    case False
    have f: "translate (mem s1) pd w = translate (mem s) pd w" using a False unfolding grown_def by (metis mult.right_neutral)
    show ?thesis
    proof (cases "unat (virt + 4096) \<le> unat w \<and> unat w < unat (virt + 4096) + 4096 * n")
      case True
      moreover have "unat virt \<le> unat w \<and> unat w < unat virt + 4096 * Suc n" using True v by auto
      ultimately show ?thesis using second [of w] by simp
    next
      case out: False
      then have "translate (mem s2) pd w = translate (mem s1) pd w" using second [of w] by simp
      moreover have "\<not> (unat virt \<le> unat w \<and> unat w < unat virt + 4096 * Suc n)" using out False v by auto
      ultimately show ?thesis using f by auto
    qed
  qed
  obtain nd nd' where "current_task s1 = current_task s" "tasks s1 = (tasks s)(current_task s := map_option (\<lambda>t. t\<lparr>allocations := nd\<rparr>) (tasks s (current_task s)))"
    "current_task s2 = current_task s1" "tasks s2 = (tasks s1)(current_task s1 := map_option (\<lambda>t. t\<lparr>allocations := nd'\<rparr>) (tasks s1 (current_task s1)))"
    using a b unfolding grown_def by blast
  then have "current_task s2 = current_task s \<and> tasks s2 = (tasks s)(current_task s := map_option (\<lambda>t. t\<lparr>allocations := nd'\<rparr>) (tasks s (current_task s)))"
    by (simp add: option.map_comp comp_def)
  then show ?thesis using b keep tr unfolding grown_def by blast
qed

lemma sbrk_pages_ok:
  fixes s :: "'z kernel_scheme"
  assumes "heap_ok s bs" and "dir_ok bs (mem s) pd" and "current_task s \<noteq> NULL" and "tasks s (current_task s) = Some t" and "page_dir t = pd"
    and "page virt" and "unat virt + 4096 * n < 4294967296" and "no_big (mem s) pd (unat virt) (unat virt + 4096 * n)"
    and "room bs (8260 * n + 8224 * card (absent (mem s) pd (unat virt) (unat virt + 4096 * n)) + 17)"
  shows "\<exists>s' bs'. sbrk_pages n virt s = Some (True, s') \<and> grown s bs s' bs' pd virt n"
  using assms
proof (induction n arbitrary: s bs t virt)
  case 0
  then show ?case using grown_0 [of s bs pd virt] by auto
next
  case (Suc n)
  let ?i = "unat (pd_index virt)" and ?c = "\<lambda>m lo n. card (absent m pd lo (lo + 4096 * n))"
  have virt: "page (virt + 4096)" "unat (virt + 4096) = unat virt + 4096"
    using page_next [OF Suc.prems(6)] Suc.prems(7) by auto
  have small: "pde (mem s) pd ?i AND 1 \<noteq> 0 \<Longrightarrow> pde (mem s) pd ?i AND 0x80 = 0" using Suc.prems(8) by (auto simp: no_big_def)
  let ?b = "if pde (mem s) pd ?i AND 1 = 0 then 1 else 0 :: nat"
  have i: "?b \<le> ?c (mem s) (unat virt) (Suc n)"
    using absent_first [of virt "mem s" pd n] by (auto simp: card_gt_0_iff Suc_le_eq)
  let ?r = "8260 * n + 8224 * (?c (mem s) (unat virt) (Suc n) - ?b) + 17"
  have rm: "room bs (8260 + (if pde (mem s) pd ?i AND 1 = 0 then 8224 else 0) + ?r)"
    by (rule room_mono [OF Suc.prems(9)]) (use i in auto)
  have r17: "17 \<le> ?r" by simp
  obtain s1 bs1 where one: "\<And>n. sbrk_pages (Suc n) virt s = sbrk_pages n (virt + 4096) s1" "grown s bs s1 bs1 pd virt 1" "room bs1 ?r"
    and has: "has_table (mem s1) pd ?i" and others: "\<And>k. k < 1024 \<Longrightarrow> k \<noteq> ?i \<Longrightarrow> pde (mem s1) pd k = pde (mem s) pd k"
    by (rule sbrk_page [OF Suc.prems(1-6) small rm r17]) (assumption, rule that)
  have oth: "\<forall>k<1024. k \<noteq> ?i \<longrightarrow> pde (mem s1) pd k = pde (mem s) pd k" using others by blast
  note nx = tables_next [OF virt(2) has oth, of n]
  have rm1: "room bs1 (8260 * n + 8224 * ?c (mem s1) (unat (virt + 4096)) n + 17)"
    by (rule room_mono [OF one(3)]) (use nx(2) in auto)
  obtain nd where t1: "current_task s1 = current_task s" "tasks s1 (current_task s1) = Some (t\<lparr>allocations := nd\<rparr>)"
    using one(2) Suc.prems(4) unfolding grown_def by auto
  obtain s2 bs2 where two: "sbrk_pages n (virt + 4096) s1 = Some (True, s2)" "grown s1 bs1 s2 bs2 pd (virt + 4096) n"
    using Suc.IH [of s1 bs1 "t\<lparr>allocations := nd\<rparr>" "virt + 4096"] one(2) t1 Suc.prems(3,5,7) virt nx(1) [OF Suc.prems(8)] rm1
    unfolding grown_def by auto
  show ?case using one(1) two(1) grown_trans [OF one(2) two(2) virt(2)] by auto
qed

section \<open>The call\<close>

text \<open>A write into a block that holds no page of the directory.\<close>

lemma secluded_write:
  assumes dok: "dir_ok bs m pd" and q: "secluded bs m pd q j" and eq: "\<And>x. \<not> in_block q j x \<Longrightarrow> m' x = m x"
  shows "dir_ok bs m' pd" "translate m' pd v = translate m pd v" "secluded bs m pd q' j' \<Longrightarrow> secluded bs m' pd q' j'" "i < 1024 \<Longrightarrow> pde m' pd i = pde m pd i"
proof -
  have l: "live_page bs pd" using dok by (simp add: dir_ok_def)
  have same: "m' x = m x" if "off_block q j t" "unat t \<le> unat x" "unat x < unat t + 4096" for t x
    using that by (intro eq) (auto simp: off_block_def in_block_def)
  have pde: "pde m' pd i = pde m pd i" if "i < 1024" for i
    unfolding pde_def by (rule page_load_cong [OF live_page_page [OF l] that]) (use q same [of pd] in \<open>auto simp: secluded_def\<close>)
  then have t: "has_table m' pd i = has_table m pd i" "table_of m' pd i = table_of m pd i" if "i < 1024" for i
    using that by (simp_all add: has_table_def table_of_def)
  then show "dir_ok bs m' pd" "secluded bs m pd q' j' \<Longrightarrow> secluded bs m' pd q' j'" "i < 1024 \<Longrightarrow> pde m' pd i = pde m pd i"
    using dok pde by (auto simp: dir_ok_def secluded_def)
  let ?i = "unat (pd_index v)"
  have "load32 m' (table_of m pd ?i + 4 * pt_index v) = load32 m (table_of m pd ?i + 4 * pt_index v)" if h: "has_table m pd ?i"
  proof -
    have lt: "live_page bs (table_of m pd ?i)" "off_block q j (table_of m pd ?i)"
      using dok q h pd_index_less [of v] by (auto simp: dir_ok_def secluded_def)
    from page_load_cong [OF live_page_page [OF lt(1)] pt_index_less [of v], of m' m] same [OF lt(2)] show ?thesis by simp
  qed
  then show "translate m' pd v = translate m pd v" using translate_cong [OF pde [OF pd_index_less] refl] by blast
qed

lemma page_count:
  assumes "page a" and "page b" and "unat a \<le> unat b"
  shows "4096 * (if a < b then unat ((b - a) div 4096) else 0) = unat b - unat a"
proof -
  obtain i j where ij: "unat a = 4096 * i" "unat b = 4096 * j" using assms(1,2) by (auto simp: page_unat)
  have "unat (b - a) = 4096 * j - 4096 * i" using unat_sub32 [OF assms(3)] ij by simp
  then have "4096 * unat ((b - a) div 4096) = unat b - unat a" using ij by (simp add: unat_div flip: diff_mult_distrib2)
  then show ?thesis using assms(3) by (auto simp: word_less_nat_alt)
qed

lemma page_round_mono:
  assumes "unat a \<le> unat b" and "unat b \<le> 0xFFFFF000"
  shows "unat (page_round a) \<le> unat (page_round b)"
proof -
  have u: "unat (a + 4095) = unat a + 4095" "unat (b + 4095) = unat b + 4095"
    using unat_add_no_wrap32 [of a 4095] unat_add_no_wrap32 [of b 4095] assms by auto
  show ?thesis
    unfolding page_round_def not_4095 unat_align_down u minus_mod_eq_mult_div using assms(1) by (intro mult_left_mono div_le_mono) auto
qed

text \<open>
  C9. \<^verbatim>\<open>sbrk\<close> grows the heap of a program. For a positive increment that keeps the break below the last page, and with
  room for the pages, for their tables and for the nodes that track them, the call returns the old break and moves it by the increment; every page
  between the two, rounded up, reads as zeros, every other address of the program translates as before, and the contents of all
  allocated blocks that hold no page tables stay, except for the register with the result.
\<close>

theorem sys_sbrk_grows:
  fixes s :: "'z kernel_scheme"
  assumes pd_def: "pd = page_dir t" and lo_def: "lo = page_round (t_heap_end t)" and hi_def: "hi = page_round (t_heap_end t + reg_ebx regs s)"
    and hok: "heap_ok s bs" and dok: "dir_ok bs (mem s) pd" and cur: "current_task s \<noteq> NULL" "tasks s (current_task s) = Some t"
    and incr: "reg_ebx regs s \<noteq> 0" "unat (t_heap_end t) + unat (reg_ebx regs s) \<le> 0xFFFFF000"
    and regs: "secluded bs (mem s) pd q j" "unat q + 28 \<le> unat regs" "unat regs + 32 \<le> unat q + 28 + unat j"
    and small: "no_big (mem s) pd (unat lo) (unat hi)"
    and rm: "room bs (8260 * ((unat hi - unat lo) div 4096) + 8224 * card (absent (mem s) pd (unat lo) (unat hi)) + 17)"
  shows "\<exists>s' bs' t'. sys_sbrk regs s = Some s' \<and> heap_ok s' bs' \<and> dir_ok bs' (mem s') pd \<and> reg_eax regs s' = t_heap_end t \<and>
    tasks s' (current_task s') = Some t' \<and> page_dir t' = pd \<and> t_heap_end t' = t_heap_end t + reg_ebx regs s \<and>
    (\<forall>v. if unat lo \<le> unat v \<and> unat v < unat hi then \<exists>a. translate (mem s') pd v = Some a \<and> mem s' a = 0
       else translate (mem s') pd v = translate (mem s) pd v) \<and>
    (\<forall>q j x. secluded bs (mem s) pd q j \<longrightarrow> in_block q j x \<longrightarrow> \<not> (unat regs + 28 \<le> unat x \<and> unat x < unat regs + 32) \<longrightarrow> mem s' x = mem s x)"
proof -
  have wf: "heap_wf bs" using hok by (simp add: heap_ok_def)
  let ?new = "t_heap_end t + reg_ebx regs s"
  have new: "unat ?new = unat (t_heap_end t) + unat (reg_ebx regs s)" using incr(2) by (subst unat_add_no_wrap32) auto
  have pg: "page lo" "page hi" "unat hi \<le> 0xFFFFF000"
    unfolding lo_def hi_def using page_round_unat [of "t_heap_end t"] page_round_unat [of ?new] incr(2) new by simp_all
  have le: "unat lo \<le> unat hi" unfolding lo_def hi_def using incr(2) new by (intro page_round_mono) simp_all
  define n where "n = (if lo < hi then unat ((hi - lo) div 4096) else 0)"
  have n: "unat lo + 4096 * n = unat hi" using page_count [OF pg(1,2) le] le by (simp add: n_def)
  then have n': "(unat hi - unat lo) div 4096 = n" by (metis add_diff_cancel_left' nonzero_mult_div_cancel_left zero_neq_numeral)
  obtain s1 bs1 where run: "sbrk_pages n lo s = Some (True, s1)" and g: "grown s bs s1 bs1 pd lo n"
    using sbrk_pages_ok [OF hok dok cur pd_def [symmetric] pg(1), of n] small rm pg(3) unfolding n n' by auto
  obtain nd where t1: "current_task s1 = current_task s" "tasks s1 (current_task s) = Some (t\<lparr>allocations := nd\<rparr>)"
    using g cur(2) unfolding grown_def by auto
  define m where "m = store32 (mem s1) (regs + 28) (t_heap_end t)"
  let ?s = "s1\<lparr>tasks := (tasks s1)(current_task s \<mapsto> t\<lparr>allocations := nd, t_heap_end := ?new\<rparr>), mem := m\<rparr>"
  have fin: "sys_sbrk regs s = Some ?s"
    using cur incr(1) run t1 unfolding n_def lo_def hi_def by (simp add: sys_sbrk_def get_task_def upd_task_def Let_def set_eax_def m_def)
  have q: "secluded bs1 (mem s1) pd q j" "\<And>q j x. secluded bs (mem s) pd q j \<Longrightarrow> in_block q j x \<Longrightarrow> mem s1 x = mem s x"
    using g regs(1) unfolding grown_def by blast+
  have qlim: "unat q + 28 + unat j \<le> HEAP_END" using regs(1) heap_wf_block(2) [OF wf, of q j False] by (simp add: secluded_def)
  have r28: "unat (regs + 28) = unat regs + 28"
    using regs(3) qlim unat_add_no_wrap32 [of regs 28] by (simp add: HEAP_END_def layout_simps)
  have mo: "m x = mem s1 x" if "\<not> (unat regs + 28 \<le> unat x \<and> unat x < unat regs + 32)" for x
    unfolding m_def using that r28 regs(3) qlim by (intro store32_other_nat) (auto simp: HEAP_END_def layout_simps)
  have out: "m x = mem s1 x" if "\<not> in_block q j x" for x
    using that regs(2,3) by (intro mo) (auto simp: in_block_def)
  have d1: "dir_ok bs1 (mem s1) pd" using g by (simp add: grown_def)
  note w = secluded_write [OF d1 q(1) out]
  have "if unat lo \<le> unat v \<and> unat v < unat hi then \<exists>a. translate m pd v = Some a \<and> m a = 0
       else translate m pd v = translate (mem s) pd v" for v
  proof (cases "unat lo \<le> unat v \<and> unat v < unat hi")
    case True
    then obtain a where "translate (mem s1) pd v = Some a" "mem s1 a = 0" "fresh_at s bs pd a"
      using g unfolding grown_def n by metis
    then show ?thesis using w(2) [of v] out [of a] regs(1) True by (auto simp: fresh_at_def)
  next
    case False
    then show ?thesis using w(2) [of v] g unfolding grown_def n by metis
  qed
  then have tr: "\<forall>v. if unat lo \<le> unat v \<and> unat v < unat hi then \<exists>a. translate (mem ?s) pd v = Some a \<and> mem ?s a = 0
       else translate (mem ?s) pd v = translate (mem s) pd v" by simp
  have keep: "\<forall>q j x. secluded bs (mem s) pd q j \<longrightarrow> in_block q j x \<longrightarrow> \<not> (unat regs + 28 \<le> unat x \<and> unat x < unat regs + 32) \<longrightarrow> mem ?s x = mem s x"
    using mo q(2) by simp
  have "heap_ok ?s bs1" using g by (simp add: grown_def heap_ok_def heap_rel_def)
  moreover have "reg_eax regs ?s = t_heap_end t" by (simp add: reg_eax_def m_def)
  moreover have "dir_ok bs1 (mem ?s) pd" using w(1) by simp
  moreover have "tasks ?s (current_task ?s) = Some (t\<lparr>allocations := nd, t_heap_end := ?new\<rparr>)" using t1(1) by simp
  moreover have "page_dir (t\<lparr>allocations := nd, t_heap_end := ?new\<rparr>) = pd" "t_heap_end (t\<lparr>allocations := nd, t_heap_end := ?new\<rparr>) = ?new"
    by (simp_all add: pd_def)
  ultimately show ?thesis using fin tr keep by blast
qed

text \<open>A program with a break at \<open>0x60000010\<close> that asks for \<open>0x1000\<close> bytes; its registers are at \<open>0x10002040\<close>.\<close>

abbreviation sbrk_task :: task where
  "sbrk_task \<equiv> (task_example 5 0x1000 TASK_RUNNING)\<lparr>page_dir := kernel_dir paging_booted, t_heap_end := 0x60000010\<rparr>"

definition sbrk_machine :: "(u32 \<rightharpoonup> memory_block) \<Rightarrow> u32 list \<Rightarrow> kernel" where
  "sbrk_machine B F = kernel_example\<lparr>blocks := B, free_bins := F, heap_start := heap_start paging_booted,
     mem := store32 (mem paging_booted) 0x10002050 0x1000, tasks := [0x1000 \<mapsto> sbrk_task]\<rparr>"

definition sbrk_blocks :: "ablock list" where
  "sbrk_blocks = a_alloc (HEAP_START + sizeof_block + 8196) 64 paged_blocks"

lemma sbrk_blocks_sets:
  "(p, n, True) \<in> set paged_blocks \<Longrightarrow> p = 0x10002020" "(0x10002020, 64, False) \<in> set sbrk_blocks" "room sbrk_blocks 100000"
proof -
  have e: "paged_blocks = [(HEAP_START, 8196, False), (0x10002020, HEAP_SIZE - sizeof_block - 8196 - sizeof_block, True)]"
    by (simp add: paged_blocks_def a_alloc_def initial_blocks_def alloc_parts_def layout_simps)
  have f: "sbrk_blocks = [(HEAP_START, 8196, False), (0x10002020, 64, False), (0x1000207C, HEAP_SIZE - sizeof_block - 8196 - sizeof_block - 64 - sizeof_block, True)]"
    unfolding sbrk_blocks_def e by (simp add: a_alloc_def alloc_parts_def layout_simps)
  show "(p, n, True) \<in> set paged_blocks \<Longrightarrow> p = 0x10002020" "(0x10002020, 64, False) \<in> set sbrk_blocks"
    unfolding e f by (auto simp: layout_simps)
  show "room sbrk_blocks 100000"
    unfolding room_def f by (intro exI [of _ "0x1000207C"] exI [of _ "HEAP_SIZE - sizeof_block - 8196 - sizeof_block - 64 - sizeof_block"])
      (simp add: layout_simps)
qed

lemma sbrk_machine_ok:
  obtains B F where "heap_ok (sbrk_machine B F) sbrk_blocks"
proof -
  have "room paged_blocks 100"
    unfolding room_def by (intro exI [of _ "HEAP_START + sizeof_block + 8196"] exI [of _ "HEAP_SIZE - sizeof_block - 8196 - sizeof_block"])
      (simp add: paged_blocks_def a_alloc_def initial_blocks_def alloc_parts_def layout_simps)
  then have rm: "room paged_blocks (unat (round_size 64))" by (auto simp: round_size_def intro: room_mono)
  obtain p n B F where a: "(p, n, True) \<in> set paged_blocks" "heap_ok (paging_booted\<lparr>blocks := B, free_bins := F\<rparr>) (a_alloc p (round_size 64) paged_blocks)"
    by (rule kmalloc_room [OF paging_booted_ok(2) rm])
  have "a_alloc p (round_size 64) paged_blocks = sbrk_blocks"
    using sbrk_blocks_sets(1) [OF a(1)] by (simp add: sbrk_blocks_def round_size_def layout_simps)
  then have "heap_ok (sbrk_machine B F) sbrk_blocks" using a(2) by (simp add: sbrk_machine_def heap_ok_def heap_rel_def)
  then show ?thesis by (rule that)
qed

lemma sbrk_machine_dir:
  "dir_ok sbrk_blocks (mem (sbrk_machine B F)) (kernel_dir paging_booted)"
  "secluded sbrk_blocks (mem (sbrk_machine B F)) (kernel_dir paging_booted) 0x10002020 64"
  "i < 1024 \<Longrightarrow> pde (mem (sbrk_machine B F)) (kernel_dir paging_booted) i = (if i < 321 \<or> i = 1012 then big_pde i else 2)"
proof -
  let ?pd = "kernel_dir paging_booted"
  have free: "(HEAP_START + sizeof_block + 8196, HEAP_SIZE - sizeof_block - 8196 - sizeof_block, True) \<in> set paged_blocks"
    by (simp add: paged_blocks_def a_alloc_def initial_blocks_def alloc_parts_def layout_simps)
  have wf: "heap_wf paged_blocks" using paging_booted_ok(2) by (simp add: heap_ok_def)
  have dok: "dir_ok sbrk_blocks (mem paging_booted) ?pd"
    unfolding sbrk_blocks_def by (rule dir_ok_alloc [OF wf free _ paging_booted_ok(3)]) (simp add: layout_simps)
  have "live_page paged_blocks ?pd" using paging_booted_ok(3) by (simp add: dir_ok_def)
  from live_page_off [OF wf this free] have off: "off_block 0x10002020 64 ?pd" by (auto simp: off_block_def layout_simps)
  have "\<not> has_table (mem paging_booted) ?pd i" if "i < 1024" for i
    using paging_booted_ok(4) [OF that] big_pde_bits(2) [of i] that by (simp add: has_table_def)
  then have sec: "secluded sbrk_blocks (mem paging_booted) ?pd 0x10002020 64" using off sbrk_blocks_sets(2) by (simp add: secluded_def)
  have out: "mem (sbrk_machine B F) x = mem paging_booted x" if "\<not> in_block 0x10002020 64 x" for x
    using that by (auto simp: sbrk_machine_def in_block_def intro!: store32_other_nat)
  note w = secluded_write [OF dok sec out]
  show "dir_ok sbrk_blocks (mem (sbrk_machine B F)) ?pd" by (rule w(1))
  show "secluded sbrk_blocks (mem (sbrk_machine B F)) ?pd 0x10002020 64" by (rule w(3)) (use sec in auto)
  show "i < 1024 \<Longrightarrow> pde (mem (sbrk_machine B F)) ?pd i = (if i < 321 \<or> i = 1012 then big_pde i else 2)"
    using w(4) [of i] paging_booted_ok(4) [of i] by simp
qed

theorem sys_sbrk_grows_witness:
  "\<exists>B F s' a. sys_sbrk 0x10002040 (sbrk_machine B F) = Some s' \<and> reg_eax 0x10002040 s' = 0x60000010 \<and>
     translate (mem s') (kernel_dir paging_booted) 0x60001234 = Some a \<and> mem s' a = 0"
proof -
  let ?pd = "kernel_dir paging_booted"
  obtain B F where h: "heap_ok (sbrk_machine B F) sbrk_blocks" by (rule sbrk_machine_ok)
  let ?s = "sbrk_machine B F"
  have t: "current_task ?s \<noteq> NULL" "tasks ?s (current_task ?s) = Some sbrk_task" by (simp_all add: sbrk_machine_def)
  have e: "reg_ebx 0x10002040 ?s = 0x1000" by (simp add: reg_ebx_def sbrk_machine_def)
  have r: "page_round 0x60000010 = 0x60001000" "page_round 0x60001010 = 0x60002000" by (simp_all add: page_round_def)
  have i: "unat (pd_index v) = 384" if "unat (0x60001000 :: u32) \<le> unat v" "unat v < unat (0x60002000 :: u32)" for v
    using that by (simp add: pd_index_unat div_nat_eqI)
  have nb: "no_big (mem ?s) ?pd (unat (0x60001000 :: u32)) (unat (0x60002000 :: u32))"
    using i sbrk_machine_dir(3) [of 384 B F] by (auto simp: no_big_def)
  have "absent (mem ?s) ?pd (unat (0x60001000 :: u32)) (unat (0x60002000 :: u32)) \<subseteq> {384}" using i by (auto simp: absent_def)
  then have "card (absent (mem ?s) ?pd (unat (0x60001000 :: u32)) (unat (0x60002000 :: u32))) \<le> 1"
    using card_mono [of "{384::nat}"] by fastforce
  then have rm: "room sbrk_blocks (8260 * ((unat (0x60002000 :: u32) - unat (0x60001000 :: u32)) div 4096) +
      8224 * card (absent (mem ?s) ?pd (unat (0x60001000 :: u32)) (unat (0x60002000 :: u32))) + 17)"
    by (intro room_mono [OF sbrk_blocks_sets(3)]) simp
  have lo: "0x60001000 = page_round (t_heap_end sbrk_task)" "0x60002000 = page_round (t_heap_end sbrk_task + reg_ebx 0x10002040 ?s)"
    using r e by simp_all
  have "?pd = page_dir sbrk_task" by simp
  from sys_sbrk_grows [OF this lo h sbrk_machine_dir(1) t _ _ sbrk_machine_dir(2) _ _ nb rm] e
  obtain s' where "sys_sbrk 0x10002040 ?s = Some s'" "reg_eax 0x10002040 s' = 0x60000010"
    "\<exists>a. translate (mem s') ?pd 0x60001234 = Some a \<and> mem s' a = 0"
    by (fastforce dest!: spec [of _ "0x60001234"])
  then show ?thesis by blast
qed

end
