(* ===== verification/Idt.thy ===== *)
theory Idt
  imports Syscalls
begin

text \<open>
  The interrupt descriptor table and the interrupt controllers: \<^verbatim>\<open>kernel/idt/idt.c\<close>. The addresses of the
  assembly entry points, of the table and of its pseudo-descriptor are those of the linked kernel: \<open>isr_addr\<close> and
  \<open>idt_addr\<close>; \<open>idtr\<close> is what \<^verbatim>\<open>lidt\<close> loaded.
\<close>

section \<open>State\<close>

record idt_entry =
  offset_low :: u16
  selector :: u16
  ie_zero :: u8
  type_attr :: u8
  offset_high :: u16

datatype isr = ignore_handler | system_division_handler | timer_handler | keyboard_handler | syscall_handler | mouse_handler
  | page_fault_handler | invalid_opcode_handler | rtl8139_irq_handler

record idts = kernel +
  idt :: "idt_entry list"
  idtr :: "u16 \<times> u32"
  idt_addr :: u32
  isr_addr :: "isr \<Rightarrow> u32"
  cr0 :: u32
  cr4 :: u32

section \<open>Operations\<close>

definition idt_set_gate :: "u8 \<Rightarrow> u32 \<Rightarrow> 'z idts_scheme \<Rightarrow> 'z idts_scheme" where
  "idt_set_gate num handler s =
     s\<lparr>idt := (idt s)[unat num := \<lparr>offset_low = ucast (handler AND 0xFFFF), selector = 0x08, ie_zero = 0, type_attr = 0x8E,
       offset_high = ucast (drop_bit 16 handler AND 0xFFFF)\<rparr>]\<rparr>"

definition idt_install :: "'z idts_scheme \<Rightarrow> 'z idts_scheme" where
  "idt_install s = (let s = fold (\<lambda>i s. idt_set_gate (of_nat i) (isr_addr s ignore_handler) s) [0..<256] s
     in s\<lparr>idtr := (256 * 8 - 1, idt_addr s)\<rparr>)"

definition idt_init :: "'z idts_scheme \<Rightarrow> 'z idts_scheme" where
  "idt_init s = fold (\<lambda>(num, h) s. idt_set_gate num (isr_addr s h) s)
     [(0, system_division_handler), (32, timer_handler), (33, keyboard_handler), (0x80, syscall_handler), (44, mouse_handler),
      (14, page_fault_handler), (6, invalid_opcode_handler), (43, rtl8139_irq_handler)] s"

text \<open>\<^verbatim>\<open>outb(port, inb(port) & ~mask)\<close>\<close>

definition unmask :: "u16 \<Rightarrow> u8 \<Rightarrow> 'z machine_scheme \<Rightarrow> 'z machine_scheme" where
  "unmask port irq_mask s = (let (v, s) = inb port s in outb port (v AND NOT irq_mask) s)"

definition pic_remap :: "'z machine_scheme \<Rightarrow> 'z machine_scheme" where
  "pic_remap s = (let s = fold (\<lambda>(port, v) s. outb port v s)
       [(0x20, 0x11), (0xA0, 0x11), (0x21, 32), (0xA1, 40), (0x21, 0x04), (0xA1, 0x02), (0x21, 0x01), (0xA1, 0x01), (0x21, 0xF8), (0xA1, 0xEF)] s
     in unmask 0xA1 8 (unmask 0x21 4 s))"

end
