(* ===== verification/Net.thy ===== *)
theory Net
  imports Idt
begin

text \<open>
  The network card and its interface to lwIP: \<^verbatim>\<open>drivers/net/rtl8139.c\<close> and \<^verbatim>\<open>drivers/net/ethernetif.c\<close>. The
  card masters the bus: whenever the driver looks at one of its registers, \<open>dma_env\<close> may have changed memory.
  lwIP is not part of the repository; the function \<open>input\<close> stands for what the stack does with a frame it
  gets, the answers of its other functions come from \<open>lwip_env\<close>.
\<close>

section \<open>State\<close>

datatype netif_flag = NETIF_FLAG_BROADCAST | NETIF_FLAG_ETHARP | NETIF_FLAG_LINK_UP

record netif =
  nif_name :: string
  nif_hwaddr :: "u8 list"
  nif_mtu :: u16
  nif_flags :: "netif_flag list"

record net = idts +
  rtl_io_base :: u16
  rtl_mac :: "u8 list"
  rx_buffer :: u32
  tx_cur :: u8
  rx_read_ptr :: u16
  rtl_tx_buffers :: "u32 list"
  rtl8139_netif :: netif

definition RTL_MAC0 :: u16 where "RTL_MAC0 = 0x00"
definition RTL_TX_STATUS0 :: u16 where "RTL_TX_STATUS0 = 0x10"
definition RTL_TX_ADDR0 :: u16 where "RTL_TX_ADDR0 = 0x20"
definition RTL_RX_BUF :: u16 where "RTL_RX_BUF = 0x30"
definition RTL_COMMAND :: u16 where "RTL_COMMAND = 0x37"
definition RTL_CAPR :: u16 where "RTL_CAPR = 0x38"
definition RTL_INTR_MASK :: u16 where "RTL_INTR_MASK = 0x3C"
definition RTL_INTR_STATUS :: u16 where "RTL_INTR_STATUS = 0x3E"
definition RTL_RX_CONFIG :: u16 where "RTL_RX_CONFIG = 0x44"
definition RTL_CONFIG_1 :: u16 where "RTL_CONFIG_1 = 0x52"
definition RTL_CMD_RESET :: u8 where "RTL_CMD_RESET = 0x10"
definition RTL_CMD_RX_EN :: u8 where "RTL_CMD_RX_EN = 0x08"
definition RTL_CMD_TX_EN :: u8 where "RTL_CMD_TX_EN = 0x04"
definition RTL_CMD_EMPTY :: u8 where "RTL_CMD_EMPTY = 0x01"
definition RX_BUF_SIZE :: u16 where "RX_BUF_SIZE = 32768"

text \<open>A register of the card is read; the card may have written memory before.\<close>

definition rtl_inb :: "u16 \<Rightarrow> 'z net_scheme \<Rightarrow> u8 \<times> 'z net_scheme" where
  "rtl_inb reg s = (let (v, s) = inb (rtl_io_base s + reg) s in (v, s\<lparr>mem := dma_env s (io_hist s) (mem s)\<rparr>))"

section \<open>Initialisation\<close>

fun rtl_find :: "(u8 \<times> u8 \<times> u8) list \<Rightarrow> 'z net_scheme \<Rightarrow> (u8 \<times> u8 \<times> u8) option \<times> 'z net_scheme" where
  "rtl_find [] s = (None, s)"
| "rtl_find ((bus, dev, func) # rest) s =
     (let (i, s) = pci_read bus dev func 0 s in
      if i AND 0xFFFF = 0xFFFF then rtl_find rest s
      else if i AND 0xFFFF = 0x10EC \<and> drop_bit 16 i AND 0xFFFF = 0x8139 then (Some (bus, dev, func), s)
      else rtl_find rest s)"

text \<open>A shift by 32 or more is undefined.\<close>

definition rtl_unmask :: "u8 \<Rightarrow> 'z net_scheme \<Rightarrow> 'z net_scheme option" where
  "rtl_unmask irq s =
     (if irq < 8 then Some (unmask 0x21 (push_bit (unat irq) 1) s)
      else if unat irq - 8 \<ge> 32 then None
      else Some (unmask 0x21 4 (unmask 0xA1 (push_bit (unat irq - 8) 1) s)))"

partial_function (option) rtl_reset_wait :: "'z net_scheme \<Rightarrow> 'z net_scheme option" where
  "rtl_reset_wait s = (let (c, s) = rtl_inb RTL_COMMAND s in if c AND RTL_CMD_RESET \<noteq> 0 then rtl_reset_wait s else Some s)"

fun alloc_tx :: "nat \<Rightarrow> 'z net_scheme \<Rightarrow> 'z net_scheme option" where
  "alloc_tx 0 s = Some s"
| "alloc_tx (Suc n) s = do {
     (p, s) \<leftarrow> kmalloc_a 2048 s;
     alloc_tx n (s\<lparr>rtl_tx_buffers := (rtl_tx_buffers s)[4 - Suc n := p], mem := fast_memset (mem s) p 0 512\<rparr>) }"

fun read_mac :: "nat list \<Rightarrow> 'z net_scheme \<Rightarrow> 'z net_scheme" where
  "read_mac [] s = s"
| "read_mac (i # is) s = (let (b, s) = rtl_inb (RTL_MAC0 + of_nat i) s in read_mac is (s\<lparr>rtl_mac := (rtl_mac s)[i := b]\<rparr>))"

definition rtl8139_init :: "'z net_scheme \<Rightarrow> 'z net_scheme option" where
  "rtl8139_init s = do {
     s \<leftarrow> klog ''[NET] Searching for RTL8139 network card...'' s;
     let (found, s) = rtl_find pci_slots s;
     case found of
       None \<Rightarrow> klog ''[NET] RTL8139 not found on PCI bus.'' s
     | Some (bus, dev, func) \<Rightarrow> do {
         let (bar0, s) = pci_read bus dev func 0x10 s;
         let s = s\<lparr>rtl_io_base := ucast (bar0 AND 0xFFFFFFFC)\<rparr>;
         let (line, s) = pci_read bus dev func 0x3C s;
         let irq = ucast (line AND 0xFF);
         let (pci_cmd, s) = pci_read bus dev func 0x04 s;
         let s = pci_write bus dev func 0x04 (pci_cmd OR 0x04) s;
         msg \<leftarrow> sprintf 64 ''[NET] RTL8139 found! I/O Base: 0x%x, IRQ: %d'' [ArgWord (ucast (rtl_io_base s)), ArgWord (ucast irq)];
         s \<leftarrow> klog msg s;
         s \<leftarrow> rtl_unmask irq (idt_set_gate (32 + irq) (isr_addr s rtl8139_irq_handler) s);
         let s = outb (rtl_io_base s + RTL_CONFIG_1) 0x00 s;
         s \<leftarrow> rtl_reset_wait (outb (rtl_io_base s + RTL_COMMAND) RTL_CMD_RESET s);
         (p, s) \<leftarrow> kmalloc_a (32768 + 16 + 1500) s;
         let s = s\<lparr>rx_buffer := p, mem := fast_memset (mem s) p 0 8571\<rparr>;
         s \<leftarrow> alloc_tx 4 (outl (rtl_io_base s + RTL_RX_BUF) (rx_buffer s) s);
         let s = outw (rtl_io_base s + RTL_INTR_MASK) 0x0005 s;
         let s = outl (rtl_io_base s + RTL_RX_CONFIG) (0x8F OR push_bit 11 2) s;
         let s = outb (rtl_io_base s + RTL_COMMAND) (RTL_CMD_RX_EN OR RTL_CMD_TX_EN) s;
         let s = read_mac [0..<6] s;
         mac_msg \<leftarrow> sprintf 128 ''[NET] MAC Address: %x:%x:%x:%x:%x:%x'' (map (\<lambda>b. ArgWord (ucast b)) (rtl_mac s));
         klog mac_msg s } }"

section \<open>Sending\<close>

partial_function (option) tx_wait :: "'z net_scheme \<Rightarrow> 'z net_scheme option" where
  "tx_wait s =
     (let (v, s) = inl (rtl_io_base s + RTL_TX_STATUS0 + ucast (tx_cur s) * 4) s in
      if v AND push_bit 13 1 = 0 then tx_wait s else Some s)"

definition rtl8139_send_packet :: "u32 \<Rightarrow> u32 \<Rightarrow> 'z net_scheme \<Rightarrow> 'z net_scheme option" where
  "rtl8139_send_packet data len s =
     (if rtl_io_base s = 0 then Some s
      else do {
        s \<leftarrow> tx_wait s;
        if unat (tx_cur s) \<ge> length (rtl_tx_buffers s) then None
        else do {
          let buf = rtl_tx_buffers s ! unat (tx_cur s);
          let s = s\<lparr>mem := fast_memcpy (mem s) buf data len\<rparr>;
          let s = outl (rtl_io_base s + RTL_TX_ADDR0 + ucast (tx_cur s) * 4) buf s;
          let s = outl (rtl_io_base s + RTL_TX_STATUS0 + ucast (tx_cur s) * 4) len s;
          let s = s\<lparr>tx_cur := tx_cur s + 1\<rparr>;
          Some (if tx_cur s > 3 then s\<lparr>tx_cur := 0\<rparr> else s) } })"

section \<open>Receiving\<close>

definition rx_advance :: "u16 \<Rightarrow> 'z net_scheme \<Rightarrow> 'z net_scheme" where
  "rx_advance packet_length s =
     (let p = ucast ((ucast (rx_read_ptr s) + ucast packet_length + 4 + 3 :: u32) AND NOT 3) :: u16;
          p = (if p \<ge> RX_BUF_SIZE then p - RX_BUF_SIZE else p);
          s = s\<lparr>rx_read_ptr := p\<rparr>
      in outw (rtl_io_base s + RTL_CAPR) (rx_read_ptr s - 16) s)"

partial_function (option) poll_loop :: "(u8 list \<Rightarrow> 'z net_scheme \<Rightarrow> 'z net_scheme) \<Rightarrow> 'z net_scheme \<Rightarrow> 'z net_scheme option" where
  "poll_loop input s =
     (let (c, s) = rtl_inb RTL_COMMAND s in
      if c AND RTL_CMD_EMPTY \<noteq> 0 then Some s
      else let rx_header = rx_buffer s + ucast (rx_read_ptr s);
               packet_status = load16 (mem s) rx_header; packet_length = load16 (mem s) (rx_header + 2)
        in if packet_status AND 1 \<noteq> 0 \<and> packet_length > 4 then
             (let data = read_bytes (mem s) (rx_header + 4) (unat (packet_length - 4));
                  (p, s) = lwip (Pbuf_alloc (packet_length - 4)) s
              in if p = 0 then Some s else poll_loop input (rx_advance packet_length (input data s)))
           else poll_loop input (rx_advance packet_length s))"

definition rtl8139_poll :: "(u8 list \<Rightarrow> 'z net_scheme \<Rightarrow> 'z net_scheme) \<Rightarrow> 'z net_scheme \<Rightarrow> 'z net_scheme option" where
  "rtl8139_poll input s = (if rtl_io_base s = 0 then Some s else poll_loop input s)"

definition rtl8139_handler_c :: "(u8 list \<Rightarrow> 'z net_scheme \<Rightarrow> 'z net_scheme) \<Rightarrow> 'z net_scheme \<Rightarrow> 'z net_scheme option" where
  "rtl8139_handler_c input s =
     (if rtl_io_base s = 0 then Some s
      else do {
        let (status, s) = inw (rtl_io_base s + RTL_INTR_STATUS) s;
        s \<leftarrow> (if status AND 0x01 \<noteq> 0 then rtl8139_poll input s else Some s);
        Some (outw (rtl_io_base s + RTL_INTR_STATUS) status s) })"

section \<open>The interface of lwIP\<close>

definition sys_arch_protect :: "'z heap_scheme \<Rightarrow> bool \<times> 'z heap_scheme" where
  "sys_arch_protect s = save_flags s"

definition sys_arch_unprotect :: "bool \<Rightarrow> 'z heap_scheme \<Rightarrow> 'z heap_scheme" where
  "sys_arch_unprotect pval s = restore_flags pval s"

definition sys_now :: "'z machine_scheme \<Rightarrow> u32" where
  "sys_now s = get_ticks s"

text \<open>
  \<open>buffer\<close> is the address of the local array of 1514 bytes, the packet buffers are pairs of payload and
  length. A frame longer than the array overruns it.
\<close>

fun gather :: "(u32 \<times> u16) list \<Rightarrow> u32 \<Rightarrow> u16 \<Rightarrow> (u32 \<Rightarrow> u8) \<Rightarrow> (u16 \<times> (u32 \<Rightarrow> u8)) option" where
  "gather [] buffer copied m = Some (copied, m)"
| "gather ((payload, len) # q) buffer copied m =
     (if unat copied + unat len > 1514 then None
      else gather q buffer (copied + len) (fast_memcpy m (buffer + ucast copied) payload (ucast len)))"

definition low_level_output :: "u32 \<Rightarrow> (u32 \<times> u16) list \<Rightarrow> 'z net_scheme \<Rightarrow> 'z net_scheme option" where
  "low_level_output buffer p s = do {
     (copied, m) \<leftarrow> gather p buffer 0 (mem s);
     let (copied, m) = (if copied < 60 then (60, fast_memset m (buffer + ucast copied) 0 (60 - unat copied)) else (copied, m));
     rtl8139_send_packet buffer (ucast copied) (s\<lparr>mem := m\<rparr>) }"

definition ethernetif_init :: "'z net_scheme \<Rightarrow> 'z net_scheme" where
  "ethernetif_init s = s\<lparr>rtl8139_netif := \<lparr>nif_name = ''en'', nif_hwaddr = take 6 (rtl_mac s), nif_mtu = 1500,
     nif_flags = [NETIF_FLAG_BROADCAST, NETIF_FLAG_ETHARP, NETIF_FLAG_LINK_UP]\<rparr>\<rparr>"

end
