(* ===== verification/Net_Props.thy ===== *)
theory Net_Props
  imports Net Syscall_Props
begin

text \<open>
  The receive ring of the network card. The card writes frames into the ring, each behind a header of status and
  length and at the next multiple of four, and reports an empty ring when the read pointer it was last told is its
  own write pointer. A poll hands every sound frame to lwIP, in the order of the ring, and nothing else.
\<close>

section \<open>The card\<close>

definition ring_next :: "nat \<Rightarrow> nat \<Rightarrow> nat" where
  "ring_next p n = ((p + n + 11) div 4 * 4) mod 32768"

text \<open>A frame of \<open>n\<close> bytes has four bytes of header and four of checksum, which its length counts.\<close>

definition frame_at :: "(u32 \<Rightarrow> u8) \<Rightarrow> u32 \<Rightarrow> bool \<Rightarrow> u8 list \<Rightarrow> bool" where
  "frame_at m a ok d \<longleftrightarrow> (load16 m a AND 1 \<noteq> 0 \<longleftrightarrow> ok) \<and> load16 m (a + 2) = of_nat (length d + 4) \<and> read_bytes m (a + 4) (length d) = d"

fun rx_frames :: "(u32 \<Rightarrow> u8) \<Rightarrow> u32 \<Rightarrow> nat \<Rightarrow> (bool \<times> u8 list) list \<Rightarrow> nat \<Rightarrow> bool" where
  "rx_frames m base p [] w \<longleftrightarrow> p = w"
| "rx_frames m base p ((ok, d) # fs) w \<longleftrightarrow>
     p \<noteq> w \<and> length d \<le> 1514 \<and> frame_at m (base + of_nat p) ok d \<and> rx_frames m base (ring_next p (length d)) fs w"

definition good_frames :: "(bool \<times> u8 list) list \<Rightarrow> u8 list list" where
  "good_frames fs = map snd (filter (\<lambda>(ok, d). ok \<and> d \<noteq> []) fs)"

text \<open>The last value written to the register \<open>CAPR\<close>; the card starts with \<open>-16\<close>.\<close>

fun capr :: "u16 \<Rightarrow> io_event list \<Rightarrow> u16" where
  "capr port [] = -16"
| "capr port (OutW q v # h) = (if q = port then v else capr port h)"
| "capr port (_ # h) = capr port h"

text \<open>The card has the frames up to \<open>w\<close> in its ring, and receives no more while the driver looks.\<close>

definition card_idle :: "nat \<Rightarrow> 'z net_scheme \<Rightarrow> bool" where
  "card_idle w s \<longleftrightarrow> (\<forall>h m. dma_env s h m = m) \<and>
     (\<forall>h. (ucast (io_env s (InB (rtl_io_base s + RTL_COMMAND) # h)) :: u8) AND RTL_CMD_EMPTY \<noteq> 0 \<longleftrightarrow>
        capr (rtl_io_base s + RTL_CAPR) h = of_nat w - 16)"

text \<open>
  What the driver relies on in lwIP: it does not touch the state of the driver, its registers of the ring, or the
  ring itself. \<open>delivered\<close> is what it has got.
\<close>

definition keeps_driver :: "(u8 list \<Rightarrow> 'z net_scheme \<Rightarrow> 'z net_scheme) \<Rightarrow> bool" where
  "keeps_driver input \<longleftrightarrow> (\<forall>d s. rtl_io_base (input d s) = rtl_io_base s \<and> rx_buffer (input d s) = rx_buffer s \<and>
     rx_read_ptr (input d s) = rx_read_ptr s \<and> io_env (input d s) = io_env s \<and> dma_env (input d s) = dma_env s \<and>
     lwip_env (input d s) = lwip_env s \<and> (\<forall>port. capr port (io_hist (input d s)) = capr port (io_hist s)) \<and>
     (\<forall>k<34284. mem (input d s) (rx_buffer s + of_nat k) = mem s (rx_buffer s + of_nat k)))"

definition collects :: "(u8 list \<Rightarrow> 'z net_scheme \<Rightarrow> 'z net_scheme) \<Rightarrow> ('z \<Rightarrow> u8 list list) \<Rightarrow> bool" where
  "collects input delivered \<longleftrightarrow> (\<forall>d s. delivered (net.more (input d s)) = delivered (net.more s) @ [d])"

section \<open>The ring\<close>

lemma ring_next_bounds: "ring_next p n < 32768" "4 dvd ring_next p n"
  by (simp_all add: ring_next_def dvd_mod)

lemma frame_at_cong:
  assumes "\<And>k. k < 34284 \<Longrightarrow> m' (base + of_nat k) = m (base + of_nat k)" and "p < 32768" and "4 dvd p" and "length d \<le> 1514"
  shows "frame_at m' (base + of_nat p) ok d = frame_at m (base + of_nat p) ok d"
proof -
  have p: "p \<le> 32764" using assms(2,3) by presburger
  have e: "m' (base + of_nat p + of_nat i) = m (base + of_nat p + of_nat i)" if "i < length d + 4" for i
    using assms(1) [of "p + i"] that p assms(4) by (simp add: ac_simps)
  have "load16 m' (base + of_nat p) = load16 m (base + of_nat p)"
    using e [of 0] e [of 1] by (simp add: load16_def)
  moreover have "load16 m' (base + of_nat p + 2) = load16 m (base + of_nat p + 2)"
    using e [of 2] e [of 3] by (simp add: load16_def ac_simps)
  moreover have "read_bytes m' (base + of_nat p + 4) (length d) = read_bytes m (base + of_nat p + 4) (length d)"
    using e [of "4 + i" for i] by (simp add: read_bytes_def ac_simps)
  ultimately show ?thesis by (simp add: frame_at_def)
qed

lemma rx_frames_cong:
  assumes "\<And>k. k < 34284 \<Longrightarrow> m' (base + of_nat k) = m (base + of_nat k)" and "p < 32768" and "4 dvd p"
  shows "rx_frames m' base p fs w = rx_frames m base p fs w"
  using assms(2,3)
proof (induction fs arbitrary: p)
  case (Cons f fs)
  then show ?case using frame_at_cong [of m' base m p "snd f" "fst f"] assms(1) ring_next_bounds by (cases f) auto
qed simp

lemma ring_wrap:
  assumes "x < 65536"
  shows "(if (of_nat x :: u16) \<ge> RX_BUF_SIZE then of_nat x - RX_BUF_SIZE else of_nat x :: u16) = of_nat (x mod 32768)"
proof (cases "x \<ge> 32768")
  case True
  then have "x mod 32768 = x - 32768" using assms by (simp add: le_mod_geq)
  moreover have "(of_nat x :: u16) \<ge> RX_BUF_SIZE" using True assms by (simp add: RX_BUF_SIZE_def word_le_nat_alt unat_of_nat)
  ultimately show ?thesis using True by (simp add: RX_BUF_SIZE_def of_nat_diff)
next
  case False
  then show ?thesis using assms by (simp add: RX_BUF_SIZE_def word_le_nat_alt unat_of_nat)
qed

lemma rx_advance_eq:
  assumes "p < 32768" and "n \<le> 1514" and "rx_read_ptr s = of_nat p"
  shows "rx_advance (of_nat (n + 4)) s =
     outw (rtl_io_base s + RTL_CAPR) (of_nat (ring_next p n) - 16) (s\<lparr>rx_read_ptr := of_nat (ring_next p n)\<rparr>)"
proof -
  let ?x = "(p + n + 11) div 4 * 4"
  have x: "?x < 65536" using assms by simp
  have "unat ((ucast (of_nat p :: u16) :: u32) + ucast (of_nat (n + 4) :: u16) + 4 + 3) = p + n + 11"
    using assms by (simp add: unat_word_ariths unsigned_ucast_eq take_bit_nat_eq_self unat_of_nat)
  then have a: "(ucast (of_nat p :: u16) :: u32) + ucast (of_nat (n + 4) :: u16) + 4 + 3 = of_nat (p + n + 11)"
    using assms by (simp add: word_eq_iff_unat32 unat_of_nat32 del: of_nat_add)
  have b: "(of_nat (p + n + 11) :: u32) AND NOT 3 = of_nat ?x"
  proof -
    have m: "(3 :: u32) = mask 2" by (simp add: mask_eq_exp_minus_1)
    have "p + n + 11 < 4294967296" "?x < 4294967296" using assms by simp_all
    then show ?thesis
      unfolding m word_eq_iff_unat32 unat_align_down using unat_of_nat32 minus_mod_eq_div_mult [of "p + n + 11" 4] by (simp del: of_nat_add of_nat_mult)
  qed
  have c: "(ucast (of_nat ?x :: u32) :: u16) = of_nat ?x" using x by (simp add: word_unat_eq_iff unat_of_nat unsigned_ucast_eq take_bit_nat_eq_self del: of_nat_mult)
  have d: "(if (of_nat ?x :: u16) \<ge> RX_BUF_SIZE then of_nat ?x - RX_BUF_SIZE else of_nat ?x :: u16) = of_nat (ring_next p n)"
    using ring_wrap [OF x] by (simp only: ring_next_def)
  show ?thesis unfolding rx_advance_def assms(3) a b c d Let_def by simp
qed

section \<open>Polling\<close>

text \<open>The state in which the driver has looked for a frame.\<close>

abbreviation (input) looked :: "'z net_scheme \<Rightarrow> 'z net_scheme" where
  "looked s \<equiv> snd (rtl_inb RTL_COMMAND s)"

lemma looked_fields:
  assumes "card_idle w s"
  shows "looked s = s\<lparr>io_hist := InB (rtl_io_base s + RTL_COMMAND) # io_hist s\<rparr>"
  using assms by (simp add: rtl_inb_def inb_def card_idle_def Let_def)

definition take_frame :: "(u8 list \<Rightarrow> 'z net_scheme \<Rightarrow> 'z net_scheme) \<Rightarrow> bool \<Rightarrow> u8 list \<Rightarrow> 'z net_scheme \<Rightarrow> 'z net_scheme" where
  "take_frame input ok d s = (if ok \<and> d \<noteq> [] then input d (snd (lwip (Pbuf_alloc (of_nat (length d))) s)) else s)"

text \<open>lwIP has no buffer for the frame.\<close>

definition no_pbuf :: "bool \<Rightarrow> u8 list \<Rightarrow> 'z fds_scheme \<Rightarrow> bool" where
  "no_pbuf ok d s \<longleftrightarrow> ok \<and> d \<noteq> [] \<and> lwip_env s (lwip_hist s @ [Pbuf_alloc (of_nat (length d))]) = 0"

lemma poll_loop_empty:
  assumes "card_idle w s" and "capr (rtl_io_base s + RTL_CAPR) (io_hist s) = of_nat w - 16"
  shows "poll_loop input s = Some (looked s)"
  using assms by (subst poll_loop.simps) (auto simp: rtl_inb_def inb_def card_idle_def Let_def)

lemma poll_loop_frame:
  assumes "card_idle w s" and "capr (rtl_io_base s + RTL_CAPR) (io_hist s) \<noteq> of_nat w - 16"
    and "frame_at (mem s) (rx_buffer s + ucast (rx_read_ptr s)) ok d" and "length d \<le> 1514"
  shows "\<not> no_pbuf ok d s \<Longrightarrow> poll_loop input s = poll_loop input (rx_advance (of_nat (length d + 4)) (take_frame input ok d (looked s)))"
    "no_pbuf ok d s \<Longrightarrow> poll_loop input s = Some (snd (lwip (Pbuf_alloc (of_nat (length d))) (looked s)))"
proof -
  have "unat (of_nat (length d + 4) :: u16) = length d + 4" using assms(4) by (simp add: unat_of_nat del: of_nat_add)
  then have l: "(of_nat (length d + 4) :: u16) > 4 \<longleftrightarrow> d \<noteq> []" "unat (of_nat (length d + 4) - 4 :: u16) = length d"
    using assms(4) by (simp_all add: word_less_nat_alt unat_of_nat)
  have c: "(of_nat (length d + 4) - 4 :: u16) = of_nat (length d)" by simp
  note defs = rtl_inb_def inb_def card_idle_def Let_def lwip_def c no_pbuf_def
  show "poll_loop input s = poll_loop input (rx_advance (of_nat (length d + 4)) (take_frame input ok d (looked s)))" if "\<not> no_pbuf ok d s"
    using that assms l unfolding frame_at_def looked_fields [OF assms(1)] take_frame_def
    by (subst poll_loop.simps) (auto simp: defs)
  show "poll_loop input s = Some (snd (lwip (Pbuf_alloc (of_nat (length d))) (looked s)))" if "no_pbuf ok d s"
    using that assms l unfolding frame_at_def looked_fields [OF assms(1)]
    by (subst poll_loop.simps) (simp add: defs)
qed

lemma take_frame_fields:
  assumes "keeps_driver input"
  shows "rtl_io_base (take_frame input ok d s) = rtl_io_base s" "rx_buffer (take_frame input ok d s) = rx_buffer s"
    "rx_read_ptr (take_frame input ok d s) = rx_read_ptr s" "io_env (take_frame input ok d s) = io_env s"
    "dma_env (take_frame input ok d s) = dma_env s" "lwip_env (take_frame input ok d s) = lwip_env s"
    "capr port (io_hist (take_frame input ok d s)) = capr port (io_hist s)"
    "k < 34284 \<Longrightarrow> mem (take_frame input ok d s) (rx_buffer s + of_nat k) = mem s (rx_buffer s + of_nat k)"
proof -
  have l: "rx_buffer (snd (lwip c s)) = rx_buffer s" "mem (snd (lwip c s)) = mem s" for c by (simp_all add: lwip_def Let_def)
  have k: "k < 34284 \<Longrightarrow> mem (input d t) (rx_buffer t + of_nat k) = mem t (rx_buffer t + of_nat k)" for t
    using assms by (simp add: keeps_driver_def)
  then show "k < 34284 \<Longrightarrow> mem (take_frame input ok d s) (rx_buffer s + of_nat k) = mem s (rx_buffer s + of_nat k)"
    using k [of "snd (lwip (Pbuf_alloc (of_nat (length d))) s)"] by (simp add: l take_frame_def)
qed (use assms in \<open>simp add: keeps_driver_def take_frame_def lwip_def Let_def\<close>)+

lemma take_frame_delivered:
  assumes "collects input delivered"
  shows "delivered (net.more (take_frame input ok d s)) = delivered (net.more s) @ good_frames [(ok, d)]"
  using assms by (simp add: collects_def take_frame_def good_frames_def lwip_def Let_def)

text \<open>Where a poll stops: after the first \<open>n\<close> frames, all of them or up to one for which lwIP has no buffer.\<close>

definition polled :: "nat \<Rightarrow> (bool \<times> u8 list) list \<Rightarrow> nat \<Rightarrow> nat \<Rightarrow> 'z net_scheme \<Rightarrow> bool" where
  "polled n fs p w s \<longleftrightarrow> n \<le> length fs \<and> p < 32768 \<and> rx_read_ptr s = of_nat p \<and> capr (rtl_io_base s + RTL_CAPR) (io_hist s) = of_nat p - 16 \<and>
     rx_frames (mem s) (rx_buffer s) p (drop n fs) w \<and>
     (n = length fs \<or> (\<exists>d h. n < length fs \<and> fs ! n = (True, d) \<and> d \<noteq> [] \<and> lwip_hist s = h @ [Pbuf_alloc (of_nat (length d))] \<and> lwip_env s (lwip_hist s) = 0))"

lemma poll_loop_collects:
  assumes "keeps_driver input" and "collects input delivered"
    and "card_idle w s" and "rx_frames (mem s) (rx_buffer s) p fs w" and "p < 32768" and "4 dvd p"
    and "rx_read_ptr s = of_nat p" and "capr (rtl_io_base s + RTL_CAPR) (io_hist s) = of_nat p - 16" and "w < 32768"
  shows "\<exists>s' n p'. poll_loop input s = Some s' \<and> delivered (net.more s') = delivered (net.more s) @ good_frames (take n fs) \<and> polled n fs p' w s' \<and>
    rtl_io_base s' = rtl_io_base s \<and> rx_buffer s' = rx_buffer s \<and> lwip_env s' = lwip_env s"
  using assms(3-8)
proof (induction fs arbitrary: p s)
  case Nil
  then have "poll_loop input s = Some (looked s)" by (intro poll_loop_empty [of w]) simp_all
  then show ?case
    using Nil looked_fields [OF Nil.prems(1)] by (intro exI [of _ "looked s"] exI [of _ 0] exI [of _ p]) (simp add: polled_def good_frames_def)
next
  case (Cons f fs)
  obtain ok d where f: "f = (ok, d)" by force
  note fr = Cons.prems(2) [unfolded f rx_frames.simps]
  let ?t = "take_frame input ok d (looked s)" and ?q = "ring_next p (length d)"
  note lk = looked_fields [OF Cons.prems(1)] and tf = take_frame_fields [OF assms(1)]
  have pw: "(of_nat p :: u16) \<noteq> of_nat w"
    using fr Cons.prems(3) assms(9) by (simp add: word_unat_eq_iff unat_of_nat)
  have pu: "(ucast (of_nat p :: u16) :: u32) = of_nat p"
    using Cons.prems(3) by (simp add: word_eq_iff_unat32 unat_of_nat unsigned_ucast_eq take_bit_nat_eq_self)
  show ?case
  proof (cases "no_pbuf ok d s")
    case True
    then have run: "poll_loop input s = Some (snd (lwip (Pbuf_alloc (of_nat (length d))) (looked s)))"
      using poll_loop_frame(2) [of w s ok d input] Cons.prems fr pw pu by simp
    show ?thesis
      using run True Cons.prems by (intro exI [of _ "snd (lwip (Pbuf_alloc (of_nat (length d))) (looked s))"] exI [of _ 0] exI [of _ p])
        (simp add: lk lwip_def Let_def polled_def good_frames_def no_pbuf_def f)
  next
    case False
    let ?s = "rx_advance (of_nat (length d + 4)) ?t"
    have s': "?s = outw (rtl_io_base s + RTL_CAPR) (of_nat ?q - 16) (?t\<lparr>rx_read_ptr := of_nat ?q\<rparr>)"
      using rx_advance_eq [of p "length d" ?t] Cons.prems(3,5) fr by (simp add: tf lk)
    have step: "poll_loop input s = poll_loop input ?s"
      using poll_loop_frame(1) [of w s ok d input] False Cons.prems fr pw pu by simp
    have idle: "card_idle w ?s"
      using Cons.prems(1) unfolding s' card_idle_def by (simp add: outw_def tf lk)
    have "mem ?s (rx_buffer s + of_nat k) = mem s (rx_buffer s + of_nat k)" if "k < 34284" for k
      using tf(8) [OF that, of ok d "looked s"] unfolding s' by (simp add: outw_def lk)
    then have "rx_frames (mem ?s) (rx_buffer s) ?q fs w"
      using rx_frames_cong [of "mem ?s" "rx_buffer s" "mem s" ?q fs w] fr ring_next_bounds by simp
    moreover have eq: "rx_buffer ?s = rx_buffer s" "rtl_io_base ?s = rtl_io_base s" "rx_read_ptr ?s = of_nat ?q"
        "capr (rtl_io_base s + RTL_CAPR) (io_hist ?s) = of_nat ?q - 16" "lwip_env ?s = lwip_env s"
        "net.more ?s = net.more ?t" "net.more (looked s) = net.more s"
      unfolding s' by (simp_all add: outw_def tf lk)
    ultimately obtain s2 n p' where IH: "poll_loop input ?s = Some s2" "delivered (net.more s2) = delivered (net.more ?t) @ good_frames (take n fs)"
        "polled n fs p' w s2" "rtl_io_base s2 = rtl_io_base s" "rx_buffer s2 = rx_buffer s" "lwip_env s2 = lwip_env s"
      using Cons.IH [of ?s ?q] idle ring_next_bounds by (auto simp del: of_nat_add)
    have "polled (Suc n) (f # fs) p' w s2" using IH(3) by (auto simp: polled_def)
    moreover have "good_frames (take (Suc n) (f # fs)) = good_frames [(ok, d)] @ good_frames (take n fs)" by (simp add: good_frames_def f)
    ultimately show ?thesis
      using IH step take_frame_delivered [OF assms(2), of ok d "looked s"] eq(7)
      by (intro exI [of _ s2] exI [of _ "Suc n"] exI [of _ p']) simp
  qed
qed

text \<open>
  C39. A poll of the network card ends and hands the sound frames that the card has put in its ring to lwIP, in the order of
  arrival; it skips the damaged and the empty ones, wraps around the end of the ring, and leaves the read pointers of the driver
  and of the card behind the last frame it took, with the others still in the ring. It takes all frames, up to the write pointer, unless lwIP has no
  buffer for a sound frame: then it stops at that frame.
\<close>

theorem rtl8139_poll_delivers:
  assumes "keeps_driver input" and "collects input delivered"
    and "card_idle w s" and "w < 32768" and "rtl_io_base s \<noteq> 0"
    and "rx_read_ptr s < RX_BUF_SIZE" and "4 dvd unat (rx_read_ptr s)"
    and "capr (rtl_io_base s + RTL_CAPR) (io_hist s) = rx_read_ptr s - 16"
    and "rx_frames (mem s) (rx_buffer s) (unat (rx_read_ptr s)) fs w"
  shows "\<exists>s' n p. rtl8139_poll input s = Some s' \<and> delivered (net.more s') = delivered (net.more s) @ good_frames (take n fs) \<and> n \<le> length fs \<and>
    rx_read_ptr s' = of_nat p \<and> capr (rtl_io_base s + RTL_CAPR) (io_hist s') = of_nat p - 16 \<and> rx_frames (mem s') (rx_buffer s) p (drop n fs) w \<and>
    (if n = length fs then p = w
     else \<exists>d h. fs ! n = (True, d) \<and> d \<noteq> [] \<and> lwip_hist s' = h @ [Pbuf_alloc (of_nat (length d))] \<and> lwip_env s (lwip_hist s') = 0)"
proof -
  have "unat (rx_read_ptr s) < 32768" using assms(6) by (simp add: RX_BUF_SIZE_def word_less_nat_alt)
  then obtain s' n p where "poll_loop input s = Some s'" "delivered (net.more s') = delivered (net.more s) @ good_frames (take n fs)" "polled n fs p w s'"
      "rtl_io_base s' = rtl_io_base s" "rx_buffer s' = rx_buffer s" "lwip_env s' = lwip_env s"
    using poll_loop_collects [OF assms(1-3,9)] assms(4,7,8) by auto
  then show ?thesis using assms(5)
    by (intro exI [of _ s'] exI [of _ n] exI [of _ p]) (auto simp: rtl8139_poll_def polled_def)
qed

text \<open>A ring with one frame of two bytes at its end, and one at its start.\<close>

definition net_example :: "u8 list list net_scheme" where
  "net_example = net.extend (idts.extend (kernel.extend (kernel_example
       \<lparr>mem := write_bytes (write_bytes (\<lambda>_. 0) 0x207FF8 [1, 0, 6, 0, 7, 8]) 0x200004 [0, 0, 5, 0, 9],
        io_env := (\<lambda>h. if capr 0xC038 h = 0 then 1 else 0), dma_env := (\<lambda>h m. m), io_hist := [OutW 0xC038 0x7FE8],
        lwip_env := (\<lambda>_. 1)\<rparr>)
      (idts.fields [] (0, 0) 0 (\<lambda>_. 0) 0 0))
    (net.fields 0xC000 [] 0x200000 0 0x7FF8 [] \<lparr>nif_name = [], nif_hwaddr = [], nif_mtu = 0, nif_flags = []\<rparr>)) []"

lemma net_example_fields [simp]:
  "mem net_example = write_bytes (write_bytes (\<lambda>_. 0) 0x207FF8 [1, 0, 6, 0, 7, 8]) 0x200004 [0, 0, 5, 0, 9]"
  "io_env net_example = (\<lambda>h. if capr 0xC038 h = 0 then 1 else 0)" "dma_env net_example = (\<lambda>h m. m)"
  "io_hist net_example = [OutW 0xC038 0x7FE8]" "lwip_env net_example = (\<lambda>_. 1)" "rtl_io_base net_example = 0xC000"
  "rx_buffer net_example = 0x200000" "rx_read_ptr net_example = 0x7FF8" "net.more net_example = []"
  by (simp_all add: net_example_def net.defs idts.defs kernel.defs)

theorem rtl8139_poll_delivers_witness:
  "\<exists>s'. rtl8139_poll (\<lambda>d. net.more_update (\<lambda>l. l @ [d])) net_example = Some s' \<and> net.more s' = [[7, 8]] \<and> rx_read_ptr s' = 16"
proof -
  let ?i = "\<lambda>d :: u8 list. net.more_update (\<lambda>l. l @ [d])"
  have k: "keeps_driver ?i" and c: "collects ?i (\<lambda>l. l)" by (simp_all add: keeps_driver_def collects_def)
  have "card_idle 16 net_example" by (simp add: card_idle_def RTL_COMMAND_def RTL_CAPR_def RTL_CMD_EMPTY_def)
  moreover have "rx_frames (mem net_example) 0x200000 32760 [(True, [7, 8]), (False, [9])] 16"
    by (simp add: frame_at_def load16_def read_bytes_def ring_next_def upt_rec)
  ultimately show ?thesis
    using rtl8139_poll_delivers [OF k c, of 16 net_example "[(True, [7, 8]), (False, [9])]"]
    by (auto simp: RX_BUF_SIZE_def RTL_CAPR_def good_frames_def split: if_splits)
qed

end
