(* ===== verification/Boot.thy ===== *)
theory Boot
  imports Net
begin

text \<open>
  Start-up: \<^verbatim>\<open>kernel/utils/sysconfig.c\<close>, \<^verbatim>\<open>system_apps/initd/initd.c\<close> and \<^verbatim>\<open>kernel/core/kernel.c\<close>. \<open>kmain\<close> and
  \<open>initd\<close> end in loops that run forever; the definitions give the state in which the loop starts, and one round of
  the loop of \<open>kmain\<close> is \<open>idle_round\<close>. Its parameters \<open>input\<close> and \<open>timeouts\<close> stand for lwIP.
\<close>

section \<open>Configuration\<close>

text \<open>
  \<open>cfg_ptrs\<close> are the addresses of the configuration and of its array of entries. The strings of the entries are
  held by value, so the NUL bytes which the parser writes between them are not.
\<close>

record boot = net +
  cfg_ptrs :: "u32 \<times> u32"
  current_cfg_buffer :: u32

definition config_parse :: "u32 \<Rightarrow> 'z boot_scheme \<Rightarrow> 'z boot_scheme option" where
  "config_parse buffer s = do {
     (cfg, s) \<leftarrow> kmalloc 12 s;
     (entries, s) \<leftarrow> kmalloc 512 s;
     if cfg = NULL \<or> entries = NULL then None
     else do {
       text \<leftarrow> str_at (mem s) buffer;
       Some (s\<lparr>cfg_ptrs := (cfg, entries), global_cfg := Some (config_parse_text text)\<rparr>) } }"

definition config_free :: "'z boot_scheme \<Rightarrow> 'z boot_scheme option" where
  "config_free s =
     (if fst (cfg_ptrs s) = NULL then Some s
      else do {
        s \<leftarrow> (if snd (cfg_ptrs s) \<noteq> NULL then kfree (snd (cfg_ptrs s)) s else Some s);
        kfree (fst (cfg_ptrs s)) s })"

definition default_cfg :: string where
  "default_cfg = ''PROMPT_USER_COLOR=11'' @ [CHR 0x0A] @ ''PROMPT_HOST_COLOR=10'' @ [CHR 0x0A] @ ''PROMPT_PATH_COLOR=9'' @ [CHR 0x0A] @
     ''PATH=/path'' @ [CHR 0x0A]"

text \<open>\<open>def\<close> is the address of the literal \<open>default_cfg\<close> in the image of the kernel.\<close>

definition sysconfig_reload :: "('z boot_scheme \<Rightarrow> 'z boot_scheme) \<Rightarrow> u32 \<Rightarrow> 'z boot_scheme \<Rightarrow> 'z boot_scheme option" where
  "sysconfig_reload resume def s = do {
     (file_size, s) \<leftarrow> vfs_get_size ''/kernel.cfg'' s;
     (file_size, s) \<leftarrow> (if file_size \<le> 0
        then do { (_, s) \<leftarrow> vfs_write ''/kernel.cfg'' def (of_nat (strlen default_cfg)) s; Some (int (strlen default_cfg), s) }
        else Some (file_size, s));
     (file_buffer, s) \<leftarrow> kmalloc_a (word_of_int (file_size + 1)) s;
     (_, s) \<leftarrow> vfs_read resume ''/kernel.cfg'' file_buffer s;
     let s = s\<lparr>mem := (mem s)(file_buffer + word_of_int file_size := 0)\<rparr>;
     s \<leftarrow> (if global_cfg s \<noteq> None then config_free s else Some s);
     s \<leftarrow> (if current_cfg_buffer s \<noteq> NULL then kfree_a (current_cfg_buffer s) s else Some s);
     s \<leftarrow> config_parse file_buffer s;
     Some (s\<lparr>current_cfg_buffer := file_buffer\<rparr>) }"

definition sysconfig_init :: "('z boot_scheme \<Rightarrow> 'z boot_scheme) \<Rightarrow> u32 \<Rightarrow> 'z boot_scheme \<Rightarrow> 'z boot_scheme option" where
  "sysconfig_init resume def s = sysconfig_reload resume def s"

section \<open>The first process\<close>

text \<open>The list of programs: blanks and line ends are dropped, commas separate at most 32 names.\<close>

definition strip_blanks :: "u8 list \<Rightarrow> u8 list" where
  "strip_blanks bs = filter (\<lambda>b. b \<noteq> 0x20 \<and> b \<noteq> 0x0A \<and> b \<noteq> 0x0D) bs"

definition app_starts :: "u8 list \<Rightarrow> nat list" where
  "app_starts bs = (if bs = [] then []
     else take 32 (0 # map Suc (filter (\<lambda>i. bs ! i = 0x2C \<and> i + 1 < length bs) [0..<length bs])))"

definition terminate_apps :: "u8 list \<Rightarrow> u8 list" where
  "terminate_apps bs = map (\<lambda>b. if b = 0x2C then 0 else b) bs"

definition app_name :: "u8 list \<Rightarrow> nat \<Rightarrow> string" where
  "app_name bs p = map (\<lambda>b. char_of (unat b)) (takeWhile (\<lambda>b. b \<noteq> 0) (drop p (terminate_apps bs)))"

fun spawn_apps :: "('z fds_scheme \<Rightarrow> 'z fds_scheme) \<Rightarrow> string list \<Rightarrow> 'z fds_scheme \<Rightarrow> 'z fds_scheme option" where
  "spawn_apps resume [] s = Some s"
| "spawn_apps resume (a # as) s = do {
     s \<leftarrow> (if strlen a > 0 then do { (_, s) \<leftarrow> spawn_process resume a NULL s; Some s } else Some s);
     spawn_apps resume as s }"

text \<open>
  \<open>config_file\<close> is the address of the local array of 512 bytes. A longer file overruns it while it is read, one
  whose 512 characters are all kept when it is terminated; \<^verbatim>\<open>panic\<close> does not return.
\<close>

definition initd :: "('z fds_scheme \<Rightarrow> 'z fds_scheme) \<Rightarrow> u32 \<Rightarrow> 'z fds_scheme \<Rightarrow> 'z fds_scheme option" where
  "initd resume config_file s = do {
     s \<leftarrow> printf ([CHR 0x0A] @ ''=== 8086-OS Kernel Booted ==='' @ [CHR 0x0A]) [] s;
     s \<leftarrow> printf (''Mounting root filesystem...'' @ [CHR 0x0A]) [] s;
     let s = s\<lparr>mem := memset (mem s) config_file 0 512\<rparr>;
     (r, s) \<leftarrow> vfs_ensure_file_exists ''/config/initd/initd.cfg'' s;
     if r = -1 then None
     else do {
       (bytes_read, s) \<leftarrow> vfs_read resume ''/config/initd/initd.cfg'' config_file s;
       if bytes_read > 0 then do {
         (apps_to_start, s) \<leftarrow> kmalloc 128 s;
         let bs = strip_blanks (read_bytes (mem s) config_file (nat bytes_read));
         if bytes_read > 512 \<or> length bs \<ge> 512 \<or> apps_to_start = NULL then None
         else do {
           let m = write_bytes (mem s) config_file (terminate_apps bs @ [0]);
           let s = s\<lparr>mem := store_words m apps_to_start (map (\<lambda>p. config_file + of_nat p) (app_starts bs))\<rparr>;
           s \<leftarrow> spawn_apps resume (map (app_name bs) (app_starts bs)) s;
           kfree apps_to_start s } }
       else Some s } }"

section \<open>The kernel\<close>

definition enable_fpu_sse :: "'z idts_scheme \<Rightarrow> 'z idts_scheme" where
  "enable_fpu_sse s = s\<lparr>cr0 := (cr0 s AND NOT 4) OR 2, cr4 := (cr4 s OR 0x200) OR 0x400\<rparr>"

text \<open>
  The multiboot information is given as what the drivers read of it. \<^verbatim>\<open>netif_add\<close> calls the initialisation
  function it gets. \<open>initd_addr\<close> is the address of \<^verbatim>\<open>initd\<close>.
\<close>

definition start_lwip :: "'z net_scheme \<Rightarrow> 'z net_scheme" where
  "start_lwip s =
     (let s = snd (lwip Dns_init (snd (lwip Lwip_init s)));
          s = ethernetif_init (snd (lwip Netif_add s))
      in snd (lwip Dhcp_start (snd (lwip Netif_set_up (snd (lwip Netif_set_default s))))))"

definition kmain :: "u32 \<Rightarrow> framebuffer_info \<Rightarrow> u32 \<Rightarrow> boot_module list \<Rightarrow> u32 \<Rightarrow> 'z boot_scheme \<Rightarrow> 'z boot_scheme option" where
  "kmain magic fb mbi_flags mods initd_addr s =
     (if magic \<noteq> 0x2BADB002 then None
      else do {
        s \<leftarrow> keyboard_init (timer_install (idt_init (idt_install (pic_remap s))));
        let s = s\<lparr>int_flag := True\<rparr>;
        s \<leftarrow> klog ''[INIT] Kernel started booting.'' s;
        s \<leftarrow> heap_init s;
        s \<leftarrow> klog ''[INIT] Heap memory manager initialized.'' s;
        s \<leftarrow> init_disk_cache s;
        s \<leftarrow> init_vesa fb (fd_init s);
        s \<leftarrow> klog ''[INIT] VESA Graphics and BGA Console initialized.'' (init_gfx_console s);
        s \<leftarrow> init_paging s;
        s \<leftarrow> klog ''[INIT] Paging and Virtual Memory enabled.'' s;
        s \<leftarrow> klog ''[INIT] FPU and SSE extensions enabled.'' (enable_fpu_sse s);
        s \<leftarrow> pci_scan s;
        s \<leftarrow> disk_manager_init s;
        s \<leftarrow> ahci_init s;
        s \<leftarrow> rtl8139_init s;
        s \<leftarrow> klog ''[NET] DHCP Client started!'' (start_lwip s);
        s \<leftarrow> initrd_files mbi_flags mods s;
        s \<leftarrow> vfs_init s;
        s \<leftarrow> init_tasking (srand (get_ticks s) s);
        s \<leftarrow> klog ''[INIT] Spawning Initd process...'' (mouse_init s);
        (_, s) \<leftarrow> create_process initd_addr 0 0 (Some ''initd'') (kernel_dir s) (-1) (-1) s;
        Some s })"

definition idle_round :: "(u8 list \<Rightarrow> 'z boot_scheme \<Rightarrow> 'z boot_scheme) \<Rightarrow> ('z boot_scheme \<Rightarrow> 'z boot_scheme) \<Rightarrow> 'z boot_scheme \<Rightarrow> 'z boot_scheme option" where
  "idle_round input timeouts s = do {
     let (flags, s) = save_flags s;
     s \<leftarrow> rtl8139_poll input s;
     Some (restore_flags flags (timeouts s)) }"

end
