(* ===== verification/Boot_Props.thy ===== *)
theory Boot_Props
  imports Boot Syscall_Props
begin

text \<open>
  The descriptor table after start-up, and the list of programs that \<^verbatim>\<open>initd\<close> starts.
\<close>

section \<open>The interrupt descriptor table\<close>

definition gate :: "u32 \<Rightarrow> idt_entry" where
  "gate handler = \<lparr>offset_low = ucast (handler AND 0xFFFF), selector = 0x08, ie_zero = 0, type_attr = 0x8E, offset_high = ucast (drop_bit 16 handler AND 0xFFFF)\<rparr>"

text \<open>The address at which the processor continues.\<close>

definition gate_target :: "idt_entry \<Rightarrow> u32" where
  "gate_target e = ucast (offset_low e) OR push_bit 16 (ucast (offset_high e))"

lemma gate_target_gate: "gate_target (gate h) = h"
proof -
  have m: "(0xFFFF :: u32) = mask 16" by (simp add: mask_eq_exp_minus_1)
  show ?thesis unfolding gate_target_def gate_def m by (intro bit_word_eqI) (auto simp: bit_simps)
qed

lemma idt_set_gate_eq: "idt_set_gate num h s = s\<lparr>idt := (idt s)[unat num := gate h]\<rparr>"
  by (simp add: idt_set_gate_def gate_def)

lemma install_gates:
  "n \<le> 256 \<Longrightarrow> length (idt s) = 256 \<Longrightarrow>
     fold (\<lambda>i s. idt_set_gate (of_nat i) (isr_addr s h) s) [0..<n] s = s\<lparr>idt := replicate n (gate (isr_addr s h)) @ drop n (idt s)\<rparr>"
proof (induction n)
  case (Suc n)
  have u: "unat (of_nat n :: u8) = n" using Suc.prems(1) by (simp add: unat_of_nat)
  have "drop n (idt s) = idt s ! n # drop (Suc n) (idt s)" using Suc.prems by (simp add: Cons_nth_drop_Suc)
  then show ?case using Suc u by (simp add: idt_set_gate_eq list_update_append replicate_append_same)
qed simp

definition handler_of :: "nat \<Rightarrow> isr" where
  "handler_of v = (if v = 0 then system_division_handler else if v = 6 then invalid_opcode_handler else if v = 14 then page_fault_handler
     else if v = 32 then timer_handler else if v = 33 then keyboard_handler else if v = 43 then rtl8139_irq_handler
     else if v = 44 then mouse_handler else if v = 128 then syscall_handler else ignore_handler)"

text \<open>
  C40. After \<^verbatim>\<open>idt_install\<close> and \<^verbatim>\<open>idt_init\<close> every interrupt vector is a present 32-bit interrupt gate in the
  code segment of the kernel, and leads to its handler: the eight vectors the kernel
  serves to theirs, all others to the one that ignores them; the loaded limit covers exactly the table.
\<close>

theorem idt_complete:
  assumes "length (idt s) = 256"
  shows "idtr (idt_init (idt_install s)) = (of_nat (8 * length (idt (idt_init (idt_install s))) - 1), idt_addr s) \<and>
    (\<forall>v<256. gate_target (idt (idt_init (idt_install s)) ! v) = isr_addr s (handler_of v) \<and>
      selector (idt (idt_init (idt_install s)) ! v) = 0x08 \<and> type_attr (idt (idt_init (idt_install s)) ! v) = 0x8E)"
proof -
  let ?g = "\<lambda>h. gate (isr_addr s h)"
  have t: "idt (idt_init (idt_install s)) = (replicate 256 (?g ignore_handler))[0 := ?g system_division_handler, 32 := ?g timer_handler,
      33 := ?g keyboard_handler, 128 := ?g syscall_handler, 44 := ?g mouse_handler, 14 := ?g page_fault_handler, 6 := ?g invalid_opcode_handler,
      43 := ?g rtl8139_irq_handler]" "idtr (idt_init (idt_install s)) = (0x7FF, idt_addr s)"
    using install_gates [of 256 s ignore_handler] assms by (simp_all add: idt_init_def idt_install_def idt_set_gate_eq Let_def)
  have "idt (idt_init (idt_install s)) ! v = ?g (handler_of v)" if "v < 256" for v
    unfolding t(1) using that by (simp add: nth_list_update handler_of_def)
  moreover have "selector (gate h) = 0x08" "type_attr (gate h) = 0x8E" for h by (simp_all add: gate_def)
  ultimately show ?thesis using t by (simp add: gate_target_gate)
qed

definition idt_example :: idts where
  "idt_example = kernel.extend kernel_example
     (idts.fields (replicate 256 (gate 0)) (0, 0) 0x105000 (\<lambda>h. if h = page_fault_handler then 0x100ABC else 0x100040) 0x11 0)"

theorem idt_complete_witness:
  "gate_target (idt (idt_init (idt_install idt_example)) ! 14) = 0x100ABC \<and>
   gate_target (idt (idt_init (idt_install idt_example)) ! 13) = 0x100040"
proof -
  have e: "length (idt idt_example) = 256" "isr_addr idt_example = (\<lambda>h. if h = page_fault_handler then 0x100ABC else 0x100040)"
    by (simp_all add: idt_example_def kernel.defs idts.defs)
  have "gate_target (idt (idt_init (idt_install idt_example)) ! v) = isr_addr idt_example (handler_of v)" if "v < 256" for v
    using idt_complete [OF e(1)] that by simp
  from this [of 14] this [of 13] show ?thesis by (simp add: e(2) handler_of_def)
qed

section \<open>The programs of the first process\<close>

definition app_ok :: "u8 list \<Rightarrow> bool" where
  "app_ok w \<longleftrightarrow> w \<noteq> [] \<and> (\<forall>b\<in>set w. b \<noteq> 0 \<and> b \<noteq> 0x20 \<and> b \<noteq> 0x0A \<and> b \<noteq> 0x0D \<and> b \<noteq> 0x2C)"

fun join_apps :: "u8 list \<Rightarrow> u8 list list \<Rightarrow> u8 list" where
  "join_apps sep [] = []"
| "join_apps sep [w] = w"
| "join_apps sep (w # ws) = w @ sep @ join_apps sep ws"

definition raw_starts :: "u8 list \<Rightarrow> nat list" where
  "raw_starts bs = 0 # map Suc (filter (\<lambda>i. bs ! i = 0x2C \<and> i + 1 < length bs) [0..<length bs])"

lemma app_starts_raw: "bs \<noteq> [] \<Longrightarrow> app_starts bs = take 32 (raw_starts bs)"
  by (simp add: app_starts_def raw_starts_def)

lemma raw_starts_word:
  assumes "\<forall>b\<in>set w. b \<noteq> 0x2C"
  shows "raw_starts w = [0]"
  using assms by (auto simp: raw_starts_def filter_empty_conv)

lemma upt_split: "[0..<a + b] = [0..<a] @ map ((+) a) [0..<b]"
  by (induction b) simp_all

lemma raw_starts_sep:
  assumes "\<forall>b\<in>set w. b \<noteq> 0x2C" and "rest \<noteq> []"
  shows "raw_starts (w @ 0x2C # rest) = 0 # map ((+) (length w + 1)) (raw_starts rest)"
proof -
  let ?bs = "w @ 0x2C # rest" and ?n = "length w"
  let ?P = "\<lambda>i. ?bs ! i = 0x2C \<and> i + 1 < length ?bs"
  have "[0..<length ?bs] = [0..<?n] @ ?n # map ((+) (?n + 1)) [0..<length rest]"
    using upt_split [of "?n + 1" "length rest"] by simp
  moreover have "filter ?P [0..<?n] = []" using assms(1) by (auto simp: filter_empty_conv nth_append)
  moreover have "?P ?n" using assms(2) by simp
  moreover have "filter ?P (map ((+) (?n + 1)) [0..<length rest]) = map ((+) (?n + 1)) (filter (\<lambda>i. rest ! i = 0x2C \<and> i + 1 < length rest) [0..<length rest])"
    by (simp add: filter_map o_def nth_append)
  ultimately show ?thesis by (simp add: raw_starts_def)
qed

text \<open>The names as the kernel holds them.\<close>

abbreviation chars :: "u8 list \<Rightarrow> string" where
  "chars \<equiv> map (\<lambda>b. char_of (unat b))"

lemma join_apps_Cons: "ws \<noteq> [] \<Longrightarrow> join_apps sep (w # ws) = w @ sep @ join_apps sep ws"
  by (cases ws) simp_all

lemma join_apps_nonempty: "\<forall>w\<in>set ws. app_ok w \<Longrightarrow> ws \<noteq> [] \<Longrightarrow> join_apps sep ws \<noteq> []"
  by (cases "(sep, ws)" rule: join_apps.cases) (auto simp: app_ok_def)

lemma strip_app: "app_ok w \<Longrightarrow> strip_blanks w = w"
  by (simp add: strip_blanks_def app_ok_def filter_id_conv)

lemma strip_join:
  assumes "\<forall>w\<in>set ws. app_ok w"
  shows "strip_blanks (join_apps sep ws) = join_apps (strip_blanks sep) ws"
  using assms
proof (induction sep ws rule: join_apps.induct)
  case (2 sep w)
  then show ?case by (simp add: strip_app)
next
  case (3 sep w v ws)
  then have "strip_blanks w = w" by (simp add: strip_app)
  with 3 show ?case by (simp add: strip_blanks_def)
qed (simp add: strip_blanks_def)

lemma app_name_first:
  assumes "app_ok w" and "rest = [] \<or> hd rest = 0x2C"
  shows "app_name (w @ rest) 0 = chars w"
proof -
  have "map (\<lambda>b. if b = 0x2C then 0 else b) w = w" "\<forall>b\<in>set w. b \<noteq> 0" using assms(1) by (auto simp: app_ok_def map_idI)
  then have "takeWhile (\<lambda>b. b \<noteq> 0) (w @ terminate_apps rest) = w"
    using assms(2) by (cases rest) (auto simp: terminate_apps_def takeWhile_append)
  with \<open>map _ w = w\<close> show ?thesis by (simp add: app_name_def terminate_apps_def)
qed

lemma app_name_later: "app_name (w @ rest) (length w + p) = app_name rest p"
  by (simp add: app_name_def terminate_apps_def)

lemma raw_names:
  assumes "\<forall>w\<in>set ws. app_ok w" and "ws \<noteq> []"
  shows "map (app_name (join_apps [0x2C] ws)) (raw_starts (join_apps [0x2C] ws)) = map chars ws"
  using assms
proof (induction ws)
  case (Cons w ws)
  from Cons.prems have w: "app_ok w" "\<forall>b\<in>set w. b \<noteq> 0x2C" by (auto simp: app_ok_def)
  show ?case
  proof (cases "ws = []")
    case True
    then show ?thesis using w app_name_first [of w "[]"] by (simp add: raw_starts_word)
  next
    case False
    let ?r = "join_apps [0x2C] ws"
    have j: "join_apps [0x2C] (w # ws) = w @ 0x2C # ?r" using False by (simp add: join_apps_Cons)
    have r: "?r \<noteq> []" using join_apps_nonempty Cons.prems False by simp
    have "app_name (w @ 0x2C # ?r) \<circ> (+) (length w + 1) = app_name ?r"
      using app_name_later [of "w @ [0x2C]" ?r] by (auto simp: fun_eq_iff)
    then show ?thesis
      using Cons False w app_name_first [of w "0x2C # ?r"] raw_starts_sep [OF w(2) r] by (simp add: j)
  qed
qed simp

text \<open>
  The list of programs is read as it is written: up to 32 names, separated by commas and spaces and ended by a
  line end, are the names that \<^verbatim>\<open>initd\<close> starts, in the order of the file.
\<close>

theorem initd_apps_round_trip:
  assumes "ws \<noteq> []" and "length ws \<le> 32" and "\<forall>w\<in>set ws. app_ok w"
    and "bs = strip_blanks (join_apps [0x2C, 0x20] ws @ [0x0A])"
  shows "map (app_name bs) (app_starts bs) = map chars ws"
proof -
  have bs: "bs = join_apps [0x2C] ws"
    using strip_join [OF assms(3), of "[0x2C, 0x20]"] assms(4) by (simp add: strip_blanks_def)
  have names: "map (app_name bs) (raw_starts bs) = map chars ws" using raw_names assms(1,3) bs by simp
  then have "length (raw_starts bs) = length ws" by (metis length_map)
  then show ?thesis using names assms(1-3) join_apps_nonempty bs by (simp add: app_starts_raw)
qed

theorem initd_apps_round_trip_witness:
  "map (app_name [0x61, 0x2C, 0x62, 0x63]) (app_starts [0x61, 0x2C, 0x62, 0x63]) = [''a'', ''bc'']"
proof -
  have "map (app_name [0x61, 0x2C, 0x62, 0x63]) (app_starts [0x61, 0x2C, 0x62, 0x63]) = map chars [[0x61], [0x62, 0x63]]"
    by (rule initd_apps_round_trip) (simp_all add: app_ok_def strip_blanks_def)
  moreover have "map chars [[0x61], [0x62, 0x63]] = [''a'', ''bc'']" by code_simp
  ultimately show ?thesis by (rule trans)
qed

end
