(* ===== verification/User_Heap.thy ===== *)
theory User_Heap
  imports Machine
begin

text \<open>
  The memory allocator of user programs, in \<^verbatim>\<open>userland/lib/oslib.c\<close>: \<^verbatim>\<open>malloc\<close>, \<^verbatim>\<open>free\<close>, \<^verbatim>\<open>calloc\<close> and \<^verbatim>\<open>sbrk\<close>. A program sees
  the kernel through \<^verbatim>\<open>int 0x80\<close>: \<open>traps\<close> is the history of its calls, a number with the arguments in the order
  EBX, ECX, EDX, ESI, EDI; \<open>trap_env\<close> is what the kernel returns in EAX after a history, \<open>trap_mem\<close> what it does
  to the memory of the program.
\<close>

section \<open>State\<close>

text \<open>\<open>base_addr\<close> is the address of the static header \<^verbatim>\<open>base\<close>.\<close>

record user =
  umem :: "u32 \<Rightarrow> u8"
  freep :: u32
  base_addr :: u32
  traps :: "(u32 \<times> u32 list) list"
  trap_env :: "(u32 \<times> u32 list) list \<Rightarrow> u32"
  trap_mem :: "(u32 \<times> u32 list) list \<Rightarrow> (u32 \<Rightarrow> u8) \<Rightarrow> (u32 \<Rightarrow> u8)"

definition trap :: "u32 \<Rightarrow> u32 list \<Rightarrow> 'z user_scheme \<Rightarrow> u32 \<times> 'z user_scheme" where
  "trap n args s = (let h = (n, args) # traps s in (trap_env s h, s\<lparr>traps := h, umem := trap_mem s h (umem s)\<rparr>))"

definition sbrk :: "u32 \<Rightarrow> 'z user_scheme \<Rightarrow> u32 \<times> 'z user_scheme" where
  "sbrk incr s = trap 103 [incr] s"

section \<open>Headers\<close>

text \<open>\<^verbatim>\<open>struct header\<close>: the next free block, and the size in units of eight bytes, the header included.\<close>

definition h_ptr :: "u32 \<Rightarrow> 'z user_scheme \<Rightarrow> u32" where
  "h_ptr p s = load32 (umem s) p"

definition h_size :: "u32 \<Rightarrow> 'z user_scheme \<Rightarrow> u32" where
  "h_size p s = load32 (umem s) (p + 4)"

definition set_h_ptr :: "u32 \<Rightarrow> u32 \<Rightarrow> 'z user_scheme \<Rightarrow> 'z user_scheme" where
  "set_h_ptr p v s = s\<lparr>umem := store32 (umem s) p v\<rparr>"

definition set_h_size :: "u32 \<Rightarrow> u32 \<Rightarrow> 'z user_scheme \<Rightarrow> 'z user_scheme" where
  "set_h_size p v s = s\<lparr>umem := store32 (umem s) (p + 4) v\<rparr>"

section \<open>Releasing\<close>

text \<open>The walk from \<open>p\<close> to the block after which \<open>bp\<close> belongs.\<close>

partial_function (option) free_place :: "u32 \<Rightarrow> u32 \<Rightarrow> 'z user_scheme \<Rightarrow> u32 option" where
  "free_place bp p s =
     (if bp > p \<and> bp < h_ptr p s then Some p
      else if p \<ge> h_ptr p s \<and> (bp > p \<or> bp < h_ptr p s) then Some p
      else free_place bp (h_ptr p s) s)"

definition insert_after :: "u32 \<Rightarrow> u32 \<Rightarrow> 'z user_scheme \<Rightarrow> 'z user_scheme" where
  "insert_after bp p s =
     (let s = (if bp + 8 * h_size bp s = h_ptr p s
               then let s = set_h_size bp (h_size bp s + h_size (h_ptr p s) s) s in set_h_ptr bp (h_ptr (h_ptr p s) s) s
               else set_h_ptr bp (h_ptr p s) s);
          s = (if p + 8 * h_size p s = bp
               then let s = set_h_size p (h_size p s + h_size bp s) s in set_h_ptr p (h_ptr bp s) s
               else set_h_ptr p bp s)
      in s\<lparr>freep := p\<rparr>)"

definition free :: "u32 \<Rightarrow> 'z user_scheme \<Rightarrow> 'z user_scheme option" where
  "free ap s =
     (if ap = NULL then Some s
      else if freep s = NULL then Some s
      else if ap < 0x60000000 then Some s
      else do { p \<leftarrow> free_place (ap - 8) (freep s) s; Some (insert_after (ap - 8) p s) })"

section \<open>Allocating\<close>

text \<open>A block that is large enough is unlinked, or gives its tail.\<close>

definition take_units :: "u32 \<Rightarrow> u32 \<Rightarrow> u32 \<Rightarrow> 'z user_scheme \<Rightarrow> u32 \<times> 'z user_scheme" where
  "take_units nunits prevp p s =
     (let (p, s) = (if h_size p s = nunits then (p, set_h_ptr prevp (h_ptr p s) s)
                    else let s = set_h_size p (h_size p s - nunits) s; p = p + 8 * h_size p s in (p, set_h_size p nunits s))
      in (p + 8, s\<lparr>freep := prevp\<rparr>))"

partial_function (option) malloc_loop :: "u32 \<Rightarrow> u32 \<Rightarrow> u32 \<Rightarrow> 'z user_scheme \<Rightarrow> (u32 \<times> 'z user_scheme) option" where
  "malloc_loop nunits prevp p s =
     (if h_size p s \<ge> nunits then Some (take_units nunits prevp p s)
      else if p = freep s then
        (let alloc_units = (if nunits > 1024 then nunits else 1024); (cp, s) = sbrk (alloc_units * 8) s in
         if cp = -1 then Some (NULL, s)
         else do {
           s \<leftarrow> free (cp + 8) (set_h_size cp alloc_units s);
           malloc_loop nunits (freep s) (h_ptr (freep s) s) s })
      else malloc_loop nunits p (h_ptr p s) s)"

definition malloc :: "u32 \<Rightarrow> 'z user_scheme \<Rightarrow> (u32 \<times> 'z user_scheme) option" where
  "malloc nbytes s =
     (if nbytes \<ge> 0xFFFFFF00 \<or> nbytes = 0 then Some (NULL, s)
      else let nunits = (nbytes + 8 - 1) div 8 + 1;
               s = (if freep s = NULL then set_h_size (base_addr s) 0 ((set_h_ptr (base_addr s) (base_addr s) s)\<lparr>freep := base_addr s\<rparr>) else s)
        in malloc_loop nunits (freep s) (h_ptr (freep s) s) s)"

definition calloc :: "u32 \<Rightarrow> u32 \<Rightarrow> 'z user_scheme \<Rightarrow> (u32 \<times> 'z user_scheme) option" where
  "calloc nmemb sz s = do {
     (ptr, s) \<leftarrow> malloc (nmemb * sz) s;
     Some (ptr, if ptr \<noteq> NULL then s\<lparr>umem := memset (umem s) ptr 0 (unat (nmemb * sz))\<rparr> else s) }"

end
