(* ===== verification/User_Heap_Spec.thy ===== *)
theory User_Heap_Spec
  imports User_Heap Paging
begin

text \<open>
  The heap of a user program: its free blocks form a ring in the order of their addresses, which starts and ends
  at the static header \<open>base\<close>; no two of them touch. Releasing a block puts it in its place and joins it with
  its neighbours, a request takes a block or the tail of one, and grows the heap when none is large enough.
\<close>

section \<open>Headers\<close>

definition header_ok :: "u32 \<Rightarrow> bool" where
  "header_ok a \<longleftrightarrow> unat a \<le> 4294967288"

definition hsep :: "u32 \<Rightarrow> u32 \<Rightarrow> bool" where
  "hsep a b \<longleftrightarrow> header_ok a \<and> header_ok b \<and> (unat a + 8 \<le> unat b \<or> unat b + 8 \<le> unat a)"

lemma hsep_sym: "hsep a b \<Longrightarrow> hsep b a"
  by (auto simp: hsep_def)

lemma header_size_addr: "header_ok a \<Longrightarrow> unat (a + 4) = unat a + 4"
  using unat_add_no_wrap32 [of a 4] by (simp add: header_ok_def)

lemma hsep_load [simp]:
  assumes "hsep a b"
  shows "load32 (store32 m a v) b = load32 m b" "load32 (store32 m a v) (b + 4) = load32 m (b + 4)"
    "load32 (store32 m (a + 4) v) b = load32 m b" "load32 (store32 m (a + 4) v) (b + 4) = load32 m (b + 4)"
  using assms header_size_addr [of a] header_size_addr [of b]
  by (auto simp: hsep_def header_ok_def intro!: load32_other_nat)

lemma header_load [simp]:
  assumes "header_ok a"
  shows "load32 (store32 m a v) (a + 4) = load32 m (a + 4)" "load32 (store32 m (a + 4) v) a = load32 m a"
  using assms header_size_addr [of a] by (auto simp: header_ok_def intro!: load32_other_nat)

text \<open>The address \<open>w\<close> units behind \<open>p\<close>.\<close>

lemma unat_units:
  assumes "unat p + 8 * unat w < 4294967296"
  shows "unat (p + 8 * w :: u32) = unat p + 8 * unat w"
proof -
  have "unat (8 * w) = 8 * unat w" using assms by (subst unat_mult_lem [THEN iffD1]) auto
  then show ?thesis using assms by (subst unat_add_no_wrap32) auto
qed

section \<open>The ring of free blocks\<close>

text \<open>A block is the address of its header and its size in units.\<close>

type_synonym ublock = "u32 \<times> nat"

fun fchain :: "(u32 \<Rightarrow> u8) \<Rightarrow> u32 \<Rightarrow> ublock list \<Rightarrow> u32 \<Rightarrow> bool" where
  "fchain m p [] q \<longleftrightarrow> p = q"
| "fchain m p ((a, n) # fs) q \<longleftrightarrow> p = a \<and> unat (load32 m (a + 4)) = n \<and> fchain m (load32 m a) fs q"

definition before :: "ublock \<Rightarrow> ublock \<Rightarrow> bool" where
  "before x y \<longleftrightarrow> unat (fst x) + 8 * snd x < unat (fst y)"

definition off :: "ublock \<Rightarrow> ublock \<Rightarrow> bool" where
  "off x y \<longleftrightarrow> unat (fst x) + 8 * snd x \<le> unat (fst y) \<or> unat (fst y) + 8 * snd y \<le> unat (fst x)"

text \<open>The free blocks \<open>fs\<close> and the allocated blocks \<open>A\<close> between \<open>b\<close> and \<open>e\<close>.\<close>

definition fheap :: "(u32 \<Rightarrow> u8) \<Rightarrow> u32 \<Rightarrow> ublock list \<Rightarrow> ublock set \<Rightarrow> nat \<Rightarrow> bool" where
  "fheap m b fs A e \<longleftrightarrow> fchain m b ((b, 0) # fs) b \<and> sorted_wrt before fs \<and>
     (\<forall>x\<in>set fs \<union> A. 1 \<le> snd x \<and> unat b + 8 \<le> unat (fst x) \<and> unat (fst x) + 8 * snd x \<le> e) \<and>
     (\<forall>x\<in>A. unat (load32 m (fst x + 4)) = snd x) \<and> (\<forall>x\<in>A. \<forall>y\<in>set fs. off x y) \<and> (\<forall>x\<in>A. \<forall>y\<in>A. x \<noteq> y \<longrightarrow> off x y) \<and>
     0x60000000 \<le> unat b \<and> unat b + 8 \<le> e \<and> e \<le> 0xFFFFFFF0"

lemma fchain_append: "fchain m p (xs @ ys) q \<longleftrightarrow> (\<exists>r. fchain m p xs r \<and> fchain m r ys q)"
  by (induction xs arbitrary: p) auto

lemma fchain_cong:
  assumes "\<And>x. x \<in> set fs \<Longrightarrow> load32 m' (fst x) = load32 m (fst x) \<and> load32 m' (fst x + 4) = load32 m (fst x + 4)"
  shows "fchain m' p fs q = fchain m p fs q"
  using assms
proof (induction fs arbitrary: p)
  case (Cons x fs)
  have "load32 m' (fst x) = load32 m (fst x)" "load32 m' (fst x + 4) = load32 m (fst x + 4)" using Cons.prems [of x] by simp_all
  then show ?case using Cons by (cases x) simp
qed simp

lemma fheap_off:
  assumes "fheap m b fs A e" and "x \<in> set fs" and "y \<in> set fs" and "x \<noteq> y"
  shows "off x y"
proof -
  obtain i j where "i < length fs" "x = fs ! i" "j < length fs" "y = fs ! j" using assms(2,3) by (auto simp: in_set_conv_nth)
  then have "before x y \<or> before y x"
    using assms(1,4) unfolding fheap_def by (metis linorder_neqE_nat sorted_wrt_nth_less)
  then show ?thesis by (auto simp: off_def before_def)
qed

lemma fheap_sep:
  assumes "fheap m b fs A e" and "x \<in> insert (b, 0) (set fs \<union> A)" and "y \<in> insert (b, 0) (set fs \<union> A)" and "x \<noteq> y"
  shows "hsep (fst x) (fst y)"
proof -
  have a: "\<forall>x\<in>set fs \<union> A. 1 \<le> snd x \<and> unat b + 8 \<le> unat (fst x) \<and> unat (fst x) + 8 * snd x \<le> e" "e \<le> 0xFFFFFFF0"
    using assms(1) unfolding fheap_def by blast+
  have B: "1 \<le> snd x \<and> unat b + 8 \<le> unat (fst x) \<and> unat (fst x) + 8 * snd x \<le> 0xFFFFFFF0" if "x \<in> set fs \<union> A" for x
    using a(1) [rule_format, OF that] a(2) by linarith
  have "off x y" if "x \<in> set fs" "y \<in> set fs" "x \<noteq> y" for x y by (rule fheap_off [OF assms(1) that])
  then have o: "off x y" if "x \<in> set fs \<union> A" "y \<in> set fs \<union> A" "x \<noteq> y" for x y
    using that assms(1) unfolding fheap_def off_def by blast
  have h1: "hsep (fst x) (fst y)" if "x \<in> set fs \<union> A" "y \<in> set fs \<union> A" "x \<noteq> y" for x y
    using o [OF that] B [OF that(1)] B [OF that(2)] unfolding off_def hsep_def header_ok_def by linarith
  have h2: "hsep b (fst y)" "hsep (fst y) b" if "y \<in> set fs \<union> A" for y
    using B [OF that] unfolding hsep_def header_ok_def by auto
  show ?thesis
  proof (cases "x = (b, 0)")
    case True
    then show ?thesis using h2(1) [of y] assms(3,4) by simp
  next
    case False
    then show ?thesis using h1 [of x y] h2(2) [of x] assms(2-4) by (cases "y = (b, 0)") auto
  qed
qed

text \<open>Bytes of allocated blocks that stay.\<close>

definition keeps :: "ublock set \<Rightarrow> (u32 \<Rightarrow> u8) \<Rightarrow> (u32 \<Rightarrow> u8) \<Rightarrow> bool" where
  "keeps A m m' \<longleftrightarrow> (\<forall>(a, n)\<in>A. \<forall>x. unat a \<le> unat x \<and> unat x < unat a + 8 * n \<longrightarrow> m' x = m x)"

lemma keeps_refl: "keeps A m m"
  by (auto simp: keeps_def)

lemma keeps_trans: "keeps A m m' \<Longrightarrow> keeps A m' m'' \<Longrightarrow> keeps A m m''"
  by (fastforce simp: keeps_def)

lemma keeps_store:
  assumes "header_ok c" and "\<forall>x\<in>A. unat c + 8 \<le> unat (fst x) \<or> unat (fst x) + 8 * snd x \<le> unat c" and "d = c \<or> d = c + 4"
  shows "keeps A m (store32 m d v)"
proof -
  have "store32 m d v x = m x" if "(a, n) \<in> A" "unat a \<le> unat x" "unat x < unat a + 8 * n" for a n x
  proof (rule store32_other_nat)
    have "unat c + 8 \<le> unat a \<or> unat a + 8 * n \<le> unat c" using assms(2) that(1) by fastforce
    then show "unat x < unat d \<or> unat d + 4 \<le> unat x" using assms(1,3) that(2,3) header_size_addr [of c] by auto
    show "unat d \<le> 4294967292" using assms(1,3) header_size_addr [of c] by (auto simp: header_ok_def)
  qed
  then show ?thesis by (auto simp: keeps_def)
qed

lemma keeps_header:
  assumes "keeps A m m'" and "(a, n) \<in> A" and "1 \<le> n" and "header_ok a"
  shows "load32 m' (a + 4) = load32 m (a + 4)"
proof -
  have "m' (a + 4 + of_nat j) = m (a + 4 + of_nat j)" if "j < 4" for j
  proof -
    have "unat (a + 4 + of_nat j) = unat a + 4 + j"
      using assms(4) that header_size_addr [of a] unat_of_nat32 [of j] by (subst unat_add_no_wrap32) (auto simp: header_ok_def)
    then show ?thesis using assms(1-3) that unfolding keeps_def by fastforce
  qed
  from this [of 0] this [of 1] this [of 2] this [of 3] show ?thesis by (intro load32_cong) simp_all
qed

section \<open>Finding the place of a block\<close>

lemma free_place_up:
  assumes "fchain (umem s) p (as @ (x, j) # bs) q" and "sorted_wrt before (as @ (x, j) # bs)"
    and "\<forall>y\<in>set as. unat (fst y) < unat bp" and "unat x < unat bp" and "\<forall>y\<in>set bs. unat bp < unat (fst y)" and "bs = [] \<Longrightarrow> unat q \<le> unat x"
  shows "free_place bp p s = Some x"
  using assms
proof (induction as arbitrary: p)
  case Nil
  then show ?case
    by (subst free_place.simps) (cases bs; auto simp: h_ptr_def word_less_nat_alt word_le_nat_alt)
next
  case (Cons y as)
  obtain a n where y: "y = (a, n)" by force
  have p: "p = a" and nx: "fchain (umem s) (load32 (umem s) a) (as @ (x, j) # bs) q" using Cons.prems(1) by (simp_all add: y)
  have "load32 (umem s) a = fst (hd (as @ [(x, j)]))" using nx by (cases as) auto
  then have "unat a < unat (load32 (umem s) a)" "unat (load32 (umem s) a) < unat bp"
    using Cons.prems(2-4) by (cases as; auto simp: y before_def)+
  then have "free_place bp p s = free_place bp (load32 (umem s) a) s"
    by (subst free_place.simps) (auto simp: p h_ptr_def word_less_nat_alt word_le_nat_alt)
  then show ?case using Cons nx by simp
qed

lemma free_place_down:
  assumes "fchain (umem s) p bs q" and "sorted_wrt before bs" and "\<forall>y\<in>set bs. unat bp < unat (fst y)" and "unat q < unat bp"
  shows "free_place bp p s = free_place bp q s"
  using assms
proof (induction bs arbitrary: p)
  case (Cons y bs)
  obtain a n where y: "y = (a, n)" by force
  have p: "p = a" and nx: "fchain (umem s) (load32 (umem s) a) bs q" using Cons.prems(1) by (simp_all add: y)
  have "unat bp < unat a" using Cons.prems(3) by (simp add: y)
  moreover have "unat a < unat (load32 (umem s) a) \<or> load32 (umem s) a = q"
    using nx Cons.prems(2) by (cases bs) (auto simp: y before_def)
  ultimately have "free_place bp p s = free_place bp (load32 (umem s) a) s"
    using Cons.prems(4) by (subst free_place.simps) (auto simp: p h_ptr_def word_less_nat_alt word_le_nat_alt)
  then show ?case using Cons nx by simp
qed simp

section \<open>Joining blocks\<close>

text \<open>The header at \<open>c\<close> gets_u \<open>r\<close> as its successor, or swallows it when the two blocks touch.\<close>

definition link_to :: "(u32 \<Rightarrow> u8) \<Rightarrow> u32 \<Rightarrow> u32 \<Rightarrow> (u32 \<Rightarrow> u8)" where
  "link_to m c r = (if c + 8 * load32 m (c + 4) = r
     then let m' = store32 m (c + 4) (load32 m (c + 4) + load32 m (r + 4)) in store32 m' c (load32 m' r) else store32 m c r)"

fun join :: "ublock \<Rightarrow> ublock list \<Rightarrow> ublock list" where
  "join (c, u) [] = [(c, u)]"
| "join (c, u) ((y, k) # ys) = (if unat c + 8 * u = unat y then (c, u + k) # ys else (c, u) # (y, k) # ys)"

lemma link_to_other:
  assumes "hsep c d"
  shows "load32 (link_to m c r) d = load32 m d" "load32 (link_to m c r) (d + 4) = load32 m (d + 4)"
  using assms by (simp_all add: link_to_def Let_def)

lemma link_to_keeps:
  assumes "header_ok c" and "\<forall>x\<in>A. unat c + 8 \<le> unat (fst x) \<or> unat (fst x) + 8 * snd x \<le> unat c"
  shows "keeps A m (link_to m c r)"
proof -
  have k: "keeps A m (store32 m d v)" if "d = c \<or> d = c + 4" for m d v using keeps_store [OF assms that] .
  then have "keeps A m (store32 (store32 m (c + 4) v) c w)" for v w by (intro keeps_trans [OF k [of "c + 4"] k]) simp_all
  then show ?thesis using k by (simp add: link_to_def Let_def)
qed

lemma link_to_chain:
  assumes "header_ok c" and "unat (load32 m (c + 4)) = u" and "unat c + 8 * u \<le> 0xFFFFFFF0" and "fchain m r ys q"
    and ys: "\<And>y. y \<in> set ys \<Longrightarrow> hsep c (fst y) \<and> unat (fst y) + 8 * snd y \<le> 0xFFFFFFF0" and "ys = [] \<Longrightarrow> unat r < unat c"
  shows "fchain (link_to m c r) c (join (c, u) ys) q"
proof -
  have w: "unat (c + 8 * load32 m (c + 4)) = unat c + 8 * u" using unat_units [of c "load32 m (c + 4)"] assms(2,3) by simp
  show ?thesis
  proof (cases ys)
    case Nil
    then have "c + 8 * load32 m (c + 4) \<noteq> r" using assms(6) w by (auto simp: word_eq_iff_unat32)
    then show ?thesis using Nil assms by (simp add: link_to_def)
  next
    case (Cons z zs)
    obtain y k where z: "z = (y, k)" by force
    have r: "r = y" and k: "unat (load32 m (y + 4)) = k" and zs: "fchain m (load32 m y) zs q" using assms(4) by (simp_all add: Cons z)
    have sep: "hsep c y" and y: "unat y + 8 * k \<le> 0xFFFFFFF0" using ys [of z] by (simp_all add: Cons z)
    have eq: "c + 8 * load32 m (c + 4) = y \<longleftrightarrow> unat c + 8 * u = unat y" by (simp add: word_eq_iff_unat32 w)
    have others: "fchain (link_to m c r) p xs q = fchain m p xs q" if "set xs \<subseteq> set ys" for p xs
      using ys that link_to_other by (intro fchain_cong) blast
    show ?thesis
    proof (cases "unat c + 8 * u = unat y")
      case True
      have "unat (load32 m (c + 4) + load32 m (y + 4)) = u + k"
        using y True assms(2) k by (subst unat_add_no_wrap32) auto
      then show ?thesis using others [of zs] assms(1) sep zs True eq by (auto simp: Cons z link_to_def r Let_def)
    next
      case False
      then show ?thesis using others [of ys] assms(1,2,4) sep eq by (auto simp: Cons z link_to_def r)
    qed
  qed
qed

lemma join_all:
  assumes "Q (c, u)" and "\<And>y. y \<in> set ys \<Longrightarrow> Q y" and "\<And>y k. (y, k) \<in> set ys \<Longrightarrow> unat c + 8 * u = unat y \<Longrightarrow> Q (c, u + k)"
    and "z \<in> set (join (c, u) ys)"
  shows "Q z"
proof (cases ys)
  case Nil
  then show ?thesis using assms(1,4) by simp
next
  case (Cons x xs)
  obtain y k where x: "x = (y, k)" by force
  consider "z = (c, u)" | "z \<in> set ys" | "z = (c, u + k)" "unat c + 8 * u = unat y" using assms(4) by (auto simp: Cons x split: if_splits)
  then show ?thesis using assms(1-3) by cases (auto simp: Cons x)
qed

lemma join_sorted:
  assumes "sorted_wrt before ys" and "\<And>y. y \<in> set ys \<Longrightarrow> unat c + 8 * u \<le> unat (fst y) \<and> 1 \<le> snd y"
  shows "sorted_wrt before (join (c, u) ys)"
proof (cases ys)
  case (Cons z zs)
  obtain y k where z: "z = (y, k)" by force
  have "unat y + 8 * k < unat (fst x)" if "x \<in> set zs" for x using assms(1) that by (auto simp: Cons z before_def)
  moreover have "unat c + 8 * u \<le> unat y" using assms(2) [of z] by (simp add: Cons z)
  ultimately show ?thesis using assms(1) by (fastforce simp: Cons z before_def)
qed simp

lemma join_hd: "\<exists>v ws. join (c, u) ys = (c, v) # ws \<and> u \<le> v"
  by (cases "((c, u), ys)" rule: join.cases) auto

section \<open>Releasing a block\<close>

lemma fheap_block:
  assumes "fheap m b fs A e" and "x \<in> set fs \<union> A"
  shows "1 \<le> snd x" "unat b + 8 \<le> unat (fst x)" "unat (fst x) + 8 * snd x \<le> e" "e \<le> 0xFFFFFFF0" "header_ok (fst x)"
proof -
  show *: "1 \<le> snd x" "unat b + 8 \<le> unat (fst x)" "unat (fst x) + 8 * snd x \<le> e" "e \<le> 0xFFFFFFF0"
    using assms unfolding fheap_def by blast+
  then show "header_ok (fst x)" unfolding header_ok_def by linarith
qed

lemma fheap_sorted:
  assumes "fheap m b fs A e"
  shows "sorted_wrt before ((b, 0) # fs)"
proof -
  have "before (b, 0) x" if "x \<in> set fs" for x using fheap_block(2) [OF assms, of x] that by (simp add: before_def)
  then show ?thesis using assms by (simp add: fheap_def)
qed

lemma free_position:
  assumes fh: "fheap m b fs A e" and bp: "(bp, u) \<in> A"
  obtains as x j bs where "(b, 0) # fs = as @ (x, j) # bs" "\<forall>y\<in>set as. unat (fst y) < unat bp" "unat x < unat bp" "unat x + 8 * j \<le> unat bp"
    "\<forall>y\<in>set bs. unat bp + 8 * u \<le> unat (fst y)"
proof -
  let ?P = "\<lambda>y. unat (fst y) < unat bp"
  have B: "1 \<le> u" "unat b + 8 \<le> unat bp" using fheap_block [OF fh, of "(bp, u)"] bp by simp_all
  have "\<exists>y\<in>set ((b, 0) # fs). ?P y" using B(2) by simp
  then obtain as y bs where sp: "(b, 0) # fs = as @ y # bs" and y: "?P y" "\<forall>z\<in>set bs. \<not> ?P z"
    using split_list_last_prop [of "(b, 0) # fs" ?P] by blast
  obtain x j where xj: "y = (x, j)" by force
  have o: "off (bp, u) z" if "z \<in> set fs" for z using fh bp that unfolding fheap_def by blast
  have "unat x + 8 * j \<le> unat bp"
  proof (cases "y = (b, 0)")
    case False
    then have "y \<in> set fs" using sp by (metis in_set_conv_decomp set_ConsD)
    then show ?thesis using o [of y] y(1) B(1) by (auto simp: xj off_def)
  qed (use y xj in simp)
  moreover have "unat bp + 8 * u \<le> unat (fst z)" if "z \<in> set bs" for z
  proof -
    have z: "z \<in> set fs" using sp that by (cases as) auto
    show ?thesis using o [OF z] y(2) that fheap_block(1) [OF fh, of z] z by (auto simp: off_def)
  qed
  moreover have "?P z" if "z \<in> set as" for z
    using fheap_sorted [OF fh] y(1) that unfolding sp by (fastforce simp: sorted_wrt_append before_def)
  ultimately show ?thesis using that [of as x j bs] sp y(1) xj by simp
qed

lemma split_order:
  assumes "ys @ a # zs = as @ b # bs"
  shows "(\<exists>us. as = ys @ us \<and> a # zs = us @ b # bs) \<or> (\<exists>us. bs = us @ a # zs)"
proof -
  consider us where "ys = as @ us" "us @ a # zs = b # bs" | us where "as = ys @ us" "a # zs = us @ b # bs"
    using assms by (auto simp: append_eq_append_conv2)
  then show ?thesis
  proof cases
    case (1 us)
    then show ?thesis by (cases us) auto
  qed blast
qed

lemma free_place_ok:
  assumes fh: "fheap (umem s) b fs A e" and bp: "(bp, u) \<in> A" and fp: "freep s \<in> insert b (fst ` set fs)"
    and sp: "(b, 0) # fs = as @ (x, j) # bs" "\<forall>y\<in>set as. unat (fst y) < unat bp" "unat x < unat bp" "\<forall>y\<in>set bs. unat bp + 8 * u \<le> unat (fst y)"
  shows "free_place bp (freep s) s = Some x"
proof -
  let ?N = "(b, 0) # fs"
  have B: "1 \<le> u" "unat b + 8 \<le> unat bp" using fheap_block [OF fh, of "(bp, u)"] bp by simp_all
  have ch: "fchain (umem s) b ?N b" using fh by (simp add: fheap_def)
  have so: "sorted_wrt before ?N" by (rule fheap_sorted [OF fh])
  have bs: "\<forall>y\<in>set bs. unat bp < unat (fst y)" using sp(4) B(1) by fastforce
  have bx: "unat b \<le> unat x" using so sp(1) by (cases as) (auto simp: before_def)
  have up: "free_place bp q s = Some x" if "fchain (umem s) q (zs @ (x, j) # bs) b" "ys @ zs = as" for q ys zs
    using that so sp bs bx unfolding sp(1) by (intro free_place_up [of s q zs x j bs b bp]) (auto simp: sorted_wrt_append)
  have all: "free_place bp b s = Some x" using up [of b as "[]"] ch sp(1) by simp
  have "\<exists>n. (freep s, n) \<in> set ?N" using fp by force
  then obtain n where "(freep s, n) \<in> set ?N" ..
  then obtain ys zs where N: "?N = ys @ (freep s, n) # zs" by (meson split_list)
  then have f: "fchain (umem s) (freep s) ((freep s, n) # zs) b" using ch unfolding N by (auto simp: fchain_append)
  from N sp(1) have eq: "ys @ (freep s, n) # zs = as @ (x, j) # bs" by simp
  from split_order [OF eq] show ?thesis
  proof
    assume "\<exists>us. as = ys @ us \<and> (freep s, n) # zs = us @ (x, j) # bs"
    then obtain us where "as = ys @ us" "(freep s, n) # zs = us @ (x, j) # bs" by blast
    then show ?thesis using f up [of "freep s" us ys] by simp
  next
    assume "\<exists>us. bs = us @ (freep s, n) # zs"
    then obtain us where us: "bs = us @ (freep s, n) # zs" ..
    have "free_place bp (freep s) s = free_place bp b s"
      using f us bs so B(2) unfolding sp(1) by (intro free_place_down [of s _ "(freep s, n) # zs"]) (auto simp: sorted_wrt_append)
    then show ?thesis by (simp add: all)
  qed
qed

lemma insert_after_eq:
  assumes "hsep bp x"
  shows "insert_after bp x s = s\<lparr>umem := link_to (link_to (umem s) bp (load32 (umem s) x)) x bp, freep := x\<rparr>"
proof -
  have "header_ok x" using assms by (simp add: hsep_def)
  then show ?thesis using assms by (simp add: insert_after_def link_to_def h_ptr_def h_size_def set_h_ptr_def set_h_size_def Let_def)
qed

text \<open>A block in the area of the heap and apart from all of \<open>A\<close>.\<close>

definition ublk :: "u32 \<Rightarrow> nat \<Rightarrow> ublock set \<Rightarrow> ublock \<Rightarrow> bool" where
  "ublk b e A z \<longleftrightarrow> 1 \<le> snd z \<and> unat b + 8 \<le> unat (fst z) \<and> unat (fst z) + 8 * snd z \<le> e \<and> (\<forall>w\<in>A. off w z)"

lemma fheap_ublk:
  assumes "fheap m b fs A e"
  shows "z \<in> set fs \<Longrightarrow> ublk b e A z" "z \<in> A \<Longrightarrow> ublk b e (A - {z}) z"
  using assms fheap_block [OF assms, of z] unfolding fheap_def ublk_def by blast+

lemma ublk_mono: "ublk b e A z \<Longrightarrow> A' \<subseteq> A \<Longrightarrow> ublk b e A' z"
  by (auto simp: ublk_def)

lemma ublk_clear:
  assumes "ublk b e A (c, u)"
  shows "\<forall>w\<in>A. unat c + 8 \<le> unat (fst w) \<or> unat (fst w) + 8 * snd w \<le> unat c"
proof
  fix w
  assume "w \<in> A"
  then have "off w (c, u)" "1 \<le> u" using assms by (simp_all add: ublk_def)
  then show "unat c + 8 \<le> unat (fst w) \<or> unat (fst w) + 8 * snd w \<le> unat c" unfolding off_def fst_conv snd_conv by linarith
qed

lemma ublk_join:
  assumes "ublk b e A (c, u)" and ys: "\<And>y. y \<in> set ys \<Longrightarrow> ublk b e A y" and A: "\<And>w. w \<in> A \<Longrightarrow> 1 \<le> snd w"
    and z: "z \<in> set (join (c, u) ys)"
  shows "ublk b e A z"
proof (rule join_all [where Q = "ublk b e A", OF assms(1) ys _ z])
  fix y k
  assume "(y, k) \<in> set ys" and t: "unat c + 8 * u = unat y"
  then have y: "ublk b e A (y, k)" by (simp add: ys)
  have "off w (c, u + k)" if "w \<in> A" for w
  proof -
    have "off w (c, u)" "off w (y, k)" "1 \<le> snd w" using that y assms(1) A by (simp_all add: ublk_def)
    then show ?thesis using t unfolding off_def by auto
  qed
  then show "ublk b e A (c, u + k)" using y assms(1) t by (auto simp: ublk_def)
qed

lemma fheap_fresh:
  assumes "fheap m b fs A e" and "x \<in> A"
  shows "x \<notin> insert (b, 0) (set fs)"
proof -
  have "1 \<le> snd x" using fheap_block(1) [OF assms(1), of x] assms(2) by simp
  moreover have "off x x" if "x \<in> set fs" using fheap_ublk(1) [OF assms(1) that] assms(2) by (simp add: ublk_def)
  ultimately show ?thesis by (auto simp: off_def)
qed

lemma fheap_base:
  assumes "fheap m b fs A e"
  shows "header_ok b" "\<forall>w\<in>A. unat b + 8 \<le> unat (fst w)"
  using assms fheap_block(2) [OF assms] by (auto simp: fheap_def header_ok_def)

lemma node_clear:
  assumes fh: "fheap m b fs A e" and x: "(x, j) \<in> insert (b, 0) (set fs)"
  shows "header_ok x" "\<forall>w\<in>A. unat x + 8 \<le> unat (fst w) \<or> unat (fst w) + 8 * snd w \<le> unat x"
  using fheap_base [OF fh] ublk_clear [OF fheap_ublk(1) [OF fh, of "(x, j)"]] fheap_block(5) [OF fh, of "(x, j)"] x by auto

lemma insert_chain:
  assumes fh: "fheap m b fs A e" and bp: "(bp, u) \<in> A"
    and sp: "(b, 0) # fs = as @ (x, j) # bs" "unat x < unat bp" "\<forall>y\<in>set bs. unat bp + 8 * u \<le> unat (fst y)" "unat x + 8 * j \<le> unat bp"
  shows "fchain (link_to (link_to m bp (load32 m x)) x bp) b (as @ join (x, j) (join (bp, u) bs)) b" "hsep bp x"
    "keeps (A - {(bp, u)}) m (link_to (link_to m bp (load32 m x)) x bp)"
proof -
  let ?m1 = "link_to m bp (load32 m x)" and ?L = "join (bp, u) bs" and ?A = "A - {(bp, u)}"
  have N: "insert (b, 0) (set fs) = set as \<union> {(x, j)} \<union> set bs" using arg_cong [OF sp(1), of set] by auto
  note B = fheap_block [OF fh, of "(bp, u)", simplified, OF disjI2, OF bp]
  have sepA: "hsep bp (fst y)" if "y \<in> insert (b, 0) (set fs)" for y
    using fheap_sep [OF fh, of "(bp, u)" y] fheap_fresh [OF fh bp] bp that by auto
  have x: "(x, j) \<in> insert (b, 0) (set fs)" using N by blast
  show hx: "hsep bp x" using sepA [OF x] by simp
  have "keeps ?A m ?m1" using link_to_keeps B(5) ublk_clear [OF fheap_ublk(2) [OF fh bp]] by simp
  moreover have "keeps ?A ?m1 (link_to ?m1 x bp)" using node_clear [OF fh x] by (intro link_to_keeps) auto
  ultimately show "keeps ?A m (link_to ?m1 x bp)" by (rule keeps_trans)
  have so: "sorted_wrt before (as @ (x, j) # bs)" using fheap_sorted [OF fh] sp(1) by simp
  have sepx: "hsep x (fst y)" if "y \<in> set as \<union> set bs" for y
  proof -
    have "y \<noteq> (x, j)" using so that by (auto simp: sorted_wrt_append before_def)
    then show ?thesis using fheap_sep [OF fh, of "(x, j)" y] x that N by auto
  qed
  have "fchain m b (as @ (x, j) # bs) b" using fh sp(1) by (simp add: fheap_def)
  then have ca: "fchain m b as x" and cx: "unat (load32 m (x + 4)) = j" and cb: "fchain m (load32 m x) bs b" by (auto simp: fchain_append)
  have bb: "unat (fst y) + 8 * snd y \<le> 0xFFFFFFF0" if "y \<in> set bs" for y
  proof -
    have "y \<in> set fs" using sp(1) that by (cases as) auto
    then show ?thesis using fheap_block(3,4) [OF fh, of y] by simp
  qed
  have c1: "fchain ?m1 bp ?L b"
    using B cb bb sepA N fh bp cb by (intro link_to_chain) (auto simp: fheap_def)
  let ?Q = "\<lambda>y :: ublock. hsep x (fst y) \<and> unat (fst y) + 8 * snd y \<le> 0xFFFFFFF0"
  have "?Q (bp, u)" using B(3,4) hsep_sym [OF hx] by simp
  moreover have "?Q y" if "y \<in> set bs" for y using sepx bb that by simp
  moreover have "?Q (bp, u + k)" if "(y, k) \<in> set bs" "unat bp + 8 * u = unat y" for y k
    using hsep_sym [OF hx] bb [OF that(1)] that(2) by simp
  ultimately have q: "?Q y" if "y \<in> set ?L" for y by (rule join_all [where Q = ?Q, OF _ _ _ that])
  have sz: "unat (load32 ?m1 (x + 4)) = j" using cx link_to_other(2) [OF hx] by simp
  have bd: "unat x + 8 * j \<le> 0xFFFFFFF0" using sp(4) B(3,4) by linarith
  have ne: "?L \<noteq> []" using join_hd [of bp u bs] by force
  have c2: "fchain (link_to ?m1 x bp) x (join (x, j) ?L) b"
    by (rule link_to_chain [OF node_clear(1) [OF fh x] sz bd c1 q]) (use ne in simp_all)
  have "fchain (link_to ?m1 x bp) b as x = fchain m b as x"
    using sepA sepx N link_to_other by (intro fchain_cong) auto
  then show "fchain (link_to ?m1 x bp) b (as @ join (x, j) ?L) b" using ca c2 by (auto simp: fchain_append)
qed

text \<open>The new free list, behind the static header.\<close>

lemma joined_list:
  assumes fh: "fheap m b fs A e" and bp: "(bp, u) \<in> A"
    and sp: "(b, 0) # fs = as @ (x, j) # bs" "unat x < unat bp" "\<forall>y\<in>set bs. unat bp + 8 * u \<le> unat (fst y)" "unat x + 8 * j \<le> unat bp"
  obtains fs' where "as @ join (x, j) (join (bp, u) bs) = (b, 0) # fs'" "sorted_wrt before fs'"
    "\<forall>z\<in>set fs'. ublk b e (A - {(bp, u)}) z" "\<exists>z\<in>set fs'. u \<le> snd z" "x \<in> insert b (fst ` set fs')"
proof -
  let ?L = "join (bp, u) bs" and ?A = "A - {(bp, u)}"
  let ?J = "join (x, j) ?L"
  have bs: "y \<in> set fs" if "y \<in> set bs" for y using sp(1) that by (cases as) auto
  have A1: "1 \<le> snd w" if "w \<in> ?A" for w using fheap_block(1) [OF fh, of w] that by simp
  have so: "sorted_wrt before (as @ (x, j) # bs)" using fheap_sorted [OF fh] sp(1) by simp
  have u1: "1 \<le> u" using fheap_block(1) [OF fh, of "(bp, u)"] bp by simp
  have L: "ublk b e ?A z" if "z \<in> set ?L" for z
  proof (rule ublk_join [OF fheap_ublk(2) [OF fh bp] _ A1 that])
    show "ublk b e ?A y" if "y \<in> set bs" for y by (rule ublk_mono [OF fheap_ublk(1) [OF fh bs [OF that]]]) blast
  qed
  have geL: "unat bp \<le> unat (fst z) \<and> 1 \<le> snd z" if "z \<in> set ?L" for z
  proof (rule join_all [where Q = "\<lambda>z. unat bp \<le> unat (fst z) \<and> 1 \<le> snd z", OF _ _ _ that])
    show "unat bp \<le> unat (fst y) \<and> 1 \<le> snd y" if "y \<in> set bs" for y
    proof -
      have "unat bp + 8 * u \<le> unat (fst y)" using sp(3) that by blast
      then show ?thesis using fheap_block(1) [OF fh, of y] bs [OF that] by simp
    qed
  qed (use u1 in auto)
  have sL: "sorted_wrt before ?L"
    using so sp(3) fheap_block(1) [OF fh] bs by (intro join_sorted) (auto simp: sorted_wrt_append)
  have "unat x + 8 * j \<le> unat (fst z) \<and> 1 \<le> snd z" if "z \<in> set ?L" for z using geL [OF that] sp(4) by linarith
  then have sJ: "sorted_wrt before ?J" by (rule join_sorted [OF sL])
  obtain v ws where Lv: "?L = (bp, v) # ws" "u \<le> v" using join_hd [of bp u bs] by blast
  have J: "?J = (x, j + v) # ws \<or> ?J = (x, j) # (bp, v) # ws" by (simp add: Lv)
  have geJ: "unat x \<le> unat (fst z)" if "z \<in> set ?J" for z
  proof -
    have "fst z = x \<or> z \<in> set ?L" using J that by (auto simp: Lv)
    then show ?thesis using geL [of z] sp(2) by auto
  qed
  have "before a z" if "a \<in> set as" "z \<in> set ?J" for a z
    using so that(1) geJ [OF that(2)] by (fastforce simp: sorted_wrt_append before_def)
  then have sN: "sorted_wrt before (as @ ?J)" using so sJ by (simp add: sorted_wrt_append)
  show ?thesis
  proof (cases as)
    case Nil
    then have "x = b" "j = 0" using sp(1) by simp_all
    moreover have "unat b \<noteq> unat bp" using sp(2) \<open>x = b\<close> by simp
    ultimately have "as @ ?J = (b, 0) # ?L" by (simp add: Nil Lv)
    then show ?thesis using that [of ?L] sL L Lv \<open>x = b\<close> by auto
  next
    case (Cons y as')
    then have y: "y = (b, 0)" and x: "(x, j) \<in> set fs" and as': "set as' \<subseteq> set fs" using sp(1) by auto
    have "ublk b e ?A z" if "z \<in> set ?J" for z
      by (rule ublk_join [OF ublk_mono [OF fheap_ublk(1) [OF fh x]] L A1 that]) auto
    moreover have "ublk b e ?A z" if "z \<in> set as'" for z using ublk_mono [OF fheap_ublk(1) [OF fh]] as' that by blast
    moreover have "\<exists>z\<in>set ?J. u \<le> snd z" using J Lv(2) by auto
    moreover have "x \<in> fst ` set ?J" using J by auto
    ultimately have "\<forall>z\<in>set (as' @ ?J). ublk b e ?A z" "\<exists>z\<in>set (as' @ ?J). u \<le> snd z" "x \<in> insert b (fst ` set (as' @ ?J))"
      unfolding set_append by blast+
    then show ?thesis using sN by (intro that [of "as' @ ?J"]) (simp_all add: Cons y)
  qed
qed

lemma fheapI:
  assumes "fheap m b fs A e" and "fchain m' b ((b, 0) # fs') b" and "sorted_wrt before fs'" and "\<And>z. z \<in> set fs' \<Longrightarrow> ublk b e A' z"
    and "keeps A' m m'" and "A' \<subseteq> A"
  shows "fheap m' b fs' A' e"
proof -
  have "unat (load32 m' (fst x + 4)) = snd x" if "x \<in> A'" for x
  proof -
    have x: "x \<in> A" using that assms(6) by blast
    then show ?thesis
      using keeps_header [OF assms(5), of "fst x" "snd x"] fheap_block(1,5) [OF assms(1), of x] assms(1) that by (simp add: fheap_def)
  qed
  moreover have "\<forall>x\<in>set fs' \<union> A'. 1 \<le> snd x \<and> unat b + 8 \<le> unat (fst x) \<and> unat (fst x) + 8 * snd x \<le> e"
    using assms(4,6) fheap_block [OF assms(1)] unfolding ublk_def by blast
  moreover have "\<forall>x\<in>A'. \<forall>y\<in>set fs'. off x y" using assms(4) unfolding ublk_def by blast
  moreover have "\<forall>x\<in>A'. \<forall>y\<in>A'. x \<noteq> y \<longrightarrow> off x y" using assms(1,6) unfolding fheap_def by blast
  moreover have "0x60000000 \<le> unat b" "unat b + 8 \<le> e" "e \<le> 0xFFFFFFF0" using assms(1) by (simp_all add: fheap_def)
  ultimately show ?thesis using assms(2,3) unfolding fheap_def by blast
qed

lemma free_ok:
  assumes fh: "fheap (umem s) b fs A e" and fp: "freep s \<in> insert b (fst ` set fs)" and bp: "(bp, u) \<in> A"
  shows "\<exists>fs' m' x. free (bp + 8) s = Some (s\<lparr>umem := m', freep := x\<rparr>) \<and> fheap m' b fs' (A - {(bp, u)}) e \<and>
    x \<in> insert b (fst ` set fs') \<and> keeps (A - {(bp, u)}) (umem s) m' \<and> (\<exists>z\<in>set fs'. u \<le> snd z)"
proof -
  obtain as x j bs where sp: "(b, 0) # fs = as @ (x, j) # bs" "\<forall>y\<in>set as. unat (fst y) < unat bp" "unat x < unat bp"
      "unat x + 8 * j \<le> unat bp" "\<forall>y\<in>set bs. unat bp + 8 * u \<le> unat (fst y)"
    by (rule free_position [OF fh bp])
  note ic = insert_chain [OF fh bp sp(1,3,5,4)]
  let ?m = "link_to (link_to (umem s) bp (load32 (umem s) x)) x bp"
  obtain fs' where fs': "as @ join (x, j) (join (bp, u) bs) = (b, 0) # fs'" "sorted_wrt before fs'"
      "\<forall>z\<in>set fs'. ublk b e (A - {(bp, u)}) z" "\<exists>z\<in>set fs'. u \<le> snd z" "x \<in> insert b (fst ` set fs')"
    by (rule joined_list [OF fh bp sp(1,3,5,4)])
  have "fheap ?m b fs' (A - {(bp, u)}) e" using ic fs' by (intro fheapI [OF fh]) auto
  moreover have "free (bp + 8) s = Some (s\<lparr>umem := ?m, freep := x\<rparr>)"
  proof -
    have b: "0x60000000 \<le> unat b" using fh by (simp add: fheap_def)
    have "unat bp + 8 * u \<le> 0xFFFFFFF0" "unat b + 8 \<le> unat bp" "1 \<le> u" using fheap_block [OF fh, of "(bp, u)"] bp by simp_all
    then have "unat (bp + 8) = unat bp + 8" by (subst unat_add_no_wrap32) auto
    then have g: "bp + 8 \<noteq> NULL" "\<not> bp + 8 < 0x60000000" using b \<open>unat b + 8 \<le> unat bp\<close> by (auto simp: word_less_nat_alt word_eq_iff_unat32)
    have "freep s \<noteq> NULL" using fp b fheap_block(2) [OF fh] by fastforce
    then show ?thesis using g free_place_ok [OF fh bp fp sp(1-3,5)] insert_after_eq [OF ic(2)] by (simp add: free_def)
  qed
  ultimately show ?thesis using fs'(4,5) ic(3) by blast
qed

section \<open>Searching a block\<close>

text \<open>What the loop does when no block is large enough.\<close>

definition grow_loop :: "u32 \<Rightarrow> 'z user_scheme \<Rightarrow> (u32 \<times> 'z user_scheme) option" where
  "grow_loop nunits s =
     (let alloc_units = (if nunits > 1024 then nunits else 1024); (cp, s) = sbrk (alloc_units * 8) s in
      if cp = -1 then Some (NULL, s)
      else do {
        s \<leftarrow> free (cp + 8) (set_h_size cp alloc_units s);
        malloc_loop nunits (freep s) (h_ptr (freep s) s) s })"

lemma malloc_scan:
  assumes "fchain (umem s) p xs r" and "xs \<noteq> []" and "fst (last xs) = freep s" and "\<forall>x\<in>set (butlast xs). fst x \<noteq> freep s"
    and "load32 (umem s) prevp = p"
  shows "(\<exists>prev q k. prev \<in> insert prevp (fst ` set xs) \<and> load32 (umem s) prev = q \<and> (q, k) \<in> set xs \<and> unat n \<le> k \<and>
      malloc_loop n prevp p s = Some (take_units n prev q s)) \<or>
    (\<forall>x\<in>set xs. snd x < unat n) \<and> malloc_loop n prevp p s = grow_loop n s"
  using assms
proof (induction xs arbitrary: p prevp)
  case (Cons x xs)
  obtain a k where x: "x = (a, k)" by force
  have p: "p = a" and k: "unat (load32 (umem s) (a + 4)) = k" and ch: "fchain (umem s) (load32 (umem s) a) xs r"
    using Cons.prems(1) by (simp_all add: x)
  show ?case
  proof (cases "unat n \<le> k")
    case True
    then have "malloc_loop n prevp p s = Some (take_units n prevp p s)"
      by (subst malloc_loop.simps) (simp add: p h_size_def word_le_nat_alt k)
    then show ?thesis using True Cons.prems(5) p x by fastforce
  next
    case False
    show ?thesis
    proof (cases "xs = []")
      case True
      then have "malloc_loop n prevp p s = grow_loop n s"
        using False Cons.prems(3) k by (subst malloc_loop.simps) (auto simp: p x h_size_def word_le_nat_alt grow_loop_def)
      then show ?thesis using True False x by simp
    next
      case ne: False
      have eq: "malloc_loop n prevp p s = malloc_loop n a (load32 (umem s) a) s"
        using False ne Cons.prems(4) by (subst malloc_loop.simps) (simp add: p x h_size_def h_ptr_def word_le_nat_alt k)
      have l: "fst (last xs) = freep s" "\<forall>x\<in>set (butlast xs). fst x \<noteq> freep s" using Cons.prems(3,4) ne by simp_all
      from Cons.IH [OF ch ne l refl] show ?thesis
      proof (elim disjE exE conjE)
        fix prev q k
        assume 1: "prev \<in> insert a (fst ` set xs)" "load32 (umem s) prev = q" "(q, k) \<in> set xs" "unat n \<le> k"
          "malloc_loop n a (load32 (umem s) a) s = Some (take_units n prev q s)"
        then have "prev \<in> insert prevp (fst ` set (x # xs))" "(q, k) \<in> set (x # xs)" by (auto simp: x)
        then show ?thesis using 1(2,4,5) unfolding eq by (intro disjI1 exI conjI)
      next
        assume "\<forall>x\<in>set xs. snd x < unat n" "malloc_loop n a (load32 (umem s) a) s = grow_loop n s"
        then show ?thesis using False unfolding eq by (simp add: x)
      qed
    qed
  qed
qed simp

text \<open>The ring seen from the block after \<open>freep\<close>.\<close>

lemma fheap_rotate:
  assumes fh: "fheap (umem s) b fs A e" and fp: "freep s \<in> insert b (fst ` set fs)"
  obtains xs where "fchain (umem s) (h_ptr (freep s) s) xs (h_ptr (freep s) s)" "xs \<noteq> []" "fst (last xs) = freep s"
    "\<forall>x\<in>set (butlast xs). fst x \<noteq> freep s" "set xs = insert (b, 0) (set fs)"
proof -
  let ?N = "(b, 0) # fs"
  have "\<exists>n. (freep s, n) \<in> set ?N" using fp by force
  then obtain n where "(freep s, n) \<in> set ?N" ..
  then obtain ys zs where N: "?N = ys @ (freep s, n) # zs" by (meson split_list)
  have ch: "fchain (umem s) b (ys @ (freep s, n) # zs) b" using fh unfolding N [symmetric] by (simp add: fheap_def)
  then have "fchain (umem s) (h_ptr (freep s) s) (zs @ ys @ [(freep s, n)]) (h_ptr (freep s) s)"
    by (auto simp: fchain_append h_ptr_def)
  moreover have "\<forall>x\<in>set ys \<union> set zs. fst x \<noteq> freep s"
    using fheap_sorted [OF fh] unfolding N by (fastforce simp: sorted_wrt_append before_def)
  moreover have "set (zs @ ys @ [(freep s, n)]) = insert (b, 0) (set fs)" using arg_cong [OF N, of set] by auto
  ultimately show ?thesis using that [of "zs @ ys @ [(freep s, n)]"] by (auto simp: butlast_append)
qed

lemma malloc_search:
  assumes fh: "fheap (umem s) b fs A e" and fp: "freep s \<in> insert b (fst ` set fs)" and n: "0 < unat n"
  shows "(\<exists>prev q k. prev \<in> insert b (fst ` set fs) \<and> load32 (umem s) prev = q \<and> (q, k) \<in> set fs \<and> unat n \<le> k \<and>
      malloc_loop n (freep s) (h_ptr (freep s) s) s = Some (take_units n prev q s)) \<or>
    (\<forall>x\<in>set fs. snd x < unat n) \<and> malloc_loop n (freep s) (h_ptr (freep s) s) s = grow_loop n s"
proof -
  obtain xs where xs: "fchain (umem s) (h_ptr (freep s) s) xs (h_ptr (freep s) s)" "xs \<noteq> []" "fst (last xs) = freep s"
      "\<forall>x\<in>set (butlast xs). fst x \<noteq> freep s" "set xs = insert (b, 0) (set fs)"
    by (rule fheap_rotate [OF fh fp])
  show ?thesis using malloc_scan [OF xs(1-4), of "freep s" n] n fp unfolding xs(5) by (auto simp: h_ptr_def)
qed

section \<open>Taking a block\<close>

lemma fheap_insert:
  assumes fh: "fheap m b fs A e" and "ublk b e A x" and "\<forall>z\<in>set fs. off x z" and "unat (load32 m (fst x + 4)) = snd x"
  shows "fheap m b fs (insert x A) e"
proof -
  have "off x y" if "y \<in> A" for y using assms(2) that by (auto simp: ublk_def off_def)
  then show ?thesis using assms unfolding fheap_def ublk_def by auto
qed

lemma ring_split:
  assumes fh: "fheap m b fs A e" and "(q, k) \<in> set fs" and "prev \<in> insert b (fst ` set fs)" and "load32 m prev = q"
  obtains as j bs where "(b, 0) # fs = as @ (prev, j) # (q, k) # bs"
proof -
  have "\<exists>j. (prev, j) \<in> set ((b, 0) # fs)" using assms(3) by force
  then obtain j as r where N: "(b, 0) # fs = as @ (prev, j) # r" by (meson split_list)
  have "fchain m b (as @ (prev, j) # r) b" using fh unfolding N [symmetric] by (simp add: fheap_def)
  then have r: "fchain m q r b" using assms(4) by (auto simp: fchain_append)
  have "q \<noteq> b" using fheap_block(2) [OF fh, of "(q, k)"] assms(2) by auto
  then obtain k' bs where r': "r = (q, k') # bs" using r by (cases r) auto
  have "(q, k') \<in> set ((b, 0) # fs)" unfolding N r' by simp
  then have "(q, k') \<in> set fs" using \<open>q \<noteq> b\<close> by simp
  then have "k' = k" using fheap_sep [OF fh, of "(q, k)" "(q, k')"] assms(2) by (auto simp: hsep_def)
  then show ?thesis using that N r' by simp
qed

lemma off_part:
  assumes "off w (q, k)" and "unat q \<le> unat p" and "unat p + 8 * i \<le> unat q + 8 * k"
  shows "off w (p, i)"
  using assms unfolding off_def fst_conv snd_conv by linarith

lemma ublk_part:
  assumes "ublk b e A (q, k)" and "unat q \<le> unat p" and "unat p + 8 * i \<le> unat q + 8 * k" and "1 \<le> i"
  shows "ublk b e A (p, i)"
  using assms off_part unfolding ublk_def fst_conv snd_conv by (meson le_trans)

text \<open>Changing the list behind \<open>prev\<close>.\<close>

lemma ring_change:
  assumes fh: "fheap m b fs A e" and N: "(b, 0) # fs = as @ (prev, j) # (q, k) # bs" and bs': "bs' = bs \<or> bs' = (q, i) # bs \<and> 1 \<le> i \<and> i \<le> k"
    and ch: "fchain m' b (as @ (prev, j) # bs') b" and kp: "keeps A m m'"
  obtains fs' where "fheap m' b fs' A e" "prev \<in> insert b (fst ` set fs')" "set fs' \<subseteq> set fs - {(q, k)} \<union> set bs'"
proof -
  have so: "sorted_wrt before (as @ (prev, j) # (q, k) # bs)" using fheap_sorted [OF fh] N by simp
  have q: "(q, k) \<in> set fs" using N by (cases as) auto
  have so': "sorted_wrt before (as @ (prev, j) # bs')"
  proof -
    have "before (q, i) x" if "before (q, k) x" "i \<le> k" for x using that by (auto simp: before_def)
    moreover have "before x (q, i) = before x (q, k)" for x by (simp add: before_def)
    ultimately show ?thesis using so bs' by (auto simp: sorted_wrt_append)
  qed
  have nq: "(q, k) \<notin> set as \<union> {(prev, j)} \<union> set bs" using so by (auto simp: sorted_wrt_append before_def)
  obtain fs' where fs': "as @ (prev, j) # bs' = (b, 0) # fs'" and sub: "set fs' \<subseteq> set fs - {(q, k)} \<union> set bs'"
  proof (cases as)
    case Nil
    then show ?thesis using that [of bs'] N by auto
  next
    case (Cons y as')
    then show ?thesis using that [of "as' @ (prev, j) # bs'"] N nq by auto
  qed
  have "ublk b e A z" if "z \<in> set fs'" for z
  proof (cases "z \<in> set fs")
    case False
    moreover have "set bs \<subseteq> set fs" using N by (cases as) auto
    ultimately have "z \<in> set bs'" "z \<notin> set bs" using sub that by blast+
    then have z: "z = (q, i)" "1 \<le> i" "i \<le> k" using bs' by auto
    then show ?thesis using ublk_part [OF fheap_ublk(1) [OF fh q], of q i] by simp
  qed (rule fheap_ublk(1) [OF fh])
  then have "fheap m' b fs' A e" using ch so' kp unfolding fs' by (intro fheapI [OF fh]) auto
  moreover have "(prev, j) \<in> set ((b, 0) # fs')" unfolding fs' [symmetric] by simp
  then have "prev \<in> insert b (fst ` set fs')" by force
  ultimately show ?thesis using that sub by blast
qed

lemma fchain_size: "fchain m p xs r \<Longrightarrow> x \<in> set xs \<Longrightarrow> unat (load32 m (fst x + 4)) = snd x"
  by (induction xs arbitrary: p) auto

lemma off_sym: "off x y \<Longrightarrow> off y x"
  by (auto simp: off_def)

lemma unlink_ok:
  assumes fh: "fheap m b fs A e" and N: "(b, 0) # fs = as @ (prev, j) # (q, k) # bs"
  obtains fs' where "fheap (store32 m prev (load32 m q)) b fs' (insert (q, k) A) e" "prev \<in> insert b (fst ` set fs')"
    "keeps A m (store32 m prev (load32 m q))"
proof -
  let ?m = "store32 m prev (load32 m q)"
  have so: "sorted_wrt before (as @ (prev, j) # (q, k) # bs)" using fheap_sorted [OF fh] N by simp
  have q: "(q, k) \<in> set fs" and bs: "set bs \<subseteq> set fs" using N by (cases as; auto)+
  have sN: "set ((b, 0) # fs) = set (as @ (prev, j) # (q, k) # bs)" using N by (rule arg_cong)
  have sep: "hsep prev (fst y)" if "y \<in> set as \<union> {(q, k)} \<union> set bs" for y
  proof -
    have "y \<noteq> (prev, j)" using so that by (auto simp: sorted_wrt_append before_def)
    then show ?thesis using fheap_sep [OF fh, of "(prev, j)" y] that sN by auto
  qed
  have ch: "fchain m b (as @ (prev, j) # (q, k) # bs) b" using fh unfolding N [symmetric] by (simp add: fheap_def)
  have p: "(prev, j) \<in> insert (b, 0) (set fs)" using sN by auto
  have ok: "header_ok prev" by (rule node_clear(1) [OF fh p])
  have "fchain ?m r xs t = fchain m r xs t" if "set xs \<subseteq> set as \<union> set bs" for r xs t
  proof (rule fchain_cong)
    fix x
    assume "x \<in> set xs"
    then have "hsep prev (fst x)" using sep that by blast
    then show "load32 ?m (fst x) = load32 m (fst x) \<and> load32 ?m (fst x + 4) = load32 m (fst x + 4)" by simp
  qed
  then have "fchain ?m b (as @ (prev, j) # bs) b" using ch ok by (auto simp: fchain_append)
  moreover have kp: "keeps A m ?m" using node_clear [OF fh p] by (intro keeps_store) auto
  ultimately obtain fs' where fs': "fheap ?m b fs' A e" "prev \<in> insert b (fst ` set fs')" "set fs' \<subseteq> set fs - {(q, k)} \<union> set bs"
    by (rule ring_change [OF fh N disjI1 [OF refl]])
  have "(q, k) \<notin> set bs" using so by (auto simp: sorted_wrt_append before_def)
  then have "off (q, k) z" if "z \<in> set fs'" for z using fheap_off [OF fh q, of z] fs'(3) bs that by blast
  moreover have "unat (load32 ?m (q + 4)) = k" using sep [of "(q, k)"] fchain_size [OF ch, of "(q, k)"] by simp
  ultimately have "fheap ?m b fs' (insert (q, k) A) e" using fheap_insert [OF fs'(1) fheap_ublk(1) [OF fh q]] by simp
  then show ?thesis using that fs'(2) kp by blast
qed

lemma split_ok:
  assumes fh: "fheap m b fs A e" and N: "(b, 0) # fs = as @ (prev, j) # (q, k) # bs" and n: "1 \<le> unat n" "unat n < k"
    and q': "q' = q + 8 * (load32 m (q + 4) - n)" and m': "m' = store32 (store32 m (q + 4) (load32 m (q + 4) - n)) (q' + 4) n"
  obtains fs' where "fheap m' b fs' (insert (q', unat n) A) e" "prev \<in> insert b (fst ` set fs')" "keeps A m m'" "ublk b e A (q', unat n)"
proof -
  have so: "sorted_wrt before (as @ (prev, j) # (q, k) # bs)" using fheap_sorted [OF fh] N by simp
  have q: "(q, k) \<in> set fs" and bs: "set bs \<subseteq> set fs" using N by (cases as; auto)+
  have sN: "set ((b, 0) # fs) = set (as @ (prev, j) # (q, k) # bs)" using N by (rule arg_cong)
  have ch: "fchain m b (as @ (prev, j) # (q, k) # bs) b" using fh unfolding N [symmetric] by (simp add: fheap_def)
  have kq: "unat (load32 m (q + 4)) = k" using fchain_size [OF ch, of "(q, k)"] by simp
  have w: "unat (load32 m (q + 4) - n) = k - unat n" using kq n by (simp add: unat_sub32)
  note B = fheap_block [OF fh, of "(q, k)", simplified, OF disjI1, OF q]
  have uq': "unat q' = unat q + 8 * (k - unat n)" unfolding q' using B(3,4) n w by (subst unat_units) simp_all
  have in_q: "unat q \<le> unat q'" "unat q' + 8 * unat n \<le> unat q + 8 * k" "unat q + 8 \<le> unat q'" using uq' n by linarith+
  have blk: "ublk b e A (q', unat n)" by (rule ublk_part [OF fheap_ublk(1) [OF fh q] in_q(1,2) n(1)])
  have ok': "header_ok q'" using blk B(4) n(1) by (simp add: ublk_def header_ok_def)
  have sep: "hsep q (fst y)" if "y \<in> set as \<union> {(prev, j)} \<union> set bs" for y
  proof -
    have "y \<noteq> (q, k)" using so that by (auto simp: sorted_wrt_append before_def)
    then show ?thesis using fheap_sep [OF fh, of "(q, k)" y] that sN by auto
  qed
  have sep': "hsep q' (fst y)" if "y \<in> set as \<union> {(prev, j)} \<union> set bs" for y
  proof (cases "y = (b, 0)")
    case True
    then show ?thesis using B(2) in_q(1) ok' fheap_base(1) [OF fh] by (simp add: hsep_def)
  next
    case False
    then have y: "y \<in> set fs" "y \<noteq> (q, k)" using that sN so by (auto simp: sorted_wrt_append before_def)
    have "off y (q', unat n)" by (rule off_part [OF fheap_off [OF fh y(1) q y(2)] in_q(1,2)])
    then show ?thesis using ok' n(1) fheap_block(1,5) [OF fh, of y] y(1) unfolding off_def hsep_def by auto
  qed
  have sepq: "hsep q' q" using in_q(3) ok' B(5) by (simp add: hsep_def)
  have "fchain m' r xs t = fchain m r xs t" if "set xs \<subseteq> set as \<union> {(prev, j)} \<union> set bs" for r xs t
  proof (rule fchain_cong)
    fix x
    assume "x \<in> set xs"
    then have "hsep q (fst x)" "hsep q' (fst x)" using sep sep' that by blast+
    then show "load32 m' (fst x) = load32 m (fst x) \<and> load32 m' (fst x + 4) = load32 m (fst x + 4)" by (simp add: m')
  qed
  note same = this
  have "load32 m' q = load32 m q" "unat (load32 m' (q + 4)) = k - unat n" using sepq B(5) w by (simp_all add: m')
  moreover have "load32 m' prev = load32 m prev" "load32 m' (prev + 4) = load32 m (prev + 4)"
    using sep [of "(prev, j)"] sep' [of "(prev, j)"] by (simp_all add: m')
  moreover have d: "(q, k - unat n) # bs = bs \<or> (q, k - unat n) # bs = (q, k - unat n) # bs \<and> 1 \<le> k - unat n \<and> k - unat n \<le> k"
    using n by simp
  moreover have "fchain m b as prev" "unat (load32 m (prev + 4)) = j" "load32 m prev = q" "fchain m (load32 m q) bs b"
    using ch by (auto simp: fchain_append)
  moreover from this have "fchain m' b as prev" "fchain m' (load32 m q) bs b" using same [of as] same [of bs] by blast+
  ultimately have "fchain m' b (as @ (prev, j) # (q, k - unat n) # bs) b" by (auto simp: fchain_append)
  moreover have kp: "keeps A m m'"
    unfolding m'
    by (rule keeps_trans [OF keeps_store [OF B(5) ublk_clear [OF fheap_ublk(1) [OF fh q]] disjI2 [OF refl]]
      keeps_store [OF ok' ublk_clear [OF blk] disjI2 [OF refl]]])
  ultimately obtain fs' where fs': "fheap m' b fs' A e" "prev \<in> insert b (fst ` set fs')" "set fs' \<subseteq> set fs - {(q, k)} \<union> set ((q, k - unat n) # bs)"
    by (rule ring_change [OF fh N d])
  have nq: "(q, k) \<notin> set bs" using so by (auto simp: sorted_wrt_append before_def)
  have "off (q', unat n) z" if "z \<in> set fs'" for z
  proof (cases "z = (q, k - unat n)")
    case True
    then show ?thesis using uq' by (simp add: off_def)
  next
    case False
    then have z: "z \<in> set fs" "z \<noteq> (q, k)" using fs'(3) that bs nq by auto
    show ?thesis by (rule off_sym [OF off_part [OF fheap_off [OF fh z(1) q z(2)] in_q(1,2)]])
  qed
  moreover have "unat (load32 m' (q' + 4)) = unat n" by (simp add: m')
  ultimately have "fheap m' b fs' (insert (q', unat n) A) e" using fheap_insert [OF fs'(1) blk] by simp
  then show ?thesis using that fs'(2) kp blk by blast
qed

lemma take_ok:
  assumes fh: "fheap (umem s) b fs A e" and q: "(q, k) \<in> set fs" and pv: "prev \<in> insert b (fst ` set fs)" "load32 (umem s) prev = q"
    and n: "1 \<le> unat n" "unat n \<le> k"
  shows "\<exists>q' fs' m'. take_units n prev q s = (q' + 8, s\<lparr>umem := m', freep := prev\<rparr>) \<and> fheap m' b fs' (insert (q', unat n) A) e \<and>
    prev \<in> insert b (fst ` set fs') \<and> keeps A (umem s) m' \<and> ublk b e A (q', unat n)"
proof -
  obtain as j bs where N: "(b, 0) # fs = as @ (prev, j) # (q, k) # bs" by (rule ring_split [OF fh q pv])
  have "fchain (umem s) b ((b, 0) # fs) b" using fh by (simp add: fheap_def)
  then have kq: "unat (load32 (umem s) (q + 4)) = k" using fchain_size [of "umem s" b "(b, 0) # fs" b "(q, k)"] q by simp
  note defs = take_units_def h_size_def h_ptr_def set_h_ptr_def set_h_size_def Let_def
  show ?thesis
  proof (cases "unat n = k")
    case True
    then have "load32 (umem s) (q + 4) = n" using kq by (simp add: word_eq_iff_unat32)
    then have t: "take_units n prev q s = (q + 8, s\<lparr>umem := store32 (umem s) prev (load32 (umem s) q), freep := prev\<rparr>)" by (simp add: defs)
    obtain fs' where "fheap (store32 (umem s) prev (load32 (umem s) q)) b fs' (insert (q, k) A) e" "prev \<in> insert b (fst ` set fs')"
        "keeps A (umem s) (store32 (umem s) prev (load32 (umem s) q))"
      by (rule unlink_ok [OF fh N])
    then show ?thesis using t True fheap_ublk(1) [OF fh q] by blast
  next
    case False
    then have lt: "unat n < k" using n(2) by simp
    let ?q = "q + 8 * (load32 (umem s) (q + 4) - n)"
    let ?m = "store32 (store32 (umem s) (q + 4) (load32 (umem s) (q + 4) - n)) (?q + 4) n"
    have "load32 (umem s) (q + 4) \<noteq> n" using kq lt by auto
    then have t: "take_units n prev q s = (?q + 8, s\<lparr>umem := ?m, freep := prev\<rparr>)" by (simp add: defs)
    obtain fs' where "fheap ?m b fs' (insert (?q, unat n) A) e" "prev \<in> insert b (fst ` set fs')" "keeps A (umem s) ?m" "ublk b e A (?q, unat n)"
      by (rule split_ok [OF fh N n(1) lt refl refl])
    then show ?thesis using t by blast
  qed
qed

section \<open>Growing the heap\<close>

text \<open>The break after a history of calls, from \<open>e0\<close> on.\<close>

fun brk_at :: "((u32 \<times> u32 list) list \<Rightarrow> u32) \<Rightarrow> u32 \<Rightarrow> (u32 \<times> u32 list) list \<Rightarrow> u32" where
  "brk_at env e0 [] = e0"
| "brk_at env e0 ((n, args) # h) = (if n = 103 \<and> env ((n, args) # h) \<noteq> -1 then brk_at env e0 h + hd args else brk_at env e0 h)"

text \<open>
  What the library relies on in \<^verbatim>\<open>sys_sbrk\<close>: a positive increment is refused, or the old break is returned, and the memory
  of the program below the old break stays as it is. Addresses up to \<open>0xFFFFFFF0\<close> can be granted.
\<close>

definition sbrk_law :: "'z user_scheme \<Rightarrow> u32 \<Rightarrow> bool" where
  "sbrk_law s e0 \<longleftrightarrow> (\<forall>h i. 0 < unat i \<and> unat i < 0x80000000 \<longrightarrow> trap_env s ((103, [i]) # h) = -1 \<or>
       trap_env s ((103, [i]) # h) = brk_at (trap_env s) e0 h \<and> unat (brk_at (trap_env s) e0 h) + unat i \<le> 0xFFFFFFF0) \<and>
     (\<forall>h i m x. unat x < unat (brk_at (trap_env s) e0 h) \<longrightarrow> trap_mem s ((103, [i]) # h) m x = m x)"

abbreviation brk :: "'z user_scheme \<Rightarrow> u32 \<Rightarrow> u32" where
  "brk s e0 \<equiv> brk_at (trap_env s) e0 (traps s)"

definition uheap :: "'z user_scheme \<Rightarrow> u32 \<Rightarrow> ublock set \<Rightarrow> bool" where
  "uheap s e0 A \<longleftrightarrow> sbrk_law s e0 \<and> (\<exists>fs. fheap (umem s) (base_addr s) fs A (unat (brk s e0)) \<and> freep s \<in> insert (base_addr s) (fst ` set fs))"

lemma load32_below:
  assumes "\<And>x. unat x < e \<Longrightarrow> m' x = m x" and "unat a + 4 \<le> e" and "e \<le> 0xFFFFFFF0"
  shows "load32 m' a = load32 m a"
proof -
  have "m' (a + of_nat j) = m (a + of_nat j)" if "j < 4" for j
  proof -
    have "unat (a + of_nat j) = unat a + j" using that assms(2,3) unat_of_nat32 [of j] by (subst unat_add_no_wrap32) auto
    then show ?thesis using assms(1,2) that by simp
  qed
  from this [of 0] this [of 1] this [of 2] this [of 3] show ?thesis by (intro load32_cong) simp_all
qed

lemma fheap_grow:
  assumes fh: "fheap m b fs A e" and m': "\<And>x. unat x < e \<Longrightarrow> m' x = m x" and "e \<le> e'" and "e' \<le> 0xFFFFFFF0"
  shows "fheap m' b fs A e'"
proof -
  have l: "load32 m' (fst x) = load32 m (fst x) \<and> load32 m' (fst x + 4) = load32 m (fst x + 4)" if "x \<in> insert (b, 0) (set fs \<union> A)" for x
  proof -
    have b: "unat b + 8 \<le> e" "e \<le> 0xFFFFFFF0" using fh by (simp_all add: fheap_def)
    have e: "unat (fst x) + 8 \<le> e"
    proof (cases "x = (b, 0)")
      case False
      then have "x \<in> set fs \<union> A" using that by blast
      then show ?thesis using fheap_block(1,3) [OF fh, of x] by linarith
    qed (use b in simp)
    with b have "unat (fst x + 4) = unat (fst x) + 4" by (intro header_size_addr) (simp add: header_ok_def)
    then show ?thesis using load32_below [OF m', where a = "fst x"] load32_below [OF m', where a = "fst x + 4"] e b by simp
  qed
  have "fchain m' b ((b, 0) # fs) b = fchain m b ((b, 0) # fs) b" using l by (intro fchain_cong) auto
  moreover have "\<forall>x\<in>A. load32 m' (fst x + 4) = load32 m (fst x + 4)" using l by blast
  moreover have "\<forall>x\<in>set fs \<union> A. 1 \<le> snd x \<and> unat b + 8 \<le> unat (fst x) \<and> unat (fst x) + 8 * snd x \<le> e'"
    using fheap_block(1-3) [OF fh] assms(3) by (meson le_trans)
  ultimately show ?thesis using fh assms(3,4) unfolding fheap_def by simp
qed

lemma keeps_below:
  assumes "fheap m b fs A e" and "\<And>x. unat x < e \<Longrightarrow> m' x = m x"
  shows "keeps A m m'"
proof -
  have "unat x < e" if "(a, n) \<in> A" "unat x < unat a + 8 * n" for a n x using fheap_block(3) [OF assms(1), of "(a, n)"] that by simp
  then show ?thesis using assms(2) unfolding keeps_def by blast
qed

text \<open>A successful request: a block of \<open>n\<close> units joins the allocated ones, whose bytes stay.\<close>

definition got_block :: "nat \<Rightarrow> 'z user_scheme \<Rightarrow> u32 \<Rightarrow> ublock set \<Rightarrow> u32 \<times> 'z user_scheme \<Rightarrow> bool" where
  "got_block n s e0 A res \<longleftrightarrow> (case res of (r, s') \<Rightarrow> \<exists>q. r = q + 8 \<and> uheap s' e0 (insert (q, n) A) \<and> base_addr s' = base_addr s \<and>
     keeps A (umem s) (umem s') \<and> ublk (base_addr s) 0xFFFFFFF0 A (q, n))"

text \<open>
  A request for \<open>n\<close> units that fails: no free block has as many, the kernel was asked once, for these units or 1024 if that is more, and it
  answered -1.
\<close>

definition sbrk_refused :: "nat \<Rightarrow> 'z user_scheme \<Rightarrow> 'z user_scheme \<Rightarrow> bool" where
  "sbrk_refused n s s' \<longleftrightarrow> (let h = (103, [of_nat (8 * max n 1024)]) # traps s in trap_env s h = -1 \<and> traps s' = h)"

definition no_block :: "nat \<Rightarrow> 'z user_scheme \<Rightarrow> bool" where
  "no_block n s \<longleftrightarrow> freep s = NULL \<or> (\<exists>fs A e. fheap (umem s) (base_addr s) fs A e \<and> (\<forall>x\<in>set fs. snd x < n))"

definition refused :: "nat \<Rightarrow> 'z user_scheme \<Rightarrow> 'z user_scheme \<Rightarrow> bool" where
  "refused n s s' \<longleftrightarrow> sbrk_refused n s s' \<and> no_block n s"

lemma fheap_end: "fheap m b fs A e \<Longrightarrow> e \<le> 0xFFFFFFF0"
  by (simp add: fheap_def)

lemma ublk_end: "ublk b e A x \<Longrightarrow> e \<le> e' \<Longrightarrow> ublk b e' A x"
  by (auto simp: ublk_def)

lemma take_got:
  assumes law: "sbrk_law s e0" and fh: "fheap (umem s) (base_addr s) fs A (unat (brk s e0))"
    and q: "(q, k) \<in> set fs" "prev \<in> insert (base_addr s) (fst ` set fs)" "load32 (umem s) prev = q" and n: "1 \<le> unat n" "unat n \<le> k"
  shows "got_block (unat n) s e0 A (take_units n prev q s)"
proof -
  obtain q' fs' m' where t: "take_units n prev q s = (q' + 8, s\<lparr>umem := m', freep := prev\<rparr>)"
      "fheap m' (base_addr s) fs' (insert (q', unat n) A) (unat (brk s e0))" "prev \<in> insert (base_addr s) (fst ` set fs')" "keeps A (umem s) m'"
      "ublk (base_addr s) (unat (brk s e0)) A (q', unat n)"
    using take_ok [OF fh q n] by blast
  have "uheap (s\<lparr>umem := m', freep := prev\<rparr>) e0 (insert (q', unat n) A)"
    using law t(2,3) unfolding uheap_def sbrk_law_def by auto
  then show ?thesis using t ublk_end [OF t(5) fheap_end [OF fh]] by (auto simp: got_block_def)
qed

text \<open>The new memory behind the heap is released as a block of its own.\<close>

lemma new_chunk:
  assumes fh: "fheap m b fs A (unat c)" and fp: "freep s \<in> insert b (fst ` set fs)" and k: "1 \<le> unat k" "unat c + 8 * unat k \<le> 0xFFFFFFF0"
    and below: "\<And>x. unat x < unat c \<Longrightarrow> umem s x = m x"
  shows "\<exists>fs' m' x. free (c + 8) (set_h_size c k s) = Some (s\<lparr>umem := m', freep := x\<rparr>) \<and> fheap m' b fs' A (unat c + 8 * unat k) \<and>
    x \<in> insert b (fst ` set fs') \<and> keeps A m m' \<and> (\<exists>z\<in>set fs'. unat k \<le> snd z)"
proof -
  let ?m = "store32 (umem s) (c + 4) k" and ?e = "unat c + 8 * unat k" and ?B = "insert (c, unat k) A"
  have hc: "header_ok c" using k by (simp add: header_ok_def)
  have m: "?m x = m x" if "unat x < unat c" for x
    using store32_other_nat [of x "c + 4" "umem s" k] below [OF that] that header_size_addr [OF hc] k by simp
  have f1: "fheap ?m b fs A ?e" using k(2) by (intro fheap_grow [OF fh m]) auto
  have le_c: "unat (fst w) + 8 * snd w \<le> unat c" if "w \<in> set fs \<union> A" for w using fheap_block(3) [OF fh that] .
  have "unat b + 8 \<le> unat c" using fh by (simp add: fheap_def)
  then have "ublk b ?e A (c, unat k)" using le_c k(1) by (auto simp: ublk_def off_def)
  moreover have "\<forall>z\<in>set fs. off (c, unat k) z" using le_c by (auto simp: off_def)
  ultimately have f2: "fheap ?m b fs ?B ?e" by (intro fheap_insert [OF f1]) simp_all
  have new: "(c, unat k) \<notin> A" using le_c [of "(c, unat k)"] k(1) by auto
  have s: "umem (set_h_size c k s) = ?m" "freep (set_h_size c k s) = freep s" "(set_h_size c k s)\<lparr>umem := m', freep := x\<rparr> = s\<lparr>umem := m', freep := x\<rparr>" for m' x
    by (simp_all add: set_h_size_def)
  obtain fs' m' x where "free (c + 8) (set_h_size c k s) = Some (s\<lparr>umem := m', freep := x\<rparr>)" "fheap m' b fs' (?B - {(c, unat k)}) ?e"
      "x \<in> insert b (fst ` set fs')" "keeps (?B - {(c, unat k)}) ?m m'" "\<exists>z\<in>set fs'. unat k \<le> snd z"
    using free_ok [of "set_h_size c k s" b fs ?B ?e c "unat k"] f2 fp unfolding s by blast
  moreover have "?B - {(c, unat k)} = A" using new by simp
  ultimately show ?thesis using keeps_trans [OF keeps_below [OF fh m]] by metis
qed

lemma grow_ok:
  assumes u: "uheap s e0 A" and n: "1 \<le> unat n" "8 * unat n < 0x80000000"
  shows "\<exists>r s'. grow_loop n s = Some (r, s') \<and> (r = NULL \<and> sbrk_refused (unat n) s s' \<and> uheap s' e0 A \<and> keeps A (umem s) (umem s') \<or> got_block (unat n) s e0 A (r, s'))"
proof -
  define k where "k = (if n > 1024 then n else 1024)"
  have k: "unat n \<le> unat k" "1 \<le> unat k" "8 * unat k < 0x80000000" using n by (auto simp: k_def word_less_nat_alt)
  let ?i = "k * 8" and ?e = "unat (brk s e0)"
  have i: "unat ?i = 8 * unat k" using k(3) by (subst unat_mult_lem [THEN iffD1]) auto
  obtain fs where law: "sbrk_law s e0" and fh: "fheap (umem s) (base_addr s) fs A ?e" and fp: "freep s \<in> insert (base_addr s) (fst ` set fs)"
    using u by (auto simp: uheap_def)
  let ?h = "(103, [?i]) # traps s"
  let ?m = "trap_mem s ?h (umem s)" and ?r = "trap_env s ?h"
  let ?s1 = "s\<lparr>traps := ?h, umem := ?m\<rparr>"
  have m: "?m x = umem s x" if "unat x < ?e" for x using law that by (simp add: sbrk_law_def)
  have sb: "sbrk ?i s = (?r, ?s1)" by (simp add: sbrk_def trap_def Let_def)
  show ?thesis
  proof (cases "?r = -1")
    case True
    then have g: "grow_loop n s = Some (NULL, ?s1)" unfolding grow_loop_def Let_def k_def [symmetric] sb by simp
    have "fheap ?m (base_addr s) fs A ?e" by (rule fheap_grow [OF fh m order_refl fheap_end [OF fh]])
    then have "uheap ?s1 e0 A" using True fp law unfolding uheap_def sbrk_law_def by auto
    moreover have "keeps A (umem s) ?m" by (rule keeps_below [OF fh m])
    moreover have "?i = of_nat (8 * max (unat n) 1024)"
      by (auto simp: k_def max_def word_less_nat_alt)
    then have "sbrk_refused (unat n) s ?s1" using True by (simp only: sbrk_refused_def Let_def) simp
    ultimately show ?thesis using g by simp
  next
    case False
    moreover have "?r = -1 \<or> ?r = brk s e0 \<and> ?e + unat ?i \<le> 0xFFFFFFF0"
      using law [unfolded sbrk_law_def, THEN conjunct1, rule_format, of ?i "traps s"] i k(2,3) by simp
    ultimately have r: "?r = brk s e0" "?e + 8 * unat k \<le> 0xFFFFFFF0" using i by auto
    have "\<exists>fs' m' x. free (brk s e0 + 8) (set_h_size (brk s e0) k ?s1) = Some (?s1\<lparr>umem := m', freep := x\<rparr>) \<and>
      fheap m' (base_addr s) fs' A (?e + 8 * unat k) \<and> x \<in> insert (base_addr s) (fst ` set fs') \<and> keeps A (umem s) m' \<and> (\<exists>z\<in>set fs'. unat k \<le> snd z)"
      using fp k(2) r(2) m by (intro new_chunk [OF fh]) simp_all
    then obtain fs' m' x where fr: "free (brk s e0 + 8) (set_h_size (brk s e0) k ?s1) = Some (?s1\<lparr>umem := m', freep := x\<rparr>)"
        "fheap m' (base_addr s) fs' A (?e + 8 * unat k)" "x \<in> insert (base_addr s) (fst ` set fs')" "keeps A (umem s) m'" "\<exists>z\<in>set fs'. unat k \<le> snd z"
      by blast
    let ?s2 = "?s1\<lparr>umem := m', freep := x\<rparr>"
    have g: "grow_loop n s = malloc_loop n (freep ?s2) (h_ptr (freep ?s2) ?s2) ?s2"
      using False fr(1) unfolding grow_loop_def Let_def k_def [symmetric] sb by (simp add: r(1))
    have e2: "unat (brk ?s2 e0) = ?e + 8 * unat k"
      using False r i by (simp add: unat_add_no_wrap32)
    have law2: "sbrk_law ?s2 e0" using law by (simp add: sbrk_law_def)
    have fh2: "fheap (umem ?s2) (base_addr ?s2) fs' A (unat (brk ?s2 e0))" using fr(2) e2 by simp
    have "\<not> (\<forall>x\<in>set fs'. snd x < unat n)" using fr(5) k(1) by fastforce
    then obtain prev q j where t: "prev \<in> insert (base_addr ?s2) (fst ` set fs')" "load32 (umem ?s2) prev = q" "(q, j) \<in> set fs'" "unat n \<le> j"
        "grow_loop n s = Some (take_units n prev q ?s2)"
      using malloc_search [OF fh2, of n] fr(3) n(1) unfolding g by auto
    have "got_block (unat n) ?s2 e0 A (take_units n prev q ?s2)" by (rule take_got [OF law2 fh2 t(3,1,2) n(1) t(4)])
    then have "got_block (unat n) s e0 A (take_units n prev q ?s2)" using fr(4) keeps_trans unfolding got_block_def by (auto split: prod.splits)
    then show ?thesis using t(5) by (cases "take_units n prev q ?s2") auto
  qed
qed

end
