(* ===== verification/User_Heap_Props.thy ===== *)
theory User_Heap_Props
  imports User_Heap_Spec
begin

text \<open>
  The allocator of user programs provides the interface \<open>allocator\<close>, like that of the kernel.
\<close>

section \<open>The interface\<close>

text \<open>The heap before the first request, and the allocations as the program sees them.\<close>

definition unused :: "'z user_scheme \<Rightarrow> u32 \<Rightarrow> bool" where
  "unused s e0 \<longleftrightarrow> sbrk_law s e0 \<and> freep s = NULL \<and> 0x60000000 \<le> unat (base_addr s) \<and> unat (base_addr s) + 8 \<le> unat (brk s e0) \<and> unat (brk s e0) \<le> 0xFFFFFFF0"

definition payload :: "ublock \<Rightarrow> u32 \<times> nat" where
  "payload x = (fst x + 8, 8 * (snd x - 1))"

definition user_live :: "'z user_scheme \<Rightarrow> (u32 \<times> nat) set \<Rightarrow> bool" where
  "user_live s L \<longleftrightarrow> (\<exists>e0 A. L = payload ` A \<and> (uheap s e0 A \<or> A = {} \<and> unused s e0))"

definition first_use :: "'z user_scheme \<Rightarrow> 'z user_scheme" where
  "first_use s = set_h_size (base_addr s) 0 ((set_h_ptr (base_addr s) (base_addr s) s)\<lparr>freep := base_addr s\<rparr>)"

lemma first_use_ok:
  assumes "unused s e0"
  shows "uheap (first_use s) e0 {}" "base_addr (first_use s) = base_addr s"
proof -
  have "header_ok (base_addr s)" using assms by (simp add: unused_def header_ok_def)
  then have "fheap (umem (first_use s)) (base_addr s) [] {} (unat (brk s e0))"
    using assms by (simp add: fheap_def unused_def first_use_def set_h_size_def set_h_ptr_def)
  then show "uheap (first_use s) e0 {}" "base_addr (first_use s) = base_addr s"
    using assms by (auto simp: uheap_def unused_def first_use_def set_h_size_def set_h_ptr_def sbrk_law_def intro!: exI [of _ "[]"])
qed

lemma uheap_freep: "uheap s e0 A \<Longrightarrow> freep s \<noteq> NULL"
proof -
  assume "uheap s e0 A"
  then obtain fs where fh: "fheap (umem s) (base_addr s) fs A (unat (brk s e0))" and fp: "freep s \<in> insert (base_addr s) (fst ` set fs)"
    by (auto simp: uheap_def)
  have "0x60000000 \<le> unat (base_addr s)" using fh by (simp add: fheap_def)
  moreover have "unat (base_addr s) \<le> unat (freep s)" using fp fheap_block(2) [OF fh] by fastforce
  ultimately show ?thesis by auto
qed

lemma nunits_eq:
  fixes k :: u32
  assumes "0 < unat k" and "unat k \<le> 0x7FFFFFE0"
  shows "unat ((k + 8 - 1) div 8 + 1) = (unat k + 7) div 8 + 1"
proof -
  have "unat (k + 7) = unat k + 7" using unat_add_no_wrap32 [of k 7] assms(2) by simp
  then have "unat ((k + 7) div 8) = (unat k + 7) div 8" by (simp add: unat_div)
  moreover have "unat ((k + 7) div 8 + 1) = unat ((k + 7) div 8) + 1"
    using unat_add_no_wrap32 [of "(k + 7) div 8" 1] calculation assms(2) by simp
  ultimately show ?thesis by (simp add: add_diff_eq [symmetric])
qed

text \<open>A request: refused without a change for the program, or a new block of enough units, one of them the header.\<close>

definition units :: "u32 \<Rightarrow> nat" where
  "units k = (unat k + 7) div 8 + 1"

lemma malloc_ok:
  assumes u: "uheap s e0 A" and k: "0 < unat k" "unat k \<le> 0x7FFFFFE0"
  shows "\<exists>r s'. malloc k s = Some (r, s') \<and> (r = NULL \<and> refused (units k) s s' \<and> uheap s' e0 A \<and> keeps A (umem s) (umem s') \<or>
    got_block (units k) s e0 A (r, s'))"
proof -
  let ?n = "(k + 8 - 1) div 8 + 1"
  have n: "unat ?n = units k" unfolding units_def by (rule nunits_eq [OF k])
  have n': "1 \<le> unat ?n" "8 * unat ?n < 0x80000000" unfolding n units_def using k by auto
  obtain fs where law: "sbrk_law s e0" and fh: "fheap (umem s) (base_addr s) fs A (unat (brk s e0))" and fp: "freep s \<in> insert (base_addr s) (fst ` set fs)"
    using u by (auto simp: uheap_def)
  have "\<not> 0xFFFFFF00 \<le> k" "k \<noteq> 0" using k by (auto simp: word_le_nat_alt)
  then have m: "malloc k s = malloc_loop ?n (freep s) (h_ptr (freep s) s) s" using uheap_freep [OF u] by (simp add: malloc_def Let_def)
  have n0: "0 < unat ?n" using n'(1) by linarith
  from malloc_search [OF fh fp n0] show ?thesis
  proof (elim disjE exE conjE)
    fix prev q j
    assume t: "prev \<in> insert (base_addr s) (fst ` set fs)" "load32 (umem s) prev = q" "(q, j) \<in> set fs" "unat ?n \<le> j"
      "malloc_loop ?n (freep s) (h_ptr (freep s) s) s = Some (take_units ?n prev q s)"
    have "got_block (unat ?n) s e0 A (take_units ?n prev q s)" by (rule take_got [OF law fh t(3,1,2) n'(1) t(4)])
    then show ?thesis unfolding m t(5) n by (cases "take_units ?n prev q s") auto
  next
    assume g: "\<forall>x\<in>set fs. snd x < unat ?n" "malloc_loop ?n (freep s) (h_ptr (freep s) s) s = grow_loop ?n s"
    have "no_block (units k) s" using fh g(1) unfolding no_block_def n by blast
    then show ?thesis using grow_ok [OF u n'] g(2) unfolding m n refused_def by auto
  qed
qed


section \<open>The laws of an allocator\<close>

lemma malloc_first:
  assumes "unused s e0" and "0 < unat k" and "unat k \<le> 0x7FFFFFE0"
  shows "malloc k s = malloc k (first_use s)"
proof -
  have "freep s = NULL" "base_addr s \<noteq> NULL" using assms by (auto simp: unused_def)
  moreover have "\<not> 0xFFFFFF00 \<le> k" "k \<noteq> 0" using assms(2,3) by (auto simp: word_le_nat_alt)
  moreover have "freep (first_use s) = base_addr s" by (simp add: first_use_def set_h_size_def set_h_ptr_def)
  ultimately show ?thesis by (simp add: malloc_def Let_def first_use_def [symmetric])
qed

lemma uheap_block:
  assumes "uheap s e0 A" and "x \<in> A"
  shows "1 \<le> snd x" "unat (fst x) + 8 * snd x \<le> 0xFFFFFFF0" "0x60000000 \<le> unat (fst x)" "unat (fst x + 8) = unat (fst x) + 8"
proof -
  obtain fs where fh: "fheap (umem s) (base_addr s) fs A (unat (brk s e0))" using assms(1) by (auto simp: uheap_def)
  note B = fheap_block [OF fh, of x]
  have "0x60000000 \<le> unat (base_addr s)" using fh by (simp add: fheap_def)
  then show *: "1 \<le> snd x" "unat (fst x) + 8 * snd x \<le> 0xFFFFFFF0" "0x60000000 \<le> unat (fst x)" using B(1-4) assms(2) by auto
  then show "unat (fst x + 8) = unat (fst x) + 8" using unat_add_no_wrap32 [of "fst x" 8] by simp
qed

lemma payload_inj:
  assumes "uheap s e0 A"
  shows "inj_on payload A"
proof (rule inj_onI)
  fix x y
  assume xy: "x \<in> A" "y \<in> A" and p: "payload x = payload y"
  then have "fst x = fst y" "snd x - 1 = snd y - 1" by (auto simp: payload_def)
  then show "x = y" using uheap_block(1) [OF assms xy(1)] uheap_block(1) [OF assms xy(2)] by (simp add: prod_eq_iff)
qed

lemma got_block_live:
  assumes "got_block n s e0 A (r, s')" and u: "uheap s e0 A"
  shows "r \<noteq> NULL \<and> user_live s' (insert (r, 8 * (n - 1)) (payload ` A)) \<and>
    (\<forall>x\<in>payload ` A. fst x \<noteq> r \<and> disjoint_ranges (r, 8 * (n - 1)) x)"
proof -
  obtain q where q: "r = q + 8" "uheap s' e0 (insert (q, n) A)" "ublk (base_addr s) 0xFFFFFFF0 A (q, n)"
    using assms(1) by (auto simp: got_block_def)
  note B = uheap_block [OF q(2), of "(q, n)", simplified]
  have "user_live s' (payload ` insert (q, n) A)" using q(2) unfolding user_live_def by blast
  then have live: "user_live s' (insert (r, 8 * (n - 1)) (payload ` A))" by (simp add: payload_def q(1))
  have "r \<noteq> NULL" using B(3,4) q(1) by auto
  moreover have "fst (payload w) \<noteq> r \<and> disjoint_ranges (r, 8 * (n - 1)) (payload w)" if "w \<in> A" for w
  proof -
    have "off w (q, n)" using q(3) that by (simp add: ublk_def)
    then show ?thesis using B(1,4) uheap_block(1,4) [OF u that] by (auto simp: off_def payload_def disjoint_ranges_def q(1))
  qed
  ultimately show ?thesis using live by blast
qed

lemma user_alloc_law:
  assumes "user_live s L" and k: "unat k \<le> 0x7FFFFFE0"
  shows "\<exists>r s'. malloc k s = Some (r, s') \<and> (r = NULL \<and> user_live s' L \<or>
    r \<noteq> NULL \<and> (\<exists>n\<ge>unat k. user_live s' (insert (r, n) L) \<and> (\<forall>x\<in>L. fst x \<noteq> r \<and> disjoint_ranges (r, n) x)))"
proof (cases "unat k = 0")
  case True
  then have "k = 0" by (simp add: word_eq_iff_unat32)
  then show ?thesis using assms(1) by (simp add: malloc_def)
next
  case False
  then have k0: "0 < unat k" by simp
  obtain e0 A where L: "L = payload ` A" and alt: "uheap s e0 A \<or> A = {} \<and> unused s e0" using assms(1) by (auto simp: user_live_def)
  obtain t where t: "malloc k s = malloc k t" "uheap t e0 A"
    using alt malloc_first [of s e0 k] first_use_ok(1) [of s e0] k0 k by blast
  have n: "unat k \<le> 8 * (units k - 1)" by (simp add: units_def)
  from malloc_ok [OF t(2) k0 k] obtain r s' where r: "malloc k s = Some (r, s')"
    "r = NULL \<and> uheap s' e0 A \<or> got_block (units k) t e0 A (r, s')" unfolding t(1) by blast
  from r(2) show ?thesis
  proof
    assume "r = NULL \<and> uheap s' e0 A"
    then show ?thesis using r(1) L by (auto simp: user_live_def)
  next
    assume "got_block (units k) t e0 A (r, s')"
    from got_block_live [OF this t(2)] n show ?thesis unfolding r(1) L by auto
  qed
qed

text \<open>The contents of the allocations \<open>L\<close>.\<close>

definition same_contents :: "(u32 \<times> nat) set \<Rightarrow> 'z user_scheme \<Rightarrow> 'z user_scheme \<Rightarrow> bool" where
  "same_contents L s s' \<longleftrightarrow> (\<forall>(p, n)\<in>L. \<forall>i<n. umem s' (p + of_nat i) = umem s (p + of_nat i))"

lemma keeps_contents:
  assumes u: "uheap s e0 A" and "keeps B (umem s) (umem s')" and "B \<subseteq> A"
  shows "same_contents (payload ` B) s s'"
proof -
  have "umem s' (fst x + 8 + of_nat i) = umem s (fst x + 8 + of_nat i)" if "x \<in> B" "i < 8 * (snd x - 1)" for x i
  proof -
    have x: "x \<in> A" using that(1) assms(3) by blast
    note B = uheap_block [OF u x]
    have "unat (fst x + 8 + of_nat i) = unat (fst x) + 8 + i"
      using unat_add_no_wrap32 [of "fst x + 8" "of_nat i"] B that(2) by (simp add: unat_of_nat32)
    then show ?thesis using assms(2) that B(1) unfolding keeps_def by (cases x) fastforce
  qed
  then show ?thesis by (auto simp: same_contents_def payload_def)
qed

lemma free_spec:
  assumes "user_live s L" and "(r, n) \<in> L"
  shows "\<exists>s'. free r s = Some s' \<and> user_live s' (L - {(r, n)}) \<and> same_contents (L - {(r, n)}) s s'"
proof -
  obtain e0 A where L: "L = payload ` A" and u: "uheap s e0 A" using assms by (auto simp: user_live_def)
  obtain bp k where x: "(bp, k) \<in> A" "r = bp + 8" "payload (bp, k) = (r, n)" using assms(2) L by (auto simp: payload_def)
  obtain fs where law: "sbrk_law s e0" and fh: "fheap (umem s) (base_addr s) fs A (unat (brk s e0))" and fp: "freep s \<in> insert (base_addr s) (fst ` set fs)"
    using u by (auto simp: uheap_def)
  obtain fs' m' p where f: "free r s = Some (s\<lparr>umem := m', freep := p\<rparr>)" "fheap m' (base_addr s) fs' (A - {(bp, k)}) (unat (brk s e0))"
      "p \<in> insert (base_addr s) (fst ` set fs')" "keeps (A - {(bp, k)}) (umem s) m'"
    using free_ok [OF fh fp x(1)] unfolding x(2) by blast
  let ?s = "s\<lparr>umem := m', freep := p\<rparr>"
  have "uheap ?s e0 (A - {(bp, k)})" using law f(2,3) by (auto simp: uheap_def sbrk_law_def)
  moreover have p: "payload ` (A - {(bp, k)}) = L - {(r, n)}"
    using payload_inj [OF u] x(1,3) unfolding L by (subst inj_on_image_set_diff [of _ A]) auto
  moreover have "same_contents (L - {(r, n)}) s ?s"
    using keeps_contents [OF u, of "A - {(bp, k)}" ?s] f(4) unfolding p by auto
  ultimately show ?thesis using f(1) unfolding user_live_def by metis
qed

interpretation ualloc: allocator user_live malloc free "0x7FFFFFE0"
proof (unfold_locales, goal_cases)
  case (1 s L k)
  then show ?case by (rule user_alloc_law)
next
  case (2 s L r n)
  then show ?case using free_spec by blast
next
  case (3 s L)
  show ?case by (simp add: free_def)
qed

section \<open>What the program writes, and what it keeps\<close>

lemma fheap_write:
  assumes fh: "fheap m b fs A e" and x: "x \<in> A"
    and m': "\<And>z. \<not> (unat (fst x) + 8 \<le> unat z \<and> unat z < unat (fst x) + 8 * snd x) \<Longrightarrow> m' z = m z"
  shows "fheap m' b fs A e"
proof -
  have l: "load32 m' (fst y) = load32 m (fst y) \<and> load32 m' (fst y + 4) = load32 m (fst y + 4)" if y: "y \<in> insert (b, 0) (set fs \<union> A)" for y
  proof -
    have out: "unat (fst y) + 8 \<le> unat (fst x) + 8 \<or> unat (fst x) + 8 * snd x \<le> unat (fst y)"
    proof (cases "y = x")
      case False
      have "off x y" if "y \<in> set fs" using fheap_ublk(1) [OF fh that] x by (simp add: ublk_def)
      moreover have "off x y" if "y \<in> A" using fheap_ublk(2) [OF fh x] that False by (auto simp: ublk_def intro: off_sym)
      ultimately have "y = (b, 0) \<or> off x y \<and> 1 \<le> snd y" using y fheap_block(1) [OF fh, of y] by auto
      then show ?thesis using fheap_block(2) [OF fh, of x] x by (auto simp: off_def)
    qed simp
    have ok: "header_ok (fst y)" using y fheap_base(1) [OF fh] fheap_block(5) [OF fh, of y] by auto
    have "m' (fst y + of_nat j) = m (fst y + of_nat j)" if "j < 8" for j
    proof -
      have "unat (fst y + of_nat j) = unat (fst y) + j"
        using unat_add_no_wrap32 [of "fst y" "of_nat j"] ok that by (simp add: header_ok_def unat_of_nat32)
      then show ?thesis using out that by (intro m') auto
    qed
    from this [of 0] this [of 1] this [of 2] this [of 3] this [of 4] this [of 5] this [of 6] this [of 7]
    show ?thesis by (auto intro!: load32_cong simp: add.assoc)
  qed
  have "fchain m' b ((b, 0) # fs) b = fchain m b ((b, 0) # fs) b" using l by (intro fchain_cong) auto
  moreover have "\<forall>x\<in>A. load32 m' (fst x + 4) = load32 m (fst x + 4)" using l by blast
  ultimately show ?thesis using fh unfolding fheap_def by simp
qed

lemma user_live_write:
  assumes "user_live s L" and "(r, n) \<in> L" and "\<And>z. \<not> (unat r \<le> unat z \<and> unat z < unat r + n) \<Longrightarrow> m z = umem s z"
  shows "user_live (s\<lparr>umem := m\<rparr>) L"
proof -
  obtain e0 A where L: "L = payload ` A" and u: "uheap s e0 A" using assms(1,2) by (auto simp: user_live_def)
  obtain x where x: "x \<in> A" "payload x = (r, n)" using assms(2) L by auto
  obtain fs where fh: "fheap (umem s) (base_addr s) fs A (unat (brk s e0))" and fp: "freep s \<in> insert (base_addr s) (fst ` set fs)" and law: "sbrk_law s e0"
    using u by (auto simp: uheap_def)
  note B = uheap_block [OF u x(1)]
  have "m z = umem s z" if "\<not> (unat (fst x) + 8 \<le> unat z \<and> unat z < unat (fst x) + 8 * snd x)" for z
    using that x(2) B(1,4) by (intro assms(3)) (auto simp: payload_def)
  then have "fheap m (base_addr s) fs A (unat (brk s e0))" by (rule fheap_write [OF fh x(1)])
  then have "uheap (s\<lparr>umem := m\<rparr>) e0 A" using fp law by (auto simp: uheap_def sbrk_law_def)
  then show ?thesis using L by (auto simp: user_live_def)
qed

text \<open>The histories of the heap of a program.\<close>

inductive user_history :: "'z user_scheme \<Rightarrow> (u32 \<times> nat) list \<Rightarrow> bool" where
  Start: "unused s e0 \<Longrightarrow> user_history s []"
| Malloc: "user_history s P \<Longrightarrow> unat k \<le> 0x7FFFFFE0 \<Longrightarrow> malloc k s = Some (r, s') \<Longrightarrow>
     user_history s' (if r = NULL then P else (r, unat k) # P)"
| Free: "user_history s (P @ (r, k) # Q) \<Longrightarrow> free r s = Some s' \<Longrightarrow> user_history s' (P @ Q)"
| Write: "user_history s P \<Longrightarrow> (r, k) \<in> set P \<Longrightarrow> (\<And>z. \<not> (unat r \<le> unat z \<and> unat z < unat r + k) \<Longrightarrow> m z = umem s z) \<Longrightarrow>
     user_history (s\<lparr>umem := m\<rparr>) P"

lemma user_history_client: "user_history s P \<Longrightarrow> ualloc.client s P"
proof (induction rule: user_history.induct)
  case (Start s e0)
  then have "user_live s {}" by (auto simp: user_live_def)
  then show ?case by (auto simp: ualloc.client_def ualloc.live_ok_def)
next
  case (Malloc s P k r s')
  then show ?case by (intro ualloc.client_alloc)
next
  case (Free s P r k Q s')
  then show ?case using ualloc.client_release by fastforce
next
  case (Write s P r k m)
  then obtain L where L: "user_live s L" "ualloc.live_ok L" "distinct (map fst P)" "\<forall>(r, k)\<in>set P. \<exists>n\<ge>k. (r, n) \<in> L"
    by (auto simp: ualloc.client_def)
  then obtain n where n: "n \<ge> k" "(r, n) \<in> L" using Write.hyps(2) by auto
  have "user_live (s\<lparr>umem := m\<rparr>) L" using n(1) by (intro user_live_write [OF L(1) n(2)] Write.hyps(3)) auto
  then show ?case using L(2-4) unfolding ualloc.client_def by blast
qed

text \<open>
  C7. No history of the heap of a user program goes wrong. After any sequence of requests, releases of held
  pointers, and writes into held ranges since the program started, the ranges it holds are pairwise disjoint, every
  further call of \<^verbatim>\<open>malloc\<close> ends, and every held pointer can be released.
\<close>

theorem user_history_safe:
  assumes "user_history s P"
  shows "(\<forall>x\<in>set P. \<forall>y\<in>set P. x \<noteq> y \<longrightarrow> disjoint_ranges x y) \<and> distinct (map fst P) \<and>
    (\<forall>k. unat k \<le> 0x7FFFFFE0 \<longrightarrow> (\<exists>r s'. malloc k s = Some (r, s'))) \<and> (\<forall>x\<in>set P. \<exists>s'. free (fst x) s = Some s')"
proof (intro conjI ballI allI impI)
  have c: "ualloc.client s P" by (rule user_history_client [OF assms])
  show "disjoint_ranges x y" if "x \<in> set P" "y \<in> set P" "x \<noteq> y" for x y by (rule ualloc.client_disjoint [OF c that])
  show "distinct (map fst P)" using c by (auto simp: ualloc.client_def)
  show "\<exists>r s'. malloc k s = Some (r, s')" if "unat k \<le> 0x7FFFFFE0" for k by (rule ualloc.client_alloc_total [OF c that])
  show "\<exists>s'. free (fst x) s = Some s'" if "x \<in> set P" for x
    using that split_list [OF that] ualloc.client_release [of s _ "fst x" "snd x"] c by (metis prod.collapse)
qed

lemma malloc_spec:
  assumes "user_live s L" and "0 < unat k" and "unat k \<le> 0x7FFFFFE0"
  shows "\<exists>r s'. malloc k s = Some (r, s') \<and> same_contents L s s' \<and>
    (if r = NULL then refused (units k) s s' \<and> user_live s' L
     else \<exists>n\<ge>unat k. user_live s' (insert (r, n) L) \<and> (\<forall>x\<in>L. fst x \<noteq> r \<and> disjoint_ranges (r, n) x))"
proof -
  obtain e0 A where L: "L = payload ` A" and alt: "uheap s e0 A \<or> A = {} \<and> unused s e0" using assms(1) by (auto simp: user_live_def)
  have first: "refused n s s'" if "unused s e0" "refused n (first_use s) s'" for n s'
    using that by (simp add: refused_def sbrk_refused_def no_block_def unused_def first_use_def set_h_size_def set_h_ptr_def)
  obtain t where t: "malloc k s = malloc k t" "uheap t e0 A" "\<And>n s'. refused n t s' \<Longrightarrow> refused n s s'" "t = s \<or> A = {}"
    using alt malloc_first [of s e0 k] first_use_ok(1) [of s e0] first assms(2,3) by blast
  have n: "unat k \<le> 8 * (units k - 1)" by (simp add: units_def)
  from malloc_ok [OF t(2) assms(2,3)] obtain r s' where r: "malloc k s = Some (r, s')"
    "r = NULL \<and> refused (units k) t s' \<and> uheap s' e0 A \<and> keeps A (umem t) (umem s') \<or> got_block (units k) t e0 A (r, s')" unfolding t(1) by blast
  have kp: "keeps A (umem t) (umem s')" using r(2) by (auto simp: got_block_def)
  have "same_contents L s s'"
    using keeps_contents [OF t(2) kp order_refl] t(4) unfolding L by (auto simp: same_contents_def)
  moreover have "if r = NULL then refused (units k) s s' \<and> user_live s' L
     else \<exists>n\<ge>unat k. user_live s' (insert (r, n) L) \<and> (\<forall>x\<in>L. fst x \<noteq> r \<and> disjoint_ranges (r, n) x)"
    using r(2)
  proof
    assume "r = NULL \<and> refused (units k) t s' \<and> uheap s' e0 A \<and> keeps A (umem t) (umem s')"
    then show ?thesis using t(3) L by (auto simp: user_live_def)
  next
    assume g: "got_block (units k) t e0 A (r, s')"
    show ?thesis using got_block_live [OF g t(2)] n unfolding L by auto
  qed
  ultimately show ?thesis using r(1) by blast
qed

text \<open>
  C8. What \<^verbatim>\<open>malloc\<close> promises to a program. A request ends; no byte of an allocation that is in use changes; NULL
  is returned only when no free block is large enough and the kernel, asked for the units of the request or for 1024 if that is more, answers -1;
  otherwise the result is the start of at least as many bytes as were asked for, apart from all allocations in use.
\<close>

theorem malloc_contract:
  assumes "user_live s L" and "0 < unat k" and "unat k \<le> 0x7FFFFFE0"
  shows "\<exists>r s'. malloc k s = Some (r, s') \<and> same_contents L s s' \<and>
    (if r = NULL then refused (units k) s s' \<and> user_live s' L
     else \<exists>n\<ge>unat k. user_live s' (insert (r, n) L) \<and> (\<forall>x\<in>L. fst x \<noteq> r \<and> disjoint_ranges (r, n) x))"
  by (rule malloc_spec [OF assms])

text \<open>A program whose first request for memory is granted, and no other.\<close>

definition user_example :: user where
  "user_example = \<lparr>umem = (\<lambda>_. 0), freep = 0, base_addr = 0x60001000, traps = [],
     trap_env = (\<lambda>h. if length h = 1 then 0x60010000 else -1), trap_mem = (\<lambda>_ m. m)\<rparr>"

lemma user_example_unused: "unused user_example 0x60010000"
proof -
  have "trap_env user_example ((103, [i]) # h) = -1 \<or> trap_env user_example ((103, [i]) # h) = brk_at (trap_env user_example) 0x60010000 h \<and>
      unat (brk_at (trap_env user_example) 0x60010000 h) + unat i \<le> 0xFFFFFFF0" if "unat i < 0x80000000" for h i
    using that by (cases h) (auto simp: user_example_def)
  then show ?thesis by (simp add: unused_def sbrk_law_def) (simp add: user_example_def)
qed

lemma user_example_malloc:
  obtains r s' n where "malloc 16 user_example = Some (r, s')" "r \<noteq> NULL" "16 \<le> n" "user_live s' {(r, n)}"
proof -
  have "user_live user_example {}" using user_example_unused by (auto simp: user_live_def)
  moreover have "\<not> refused n user_example s'" for n s' by (simp add: refused_def sbrk_refused_def user_example_def)
  ultimately show ?thesis using malloc_spec [of user_example "{}" 16] that by (auto split: if_splits)
qed

theorem user_history_safe_witness:
  "\<exists>r s' s''. malloc 16 user_example = Some (r, s') \<and> r \<noteq> NULL \<and> free r s' = Some s''"
proof -
  obtain r s' n where m: "malloc 16 user_example = Some (r, s')" "r \<noteq> NULL" by (rule user_example_malloc)
  have "user_history s' [(r, 16)]"
    using user_history.Malloc [OF user_history.Start [OF user_example_unused] _ m(1)] m(2) by simp
  from user_history_safe [OF this] show ?thesis using m by auto
qed

theorem malloc_contract_witness:
  "\<exists>r s' r' s''. malloc 16 user_example = Some (r, s') \<and> r \<noteq> NULL \<and> malloc 32 s' = Some (r', s'') \<and>
     (\<forall>i<16. umem s'' (r + of_nat i) = umem s' (r + of_nat i))"
proof -
  obtain r s' n where m: "malloc 16 user_example = Some (r, s')" "r \<noteq> NULL" "16 \<le> n" "user_live s' {(r, n)}" by (rule user_example_malloc)
  from malloc_contract [OF m(4), of 32] obtain r' s'' where r: "malloc 32 s' = Some (r', s'')" "same_contents {(r, n)} s' s''" by auto
  have "\<forall>i<16. umem s'' (r + of_nat i) = umem s' (r + of_nat i)" using r(2) m(3) by (simp add: same_contents_def)
  then show ?thesis using m(1,2) r(1) by blast
qed

end
