(* ===== verification/User_Lib.thy ===== *)
theory User_Lib
  imports User_Heap Process
begin

text \<open>
  The C library of user programs, \<^verbatim>\<open>userland/lib/oslib.c\<close>, apart from its allocator: the calls of the kernel, strings, formatted output
  and streams. Names that the kernel has too end in \<open>_u\<close>. Strings that only pass through are
  addresses; routines that look at characters take the characters before the terminator. Addresses of local arrays are
  parameters.
\<close>

section \<open>Calls of the kernel\<close>

text \<open>A call whose result is not used.\<close>

definition trap_unit :: "u32 \<Rightarrow> u32 list \<Rightarrow> 'z user_scheme \<Rightarrow> 'z user_scheme" where
  "trap_unit n args s = snd (trap n args s)"

definition open_u :: "u32 \<Rightarrow> u32 \<Rightarrow> 'z user_scheme \<Rightarrow> u32 \<times> 'z user_scheme" where
  "open_u pathname flags s = trap 100 [pathname, flags] s"

definition close_u :: "u32 \<Rightarrow> 'z user_scheme \<Rightarrow> u32 \<times> 'z user_scheme" where
  "close_u fd s = trap 101 [fd] s"

definition read_u :: "u32 \<Rightarrow> u32 \<Rightarrow> u32 \<Rightarrow> 'z user_scheme \<Rightarrow> u32 \<times> 'z user_scheme" where
  "read_u fd buf count s = trap 104 [fd, buf, count] s"

definition write_u :: "u32 \<Rightarrow> u32 \<Rightarrow> u32 \<Rightarrow> 'z user_scheme \<Rightarrow> u32 \<times> 'z user_scheme" where
  "write_u fd buf count s = trap 105 [fd, buf, count] s"

definition read_file :: "u32 \<Rightarrow> u32 \<Rightarrow> 'z user_scheme \<Rightarrow> u32 \<times> 'z user_scheme" where
  "read_file file_name file_buffer s = trap 5 [file_name, file_buffer] s"

definition write_file :: "u32 \<Rightarrow> u32 \<Rightarrow> u32 \<Rightarrow> 'z user_scheme \<Rightarrow> u32 \<times> 'z user_scheme" where
  "write_file filename buffer sz s = trap 6 [filename, buffer, sz] s"

definition get_file_size :: "u32 \<Rightarrow> 'z user_scheme \<Rightarrow> u32 \<times> 'z user_scheme" where
  "get_file_size file_name s = trap 8 [file_name] s"

definition delete_file :: "u32 \<Rightarrow> 'z user_scheme \<Rightarrow> u32 \<times> 'z user_scheme" where
  "delete_file file_name s = trap 10 [file_name] s"

definition chdir :: "u32 \<Rightarrow> 'z user_scheme \<Rightarrow> u32 \<times> 'z user_scheme" where
  "chdir path s = trap 12 [path] s"

definition readdir :: "u32 \<Rightarrow> u32 \<Rightarrow> u32 \<Rightarrow> 'z user_scheme \<Rightarrow> u32 \<times> 'z user_scheme" where
  "readdir path index ent s = trap 89 [path, index, ent] s"

definition mkdir :: "u32 \<Rightarrow> 'z user_scheme \<Rightarrow> u32 \<times> 'z user_scheme" where
  "mkdir path s = trap 39 [path] s"

definition spawn_ext :: "u32 \<Rightarrow> u32 \<Rightarrow> u32 \<Rightarrow> u32 \<Rightarrow> 'z user_scheme \<Rightarrow> u32 \<times> 'z user_scheme" where
  "spawn_ext path argv fd_in fd_out s = trap 113 [path, argv, fd_in, fd_out] s"

definition pipe_u :: "u32 \<Rightarrow> 'z user_scheme \<Rightarrow> u32 \<times> 'z user_scheme" where
  "pipe_u pipefd s = trap 112 [pipefd] s"

definition waitpid :: "u32 \<Rightarrow> 'z user_scheme \<Rightarrow> 'z user_scheme" where
  "waitpid pid s = trap_unit 7 [pid] s"

definition kill :: "u32 \<Rightarrow> u32 \<Rightarrow> 'z user_scheme \<Rightarrow> u32 \<times> 'z user_scheme" where
  "kill pid sig s = trap 37 [pid, sig] s"

definition dlopen :: "u32 \<Rightarrow> 'z user_scheme \<Rightarrow> u32 \<times> 'z user_scheme" where
  "dlopen lib_name s = trap 90 [lib_name] s"

definition dlsym :: "u32 \<Rightarrow> u32 \<Rightarrow> 'z user_scheme \<Rightarrow> u32 \<times> 'z user_scheme" where
  "dlsym handle symbol_name s = trap 91 [handle, symbol_name] s"

definition mount_u :: "u32 \<Rightarrow> u32 \<Rightarrow> u32 \<Rightarrow> 'z user_scheme \<Rightarrow> u32 \<times> 'z user_scheme" where
  "mount_u dev mnt fs s = trap 92 [dev, mnt, fs] s"

definition unmount :: "u32 \<Rightarrow> 'z user_scheme \<Rightarrow> u32 \<times> 'z user_scheme" where
  "unmount mnt s = trap 93 [mnt] s"

definition get_cursor :: "u32 \<Rightarrow> u32 \<Rightarrow> 'z user_scheme \<Rightarrow> 'z user_scheme" where
  "get_cursor x y s = trap_unit 16 [x, y] s"

definition set_cursor :: "u32 \<Rightarrow> u32 \<Rightarrow> 'z user_scheme \<Rightarrow> 'z user_scheme" where
  "set_cursor x y s = trap_unit 17 [x, y] s"

definition clear_screen_u :: "'z user_scheme \<Rightarrow> 'z user_scheme" where
  "clear_screen_u s = trap_unit 18 [] s"

definition get_term_size :: "u32 \<Rightarrow> u32 \<Rightarrow> 'z user_scheme \<Rightarrow> 'z user_scheme" where
  "get_term_size cols rows s = trap_unit 22 [cols, rows] s"

definition getuid :: "'z user_scheme \<Rightarrow> u32 \<times> 'z user_scheme" where
  "getuid s = trap 20 [] s"

definition setuid :: "u32 \<Rightarrow> 'z user_scheme \<Rightarrow> u32 \<times> 'z user_scheme" where
  "setuid u s = trap 21 [u] s"

definition get_tasks :: "u32 \<Rightarrow> u32 \<Rightarrow> 'z user_scheme \<Rightarrow> u32 \<times> 'z user_scheme" where
  "get_tasks buffer max_count s = trap 14 [buffer, max_count] s"

definition get_mem_info :: "u32 \<Rightarrow> u32 \<Rightarrow> 'z user_scheme \<Rightarrow> 'z user_scheme" where
  "get_mem_info used tot s = trap_unit 15 [used, tot] s"

definition detach :: "'z user_scheme \<Rightarrow> 'z user_scheme" where
  "detach s = trap_unit 24 [] s"

definition get_screen_info :: "u32 \<Rightarrow> u32 \<Rightarrow> u32 \<Rightarrow> 'z user_scheme \<Rightarrow> 'z user_scheme" where
  "get_screen_info w h bpp s = trap_unit 25 [w, h, bpp] s"

definition flush_screen :: "u32 \<Rightarrow> 'z user_scheme \<Rightarrow> 'z user_scheme" where
  "flush_screen buffer s = trap_unit 26 [buffer] s"

definition get_mouse :: "u32 \<Rightarrow> u32 \<Rightarrow> u32 \<Rightarrow> u32 \<Rightarrow> 'z user_scheme \<Rightarrow> 'z user_scheme" where
  "get_mouse x y buttons z s = trap_unit 27 [x, y, buttons, z] s"

definition poll_key :: "'z user_scheme \<Rightarrow> u32 \<times> 'z user_scheme" where
  "poll_key s = trap 28 [] s"

definition yield_u :: "'z user_scheme \<Rightarrow> 'z user_scheme" where
  "yield_u s = trap_unit 30 [] s"

definition get_ticks_u :: "'z user_scheme \<Rightarrow> u32 \<times> 'z user_scheme" where
  "get_ticks_u s = trap 31 [] s"

definition shm_get :: "u32 \<Rightarrow> u32 \<Rightarrow> 'z user_scheme \<Rightarrow> u32 \<times> 'z user_scheme" where
  "shm_get key sz s = trap 110 [key, sz] s"

definition shm_map :: "u32 \<Rightarrow> 'z user_scheme \<Rightarrow> u32 \<times> 'z user_scheme" where
  "shm_map key s = trap 111 [key] s"

definition socket :: "u32 \<Rightarrow> u32 \<Rightarrow> u32 \<Rightarrow> 'z user_scheme \<Rightarrow> u32 \<times> 'z user_scheme" where
  "socket domain ty protocol s = trap 120 [domain, ty, protocol] s"

definition send :: "u32 \<Rightarrow> u32 \<Rightarrow> u32 \<Rightarrow> u32 \<Rightarrow> 'z user_scheme \<Rightarrow> u32 \<times> 'z user_scheme" where
  "send fd data sz flags s = trap 122 [fd, data, sz, flags] s"

definition get_rtc_time :: "u32 \<Rightarrow> 'z user_scheme \<Rightarrow> 'z user_scheme" where
  "get_rtc_time t s = trap_unit 33 [t] s"

definition detach_pid :: "u32 \<Rightarrow> 'z user_scheme \<Rightarrow> 'z user_scheme" where
  "detach_pid pid s = trap_unit 24 [pid] s"

definition uname :: "u32 \<Rightarrow> 'z user_scheme \<Rightarrow> u32 \<times> 'z user_scheme" where
  "uname buf s = trap 34 [buf] s"

definition flush_keyboard :: "'z user_scheme \<Rightarrow> 'z user_scheme" where
  "flush_keyboard s = trap_unit 120 [] s"

definition flush_rect :: "u32 \<Rightarrow> u32 \<Rightarrow> u32 \<Rightarrow> u32 \<Rightarrow> u32 \<Rightarrow> 'z user_scheme \<Rightarrow> 'z user_scheme" where
  "flush_rect buffer x y w h s = trap_unit 127 [buffer, x, y, w, h] s"

text \<open>The results of these are narrower than a register.\<close>

definition get_key_modifiers :: "'z user_scheme \<Rightarrow> u8 \<times> 'z user_scheme" where
  "get_key_modifiers s = (let (r, s) = trap 29 [] s in (ucast r, s))"

definition get_key_state_u :: "u8 \<Rightarrow> 'z user_scheme \<Rightarrow> u32 \<times> 'z user_scheme" where
  "get_key_state_u scancode s = trap 32 [ucast scancode] s"

definition scancode_to_char_u :: "u8 \<Rightarrow> 'z user_scheme \<Rightarrow> u8 \<times> 'z user_scheme" where
  "scancode_to_char_u sc s = (let (r, s) = trap 125 [ucast sc] s in (ucast r, s))"

definition wait_scancode_u :: "'z user_scheme \<Rightarrow> u8 \<times> 'z user_scheme" where
  "wait_scancode_u s = (let (r, s) = trap 126 [] s in (ucast r, s))"

definition getcwd :: "u32 \<Rightarrow> 'z user_scheme \<Rightarrow> u32 \<times> 'z user_scheme" where
  "getcwd buf s = (buf, trap_unit 79 [buf] s)"

text \<open>\<open>SIG_DFL\<close> is 0.\<close>

definition signal :: "u32 \<Rightarrow> u32 \<Rightarrow> 'z user_scheme \<Rightarrow> u32 \<times> 'z user_scheme" where
  "signal signum handler s = (let (r, s) = trap 118 [signum, handler] s in (if r = 0 then handler else 0, s))"

text \<open>\<open>redirect_out\<close> is NULL or the address of a string.\<close>

definition spawn :: "u32 \<Rightarrow> u32 \<Rightarrow> u32 \<Rightarrow> 'z user_scheme \<Rightarrow> u32 \<times> 'z user_scheme" where
  "spawn path argv redirect_out s =
     (if redirect_out \<noteq> NULL \<and> umem s redirect_out \<noteq> 0 then
        let (fd, s) = open_u redirect_out (1 OR 0x200 OR 0x400) s in
        if fd \<noteq> -1 then let (ret, s) = spawn_ext path argv (-1) fd s; (_, s) = close_u fd s in (ret, s)
        else spawn_ext path argv (-1) (-1) s
      else spawn_ext path argv (-1) (-1) s)"

text \<open>\<open>env_buf\<close> is the address of the static buffer.\<close>

definition getenv :: "u32 \<Rightarrow> u32 \<Rightarrow> 'z user_scheme \<Rightarrow> u32 \<times> 'z user_scheme" where
  "getenv env_buf key s = (let (r, s) = trap 19 [key, env_buf] s in (if r \<noteq> 0 then env_buf else NULL, s))"

text \<open>
  The calls that are repeated until the kernel does not return -1 any more or the time is up. The time limit is a sum that
  can wrap.
\<close>

partial_function (option) retry :: "u32 \<Rightarrow> u32 list \<Rightarrow> u32 \<Rightarrow> u32 \<Rightarrow> 'z user_scheme \<Rightarrow> (u32 \<times> 'z user_scheme) option" where
  "retry n args timeout late s =
     (let (ret, s) = trap n args s in
      if ret \<noteq> 0xFFFFFFFF then Some (ret, s)
      else let (now, s) = get_ticks_u s in
        if now > timeout then Some (late, s) else retry n args timeout late (yield_u s))"

definition connect :: "u32 \<Rightarrow> u32 \<Rightarrow> u32 \<Rightarrow> 'z user_scheme \<Rightarrow> (u32 \<times> 'z user_scheme) option" where
  "connect fd addr addrlen s = (let (now, s) = get_ticks_u s in retry 121 [fd, addr, addrlen] (now + 5000) (-1) s)"

definition recv :: "u32 \<Rightarrow> u32 \<Rightarrow> u32 \<Rightarrow> u32 \<Rightarrow> 'z user_scheme \<Rightarrow> (u32 \<times> 'z user_scheme) option" where
  "recv fd m len flags s = (let (now, s) = get_ticks_u s in retry 123 [fd, m, len, flags] (now + 60000) 0 s)"

definition gethostbyname :: "u32 \<Rightarrow> 'z user_scheme \<Rightarrow> (u32 \<times> 'z user_scheme) option" where
  "gethostbyname nm s = (let (now, s) = get_ticks_u s in retry 124 [nm] (now + 5000) 0 s)"

section \<open>Strings\<close>

fun strcmp_u :: "string \<Rightarrow> string \<Rightarrow> int" where
  "strcmp_u [] [] = 0"
| "strcmp_u (a # as) [] = uchar a"
| "strcmp_u [] (b # bs) = - uchar b"
| "strcmp_u (a # as) (b # bs) = (if a = b then strcmp_u as bs else uchar a - uchar b)"

fun strncmp_u :: "string \<Rightarrow> string \<Rightarrow> int \<Rightarrow> int" where
  "strncmp_u [] [] n = 0"
| "strncmp_u (a # as) [] n = (if n = 0 then 0 else uchar a)"
| "strncmp_u [] (b # bs) n = (if n = 0 then 0 else - uchar b)"
| "strncmp_u (a # as) (b # bs) n =
     (if n > 0 \<and> a = b then strncmp_u as bs (n - 1) else if n = 0 then 0 else uchar a - uchar b)"

definition is_digit :: "char \<Rightarrow> bool" where
  "is_digit c \<longleftrightarrow> uchar (CHR ''0'') \<le> uchar c \<and> uchar c \<le> uchar (CHR ''9'')"

definition digit_of :: "char \<Rightarrow> u32" where
  "digit_of c = word_of_int (uchar c - uchar (CHR ''0''))"

fun atoi_u_loop :: "string \<Rightarrow> u32 \<Rightarrow> u32" where
  "atoi_u_loop [] res = res"
| "atoi_u_loop (c # cs) res = (if is_digit c then atoi_u_loop cs (res * 10 + digit_of c) else res)"

definition atoi_u :: "string \<Rightarrow> int" where
  "atoi_u str = sint (atoi_u_loop str 0)"

definition hash_pw :: "string \<Rightarrow> u32" where
  "hash_pw str = fold (\<lambda>c h. (h XOR ucast (byte_of c)) * 16777619) str 2166136261"

text \<open>A returned pointer is the offset of the character from the start.\<close>

fun match_at :: "string \<Rightarrow> string \<Rightarrow> bool" where
  "match_at (h # hs) (n # ns) = (h = n \<and> (ns = [] \<or> match_at hs ns))"
| "match_at _ _ = False"

fun strstr_loop :: "nat \<Rightarrow> string \<Rightarrow> string \<Rightarrow> nat option" where
  "strstr_loop i [] needle = None"
| "strstr_loop i (h # hs) needle = (if match_at (h # hs) needle then Some i else strstr_loop (i + 1) hs needle)"

definition strstr :: "string \<Rightarrow> string \<Rightarrow> nat option" where
  "strstr haystack needle = (if needle = [] then Some 0 else strstr_loop 0 haystack needle)"

fun strchr_loop :: "nat \<Rightarrow> string \<Rightarrow> char \<Rightarrow> nat option" where
  "strchr_loop i [] ch = (if ch = CHR 0x00 then Some i else None)"
| "strchr_loop i (c # cs) ch = (if c = ch then Some i else strchr_loop (i + 1) cs ch)"

definition strchr_u :: "string \<Rightarrow> char \<Rightarrow> nat option" where
  "strchr_u str c = strchr_loop 0 str c"

fun strrchr_loop :: "nat \<Rightarrow> string \<Rightarrow> char \<Rightarrow> nat option \<Rightarrow> nat option" where
  "strrchr_loop i [] ch last_found = (if ch = CHR 0x00 then Some i else last_found)"
| "strrchr_loop i (c # cs) ch last_found = strrchr_loop (i + 1) cs ch (if c = ch then Some i else last_found)"

definition strrchr :: "string \<Rightarrow> char \<Rightarrow> nat option" where
  "strrchr str c = strrchr_loop 0 str c None"

definition strncpy_u :: "string \<Rightarrow> nat \<Rightarrow> string" where
  "strncpy_u src n = take n src @ replicate (n - length src) (CHR 0x00)"

definition to_upper :: "string \<Rightarrow> string" where
  "to_upper str = map (\<lambda>c. if uchar (CHR ''a'') \<le> uchar c \<and> uchar c \<le> uchar (CHR ''z'') then char_of (unat (byte_of c AND NOT 0x20)) else c) str"

definition to_lower :: "string \<Rightarrow> string" where
  "to_lower str = map (\<lambda>c. if uchar (CHR ''A'') \<le> uchar c \<and> uchar c \<le> uchar (CHR ''Z'') then char_of (unat (byte_of c OR 0x20)) else c) str"

section \<open>Addresses of the network\<close>

definition htons :: "u16 \<Rightarrow> u16" where
  "htons n = push_bit 8 (n AND 0xFF) OR drop_bit 8 (n AND 0xFF00)"

text \<open>The digits at the front, with the number so far and whether there was one.\<close>

fun inet_part :: "string \<Rightarrow> u32 \<Rightarrow> bool \<Rightarrow> u32 \<times> bool \<times> string" where
  "inet_part [] val has_digit = (val, has_digit, [])"
| "inet_part (c # cs) val has_digit =
     (if is_digit c then inet_part cs (val * 10 + digit_of c) True else (val, has_digit, c # cs))"

text \<open>\<open>n\<close> parts can still come.\<close>

fun inet_loop :: "nat \<Rightarrow> string \<Rightarrow> u32 list \<Rightarrow> u32 list \<times> string" where
  "inet_loop 0 cp parts = (parts, cp)"
| "inet_loop (Suc n) cp parts =
     (if cp = [] then (parts, cp)
      else let (val, has_digit, cp) = inet_part cp 0 False in
        if \<not> has_digit then (parts, cp)
        else (case cp of [] \<Rightarrow> (parts @ [val], cp)
              | c # cs \<Rightarrow> (if c = CHR ''.'' then inet_loop n cs (parts @ [val]) else (parts @ [val], cp))))"

definition inet_addr :: "string \<Rightarrow> u32" where
  "inet_addr cp =
     (let (parts, rest) = inet_loop 4 cp [] in
      if length parts = 4 \<and> rest = [] then push_bit 24 (parts ! 3) OR push_bit 16 (parts ! 2) OR push_bit 8 (parts ! 1) OR parts ! 0
      else 0)"

section \<open>Memory\<close>

text \<open>
  The destination of \<^verbatim>\<open>memcpy\<close> is an operand that the string instructions advance, so the result is the end of the
  copy.
\<close>

definition memcpy_u :: "(u32 \<Rightarrow> u8) \<Rightarrow> u32 \<Rightarrow> u32 \<Rightarrow> u32 \<Rightarrow> u32 \<times> (u32 \<Rightarrow> u8)" where
  "memcpy_u m dest src n =
     (let dwords = unat (n div 4); bytes = unat (n mod 4);
          m' = rep_movsl m dest src dwords
      in (dest + n, memcpy m' (dest + 4 * of_nat dwords) (src + 4 * of_nat dwords) bytes))"

definition memset_u :: "(u32 \<Rightarrow> u8) \<Rightarrow> u32 \<Rightarrow> u32 \<Rightarrow> u32 \<Rightarrow> (u32 \<Rightarrow> u8)" where
  "memset_u m dest val n = memset m dest (ucast val) (unat n)"

definition memmove_u :: "(u32 \<Rightarrow> u8) \<Rightarrow> u32 \<Rightarrow> u32 \<Rightarrow> u32 \<Rightarrow> (u32 \<Rightarrow> u8)" where
  "memmove_u m d s n =
     (if d = s \<or> n = 0 then m
      else if d > s \<and> d < s + n then memcpy_back m (d + n) (s + n) (unat n)
      else memcpy m d s (unat n))"

fun memset32 :: "(u32 \<Rightarrow> u8) \<Rightarrow> u32 \<Rightarrow> u32 \<Rightarrow> nat \<Rightarrow> (u32 \<Rightarrow> u8)" where
  "memset32 m ptr val 0 = m"
| "memset32 m ptr val (Suc n) = memset32 (store32 m ptr val) (ptr + 4) val n"

text \<open>\<open>str\<close> is the string at the address.\<close>

definition strdup :: "u32 \<Rightarrow> 'z user_scheme \<Rightarrow> (u32 \<times> 'z user_scheme) option" where
  "strdup a s = do {
     str \<leftarrow> str_at (umem s) a;
     (d, s) \<leftarrow> malloc (of_nat (length str + 1)) s;
     Some (d, if d \<noteq> NULL then s\<lparr>umem := write_bytes (umem s) d (map byte_of str @ [0])\<rparr> else s) }"

section \<open>Words of a string\<close>

text \<open>The runs of other characters between delimiters; \<open>w\<close> is the run so far.\<close>

fun runs :: "char \<Rightarrow> string \<Rightarrow> string \<Rightarrow> string list" where
  "runs d [] w = (if w = [] then [] else [w])"
| "runs d (c # cs) w = (if c = d then (if w = [] then runs d cs [] else w # runs d cs []) else runs d cs (w @ [c]))"

text \<open>A word for which no memory is left is skipped.\<close>

fun copy_words :: "string list \<Rightarrow> u32 \<Rightarrow> nat \<Rightarrow> 'z user_scheme \<Rightarrow> (nat \<times> 'z user_scheme) option" where
  "copy_words [] res i s = Some (i, s)"
| "copy_words (w # ws) res i s = do {
     (p, s) \<leftarrow> malloc (of_nat (length w + 1)) s;
     let s = s\<lparr>umem := store32 (umem s) (res + 4 * of_nat i) p\<rparr>;
     if p \<noteq> NULL then copy_words ws res (i + 1) (s\<lparr>umem := write_bytes (umem s) p (map byte_of w @ [0])\<rparr>)
     else copy_words ws res i s }"

definition parse_str_u :: "u32 \<Rightarrow> char \<Rightarrow> 'z user_scheme \<Rightarrow> (u32 \<times> 'z user_scheme) option" where
  "parse_str_u term_input delimiter s =
     (if term_input = NULL then Some (NULL, s)
      else do {
        str \<leftarrow> str_at (umem s) term_input;
        let ws = runs delimiter str [];
        (res, s) \<leftarrow> malloc (of_nat ((length ws + 1) * 4)) s;
        if res = NULL then Some (NULL, s)
        else do {
          (i, s) \<leftarrow> copy_words ws res 0 s;
          Some (res, s\<lparr>umem := store32 (umem s) (res + 4 * of_nat i) NULL\<rparr>) } })"

section \<open>Formatted output\<close>

text \<open>The digits of a number, the last one first.\<close>

function rev_digits :: "char \<Rightarrow> nat \<Rightarrow> nat \<Rightarrow> string" where
  "rev_digits base_char n base =
     (if n = 0 \<or> base < 2 then []
      else char_of (if n mod base < 10 then n mod base + of_char (CHR ''0'') else n mod base - 10 + of_char base_char) #
        rev_digits base_char (n div base) base)"
  by pat_completeness auto
termination
  by (relation "measure (\<lambda>(b, n, k). n)") (auto intro: div_less_dividend)

declare rev_digits.simps [simp del]

definition number :: "char \<Rightarrow> nat \<Rightarrow> nat \<Rightarrow> string" where
  "number base_char n base = (if n = 0 then ''0'' else rev (rev_digits base_char n base))"

text \<open>
  Blanks, sign, zeros and digits. A difference of natural numbers is 0 where the code compares first. \<open>precision\<close> is
  \<open>None\<close> for -1. Width and precision are taken to fit an \<^verbatim>\<open>int\<close>.
\<close>

definition padded :: "bool \<Rightarrow> string \<Rightarrow> bool \<Rightarrow> nat \<Rightarrow> nat option \<Rightarrow> string" where
  "padded is_neg ds pad_zero width precision =
     (let i = length ds; sign = (if is_neg then 1 else 0);
          num_zeros = (case precision of Some p \<Rightarrow> p - i | None \<Rightarrow> (if pad_zero then width - i - sign else 0));
          blanks = (if pad_zero then 0 else width - (sign + num_zeros + i))
      in replicate blanks (CHR '' '') @ (if is_neg then ''-'' else []) @ replicate num_zeros (CHR ''0'') @ ds)"

text \<open>\<open>n = -n\<close> leaves the most negative number negative; its digit loop does not run.\<close>

definition conv_d :: "u32 \<Rightarrow> bool \<Rightarrow> nat \<Rightarrow> nat option \<Rightarrow> string" where
  "conv_d n pad_zero width precision =
     (let is_neg = sint n < 0; n' = (if is_neg then - n else n);
          ds = (if n = 0 then ''0'' else if sint n' > 0 then rev (rev_digits (CHR ''a'') (unat n') 10) else [])
      in padded is_neg ds (pad_zero \<and> precision = None) width precision)"

definition conv_s :: "string \<Rightarrow> nat \<Rightarrow> nat option \<Rightarrow> string" where
  "conv_s str width precision =
     (let len = (case precision of Some p \<Rightarrow> min p (length str) | None \<Rightarrow> length str)
      in replicate (width - len) (CHR '' '') @ take len str)"

definition take_num :: "string \<Rightarrow> nat \<times> string" where
  "take_num f = (fold (\<lambda>c n. n * 10 + (of_char c - of_char (CHR ''0''))) (takeWhile is_digit f) 0, dropWhile is_digit f)"

text \<open>Zero flag, width, precision, and the format from the conversion on.\<close>

definition parse_spec :: "string \<Rightarrow> bool \<times> nat \<times> nat option \<times> string" where
  "parse_spec f =
     (let pad_zero = (f \<noteq> [] \<and> hd f = CHR ''0''); f = (if pad_zero then tl f else f);
          (width, f) = take_num f
      in if f \<noteq> [] \<and> hd f = CHR ''.'' then let (p, f) = take_num (tl f) in (pad_zero, width, Some p, f)
         else (pad_zero, width, None, f))"

lemma take_num_shorter: "length (snd (take_num f)) \<le> length f"
  by (simp add: take_num_def length_dropWhile_le)

lemma parse_spec_shorter: "length (snd (snd (snd (parse_spec f)))) \<le> length f"
proof -
  define g where "g = (if f \<noteq> [] \<and> hd f = CHR ''0'' then tl f else f)"
  obtain w h where h: "take_num g = (w, h)" by force
  obtain p r where r: "take_num (tl h) = (p, r)" by force
  have "length h \<le> length f" using take_num_shorter [of g] h by (simp add: g_def split: if_splits)
  moreover have "length r \<le> length h" using take_num_shorter [of "tl h"] r by simp
  ultimately show ?thesis by (simp add: parse_spec_def g_def [symmetric] h r Let_def)
qed

lemma parse_spec_less: "(z, w, p, k # r) = parse_spec f \<Longrightarrow> length r < length f"
  using parse_spec_shorter [of f] by (metis length_Cons less_le_trans lessI snd_conv)

text \<open>
  The end of the format in place of a conversion makes the loop run over it: a fault, as is a missing argument. An unknown
  conversion is copied.
\<close>

function vsprintf_u :: "string \<Rightarrow> fmt_arg list \<Rightarrow> string option" where
  "vsprintf_u [] args = Some []"
| "vsprintf_u (c # f) args =
     (if c \<noteq> CHR ''%'' then map_option ((#) c) (vsprintf_u f args)
      else (case parse_spec f of
          (_, _, _, []) \<Rightarrow> None
        | (pad_zero, width, precision, k # f') \<Rightarrow>
            (if k = CHR ''d'' \<or> k = CHR ''i'' then
               (case args of ArgWord n # as \<Rightarrow> map_option ((@) (conv_d n pad_zero width precision)) (vsprintf_u f' as) | _ \<Rightarrow> None)
             else if k = CHR ''u'' then
               (case args of ArgWord n # as \<Rightarrow>
                  map_option ((@) (padded False (number (CHR ''a'') (unat n) 10) pad_zero width precision)) (vsprintf_u f' as) | _ \<Rightarrow> None)
             else if k = CHR ''x'' \<or> k = CHR ''X'' then
               (case args of ArgWord n # as \<Rightarrow>
                  map_option ((@) (padded False (number (if k = CHR ''x'' then CHR ''a'' else CHR ''A'') (unat n) 16) pad_zero width precision)) (vsprintf_u f' as)
                | _ \<Rightarrow> None)
             else if k = CHR ''s'' then
               (case args of ArgStr str # as \<Rightarrow>
                  map_option ((@) (conv_s (case str of Some t \<Rightarrow> t | None \<Rightarrow> ''(null)'') width precision)) (vsprintf_u f' as) | _ \<Rightarrow> None)
             else if k = CHR ''c'' then
               (case args of ArgWord n # as \<Rightarrow>
                  map_option ((@) (replicate (width - 1) (CHR '' '') @ [char_of (unat n)])) (vsprintf_u f' as) | _ \<Rightarrow> None)
             else if k = CHR ''%'' then map_option ((#) (CHR ''%'')) (vsprintf_u f' args)
             else map_option ((@) [CHR ''%'', k]) (vsprintf_u f' args))))"
  by pat_completeness auto
termination
proof (relation "measure (\<lambda>(f, as). length f)", goal_cases)
  case 1
  show ?case by simp
qed (auto dest!: parse_spec_less)

text \<open>\<open>cap\<close> is the size of the array the text goes to; the result is its length.\<close>

definition format_to :: "nat \<Rightarrow> u32 \<Rightarrow> string \<Rightarrow> fmt_arg list \<Rightarrow> 'z user_scheme \<Rightarrow> (u32 \<times> 'z user_scheme) option" where
  "format_to cap buf format args s = do {
     r \<leftarrow> vsprintf_u format args;
     if length r \<ge> cap then None
     else Some (of_nat (length r), s\<lparr>umem := write_bytes (umem s) buf (map byte_of r @ [0])\<rparr>) }"

section \<open>Input and output\<close>

definition print_u :: "u32 \<Rightarrow> 'z user_scheme \<Rightarrow> 'z user_scheme option" where
  "print_u str s = do { t \<leftarrow> str_at (umem s) str; Some (snd (write_u 1 str (of_nat (length t)) s)) }"

text \<open>\<open>ch\<close> is the address of the local character, \<open>buffer\<close> that of the local array of 4096 bytes.\<close>

definition print_char_u :: "u32 \<Rightarrow> u32 \<Rightarrow> 'z user_scheme \<Rightarrow> 'z user_scheme" where
  "print_char_u ch c s = snd (write_u 1 ch 1 (s\<lparr>umem := (umem s)(ch := ucast c)\<rparr>))"

definition vprintf_u :: "u32 \<Rightarrow> string \<Rightarrow> fmt_arg list \<Rightarrow> 'z user_scheme \<Rightarrow> (u32 \<times> 'z user_scheme) option" where
  "vprintf_u buffer format args s = do { (r, s) \<leftarrow> format_to 4096 buffer format args s; s \<leftarrow> print_u buffer s; Some (r, s) }"

definition printf_u :: "u32 \<Rightarrow> string \<Rightarrow> fmt_arg list \<Rightarrow> 'z user_scheme \<Rightarrow> (u32 \<times> 'z user_scheme) option" where
  "printf_u buffer format args s = vprintf_u buffer format args s"

definition getc :: "u32 \<Rightarrow> 'z user_scheme \<Rightarrow> u8 \<times> 'z user_scheme" where
  "getc ch s = (let s = snd (read_u 0 ch 1 (s\<lparr>umem := (umem s)(ch := 0)\<rparr>)) in (umem s ch, s))"

partial_function (option) gets_loop_u :: "u32 \<Rightarrow> u32 \<Rightarrow> u32 \<Rightarrow> int \<Rightarrow> nat \<Rightarrow> 'z user_scheme \<Rightarrow> 'z user_scheme option" where
  "gets_loop_u ch pbuf buffer max_len pos s =
     (let (c, s) = getc ch s in
      if c = 0x0A then do { (_, s) \<leftarrow> printf_u pbuf [CHR 0x0A] [] (s\<lparr>umem := (umem s)(buffer + of_nat pos := 0)\<rparr>); Some s }
      else if c = 0x08 then
        (if pos > 0 then do {
           (_, s) \<leftarrow> printf_u pbuf [CHR 0x08, CHR '' '', CHR 0x08] [] (s\<lparr>umem := (umem s)(buffer + of_nat (pos - 1) := 0)\<rparr>);
           gets_loop_u ch pbuf buffer max_len (pos - 1) s }
         else gets_loop_u ch pbuf buffer max_len pos s)
      else if 32 \<le> c \<and> c \<le> 126 \<and> int pos < max_len - 1 then do {
        (_, s) \<leftarrow> printf_u pbuf ''%c'' [ArgWord (ucast c)] (s\<lparr>umem := (umem s)(buffer + of_nat pos := c)\<rparr>);
        gets_loop_u ch pbuf buffer max_len (pos + 1) s }
      else gets_loop_u ch pbuf buffer max_len pos s)"

definition gets_u :: "u32 \<Rightarrow> u32 \<Rightarrow> u32 \<Rightarrow> int \<Rightarrow> 'z user_scheme \<Rightarrow> 'z user_scheme option" where
  "gets_u ch pbuf buffer max_len s = gets_loop_u ch pbuf buffer max_len 0 s"

definition set_color_u :: "u32 \<Rightarrow> u32 \<Rightarrow> u32 \<Rightarrow> 'z user_scheme \<Rightarrow> 'z user_scheme option" where
  "set_color_u pbuf fg_color bg_color s = do {
     let ansi_fg = (if sint fg_color < 8 then 30 + fg_color else 90 + (fg_color - 8));
     let ansi_bg = (if sint bg_color < 8 then 40 + bg_color else 100 + (bg_color - 8));
     (_, s) \<leftarrow> (if bg_color = 0 then printf_u pbuf (CHR 0x1B # ''[0;%dm'') [ArgWord ansi_fg] s
                else printf_u pbuf (CHR 0x1B # ''[0;%d;%dm'') [ArgWord ansi_fg, ArgWord ansi_bg] s);
     Some s }"

section \<open>Streams\<close>

text \<open>A stream is a structure with one field, the descriptor.\<close>

definition stream_fd :: "u32 \<Rightarrow> 'z user_scheme \<Rightarrow> u32" where
  "stream_fd stream s = load32 (umem s) stream"

definition fseek :: "u32 \<Rightarrow> u32 \<Rightarrow> u32 \<Rightarrow> 'z user_scheme \<Rightarrow> int \<times> 'z user_scheme" where
  "fseek stream offset whence s =
     (if stream = NULL then (-1, s)
      else let (ret, s) = trap 102 [stream_fd stream s, offset, whence] s in (if sint ret \<ge> 0 then 0 else -1, s))"

definition ftell :: "u32 \<Rightarrow> 'z user_scheme \<Rightarrow> u32 \<times> 'z user_scheme" where
  "ftell stream s = (if stream = NULL then (-1, s) else trap 102 [stream_fd stream s, 0, 1] s)"

text \<open>No memory for the stream is a NULL dereference.\<close>

definition fopen :: "u32 \<Rightarrow> u8 \<Rightarrow> 'z user_scheme \<Rightarrow> (u32 \<times> 'z user_scheme) option" where
  "fopen path mode s = do {
     let flags = (if mode = byte_of (CHR ''r'') then 0 else if mode = byte_of (CHR ''w'') then 1 OR 0x200 OR 0x400
                  else if mode = byte_of (CHR ''a'') then 1 OR 0x200 else 0);
     let (fd, s) = trap 100 [path, flags] s;
     if sint fd < 0 then Some (NULL, s)
     else do {
       (f, s) \<leftarrow> malloc 4 s;
       if f = NULL then None
       else do {
         let s = s\<lparr>umem := store32 (umem s) f fd\<rparr>;
         let s = (if mode = byte_of (CHR ''a'') then snd (fseek f 0 2 s) else s);
         Some (f, s) } } }"

definition fclose :: "u32 \<Rightarrow> 'z user_scheme \<Rightarrow> (u32 \<times> 'z user_scheme) option" where
  "fclose stream s =
     (if stream = NULL then Some (-1, s)
      else do { let (ret, s) = trap 101 [stream_fd stream s] s; s \<leftarrow> free stream s; Some (ret, s) })"

text \<open>The division by a size of 0 is a fault.\<close>

definition transfer_u :: "u32 \<Rightarrow> u32 \<Rightarrow> u32 \<Rightarrow> u32 \<Rightarrow> u32 \<Rightarrow> 'z user_scheme \<Rightarrow> (u32 \<times> 'z user_scheme) option" where
  "transfer_u n ptr sz nmemb stream s =
     (if stream = NULL then Some (0, s)
      else let (ret, s) = trap n [stream_fd stream s, ptr, sz * nmemb] s in
        if sint ret < 0 then Some (0, s) else if sz = 0 then None else Some (ret div sz, s))"

definition fread :: "u32 \<Rightarrow> u32 \<Rightarrow> u32 \<Rightarrow> u32 \<Rightarrow> 'z user_scheme \<Rightarrow> (u32 \<times> 'z user_scheme) option" where
  "fread ptr sz nmemb stream s = transfer_u 104 ptr sz nmemb stream s"

definition fwrite :: "u32 \<Rightarrow> u32 \<Rightarrow> u32 \<Rightarrow> u32 \<Rightarrow> 'z user_scheme \<Rightarrow> (u32 \<times> 'z user_scheme) option" where
  "fwrite ptr sz nmemb stream s = transfer_u 105 ptr sz nmemb stream s"

text \<open>\<open>c\<close> is the address of the local character; the result is -1 at the end.\<close>

definition fgetc :: "u32 \<Rightarrow> u32 \<Rightarrow> 'z user_scheme \<Rightarrow> (int \<times> 'z user_scheme) option" where
  "fgetc c stream s = do { (r, s) \<leftarrow> fread c 1 1 stream s; Some (if r = 1 then uint (umem s c) else -1, s) }"

end
