(* ===== verification/User_Std.thy ===== *)
theory User_Std
  imports User_Lib
begin

text \<open>
  The standard functions that ported programs need, \<^verbatim>\<open>userland/lib/tcc_stubs.c\<close>. Stubs that only return a constant, the jumps,
  which are assembly, and floating point are left out.
\<close>

section \<open>Streams and files\<close>

definition lseek :: "u32 \<Rightarrow> u32 \<Rightarrow> u32 \<Rightarrow> 'z user_scheme \<Rightarrow> u32 \<times> 'z user_scheme" where
  "lseek fd offset whence s = trap 102 [fd, offset, whence] s"

definition fdopen :: "u32 \<Rightarrow> 'z user_scheme \<Rightarrow> (u32 \<times> 'z user_scheme) option" where
  "fdopen fd s = do { (f, s) \<leftarrow> malloc 4 s; Some (f, if f \<noteq> NULL then s\<lparr>umem := store32 (umem s) f fd\<rparr> else s) }"

text \<open>\<open>ch\<close> is the address of the local character.\<close>

definition fputc :: "u32 \<Rightarrow> u32 \<Rightarrow> u32 \<Rightarrow> 'z user_scheme \<Rightarrow> u32 \<times> 'z user_scheme" where
  "fputc ch c stream s =
     (let s = s\<lparr>umem := (umem s)(ch := ucast c)\<rparr> in
      if stream \<noteq> NULL then let (r, s) = write_u (stream_fd stream s) ch 1 s in (if r = 1 then c else -1, s) else (-1, s))"

definition fputs :: "u32 \<Rightarrow> u32 \<Rightarrow> u32 \<Rightarrow> 'z user_scheme \<Rightarrow> (u32 \<times> 'z user_scheme) option" where
  "fputs pbuf str stream s = do {
     t \<leftarrow> str_at (umem s) str;
     if stream = NULL then do { (_, s) \<leftarrow> printf_u pbuf ''%s'' [ArgStr (Some t)] s; Some (0, s) }
     else do {
       let (r, s) = write_u (stream_fd stream s) str (of_nat (length t)) s;
       Some (if r = of_nat (length t) then 0 else -1, s) } }"

text \<open>\<open>buf\<close> is the address of the local array of 1024 bytes, \<open>pbuf\<close> that of \<^verbatim>\<open>printf\<close>.\<close>

definition fprintf :: "u32 \<Rightarrow> u32 \<Rightarrow> u32 \<Rightarrow> string \<Rightarrow> fmt_arg list \<Rightarrow> 'z user_scheme \<Rightarrow> (u32 \<times> 'z user_scheme) option" where
  "fprintf buf pbuf stream format args s = do {
     (ret, s) \<leftarrow> format_to 1024 buf format args s;
     if stream \<noteq> NULL then Some (ret, snd (write_u (stream_fd stream s) buf ret s))
     else do { t \<leftarrow> str_at (umem s) buf; (_, s) \<leftarrow> printf_u pbuf ''%s'' [ArgStr (Some t)] s; Some (ret, s) } }"

definition vfprintf :: "u32 \<Rightarrow> u32 \<Rightarrow> string \<Rightarrow> fmt_arg list \<Rightarrow> 'z user_scheme \<Rightarrow> (u32 \<times> 'z user_scheme) option" where
  "vfprintf buf stream format args s = do {
     (ret, s) \<leftarrow> format_to 1024 buf format args s;
     Some (ret, if stream \<noteq> NULL then snd (write_u (stream_fd stream s) buf ret s) else s) }"

text \<open>The size of the array is not looked at.\<close>

definition vsnprintf :: "u32 \<Rightarrow> u32 \<Rightarrow> string \<Rightarrow> fmt_arg list \<Rightarrow> 'z user_scheme \<Rightarrow> (u32 \<times> 'z user_scheme) option" where
  "vsnprintf str sz format ap s = do {
     r \<leftarrow> vsprintf_u format ap;
     Some (of_nat (length r), s\<lparr>umem := write_bytes (umem s) str (map byte_of r @ [0])\<rparr>) }"

definition snprintf :: "u32 \<Rightarrow> u32 \<Rightarrow> string \<Rightarrow> fmt_arg list \<Rightarrow> 'z user_scheme \<Rightarrow> (u32 \<times> 'z user_scheme) option" where
  "snprintf str sz format args s = vsnprintf str sz format args s"

definition puts :: "u32 \<Rightarrow> u32 \<Rightarrow> 'z user_scheme \<Rightarrow> (u32 \<times> 'z user_scheme) option" where
  "puts pbuf str s = do { t \<leftarrow> str_at (umem s) str; printf_u pbuf (''%s'' @ [CHR 0x0A]) [ArgStr (Some t)] s }"

definition remove_u :: "u32 \<Rightarrow> 'z user_scheme \<Rightarrow> int \<times> 'z user_scheme" where
  "remove_u pathname s = (let (r, s) = delete_file pathname s in (if r = 1 then 0 else -1, s))"

definition unlink :: "u32 \<Rightarrow> 'z user_scheme \<Rightarrow> int \<times> 'z user_scheme" where
  "unlink pathname s = (let (r, s) = delete_file pathname s in (if r = 1 then 0 else -1, s))"

definition execvp :: "u32 \<Rightarrow> u32 \<Rightarrow> 'z user_scheme \<Rightarrow> u32 \<times> 'z user_scheme" where
  "execvp path argv s = spawn path argv NULL s"

definition rename_u :: "u32 \<Rightarrow> u32 \<Rightarrow> 'z user_scheme \<Rightarrow> (int \<times> 'z user_scheme) option" where
  "rename_u oldpath newpath s = do {
     let (sz, s) = get_file_size oldpath s;
     if sint sz < 0 then Some (-1, s)
     else do {
       (buf, s) \<leftarrow> (if sint sz > 0 then malloc sz s else Some (NULL, s));
       if sint sz > 0 \<and> buf = NULL then Some (-1, s)
       else do {
         let s = (if sint sz > 0 then snd (read_file oldpath buf s) else s);
         let (res, s) = write_file newpath buf sz s;
         s \<leftarrow> (if buf \<noteq> NULL then free buf s else Some s);
         if sint res \<ge> 0 then Some (0, snd (delete_file oldpath s)) else Some (-1, s) } } }"

section \<open>Memory\<close>

fun memcmp_u :: "(u32 \<Rightarrow> u8) \<Rightarrow> u32 \<Rightarrow> u32 \<Rightarrow> nat \<Rightarrow> int" where
  "memcmp_u m p1 p2 0 = 0"
| "memcmp_u m p1 p2 (Suc n) = (if m p1 \<noteq> m p2 then uint (m p1) - uint (m p2) else memcmp_u m (p1 + 1) (p2 + 1) n)"

definition realloc :: "u32 \<Rightarrow> u32 \<Rightarrow> 'z user_scheme \<Rightarrow> (u32 \<times> 'z user_scheme) option" where
  "realloc ptr sz s =
     (if sz = 0 then do { s \<leftarrow> free ptr s; Some (NULL, s) }
      else if ptr = NULL then malloc sz s
      else do {
        (new_ptr, s) \<leftarrow> malloc sz s;
        if new_ptr \<noteq> NULL then do {
          let old_size = (h_size (ptr - 8) s - 1) * 8;
          let copy_size = (if old_size < sz then old_size else sz);
          s \<leftarrow> free ptr (s\<lparr>umem := snd (memcpy_u (umem s) new_ptr ptr copy_size)\<rparr>);
          Some (new_ptr, s) }
        else Some (new_ptr, s) })"

definition mmap :: "u32 \<Rightarrow> 'z user_scheme \<Rightarrow> (u32 \<times> 'z user_scheme) option" where
  "mmap len s = do { (ptr, s) \<leftarrow> malloc len s; Some (ptr, if ptr \<noteq> NULL then s\<lparr>umem := memset_u (umem s) ptr 0 len\<rparr> else s) }"

definition munmap :: "u32 \<Rightarrow> 'z user_scheme \<Rightarrow> 'z user_scheme option" where
  "munmap addr s = free addr s"

text \<open>A missing destination is allocated with 256 bytes, unchecked.\<close>

definition realpath :: "u32 \<Rightarrow> u32 \<Rightarrow> 'z user_scheme \<Rightarrow> (u32 \<times> 'z user_scheme) option" where
  "realpath path resolved_path s = do {
     (d, s) \<leftarrow> (if resolved_path \<noteq> NULL then Some (resolved_path, s) else malloc 256 s);
     str \<leftarrow> str_at (umem s) path;
     if d = NULL then None else Some (d, s\<lparr>umem := write_bytes (umem s) d (map byte_of str @ [0])\<rparr>) }"

section \<open>Sorting\<close>

text \<open>
  The elements \<open>i\<close> and \<open>j\<close> of the array change places through \<open>tmp\<close>. The comparison reads memory. Memory for
  \<open>tmp\<close> is not checked: the copy to NULL is a fault.
\<close>

definition elem_at :: "u32 \<Rightarrow> u32 \<Rightarrow> nat \<Rightarrow> u32" where
  "elem_at arr sz i = arr + of_nat i * sz"

definition swap_elems :: "u32 \<Rightarrow> u32 \<Rightarrow> u32 \<Rightarrow> u32 \<Rightarrow> (u32 \<Rightarrow> u8) \<Rightarrow> (u32 \<Rightarrow> u8)" where
  "swap_elems tmp sz p q m =
     (let m = snd (memcpy_u m tmp p sz); m = snd (memcpy_u m p q sz) in snd (memcpy_u m q tmp sz))"

fun qsort_inner :: "((u32 \<Rightarrow> u8) \<Rightarrow> u32 \<Rightarrow> u32 \<Rightarrow> int) \<Rightarrow> u32 \<Rightarrow> u32 \<Rightarrow> u32 \<Rightarrow> nat \<Rightarrow> nat list \<Rightarrow> (u32 \<Rightarrow> u8) \<Rightarrow> (u32 \<Rightarrow> u8) option" where
  "qsort_inner compar sz arr tmp i [] m = Some m"
| "qsort_inner compar sz arr tmp i (j # js) m =
     (if compar m (elem_at arr sz i) (elem_at arr sz j) > 0 then
        (if tmp = NULL then None else qsort_inner compar sz arr tmp i js (swap_elems tmp sz (elem_at arr sz i) (elem_at arr sz j) m))
      else qsort_inner compar sz arr tmp i js m)"

fun qsort_outer :: "((u32 \<Rightarrow> u8) \<Rightarrow> u32 \<Rightarrow> u32 \<Rightarrow> int) \<Rightarrow> u32 \<Rightarrow> u32 \<Rightarrow> u32 \<Rightarrow> nat \<Rightarrow> nat list \<Rightarrow> (u32 \<Rightarrow> u8) \<Rightarrow> (u32 \<Rightarrow> u8) option" where
  "qsort_outer compar sz arr tmp n [] m = Some m"
| "qsort_outer compar sz arr tmp n (i # is) m = do {
     m \<leftarrow> qsort_inner compar sz arr tmp i [i + 1..<n] m;
     qsort_outer compar sz arr tmp n is m }"

definition qsort_u :: "u32 \<Rightarrow> u32 \<Rightarrow> u32 \<Rightarrow> ((u32 \<Rightarrow> u8) \<Rightarrow> u32 \<Rightarrow> u32 \<Rightarrow> int) \<Rightarrow> 'z user_scheme \<Rightarrow> 'z user_scheme option" where
  "qsort_u arr nmemb sz compar s = do {
     (tmp, s) \<leftarrow> malloc sz s;
     m \<leftarrow> qsort_outer compar sz arr tmp (unat nmemb) [0..<unat nmemb] (umem s);
     free tmp (s\<lparr>umem := m\<rparr>) }"

section \<open>Strings and numbers\<close>

fun strpbrk_loop :: "nat \<Rightarrow> string \<Rightarrow> string \<Rightarrow> nat option" where
  "strpbrk_loop i [] accept = None"
| "strpbrk_loop i (c # cs) accept = (if c \<in> set accept then Some i else strpbrk_loop (i + 1) cs accept)"

definition strpbrk :: "string \<Rightarrow> string \<Rightarrow> nat option" where
  "strpbrk str accept = strpbrk_loop 0 str accept"

definition num_val :: "char \<Rightarrow> int" where
  "num_val c =
     (if uchar (CHR ''0'') \<le> uchar c \<and> uchar c \<le> uchar (CHR ''9'') then uchar c - uchar (CHR ''0'')
      else if uchar (CHR ''a'') \<le> uchar c \<and> uchar c \<le> uchar (CHR ''z'') then uchar c - uchar (CHR ''a'') + 10
      else if uchar (CHR ''A'') \<le> uchar c \<and> uchar c \<le> uchar (CHR ''Z'') then uchar c - uchar (CHR ''A'') + 10
      else -1)"

fun strtoull_loop :: "int \<Rightarrow> string \<Rightarrow> u64 \<Rightarrow> u64 \<times> string" where
  "strtoull_loop base [] res = (res, [])"
| "strtoull_loop base (c # cs) res =
     (let val = num_val c in
      if val = -1 \<or> val \<ge> base then (res, c # cs)
      else strtoull_loop base cs (res * word_of_int base + word_of_int val))"

definition hex_prefix :: "string \<Rightarrow> bool" where
  "hex_prefix str \<longleftrightarrow> length str \<ge> 2 \<and> str ! 0 = CHR ''0'' \<and> (str ! 1 = CHR ''x'' \<or> str ! 1 = CHR ''X'')"

text \<open>The value and the rest of the string, at which \<^verbatim>\<open>endptr\<close> points.\<close>

definition strtoull :: "string \<Rightarrow> int \<Rightarrow> u64 \<times> string" where
  "strtoull nptr base =
     (let nptr = dropWhile is_space nptr;
          negative = (nptr \<noteq> [] \<and> hd nptr = CHR ''-'');
          nptr = (if nptr \<noteq> [] \<and> (hd nptr = CHR ''-'' \<or> hd nptr = CHR ''+'') then tl nptr else nptr);
          (base, nptr) =
            (if base = 0 then
               (if nptr \<noteq> [] \<and> hd nptr = CHR ''0'' then (if hex_prefix nptr then (16, drop 2 nptr) else (8, tl nptr)) else (10, nptr))
             else if base = 16 \<and> hex_prefix nptr then (base, drop 2 nptr) else (base, nptr));
          (res, nptr) = strtoull_loop base nptr 0
      in (if negative then - res else res, nptr))"

definition strtol :: "string \<Rightarrow> int \<Rightarrow> int \<times> string" where
  "strtol nptr base = (let (r, e) = strtoull nptr base in (sint (ucast r :: u32), e))"

definition strtoul :: "string \<Rightarrow> int \<Rightarrow> u32 \<times> string" where
  "strtoul nptr base = (let (r, e) = strtoull nptr base in (ucast r, e))"

definition strtoll :: "string \<Rightarrow> int \<Rightarrow> int \<times> string" where
  "strtoll nptr base = (let (r, e) = strtoull nptr base in (sint r, e))"

text \<open>Only \<^verbatim>\<open>%x\<close> is known. The argument is the address of the number.\<close>

definition sscanf :: "string \<Rightarrow> string \<Rightarrow> u32 \<Rightarrow> 'z user_scheme \<Rightarrow> int \<times> 'z user_scheme" where
  "sscanf str format val s =
     (if length format \<ge> 2 \<and> format ! 0 = CHR ''%'' \<and> format ! 1 = CHR ''x''
      then (1, s\<lparr>umem := store32 (umem s) val (fst (strtoul str 16))\<rparr>) else (0, s))"

end
