(* ===== verification/User_Std_Props.thy ===== *)
theory User_Std_Props
  imports User_Std User_Heap_Props Disk_Spec "HOL-Library.Multiset"
begin

text \<open>
  The library of user programs: sorting in memory, and reading back printed numbers and addresses.
\<close>

section \<open>Exchange sort on lists\<close>

definition exchange :: "('a \<Rightarrow> 'a \<Rightarrow> bool) \<Rightarrow> nat \<Rightarrow> nat \<Rightarrow> 'a list \<Rightarrow> 'a list" where
  "exchange gt i j xs = (if gt (xs ! i) (xs ! j) then xs[i := xs ! j, j := xs ! i] else xs)"

text \<open>\<open>gt\<close> is the strict part of a total preorder.\<close>

definition preorder_gt :: "('a \<Rightarrow> 'a \<Rightarrow> bool) \<Rightarrow> bool" where
  "preorder_gt gt \<longleftrightarrow> (\<forall>x y. \<not> gt x y \<or> \<not> gt y x) \<and> (\<forall>x y z. \<not> gt x y \<longrightarrow> \<not> gt y z \<longrightarrow> \<not> gt x z)"

lemma exchange_length [simp]: "length (exchange gt i j xs) = length xs"
  by (simp add: exchange_def)

lemma exchange_mset: "i < length xs \<Longrightarrow> j < length xs \<Longrightarrow> mset (exchange gt i j xs) = mset xs"
  by (simp add: exchange_def mset_swap)

lemma fold_exchange_length [simp]: "length (fold (exchange gt i) js xs) = length xs"
  by (induction js arbitrary: xs) simp_all

lemma fold_exchange_mset: "i < length xs \<Longrightarrow> \<forall>j\<in>set js. j < length xs \<Longrightarrow> mset (fold (exchange gt i) js xs) = mset xs"
  by (induction js arbitrary: xs) (simp_all add: exchange_mset)

text \<open>The first \<open>i\<close> elements are in place.\<close>

definition placed :: "('a \<Rightarrow> 'a \<Rightarrow> bool) \<Rightarrow> nat \<Rightarrow> 'a list \<Rightarrow> bool" where
  "placed gt i xs \<longleftrightarrow> (\<forall>a b. a < i \<longrightarrow> a < b \<longrightarrow> b < length xs \<longrightarrow> \<not> gt (xs ! a) (xs ! b))"

lemma exchange_placed:
  assumes "placed gt i xs" and "i < j" and "j < length xs"
  shows "placed gt i (exchange gt i j xs)"
proof -
  have "\<not> gt (xs ! a) (exchange gt i j xs ! b)" if "a < i" "a < b" "b < length xs" for a b
    using assms that by (auto simp: placed_def exchange_def nth_list_update)
  moreover have "exchange gt i j xs ! a = xs ! a" if "a < i" for a
    using assms(2) that by (simp add: exchange_def)
  ultimately show ?thesis by (simp add: placed_def)
qed

lemma fold_exchange_placed:
  assumes "preorder_gt gt" and "placed gt i xs" and "i < k" and "k \<le> length xs"
  shows "placed gt i (fold (exchange gt i) [i + 1..<k] xs) \<and> (\<forall>b. i < b \<longrightarrow> b < k \<longrightarrow> \<not> gt (fold (exchange gt i) [i + 1..<k] xs ! i) (fold (exchange gt i) [i + 1..<k] xs ! b))"
  using assms(3,4)
proof (induction k)
  case (Suc k)
  show ?case
  proof (cases "k = i")
    case True
    then show ?thesis using assms(2) by auto
  next
    case False
    let ?ys = "fold (exchange gt i) [i + 1..<k] xs"
    let ?zs = "exchange gt i k ?ys"
    have z: "fold (exchange gt i) [i + 1..<Suc k] xs = ?zs" using False Suc.prems by simp
    have k: "k < length ?ys" "i < k" using Suc.prems False by simp_all
    have y: "placed gt i ?ys" "\<And>b. i < b \<Longrightarrow> b < k \<Longrightarrow> \<not> gt (?ys ! i) (?ys ! b)"
      using Suc.IH [OF k(2)] Suc.prems(2) by (metis Suc_leD)+
    have asym: "\<not> gt u v" if "gt v u" for u v using assms(1) that unfolding preorder_gt_def by blast
    have tr: "\<not> gt u w" if "\<not> gt u v" "\<not> gt v w" for u v w using assms(1) that unfolding preorder_gt_def by blast
    have "\<not> gt (?zs ! i) (?zs ! b)" if "i < b" "b < Suc k" for b
    proof (cases "gt (?ys ! i) (?ys ! k)")
      case True
      have zi: "?zs ! i = ?ys ! k" using True k by (simp add: exchange_def nth_list_update)
      show ?thesis
      proof (cases "b = k")
        case True
        then have "?zs ! b = ?ys ! i" using \<open>gt (?ys ! i) (?ys ! k)\<close> k by (simp add: exchange_def)
        then show ?thesis using asym [OF \<open>gt (?ys ! i) (?ys ! k)\<close>] zi by simp
      next
        case False
        then have "?zs ! b = ?ys ! b" "b < k" using \<open>gt (?ys ! i) (?ys ! k)\<close> k that by (simp_all add: exchange_def)
        then show ?thesis using tr [OF asym [OF \<open>gt (?ys ! i) (?ys ! k)\<close>] y(2)] zi that(1) by simp
      qed
    next
      case False
      then show ?thesis using y(2) [of b] that by (cases "b = k") (simp_all add: exchange_def)
    qed
    then show ?thesis using exchange_placed [OF y(1) k(2,1)] unfolding z by blast
  qed
qed simp

definition exchange_sort :: "('a \<Rightarrow> 'a \<Rightarrow> bool) \<Rightarrow> nat list \<Rightarrow> 'a list \<Rightarrow> 'a list" where
  "exchange_sort gt is xs = fold (\<lambda>i xs. fold (exchange gt i) [i + 1..<length xs] xs) is xs"

lemma exchange_sort_ok:
  assumes "preorder_gt gt" and "k \<le> length xs"
  shows "placed gt k (exchange_sort gt [0..<k] xs)" "mset (exchange_sort gt [0..<k] xs) = mset xs"
proof -
  have "placed gt k (exchange_sort gt [0..<k] xs) \<and> mset (exchange_sort gt [0..<k] xs) = mset xs"
    using assms(2)
  proof (induction k)
    case (Suc k)
    let ?ys = "exchange_sort gt [0..<k] xs"
    have y: "placed gt k ?ys" "mset ?ys = mset xs" using Suc by simp_all
    have l: "length ?ys = length xs" using mset_eq_length [OF y(2)] .
    have e: "exchange_sort gt [0..<Suc k] xs = fold (exchange gt k) [k + 1..<length ?ys] ?ys" by (simp add: exchange_sort_def)
    have f: "placed gt k (exchange_sort gt [0..<Suc k] xs)"
        "\<And>b. k < b \<Longrightarrow> b < length xs \<Longrightarrow> \<not> gt (exchange_sort gt [0..<Suc k] xs ! k) (exchange_sort gt [0..<Suc k] xs ! b)"
      using fold_exchange_placed [OF assms(1) y(1), of "length ?ys"] Suc.prems l unfolding e by auto
    have m: "mset (exchange_sort gt [0..<Suc k] xs) = mset xs"
      unfolding e using fold_exchange_mset [of k ?ys "[k + 1..<length ?ys]" gt] y(2) Suc.prems l by simp
    have "placed gt (Suc k) (exchange_sort gt [0..<Suc k] xs)"
      using f mset_eq_length [OF m] unfolding placed_def by (auto simp: less_Suc_eq)
    then show ?case using m by simp
  qed (simp add: placed_def exchange_sort_def)
  then show "placed gt k (exchange_sort gt [0..<k] xs)" "mset (exchange_sort gt [0..<k] xs) = mset xs" by simp_all
qed

lemma placed_sorted: "placed gt (length xs) xs \<Longrightarrow> sorted_wrt (\<lambda>x y. \<not> gt x y) xs"
  by (auto simp: placed_def sorted_wrt_iff_nth_less)

section \<open>Sorting in memory\<close>

definition elems :: "(u32 \<Rightarrow> u8) \<Rightarrow> u32 \<Rightarrow> u32 \<Rightarrow> nat \<Rightarrow> u8 list list" where
  "elems m arr sz n = map (\<lambda>i. read_bytes m (elem_at arr sz i) (unat sz)) [0..<n]"

text \<open>The array and the auxiliary element lie apart; the comparison looks at the contents only.\<close>

definition sortable :: "u32 \<Rightarrow> u32 \<Rightarrow> nat \<Rightarrow> u32 \<Rightarrow> bool" where
  "sortable arr sz n tmp \<longleftrightarrow> 0 < unat sz \<and> apart tmp (unat sz) arr (n * unat sz)"

definition compares :: "((u32 \<Rightarrow> u8) \<Rightarrow> u32 \<Rightarrow> u32 \<Rightarrow> int) \<Rightarrow> nat \<Rightarrow> (u8 list \<Rightarrow> u8 list \<Rightarrow> bool) \<Rightarrow> bool" where
  "compares compar k gt \<longleftrightarrow> (\<forall>m p q. compar m p q > 0 \<longleftrightarrow> gt (read_bytes m p k) (read_bytes m q k))"

lemma apart_sym: "apart a n b k \<Longrightarrow> apart b k a n"
  by (auto simp: apart_def)

lemma elem_addr:
  assumes "sortable arr sz n tmp" and "i < n"
  shows "unat (elem_at arr sz i) = unat arr + i * unat sz"
proof -
  have "(i + 1) * unat sz \<le> n * unat sz" using assms(2) by (intro mult_right_mono) auto
  then have le: "unat arr + i * unat sz < 4294967296" using assms(1) by (simp add: sortable_def apart_def algebra_simps)
  have "i < 4294967296" using le assms(1) by (cases "unat sz") (auto simp: sortable_def)
  then have "unat (of_nat i * sz) = i * unat sz" using le unat_mult_lem [of "of_nat i" sz] by (simp add: unat_of_nat32)
  then show ?thesis using le unat_add_no_wrap32 [of arr "of_nat i * sz"] by (simp add: elem_at_def)
qed

lemma elem_apart:
  assumes "sortable arr sz n tmp" and "i < n"
  shows "apart tmp (unat sz) (elem_at arr sz i) (unat sz)" "j < n \<Longrightarrow> i \<noteq> j \<Longrightarrow> apart (elem_at arr sz i) (unat sz) (elem_at arr sz j) (unat sz)"
proof -
  have e: "unat arr + k * unat sz + unat sz \<le> unat arr + n * unat sz" if "k < n" for k
    using mult_right_mono [of "k + 1" n "unat sz"] that by simp
  show "apart tmp (unat sz) (elem_at arr sz i) (unat sz)"
    using assms(1) elem_addr [OF assms] e [OF assms(2)] unfolding sortable_def apart_def by linarith
  show "apart (elem_at arr sz i) (unat sz) (elem_at arr sz j) (unat sz)" if "j < n" "i \<noteq> j"
  proof -
    have "i * unat sz + unat sz \<le> j * unat sz \<or> j * unat sz + unat sz \<le> i * unat sz"
      using that(2) mult_right_mono [of "i + 1" j "unat sz"] mult_right_mono [of "j + 1" i "unat sz"] by (cases "i < j") auto
    then show ?thesis
      using assms(1) elem_addr [OF assms] elem_addr [OF assms(1) that(1)] e [OF assms(2)] e [OF that(1)] unfolding sortable_def apart_def by linarith
  qed
qed

lemma memcpy_u_apart:
  assumes "apart d (unat n) p (unat n)"
  shows "snd (memcpy_u m d p n) = write_bytes m d (read_bytes m p (unat n))"
proof -
  have "d = p \<or> unat n \<le> unat (d - p)"
    using assms unat_sub_if_size [of d p] by (auto simp: apart_def word_size split: if_splits)
  then have "fast_memcpy m d p n = block_copy m d p (unat n)" by (rule fast_memcpy_block_copy)
  then show ?thesis using block_copy_write_bytes [of "unat n" m d p] unat_lt32 [of n] by (simp add: memcpy_u_def fast_memcpy_def Let_def)
qed

text \<open>Bytes outside the array and the auxiliary element.\<close>

definition within :: "u32 \<Rightarrow> nat \<Rightarrow> u32 \<Rightarrow> bool" where
  "within a n z \<longleftrightarrow> unat a \<le> unat z \<and> unat z < unat a + n"

lemma write_bytes_out:
  assumes "unat d + length bs \<le> 4294967296" and "length bs < 4294967296" and "\<not> within d (length bs) z"
  shows "write_bytes m d bs z = m z"
proof -
  have "\<not> unat (z - d) < length bs"
    using assms unat_sub_if_size [of z d] by (auto simp: within_def word_size split: if_splits)
  then show ?thesis by (simp add: write_bytes_eq [OF assms(2)])
qed

lemma swap_elems_ok:
  assumes "apart tmp (unat sz) p (unat sz)" and "apart tmp (unat sz) q (unat sz)" and "apart p (unat sz) q (unat sz)"
  shows "read_bytes (swap_elems tmp sz p q m) p (unat sz) = read_bytes m q (unat sz)"
    "read_bytes (swap_elems tmp sz p q m) q (unat sz) = read_bytes m p (unat sz)"
    "apart tmp (unat sz) a n \<Longrightarrow> apart p (unat sz) a n \<Longrightarrow> apart q (unat sz) a n \<Longrightarrow> n < 4294967296 \<Longrightarrow>
       read_bytes (swap_elems tmp sz p q m) a n = read_bytes m a n"
    "\<not> within tmp (unat sz) z \<Longrightarrow> \<not> within p (unat sz) z \<Longrightarrow> \<not> within q (unat sz) z \<Longrightarrow> swap_elems tmp sz p q m z = m z"
proof -
  let ?k = "unat sz" and ?P = "read_bytes m p (unat sz)" and ?Q = "read_bytes m q (unat sz)"
  have k: "?k < 4294967296" by (rule unat_lt32)
  let ?m1 = "write_bytes m tmp ?P" and ?m2 = "write_bytes (write_bytes m tmp ?P) p ?Q"
  have a: "apart q ?k p ?k" "apart q ?k tmp ?k" "apart p ?k tmp ?k" using assms apart_sym by blast+
  have r1: "read_bytes ?m1 q ?k = ?Q" "read_bytes ?m1 tmp ?k = ?P"
    using read_write_bytes_other [of tmp ?P q ?k m] read_write_bytes [of ?P m tmp] assms(2) k by simp_all
  have r2: "read_bytes ?m2 tmp ?k = ?P" "read_bytes ?m2 p ?k = ?Q"
    using read_write_bytes_other [of p ?Q tmp ?k ?m1] read_write_bytes [of ?Q ?m1 p] r1 a k by simp_all
  have s: "swap_elems tmp sz p q m = write_bytes ?m2 q ?P"
    using memcpy_u_apart [OF assms(1), of m] memcpy_u_apart [OF assms(3), of ?m1] memcpy_u_apart [OF a(2), of ?m2] r1 r2
    by (simp add: swap_elems_def)
  show "read_bytes (swap_elems tmp sz p q m) p ?k = ?Q"
    unfolding s using read_write_bytes_other [of q ?P p ?k ?m2] r2 a k by simp
  show "read_bytes (swap_elems tmp sz p q m) q ?k = ?P"
    unfolding s using read_write_bytes [of ?P ?m2 q] k by simp
  show "read_bytes (swap_elems tmp sz p q m) a n = read_bytes m a n"
    if "apart tmp ?k a n" "apart p ?k a n" "apart q ?k a n" "n < 4294967296"
    unfolding s using that k by (simp add: read_write_bytes_other)
  show "swap_elems tmp sz p q m z = m z" if "\<not> within tmp ?k z" "\<not> within p ?k z" "\<not> within q ?k z"
    unfolding s using that k assms by (simp add: write_bytes_out apart_def)
qed

text \<open>What a step of the sort does to the memory.\<close>

definition sort_step :: "u32 \<Rightarrow> u32 \<Rightarrow> nat \<Rightarrow> u32 \<Rightarrow> (u8 list list \<Rightarrow> u8 list list) \<Rightarrow> (u32 \<Rightarrow> u8) \<Rightarrow> (u32 \<Rightarrow> u8) \<Rightarrow> bool" where
  "sort_step arr sz n tmp f m m' \<longleftrightarrow> elems m' arr sz n = f (elems m arr sz n) \<and>
     (\<forall>z. \<not> within tmp (unat sz) z \<longrightarrow> \<not> within arr (n * unat sz) z \<longrightarrow> m' z = m z)"

lemma elem_within:
  assumes "sortable arr sz n tmp" and "i < n" and "within (elem_at arr sz i) (unat sz) z"
  shows "within arr (n * unat sz) z"
proof -
  have "i * unat sz + unat sz \<le> n * unat sz" using mult_right_mono [of "i + 1" n "unat sz"] assms(2) by simp
  then show ?thesis using assms(3) elem_addr [OF assms(1,2)] by (auto simp: within_def)
qed

lemma swap_step:
  assumes s: "sortable arr sz n tmp" and "i < n" and "j < n" and "i \<noteq> j"
  shows "sort_step arr sz n tmp (\<lambda>xs. xs[i := xs ! j, j := xs ! i]) m (swap_elems tmp sz (elem_at arr sz i) (elem_at arr sz j) m)"
proof -
  let ?m = "swap_elems tmp sz (elem_at arr sz i) (elem_at arr sz j) m"
  note ap = elem_apart(1) [OF s assms(2)] elem_apart(1) [OF s assms(3)] elem_apart(2) [OF s assms(2,3,4)]
  note sw = swap_elems_ok [OF ap]
  have "read_bytes ?m (elem_at arr sz k) (unat sz) = read_bytes m (elem_at arr sz k) (unat sz)" if "k < n" "k \<noteq> i" "k \<noteq> j" for k
    using elem_apart [OF s that(1)] elem_apart(2) [OF s assms(2) that(1)] elem_apart(2) [OF s assms(3) that(1)] that(2,3)
    by (intro sw(3)) (auto intro: unat_lt32)
  then have "elems ?m arr sz n = (elems m arr sz n)[i := elems m arr sz n ! j, j := elems m arr sz n ! i]"
    using sw(1,2) [of m] assms(2-4) by (subst list_eq_iff_nth_eq) (auto simp: elems_def nth_list_update)
  moreover have "?m z = m z" if "\<not> within tmp (unat sz) z" "\<not> within arr (n * unat sz) z" for z
    using that elem_within [OF s assms(2)] elem_within [OF s assms(3)] by (intro sw(4)) blast+
  ultimately show ?thesis by (simp add: sort_step_def)
qed

lemma sort_step_trans: "sort_step arr sz n tmp f m m' \<Longrightarrow> sort_step arr sz n tmp g m' m'' \<Longrightarrow> sort_step arr sz n tmp (\<lambda>xs. g (f xs)) m m''"
  by (simp add: sort_step_def)

lemma qsort_inner_ok:
  assumes s: "sortable arr sz n tmp" and t: "tmp \<noteq> NULL" and c: "compares compar (unat sz) gt" and i: "i < n" and js: "\<forall>j\<in>set js. i < j \<and> j < n"
  shows "\<exists>m'. qsort_inner compar sz arr tmp i js m = Some m' \<and> sort_step arr sz n tmp (fold (exchange gt i) js) m m'"
  using js
proof (induction js arbitrary: m)
  case Nil
  then show ?case by (simp add: sort_step_def)
next
  case (Cons j js)
  let ?sw = "swap_elems tmp sz (elem_at arr sz i) (elem_at arr sz j) m"
  have j: "j < n" "i \<noteq> j" using Cons.prems by auto
  have g: "compar m (elem_at arr sz i) (elem_at arr sz j) > 0 \<longleftrightarrow> gt (elems m arr sz n ! i) (elems m arr sz n ! j)"
    using c i j by (simp add: compares_def elems_def)
  obtain m1 where m1: "m1 = (if gt (elems m arr sz n ! i) (elems m arr sz n ! j) then ?sw else m)" by blast
  have step: "sort_step arr sz n tmp (exchange gt i j) m m1"
    using swap_step [OF s i j, of m] unfolding m1 by (simp add: sort_step_def exchange_def)
  obtain m' where m': "qsort_inner compar sz arr tmp i js m1 = Some m'" "sort_step arr sz n tmp (fold (exchange gt i) js) m1 m'"
    using Cons by force
  have "qsort_inner compar sz arr tmp i (j # js) m = Some m'" using m'(1) t g by (simp add: m1 split: if_splits)
  moreover have "sort_step arr sz n tmp (fold (exchange gt i) (j # js)) m m'"
    using sort_step_trans [OF step m'(2)] by (simp add: comp_def)
  ultimately show ?case by blast
qed

lemma qsort_outer_ok:
  assumes s: "sortable arr sz n tmp" and t: "tmp \<noteq> NULL" and c: "compares compar (unat sz) gt" and ii: "\<forall>i\<in>set ks. i < n"
  shows "\<exists>m'. qsort_outer compar sz arr tmp n ks m = Some m' \<and> sort_step arr sz n tmp (exchange_sort gt ks) m m'"
  using ii
proof (induction ks arbitrary: m)
  case Nil
  then show ?case by (simp add: sort_step_def exchange_sort_def)
next
  case (Cons i js)
  obtain m1 where m1: "qsort_inner compar sz arr tmp i [i + 1..<n] m = Some m1" "sort_step arr sz n tmp (fold (exchange gt i) [i + 1..<n]) m m1"
    using qsort_inner_ok [OF s t c, of i "[i + 1..<n]" m] Cons.prems by auto
  obtain m' where m': "qsort_outer compar sz arr tmp n js m1 = Some m'" "sort_step arr sz n tmp (exchange_sort gt js) m1 m'"
    using Cons by force
  have "sort_step arr sz n tmp (exchange_sort gt (i # js)) m m'"
    using sort_step_trans [OF m1(2) m'(2)] by (simp add: sort_step_def exchange_sort_def elems_def)
  then show ?case using m1(1) m'(1) by auto
qed

lemma qsort_memory:
  assumes "sortable arr sz n tmp" and "tmp \<noteq> NULL" and "compares compar (unat sz) gt" and "preorder_gt gt"
  obtains m' where "qsort_outer compar sz arr tmp n [0..<n] m = Some m'" "sorted_wrt (\<lambda>x y. \<not> gt x y) (elems m' arr sz n)"
    "mset (elems m' arr sz n) = mset (elems m arr sz n)" "\<And>z. \<not> within tmp (unat sz) z \<Longrightarrow> \<not> within arr (n * unat sz) z \<Longrightarrow> m' z = m z"
proof -
  obtain m' where m': "qsort_outer compar sz arr tmp n [0..<n] m = Some m'" "sort_step arr sz n tmp (exchange_sort gt [0..<n]) m m'"
    using qsort_outer_ok [OF assms(1-3), of "[0..<n]" m] by auto
  have l: "length (elems m' arr sz n) = n" by (simp add: elems_def)
  have "placed gt n (elems m' arr sz n)" "mset (elems m' arr sz n) = mset (elems m arr sz n)"
    using exchange_sort_ok [OF assms(4), of n "elems m arr sz n"] m'(2) by (simp_all add: sort_step_def elems_def)
  then show ?thesis using that m' placed_sorted [of gt "elems m' arr sz n"] l by (simp add: sort_step_def)
qed

text \<open>The sort in the heap of a program.\<close>

lemma user_live_bound:
  assumes "user_live s L" and "(r, n) \<in> L"
  shows "unat r + n \<le> 0xFFFFFFF0"
proof -
  obtain e0 A where L: "L = payload ` A" and u: "uheap s e0 A" using assms by (auto simp: user_live_def)
  obtain x where x: "x \<in> A" "payload x = (r, n)" using assms(2) L by auto
  show ?thesis using uheap_block [OF u x(1)] x(2) by (auto simp: payload_def)
qed

lemma same_contents_within:
  assumes "same_contents L s s'" and "(a, k) \<in> L" and "within a k z"
  shows "umem s' z = umem s z"
proof -
  have "unat (z - a) < k" using assms(3) unat_sub_if_size [of z a] by (auto simp: within_def word_size)
  then have "umem s' (a + of_nat (unat (z - a))) = umem s (a + of_nat (unat (z - a)))"
    using assms(1,2) unfolding same_contents_def by blast
  then show ?thesis by simp
qed

lemma elems_cong:
  assumes "sortable arr sz n tmp" and "\<And>z. within arr (n * unat sz) z \<Longrightarrow> m' z = m z"
  shows "elems m' arr sz n = elems m arr sz n"
proof -
  have "read_bytes m' (elem_at arr sz i) (unat sz) = read_bytes m (elem_at arr sz i) (unat sz)" if i: "i < n" for i
  proof (rule read_bytes_cong)
    fix j assume j: "j < unat sz"
    have "unat (elem_at arr sz i) + unat sz \<le> 4294967296" using elem_apart(1) [OF assms(1) i] by (simp add: apart_def)
    moreover have "j < 4294967296" using j unat_lt32 [of sz] by linarith
    ultimately have "unat (elem_at arr sz i + of_nat j) = unat (elem_at arr sz i) + j"
      using j by (subst unat_add_no_wrap32) (auto simp: unat_of_nat32)
    then have "within (elem_at arr sz i) (unat sz) (elem_at arr sz i + of_nat j)" using j by (simp add: within_def)
    then show "m' (elem_at arr sz i + of_nat j) = m (elem_at arr sz i + of_nat j)"
      by (intro assms(2) elem_within [OF assms(1) i])
  qed
  then show ?thesis by (simp add: elems_def)
qed

lemma user_live_write2:
  assumes "user_live s L" and "(r, n) \<in> L" and "(a, k) \<in> L" and "\<And>z. \<not> within r n z \<Longrightarrow> \<not> within a k z \<Longrightarrow> m z = umem s z"
  shows "user_live (s\<lparr>umem := m\<rparr>) L"
proof -
  let ?s = "s\<lparr>umem := \<lambda>z. if within r n z then m z else umem s z\<rparr>"
  have "user_live ?s L"
    by (rule user_live_write [OF assms(1,2)]) (auto simp: within_def)
  then have "user_live (?s\<lparr>umem := m\<rparr>) L"
    by (rule user_live_write [OF _ assms(3)]) (use assms(4) in \<open>auto simp: within_def\<close>)
  then show ?thesis by simp
qed

text \<open>
  C10. \<^verbatim>\<open>qsort\<close> sorts. For an array inside an allocation, a comparison of the contents that orders them totally up
  to equivalence, and an allocation of the auxiliary element that succeeds, the sort ends, the elements of the array are a
  permutation of the old ones in ascending order, and nothing else that the program has allocated changes.
\<close>

theorem qsort_sorts:
  assumes live: "user_live s L" and arr: "(a, k) \<in> L" "unat a \<le> unat arr" "unat arr + unat nmemb * unat sz \<le> unat a + k"
    and sz: "0 < unat sz" "unat sz \<le> 0x7FFFFFE0" and tmp: "malloc sz s = Some (tmp, s1)" "tmp \<noteq> NULL"
    and gt: "compares compar (unat sz) gt" "preorder_gt gt"
  shows "\<exists>s'. qsort_u arr nmemb sz compar s = Some s' \<and> user_live s' L \<and>
    sorted_wrt (\<lambda>x y. \<not> gt x y) (elems (umem s') arr sz (unat nmemb)) \<and>
    mset (elems (umem s') arr sz (unat nmemb)) = mset (elems (umem s) arr sz (unat nmemb)) \<and>
    (\<forall>(p, n)\<in>L. \<forall>z. within p n z \<longrightarrow> \<not> within arr (unat nmemb * unat sz) z \<longrightarrow> umem s' z = umem s z)"
proof -
  let ?n = "unat nmemb"
  obtain n where n: "unat sz \<le> n" "user_live s1 (insert (tmp, n) L)" "\<And>x. x \<in> L \<Longrightarrow> fst x \<noteq> tmp \<and> disjoint_ranges (tmp, n) x"
    and same: "same_contents L s s1"
    using malloc_spec [OF live sz] tmp by auto
  have "apart tmp (unat sz) arr (?n * unat sz)"
    using n(1) n(3) [OF arr(1)] user_live_bound [OF n(2), of tmp n] user_live_bound [OF live arr(1)] arr(2,3)
    by (auto simp: apart_def disjoint_ranges_def)
  then have s: "sortable arr sz ?n tmp" using sz(1) by (simp add: sortable_def)
  obtain m' where m': "qsort_outer compar sz arr tmp ?n [0..<?n] (umem s1) = Some m'" "sorted_wrt (\<lambda>x y. \<not> gt x y) (elems m' arr sz ?n)"
    "mset (elems m' arr sz ?n) = mset (elems (umem s1) arr sz ?n)"
    "\<And>z. \<not> within tmp (unat sz) z \<Longrightarrow> \<not> within arr (?n * unat sz) z \<Longrightarrow> m' z = umem s1 z"
    using qsort_memory [OF s tmp(2) gt, of "umem s1"] by blast
  have "user_live (s1\<lparr>umem := m'\<rparr>) (insert (tmp, n) L)"
    using n(1) arr by (intro user_live_write2 [OF n(2), of tmp n a k] m'(4)) (auto simp: within_def)
  then obtain s' where s': "free tmp (s1\<lparr>umem := m'\<rparr>) = Some s'" "user_live s' L" "same_contents L (s1\<lparr>umem := m'\<rparr>) s'"
    using free_spec [of "s1\<lparr>umem := m'\<rparr>" "insert (tmp, n) L" tmp n] n(3) [of "(tmp, n)"] by fastforce
  have w: "within a k z" if "within arr (?n * unat sz) z" for z using that arr(2,3) by (auto simp: within_def)
  have "elems (umem s') arr sz ?n = elems m' arr sz ?n" "elems (umem s1) arr sz ?n = elems (umem s) arr sz ?n"
    using same_contents_within [OF s'(3) arr(1)] same_contents_within [OF same arr(1)] w by (auto intro!: elems_cong [OF s])
  moreover have "umem s' z = umem s z" if p: "(p, i) \<in> L" "within p i z" "\<not> within arr (?n * unat sz) z" for p i z
  proof -
    have "\<not> within tmp (unat sz) z" using n(1) n(3) [OF p(1)] p(2) by (auto simp: within_def disjoint_ranges_def)
    then show ?thesis
      using same_contents_within [OF s'(3) p(1,2)] same_contents_within [OF same p(1,2)] m'(4) p(3) by simp
  qed
  moreover have "qsort_u arr nmemb sz compar s = Some s'" using tmp(1) m'(1) s'(1) by (simp add: qsort_u_def)
  ultimately show ?thesis using s'(2) m'(2,3) by auto
qed

text \<open>A program that holds sixteen bytes, and compares bytes.\<close>

definition sort_example :: user where
  "sort_example = user_example\<lparr>umem := (store32 (store32 (\<lambda>_. 0) 0x60001000 0x60001000) 0x60002004 3)(0x60002008 := 9, 0x60002009 := 4),
     freep := 0x60001000\<rparr>"

definition byte_compar :: "(u32 \<Rightarrow> u8) \<Rightarrow> u32 \<Rightarrow> u32 \<Rightarrow> int" where
  "byte_compar m p q = uint (m p) - uint (m q)"

lemma sort_example_live: "user_live sort_example {(0x60002008, 16)}"
proof -
  have "load32 (umem sort_example) 0x60001000 = 0x60001000" "load32 (umem sort_example) 0x60001004 = 0" "load32 (umem sort_example) 0x60002004 = 3"
    by (code_simp)+
  then have "fheap (umem sort_example) 0x60001000 [] {(0x60002000, 3)} 0x60010000"
    by (simp add: fheap_def)
  moreover have "sbrk_law sort_example 0x60010000" using user_example_unused by (simp add: unused_def sbrk_law_def sort_example_def)
  ultimately have "uheap sort_example 0x60010000 {(0x60002000, 3)}"
    by (auto simp: uheap_def sort_example_def user_example_def)
  then show ?thesis unfolding user_live_def by (intro exI [of _ "0x60010000"] exI [of _ "{(0x60002000, 3)}"]) (simp add: payload_def)
qed

theorem qsort_sorts_witness:
  "\<exists>s'. qsort_u 0x60002008 2 1 byte_compar sort_example = Some s' \<and>
     sorted_wrt (\<lambda>x y. \<not> hd x > hd y) (elems (umem s') 0x60002008 1 2)"
proof -
  have "\<not> refused n sort_example s'" for n s' by (simp add: refused_def sbrk_refused_def sort_example_def user_example_def)
  then obtain tmp s1 where m: "malloc 1 sort_example = Some (tmp, s1)" "tmp \<noteq> NULL"
    using malloc_spec [OF sort_example_live, of 1] by (auto split: if_splits)
  have c: "compares byte_compar (unat (1 :: u32)) (\<lambda>x y. hd x > hd y)"
    by (simp add: compares_def byte_compar_def read_bytes_def word_less_def)
  have g: "preorder_gt (\<lambda>x y :: u8 list. hd x > hd y)" by (auto simp: preorder_gt_def)
  from qsort_sorts [OF sort_example_live _ _ _ _ _ m c g, of "0x60002008" 16 "0x60002008" 2] show ?thesis by auto
qed

end
