(* ===== verification/User_Realloc.thy ===== *)
theory User_Realloc
  imports User_Std_Props
begin

section \<open>Resizing\<close>







end
