(* ===== verification/User_Text_Props.thy ===== *)
theory User_Text_Props
  imports User_Std
begin

text \<open>
  The library of user programs: reading back printed numbers and addresses.
\<close>

section \<open>Digits\<close>


definition digits_ok :: "int \<Rightarrow> string \<Rightarrow> bool" where
  "digits_ok b xs \<longleftrightarrow> (\<forall>c\<in>set xs. 0 \<le> num_val c \<and> num_val c < b)"

definition digits_value :: "int \<Rightarrow> string \<Rightarrow> 'a::len word \<Rightarrow> 'a word" where
  "digits_value b xs r = fold (\<lambda>c r. r * word_of_int b + word_of_int (num_val c)) xs r"

lemma strtoull_loop_digits: "digits_ok b xs \<Longrightarrow> strtoull_loop b xs r = (digits_value b xs r, [])"
  by (induction xs arbitrary: r) (auto simp: digits_ok_def digits_value_def Let_def)

lemma num_val_digit:
  assumes "d < 16" and "bc = CHR ''a'' \<or> bc = CHR ''A''"
  shows "num_val (char_of (if d < 10 then d + of_char (CHR ''0'') else d - 10 + of_char bc :: nat)) = int d"
proof -
  have u: "uchar (char_of (k :: nat)) = int k" if "k < 256" for k
    using that of_nat_of_char [of "char_of k", where ?'a = int] by (simp add: uchar_def)
  show ?thesis
  proof (cases "d < 10")
    case True
    then show ?thesis using u [of "d + 48"] by (simp add: num_val_def) (simp add: uchar_def)
  next
    case False
    then show ?thesis using assms u [of "87 + d"] u [of "55 + d"] by (auto simp: num_val_def) (auto simp: uchar_def)
  qed
qed

lemma rev_digits_0 [simp]: "rev_digits bc 0 b = []"
  by (subst rev_digits.simps) simp

lemma rev_digits_ok:
  assumes "2 \<le> b" and "b \<le> 16" and "bc = CHR ''a'' \<or> bc = CHR ''A''"
  shows "digits_ok (int b) (rev_digits bc n b) \<and> digits_value (int b) (rev (rev_digits bc n b)) 0 = (of_nat n :: 'a::len word)"
proof (induction n rule: less_induct)
  case (less n)
  show ?case
  proof (cases "n = 0")
    case False
    let ?c = "char_of (if n mod b < 10 then n mod b + of_char (CHR ''0'') else n mod b - 10 + of_char bc)"
    have e: "rev_digits bc n b = ?c # rev_digits bc (n div b) b" using False assms(1) by (subst rev_digits.simps) simp
    have "n mod b < b" using assms(1) by simp
    then have m: "n mod b < 16" using assms(2) by linarith
    have c: "num_val ?c = int (n mod b)" by (rule num_val_digit [OF m assms(3)])
    have "n div b < n" using False assms(1) by simp
    note IH = less [OF this]
    have "(of_nat n :: 'a word) = of_nat (n div b * b + n mod b)" by simp
    also have "\<dots> = of_nat (n div b) * of_nat b + of_nat (n mod b)" by (simp only: of_nat_add of_nat_mult)
    finally have "digits_value (int b) (rev (rev_digits bc n b)) 0 = (of_nat n :: 'a word)"
      using IH c unfolding e by (simp add: digits_value_def)
    moreover have "digits_ok (int b) (rev_digits bc n b)" using IH c \<open>n mod b < b\<close> unfolding e by (simp add: digits_ok_def)
    ultimately show ?thesis by simp
  qed (simp add: digits_ok_def digits_value_def)
qed

text \<open>The text of a number is nonempty, and its digits give it back.\<close>

definition numeral_of :: "int \<Rightarrow> string \<Rightarrow> nat \<Rightarrow> bool" where
  "numeral_of b xs n \<longleftrightarrow> xs \<noteq> [] \<and> digits_ok b xs \<and> digits_value b xs 0 = (of_nat n :: u64) \<and> digits_value b xs 0 = (of_nat n :: u32)"

lemma number_numeral:
  assumes "2 \<le> b" and "b \<le> 16" and "bc = CHR ''a'' \<or> bc = CHR ''A''"
  shows "numeral_of (int b) (number bc n b) n"
proof (cases "n = 0")
  case True
  then show ?thesis using assms(1) by (simp add: number_def numeral_of_def digits_ok_def digits_value_def num_val_def uchar_def)
next
  case False
  then have "rev_digits bc n b \<noteq> []" using assms(1) by (subst rev_digits.simps) simp
  then show ?thesis using False rev_digits_ok [OF assms, of n, where 'a = 64] rev_digits_ok [OF assms, of n, where 'a = 32] by (simp add: number_def numeral_of_def digits_ok_def)
qed

lemma zeros_numeral: "1 \<le> b \<Longrightarrow> numeral_of b xs n \<Longrightarrow> numeral_of b (replicate k (CHR ''0'') @ xs) n"
proof -
  assume b: "1 \<le> b" and x: "numeral_of b xs n"
  have z: "num_val (CHR ''0'') = 0" by (simp add: num_val_def uchar_def)
  have "digits_value b (replicate k (CHR ''0'')) 0 = (0 :: u64)" "digits_value b (replicate k (CHR ''0'')) 0 = (0 :: u32)" by (induction k) (simp_all add: digits_value_def z)
  then show ?thesis using b x by (auto simp: numeral_of_def digits_ok_def digits_value_def z)
qed

lemma digit_not_other:
  assumes "digits_ok b xs" and "xs \<noteq> []" and "b \<le> 16"
  shows "\<not> is_space (hd xs)" "hd xs \<noteq> CHR ''-''" "hd xs \<noteq> CHR ''+''" "\<not> hex_prefix xs"
proof -
  have "hd xs \<in> set xs" using assms(2) by simp
  then have h: "0 \<le> num_val (hd xs)" using assms(1) by (auto simp: digits_ok_def)
  show "\<not> is_space (hd xs)" "hd xs \<noteq> CHR ''-''" "hd xs \<noteq> CHR ''+''"
    using h by (auto simp: is_space_def num_val_def uchar_def)
  show "\<not> hex_prefix xs"
  proof
    assume x: "hex_prefix xs"
    then have "xs ! 1 \<in> set xs" by (simp add: hex_prefix_def)
    then have "num_val (xs ! 1) < 16" using assms(1,3) by (auto simp: digits_ok_def)
    then show False using x by (auto simp: hex_prefix_def num_val_def uchar_def)
  qed
qed

lemma strtoull_numeral:
  assumes "numeral_of b xs n" and "b = 10 \<or> b = 16"
  shows "strtoull (replicate k (CHR '' '') @ xs) b = (of_nat n, [])"
    "strtoull (replicate k (CHR '' '') @ CHR ''-'' # xs) b = (- of_nat n, [])"
proof -
  have d: "digits_ok b xs" "xs \<noteq> []" "b \<le> 16" using assms by (auto simp: numeral_of_def)
  note o = digit_not_other [OF d]
  have "dropWhile is_space (replicate k (CHR '' '') @ ys) = ys" if "ys \<noteq> []" "\<not> is_space (hd ys)" for ys
    using that by (induction k) (auto simp: is_space_def dropWhile_eq_self_iff)
  from this [of xs] this [of "CHR ''-'' # xs"]
  show "strtoull (replicate k (CHR '' '') @ xs) b = (of_nat n, [])"
    "strtoull (replicate k (CHR '' '') @ CHR ''-'' # xs) b = (- of_nat n, [])"
    using o d(2) assms strtoull_loop_digits [OF d(1), of 0]
    by (auto simp: strtoull_def numeral_of_def is_space_def Let_def)
qed

section \<open>Printed numbers\<close>

lemma ucast_of_nat64: "(ucast (of_nat k :: u64) :: u32) = of_nat k" "(ucast (- of_nat k :: u64) :: u32) = - of_nat k"
  by (transfer, simp add: take_bit_take_bit take_bit_minus_small_eq take_bit_eq_mod mod_minus_cong mod_mod_cancel)+

lemma strtoul_padded:
  assumes "numeral_of b ds (unat n)" and "b = 10 \<or> b = 16"
  shows "strtoul (padded False ds z w p) b = (n, [])"
proof -
  obtain k j where "padded False ds z w p = replicate k (CHR '' '') @ replicate j (CHR ''0'') @ ds"
    by (simp add: padded_def Let_def)
  moreover have "numeral_of b (replicate j (CHR ''0'') @ ds) (unat n)" using assms by (intro zeros_numeral) auto
  ultimately show ?thesis using strtoull_numeral(1) [OF _ assms(2)] ucast_of_nat64(1) [of "unat n"] by (simp add: strtoul_def)
qed

lemma strtol_conv_d:
  assumes "n \<noteq> 0x80000000"
  shows "strtol (conv_d n z w p) 10 = (sint n, [])"
proof -
  define m where "m = (if sint n < 0 then - n else n)"
  have pos: "n \<noteq> 0 \<Longrightarrow> 0 < sint m"
    using sint_neg_pos [OF _ assms] unfolding m_def by (metis linorder_neqE_linordered_idom signed_0 signed_word_eqI)
  let ?ds = "number (CHR ''a'') (unat m) 10"
  have nz: "n \<noteq> 0 \<Longrightarrow> unat m \<noteq> 0" by (simp add: m_def unat_eq_0)
  have ds: "(if n = 0 then ''0'' else if sint m > 0 then rev (rev_digits (CHR ''a'') (unat m) 10) else []) = ?ds"
    using pos nz by (simp add: number_def m_def)
  obtain k j where t: "conv_d n z w p = replicate k (CHR '' '') @ (if sint n < 0 then ''-'' else []) @ replicate j (CHR ''0'') @ ?ds"
    unfolding conv_d_def Let_def m_def [symmetric] ds padded_def by blast
  have "numeral_of 10 (replicate j (CHR ''0'') @ ?ds) (unat m)"
    using number_numeral [of 10 "CHR ''a''" "unat m"] by (intro zeros_numeral) auto
  from strtoull_numeral [OF this, of k] show ?thesis
    unfolding t using ucast_of_nat64 [of "unat m"] by (cases "sint n < 0") (simp_all add: strtol_def m_def)
qed

text \<open>
  C16. What a program prints as a number, in any width and precision, with zeros or blanks, \<^verbatim>\<open>strtoul\<close> and \<^verbatim>\<open>strtol\<close> read back:
  unsigned and hexadecimal words, and signed ones but for the most negative.
\<close>

theorem printf_round_trip:
  assumes "parse_spec f = (z, w, p, [k])" and "k \<in> {CHR ''u'', CHR ''x'', CHR ''X'', CHR ''d'', CHR ''i''}"
    and "k = CHR ''d'' \<or> k = CHR ''i'' \<Longrightarrow> n \<noteq> 0x80000000"
  shows "\<exists>t. vsprintf_u (CHR ''%'' # f) [ArgWord n] = Some t \<and>
    (if k = CHR ''u'' then strtoul t 10 = (n, []) else if k = CHR ''x'' \<or> k = CHR ''X'' then strtoul t 16 = (n, [])
     else strtol t 10 = (sint n, []))"
proof -
  have num: "numeral_of 10 (number (CHR ''a'') (unat n) 10) (unat n)" "numeral_of 16 (number (CHR ''a'') (unat n) 16) (unat n)"
      "numeral_of 16 (number (CHR ''A'') (unat n) 16) (unat n)"
    using number_numeral [of 10 "CHR ''a''" "unat n"] number_numeral [of 16 "CHR ''a''" "unat n"] number_numeral [of 16 "CHR ''A''" "unat n"] by simp_all
  show ?thesis
    using assms strtoul_padded [OF num(1)] strtoul_padded [OF num(2)] strtoul_padded [OF num(3)] strtol_conv_d [of n z w p] by auto
qed

theorem printf_round_trip_witness:
  "\<exists>t. vsprintf_u ''%08x'' [ArgWord 0xBEEF] = Some t \<and> strtoul t 16 = (0xBEEF, [])"
proof -
  have "parse_spec ''08x'' = (True, 8, None, ''x'')" by code_simp
  from printf_round_trip [OF this, of "0xBEEF"] show ?thesis by simp
qed

section \<open>Addresses\<close>

lemma inet_part_digits:
  assumes "\<forall>c\<in>set xs. is_digit c" and "rest = [] \<or> \<not> is_digit (hd rest)"
  shows "inet_part (xs @ rest) v d = (fold (\<lambda>c v. v * 10 + digit_of c) xs v, d \<or> xs \<noteq> [], rest)"
  using assms
proof (induction xs arbitrary: v d)
  case Nil
  then show ?case by (cases rest) auto
qed auto

text \<open>The decimal text of a byte.\<close>

lemma byte_text:
  fixes a :: u8
  shows "(\<forall>c\<in>set (conv_d (ucast a) False 0 None). is_digit c) \<and> conv_d (ucast a) False 0 None \<noteq> [] \<and>
    fold (\<lambda>c v. v * 10 + digit_of c) (conv_d (ucast a) False 0 None) 0 = (ucast a :: u32)"
proof -
  let ?t = "conv_d (ucast a) False 0 None"
  have "uint a < 256" "0 \<le> uint a" using uint_lt2p [of a] by simp_all
  then have b: "- 2147483648 \<le> uint a" "uint a < 2147483648" by linarith+
  then have s: "sint (ucast a :: u32) = uint a" using signed_take_bit_int_eq_self [of 31 "uint a"] by (simp add: signed_ucast_eq)
  have z: "ucast a = (0 :: u32) \<longleftrightarrow> unat a = 0" by (simp add: unsigned_eq_0_iff unat_eq_0) (transfer, simp)
  have p: "0 < sint (ucast a :: u32) \<longleftrightarrow> unat a \<noteq> 0" "\<not> sint (ucast a :: u32) < 0" "unat (ucast a :: u32) = unat a"
    using unsigned_less [of a, where 'a = nat] unfolding s uint_nat
    by (simp_all add: unsigned_ucast_eq take_bit_nat_eq_self del: of_nat_unat)
  have "?t = number (CHR ''a'') (unat a) 10"
    by (simp only: conv_d_def padded_def number_def Let_def z p if_False if_True) (cases "unat a = 0"; simp)
  then have n: "numeral_of 10 ?t (unat a)" using number_numeral [of 10 "CHR ''a''" "unat a"] by simp
  have c: "is_digit c \<and> digit_of c = word_of_int (num_val c)" if "0 \<le> num_val c" "num_val c < 10" for c
    using that by (auto simp: num_val_def is_digit_def digit_of_def split: if_splits)
  have "fold (\<lambda>c v. v * 10 + digit_of c) xs v = digits_value 10 xs v" if "digits_ok 10 xs" for xs and v :: u32
    using that c by (induction xs arbitrary: v) (auto simp: digits_ok_def digits_value_def)
  then show ?thesis using n c by (auto simp: numeral_of_def digits_ok_def)
qed

lemma inet_loop_part:
  fixes a :: u8
  shows "inet_loop (Suc n) (conv_d (ucast a) False 0 None @ CHR ''.'' # rest) ps = inet_loop n rest (ps @ [ucast a])"
    "inet_loop (Suc n) (conv_d (ucast a) False 0 None) ps = (ps @ [ucast a], [])"
proof -
  have "\<not> is_digit (CHR ''.'')" by code_simp
  then show "inet_loop (Suc n) (conv_d (ucast a) False 0 None @ CHR ''.'' # rest) ps = inet_loop n rest (ps @ [ucast a])"
    using inet_part_digits [of "conv_d (ucast a) False 0 None" "CHR ''.'' # rest" 0 False] byte_text [of a] by simp
  show "inet_loop (Suc n) (conv_d (ucast a) False 0 None) ps = (ps @ [ucast a], [])"
    using inet_part_digits [of "conv_d (ucast a) False 0 None" "[]" 0 False] byte_text [of a] by simp
qed

lemma inet_bytes:
  fixes a b c d :: u8
  defines "v \<equiv> push_bit 24 (ucast d) OR push_bit 16 (ucast c) OR push_bit 8 (ucast b) OR ucast a :: u32"
  shows "read_bytes (store32 m p v) p 4 = [a, b, c, d]"
proof -
  have n: "ucast v = a \<and> ucast (drop_bit 8 v) = b \<and> ucast (drop_bit 16 v) = c \<and> ucast (drop_bit 24 v) = d"
    unfolding v_def by (intro conjI bit_word_eqI; auto simp: bit_simps dest: bit_imp_le_length)
  have r: "[0..<4] = [0, 1, 2, 3]" by code_simp
  show ?thesis using n by (simp add: read_bytes_def store32_def r)
qed

text \<open>
  A printed address is read back: \<^verbatim>\<open>inet_addr\<close> turns the text that \<^verbatim>\<open>sprintf\<close> makes of four bytes into the word
  that holds them in memory in the order of the network.
\<close>

theorem inet_addr_round_trip:
  fixes a b c d :: u8
  shows "\<exists>t. vsprintf_u ''%d.%d.%d.%d'' [ArgWord (ucast a), ArgWord (ucast b), ArgWord (ucast c), ArgWord (ucast d)] = Some t \<and>
    read_bytes (store32 m p (inet_addr t)) p 4 = [a, b, c, d]"
proof -
  let ?t = "\<lambda>a :: u8. conv_d (ucast a) False 0 None"
  let ?s = "?t a @ CHR ''.'' # ?t b @ CHR ''.'' # ?t c @ CHR ''.'' # ?t d"
  have "vsprintf_u ''%d.%d.%d.%d'' [ArgWord (ucast a), ArgWord (ucast b), ArgWord (ucast c), ArgWord (ucast d)] = Some ?s"
    by (simp add: parse_spec_def take_num_def is_digit_def uchar_def)
  moreover have "inet_loop 4 ?s [] = ([ucast a, ucast b, ucast c, ucast d], [])"
    by (simp add: inet_loop_part eval_nat_numeral del: inet_loop.simps)
  then have "inet_addr ?s = push_bit 24 (ucast d) OR push_bit 16 (ucast c) OR push_bit 8 (ucast b) OR ucast a"
    by (simp add: inet_addr_def eval_nat_numeral)
  ultimately show ?thesis using inet_bytes [of m p d c b a] by auto
qed

end
