(* ===== verification/Shell.thy ===== *)
theory Shell
  imports User_Lib
begin

text \<open>
  The shell, \<^verbatim>\<open>userland/apps/sh.c\<close>: history, completion, the line editor, splitting of a line into arguments, and the commands. The line, the
  history and the names of commands are kept as values; what the kernel is shown lies in the memory of the program,
  at the addresses of its arrays, which are parts of the state: \<open>lit\<close> gives those of the literals, \<open>arr\<close> those of the arrays.
\<close>

section \<open>State\<close>

datatype sh_array = EnvBuf | PrintBuf | Chr | EnvPath | DirPath | Entry | PromptX | PromptY | Line | Args | FullPath | Resolved | Resolved2 | Pfd | Cwd

record shell = user +
  history :: "string list"
  path_cmds :: "string list"
  c_user :: int
  c_host :: int
  c_path :: int
  c_char :: int
  lit :: "string \<Rightarrow> u32"
  arr :: "sh_array \<Rightarrow> u32"

definition MAX_HISTORY :: nat where "MAX_HISTORY = 16"
definition MAX_BINARIES :: nat where "MAX_BINARIES = 64"

definition builtins :: "string list" where
  "builtins = [''help'', ''cd'', ''pwd'', ''exit'', ''clear'', ''rehash'', ''whoiam'', ''su'', ''mount'', ''umount'']"

text \<open>A string in an array that has room for \<open>cap\<close> characters.\<close>

definition put_string :: "nat \<Rightarrow> sh_array \<Rightarrow> string \<Rightarrow> 'z shell_scheme \<Rightarrow> 'z shell_scheme option" where
  "put_string cap a str s = do {
     t \<leftarrow> strcpy cap str;
     Some (s\<lparr>umem := write_bytes (umem s) (arr s a) (map byte_of t @ [0])\<rparr>) }"

definition outf :: "string \<Rightarrow> fmt_arg list \<Rightarrow> 'z shell_scheme \<Rightarrow> 'z shell_scheme option" where
  "outf format args s = do { (_, s) \<leftarrow> printf_u (arr s PrintBuf) format args s; Some s }"

definition color :: "int \<Rightarrow> int \<Rightarrow> 'z shell_scheme \<Rightarrow> 'z shell_scheme option" where
  "color fg bg s = set_color_u (arr s PrintBuf) (word_of_int fg) (word_of_int bg) s"

section \<open>Configuration and the names of commands\<close>

fun starts_with :: "string \<Rightarrow> string \<Rightarrow> bool" where
  "starts_with str [] \<longleftrightarrow> True"
| "starts_with [] (p # ps) \<longleftrightarrow> False"
| "starts_with (c # cs) (p # ps) \<longleftrightarrow> p = c \<and> starts_with cs ps"

definition to_lower_str :: "string \<Rightarrow> string" where
  "to_lower_str str = map (\<lambda>c. if uchar (CHR ''A'') \<le> uchar c \<and> uchar c \<le> uchar (CHR ''Z'') then char_of (nat (uchar c + 32)) else c) str"

text \<open>The value of a variable, if it is set.\<close>

definition env_value :: "string \<Rightarrow> 'z shell_scheme \<Rightarrow> (string option \<times> 'z shell_scheme) option" where
  "env_value key s =
     (let (p, s) = getenv (arr s EnvBuf) (lit s key) s in
      if p = NULL then Some (None, s) else do { val \<leftarrow> str_at (umem s) p; Some (Some val, s) })"

definition env_color :: "string \<Rightarrow> int \<Rightarrow> 'z shell_scheme \<Rightarrow> (int \<times> 'z shell_scheme) option" where
  "env_color key c s = do { (v, s) \<leftarrow> env_value key s; Some (case v of Some t \<Rightarrow> atoi_u t | None \<Rightarrow> c, s) }"

definition load_config :: "'z shell_scheme \<Rightarrow> 'z shell_scheme option" where
  "load_config s = do {
     (v, s) \<leftarrow> env_value ''PATH'' s;
     s \<leftarrow> (case v of Some val \<Rightarrow> put_string 256 EnvPath val s | None \<Rightarrow> Some s);
     (c, s) \<leftarrow> env_color ''PROMPT_USER_COLOR'' (c_user s) s;
     let s = s\<lparr>c_user := c\<rparr>;
     (c, s) \<leftarrow> env_color ''PROMPT_HOST_COLOR'' (c_host s) s;
     let s = s\<lparr>c_host := c\<rparr>;
     (c, s) \<leftarrow> env_color ''PROMPT_PATH_COLOR'' (c_path s) s;
     let s = s\<lparr>c_path := c\<rparr>;
     (c, s) \<leftarrow> env_color ''PROMPT_CHAR_COLOR'' (c_char s) s;
     Some (s\<lparr>c_char := c\<rparr>) }"

text \<open>The entry that \<^verbatim>\<open>readdir\<close> stored: its name and its type.\<close>

definition dirent_name :: "'z shell_scheme \<Rightarrow> string option" where
  "dirent_name s = str_at (umem s) (arr s Entry)"

definition dirent_type :: "'z shell_scheme \<Rightarrow> u8" where
  "dirent_type s = umem s (arr s Entry + 68)"

text \<open>The name without its suffix \<^verbatim>\<open>.elf\<close>; the table has room for names of 31 characters.\<close>

definition cmd_name :: "string \<Rightarrow> string option" where
  "cmd_name nm =
     (let n = length nm in
      if n > 4 \<and> strcmp_u (drop (n - 4) nm) ''.elf'' = 0 then strcpy 32 (take (n - 4) nm) else strcpy 32 nm)"

partial_function (option) rehash_loop :: "u32 \<Rightarrow> 'z shell_scheme \<Rightarrow> 'z shell_scheme option" where
  "rehash_loop idx s =
     (let (r, s) = readdir (arr s EnvPath) idx (arr s Entry) s in
      if r \<noteq> 1 then Some s
      else if dirent_type s = 0 then do {
        nm \<leftarrow> dirent_name s;
        s \<leftarrow> (if length (path_cmds s) < MAX_BINARIES then do { c \<leftarrow> cmd_name (to_lower_str nm); Some (s\<lparr>path_cmds := path_cmds s @ [c]\<rparr>) } else Some s);
        rehash_loop (idx + 1) s }
      else rehash_loop (idx + 1) s)"

definition rehash_path :: "'z shell_scheme \<Rightarrow> 'z shell_scheme option" where
  "rehash_path s = rehash_loop 0 (s\<lparr>path_cmds := []\<rparr>)"

section \<open>History and completion\<close>

definition add_history :: "string \<Rightarrow> string list \<Rightarrow> string list option" where
  "add_history cmd hist =
     (if cmd = [] then Some hist
      else if hist \<noteq> [] \<and> strcmp_u (last hist) cmd = 0 then Some hist
      else do {
        t \<leftarrow> strcpy 256 cmd;
        Some (if length hist < MAX_HISTORY then hist @ [t] else (fold (\<lambda>i h. h[i - 1 := h ! i]) [1..<MAX_HISTORY] hist)[MAX_HISTORY - 1 := t]) })"

definition get_suggestion :: "string \<Rightarrow> string list \<Rightarrow> string option" where
  "get_suggestion inp cmds = (if inp = [] then None else find (\<lambda>c. starts_with c inp) (builtins @ cmds))"

text \<open>The word at the end of the line, and its directory and prefix.\<close>

definition last_word :: "string \<Rightarrow> string" where
  "last_word buffer = rev (takeWhile (\<lambda>c. c \<noteq> CHR '' '') (rev buffer))"

definition split_target :: "string \<Rightarrow> (string \<times> string) option" where
  "split_target target =
     (case strrchr target (CHR ''/'') of
        Some i \<Rightarrow> do { d \<leftarrow> strcpy 128 (take (i + 1) target); p \<leftarrow> strcpy 64 (drop (i + 1) target); Some (d, p) }
      | None \<Rightarrow> do { p \<leftarrow> strcpy 64 target; Some (''.'', p) })"

text \<open>The number of entries that begin with the prefix, and the last one with its type.\<close>

partial_function (option) match_loop :: "string \<Rightarrow> u32 \<Rightarrow> nat \<Rightarrow> string \<Rightarrow> u8 \<Rightarrow> 'z shell_scheme \<Rightarrow> (nat \<times> string \<times> u8 \<times> 'z shell_scheme) option" where
  "match_loop prefix idx n last_match match_type s =
     (let (r, s) = readdir (arr s DirPath) idx (arr s Entry) s in
      if r \<noteq> 1 then Some (n, last_match, match_type, s)
      else do {
        nm \<leftarrow> dirent_name s;
        if strncmp_u (to_upper (take 63 nm)) prefix (int (length prefix)) = 0
        then do { m \<leftarrow> strcpy 64 nm; match_loop prefix (idx + 1) (n + 1) m (dirent_type s) s }
        else match_loop prefix (idx + 1) n last_match match_type s })"

definition get_path_suggestion :: "string \<Rightarrow> 'z shell_scheme \<Rightarrow> (string option \<times> 'z shell_scheme) option" where
  "get_path_suggestion buffer s =
     (if last_word buffer = [] then Some (None, s)
      else do {
        (dir, prefix) \<leftarrow> split_target (last_word buffer);
        s \<leftarrow> put_string 128 DirPath dir s;
        (matches, last_match, match_type, s) \<leftarrow> match_loop (to_upper prefix) 0 0 [] 0 s;
        if matches = 1 then do {
          t \<leftarrow> strcpy 128 (drop (length prefix) last_match);
          t \<leftarrow> (if match_type = 1 then strcat 128 t ''/'' else Some t);
          Some (Some (to_lower t), s) }
        else Some (None, s) })"

section \<open>The line editor\<close>

text \<open>\<open>e_buf\<close> is the array \<^verbatim>\<open>input\<close>, \<open>e_hist\<close> the index into the history. No counter becomes negative: every decrement is guarded.\<close>

record editor =
  e_buf :: string
  e_pos :: nat
  e_len :: nat
  e_hist :: nat

definition KEY_UP :: u8 where "KEY_UP = 17"
definition KEY_DOWN :: u8 where "KEY_DOWN = 18"
definition KEY_LEFT :: u8 where "KEY_LEFT = 19"
definition KEY_RIGHT :: u8 where "KEY_RIGHT = 20"
definition KEY_CTRL_L :: u8 where "KEY_CTRL_L = 12"

definition cstr :: "string \<Rightarrow> string" where
  "cstr b = takeWhile (\<lambda>c. c \<noteq> CHR 0x00) b"

text \<open>\<^verbatim>\<open>strcpy\<close> into the array, and an assignment to one of its elements, with a fault beyond its end.\<close>

definition fill_buf :: "string \<Rightarrow> string \<Rightarrow> string option" where
  "fill_buf str b = (if length str < length b then Some (str @ CHR 0x00 # drop (length str + 1) b) else None)"

definition set_char :: "nat \<Rightarrow> char \<Rightarrow> string \<Rightarrow> string option" where
  "set_char i c b = (if i < length b then Some (b[i := c]) else None)"

definition load_text :: "string \<Rightarrow> editor \<Rightarrow> editor option" where
  "load_text str e = do {
     b \<leftarrow> fill_buf str (e_buf e);
     Some (e\<lparr>e_buf := b, e_len := length (cstr b), e_pos := length (cstr b)\<rparr>) }"

text \<open>The two loops that move characters.\<close>

fun move_left :: "nat list \<Rightarrow> string \<Rightarrow> string option" where
  "move_left [] b = Some b"
| "move_left (i # is) b = do { c \<leftarrow> (if i < length b then Some (b ! i) else None); b \<leftarrow> set_char (i - 1) c b; move_left is b }"

fun move_right :: "nat list \<Rightarrow> string \<Rightarrow> string option" where
  "move_right [] b = Some b"
| "move_right (i # is) b = do { c \<leftarrow> (if i < length b then Some (b ! i) else None); b \<leftarrow> set_char (i + 1) c b; move_right is b }"

definition edit_key :: "string list \<Rightarrow> string option \<Rightarrow> string option \<Rightarrow> u8 \<Rightarrow> editor \<Rightarrow> editor option" where
  "edit_key hist cmd_sug path_sug c e =
     (if c = KEY_UP then
        (if e_hist e > 0 then do {
           h \<leftarrow> (if e_hist e - 1 < length hist then Some (hist ! (e_hist e - 1)) else None);
           load_text h (e\<lparr>e_hist := e_hist e - 1\<rparr>) }
         else Some e)
      else if c = KEY_DOWN then
        (if e_hist e < length hist then
           (if e_hist e + 1 = length hist then do {
              b \<leftarrow> set_char 0 (CHR 0x00) (e_buf e); Some (e\<lparr>e_hist := e_hist e + 1, e_buf := b, e_len := 0, e_pos := 0\<rparr>) }
            else load_text (hist ! (e_hist e + 1)) (e\<lparr>e_hist := e_hist e + 1\<rparr>))
         else Some e)
      else if c = KEY_LEFT then Some (if e_pos e > 0 then e\<lparr>e_pos := e_pos e - 1\<rparr> else e)
      else if c = KEY_RIGHT then Some (if e_pos e < e_len e then e\<lparr>e_pos := e_pos e + 1\<rparr> else e)
      else if c = 8 then
        (if e_pos e > 0 then do {
           b \<leftarrow> move_left [e_pos e..<e_len e + 1] (e_buf e);
           Some (e\<lparr>e_buf := b, e_pos := e_pos e - 1, e_len := e_len e - 1\<rparr>) }
         else Some e)
      else if c = 9 then
        (case (cmd_sug, path_sug) of
           (Some t, _) \<Rightarrow> if e_pos e = e_len e then load_text t e else Some e
         | (None, Some t) \<Rightarrow> if e_pos e = e_len e then load_text (cstr (e_buf e) @ t) e else Some e
         | (None, None) \<Rightarrow> Some e)
      else if 32 \<le> c \<and> c \<le> 126 \<and> e_len e < 254 then do {
        b \<leftarrow> move_right (rev [e_pos e..<e_len e + 1]) (e_buf e);
        b \<leftarrow> set_char (e_pos e) (char_of (unat c)) b;
        Some (e\<lparr>e_buf := b, e_pos := e_pos e + 1, e_len := e_len e + 1\<rparr>) }
      else Some e)"

text \<open>What is drawn before a key is read: the line, the suggestion behind it, and the character under the cursor.\<close>

definition put_char :: "char \<Rightarrow> 'z shell_scheme \<Rightarrow> 'z shell_scheme" where
  "put_char c s = print_char_u (arr s Chr) (ucast (byte_of c)) s"

definition draw_cursor :: "u32 \<Rightarrow> u32 \<Rightarrow> editor \<Rightarrow> int \<Rightarrow> int \<Rightarrow> 'z shell_scheme \<Rightarrow> 'z shell_scheme option" where
  "draw_cursor px py e fg bg s = do {
     s \<leftarrow> color fg bg (set_cursor (px + of_nat (e_pos e)) py s);
     c \<leftarrow> (if e_pos e < length (e_buf e) then Some (e_buf e ! e_pos e) else None);
     Some (put_char (if c = CHR 0x00 then CHR '' '' else c) s) }"

definition suggest :: "editor \<Rightarrow> 'z shell_scheme \<Rightarrow> (string option \<times> string option \<times> nat \<times> 'z shell_scheme) option" where
  "suggest e s =
     (let str = cstr (e_buf e); cmd_sug = get_suggestion str (path_cmds s); at_end = (e_pos e = e_len e \<and> e_len e > 0) in
      case cmd_sug of
        Some t \<Rightarrow>
          (if at_end \<and> length t > e_len e then do {
             s \<leftarrow> color 8 0 s; s \<leftarrow> outf ''%s'' [ArgStr (Some (drop (e_len e) t))] s; Some (cmd_sug, None, length t - e_len e, s) }
           else Some (cmd_sug, None, 0, s))
      | None \<Rightarrow>
          (if at_end then do {
             (path_sug, s) \<leftarrow> get_path_suggestion (to_upper str) s;
             (case path_sug of
                Some t \<Rightarrow> do { s \<leftarrow> color 8 0 s; s \<leftarrow> outf ''%s'' [ArgStr (Some t)] s; Some (None, path_sug, length t, s) }
              | None \<Rightarrow> Some (None, None, 0, s)) }
           else Some (None, None, 0, s)))"

definition draw :: "u32 \<Rightarrow> u32 \<Rightarrow> nat \<Rightarrow> editor \<Rightarrow> 'z shell_scheme \<Rightarrow> (string option \<times> string option \<times> nat \<times> 'z shell_scheme) option" where
  "draw px py max_drawn e s = do {
     let s = fold (\<lambda>_ s. put_char (CHR '' '') s) [0..<max_drawn + 2] (set_cursor px py s);
     s \<leftarrow> color (c_char s) 0 (set_cursor px py s);
     s \<leftarrow> outf ''%s'' [ArgStr (Some (cstr (e_buf e)))] s;
     (cmd_sug, path_sug, sug_len, s) \<leftarrow> suggest e s;
     s \<leftarrow> draw_cursor px py e 0 15 s;
     Some (cmd_sug, path_sug, e_len e + sug_len, set_cursor (px + of_nat (e_pos e)) py s) }"

text \<open>The loop, to the line and \<open>False\<close>, or to \<open>True\<close> after control-L.\<close>

partial_function (option) readline_loop :: "u32 \<Rightarrow> u32 \<Rightarrow> nat \<Rightarrow> editor \<Rightarrow> 'z shell_scheme \<Rightarrow> (bool \<times> editor \<times> 'z shell_scheme) option" where
  "readline_loop px py max_drawn e s = do {
     (cmd_sug, path_sug, max_drawn, s) \<leftarrow> draw px py max_drawn e s;
     let (c, s) = getc (arr s Chr) s;
     s \<leftarrow> draw_cursor px py e (c_char s) 0 s;
     if c = 0x0A \<or> c = 0x0D then Some (False, e, put_char (CHR 0x0A) (set_cursor (px + of_nat (e_len e)) py s))
     else if c = KEY_CTRL_L then Some (True, e, s)
     else do { e \<leftarrow> edit_key (history s) cmd_sug path_sug c e; readline_loop px py max_drawn e s } }"

text \<open>\<open>inp\<close> is what the array holds before.\<close>

definition smart_readline :: "string \<Rightarrow> 'z shell_scheme \<Rightarrow> (bool \<times> string \<times> 'z shell_scheme) option" where
  "smart_readline inp s = do {
     b \<leftarrow> set_char 0 (CHR 0x00) inp;
     let s = get_cursor (arr s PromptX) (arr s PromptY) s;
     (r, e, s) \<leftarrow> readline_loop (load32 (umem s) (arr s PromptX)) (load32 (umem s) (arr s PromptY)) 0
       \<lparr>e_buf = b, e_pos = 0, e_len = 0, e_hist = length (history s)\<rparr> s;
     Some (r, e_buf e, s) }"

section \<open>Arguments\<close>

text \<open>An argument is a place in the line, or the literal of \<^verbatim>\<open>>\<close> or \<^verbatim>\<open>|\<close>.\<close>

datatype tok = At nat | Sym char

text \<open>The arguments of the rest of the line from offset \<open>i\<close> on, and the offsets where the line is cut by terminators.\<close>

function split_loop :: "nat \<Rightarrow> string \<Rightarrow> tok list \<times> nat list" where
  "split_loop i [] = ([], [])"
| "split_loop i (c # cs) =
     (if c = CHR '' '' then split_loop (i + 1) cs
      else if c = CHR ''>'' \<or> c = CHR ''|'' then let (ts, ns) = split_loop (i + 1) cs in (Sym c # ts, i # ns)
      else if c = CHR 0x22 then
        (let w = takeWhile (\<lambda>d. d \<noteq> CHR 0x22) cs in
         case drop (length w) cs of
           [] \<Rightarrow> ([At (i + 1)], [])
         | _ # r \<Rightarrow> let (ts, ns) = split_loop (i + length w + 2) r in (At (i + 1) # ts, (i + 1 + length w) # ns))
      else
        (let w = takeWhile (\<lambda>d. d \<noteq> CHR '' '' \<and> d \<noteq> CHR ''>'' \<and> d \<noteq> CHR ''|'') (c # cs) in
         case drop (length w) (c # cs) of
           [] \<Rightarrow> ([At i], [])
         | d # r \<Rightarrow> let (ts, ns) = split_loop (i + length w + 1) r in (At i # (if d = CHR '' '' then ts else Sym d # ts), (i + length w) # ns)))"
  by pat_completeness auto
termination
proof (relation "measure (\<lambda>(i, str). length str)", goal_cases)
  case (4 i c cs w d r)
  then have "length (d # r) \<le> length cs" using length_drop [of "length w" cs] by (metis diff_le_self)
  then show ?case by simp
next
  case (5 i c cs w d r)
  then have "length (d # r) \<le> length (c # cs)" using length_drop [of "length w" "c # cs"] by (metis diff_le_self)
  then show ?case by simp
qed auto

definition tok_ptr :: "'z shell_scheme \<Rightarrow> tok \<Rightarrow> u32" where
  "tok_ptr s t = (case t of At i \<Rightarrow> arr s Line + of_nat i | Sym c \<Rightarrow> lit s [c])"

text \<open>The array \<^verbatim>\<open>args\<close> has 32 elements, of which the last argument is followed by NULL.\<close>

definition split_args :: "'z shell_scheme \<Rightarrow> (nat \<times> 'z shell_scheme) option" where
  "split_args s = do {
     str \<leftarrow> str_at (umem s) (arr s Line);
     let (ts, ns) = split_loop 0 str;
     if length ts \<ge> 32 then None
     else let m = fold (\<lambda>n m. m(arr s Line + of_nat n := 0)) ns (umem s)
       in Some (length ts, s\<lparr>umem := store_words m (arr s Args) (map (tok_ptr s) ts @ [0])\<rparr>) }"

definition arg :: "'z shell_scheme \<Rightarrow> nat \<Rightarrow> u32" where
  "arg s i = load32 (umem s) (arr s Args + 4 * of_nat i)"

definition set_arg :: "nat \<Rightarrow> u32 \<Rightarrow> 'z shell_scheme \<Rightarrow> 'z shell_scheme" where
  "set_arg i p s = s\<lparr>umem := store32 (umem s) (arr s Args + 4 * of_nat i) p\<rparr>"

text \<open>The string of a pointer; looking at the characters behind NULL is a fault, printing NULL is not.\<close>

definition c_text :: "'z shell_scheme \<Rightarrow> u32 \<Rightarrow> string option" where
  "c_text s p = (if p = NULL then None else str_at (umem s) p)"

definition fmt_str :: "'z shell_scheme \<Rightarrow> u32 \<Rightarrow> fmt_arg option" where
  "fmt_str s p = (if p = NULL then Some (ArgStr None) else do { t \<leftarrow> str_at (umem s) p; Some (ArgStr (Some t)) })"

definition arg_is :: "'z shell_scheme \<Rightarrow> u32 \<Rightarrow> string \<Rightarrow> bool option" where
  "arg_is s p str = do { t \<leftarrow> c_text s p; Some (strcmp_u t str = 0) }"

section \<open>Commands\<close>

definition try_path :: "string \<Rightarrow> fmt_arg list \<Rightarrow> 'z shell_scheme \<Rightarrow> (bool \<times> 'z shell_scheme) option" where
  "try_path format args s = do {
     (_, s) \<leftarrow> format_to 256 (arr s FullPath) format args s;
     let (sz, s) = get_file_size (arr s FullPath) s;
     Some (sint sz > 0, s) }"

definition resolve_path :: "u32 \<Rightarrow> sh_array \<Rightarrow> 'z shell_scheme \<Rightarrow> (bool \<times> 'z shell_scheme) option" where
  "resolve_path cmd resolved s = do {
     c \<leftarrow> c_text s cmd;
     if CHR ''/'' \<in> set c then do { s \<leftarrow> put_string 256 resolved c s; Some (True, s) }
     else do {
       path \<leftarrow> str_at (umem s) (arr s EnvPath);
       (found, s) \<leftarrow> try_path ''%s/%s'' [ArgStr (Some path), ArgStr (Some c)] s;
       (found, s) \<leftarrow> (if found then Some (found, s) else try_path ''%s/%s.elf'' [ArgStr (Some path), ArgStr (Some c)] s);
       if found then do { f \<leftarrow> str_at (umem s) (arr s FullPath); s \<leftarrow> put_string 256 resolved f s; Some (True, s) }
       else Some (False, s) } }"

text \<open>The frame of the prompt is drawn with characters of three bytes.\<close>

definition draw_prompt :: "'z shell_scheme \<Rightarrow> 'z shell_scheme option" where
  "draw_prompt s = do {
     let s = snd (getcwd (arr s Cwd) s);
     s \<leftarrow> color 12 0 s;
     s \<leftarrow> outf ([CHR 0x0A, CHR 0xE2, CHR 0x94, CHR 0x8C, CHR 0xE2, CHR 0x94, CHR 0x80, CHR 0xE2, CHR 0x94, CHR 0x80] @ ''(root@8086-os)'' @ [CHR 0xE2, CHR 0x94, CHR 0x80] @ ''['') [] s;
     s \<leftarrow> color 9 0 s;
     cwd \<leftarrow> str_at (umem s) (arr s Cwd);
     s \<leftarrow> outf ''%s'' [ArgStr (Some cwd)] s;
     s \<leftarrow> color 12 0 s;
     s \<leftarrow> outf ('']'' @ [CHR 0x0A, CHR 0xE2, CHR 0x94, CHR 0x94, CHR 0xE2, CHR 0x94, CHR 0x80] @ ''# '') [] s;
     color 7 0 s }"

text \<open>A trailing \<^verbatim>\<open>&\<close>; then the first \<^verbatim>\<open>>\<close> or \<^verbatim>\<open>|\<close>: the file to redirect to (or NULL), and the index behind the bar.\<close>

definition background :: "nat \<Rightarrow> 'z shell_scheme \<Rightarrow> (bool \<times> nat \<times> 'z shell_scheme) option" where
  "background n s =
     (if n > 0 then do {
        b \<leftarrow> arg_is s (arg s (n - 1)) ''&'';
        Some (if b then (True, n - 1, set_arg (n - 1) NULL s) else (False, n, s)) }
      else Some (False, n, s))"

fun redirection :: "nat list \<Rightarrow> nat \<Rightarrow> 'z shell_scheme \<Rightarrow> (u32 \<times> nat option \<times> 'z shell_scheme) option" where
  "redirection [] n s = Some (NULL, None, s)"
| "redirection (i # is) n s = do {
     gt \<leftarrow> arg_is s (arg s i) ''>'';
     if gt then let s = set_arg i NULL s in Some (if i + 1 < n then arg s (i + 1) else NULL, None, s)
     else do {
       bar \<leftarrow> arg_is s (arg s i) ''|'';
       if bar then Some (NULL, Some (i + 1), set_arg i NULL s) else redirection is n s } }"

definition await :: "bool \<Rightarrow> u32 \<Rightarrow> 'z shell_scheme \<Rightarrow> 'z shell_scheme option" where
  "await bg pid s = (if \<not> bg then Some (waitpid pid s) else outf (''[%d] running in background'' @ [CHR 0x0A]) [ArgWord pid] s)"

definition run_pipe :: "nat \<Rightarrow> 'z shell_scheme \<Rightarrow> 'z shell_scheme option" where
  "run_pipe k s = do {
     (ok, s) \<leftarrow> resolve_path (arg s k) Resolved2 s;
     if ok then
       let s = snd (pipe_u (arr s Pfd) s); rd = load32 (umem s) (arr s Pfd); wr = load32 (umem s) (arr s Pfd + 4);
           (pid1, s) = spawn_ext (arr s Resolved) (arr s Args) (-1) wr s;
           (pid2, s) = spawn_ext (arr s Resolved2) (arr s Args + 4 * of_nat k) rd (-1) s
       in Some (waitpid pid2 (waitpid pid1 (snd (close_u wr (snd (close_u rd s))))))
     else outf (''sh: right command not found'' @ [CHR 0x0A]) [] s }"

definition run_program :: "u32 \<Rightarrow> bool \<Rightarrow> u32 \<Rightarrow> nat option \<Rightarrow> 'z shell_scheme \<Rightarrow> 'z shell_scheme option" where
  "run_program cmd bg redirect_file pipe_idx s = do {
     (ok, s) \<leftarrow> resolve_path cmd Resolved s;
     if \<not> ok then outf (''sh: command not found'' @ [CHR 0x0A]) [] s
     else (case pipe_idx of
         Some k \<Rightarrow> run_pipe k s
       | None \<Rightarrow>
           if redirect_file \<noteq> NULL then
             let (fd, s) = open_u redirect_file (1 OR 0x200 OR 0x400) s in
             if fd \<noteq> -1 then let (pid, s) = spawn_ext (arr s Resolved) (arr s Args) (-1) fd s in await bg pid (snd (close_u fd s))
             else outf (''sh: failed to open redirect file'' @ [CHR 0x0A]) [] s
           else let (pid, s) = spawn_ext (arr s Resolved) (arr s Args) (-1) (-1) s in await bg pid s) }"

definition builtin_mount :: "nat \<Rightarrow> 'z shell_scheme \<Rightarrow> 'z shell_scheme option" where
  "builtin_mount n s =
     (if n < 4 then outf (''Usage: mount /dev/sdX /mnt/folder fs_type'' @ [CHR 0x0A]) [] s
      else let (res, s) = mount_u (arg s 1) (arg s 2) (arg s 3) s in
        if res = 0 then do {
          a \<leftarrow> fmt_str s (arg s 1); b \<leftarrow> fmt_str s (arg s 2);
          outf (''Mounted %s to %s'' @ [CHR 0x0A]) [a, b] s }
        else outf (''Mount failed with code %d'' @ [CHR 0x0A]) [ArgWord res] s)"

text \<open>The commands of the shell itself; \<open>None\<close> in the pair for another command. The flag says whether the shell goes on.\<close>

definition builtin :: "string \<Rightarrow> nat \<Rightarrow> 'z shell_scheme \<Rightarrow> (bool option \<times> 'z shell_scheme) option" where
  "builtin cmd n s =
     (if cmd = ''help'' then do {
        s \<leftarrow> color 7 0 s;
        s \<leftarrow> outf (''Shell built-ins: cd, pwd, exit, clear, rehash, help, su, mount, umount'' @ [CHR 0x0A]) [] s;
        s \<leftarrow> outf (''Included Apps  : ls, cat, nevim, eza, gcc, echo, installer'' @ [CHR 0x0A]) [] s;
        Some (Some True, s) }
      else if cmd = ''cd'' then
        (if n > 1 then
           let (r, s) = chdir (arg s 1) s in
           if r \<noteq> 0 then do { s \<leftarrow> outf (''cd: No such directory'' @ [CHR 0x0A]) [] s; Some (Some True, s) } else Some (Some True, s)
         else Some (Some True, s))
      else if cmd = ''pwd'' then do {
        let s = snd (getcwd (arr s Cwd) s);
        c \<leftarrow> str_at (umem s) (arr s Cwd);
        s \<leftarrow> outf (''%s'' @ [CHR 0x0A]) [ArgStr (Some c)] s;
        Some (Some True, s) }
      else if cmd = ''clear'' then Some (Some True, clear_screen_u s)
      else if cmd = ''mount'' then do { s \<leftarrow> builtin_mount n s; Some (Some True, s) }
      else if cmd = ''umount'' then
        (if n < 2 then do { s \<leftarrow> outf (''Usage: umount /mnt/folder'' @ [CHR 0x0A]) [] s; Some (Some True, s) }
         else let (r, s) = unmount (arg s 1) s in
           do { s \<leftarrow> outf ((if r = 0 then ''Unmounted successfully.'' else ''Unmount failed.'') @ [CHR 0x0A]) [] s; Some (Some True, s) })
      else if cmd = ''rehash'' then do {
        s \<leftarrow> load_config s; s \<leftarrow> rehash_path s;
        s \<leftarrow> outf (''Config reloaded & Path refreshed.'' @ [CHR 0x0A]) [] s;
        Some (Some True, s) }
      else if cmd = ''exit'' then Some (Some False, s)
      else Some (None, s))"

text \<open>A line that was read. \<open>cmd\<close> is read from \<^verbatim>\<open>args\<close> before elements of it are overwritten.\<close>

definition run_line :: "'z shell_scheme \<Rightarrow> (bool \<times> 'z shell_scheme) option" where
  "run_line s = do {
     (n, s) \<leftarrow> split_args s;
     let cmd = arg s 0;
     (bg, n, s) \<leftarrow> background n s;
     (redirect_file, pipe_idx, s) \<leftarrow> redirection [0..<n] n s;
     c \<leftarrow> c_text s cmd;
     (fin, s) \<leftarrow> builtin c n s;
     (case fin of
        Some b \<Rightarrow> Some (b, s)
      | None \<Rightarrow> do { s \<leftarrow> run_program cmd bg redirect_file pipe_idx s; Some (True, s) }) }"

text \<open>One round of the loop of \<^verbatim>\<open>main\<close>; \<open>inp\<close> is the content of the array \<^verbatim>\<open>input\<close>.\<close>

definition sh_round :: "string \<Rightarrow> 'z shell_scheme \<Rightarrow> (bool \<times> string \<times> 'z shell_scheme) option" where
  "sh_round inp s = do {
     s \<leftarrow> draw_prompt s;
     (ctrl_l, inp, s) \<leftarrow> smart_readline inp s;
     if ctrl_l then Some (True, inp, clear_screen_u s)
     else if cstr inp = [] then Some (True, inp, s)
     else do {
       hist \<leftarrow> add_history (cstr inp) (history s);
       (go, s) \<leftarrow> run_line (s\<lparr>history := hist, umem := write_bytes (umem s) (arr s Line) (map byte_of inp)\<rparr>);
       Some (go, map (\<lambda>b. char_of (unat b)) (read_bytes (umem s) (arr s Line) (length inp)), s) } }"

partial_function (option) sh_rounds :: "string \<Rightarrow> 'z shell_scheme \<Rightarrow> 'z shell_scheme option" where
  "sh_rounds inp s = do { (go, inp, s) \<leftarrow> sh_round inp s; if go then sh_rounds inp s else Some s }"

definition main_sh :: "string \<Rightarrow> 'z shell_scheme \<Rightarrow> 'z shell_scheme option" where
  "main_sh inp s = do {
     s \<leftarrow> load_config s;
     s \<leftarrow> rehash_path s;
     sh_rounds inp (snd (signal 2 1 (clear_screen_u s))) }"

end
