(* ===== verification/Shell_Props.thy ===== *)
theory Shell_Props
  imports Shell
begin

text \<open>
  The shell: the line editor implements an editor on the text before and behind the cursor, and a line that is split gives the arguments it
  was written from.
\<close>

section \<open>The editor\<close>

text \<open>The abstract editor: the characters before and behind the cursor, and the index into the history.\<close>

type_synonym line = "string \<times> string \<times> nat"

definition spec_key :: "string list \<Rightarrow> string option \<Rightarrow> string option \<Rightarrow> u8 \<Rightarrow> line \<Rightarrow> line" where
  "spec_key hist cmd_sug path_sug c = (\<lambda>(l, r, h).
     if c = KEY_UP then (if h > 0 then (hist ! (h - 1), [], h - 1) else (l, r, h))
     else if c = KEY_DOWN then
       (if h < length hist then (if h + 1 = length hist then [] else hist ! (h + 1), [], h + 1) else (l, r, h))
     else if c = KEY_LEFT then (butlast l, (if l = [] then r else last l # r), h)
     else if c = KEY_RIGHT then (case r of [] \<Rightarrow> (l, r, h) | x # xs \<Rightarrow> (l @ [x], xs, h))
     else if c = 8 then (butlast l, r, h)
     else if c = 9 then
       (case (cmd_sug, path_sug) of
          (Some t, _) \<Rightarrow> if r = [] then (t, [], h) else (l, r, h)
        | (None, Some t) \<Rightarrow> if r = [] then (l @ t, [], h) else (l, r, h)
        | (None, None) \<Rightarrow> (l, r, h))
     else if 32 \<le> c \<and> c \<le> 126 \<and> length l + length r < 254 then (l @ [char_of (unat c)], r, h)
     else (l, r, h))"

definition line_of :: "editor \<Rightarrow> line" where
  "line_of e = (take (e_pos e) (cstr (e_buf e)), drop (e_pos e) (cstr (e_buf e)), e_hist e)"

definition editor_ok :: "string list \<Rightarrow> editor \<Rightarrow> bool" where
  "editor_ok hist e \<longleftrightarrow> length (e_buf e) = 256 \<and> CHR 0x00 \<in> set (e_buf e) \<and> e_len e = length (cstr (e_buf e)) \<and> e_pos e \<le> e_len e \<and> e_hist e \<le> length hist"

definition line_text :: "string \<Rightarrow> bool" where
  "line_text t \<longleftrightarrow> length t < 256 \<and> CHR 0x00 \<notin> set t"

text \<open>An array that holds a string.\<close>

lemma cstr_append: "CHR 0x00 \<notin> set t \<Longrightarrow> cstr (t @ CHR 0x00 # z) = t"
  unfolding cstr_def by (subst takeWhile_append2) auto

lemma cstr_split: "CHR 0x00 \<in> set b \<Longrightarrow> \<exists>z. b = cstr b @ CHR 0x00 # z \<and> CHR 0x00 \<notin> set (cstr b)"
proof -
  assume "CHR 0x00 \<in> set b"
  then obtain x z where b: "b = x @ CHR 0x00 # z" "CHR 0x00 \<notin> set x" by (metis split_list_first)
  then show ?thesis using cstr_append [of x z] by simp
qed

lemma load_text_ok:
  assumes "length (e_buf e) = 256" and "line_text t" and "e_hist e \<le> length hist"
  shows "\<exists>e'. load_text t e = Some e' \<and> editor_ok hist e' \<and> line_of e' = (t, [], e_hist e)"
  using assms by (simp add: load_text_def fill_buf_def line_text_def editor_ok_def line_of_def cstr_append)

lemma move_left_ok: "move_left [length a + 1..<length a + 1 + length ys] (a @ x # ys @ z) = Some (a @ ys @ last (x # ys) # z)"
proof (induction ys arbitrary: a x)
  case (Cons y ys)
  have u: "[length a + 1..<length a + 1 + length (y # ys)] = (length a + 1) # [length (a @ [y]) + 1..<length (a @ [y]) + 1 + length ys]"
    by (simp add: upt_conv_Cons del: upt_Suc)
  have "move_left [length a + 1..<length a + 1 + length (y # ys)] (a @ x # (y # ys) @ z) =
      move_left [length (a @ [y]) + 1..<length (a @ [y]) + 1 + length ys] ((a @ [y]) @ y # ys @ z)"
    unfolding u by (simp add: set_char_def nth_append list_update_append del: upt_Suc)
  then show ?case using Cons.IH [of "a @ [y]" y] by simp
qed simp

lemma move_right_ok: "move_right (rev [length a..<length a + length ys]) (a @ ys @ w # z) = Some (a @ (if ys = [] then [w] else hd ys # ys) @ z)"
proof (induction ys arbitrary: w z rule: rev_induct)
  case (snoc y ys)
  have "move_right (rev [length a..<length a + length (ys @ [y])]) (a @ (ys @ [y]) @ w # z) =
      move_right (rev [length a..<length a + length ys]) (a @ ys @ y # y # z)"
    by (simp add: set_char_def nth_append list_update_append)
  then show ?case using snoc.IH [of y "y # z"] by (cases ys) simp_all
qed simp

text \<open>A well-formed editor in terms of its line.\<close>

lemma editor_split:
  assumes "editor_ok hist e"
  obtains l r z where "e_buf e = l @ r @ CHR 0x00 # z" "CHR 0x00 \<notin> set l" "CHR 0x00 \<notin> set r" "e_pos e = length l" "e_len e = length l + length r"
    "line_of e = (l, r, e_hist e)" "length l + length r + length z = 255" "e_hist e \<le> length hist"
proof -
  obtain z where z: "e_buf e = cstr (e_buf e) @ CHR 0x00 # z" "CHR 0x00 \<notin> set (cstr (e_buf e))"
    using cstr_split assms unfolding editor_ok_def by blast
  let ?l = "take (e_pos e) (cstr (e_buf e))" and ?r = "drop (e_pos e) (cstr (e_buf e))"
  have "length (e_buf e) = length (cstr (e_buf e)) + 1 + length z" using arg_cong [OF z(1), of length] by simp
  moreover have "e_buf e = ?l @ ?r @ CHR 0x00 # z" using z(1) by (metis append_assoc append_take_drop_id)
  ultimately show ?thesis
    using assms z(2) by (intro that [of ?l ?r z]) (auto simp: editor_ok_def line_of_def dest: in_set_takeD in_set_dropD)
qed

lemma editor_from:
  assumes "length l + length r + length z = 255" and "CHR 0x00 \<notin> set l" and "CHR 0x00 \<notin> set r" and "h \<le> length hist"
  shows "editor_ok hist \<lparr>e_buf = l @ r @ CHR 0x00 # z, e_pos = length l, e_len = length l + length r, e_hist = h\<rparr> \<and>
    line_of \<lparr>e_buf = l @ r @ CHR 0x00 # z, e_pos = length l, e_len = length l + length r, e_hist = h\<rparr> = (l, r, h)"
  using assms cstr_append [of "l @ r" z] by (simp add: editor_ok_def line_of_def)

text \<open>Suggestions and the history fit the line.\<close>

definition fits :: "string list \<Rightarrow> string option \<Rightarrow> string option \<Rightarrow> line \<Rightarrow> bool" where
  "fits hist cmd_sug path_sug = (\<lambda>(l, r, h). (\<forall>t\<in>set hist. line_text t) \<and> (\<forall>t. cmd_sug = Some t \<longrightarrow> line_text t) \<and>
     (\<forall>t. path_sug = Some t \<longrightarrow> line_text (l @ r @ t)))"

lemma key_codes: "KEY_UP = 17" "KEY_DOWN = 18" "KEY_LEFT = 19" "KEY_RIGHT = 20"
  by (simp_all add: KEY_UP_def KEY_DOWN_def KEY_LEFT_def KEY_RIGHT_def)

lemma printable_char: "32 \<le> c \<Longrightarrow> c \<le> 126 \<Longrightarrow> char_of (unat (c :: u8)) \<noteq> CHR 0x00"
proof -
  assume c: "32 \<le> c" "c \<le> 126"
  then have "32 \<le> unat c" "unat c \<le> 126" by (simp_all add: word_le_nat_alt)
  then have "(of_char (char_of (unat c)) :: nat) \<noteq> of_char (CHR 0x00)" by simp
  then show ?thesis by metis
qed

lemma edit_keystroke:
  assumes e: "e = \<lparr>e_buf = l @ r @ CHR 0x00 # z, e_pos = length l, e_len = length l + length r, e_hist = h\<rparr>"
    and len: "length l + length r + length z = 255" and nul: "CHR 0x00 \<notin> set l" "CHR 0x00 \<notin> set r"
  shows "0 < length l \<Longrightarrow> edit_key hist cs ps 8 e = Some \<lparr>e_buf = butlast l @ r @ CHR 0x00 # CHR 0x00 # z, e_pos = length l - 1, e_len = length l + length r - 1, e_hist = h\<rparr>"
    "32 \<le> c \<Longrightarrow> c \<le> 126 \<Longrightarrow> length l + length r < 254 \<Longrightarrow> edit_key hist cs ps c e =
      Some \<lparr>e_buf = (l @ [char_of (unat c)]) @ r @ CHR 0x00 # tl z, e_pos = length l + 1, e_len = length l + length r + 1, e_hist = h\<rparr>"
proof -
  show "edit_key hist cs ps 8 e = Some \<lparr>e_buf = butlast l @ r @ CHR 0x00 # CHR 0x00 # z, e_pos = length l - 1, e_len = length l + length r - 1, e_hist = h\<rparr>" if ne: "0 < length l"
  proof -
    obtain a x where l: "l = a @ [x]" using ne by (cases l rule: rev_cases) auto
    show ?thesis
      using move_left_ok [of a "r @ [CHR 0x00]" x z] by (simp add: edit_key_def e l key_codes del: upt_Suc)
  qed
  show "edit_key hist cs ps c e =
      Some \<lparr>e_buf = (l @ [char_of (unat c)]) @ r @ CHR 0x00 # tl z, e_pos = length l + 1, e_len = length l + length r + 1, e_hist = h\<rparr>"
    if c: "32 \<le> c" "c \<le> 126" "length l + length r < 254"
  proof -
    obtain w y where z: "z = w # y" using len c(3) by (cases z) auto
    have n: "c \<noteq> 17" "c \<noteq> 18" "c \<noteq> 19" "c \<noteq> 20" "c \<noteq> 8" "c \<noteq> 9" using c(1) by auto
    have "move_right (rev [length l..<length l + length r + 1]) (l @ r @ CHR 0x00 # z) = Some (l @ hd (r @ [CHR 0x00]) # r @ CHR 0x00 # y)"
      using move_right_ok [of l "r @ [CHR 0x00]" w y] by (simp add: z del: upt_Suc)
    then show ?thesis using c n by (simp add: edit_key_def e z key_codes set_char_def list_update_append del: upt_Suc)
  qed
qed

lemma edit_recall:
  assumes ok: "editor_ok hist e" and lo: "line_of e = (l, r, e_hist e)" and hist: "\<forall>t\<in>set hist. line_text t" and c: "c = 17 \<or> c = 18"
  shows "\<exists>e'. edit_key hist cs ps c e = Some e' \<and> editor_ok hist e' \<and> line_of e' = spec_key hist cs ps c (line_of e)"
proof -
  have b: "length (e_buf e) = 256" "e_hist e \<le> length hist" using ok by (simp_all add: editor_ok_def)
  have load: "\<exists>e'. load_text (hist ! k) (e\<lparr>e_hist := k\<rparr>) = Some e' \<and> editor_ok hist e' \<and> line_of e' = (hist ! k, [], k)" if "k < length hist" for k
    using load_text_ok [of "e\<lparr>e_hist := k\<rparr>" "hist ! k" hist] b hist that by simp
  from c show ?thesis
  proof
    assume c: "c = 17"
    show ?thesis
    proof (cases "e_hist e > 0")
      case True
      then show ?thesis using load [of "e_hist e - 1"] b c lo by (simp add: edit_key_def spec_key_def key_codes)
    qed (use c ok lo in \<open>simp add: edit_key_def spec_key_def key_codes\<close>)
  next
    assume c: "c = 18"
    have clear: "editor_ok hist (e\<lparr>e_hist := length hist, e_buf := (e_buf e)[0 := CHR 0x00], e_len := 0, e_pos := 0\<rparr>)"
      "line_of (e\<lparr>e_hist := length hist, e_buf := (e_buf e)[0 := CHR 0x00], e_len := 0, e_pos := 0\<rparr>) = ([], [], length hist)"
      using b(1) by (cases "e_buf e"; simp add: editor_ok_def line_of_def cstr_def)+
    consider "e_hist e + 1 = length hist" | "e_hist e + 1 < length hist" | "e_hist e = length hist" using b(2) by linarith
    then show ?thesis
    proof cases
      case 1
      then show ?thesis using clear c lo b(1) by (simp add: edit_key_def spec_key_def key_codes set_char_def)
    next
      case 2
      then show ?thesis using load [of "e_hist e + 1"] c lo by (simp add: edit_key_def spec_key_def key_codes)
    next
      case 3
      then show ?thesis using ok c lo by (simp add: edit_key_def spec_key_def key_codes)
    qed
  qed
qed

lemma edit_complete:
  assumes ok: "editor_ok hist e" and fits: "fits hist cs ps (line_of e)" and c: "c = 9"
  shows "\<exists>e'. edit_key hist cs ps c e = Some e' \<and> editor_ok hist e' \<and> line_of e' = spec_key hist cs ps c (line_of e)"
proof -
  obtain l r z where b: "e_buf e = l @ r @ CHR 0x00 # z" "CHR 0x00 \<notin> set l" "CHR 0x00 \<notin> set r" "e_pos e = length l" "e_len e = length l + length r"
    and lo: "line_of e = (l, r, e_hist e)" and h: "e_hist e \<le> length hist"
    by (rule editor_split [OF ok])
  have load: "\<exists>e'. load_text t e = Some e' \<and> editor_ok hist e' \<and> line_of e' = (t, [], e_hist e)" if "line_text t" for t
    using load_text_ok [of e t hist] ok h that by (simp add: editor_ok_def)
  have cst: "cstr (e_buf e) = l @ r" using cstr_append [of "l @ r" z] b by simp
  show ?thesis
  proof (cases "r = []")
    case True
    then show ?thesis
      using fits load [of "the cs"] load [of "l @ the ps"] b(4,5) cst c ok lo
      by (auto simp: edit_key_def spec_key_def key_codes fits_def split: option.split)
  next
    case False
    then show ?thesis using b(4,5) c ok lo by (auto simp: edit_key_def spec_key_def key_codes split: option.split)
  qed
qed

lemma edit_key_fits:
  assumes ok: "editor_ok hist e" and fits: "fits hist cs ps (line_of e)"
  shows "\<exists>e'. edit_key hist cs ps c e = Some e' \<and> editor_ok hist e' \<and> line_of e' = spec_key hist cs ps c (line_of e)"
proof -
  obtain l r z where b: "e_buf e = l @ r @ CHR 0x00 # z" and nul: "CHR 0x00 \<notin> set l" "CHR 0x00 \<notin> set r" and p: "e_pos e = length l" "e_len e = length l + length r"
    and lo: "line_of e = (l, r, e_hist e)" and len: "length l + length r + length z = 255" and h: "e_hist e \<le> length hist"
    by (rule editor_split [OF ok])
  have e: "e = \<lparr>e_buf = l @ r @ CHR 0x00 # z, e_pos = length l, e_len = length l + length r, e_hist = e_hist e\<rparr>" using b p by simp
  have hist: "\<forall>t\<in>set hist. line_text t" using fits by (simp add: fits_def lo)
  note stroke = edit_keystroke [OF e len nul]
  consider (key_hist) "c = 17 \<or> c = 18" | (key_left) "c = 19" | (key_right) "c = 20" | (key_back) "c = 8" | (key_tab) "c = 9"
    | (key_ins) "32 \<le> c \<and> c \<le> 126 \<and> length l + length r < 254"
    | (key_none) "c \<notin> {17, 18, 19, 20, 8, 9}" "\<not> (32 \<le> c \<and> c \<le> 126 \<and> length l + length r < 254)" by auto
  then show ?thesis
  proof cases
    case key_hist
    then show ?thesis by (rule edit_recall [OF ok lo hist])
  next
    case key_left
    show ?thesis
    proof (cases l rule: rev_cases)
      case Nil
      then show ?thesis using key_left ok lo p by (simp add: edit_key_def spec_key_def key_codes)
    next
      case (snoc a x)
      have "editor_ok hist (e\<lparr>e_pos := length a\<rparr>) \<and> line_of (e\<lparr>e_pos := length a\<rparr>) = (a, x # r, e_hist e)"
        using editor_from [of a "x # r" z "e_hist e" hist] len nul h snoc by (subst (1 2) e) simp
      then show ?thesis using key_left lo p snoc by (simp add: edit_key_def spec_key_def key_codes)
    qed
  next
    case key_right
    show ?thesis
    proof (cases r)
      case Nil
      then show ?thesis using key_right ok lo p by (simp add: edit_key_def spec_key_def key_codes)
    next
      case (Cons x xs)
      have "editor_ok hist (e\<lparr>e_pos := length l + 1\<rparr>) \<and> line_of (e\<lparr>e_pos := length l + 1\<rparr>) = (l @ [x], xs, e_hist e)"
        using editor_from [of "l @ [x]" xs z "e_hist e" hist] len nul h Cons by (subst (1 2) e) simp
      then show ?thesis using key_right lo p Cons by (simp add: edit_key_def spec_key_def key_codes)
    qed
  next
    case key_back
    show ?thesis
    proof (cases "l = []")
      case True
      then show ?thesis using key_back ok lo p by (simp add: edit_key_def spec_key_def key_codes)
    next
      case False
      then have "editor_ok hist \<lparr>e_buf = butlast l @ r @ CHR 0x00 # CHR 0x00 # z, e_pos = length l - 1, e_len = length l + length r - 1, e_hist = e_hist e\<rparr> \<and>
          line_of \<lparr>e_buf = butlast l @ r @ CHR 0x00 # CHR 0x00 # z, e_pos = length l - 1, e_len = length l + length r - 1, e_hist = e_hist e\<rparr> = (butlast l, r, e_hist e)"
        using editor_from [of "butlast l" r "CHR 0x00 # z" "e_hist e" hist] len nul h by (cases l rule: rev_cases) auto
      then show ?thesis using stroke(1) False key_back lo by (simp add: spec_key_def key_codes)
    qed
  next
    case key_tab
    then show ?thesis by (rule edit_complete [OF ok fits])
  next
    case key_ins
    let ?d = "char_of (unat c)"
    have "editor_ok hist \<lparr>e_buf = (l @ [?d]) @ r @ CHR 0x00 # tl z, e_pos = length l + 1, e_len = length l + length r + 1, e_hist = e_hist e\<rparr> \<and>
        line_of \<lparr>e_buf = (l @ [?d]) @ r @ CHR 0x00 # tl z, e_pos = length l + 1, e_len = length l + length r + 1, e_hist = e_hist e\<rparr> = (l @ [?d], r, e_hist e)"
      using editor_from [of "l @ [?d]" r "tl z" "e_hist e" hist] printable_char [of c] len nul h key_ins by (cases z) auto
    moreover have "c \<noteq> 17" "c \<noteq> 18" "c \<noteq> 19" "c \<noteq> 20" "c \<noteq> 8" "c \<noteq> 9" using key_ins by auto
    ultimately show ?thesis using stroke(2) [of c] key_ins lo by (simp add: spec_key_def key_codes)
  next
    case key_none
    then show ?thesis using ok lo p by (auto simp: edit_key_def spec_key_def key_codes)
  qed
qed

text \<open>Suggestions are strings; a completion that the line has no room for.\<close>

definition sources :: "string list \<Rightarrow> string option \<Rightarrow> string option \<Rightarrow> bool" where
  "sources hist cmd_sug path_sug \<longleftrightarrow> (\<forall>t\<in>set hist. line_text t) \<and> (\<forall>t. cmd_sug = Some t \<longrightarrow> line_text t) \<and> (\<forall>t. path_sug = Some t \<longrightarrow> CHR 0x00 \<notin> set t)"

definition overflows :: "string option \<Rightarrow> string option \<Rightarrow> u8 \<Rightarrow> line \<Rightarrow> bool" where
  "overflows cmd_sug path_sug c = (\<lambda>(l, r, h). c = 9 \<and> r = [] \<and> cmd_sug = None \<and> (\<exists>t. path_sug = Some t \<and> 256 \<le> length l + length t))"

text \<open>
  C17. The line editor of the shell is an editor, except where a completion overruns the line. On a well-formed array, with lines of the history
  and names of commands that fit it, every key does to the text before and behind the cursor what the key
  means (moving, inserting, deleting, recalling or completing) and leaves the array well-formed; only Tab with a completed path of 256 characters or more
  writes beyond the array, and then it always does.
\<close>

theorem edit_key_refines:
  assumes ok: "editor_ok hist e" and src: "sources hist cs ps"
  shows "if overflows cs ps c (line_of e) then edit_key hist cs ps c e = None
    else \<exists>e'. edit_key hist cs ps c e = Some e' \<and> editor_ok hist e' \<and> line_of e' = spec_key hist cs ps c (line_of e)"
proof -
  obtain l r z where b: "e_buf e = l @ r @ CHR 0x00 # z" "CHR 0x00 \<notin> set l" "CHR 0x00 \<notin> set r" "e_pos e = length l" "e_len e = length l + length r"
    and lo: "line_of e = (l, r, e_hist e)" and len: "length l + length r + length z = 255"
    by (rule editor_split [OF ok])
  have cst: "cstr (e_buf e) = l @ r" using cstr_append [of "l @ r" z] b by simp
  show ?thesis
  proof (cases "overflows cs ps c (line_of e)")
    case True
    then show ?thesis using b len cst by (auto simp: overflows_def lo edit_key_def key_codes load_text_def fill_buf_def)
  next
    case False
    let ?ps = "if c = 9 \<and> r = [] \<and> cs = None then ps else None"
    have "fits hist cs ?ps (line_of e)" using src False b(2,3) by (auto simp: fits_def sources_def overflows_def lo line_text_def)
    from edit_key_fits [OF ok this, of c]
    have "\<exists>e'. edit_key hist cs ?ps c e = Some e' \<and> editor_ok hist e' \<and> line_of e' = spec_key hist cs ?ps c (line_of e)" .
    moreover have "edit_key hist cs ?ps c e = edit_key hist cs ps c e"
      using b(4,5) by (auto simp: edit_key_def split: option.split)
    moreover have "spec_key hist cs ?ps c (line_of e) = spec_key hist cs ps c (line_of e)" by (auto simp: spec_key_def lo split: option.split)
    ultimately show ?thesis using False by simp
  qed
qed

theorem edit_key_refines_witness:
  "\<exists>e'. edit_key [''ls''] None None 17 \<lparr>e_buf = replicate 256 (CHR 0x00), e_pos = 0, e_len = 0, e_hist = 1\<rparr> = Some e' \<and> line_of e' = (''ls'', [], 0)"
proof -
  let ?e = "\<lparr>e_buf = replicate 256 (CHR 0x00), e_pos = 0, e_len = 0, e_hist = 1\<rparr>"
  have c: "cstr (replicate 256 (CHR 0x00)) = []" by (simp add: cstr_def)
  then have l: "editor_ok [''ls''] ?e" "line_of ?e = ([], [], 1)" by (simp_all add: editor_ok_def line_of_def)
  have "sources [''ls''] None None" by (simp add: sources_def line_text_def)
  from edit_key_refines [OF l(1) this, of 17] obtain e' where "edit_key [''ls''] None None 17 ?e = Some e'" "line_of e' = spec_key [''ls''] None None 17 (line_of ?e)"
    by (auto simp: overflows_def l(2))
  moreover have "spec_key [''ls''] None None 17 ([], [], 1) = (''ls'', [], 0)" by (simp add: spec_key_def key_codes)
  ultimately show ?thesis using l(2) by simp
qed

text \<open>The history keeps what the editor needs: at most sixteen lines that fit the array.\<close>

lemma add_history_ok:
  assumes "length hist \<le> MAX_HISTORY" and "\<forall>t\<in>set hist. line_text t" and "line_text cmd"
  shows "\<exists>hist'. add_history cmd hist = Some hist' \<and> length hist' \<le> MAX_HISTORY \<and> (\<forall>t\<in>set hist'. line_text t)"
proof -
  have c: "strcpy 256 cmd = Some cmd" using assms(3) by (simp add: strcpy_def strlen_def line_text_def)
  let ?sh = "\<lambda>k. fold (\<lambda>i h. h[i - 1 := h ! i]) [1..<k] hist"
  have sh: "length (?sh k) = length hist \<and> (\<forall>t\<in>set (?sh k). line_text t)" if "k \<le> length hist" for k
    using that
  proof (induction k)
    case (Suc k)
    then have "?sh k ! k \<in> set (?sh k)" by simp
    then show ?case using Suc by (cases "k = 0") (auto dest!: set_update_subset_insert [THEN subsetD])
  qed (simp add: assms(2))
  show ?thesis
  proof (cases "cmd = [] \<or> hist \<noteq> [] \<and> strcmp_u (last hist) cmd = 0")
    case True
    then show ?thesis using assms by (auto simp: add_history_def)
  next
    case False
    then have run: "add_history cmd hist = Some (if length hist < MAX_HISTORY then hist @ [cmd] else (?sh MAX_HISTORY)[MAX_HISTORY - 1 := cmd])"
      unfolding add_history_def c Option.bind_lunit by auto
    show ?thesis
    proof (cases "length hist < MAX_HISTORY")
      case True
      then show ?thesis using run assms by simp
    next
      case False
      then have "length hist = MAX_HISTORY" using assms(1) by simp
      then have l: "length (?sh MAX_HISTORY) = MAX_HISTORY" "\<forall>t\<in>set (?sh MAX_HISTORY). line_text t" using sh [of MAX_HISTORY] by simp_all
      have "\<forall>t\<in>set ((?sh MAX_HISTORY)[MAX_HISTORY - 1 := cmd]). line_text t"
        using l(2) assms(3) set_update_subset_insert [of "?sh MAX_HISTORY" "MAX_HISTORY - 1" cmd] by blast
      then show ?thesis using run False l(1) by (simp del: set_update_subset_insert)
    qed
  qed
qed

end
