(* ===== verification/Shell_Args.thy ===== *)
theory Shell_Args
  imports Shell Process_Props
begin

text \<open>
  The arguments of a line that the shell has split: written as words, quoted where needed, they are read back from memory.
\<close>

section \<open>Lines\<close>

definition plain :: "string \<Rightarrow> bool" where
  "plain w \<longleftrightarrow> w \<noteq> [] \<and> hd w \<noteq> CHR 0x22 \<and> set w \<inter> {CHR '' '', CHR ''>'', CHR ''|''} = {}"

definition quote :: "string \<Rightarrow> string" where
  "quote w = (if plain w then w else CHR 0x22 # w @ [CHR 0x22])"

fun command_line :: "string list \<Rightarrow> string" where
  "command_line [] = []"
| "command_line [w] = quote w"
| "command_line (w # v # ws) = quote w @ CHR '' '' # command_line (v # ws)"

definition word_ok :: "string \<Rightarrow> bool" where
  "word_ok w \<longleftrightarrow> CHR 0x00 \<notin> set w \<and> CHR 0x22 \<notin> set w"

text \<open>Where the words of a line that begins at offset \<open>i\<close> lie, and where the line is cut.\<close>

definition start :: "nat \<Rightarrow> string \<Rightarrow> nat" where
  "start i w = (if plain w then i else i + 1)"

fun places :: "nat \<Rightarrow> string list \<Rightarrow> nat list" where
  "places i [] = []"
| "places i (w # ws) = start i w # places (i + length (quote w) + 1) ws"

fun cuts :: "nat \<Rightarrow> string list \<Rightarrow> nat list" where
  "cuts i [] = []"
| "cuts i [w] = (if plain w then [] else [start i w + length w])"
| "cuts i (w # v # ws) = (start i w + length w) # cuts (i + length (quote w) + 1) (v # ws)"

lemma take_quoted: "CHR 0x22 \<notin> set w \<Longrightarrow> takeWhile (\<lambda>d. d \<noteq> CHR 0x22) (w @ CHR 0x22 # z) = w"
  by (subst takeWhile_append2) auto

lemma take_plain:
  assumes "plain w" and "z = [] \<or> hd z = CHR '' ''"
  shows "takeWhile (\<lambda>d. d \<noteq> CHR '' '' \<and> d \<noteq> CHR ''>'' \<and> d \<noteq> CHR ''|'') (w @ z) = w"
proof -
  have "takeWhile (\<lambda>d. d \<noteq> CHR '' '' \<and> d \<noteq> CHR ''>'' \<and> d \<noteq> CHR ''|'') (w @ z) = w @ takeWhile (\<lambda>d. d \<noteq> CHR '' '' \<and> d \<noteq> CHR ''>'' \<and> d \<noteq> CHR ''|'') z"
    using assms(1) by (intro takeWhile_append2) (auto simp: plain_def)
  then show ?thesis using assms(2) by (cases z) auto
qed

lemma split_plain:
  assumes w: "plain w" and z: "z = [] \<or> hd z = CHR '' ''"
  shows "split_loop i (w @ z) = (case z of [] \<Rightarrow> ([At i], []) | d # r \<Rightarrow> let (ts, ns) = split_loop (i + length w + 1) r in (At i # ts, (i + length w) # ns))"
proof -
  obtain c cs where c: "w = c # cs" "c \<noteq> CHR '' ''" "c \<noteq> CHR ''>''" "c \<noteq> CHR ''|''" "c \<noteq> CHR 0x22"
    using w by (cases w) (auto simp: plain_def)
  have "drop (length w) (c # cs @ z) = z" using c(1) by simp
  moreover have "takeWhile (\<lambda>d. d \<noteq> CHR '' '' \<and> d \<noteq> CHR ''>'' \<and> d \<noteq> CHR ''|'') (c # cs @ z) = w" using take_plain [OF w z] c(1) by simp
  moreover have "w @ z = c # (cs @ z)" using c(1) by simp
  ultimately show ?thesis
    using z c(2-5) by (cases z) (simp_all only: split_loop.simps(2) Let_def if_False list.case list.sel split_beta fst_conv snd_conv simp_thms if_True list.distinct)
qed

lemma split_quoted:
  assumes "CHR 0x22 \<notin> set w"
  shows "split_loop i (CHR 0x22 # w @ CHR 0x22 # r) = (let (ts, ns) = split_loop (i + length w + 2) r in (At (i + 1) # ts, (i + 1 + length w) # ns))"
  using take_quoted [OF assms, of r] by simp

declare split_loop.simps(2) [simp del]

lemma split_command_line:
  assumes "\<forall>w\<in>set ws. word_ok w"
  shows "split_loop i (command_line ws) = (map At (places i ws), cuts i ws)"
  using assms
proof (induction i ws rule: cuts.induct)
  case (2 i w)
  then show ?case
    using split_plain [of w "[]" i] split_quoted [of w i "[]"] by (simp add: quote_def start_def word_ok_def)
next
  case (3 i w v ws)
  have sp: "split_loop j (CHR '' '' # r) = split_loop (j + 1) r" for j r by (simp add: split_loop.simps(2))
  show ?case
  proof (cases "plain w")
    case True
    then show ?thesis using 3 split_plain [OF True, of "CHR '' '' # command_line (v # ws)" i] by (simp add: quote_def start_def)
  next
    case False
    then show ?thesis
      using 3 split_quoted [of w i "CHR '' '' # command_line (v # ws)"] sp [of "i + length w + 2" "command_line (v # ws)"]
      by (simp add: quote_def start_def word_ok_def)
  qed
qed simp

section \<open>The words in the line\<close>

definition word_in :: "nat \<Rightarrow> string \<Rightarrow> nat list \<Rightarrow> nat \<Rightarrow> string \<Rightarrow> bool" where
  "word_in i str ns p w \<longleftrightarrow> i \<le> p \<and> p + length w \<le> i + length str \<and> take (length w) (drop (p - i) str) = w \<and>
     (p + length w \<in> set ns \<or> p + length w = i + length str) \<and> (\<forall>c\<in>set ns. c < p \<or> p + length w \<le> c)"

lemma cuts_range: "\<forall>c\<in>set (cuts i ws). i \<le> c \<and> c < i + length (command_line ws)"
proof (induction i ws rule: cuts.induct)
  case (3 i w v ws)
  then show ?case by (fastforce simp: start_def quote_def)
qed (auto simp: start_def quote_def)

lemma length_places [simp]: "length (places i ws) = length ws"
  by (induction i ws rule: places.induct) simp_all

lemma places_words: "k < length ws \<Longrightarrow> word_in i (command_line ws) (cuts i ws) (places i ws ! k) (ws ! k)"
proof (induction i ws arbitrary: k rule: cuts.induct)
  case (2 i w)
  then show ?case by (auto simp: word_in_def start_def quote_def)
next
  case (3 i w v ws)
  let ?i = "i + length (quote w) + 1" and ?str = "command_line (v # ws)"
  show ?case
  proof (cases k)
    case 0
    have "\<forall>c\<in>set (cuts ?i (v # ws)). start i w + length w \<le> c" using cuts_range [of ?i "v # ws"] by (fastforce simp: start_def quote_def)
    then show ?thesis using 0 by (auto simp: word_in_def start_def quote_def)
  next
    case (Suc j)
    define q where "q = places ?i (v # ws) ! j"
    have w: "word_in ?i ?str (cuts ?i (v # ws)) q ((v # ws) ! j)" using 3 Suc by (simp add: q_def)
    then obtain d where d: "q = ?i + d" unfolding word_in_def by (metis le_iff_add)
    have "drop (q - i) (quote w @ CHR '' '' # ?str) = drop (q - ?i) ?str" unfolding d by simp
    moreover have "start i w + length w < ?i" by (simp add: start_def quote_def)
    moreover have "places i (w # v # ws) ! k = q" "(w # v # ws) ! k = (v # ws) ! j" using Suc by (simp_all add: q_def)
    ultimately show ?thesis using w by (auto simp: word_in_def)
  qed
qed simp

section \<open>In memory\<close>

lemma fold_cut: "fold (\<lambda>n m. m(a + of_nat n := 0)) ns m x = (if \<exists>n\<in>set ns. x = a + of_nat n then 0 else m x)"
  by (induction ns arbitrary: m) auto

lemma c_string_nth:
  assumes "c_string m a cs"
  shows "k < length cs \<Longrightarrow> m (a + of_nat k) = byte_of (cs ! k)" "m (a + of_nat (length cs)) = 0"
proof -
  have r: "read_bytes m a (length cs + 1) = map byte_of cs @ [0]" using assms by (simp add: c_string_def)
  have n: "k \<le> length cs \<Longrightarrow> m (a + of_nat k) = (map byte_of cs @ [0]) ! k" for k
    using arg_cong [OF r, of "\<lambda>bs. bs ! k"] by (simp add: read_bytes_def nth_append del: upt_Suc)
  show "k < length cs \<Longrightarrow> m (a + of_nat k) = byte_of (cs ! k)" using n [of k] by (simp add: nth_append)
  show "m (a + of_nat (length cs)) = 0" using n [of "length cs"] by (simp add: nth_append)
qed

lemma c_stringI:
  assumes "CHR 0x00 \<notin> set cs" and "\<And>k. k < length cs \<Longrightarrow> m (a + of_nat k) = byte_of (cs ! k)" and "m (a + of_nat (length cs)) = 0"
  shows "c_string m a cs"
proof -
  have "read_bytes m a (length cs + 1) = map byte_of cs @ [0]"
    by (rule nth_equalityI) (use assms(2,3) in \<open>auto simp: read_bytes_def nth_append less_Suc_eq simp del: upt_Suc\<close>)
  then show ?thesis using assms(1) by (simp add: c_string_def)
qed

lemma cut_word:
  assumes line: "c_string m a str" and lim: "unat a + length str < 4294967296" and w: "word_in 0 str ns p w" and ns: "\<forall>c\<in>set ns. c < length str"
  shows "c_string (fold (\<lambda>n m. m(a + of_nat n := 0)) ns m) (a + of_nat p) w"
proof (rule c_stringI)
  let ?m = "fold (\<lambda>n m. m(a + of_nat n := 0)) ns m"
  have pw: "p + length w \<le> length str" "take (length w) (drop p str) = w" using w by (simp_all add: word_in_def)
  have inj: "a + of_nat i = a + of_nat j \<longleftrightarrow> i = j" if "i \<le> length str" "j \<le> length str" for i j
    using that lim unat_add_of_nat32 [of a i] unat_add_of_nat32 [of a j] by (simp add: word_eq_iff_unat32)
  have el: "w ! k = str ! (p + k)" if "k < length w" for k using pw that by (metis add_leD1 nth_drop nth_take)
  show "CHR 0x00 \<notin> set w" using line pw(2) unfolding c_string_def by (metis in_set_dropD in_set_takeD)
  show "?m (a + of_nat p + of_nat k) = byte_of (w ! k)" if "k < length w" for k
  proof -
    have "\<not> (\<exists>n\<in>set ns. a + of_nat (p + k) = a + of_nat n)"
      using w ns that pw(1) inj [of "p + k"] by (fastforce simp: word_in_def)
    then have "?m (a + of_nat (p + k)) = m (a + of_nat (p + k))" unfolding fold_cut by simp
    then show ?thesis using c_string_nth(1) [OF line, of "p + k"] el [OF that] that pw(1) by (simp add: add.assoc)
  qed
  have "?m (a + of_nat (p + length w)) = 0"
    using w c_string_nth(2) [OF line] unfolding fold_cut by (auto simp: word_in_def)
  then show "?m (a + of_nat p + of_nat (length w)) = 0" by (simp add: add.assoc)
qed

text \<open>
  C18. A command line is split into the words it was written from. Words joined by blanks, and put into quotes where they are empty or hold
  blanks or operators, are found again: \<^verbatim>\<open>split_args\<close> leaves in \<^verbatim>\<open>args\<close> a pointer to each word, terminated in
  place, and NULL behind the last.
\<close>

theorem split_args_words:
  assumes ws: "\<forall>w\<in>set ws. word_ok w" "length ws < 32"
    and line: "c_string (umem s) (arr s Line) (command_line ws)" "unat (arr s Line) + length (command_line ws) < 4294967296"
    and args: "unat (arr s Args) + 128 < 4294967296" "unat (arr s Args) + 128 \<le> unat (arr s Line) \<or> unat (arr s Line) + length (command_line ws) < unat (arr s Args)"
  shows "\<exists>s'. split_args s = Some (length ws, s') \<and> (\<forall>i<length ws. c_string (umem s') (arg s' i) (ws ! i)) \<and> arg s' (length ws) = NULL"
proof -
  let ?a = "arr s Line" and ?str = "command_line ws" and ?ns = "cuts 0 ws"
  let ?m = "fold (\<lambda>n m. m(?a + of_nat n := 0)) ?ns (umem s)"
  let ?ptrs = "map (tok_ptr s) (map At (places 0 ws)) @ [0]"
  let ?s = "s\<lparr>umem := store_words ?m (arr s Args) ?ptrs\<rparr>"
  have run: "split_args s = Some (length ws, ?s)"
    using str_at_c_string [OF line(1)] split_command_line [OF ws(1), of 0] ws(2) by (simp add: split_args_def)
  have len: "unat (arr s Args) + 4 * length ?ptrs < 4294967296" using ws(2) args(1) by simp
  have ptr: "arg ?s i = ?ptrs ! i" if "i \<le> length ws" for i
    using load_store_words [OF _ len, of i ?m] that by (simp add: arg_def)
  have "c_string (umem ?s) (arg ?s i) (ws ! i)" if i: "i < length ws" for i
  proof -
    let ?p = "places 0 ws ! i"
    have w: "word_in 0 ?str ?ns ?p (ws ! i)" by (rule places_words [OF i])
    have "c_string ?m (?a + of_nat ?p) (ws ! i)" by (rule cut_word [OF line w]) (use cuts_range [of 0 ws] in simp)
    moreover have "store_words ?m (arr s Args) ?ptrs (?a + of_nat ?p + of_nat k) = ?m (?a + of_nat ?p + of_nat k)" if k: "k \<le> length (ws ! i)" for k
    proof (rule store_words_outside [OF _ len])
      have "?p + k \<le> length ?str" using w k by (simp add: word_in_def)
      then have "unat (?a + of_nat (?p + k)) = unat ?a + (?p + k)" using line(2) by (intro unat_add_of_nat32) simp
      then have "unat (?a + of_nat ?p + of_nat k) = unat ?a + (?p + k)" by (simp add: add.assoc)
      then show "outside (unat (arr s Args)) (unat (arr s Args) + 4 * length ?ptrs) (?a + of_nat ?p + of_nat k)"
        using args(2) ws(2) \<open>?p + k \<le> length ?str\<close> by (auto simp: outside_def)
    qed
    ultimately have "c_string (store_words ?m (arr s Args) ?ptrs) (?a + of_nat ?p) (ws ! i)" by (blast intro: c_string_cong)
    then show ?thesis using ptr [of i] i by (simp add: tok_ptr_def nth_append)
  qed
  moreover have "arg ?s (length ws) = NULL" using ptr [of "length ws"] by (simp add: nth_append)
  ultimately show ?thesis using run by blast
qed

text \<open>A shell with a line of three words, one of them in quotes.\<close>

definition shell_example :: "(u32 \<Rightarrow> u8) \<Rightarrow> shell" where
  "shell_example m = \<lparr>umem = m, freep = 0, base_addr = 0x60000F00, traps = [], trap_env = (\<lambda>_. -1), trap_mem = (\<lambda>_ m. m),
     history = [], path_cmds = [], c_user = 11, c_host = 10, c_path = 9, c_char = 15, lit = (\<lambda>_. 0x60002000),
     arr = (\<lambda>a. case a of Line \<Rightarrow> 0x60001000 | Args \<Rightarrow> 0x60001800 | _ \<Rightarrow> 0x60003000)\<rparr>"

lemma shell_example_arrays:
  "umem (shell_example m) = m" "arr (shell_example m) Line = 0x60001000" "arr (shell_example m) Args = 0x60001800"
  by (simp_all add: shell_example_def)

theorem split_args_words_witness:
  "\<exists>m s'. c_string m 0x60001000 (command_line [''cat'', ''my file'', ''-n'']) \<and> split_args (shell_example m) = Some (3, s') \<and>
     c_string (umem s') (arg s' 1) ''my file'' \<and> arg s' 3 = NULL"
proof -
  let ?ws = "[''cat'', ''my file'', ''-n'']" and ?m = "write_bytes (\<lambda>_. 0) 0x60001000 (map byte_of (command_line [''cat'', ''my file'', ''-n'']) @ [0])"
  have l: "command_line ?ws = ''cat '' @ [CHR 0x22] @ ''my file'' @ [CHR 0x22] @ '' -n''" by code_simp
  have ok: "\<forall>w\<in>set ?ws. word_ok w" by (simp add: word_ok_def)
  have line: "c_string ?m 0x60001000 (command_line ?ws)" by (rule c_string_written) (unfold l, simp_all)
  then have str: "c_string (umem (shell_example ?m)) (arr (shell_example ?m) Line) (command_line ?ws)" unfolding shell_example_arrays .
  have len: "unat (arr (shell_example ?m) Line) + length (command_line ?ws) < 4294967296" "unat (arr (shell_example ?m) Args) + 128 < 4294967296"
    "unat (arr (shell_example ?m) Args) + 128 \<le> unat (arr (shell_example ?m) Line) \<or> unat (arr (shell_example ?m) Line) + length (command_line ?ws) < unat (arr (shell_example ?m) Args)"
    unfolding l shell_example_arrays by simp_all
  have n: "length ?ws < 32" by simp
  obtain s' where s': "split_args (shell_example ?m) = Some (length ?ws, s')" "\<forall>i<length ?ws. c_string (umem s') (arg s' i) (?ws ! i)" "arg s' (length ?ws) = NULL"
    using split_args_words [OF ok n str len] by blast
  have "length ?ws = 3" "?ws ! 1 = ''my file''" by simp_all
  then show ?thesis using line s' by (metis (no_types, lifting) one_less_numeral_iff semiring_norm(77))
qed

end
