(* ===== verification/Spec2Isabelle.thy ===== *)
theory Spec2Isabelle
  imports Base_Props Heap_Props Paging_Props Disk_Props Fat_Props Video_Props Task_Props Input_Props Vfs_Props Fd_Props
    Syscall_Props Elf_Props Create_Props Sbrk_Props Net_Props Boot_Props User_Heap_Props User_Realloc User_Text_Props
    Shell_Props Shell_Args
begin

text \<open>
  \<^bold>\<open>A verification library for the kernel, the user library and the shell of 8086-OS.\<close>

  8086-OS is a monolithic kernel for 32-bit x86 machines with its own drivers, a FAT32 file system, preemptive
  tasks, signals, pipes, shared memory, an ELF loader, and system calls through one interrupt. All
  definitions translate the C sources under \<^verbatim>\<open>src/\<close>, function by function and under the names of the sources where
  Isabelle allows them; the theories ending in \<open>Props\<close>, \<open>Spec\<close> or \<open>Refine\<close> hold what is proved about them.

  \<^bold>\<open>How the kernel is put together.\<close> \<^verbatim>\<open>kmain\<close> (\<^verbatim>\<open>kernel/core/kernel.c\<close>) installs the interrupt table, starts the heap, the
  screen, paging, the disks, the network card, the mounts and the scheduler, and creates the first process, \<^verbatim>\<open>initd\<close>,
  which starts the programs of its configuration. Then everything happens in interrupts: the timer switches
  tasks, the keyboard and the mouse fill buffers, the network card hands frames to lwIP, and programs
  call the kernel through vector 0x80. Files go through descriptors (\<^verbatim>\<open>fs/fd.c\<close>) to the virtual file system
  (\<^verbatim>\<open>fs/vfs.c\<close>), from there to FAT32 (\<^verbatim>\<open>fs/fat/fat32.c\<close>), to the sector cache (\<^verbatim>\<open>fs/cache.c\<close>) and to a ramdisk, an ATA or an AHCI
  drive. Nearly everything allocates from the heap of \<^verbatim>\<open>kernel/mm/memory.c\<close>.

  \<^bold>\<open>State.\<close> The globals of the kernel are one record, which every component extends by its own:
  \<open>machine\<close> (memory, ticks, ports), \<open>klog_state\<close>, \<open>heap\<close>, \<open>paging\<close>, \<open>drives\<close>, \<open>disk\<close>, \<open>fat\<close>, \<open>video\<close>, \<open>vga\<close>, \<open>tasking\<close>, \<open>input\<close>, \<open>vfs\<close>,
  \<open>fds\<close>, \<open>procs\<close>, \<open>kernel\<close>, \<open>idts\<close>, \<open>net\<close>, \<open>boot\<close>. An operation of a component is polymorphic in what later components add,
  so it applies to the state of the whole kernel as the C function does, and cannot change what it does not know.
  Data that programs, devices and page tables share are bytes of \<open>mem\<close>, at their addresses and with the layout of the compiler;
  structures that only the kernel uses (block headers, tasks, open files, mounts) are records, in a
  map from addresses where the code links them by pointers and in a list where the code has an array.

  A user program is a state of its own, \<open>user\<close>: its memory, the globals of the allocator, and the history of its calls of the kernel.
  \<open>trap_env\<close> and \<open>trap_mem\<close>, functions of this history, are what the kernel answers and writes. What the allocator relies on
  in them is \<open>sbrk_law\<close>: a positive increment is refused, or answered by the old break, and memory below the old break stays as it is. On the
  side of the kernel, \<open>sys_sbrk_grows\<close> shows this for the model of the call.

  \<^bold>\<open>Faults.\<close> An operation that can touch what it must not (NULL, a dead object, an index outside its array, a string that does
  not fit its buffer) returns an option, and \<open>None\<close> is the fault. A theorem that a call is \<open>Some\<close> thus says that it
  returns, and without such a fault. The error codes of the kernel are ordinary results.

  \<^bold>\<open>Environment.\<close> What answers the kernel from outside are functions of the state or parameters: \<open>io_env\<close> and \<open>dma_env\<close> for the
  devices, as functions of the history of accesses; \<open>lwip_env\<close> and \<open>input\<close> for lwIP, which is not part of the
  repository; \<open>resume\<close> for what other tasks and interrupts do to the state while a task waits, wherever the code
  halts or yields in a loop.

  \<^bold>\<open>Loops.\<close> Loops over arrays and strings are structural recursion; digit loops, the tokenisers and UTF-8 decoding are
  functions with a termination proof. Loops the code bounds by a counter keep the counter, and its
  constant, as fuel (the waits of the ATA and AHCI drivers). Loops the code does not bound (walks of linked
  structures, waiting for devices, keys, pipes or children) are partial functions in the option monad, and
  where a property says that they return, this is proved (the walks of the heap and the ring of tasks, the
  freeing of cluster chains, polling the card).

  \<^bold>\<open>Theories.\<close>

  \<^item> \<open>Prelude\<close>, \<open>Machine\<close>: types, shared lemmas; memory, ports, the memory routines (\<^verbatim>\<open>drivers/io/io.c\<close>, \<^verbatim>\<open>kernel/utils/string.c\<close>).
  \<^item> \<open>CString\<close>, \<open>Utils\<close>: C strings and \<^verbatim>\<open>kernel/utils/utils.c\<close>: formatting, the log, paths, configuration text. \<open>Base_Props\<close>: copies
    are right on overlapping ranges, printing and reading numbers and configurations are inverse, paths become canonical,
    the log stays in its buffer.
  \<^item> \<open>Heap\<close>: the allocator. \<open>Linked_Lists\<close> has the two lists that run through its headers, \<open>Heap_Refine\<close>
    relates the pointer operations to lists of blocks, \<open>Heap_Spec\<close> states the invariant and the
    contracts, \<open>Allocator\<close> the interface for clients, \<open>Heap_Props\<close> the theorems: refinement, separation, round trips,
    and safety for every history of requests and of writes into held memory. \<open>Heap_Room\<close>: requests that succeed, and the memory they leave alone.
  \<^item> \<open>Paging\<close>, \<open>Paging_Props\<close>: page tables in memory and the translation of addresses: the identity map, mapping one page, cloning.
  \<^item> \<open>Ahci\<close>, \<open>Disk\<close>: PCI and AHCI; ATA, ramdisk, drive manager and cache. \<open>Disk_Spec\<close>, \<open>Disk_Props\<close>: the cached ramdisk is a block device.
  \<^item> \<open>Fat32\<close>: the file system. \<open>Fat_Spec\<close>, \<open>Fat_Props\<close>: the table as an array of links, free clusters, freeing of chains, names.
  \<^item> \<open>Font\<close>, \<open>Video\<close>, \<open>Vga\<close>, \<open>Video_Props\<close>: frame buffer, graphics console with escape sequences, text console and printf; both
    consoles stay inside their screens.
  \<^item> \<open>Task\<close>, \<open>Task_Props\<close>: the ring of tasks, the scheduler and signals: fair scheduling, delivery of signals and the return from a handler.
  \<^item> \<open>Input\<close>, \<open>Input_Props\<close>: keyboard, mouse, clock, speaker, timer. \<open>Fifo\<close> is the interface of bounded queues.
  \<^item> \<open>Vfs\<close>, \<open>Vfs_Props\<close>: mounts and dispatch. \<open>Fd\<close>, \<open>Fd_Props\<close>: descriptors and pipes; files give back what was written, also when their
    buffer grows, and pipes carry every byte in order, also when writers and readers have to wait: \<open>live_peers\<close> is what a waiting task relies on in the others.
  \<^item> \<open>Process\<close>, \<open>Elf\<close>: creation, exit and waiting of processes, the timer and fault handlers; loading of programs and libraries.
    \<open>Address_Space\<close>, \<open>Elf_Props\<close>: a loaded image is what its file describes. \<open>Process_Props\<close>, \<open>Create_Props\<close>: a new process starts with its
    arguments and with inherited or redirected descriptors, counted in the open files and in both ends of every pipe.
  \<^item> \<open>Syscalls\<close>, \<open>Syscall_Props\<close>: every handler of \<^verbatim>\<open>kernel/syscalls/syscalls.c\<close> and the table; strings from user programs, protected files.
  \<^item> \<open>Idt\<close>, \<open>Net\<close>, \<open>Boot\<close>: interrupt table and controllers, network card, start-up. \<open>Net_Props\<close>, \<open>Boot_Props\<close>: frames are delivered in
    order, every vector has its handler, the list of programs is read as written. \<open>Sbrk_Props\<close>: the heap of a program grows by pages of zeros
    and nothing else of its address space changes.
  \<^item> \<open>User_Heap\<close>, \<open>User_Lib\<close>, \<open>User_Std\<close>: the library that programs are linked with (\<^verbatim>\<open>userland/lib/oslib.c\<close>,
    \<^verbatim>\<open>userland/lib/tcc_stubs.c\<close>): allocator, wrappers of the system calls, strings, formatting, streams, sorting, number parsing.
    \<open>User_Heap_Spec\<close>, \<open>User_Heap_Props\<close>: the circular free list as a sorted list of blocks, the contracts of \<open>malloc\<close>
    and \<open>free\<close>, safety for every history. \<open>User_Std_Props\<close>: \<open>qsort\<close> sorts. \<open>User_Realloc\<close>: resizing keeps the contents. \<open>User_Text_Props\<close>: what
    \<open>printf\<close> writes is read back, numbers and addresses.
  \<^item> \<open>Shell\<close>: the shell, \<^verbatim>\<open>userland/apps/sh.c\<close>, on top of that library. \<open>Shell_Props\<close>: every key of the line editor acts on the
    text around the cursor as its specification says; the history stays bounded. \<open>Shell_Args\<close>: a command line is split into its words.

  \<^bold>\<open>Interfaces.\<close> \<open>allocator\<close> is what clients rely on in \<^verbatim>\<open>kmalloc\<close> and \<^verbatim>\<open>kfree\<close>, interpreted as \<open>kheap\<close>, and in
  \<open>malloc\<close> and \<open>free\<close> of the user library, interpreted as \<open>ualloc\<close>; \<open>link_fields\<close> gives the lemmas on doubly
  linked lists for both lists of the heap (\<open>phys\<close>, \<open>freel\<close>); \<open>block_device\<close> is what the file system relies on in the disk,
  interpreted as \<open>ramdev\<close>; \<open>fifo\<close> is the bounded queue of the two keyboard buffers (\<open>keys\<close>, \<open>codes\<close>) and of a pipe (\<open>pipe\<close>).

  \<^bold>\<open>Conventions.\<close> A system call reads its arguments from the saved registers in memory and writes its result there. The
  memory of the running program is addressed as the kernel addresses memory, so the handlers do not translate user
  addresses; \<open>translate\<close> of \<open>Paging\<close> is the meaning of page tables, and the loader is verified against it. A switch of tasks
  changes the current task, its stack pointer and the page directory; the nine words of registers that the assembly of the switch
  pushes on the old stack and pops from the new one are not part of the state. Interrupts
  appear where the code waits (\<open>resume\<close>) and between operations.
  The headers of heap blocks are kept beside the bytes of memory, so a write outside of what a client holds does not damage them in the
  model; \<open>heap_history_safe\<close> shows that writes inside never reach one. Identifiers of tasks are unbounded integers. What lwIP does with a frame
  (\<^verbatim>\<open>pbuf_take\<close>, \<^verbatim>\<open>netif->input\<close> and \<^verbatim>\<open>pbuf_free\<close> of one it rejects) is the one parameter \<open>input\<close>.

  \<^bold>\<open>Not modelled.\<close> The assembly stubs and the boot header (entry and exit of interrupts, the switch of stacks), which have no
  C source; the screens that \<^verbatim>\<open>panic\<close> draws and the query of the processor's name, where the
  model stops with a fault or takes the text as given; the programs under \<^verbatim>\<open>userland/apps\<close> other than the shell, \<^verbatim>\<open>libgui\<close>, and the
  mathematical functions, which compute with floating point or draw; of the user library, the stubs that return a constant, and
  \<^verbatim>\<open>setjmp\<close> and \<^verbatim>\<open>longjmp\<close>, which are assembly; mbed TLS and stb_truetype, which are third-party code in the repository; lwIP, which is a
  submodule. Caches and translation buffers of the processor appear only as the record of \<open>invlpg\<close>.
\<close>

end
